(* ===== verification/Py_Base.thy ===== *)
theory Py_Base
  imports Complex_Main "HOL-Library.AList"
begin

text \<open>
  The prelude of the development: the conventions by which the Python services are
  written down in HOL, and the lemmas every component uses.

  \<^item> An exception is a value of \<open>exn\<close>; a call that may raise returns \<open>'a res\<close>.
  \<^item> A Python \<open>dict\<close> is an association list in insertion order. Writing a key keeps
    its position when it is present and appends it otherwise, which is what
    \<open>AList.update\<close> does.
  \<^item> An optional value is an \<open>option\<close>; the idioms \<open>x or default\<close> and
    \<open>if x:\<close> on an optional string test truthiness, so the empty string counts as
    absent.
  \<^item> Python floats are exact rationals (\<open>rat\<close>): rounding, NaN and the infinities are
    not modelled. Python integers are \<open>int\<close>.
  \<^item> Generic transition systems carry the reachability argument that the state machines
    of the services share.
\<close>

section \<open>Exceptions and results\<close>

datatype exn =
    HTTPError \<comment> \<open>\<open>httpx.HTTPError\<close>: transport error or a non-2xx status\<close>
  | ValidationError \<comment> \<open>pydantic rejected the data\<close>
  | ValueError
  | KeyError
  | TypeError
  | RuntimeError
  | SystemExit
  | UnsupportedSchemaVersion \<comment> \<open>the event-store's own exceptions\<close>
  | InvalidCursor
  | JourneyNotFound
  | AttributeError
  | OverflowError
  | IntegrityError \<comment> \<open>SQLAlchemy: a uniqueness constraint\<close>
  | DBAPIError \<comment> \<open>SQLAlchemy: the driver or the server refused the statement\<close>

type_synonym 'a res = "exn + 'a"

named_theorems res_iff "when a raising computation returns a value"

definition guard :: "bool \<Rightarrow> 'e \<Rightarrow> 'e + unit" where
  "guard b e = (if b then Inr () else Inl e)"

definition bind_res :: "'e + 'a \<Rightarrow> ('a \<Rightarrow> 'e + 'b) \<Rightarrow> 'e + 'b" where
  "bind_res m f = (case m of Inl e \<Rightarrow> Inl e | Inr x \<Rightarrow> f x)"

lemma bind_res_simps [simp]:
  "bind_res (Inl e) f = Inl e"
  "bind_res (Inr x) f = f x"
  by (simp_all add: bind_res_def)

lemma guard_simps [simp]:
  "guard True e = Inr ()"
  "guard False e = Inl e"
  by (simp_all add: guard_def)

lemma bind_res_Inr_iff [res_iff]: "bind_res m f = Inr y \<longleftrightarrow> (\<exists>x. m = Inr x \<and> f x = Inr y)"
  by (cases m) auto

lemma guard_Inr_iff [res_iff]: "guard b e = Inr u \<longleftrightarrow> b"
  by (simp add: guard_def)

definition of_opt :: "'e \<Rightarrow> 'a option \<Rightarrow> 'e + 'a" where
  "of_opt e x = (case x of None \<Rightarrow> Inl e | Some y \<Rightarrow> Inr y)"

lemma of_opt_simps [simp]: "of_opt e None = Inl e" "of_opt e (Some y) = Inr y"
  by (simp_all add: of_opt_def)

lemma of_opt_Inr_iff [res_iff]: "of_opt e x = Inr y \<longleftrightarrow> x = Some y"
  by (cases x) auto

section \<open>Truthiness of optional strings\<close>

text \<open>\<open>x or d\<close> for an optional string \<open>x\<close>.\<close>

definition str_or :: "string option \<Rightarrow> string \<Rightarrow> string" where
  "str_or x d = (case x of None \<Rightarrow> d | Some s \<Rightarrow> if s = [] then d else s)"

definition truthy :: "string option \<Rightarrow> bool" where
  "truthy x = (case x of None \<Rightarrow> False | Some s \<Rightarrow> s \<noteq> [])"

lemma truthy_simps [simp]: "truthy None = False" "truthy (Some s) = (s \<noteq> [])"
  by (simp_all add: truthy_def)

lemma str_or_simps [simp]:
  "str_or None d = d" "str_or (Some []) d = d" "str_or (Some (c # s)) d = c # s"
  by (simp_all add: str_or_def)

lemma str_or_nonempty: "d \<noteq> [] \<Longrightarrow> str_or x d \<noteq> []"
  by (auto simp: str_or_def split: option.splits)

text \<open>\<open>if model.x is not None: self.x = model.x\<close>: the push replaces or keeps.\<close>

definition keep_or :: "'a option \<Rightarrow> 'a \<Rightarrow> 'a" where
  "keep_or new old = (case new of None \<Rightarrow> old | Some v \<Rightarrow> v)"

lemma keep_or_simps [simp]: "keep_or None old = old" "keep_or (Some v) old = v"
  by (simp_all add: keep_or_def)

lemma keep_or_idem [simp]: "keep_or n (keep_or n x) = keep_or n x"
  by (cases n) simp_all

text \<open>The same for an attribute that is itself optional.\<close>

definition keep_some :: "'a option \<Rightarrow> 'a option \<Rightarrow> 'a option" where
  "keep_some new old = (case new of None \<Rightarrow> old | Some v \<Rightarrow> Some v)"

lemma keep_some_simps [simp]: "keep_some None old = old" "keep_some (Some v) old = Some v"
  by (simp_all add: keep_some_def)

lemma keep_some_idem [simp]: "keep_some n (keep_some n x) = keep_some n x"
  by (cases n) simp_all

section \<open>Dictionaries\<close>

type_synonym ('k, 'v) dict = "('k \<times> 'v) list"

abbreviation dget :: "('k, 'v) dict \<Rightarrow> 'k \<Rightarrow> 'v option" where
  "dget \<equiv> map_of"

definition dset :: "('k, 'v) dict \<Rightarrow> 'k \<Rightarrow> 'v \<Rightarrow> ('k, 'v) dict" where
  "dset d k v = AList.update k v d"

definition ddel :: "('k, 'v) dict \<Rightarrow> 'k \<Rightarrow> ('k, 'v) dict" where
  "ddel d k = AList.delete k d"

definition dkeys :: "('k, 'v) dict \<Rightarrow> 'k list" where
  "dkeys d = map fst d"

definition dhas :: "('k, 'v) dict \<Rightarrow> 'k \<Rightarrow> bool" where
  "dhas d k = (k \<in> set (dkeys d))"

definition dwf :: "('k, 'v) dict \<Rightarrow> bool" where
  "dwf d = distinct (dkeys d)"

lemma dset_simps [simp]:
  "dset [] k v = [(k, v)]"
  "dset ((k', v') # d) k v = (if k' = k then (k, v) # d else (k', v') # dset d k v)"
  by (simp_all add: dset_def)

lemma ddel_simps [simp]:
  "ddel [] k = []"
  "ddel ((k', v') # d) k = (if k' = k then ddel d k else (k', v') # ddel d k)"
  by (simp_all add: ddel_def AList.delete_eq)

lemma dget_dset [simp]: "dget (dset d k v) k' = (if k' = k then Some v else dget d k')"
  by (simp add: dset_def AList.update_conv')

lemma dget_ddel [simp]: "dget (ddel d k) k' = (if k' = k then None else dget d k')"
  by (simp add: ddel_def AList.delete_conv')

lemma dkeys_dom: "set (dkeys d) = dom (dget d)"
  by (simp add: dkeys_def dom_map_of_conv_image_fst)

lemma dkeys_dset: "set (dkeys (dset d k v)) = insert k (set (dkeys d))"
  by (simp add: dkeys_dom dom_def set_eq_iff)

lemma dkeys_ddel: "set (dkeys (ddel d k)) = set (dkeys d) - {k}"
  by (auto simp: dkeys_dom dom_def)

lemma dhas_iff: "dhas d k \<longleftrightarrow> dget d k \<noteq> None"
  by (simp add: dhas_def dkeys_def map_of_eq_None_iff)

lemma dhas_dset [simp]: "dhas (dset d k v) k' \<longleftrightarrow> k' = k \<or> dhas d k'"
  by (auto simp: dhas_iff)

lemma dhas_ddel [simp]: "dhas (ddel d k) k' \<longleftrightarrow> k' \<noteq> k \<and> dhas d k'"
  by (auto simp: dhas_iff)

lemma dwf_Nil [simp]: "dwf []"
  by (simp add: dwf_def dkeys_def)

lemma dwf_dset [simp]: "dwf d \<Longrightarrow> dwf (dset d k v)"
  by (simp add: dwf_def dkeys_def dset_def AList.distinct_update)

lemma dwf_ddel [simp]: "dwf d \<Longrightarrow> dwf (ddel d k)"
  by (simp add: dwf_def dkeys_def ddel_def AList.distinct_delete)

lemma dset_new: "\<not> dhas d k \<Longrightarrow> dset d k v = d @ [(k, v)]"
  by (induction d) (auto simp: dhas_def dkeys_def)

lemma dkeys_dset_same: "dhas d k \<Longrightarrow> dkeys (dset d k v) = dkeys d"
  by (induction d) (force simp: dkeys_def dhas_def)+

lemma set_dset: "set (dset d k v) \<subseteq> insert (k, v) (set d)"
  by (induction d) (auto split: if_splits)

lemma length_dset: "length (dset d k v) = (if dhas d k then length d else Suc (length d))"
  by (induction d) (auto simp: dhas_iff split: if_splits)

lemma ddel_absent: "\<not> dhas d k \<Longrightarrow> ddel d k = d"
  by (induction d) (auto simp: dhas_def dkeys_def)

text \<open>\<open>dict.setdefault(k, v)\<close>: keep the stored value, or store the default.\<close>

definition dsetdefault :: "('k, 'v) dict \<Rightarrow> 'k \<Rightarrow> 'v \<Rightarrow> ('k, 'v) dict" where
  "dsetdefault d k v = (if dhas d k then d else dset d k v)"

text \<open>\<open>dict.get(k, default)\<close>.\<close>

definition dget_or :: "('k, 'v) dict \<Rightarrow> 'k \<Rightarrow> 'v \<Rightarrow> 'v" where
  "dget_or d k v = (case dget d k of None \<Rightarrow> v | Some x \<Rightarrow> x)"

lemma dget_or_dset [simp]: "dget_or (dset d k v) k' x = (if k' = k then v else dget_or d k' x)"
  by (simp add: dget_or_def)

lemma dget_or_ddel [simp]: "dget_or (ddel d k) k' x = (if k' = k then x else dget_or d k' x)"
  by (simp add: dget_or_def)

lemma dget_or_Nil [simp]: "dget_or [] k x = x"
  by (simp add: dget_or_def)

text \<open>\<open>{**a, **b}\<close>: the entries of \<open>b\<close> written over \<open>a\<close>.\<close>

definition dmerge :: "('k, 'v) dict \<Rightarrow> ('k, 'v) dict \<Rightarrow> ('k, 'v) dict" where
  "dmerge a b = foldl (\<lambda>d (k, v). dset d k v) a b"

section \<open>Keyed stores\<close>

text \<open>
  The interface the services use a dictionary or a database table through: read a key,
  write a key, drop a key.
\<close>

locale keyed_store =
  fixes look :: "'s \<Rightarrow> 'k \<Rightarrow> 'v option"
    and put :: "'s \<Rightarrow> 'k \<Rightarrow> 'v \<Rightarrow> 's"
    and del :: "'s \<Rightarrow> 'k \<Rightarrow> 's"
  assumes look_put: "look (put s k v) k' = (if k' = k then Some v else look s k')"
    and look_del: "look (del s k) k' = (if k' = k then None else look s k')"
begin

lemma put_put: "look (put (put s k v) k w) = look (put s k w)"
  by (rule ext) (simp add: look_put)

lemma put_commute: "k \<noteq> l \<Longrightarrow> look (put (put s k v) l w) = look (put (put s l w) k v)"
  by (rule ext) (simp add: look_put)

lemma del_put: "look (del (put s k v) k) = look (del s k)"
  by (rule ext) (simp add: look_put look_del)

lemma look_puts:
  "look (foldl (\<lambda>s (k, v). put s k v) s kvs) k =
     (case map_of (rev kvs) k of None \<Rightarrow> look s k | Some v \<Rightarrow> Some v)"
  by (induction kvs arbitrary: s) (auto simp: look_put map_add_def split: option.splits)

lemma look_puts_absent:
  "k \<notin> fst ` set kvs \<Longrightarrow> look (foldl (\<lambda>s (k, v). put s k v) s kvs) k = look s k"
  by (induction kvs arbitrary: s) (auto simp: look_put)

end

interpretation dict: keyed_store dget dset ddel
  by unfold_locales simp_all

lemma dget_dmerge: "dget (dmerge a b) k = (case map_of (rev b) k of None \<Rightarrow> dget a k | Some v \<Rightarrow> Some v)"
  unfolding dmerge_def by (rule dict.look_puts)

section \<open>Transition systems\<close>

inductive reach :: "('s \<Rightarrow> bool) \<Rightarrow> ('s \<Rightarrow> 's \<Rightarrow> bool) \<Rightarrow> 's \<Rightarrow> bool"
  for init :: "'s \<Rightarrow> bool" and step :: "'s \<Rightarrow> 's \<Rightarrow> bool" where
  reach_init: "init s \<Longrightarrow> reach init step s"
| reach_step: "reach init step s \<Longrightarrow> step s t \<Longrightarrow> reach init step t"

locale invariant_system =
  fixes init :: "'s \<Rightarrow> bool" and step :: "'s \<Rightarrow> 's \<Rightarrow> bool" and inv :: "'s \<Rightarrow> bool"
  assumes init_inv: "init s \<Longrightarrow> inv s"
    and step_inv: "inv s \<Longrightarrow> step s t \<Longrightarrow> inv t"
begin

lemma reach_inv: "reach init step s \<Longrightarrow> inv s"
  by (induction rule: reach.induct) (auto intro: init_inv step_inv)

lemma steps_inv: "step\<^sup>*\<^sup>* s t \<Longrightarrow> inv s \<Longrightarrow> inv t"
  by (induction rule: rtranclp_induct) (auto intro: step_inv)

end

end
