(* ===== verification/Py_Text.thy ===== *)
theory Py_Text
  imports Py_Base
begin

text \<open>
  Python strings and the string operations the services use. A \<open>string\<close> is a list of
  \<open>char\<close>, read as the code points 0 to 255; within that range the character class
  \<open>\d\<close> is exactly \<open>0\<close>..\<open>9\<close>. Regular expressions are written as recognisers:
  a fixed-width pattern is a list of character predicates.
\<close>

section \<open>Digits and numbers\<close>

definition is_digit :: "char \<Rightarrow> bool" where
  "is_digit c = (c \<in> set ''0123456789'')"

definition digit_char :: "nat \<Rightarrow> char" where
  "digit_char n = char_of (48 + n)"

definition digit_val :: "char \<Rightarrow> nat" where
  "digit_val c = of_char c - 48"

lemma lt_10_cases:
  assumes "(n::nat) < 10"
  obtains "n = 0" | "n = 1" | "n = 2" | "n = 3" | "n = 4"
    | "n = 5" | "n = 6" | "n = 7" | "n = 8" | "n = 9"
  using assms by (auto simp: less_Suc_eq numeral_eq_Suc)

lemma digit_char_digit [simp]: "n < 10 \<Longrightarrow> is_digit (digit_char n)"
  by (erule lt_10_cases; hypsubst; code_simp)

lemma digit_val_char [simp]: "n < 10 \<Longrightarrow> digit_val (digit_char n) = n"
  by (simp add: digit_val_def digit_char_def)

definition nat_of_digits :: "string \<Rightarrow> nat" where
  "nat_of_digits s = foldl (\<lambda>a c. 10 * a + digit_val c) 0 s"

lemma nat_of_digits_snoc: "nat_of_digits (s @ [c]) = 10 * nat_of_digits s + digit_val c"
  by (simp add: nat_of_digits_def)

lemma nat_of_digits_Nil [simp]: "nat_of_digits [] = 0"
  by (simp add: nat_of_digits_def)

text \<open>\<open>f"{n:0wd}"\<close> for a number of at most \<open>w\<close> digits.\<close>

primrec zpad :: "nat \<Rightarrow> nat \<Rightarrow> string" where
  "zpad 0 n = []"
| "zpad (Suc w) n = zpad w (n div 10) @ [digit_char (n mod 10)]"

lemma length_zpad [simp]: "length (zpad w n) = w"
  by (induction w arbitrary: n) auto

lemma zpad_digits: "list_all is_digit (zpad w n)"
  by (induction w arbitrary: n) auto

lemma nat_of_digits_zpad: "nat_of_digits (zpad w n) = n mod 10 ^ w"
proof (induction w arbitrary: n)
  case 0
  show ?case by simp
next
  case (Suc w)
  have "n mod 10 ^ Suc w = 10 * (n div 10 mod 10 ^ w) + n mod 10"
    by (simp add: mod_mult2_eq)
  with Suc show ?case by (simp add: nat_of_digits_snoc)
qed

lemma zpad_lt: "n < 10 ^ w \<Longrightarrow> nat_of_digits (zpad w n) = n"
  by (simp add: nat_of_digits_zpad)

lemma zpad_no_char: "\<not> is_digit c \<Longrightarrow> c \<notin> set (zpad w n)"
  using zpad_digits [of w n] by (auto simp: list_all_iff)

text \<open>\<open>str(n)\<close>.\<close>

fun show_nat :: "nat \<Rightarrow> string" where
  "show_nat n = (if n < 10 then [digit_char n] else show_nat (n div 10) @ [digit_char (n mod 10)])"

declare show_nat.simps [simp del]

definition show_int :: "int \<Rightarrow> string" where
  "show_int i = (if i < 0 then CHR ''-'' # show_nat (nat (- i)) else show_nat (nat i))"

lemma nat_of_digits_show: "nat_of_digits (show_nat n) = n"
proof (induction n rule: show_nat.induct)
  case (1 n)
  show ?case
  proof (cases "n < 10")
    case True
    then show ?thesis by (simp add: show_nat.simps nat_of_digits_def)
  next
    case False
    with 1 show ?thesis by (subst show_nat.simps) (simp add: nat_of_digits_snoc)
  qed
qed

lemma show_nat_digits: "list_all is_digit (show_nat n)"
  by (induction n rule: show_nat.induct) (subst show_nat.simps, simp)

lemma show_nat_nonempty: "show_nat n \<noteq> []"
  by (subst show_nat.simps) simp

lemma show_nat_inj: "show_nat m = show_nat n \<Longrightarrow> m = n"
  by (metis nat_of_digits_show)

lemma show_int_nonempty: "show_int i \<noteq> []"
  by (simp add: show_int_def show_nat_nonempty)

lemma show_int_inj: "show_int i = show_int j \<Longrightarrow> i = j"
proof -
  have no_minus: "show_nat n \<noteq> CHR ''-'' # s" for n s
    using show_nat_digits [of n] by (auto simp: is_digit_def)
  then have no_minus': "CHR ''-'' # s \<noteq> show_nat n" for n s
    by metis
  show "show_int i = show_int j \<Longrightarrow> i = j"
    using no_minus no_minus' by (auto simp: show_int_def dest!: show_nat_inj split: if_splits)
qed

section \<open>Splitting and joining\<close>

fun split_on :: "char \<Rightarrow> string \<Rightarrow> string list" where
  "split_on c [] = [[]]"
| "split_on c (x # xs) =
     (if x = c then [] # split_on c xs
      else (case split_on c xs of [] \<Rightarrow> [[x]] | p # ps \<Rightarrow> (x # p) # ps))"

fun join_with :: "string \<Rightarrow> string list \<Rightarrow> string" where
  "join_with sep [] = []"
| "join_with sep [p] = p"
| "join_with sep (p # ps) = p @ sep @ join_with sep ps"

lemma split_on_nonempty [simp]: "split_on c s \<noteq> []"
  by (induction s) (auto split: list.splits)

lemma split_on_free: "c \<notin> set a \<Longrightarrow> split_on c a = [a]"
  by (induction a) auto

lemma split_on_append: "c \<notin> set a \<Longrightarrow> split_on c (a @ c # b) = a # split_on c b"
  by (induction a) auto

lemma split_on_parts_free: "p \<in> set (split_on c s) \<Longrightarrow> c \<notin> set p"
  by (induction s arbitrary: p) (auto split: if_splits list.splits)

lemma join_split: "join_with [c] (split_on c s) = s"
proof (induction s)
  case Nil
  show ?case by simp
next
  case (Cons x xs)
  obtain p ps where "split_on c xs = p # ps"
    using split_on_nonempty by (metis list.exhaust)
  with Cons show ?case by (cases ps) auto
qed

lemma split_on_3:
  "split_on c s = [a, b, d] \<longleftrightarrow>
     s = a @ c # b @ c # d \<and> c \<notin> set a \<and> c \<notin> set b \<and> c \<notin> set d"
proof
  assume h: "split_on c s = [a, b, d]"
  then have "s = a @ c # b @ c # d"
    using join_split [of c s] by simp
  with h show "s = a @ c # b @ c # d \<and> c \<notin> set a \<and> c \<notin> set b \<and> c \<notin> set d"
    using split_on_parts_free [of _ c s] by auto
next
  assume "s = a @ c # b @ c # d \<and> c \<notin> set a \<and> c \<notin> set b \<and> c \<notin> set d"
  then show "split_on c s = [a, b, d]"
    by (simp add: split_on_append split_on_free)
qed

section \<open>Replacement, prefixes and suffixes\<close>

text \<open>\<open>s.replace(old, new)\<close> for a non-empty \<open>old\<close>.\<close>

function py_replace :: "string \<Rightarrow> string \<Rightarrow> string \<Rightarrow> string" where
  "py_replace old new [] = []"
| "py_replace old new (c # cs) =
     (if old \<noteq> [] \<and> take (length old) (c # cs) = old
      then new @ py_replace old new (drop (length old) (c # cs))
      else c # py_replace old new cs)"
  by pat_completeness auto
termination
  by (relation "measure (\<lambda>(old, new, s). length s)") auto

lemma py_replace_skip:
  "c \<notin> set a \<Longrightarrow> py_replace (c # old) new (a @ b) = a @ py_replace (c # old) new b"
  by (induction a) auto

lemma py_replace_suffix:
  "c \<notin> set a \<Longrightarrow> py_replace (c # old) new (a @ c # old) = a @ new"
  by (simp add: py_replace_skip)

definition py_endswith :: "string \<Rightarrow> string \<Rightarrow> bool" where
  "py_endswith s suf = (length suf \<le> length s \<and> drop (length s - length suf) s = suf)"

text \<open>\<open>s[:-len(suf)]\<close> after \<open>s.endswith(suf)\<close>.\<close>

definition strip_suffix :: "string \<Rightarrow> string \<Rightarrow> string" where
  "strip_suffix s suf = take (length s - length suf) s"

lemma py_endswith_append [simp]: "py_endswith (a @ suf) suf"
  by (simp add: py_endswith_def)

lemma strip_suffix_append [simp]: "strip_suffix (a @ suf) suf = a"
  by (simp add: strip_suffix_def)

lemma py_endswith_iff: "py_endswith s suf \<longleftrightarrow> s = strip_suffix s suf @ suf"
proof
  assume "py_endswith s suf"
  then show "s = strip_suffix s suf @ suf"
    unfolding py_endswith_def strip_suffix_def by (metis append_take_drop_id)
next
  assume "s = strip_suffix s suf @ suf"
  then show "py_endswith s suf" by (metis py_endswith_append)
qed

section \<open>Prefixes, white space, integers\<close>

definition py_startswith :: "string \<Rightarrow> string \<Rightarrow> bool" where
  "py_startswith s p = (take (length p) s = p)"

lemma py_startswith_append [simp]: "py_startswith (p @ s) p"
  by (simp add: py_startswith_def)

text \<open>\<open>s.split(c, 1)\<close> where it gives two parts.\<close>

definition split_once :: "char \<Rightarrow> string \<Rightarrow> (string \<times> string) option" where
  "split_once c s =
     (let a = takeWhile (\<lambda>x. x \<noteq> c) s
      in if length a = length s then None else Some (a, drop (Suc (length a)) s))"

lemma split_once_append: "c \<notin> set a \<Longrightarrow> split_once c (a @ c # b) = Some (a, b)"
proof -
  assume "c \<notin> set a"
  then have "takeWhile (\<lambda>x. x \<noteq> c) (a @ c # b) = a"
    by (induction a) auto
  then show ?thesis by (simp add: split_once_def)
qed

text \<open>White space, as \<open>str.strip\<close> and \<open>int\<close> take it off both ends.\<close>

definition is_space :: "char \<Rightarrow> bool" where
  "is_space c = (c \<in> {CHR '' '', CHR 0x09, CHR 0x0A, CHR 0x0B, CHR 0x0C, CHR 0x0D, CHR 0x1C, CHR 0x1D, CHR 0x1E,
     CHR 0x1F, CHR 0x85, CHR 0xA0})"

definition strip_spaces :: "string \<Rightarrow> string" where
  "strip_spaces s = rev (dropWhile is_space (rev (dropWhile is_space s)))"

text \<open>\<open>int(s)\<close>: an optional sign, then digits in groups joined by single underscores.\<close>

definition digits_int :: "string \<Rightarrow> int option" where
  "digits_int s =
     (let groups = split_on CHR ''_'' s
      in if list_all (\<lambda>p. p \<noteq> [] \<and> list_all is_digit p) groups then Some (int (nat_of_digits (concat groups))) else None)"

definition str_int :: "string \<Rightarrow> int option" where
  "str_int s =
     (case strip_spaces s of
        [] \<Rightarrow> None
      | c # cs \<Rightarrow> if c = CHR ''-'' then map_option uminus (digits_int cs)
                  else if c = CHR ''+'' then digits_int cs else digits_int (c # cs))"

definition truncate_rat :: "rat \<Rightarrow> int" where
  "truncate_rat r = (if r < 0 then - \<lfloor>- r\<rfloor> else \<lfloor>r\<rfloor>)"

text \<open>\<open>round(x)\<close>: halves to the even neighbour.\<close>

definition round_half_even :: "rat \<Rightarrow> int" where
  "round_half_even x =
     (let f = \<lfloor>x\<rfloor>; d = x - of_int f
      in if d < 1 / 2 then f else if d > 1 / 2 then f + 1 else if even f then f else f + 1)"

section \<open>Floats\<close>

text \<open>
  The text \<open>float(s)\<close> reads: a decimal with an optional exponent, or one of the names of
  infinity and not-a-number.
\<close>

datatype py_float = Finite rat | Infinite | Not_a_number

definition lower_char :: "char \<Rightarrow> char" where
  "lower_char c = (let n = of_char c :: nat in if 65 \<le> n \<and> n \<le> 90 then char_of (n + 32) else c)"

definition digit_group :: "string \<Rightarrow> string option" where
  "digit_group s =
     (if s = [] then Some []
      else if list_all (\<lambda>p. p \<noteq> [] \<and> list_all is_digit p) (split_on CHR ''_'' s) then Some (concat (split_on CHR ''_'' s))
      else None)"

definition decimal :: "string \<Rightarrow> rat option" where
  "decimal s =
     (case (case split_once CHR ''.'' s of None \<Rightarrow> (s, []) | Some p \<Rightarrow> p) of (a, b) \<Rightarrow>
        (case (digit_group a, digit_group b) of
           (Some x, Some y) \<Rightarrow>
             if x @ y = [] then None else Some (of_nat (nat_of_digits (x @ y)) / of_nat (10 ^ length y))
         | _ \<Rightarrow> None))"

definition scale10 :: "rat \<Rightarrow> int \<Rightarrow> rat" where
  "scale10 q e = (if 0 \<le> e then q * of_nat (10 ^ nat e) else q / of_nat (10 ^ nat (- e)))"

definition unsigned_float :: "string \<Rightarrow> py_float option" where
  "unsigned_float s =
     (if s \<in> {''inf'', ''infinity''} then Some Infinite
      else if s = ''nan'' then Some Not_a_number
      else (case split_once CHR ''e'' s of
              None \<Rightarrow> map_option Finite (decimal s)
            | Some (m, e) \<Rightarrow>
                (case (decimal m, if list_ex is_space e then None else str_int e) of
                   (Some q, Some k) \<Rightarrow> Some (Finite (scale10 q k))
                 | _ \<Rightarrow> None)))"

fun negate_float :: "py_float \<Rightarrow> py_float" where
  "negate_float (Finite q) = Finite (- q)"
| "negate_float x = x"

definition parse_float :: "string \<Rightarrow> py_float option" where
  "parse_float s =
     (case map lower_char (strip_spaces s) of
        [] \<Rightarrow> None
      | c # cs \<Rightarrow> if c = CHR ''-'' then map_option negate_float (unsigned_float cs)
                  else if c = CHR ''+'' then unsigned_float cs else unsigned_float (c # cs))"

section \<open>Fixed-width patterns\<close>

definition fits :: "(char \<Rightarrow> bool) list \<Rightarrow> string \<Rightarrow> bool" where
  "fits ps s = list_all2 (\<lambda>p c. p c) ps s"

definition lit :: "char \<Rightarrow> char \<Rightarrow> bool" where
  "lit c = (\<lambda>x. x = c)"

definition is_hex :: "char \<Rightarrow> bool" where
  "is_hex c = (c \<in> set ''0123456789abcdefABCDEF'')"

lemma fits_Nil [simp]: "fits [] s = (s = [])"
  by (simp add: fits_def)

lemma fits_Cons [simp]: "fits (p # ps) s = (\<exists>c cs. s = c # cs \<and> p c \<and> fits ps cs)"
  by (cases s) (auto simp: fits_def)

lemma fits_append: "fits (ps @ qs) (a @ b) = (fits ps a \<and> fits qs b)" if "length ps = length a"
  using that by (simp add: fits_def list_all2_append)

lemma fits_replicate: "fits (replicate n p) s = (length s = n \<and> list_all p s)"
  by (auto simp: fits_def list_all2_conv_all_nth list_all_length)

lemma fits_length: "fits ps s \<Longrightarrow> length s = length ps"
  by (simp add: fits_def list_all2_lengthD)

lemma fits_zpad [simp]: "fits (replicate w is_digit) (zpad w n)"
  by (simp add: fits_replicate zpad_digits)

end
