(* ===== verification/Py_Time.thy ===== *)
theory Py_Time
  imports Py_Text
begin

text \<open>
  The parts of Python's \<open>datetime\<close> the services use: broken-down UTC instants, their
  ISO-8601 text, parsing that text back, and differences in microseconds through the
  proleptic Gregorian ordinal (\<open>datetime.toordinal\<close>).
\<close>

section \<open>Instants\<close>

record datetime =
  yr :: nat
  mo :: nat
  dy :: nat
  hh :: nat
  mi :: nat
  sc :: nat
  us :: nat

definition leap_year :: "nat \<Rightarrow> bool" where
  "leap_year y = (y mod 4 = 0 \<and> (y mod 100 \<noteq> 0 \<or> y mod 400 = 0))"

definition days_in_month :: "nat \<Rightarrow> nat \<Rightarrow> nat" where
  "days_in_month y m =
     (if m = 2 then (if leap_year y then 29 else 28)
      else if m \<in> {4, 6, 9, 11} then 30 else 31)"

definition date_ok :: "nat \<Rightarrow> nat \<Rightarrow> nat \<Rightarrow> bool" where
  "date_ok y m d = (1 \<le> y \<and> y \<le> 9999 \<and> 1 \<le> m \<and> m \<le> 12 \<and> 1 \<le> d \<and> d \<le> days_in_month y m)"

definition dt_ok :: "datetime \<Rightarrow> bool" where
  "dt_ok t = (date_ok (yr t) (mo t) (dy t) \<and> hh t < 24 \<and> mi t < 60 \<and> sc t < 60 \<and> us t < 1000000)"

lemma days_in_month_le: "days_in_month y m \<le> 31"
  by (simp add: days_in_month_def)

lemma dt_ok_bounds:
  assumes "dt_ok t"
  shows "yr t < 10 ^ 4" "mo t < 10 ^ 2" "dy t < 10 ^ 2" "hh t < 10 ^ 2" "mi t < 10 ^ 2"
    "sc t < 10 ^ 2" "us t < 10 ^ 6"
  using assms days_in_month_le [of "yr t" "mo t"] by (auto simp: dt_ok_def date_ok_def)

lemma dt_eta [simp]:
  "\<lparr>yr = yr t, mo = mo t, dy = dy t, hh = hh t, mi = mi t, sc = sc t, us = us t\<rparr> = t"
  by (cases t) simp

lemma dt_eta0 [simp]:
  "us t = 0 \<Longrightarrow> \<lparr>yr = yr t, mo = mo t, dy = dy t, hh = hh t, mi = mi t, sc = sc t, us = 0\<rparr> = t"
  by (cases t) simp

section \<open>Elapsed time\<close>

definition days_before_year :: "nat \<Rightarrow> int" where
  "days_before_year y =
     (let n = y - 1 in int (n * 365) + int (n div 4) - int (n div 100) + int (n div 400))"

definition days_before_month :: "nat \<Rightarrow> nat \<Rightarrow> int" where
  "days_before_month y m = int (sum_list (map (days_in_month y) [1..<m]))"

definition dt_ordinal :: "datetime \<Rightarrow> int" where
  "dt_ordinal t = days_before_year (yr t) + days_before_month (yr t) (mo t) + int (dy t)"

text \<open>Microseconds since the start of the calendar; differences are timedeltas.\<close>

definition dt_micros :: "datetime \<Rightarrow> int" where
  "dt_micros t =
     (((dt_ordinal t * 24 + int (hh t)) * 60 + int (mi t)) * 60 + int (sc t)) * 1000000 + int (us t)"

definition total_seconds :: "int \<Rightarrow> rat" where
  "total_seconds micros = of_int micros / 1000000"

lemma floor_total_seconds: "\<lfloor>total_seconds n\<rfloor> = n div 1000000"
  using floor_divide_of_int_eq [of n 1000000, where 'a = rat] by (simp add: total_seconds_def)

text \<open>The day after the last day of a month is the first of the next, across years too.\<close>

lemma ordinal_next_month:
  assumes "1 \<le> mo t" "mo t < 12" "dy t = days_in_month (yr t) (mo t)"
  shows "dt_ordinal (t\<lparr>mo := Suc (mo t), dy := 1\<rparr>) = dt_ordinal t + 1"
  using assms by (simp add: dt_ordinal_def days_before_month_def)

lemma days_before_year_Suc:
  "1 \<le> y \<Longrightarrow> days_before_year (Suc y) = days_before_year y + (if leap_year y then 366 else 365)"
proof -
  assume "1 \<le> y"
  then obtain n where y: "y = Suc n" by (cases y) auto
  have "Suc n mod 100 = 0 \<Longrightarrow> Suc n mod 4 = 0" "Suc n mod 400 = 0 \<Longrightarrow> Suc n mod 100 = 0"
    unfolding mod_eq_0_iff_dvd by (erule dvd_trans [rotated], simp)+
  moreover have "Suc n div k = n div k + (if Suc n mod k = 0 then 1 else 0)" for k
    by (simp add: div_Suc)
  moreover have "int (Suc n * 365) + int (q4 + (if a then 1 else 0)) - int (q100 + (if b then 1 else 0))
      + int (q400 + (if c then 1 else 0))
    = int (n * 365) + int q4 - int q100 + int q400 + (if a \<and> (\<not> b \<or> c) then 366 else 365)"
    if "b \<Longrightarrow> a" "c \<Longrightarrow> b" for q4 q100 q400 :: nat and a b c
    using that by (cases a; cases b; cases c) simp_all
  ultimately show ?thesis
    unfolding y days_before_year_def leap_year_def Let_def by (simp only: diff_Suc_1)
qed

lemma sum_months: "(\<Sum>m\<leftarrow>[1..<12]. days_in_month y m) + 31 = (if leap_year y then 366 else 365)"
  by (simp add: days_in_month_def upt_rec)

lemma ordinal_next_year:
  assumes "1 \<le> yr t" "mo t = 12" "dy t = 31"
  shows "dt_ordinal (t\<lparr>yr := Suc (yr t), mo := 1, dy := 1\<rparr>) = dt_ordinal t + 1"
proof -
  have "days_before_month (yr t) 12 + 31 = (if leap_year (yr t) then 366 else 365)"
    using sum_months [of "yr t"] unfolding days_before_month_def by (simp split: if_splits)
  with assms show ?thesis
    by (simp add: dt_ordinal_def days_before_year_Suc days_before_month_def)
qed

section \<open>ISO-8601 text\<close>

definition iso_head :: "datetime \<Rightarrow> string" where
  "iso_head t = zpad 4 (yr t) @ ''-'' @ zpad 2 (mo t) @ ''-'' @ zpad 2 (dy t) @ ''T'' @
     zpad 2 (hh t) @ '':'' @ zpad 2 (mi t) @ '':'' @ zpad 2 (sc t)"

text \<open>\<open>isoformat(timespec="microseconds")\<close> and \<open>isoformat()\<close> of an aware UTC instant.\<close>

definition isoformat_us :: "datetime \<Rightarrow> string" where
  "isoformat_us t = iso_head t @ ''.'' @ zpad 6 (us t) @ ''+00:00''"

definition isoformat_auto :: "datetime \<Rightarrow> string" where
  "isoformat_auto t =
     iso_head t @ (if us t = 0 then [] else ''.'' @ zpad 6 (us t)) @ ''+00:00''"

text \<open>The 19 characters \<open>YYYY-MM-DDTHH:MM:SS\<close> as a pattern.\<close>

definition iso_head_pat :: "(char \<Rightarrow> bool) list" where
  "iso_head_pat = replicate 4 is_digit @ [lit CHR ''-''] @ replicate 2 is_digit @ [lit CHR ''-''] @
     replicate 2 is_digit @ [lit CHR ''T''] @ replicate 2 is_digit @ [lit CHR '':''] @
     replicate 2 is_digit @ [lit CHR '':''] @ replicate 2 is_digit"

lemma length_iso_head [simp]: "length (iso_head t) = 19"
  by (simp add: iso_head_def)

lemma length_iso_head_pat [simp]: "length iso_head_pat = 19"
  by (simp add: iso_head_pat_def)

lemma fits_iso_head: "fits iso_head_pat (iso_head t)"
  unfolding iso_head_pat_def iso_head_def by (simp only: fits_append fits_zpad length_append
    length_replicate length_zpad list.size) (simp add: lit_def)

lemma not_digit [simp]:
  "\<not> is_digit CHR ''-''" "\<not> is_digit CHR ''+''" "\<not> is_digit CHR ''Z''" "\<not> is_digit CHR ''_''"
  "\<not> is_digit CHR ''T''" "\<not> is_digit CHR '':''" "\<not> is_digit CHR ''.''"
  by (simp_all add: is_digit_def)

lemma iso_head_no_plus: "CHR ''+'' \<notin> set (iso_head t)"
  by (simp add: iso_head_def zpad_no_char)

lemma iso_head_no_Z: "CHR ''Z'' \<notin> set (iso_head t)"
  by (simp add: iso_head_def zpad_no_char)

text \<open>\<open>strftime("%Y%m%d")\<close>.\<close>

definition ymd :: "datetime \<Rightarrow> string" where
  "ymd t = zpad 4 (yr t) @ zpad 2 (mo t) @ zpad 2 (dy t)"

section \<open>Parsing\<close>

definition field :: "nat \<Rightarrow> nat \<Rightarrow> string \<Rightarrow> nat" where
  "field i n s = nat_of_digits (take n (drop i s))"

text \<open>
  The fraction as microseconds: up to six digits count, further ones are cut off.
\<close>

definition frac_micros :: "string \<Rightarrow> nat" where
  "frac_micros ds = nat_of_digits (take 6 (ds @ ''000000''))"

text \<open>
  \<open>datetime.fromisoformat\<close> on \<open>YYYY-MM-DDTHH:MM:SS[.f+]+00:00\<close>, the only shape the
  services pass it: the fields are read off and a field out of range raises.
\<close>

definition fromisoformat_utc :: "string \<Rightarrow> datetime res" where
  "fromisoformat_utc s =
     (let h = take 19 s; r = strip_suffix (drop 19 s) ''+00:00'';
          t = \<lparr>yr = field 0 4 h, mo = field 5 2 h, dy = field 8 2 h, hh = field 11 2 h,
               mi = field 14 2 h, sc = field 17 2 h,
               us = (if r = [] then 0 else frac_micros (drop 1 r))\<rparr>
      in if fits iso_head_pat h \<and> py_endswith (drop 19 s) ''+00:00'' \<and> dt_ok t
         then Inr t else Inl ValueError)"

lemma field_zpad: "length a = i \<Longrightarrow> n < 10 ^ w \<Longrightarrow> field i w (a @ zpad w n @ b) = n"
  by (auto simp: field_def zpad_lt)

lemma fields_iso_head:
  assumes "dt_ok t"
  shows "field 0 4 (iso_head t) = yr t" "field 5 2 (iso_head t) = mo t"
    "field 8 2 (iso_head t) = dy t" "field 11 2 (iso_head t) = hh t"
    "field 14 2 (iso_head t) = mi t" "field 17 2 (iso_head t) = sc t"
proof -
  note bounds = dt_ok_bounds [OF assms]
  let ?y = "zpad 4 (yr t) @ ''-''" and ?m = "zpad 2 (mo t) @ ''-''" and ?d = "zpad 2 (dy t) @ ''T''"
  let ?h = "zpad 2 (hh t) @ '':''" and ?i = "zpad 2 (mi t) @ '':''" and ?s = "zpad 2 (sc t)"
  have at: "field i w (iso_head t) = n"
    if "iso_head t = a @ zpad w n @ b" "length a = i" "n < 10 ^ w" for i w n a b
    unfolding that(1) by (rule field_zpad [OF that(2,3)])
  show "field 0 4 (iso_head t) = yr t"
    by (rule at [where a = "[]", OF _ _ bounds(1)]) (simp_all add: iso_head_def)
  show "field 5 2 (iso_head t) = mo t"
    by (rule at [where a = ?y, OF _ _ bounds(2)]) (simp_all add: iso_head_def)
  show "field 8 2 (iso_head t) = dy t"
    by (rule at [where a = "?y @ ?m", OF _ _ bounds(3)]) (simp_all add: iso_head_def)
  show "field 11 2 (iso_head t) = hh t"
    by (rule at [where a = "?y @ ?m @ ?d", OF _ _ bounds(4)]) (simp_all add: iso_head_def)
  show "field 14 2 (iso_head t) = mi t"
    by (rule at [where a = "?y @ ?m @ ?d @ ?h", OF _ _ bounds(5)]) (simp_all add: iso_head_def)
  show "field 17 2 (iso_head t) = sc t"
    by (rule at [where a = "?y @ ?m @ ?d @ ?h @ ?i" and b = "[]", OF _ _ bounds(6)])
      (simp_all add: iso_head_def)
qed

lemma frac_micros_zpad: "n < 10 ^ 6 \<Longrightarrow> frac_micros (zpad 6 n) = n"
  by (simp add: frac_micros_def zpad_lt del: zpad.simps)

lemma fromisoformat_us:
  assumes "dt_ok t"
  shows "fromisoformat_utc (isoformat_us t) = Inr t"
proof -
  have "strip_suffix (''.'' @ zpad 6 (us t) @ ''+00:00'') ''+00:00'' = ''.'' @ zpad 6 (us t)"
    using strip_suffix_append [of "''.'' @ zpad 6 (us t)" "''+00:00''"] by simp
  moreover have "py_endswith (''.'' @ zpad 6 (us t) @ ''+00:00'') ''+00:00''"
    using py_endswith_append [of "''.'' @ zpad 6 (us t)" "''+00:00''"] by simp
  ultimately show ?thesis
    using assms dt_ok_bounds(7) [OF assms]
    by (simp add: fromisoformat_utc_def Let_def isoformat_us_def fits_iso_head fields_iso_head
        frac_micros_zpad del: zpad.simps)
qed

lemma fromisoformat_s:
  assumes "dt_ok t" "us t = 0"
  shows "fromisoformat_utc (iso_head t @ ''+00:00'') = Inr t"
proof -
  have "strip_suffix ''+00:00'' ''+00:00'' = []" "py_endswith ''+00:00'' ''+00:00''"
    by (simp_all add: strip_suffix_def py_endswith_def)
  then show ?thesis
    using assms by (simp add: fromisoformat_utc_def Let_def fits_iso_head fields_iso_head)
qed

section \<open>Other offsets\<close>

text \<open>
  \<open>datetime.fromisoformat\<close> on the extended forms: a date, with a time to the hour, the minute, the
  second or a fraction of it, with an offset \<open>+HH:MM\<close> or none. Without one the result is naive.
\<close>

datatype iso_instant = Naive datetime | Aware int \<comment> \<open>microseconds of the UTC instant\<close>

definition offset_pat :: "(char \<Rightarrow> bool) list" where
  "offset_pat = [\<lambda>c. c \<in> set ''+-'', is_digit, is_digit, lit CHR '':'', is_digit, is_digit]"

definition date_pat :: "(char \<Rightarrow> bool) list" where
  "date_pat = replicate 4 is_digit @ [lit CHR ''-''] @ replicate 2 is_digit @ [lit CHR ''-''] @ replicate 2 is_digit"

definition iso_date_time :: "string \<Rightarrow> datetime option" where
  "iso_date_time s =
     (let n = length s; d = take 10 s; t = drop 11 s; f = drop 8 t;
          v = \<lparr>yr = field 0 4 d, mo = field 5 2 d, dy = field 8 2 d, hh = field 0 2 t, mi = field 3 2 t, sc = field 6 2 t,
               us = (if f = [] then 0 else frac_micros (drop 1 f))\<rparr>
      in if fits date_pat d \<and> dt_ok v \<and>
            (n = 10 \<or> n = 13 \<and> fits [is_digit, is_digit] t \<or> n = 16 \<and> fits [is_digit, is_digit, lit CHR '':'', is_digit, is_digit] t \<or>
             19 \<le> n \<and> fits [is_digit, is_digit, lit CHR '':'', is_digit, is_digit, lit CHR '':'', is_digit, is_digit] (take 8 t) \<and>
             (f = [] \<or> hd f \<in> set ''.,'' \<and> 1 < length f \<and> list_all is_digit (tl f)))
         then Some v else None)"

definition offset_minutes :: "string \<Rightarrow> int" where
  "offset_minutes o' =
     (let m = int (field 1 2 o') * 60 + int (field 4 2 o') in if hd o' = CHR ''-'' then - m else m)"

definition fromisoformat :: "string \<Rightarrow> iso_instant res" where
  "fromisoformat s =
     (let k = length s - 6; o' = drop k s
      in if 16 < length s \<and> fits offset_pat o'
         then (case iso_date_time (take k s) of
                 None \<Rightarrow> Inl ValueError
               | Some v \<Rightarrow> if field 1 2 o' < 24 \<and> field 4 2 o' < 60
                           then Inr (Aware (dt_micros v - offset_minutes o' * 60000000)) else Inl ValueError)
         else (case iso_date_time s of None \<Rightarrow> Inl ValueError | Some v \<Rightarrow> Inr (Naive v)))"

end
