(* ===== verification/Event_Types.thy ===== *)
theory Event_Types
  imports Py_Time
begin

text \<open>
  The vocabulary of \<open>shared/src/oebb_shared/events\<close>: the event types (\<open>types.py\<close>),
  severities, sources and JSON values. The severities are linearly ordered the way
  \<open>SubscriptionRequest\<close> compares them.
\<close>

section \<open>JSON values\<close>

datatype json =
    JNull
  | JBool bool
  | JInt int
  | JNum rat
  | JStr string
  | JList "json list"
  | JObj "(string \<times> json) list"

type_synonym jdict = "(string, json) dict"

text \<open>Python truthiness of a JSON value.\<close>

fun jtruthy :: "json \<Rightarrow> bool" where
  "jtruthy JNull = False"
| "jtruthy (JBool b) = b"
| "jtruthy (JInt i) = (i \<noteq> 0)"
| "jtruthy (JNum r) = (r \<noteq> 0)"
| "jtruthy (JStr s) = (s \<noteq> [])"
| "jtruthy (JList js) = (js \<noteq> [])"
| "jtruthy (JObj kvs) = (kvs \<noteq> [])"

definition jopt :: "('a \<Rightarrow> json) \<Rightarrow> 'a option \<Rightarrow> json" where
  "jopt f x = (case x of None \<Rightarrow> JNull | Some v \<Rightarrow> f v)"

lemma jopt_simps [simp]: "jopt f None = JNull" "jopt f (Some v) = f v"
  by (simp_all add: jopt_def)

definition jstrs :: "(string, string) dict \<Rightarrow> json" where
  "jstrs d = JObj (map (\<lambda>(k, v). (k, JStr v)) d)"

section \<open>Event types\<close>

datatype event_type =
    OCCUPANCY_UPDATE
  | OCCUPANCY_THRESHOLD_CROSSED
  | ALERT_RAISED
  | ALERT_RESOLVED
  | VESTIBULE_CONGESTION
  | LUGGAGE_RACK_SATURATION
  | UNATTENDED_BAG
  | DOOR_OBSTRUCTION
  | ACCESSIBILITY_DETECTED
  | RAMP_DEPLOYED
  | ALARM_ACTIVE
  | ALARM_CLEARED
  | JOURNEY_STARTED
  | JOURNEY_ENDED
  | CAMERA_DEGRADED
  | CAMERA_RECOVERED
  | SYNC_COMPLETED
  | WAGON_EXIT
  | WAGON_ENTRY
  | LEDGER_DRIFT_OBSERVATION
  | CALIBRATION_DRIFT
  | COACH_COMFORT_INDEX
  | INFERENCE_HEARTBEAT
  | ALERT_CLASS_DISABLED
  | ALERT_CLASS_REENABLED
  | STREAM_PRIORITY

fun event_type_value :: "event_type \<Rightarrow> string" where
  "event_type_value OCCUPANCY_UPDATE = ''OCCUPANCY_UPDATE''"
| "event_type_value OCCUPANCY_THRESHOLD_CROSSED = ''OCCUPANCY_THRESHOLD_CROSSED''"
| "event_type_value ALERT_RAISED = ''ALERT_RAISED''"
| "event_type_value ALERT_RESOLVED = ''ALERT_RESOLVED''"
| "event_type_value VESTIBULE_CONGESTION = ''VESTIBULE_CONGESTION''"
| "event_type_value LUGGAGE_RACK_SATURATION = ''LUGGAGE_RACK_SATURATION''"
| "event_type_value UNATTENDED_BAG = ''UNATTENDED_BAG''"
| "event_type_value DOOR_OBSTRUCTION = ''DOOR_OBSTRUCTION''"
| "event_type_value ACCESSIBILITY_DETECTED = ''ACCESSIBILITY_DETECTED''"
| "event_type_value RAMP_DEPLOYED = ''RAMP_DEPLOYED''"
| "event_type_value ALARM_ACTIVE = ''ALARM_ACTIVE''"
| "event_type_value ALARM_CLEARED = ''ALARM_CLEARED''"
| "event_type_value JOURNEY_STARTED = ''JOURNEY_STARTED''"
| "event_type_value JOURNEY_ENDED = ''JOURNEY_ENDED''"
| "event_type_value CAMERA_DEGRADED = ''CAMERA_DEGRADED''"
| "event_type_value CAMERA_RECOVERED = ''CAMERA_RECOVERED''"
| "event_type_value SYNC_COMPLETED = ''SYNC_COMPLETED''"
| "event_type_value WAGON_EXIT = ''WAGON_EXIT''"
| "event_type_value WAGON_ENTRY = ''WAGON_ENTRY''"
| "event_type_value LEDGER_DRIFT_OBSERVATION = ''LEDGER_DRIFT_OBSERVATION''"
| "event_type_value CALIBRATION_DRIFT = ''CALIBRATION_DRIFT''"
| "event_type_value COACH_COMFORT_INDEX = ''COACH_COMFORT_INDEX''"
| "event_type_value INFERENCE_HEARTBEAT = ''INFERENCE_HEARTBEAT''"
| "event_type_value ALERT_CLASS_DISABLED = ''ALERT_CLASS_DISABLED''"
| "event_type_value ALERT_CLASS_REENABLED = ''ALERT_CLASS_REENABLED''"
| "event_type_value STREAM_PRIORITY = ''STREAM_PRIORITY''"

definition all_event_types :: "event_type list" where
  "all_event_types =
     [OCCUPANCY_UPDATE, OCCUPANCY_THRESHOLD_CROSSED, ALERT_RAISED, ALERT_RESOLVED,
      VESTIBULE_CONGESTION, LUGGAGE_RACK_SATURATION, UNATTENDED_BAG, DOOR_OBSTRUCTION,
      ACCESSIBILITY_DETECTED, RAMP_DEPLOYED, ALARM_ACTIVE, ALARM_CLEARED, JOURNEY_STARTED,
      JOURNEY_ENDED, CAMERA_DEGRADED, CAMERA_RECOVERED, SYNC_COMPLETED, WAGON_EXIT, WAGON_ENTRY,
      LEDGER_DRIFT_OBSERVATION, CALIBRATION_DRIFT, COACH_COMFORT_INDEX, INFERENCE_HEARTBEAT,
      ALERT_CLASS_DISABLED, ALERT_CLASS_REENABLED, STREAM_PRIORITY]"

text \<open>\<open>EventType(s)\<close>: the member with that value, or an error.\<close>

definition event_type_of :: "string \<Rightarrow> event_type option" where
  "event_type_of s = find (\<lambda>e. event_type_value e = s) all_event_types"

lemma in_all_event_types: "e \<in> set all_event_types"
  by (cases e) (simp_all add: all_event_types_def)

lemma all_event_types_ball: "(\<forall>e \<in> set all_event_types. P e) \<longleftrightarrow> (\<forall>e. P e)"
  using in_all_event_types by blast

lemma event_type_of_value [simp]: "event_type_of (event_type_value e) = Some e"
  by (cases e) (simp_all add: event_type_of_def all_event_types_def)

lemma event_type_of_Some: "event_type_of s = Some e \<longleftrightarrow> s = event_type_value e"
proof
  assume "event_type_of s = Some e"
  then show "s = event_type_value e"
    by (auto simp: event_type_of_def find_Some_iff)
qed simp

lemma event_type_value_inj: "event_type_value a = event_type_value b \<longleftrightarrow> a = b"
  by (metis event_type_of_value option.inject)

section \<open>Severities and sources\<close>

datatype severity = Sev_info | Sev_warning | Sev_critical

fun severity_rank :: "severity \<Rightarrow> nat" where
  "severity_rank Sev_info = 0"
| "severity_rank Sev_warning = 1"
| "severity_rank Sev_critical = 2"

lemma severity_rank_inj: "severity_rank a = severity_rank b \<Longrightarrow> a = b"
  by (cases a; cases b) simp_all

instantiation severity :: linorder
begin

definition less_eq_severity :: "severity \<Rightarrow> severity \<Rightarrow> bool" where
  "less_eq_severity a b = (severity_rank a \<le> severity_rank b)"

definition less_severity :: "severity \<Rightarrow> severity \<Rightarrow> bool" where
  "less_severity a b = (severity_rank a < severity_rank b)"

instance
  by standard (auto simp: less_eq_severity_def less_severity_def intro: severity_rank_inj)

end

fun severity_value :: "severity \<Rightarrow> string" where
  "severity_value Sev_info = ''info''"
| "severity_value Sev_warning = ''warning''"
| "severity_value Sev_critical = ''critical''"

definition severity_of :: "string \<Rightarrow> severity option" where
  "severity_of s = find (\<lambda>v. severity_value v = s) [Sev_critical, Sev_warning, Sev_info]"

lemma severity_of_value [simp]: "severity_of (severity_value v) = Some v"
  by (cases v) (simp_all add: severity_of_def)

lemma severity_of_Some: "severity_of s = Some v \<longleftrightarrow> s = severity_value v"
proof
  assume "severity_of s = Some v"
  then show "s = severity_value v"
    by (auto simp: severity_of_def split: if_splits)
qed simp

datatype source = Src_inference | Src_fusion | Src_vlan_pollers | Src_cloud_backend

fun source_value :: "source \<Rightarrow> string" where
  "source_value Src_inference = ''inference''"
| "source_value Src_fusion = ''fusion''"
| "source_value Src_vlan_pollers = ''vlan-pollers''"
| "source_value Src_cloud_backend = ''cloud-backend''"

definition source_of :: "string \<Rightarrow> source option" where
  "source_of s = find (\<lambda>v. source_value v = s)
     [Src_inference, Src_fusion, Src_vlan_pollers, Src_cloud_backend]"

lemma source_of_value [simp]: "source_of (source_value v) = Some v"
  by (cases v) (simp_all add: source_of_def)

end
