(* ===== verification/Event_Payloads.thy ===== *)
theory Event_Payloads
  imports Event_Types
begin

text \<open>
  The payload models of \<open>shared/src/oebb_shared/events/payloads.py\<close>. Each pydantic class
  is written as its list of fields, with the type, the constraints and the default of each
  field as the class declares them; \<open>validate_payload\<close> is \<open>model_validate\<close> and
  \<open>model_dump\<close> is serialisation with the class's \<open>_drop_none\<close> calls.

  How pydantic reads a JSON value as a Python \<open>str\<close>, \<open>int\<close>, \<open>float\<close>,
  \<open>bool\<close> or \<open>datetime\<close> is the library's business: it is the parameter
  \<open>pydantic\<close>, and \<open>pyd_ok\<close> states what its documentation promises, that a
  value of the right type is accepted unchanged.
\<close>

section \<open>The library's readers\<close>

record pydantic =
  as_str :: "json \<Rightarrow> string option"
  as_int :: "json \<Rightarrow> int option"
  as_float :: "json \<Rightarrow> rat option"
  as_bool :: "json \<Rightarrow> bool option"
  as_datetime :: "json \<Rightarrow> (datetime \<times> int option) option"

text \<open>\<open>v.isoformat().replace("+00:00", "Z")\<close>.\<close>

definition serialize_utc :: "datetime \<Rightarrow> string" where
  "serialize_utc t = py_replace ''+00:00'' ''Z'' (isoformat_auto t)"

definition pyd_ok :: "pydantic \<Rightarrow> bool" where
  "pyd_ok pd \<longleftrightarrow>
     (\<forall>s. as_str pd (JStr s) = Some s) \<and>
     (\<forall>i. as_int pd (JInt i) = Some i) \<and>
     (\<forall>r. as_float pd (JNum r) = Some r) \<and>
     (\<forall>b. as_bool pd (JBool b) = Some b) \<and>
     (\<forall>t. dt_ok t \<longrightarrow> as_datetime pd (JStr (serialize_utc t)) = Some (t, Some 0)) \<and>
     (\<forall>j t z. as_datetime pd j = Some (t, z) \<longrightarrow> dt_ok t)"

text \<open>A strict reader, which accepts exactly the values of the right JSON type.\<close>

definition strict_pydantic :: pydantic where
  "strict_pydantic =
     \<lparr>as_str = (\<lambda>j. case j of JStr s \<Rightarrow> Some s | _ \<Rightarrow> None),
      as_int = (\<lambda>j. case j of JInt i \<Rightarrow> Some i | _ \<Rightarrow> None),
      as_float = (\<lambda>j. case j of JNum r \<Rightarrow> Some r | JInt i \<Rightarrow> Some (of_int i) | _ \<Rightarrow> None),
      as_bool = (\<lambda>j. case j of JBool b \<Rightarrow> Some b | _ \<Rightarrow> None),
      as_datetime = (\<lambda>j. case j of
          JStr s \<Rightarrow> (case fromisoformat_utc (py_replace ''Z'' ''+00:00'' s) of
                     Inl _ \<Rightarrow> None | Inr t \<Rightarrow> Some (t, Some 0))
        | _ \<Rightarrow> None)\<rparr>"

section \<open>Timestamps\<close>

text \<open>\<open>TIMESTAMP_RE\<close>: \<open>^\d{4}-\d{2}-\d{2}T\d{2}:\d{2}:\d{2}(\.\d+)?Z$\<close>, matched whole.\<close>

definition timestamp_re :: "string \<Rightarrow> bool" where
  "timestamp_re s =
     (let r = drop 19 s in
      fits iso_head_pat (take 19 s) \<and>
      (r = ''Z'' \<or>
       (3 \<le> length r \<and> hd r = CHR ''.'' \<and> last r = CHR ''Z'' \<and> list_all is_digit (butlast (tl r)))))"

lemma timestamp_re_us: "timestamp_re (iso_head t @ ''.'' @ zpad 6 (us t) @ ''Z'')"
  by (simp add: timestamp_re_def fits_iso_head zpad_digits butlast_append del: zpad.simps)

lemma timestamp_re_s: "timestamp_re (iso_head t @ ''Z'')"
  by (simp add: timestamp_re_def fits_iso_head)

lemma serialize_utc_eq:
  "serialize_utc t = iso_head t @ (if us t = 0 then [] else ''.'' @ zpad 6 (us t)) @ ''Z''"
proof -
  let ?a = "iso_head t @ (if us t = 0 then [] else ''.'' @ zpad 6 (us t))"
  have "CHR ''+'' \<notin> set ?a"
    by (simp add: iso_head_no_plus zpad_no_char del: zpad.simps)
  then have "py_replace ''+00:00'' ''Z'' (?a @ ''+00:00'') = ?a @ ''Z''"
    by (rule py_replace_suffix)
  then show ?thesis by (simp add: serialize_utc_def isoformat_auto_def)
qed

lemma timestamp_re_serialize: "timestamp_re (serialize_utc t)"
  by (simp add: serialize_utc_eq timestamp_re_s timestamp_re_us [simplified])

text \<open>\<open>_validate_iso_utc\<close>: only a string of that shape passes.\<close>

definition validate_iso_utc :: "json \<Rightarrow> json option" where
  "validate_iso_utc j = (case j of JStr s \<Rightarrow> if timestamp_re s then Some j else None | _ \<Rightarrow> None)"

section \<open>Field types\<close>

datatype scalar =
    SStr nat \<comment> \<open>\<open>str\<close> with \<open>min_length\<close>\<close>
  | SInt "int option" \<comment> \<open>\<open>int\<close> with \<open>ge\<close>\<close>
  | SFloat "rat option" "rat option" \<comment> \<open>\<open>float\<close> with \<open>ge\<close> and \<open>le\<close>\<close>
  | SBool
  | SLit "string list" \<comment> \<open>\<open>Literal[...]\<close>\<close>
  | SIntOrStr \<comment> \<open>\<open>int | str\<close>\<close>
  | SUtcStr \<comment> \<open>non-empty \<open>str\<close> behind \<open>_validate_iso_utc\<close>\<close>
  | SUtcDatetime \<comment> \<open>\<open>datetime\<close> behind \<open>_require_utc\<close>, serialised with a Z\<close>

datatype ftype =
    Sc scalar
  | Opt scalar \<comment> \<open>\<open>T | None\<close>\<close>
  | ListOf scalar nat \<comment> \<open>\<open>list[T]\<close> with \<open>min_length\<close>\<close>
  | DictOf scalar \<comment> \<open>\<open>dict[str, T]\<close>\<close>
  | OptBBox \<comment> \<open>\<open>BoundingBox | None\<close>\<close>

datatype default = Required | Default json

type_synonym field_spec = "string \<times> ftype \<times> default"

abbreviation NonEmptyStr :: scalar where "NonEmptyStr \<equiv> SStr 1"
abbreviation NonNegInt :: scalar where "NonNegInt \<equiv> SInt (Some 0)"
abbreviation NonNegFloat :: scalar where "NonNegFloat \<equiv> SFloat (Some 0) None"
abbreviation UnitFloat :: scalar where "UnitFloat \<equiv> SFloat (Some 0) (Some 1)"

definition ge_ok :: "'a::linorder option \<Rightarrow> 'a \<Rightarrow> bool" where
  "ge_ok lo x = (case lo of None \<Rightarrow> True | Some l \<Rightarrow> l \<le> x)"

definition le_ok :: "'a::linorder option \<Rightarrow> 'a \<Rightarrow> bool" where
  "le_ok hi x = (case hi of None \<Rightarrow> True | Some h \<Rightarrow> x \<le> h)"

lemma ge_le_simps [simp]:
  "ge_ok None x" "ge_ok (Some l) x = (l \<le> x)" "le_ok None x" "le_ok (Some h) x = (x \<le> h)"
  by (simp_all add: ge_ok_def le_ok_def)

definition keep_if :: "bool \<Rightarrow> 'a \<Rightarrow> 'a option" where
  "keep_if b x = (if b then Some x else None)"

lemma keep_if_Some [simp]: "keep_if b x = Some y \<longleftrightarrow> b \<and> x = y"
  by (simp add: keep_if_def)

fun scalar_check :: "pydantic \<Rightarrow> scalar \<Rightarrow> json \<Rightarrow> json option" where
  "scalar_check pd (SStr n) j =
     Option.bind (as_str pd j) (\<lambda>s. keep_if (n \<le> length s) (JStr s))"
| "scalar_check pd (SInt lo) j =
     Option.bind (as_int pd j) (\<lambda>i. keep_if (ge_ok lo i) (JInt i))"
| "scalar_check pd (SFloat lo hi) j =
     Option.bind (as_float pd j) (\<lambda>r. keep_if (ge_ok lo r \<and> le_ok hi r) (JNum r))"
| "scalar_check pd SBool j = map_option JBool (as_bool pd j)"
| "scalar_check pd (SLit xs) j =
     (case j of JStr s \<Rightarrow> keep_if (s \<in> set xs) j | _ \<Rightarrow> None)"
| "scalar_check pd SIntOrStr j =
     (case j of JInt i \<Rightarrow> Some j | JStr s \<Rightarrow> Some j | _ \<Rightarrow> map_option JInt (as_int pd j))"
| "scalar_check pd SUtcStr j =
     Option.bind (validate_iso_utc j)
       (\<lambda>j. Option.bind (as_str pd j) (\<lambda>s. keep_if (1 \<le> length s) (JStr s)))"
| "scalar_check pd SUtcDatetime j =
     Option.bind (as_datetime pd j) (\<lambda>(t, z). keep_if (z = Some 0) (JStr (serialize_utc t)))"

text \<open>\<open>BoundingBox\<close>: four non-negative integers, extra keys forbidden.\<close>

definition bounding_box_fields :: "string list" where
  "bounding_box_fields = [''x'', ''y'', ''w'', ''h'']"

definition check_bbox :: "pydantic \<Rightarrow> jdict \<Rightarrow> json option" where
  "check_bbox pd d =
     (if set (dkeys d) \<subseteq> set bounding_box_fields
      then map_option JObj (those (map (\<lambda>k. map_option (Pair k)
             (Option.bind (dget d k) (scalar_check pd NonNegInt))) bounding_box_fields))
      else None)"

fun ftype_check :: "pydantic \<Rightarrow> ftype \<Rightarrow> json \<Rightarrow> json option" where
  "ftype_check pd (Sc s) j = scalar_check pd s j"
| "ftype_check pd (Opt s) j = (if j = JNull then Some JNull else scalar_check pd s j)"
| "ftype_check pd (ListOf s n) j =
     (case j of JList js \<Rightarrow>
        Option.bind (those (map (scalar_check pd s) js)) (\<lambda>ks. keep_if (n \<le> length ks) (JList ks))
      | _ \<Rightarrow> None)"
| "ftype_check pd (DictOf s) j =
     (case j of JObj d \<Rightarrow>
        map_option JObj (those (map (\<lambda>(k, v). map_option (Pair k) (scalar_check pd s v)) d))
      | _ \<Rightarrow> None)"
| "ftype_check pd OptBBox j =
     (case j of JNull \<Rightarrow> Some JNull | JObj d \<Rightarrow> check_bbox pd d | _ \<Rightarrow> None)"

section \<open>The payload classes\<close>

definition occupancy_update_fields :: "field_spec list" where
  "occupancy_update_fields =
     [(''car_id'', Sc NonEmptyStr, Required),
      (''zone'', Opt (SStr 0), Default JNull),
      (''occupancy_count'', Sc NonNegInt, Required),
      (''occupancy_pct'', Sc UnitFloat, Required),
      (''capacity'', Sc (SInt (Some 1)), Required),
      (''confidence'', Opt UnitFloat, Default JNull),
      (''service_tier'', Sc NonEmptyStr, Required),
      (''model_versions'', DictOf (SStr 0), Required)]"

definition occupancy_threshold_crossed_fields :: "field_spec list" where
  "occupancy_threshold_crossed_fields =
     [(''car_id'', Sc NonEmptyStr, Required),
      (''zone'', Opt (SStr 0), Default JNull),
      (''threshold_pct'', Sc UnitFloat, Required),
      (''direction'', Sc (SLit [''rising'', ''falling'']), Required),
      (''occupancy_pct'', Sc UnitFloat, Required),
      (''occupancy_count'', Sc NonNegInt, Required),
      (''capacity'', Sc (SInt (Some 1)), Required),
      (''service_tier'', Sc NonEmptyStr, Required)]"

definition alert_raised_fields :: "field_spec list" where
  "alert_raised_fields =
     [(''alert_id'', Sc NonEmptyStr, Required),
      (''alert_code'', Sc NonEmptyStr, Required),
      (''car_id'', Sc NonEmptyStr, Required),
      (''zone'', Opt (SStr 0), Default JNull),
      (''description'', Sc NonEmptyStr, Required),
      (''auto_resolve_after_s'', Opt NonNegInt, Default JNull),
      (''priority'', Opt (SLit [''escalated'', ''normal'']), Default JNull),
      (''confidence_score'', Opt (SFloat None None), Required),
      (''confidence_basis'', Sc (SLit [''model'', ''sensor'', ''fused'']), Required),
      (''model_versions'', DictOf (SStr 0), Required),
      (''seconds_to_departure'', Opt NonNegInt, Default JNull)]"

definition alert_resolved_fields :: "field_spec list" where
  "alert_resolved_fields =
     [(''alert_id'', Sc NonEmptyStr, Required),
      (''alert_code'', Sc NonEmptyStr, Required),
      (''car_id'', Sc NonEmptyStr, Required),
      (''zone'', Opt (SStr 0), Default JNull),
      (''resolve_reason'', Sc (SLit [''manual'', ''auto'', ''condition_cleared'']), Required)]"

definition vestibule_congestion_fields :: "field_spec list" where
  "vestibule_congestion_fields =
     [(''car_id'', Sc NonEmptyStr, Required),
      (''vestibule_id'', Sc NonEmptyStr, Required),
      (''congestion_score'', Sc UnitFloat, Required),
      (''person_count'', Sc NonNegInt, Required),
      (''dwell_time_avg_s'', Sc NonNegFloat, Required),
      (''threshold_score'', Sc UnitFloat, Required)]"

definition luggage_rack_saturation_fields :: "field_spec list" where
  "luggage_rack_saturation_fields =
     [(''car_id'', Sc NonEmptyStr, Required),
      (''rack_id'', Sc NonEmptyStr, Required),
      (''fill_pct'', Sc UnitFloat, Required),
      (''item_count'', Sc NonNegInt, Required),
      (''confidence'', Opt UnitFloat, Default JNull),
      (''model_versions'', DictOf (SStr 0), Required)]"

definition unattended_bag_fields :: "field_spec list" where
  "unattended_bag_fields =
     [(''car_id'', Sc NonEmptyStr, Required),
      (''zone'', Opt (SStr 0), Default JNull),
      (''track_id'', Sc NonEmptyStr, Required),
      (''dwell_s'', Sc NonNegFloat, Required),
      (''bbox'', OptBBox, Default JNull),
      (''camera_id'', Opt NonEmptyStr, Default JNull),
      (''confidence'', Opt UnitFloat, Default JNull),
      (''model_versions'', DictOf (SStr 0), Required)]"

definition door_obstruction_fields :: "field_spec list" where
  "door_obstruction_fields =
     [(''car_id'', Sc NonEmptyStr, Required),
      (''door_id'', Sc NonEmptyStr, Required),
      (''obstruction_type'', Sc (SLit [''person'', ''object'', ''unknown'']), Required),
      (''track_id'', Sc NonEmptyStr, Required),
      (''camera_id'', Opt NonEmptyStr, Default JNull),
      (''confidence'', Opt UnitFloat, Default JNull),
      (''door_state'', Sc (SLit [''open'', ''closing'', ''closed'', ''unknown'']), Required),
      (''model_versions'', DictOf (SStr 0), Required)]"

definition accessibility_detected_fields :: "field_spec list" where
  "accessibility_detected_fields =
     [(''car_id'', Sc NonEmptyStr, Required),
      (''zone'', Opt (SStr 0), Default JNull),
      (''track_id'', Sc NonEmptyStr, Required),
      (''assistance_type'', ListOf (SLit [''wheelchair'', ''pram'', ''crutches'', ''visual_impairment'', ''other'']) 1, Required),
      (''camera_id'', Sc NonEmptyStr, Required),
      (''confidence'', Opt UnitFloat, Default JNull),
      (''near_door_id'', Sc NonEmptyStr, Required),
      (''model_versions'', DictOf (SStr 0), Required)]"

definition ramp_deployed_fields :: "field_spec list" where
  "ramp_deployed_fields =
     [(''car_id'', Sc NonEmptyStr, Required),
      (''door_id'', Sc NonEmptyStr, Required),
      (''triggered_by_track_id'', Sc NonEmptyStr, Required),
      (''deployed_by'', Sc (SLit [''auto'', ''manual'']), Required),
      (''station_id'', Sc NonEmptyStr, Required)]"

definition alarm_active_fields :: "field_spec list" where
  "alarm_active_fields =
     [(''alarm_id'', Sc NonEmptyStr, Required),
      (''alarm_type'', Sc (SLit [''emergency_brake'', ''fire'', ''passenger_call'', ''intrusion'', ''other'']), Required),
      (''car_id'', Sc NonEmptyStr, Required),
      (''zone'', Opt (SStr 0), Default JNull),
      (''hardware_code'', Sc NonEmptyStr, Required),
      (''triggered_by'', Sc (SLit [''passenger'', ''automatic'', ''unknown'']), Required)]"

definition alarm_cleared_fields :: "field_spec list" where
  "alarm_cleared_fields =
     [(''alarm_id'', Sc NonEmptyStr, Required),
      (''alarm_type'', Sc (SLit [''emergency_brake'', ''fire'', ''passenger_call'', ''intrusion'', ''other'']), Required),
      (''car_id'', Sc NonEmptyStr, Required),
      (''cleared_by'', Sc (SLit [''crew'', ''automatic'', ''unknown'']), Required),
      (''duration_s'', Sc NonNegFloat, Required)]"

definition journey_started_fields :: "field_spec list" where
  "journey_started_fields =
     [(''trip_number'', Sc NonEmptyStr, Required),
      (''origin_station_id'', Sc NonEmptyStr, Required),
      (''scheduled_departure'', Sc SUtcStr, Required),
      (''actual_departure'', Sc SUtcStr, Required),
      (''consist'', ListOf NonEmptyStr 1, Required),
      (''service_class'', Sc NonEmptyStr, Required)]"

definition journey_ended_fields :: "field_spec list" where
  "journey_ended_fields =
     [(''trip_number'', Sc NonEmptyStr, Required),
      (''destination_station_id'', Sc NonEmptyStr, Required),
      (''scheduled_arrival'', Sc SUtcStr, Required),
      (''actual_arrival'', Sc SUtcStr, Required),
      (''total_duration_s'', Sc NonNegFloat, Required),
      (''peak_occupancy_pct'', Sc UnitFloat, Required)]"

definition camera_degraded_fields :: "field_spec list" where
  "camera_degraded_fields =
     [(''camera_id'', Sc NonEmptyStr, Required),
      (''car_id'', Sc NonEmptyStr, Required),
      (''degradation_type'', Sc (SLit [''offline'', ''low_fps'', ''blur'', ''occlusion'', ''night_failure'']), Required),
      (''fps_actual'', Sc NonNegFloat, Required),
      (''fps_expected'', Sc NonNegFloat, Required),
      (''quality_score'', Sc UnitFloat, Required),
      (''affected_zones'', ListOf (SStr 0) 1, Required)]"

definition camera_recovered_fields :: "field_spec list" where
  "camera_recovered_fields =
     [(''camera_id'', Sc NonEmptyStr, Required),
      (''car_id'', Sc NonEmptyStr, Required),
      (''downtime_s'', Sc NonNegFloat, Required),
      (''fps_actual'', Sc NonNegFloat, Required),
      (''quality_score'', Sc UnitFloat, Required)]"

definition sync_completed_fields :: "field_spec list" where
  "sync_completed_fields =
     [(''sync_type'', Sc (SLit [''ntp'', ''config'', ''firmware'']), Required),
      (''nodes_synced'', Sc NonNegInt, Required),
      (''nodes_failed'', Sc NonNegInt, Required),
      (''max_skew_ms'', Sc NonNegFloat, Required),
      (''skew_by_node'', DictOf (SFloat None None), Required),
      (''sync_server'', Sc NonEmptyStr, Required)]"

definition wagon_exit_fields :: "field_spec list" where
  "wagon_exit_fields =
     [(''track_id'', Sc SIntOrStr, Required),
      (''coach_from'', Sc NonEmptyStr, Required),
      (''coach_to'', Sc NonEmptyStr, Required),
      (''camera_id'', Opt NonEmptyStr, Default JNull),
      (''traversal'', Sc (SLit [''from_to'', ''to_from'']), Required),
      (''confidence'', Sc UnitFloat, Required),
      (''expect_orphan'', Sc SBool, Default (JBool False))]"

definition wagon_entry_fields :: "field_spec list" where
  "wagon_entry_fields =
     [(''track_id'', Sc SIntOrStr, Required),
      (''coach_from'', Sc NonEmptyStr, Required),
      (''coach_to'', Sc NonEmptyStr, Required),
      (''camera_id'', Opt NonEmptyStr, Default JNull),
      (''traversal'', Sc (SLit [''from_to'', ''to_from'']), Required),
      (''confidence'', Sc UnitFloat, Required)]"

definition ledger_drift_observation_fields :: "field_spec list" where
  "ledger_drift_observation_fields =
     [(''car_id'', Sc NonEmptyStr, Required),
      (''camera_count'', Sc (SInt None), Required),
      (''ledger_count'', Sc (SInt None), Required),
      (''delta'', Sc (SInt None), Required),
      (''threshold'', Sc (SInt None), Required),
      (''surface_to_operator'', Sc SBool, Default (JBool False))]"

definition calibration_drift_fields :: "field_spec list" where
  "calibration_drift_fields =
     [(''car_id'', Sc NonEmptyStr, Required),
      (''camera_count'', Sc (SInt None), Required),
      (''apc_count'', Sc (SInt None), Required),
      (''delta'', Sc (SInt None), Required),
      (''threshold'', Sc (SInt None), Required)]"

definition coach_comfort_index_fields :: "field_spec list" where
  "coach_comfort_index_fields =
     [(''car_id'', Sc NonEmptyStr, Required),
      (''comfort_score'', Sc UnitFloat, Required),
      (''occupancy_pct'', Sc UnitFloat, Required),
      (''temperature_c'', Opt (SFloat None None), Default JNull),
      (''noise_db'', Opt (SFloat None None), Default JNull)]"

definition stream_priority_fields :: "field_spec list" where
  "stream_priority_fields =
     [(''camera_ids'', ListOf (SStr 0) 0, Required),
      (''priority'', Sc (SLit [''P1'', ''P2'', ''P3'']), Required),
      (''duration_s'', Sc (SFloat None None), Required),
      (''reason'', Sc NonEmptyStr, Required)]"

definition inference_heartbeat_fields :: "field_spec list" where
  "inference_heartbeat_fields =
     [(''train_id'', Sc NonEmptyStr, Required),
      (''model_versions'', DictOf (SStr 0), Required),
      (''frames_processed_window'', Sc NonNegInt, Required),
      (''last_inference_at'', Sc SUtcDatetime, Required),
      (''hailo_device_ok'', Sc SBool, Required)]"

definition alert_class_state_fields :: "field_spec list" where
  "alert_class_state_fields =
     [(''alert_code'', Sc NonEmptyStr, Required),
      (''actor_name'', Sc NonEmptyStr, Required),
      (''source_ip'', Sc NonEmptyStr, Required)]"

text \<open>\<open>PAYLOAD_MODELS\<close>: the class of each event type.\<close>

fun payload_fields :: "event_type \<Rightarrow> field_spec list" where
  "payload_fields OCCUPANCY_UPDATE = occupancy_update_fields"
| "payload_fields OCCUPANCY_THRESHOLD_CROSSED = occupancy_threshold_crossed_fields"
| "payload_fields ALERT_RAISED = alert_raised_fields"
| "payload_fields ALERT_RESOLVED = alert_resolved_fields"
| "payload_fields VESTIBULE_CONGESTION = vestibule_congestion_fields"
| "payload_fields LUGGAGE_RACK_SATURATION = luggage_rack_saturation_fields"
| "payload_fields UNATTENDED_BAG = unattended_bag_fields"
| "payload_fields DOOR_OBSTRUCTION = door_obstruction_fields"
| "payload_fields ACCESSIBILITY_DETECTED = accessibility_detected_fields"
| "payload_fields RAMP_DEPLOYED = ramp_deployed_fields"
| "payload_fields ALARM_ACTIVE = alarm_active_fields"
| "payload_fields ALARM_CLEARED = alarm_cleared_fields"
| "payload_fields JOURNEY_STARTED = journey_started_fields"
| "payload_fields JOURNEY_ENDED = journey_ended_fields"
| "payload_fields CAMERA_DEGRADED = camera_degraded_fields"
| "payload_fields CAMERA_RECOVERED = camera_recovered_fields"
| "payload_fields SYNC_COMPLETED = sync_completed_fields"
| "payload_fields WAGON_EXIT = wagon_exit_fields"
| "payload_fields WAGON_ENTRY = wagon_entry_fields"
| "payload_fields LEDGER_DRIFT_OBSERVATION = ledger_drift_observation_fields"
| "payload_fields CALIBRATION_DRIFT = calibration_drift_fields"
| "payload_fields COACH_COMFORT_INDEX = coach_comfort_index_fields"
| "payload_fields STREAM_PRIORITY = stream_priority_fields"
| "payload_fields INFERENCE_HEARTBEAT = inference_heartbeat_fields"
| "payload_fields ALERT_CLASS_DISABLED = alert_class_state_fields"
| "payload_fields ALERT_CLASS_REENABLED = alert_class_state_fields"

text \<open>The keys the class's serialiser drops when their value is \<open>None\<close>.\<close>

fun dropped_keys :: "event_type \<Rightarrow> string list" where
  "dropped_keys OCCUPANCY_UPDATE = [''confidence'']"
| "dropped_keys ALERT_RAISED = [''priority'', ''seconds_to_departure'']"
| "dropped_keys LUGGAGE_RACK_SATURATION = [''confidence'']"
| "dropped_keys UNATTENDED_BAG = [''confidence'', ''bbox'', ''camera_id'']"
| "dropped_keys DOOR_OBSTRUCTION = [''confidence'', ''camera_id'']"
| "dropped_keys ACCESSIBILITY_DETECTED = [''confidence'']"
| "dropped_keys WAGON_EXIT = [''camera_id'']"
| "dropped_keys WAGON_ENTRY = [''camera_id'']"
| "dropped_keys _ = []"

definition field_name :: "field_spec \<Rightarrow> string" where
  "field_name f = fst f"

definition field_names :: "field_spec list \<Rightarrow> string list" where
  "field_names fs = map field_name fs"

section \<open>Validation and serialisation\<close>

text \<open>One field: the value checked, the default, or an error.\<close>

fun check_field :: "pydantic \<Rightarrow> jdict \<Rightarrow> field_spec \<Rightarrow> (string \<times> json) option" where
  "check_field pd d (n, ty, df) =
     (case dget d n of
        Some j \<Rightarrow> map_option (Pair n) (ftype_check pd ty j)
      | None \<Rightarrow> (case df of Required \<Rightarrow> None | Default v \<Rightarrow> Some (n, v)))"

text \<open>A class: no unknown key (\<open>extra="forbid"\<close>) and every field checked.\<close>

definition validate_fields :: "pydantic \<Rightarrow> field_spec list \<Rightarrow> jdict \<Rightarrow> jdict option" where
  "validate_fields pd fs d =
     (if set (dkeys d) \<subseteq> set (field_names fs) then those (map (check_field pd d) fs) else None)"

definition jnum_of :: "json option \<Rightarrow> rat option" where
  "jnum_of j = (case j of Some (JNum r) \<Rightarrow> Some r | _ \<Rightarrow> None)"

definition jsize :: "json option \<Rightarrow> nat" where
  "jsize j = (case j of Some (JObj d) \<Rightarrow> length d | _ \<Rightarrow> 0)"

text \<open>\<open>AlertRaisedPayload._validate_confidence\<close>: the invariants of each basis.\<close>

definition validate_confidence :: "jdict \<Rightarrow> bool" where
  "validate_confidence v =
     (let basis = dget v ''confidence_basis'';
          score = jnum_of (dget v ''confidence_score'');
          n = jsize (dget v ''model_versions'')
      in if basis = Some (JStr ''sensor'') then score = None \<and> n = 0
         else (case score of None \<Rightarrow> False | Some s \<Rightarrow> 0 \<le> s \<and> s \<le> 1) \<and>
              \<not> (basis = Some (JStr ''model'') \<and> n = 0) \<and>
              \<not> (basis = Some (JStr ''fused'') \<and> n < 2))"

definition payload_invariant :: "event_type \<Rightarrow> jdict \<Rightarrow> bool" where
  "payload_invariant et v = (et = ALERT_RAISED \<longrightarrow> validate_confidence v)"

definition validate_payload :: "pydantic \<Rightarrow> event_type \<Rightarrow> jdict \<Rightarrow> jdict res" where
  "validate_payload pd et d =
     (case validate_fields pd (payload_fields et) d of
        None \<Rightarrow> Inl ValidationError
      | Some v \<Rightarrow> if payload_invariant et v then Inr v else Inl ValidationError)"

text \<open>\<open>_drop_none\<close>: remove the key when its value is \<open>None\<close> (or absent).\<close>

definition drop_none :: "jdict \<Rightarrow> string \<Rightarrow> jdict" where
  "drop_none data key =
     (case dget data key of
        None \<Rightarrow> filter (\<lambda>(k, v). k \<noteq> key) data
      | Some j \<Rightarrow> if j = JNull then filter (\<lambda>(k, v). k \<noteq> key) data else data)"

definition model_dump :: "event_type \<Rightarrow> jdict \<Rightarrow> jdict" where
  "model_dump et v = foldl drop_none v (dropped_keys et)"

end
