(* ===== verification/Event_Payload_Facts.thy ===== *)
theory Event_Payload_Facts
  imports Event_Payloads
begin

text \<open>
  Facts about the payload models: reading is idempotent, a serialised payload reads back
  as the same payload, and changing or removing a field the schema allows to be changed or
  removed keeps a payload valid.
\<close>

section \<open>Reading is idempotent\<close>

lemma those_map_Some:
  "those (map f xs) = Some ys \<longleftrightarrow> list_all2 (\<lambda>x y. f x = Some y) xs ys"
proof (induction xs arbitrary: ys)
  case Nil
  show ?case by auto
next
  case (Cons x xs)
  then show ?case by (cases ys) (auto split: option.splits)
qed

lemma list_all2_ex: "list_all2 P xs ys \<Longrightarrow> x \<in> set xs \<Longrightarrow> \<exists>y \<in> set ys. P x y"
  by (induction rule: list_all2_induct) auto

lemma those_not_None: "(\<And>x. x \<in> set xs \<Longrightarrow> g x \<noteq> None) \<Longrightarrow> those (map g xs) \<noteq> None"
  by (induction xs) (auto split: option.split)

lemma those_map_idem:
  assumes "those (map f xs) = Some ys" "\<And>x y. x \<in> set xs \<Longrightarrow> f x = Some y \<Longrightarrow> f y = Some y"
  shows "those (map f ys) = Some ys"
  using assms unfolding those_map_Some
  by (auto simp: list_all2_conv_all_nth) (metis nth_mem)

lemma scalar_check_idem:
  assumes "pyd_ok pd" "scalar_check pd s j = Some j'"
  shows "scalar_check pd s j' = Some j'"
proof (cases "s = SUtcDatetime")
  case True
  with assms(2) obtain t where "as_datetime pd j = Some (t, Some 0)" "j' = JStr (serialize_utc t)"
    by (auto simp: bind_eq_Some_conv)
  moreover from this assms(1) have "as_datetime pd (JStr (serialize_utc t)) = Some (t, Some 0)"
    unfolding pyd_ok_def by metis
  ultimately show ?thesis using True by simp
next
  case False
  with assms show ?thesis
    by (cases s) (auto simp: pyd_ok_def validate_iso_utc_def bind_eq_Some_conv keep_if_def
        split: json.splits if_splits)
qed

lemma scalar_check_not_null: "scalar_check pd s j = Some j' \<Longrightarrow> j' \<noteq> JNull"
  by (cases s) (auto simp: bind_eq_Some_conv split: json.splits)

lemma check_bbox_idem:
  assumes "pyd_ok pd" "check_bbox pd d = Some j"
  shows "\<exists>d'. j = JObj d' \<and> check_bbox pd d' = Some j"
proof -
  let ?g = "\<lambda>d k. map_option (Pair k) (Option.bind (dget d k) (scalar_check pd NonNegInt))"
  from assms(2) obtain d' where j: "j = JObj d'"
    and ks: "those (map (?g d) bounding_box_fields) = Some d'"
    by (auto simp: check_bbox_def split: if_splits)
  then obtain x y w h where d': "d' = [(''x'', x), (''y'', y), (''w'', w), (''h'', h)]"
    and ok: "\<exists>a. scalar_check pd NonNegInt a = Some x" "\<exists>a. scalar_check pd NonNegInt a = Some y"
      "\<exists>a. scalar_check pd NonNegInt a = Some w" "\<exists>a. scalar_check pd NonNegInt a = Some h"
    by (auto simp: bounding_box_fields_def bind_eq_Some_conv simp del: scalar_check.simps
        split: option.splits) blast
  have "scalar_check pd NonNegInt z = Some z" if "\<exists>a. scalar_check pd NonNegInt a = Some z" for z
    using that scalar_check_idem [OF assms(1)] by blast
  with ok j d' show ?thesis
    by (simp add: check_bbox_def bounding_box_fields_def dkeys_def del: scalar_check.simps)
qed

lemma ftype_check_idem:
  assumes pd: "pyd_ok pd" and ok: "ftype_check pd ty j = Some j'"
  shows "ftype_check pd ty j' = Some j'"
proof (cases ty)
  case (Sc s)
  with ok scalar_check_idem [OF pd] show ?thesis by simp
next
  case (Opt s)
  with ok scalar_check_idem [OF pd] show ?thesis by (auto split: if_splits)
next
  case (ListOf s n)
  with ok obtain js ks where ks: "those (map (scalar_check pd s) js) = Some ks"
    and j': "j' = JList ks" "n \<le> length ks"
    by (auto simp: bind_eq_Some_conv split: json.splits)
  from ks have "those (map (scalar_check pd s) ks) = Some ks"
    by (rule those_map_idem) (rule scalar_check_idem [OF pd])
  with ListOf j' show ?thesis by simp
next
  case (DictOf s)
  let ?f = "\<lambda>(k, v). map_option (Pair k) (scalar_check pd s v)"
  from DictOf ok obtain d ks where ks: "those (map ?f d) = Some ks" and j': "j' = JObj ks"
    by (auto split: json.splits)
  from ks have "those (map ?f ks) = Some ks"
  proof (rule those_map_idem)
    fix x y assume "?f x = Some y"
    then show "?f y = Some y"
      using scalar_check_idem [OF pd, of s "snd x"] by (cases x) auto
  qed
  with DictOf j' show ?thesis by simp
next
  case OptBBox
  show ?thesis
  proof (cases j)
    case (JObj d)
    with OptBBox ok have "check_bbox pd d = Some j'" by simp
    from check_bbox_idem [OF pd this] OptBBox show ?thesis by auto
  qed (use OptBBox ok in auto)
qed

section \<open>A serialised payload reads back\<close>

fun default_ok :: "ftype \<Rightarrow> json \<Rightarrow> bool" where
  "default_ok (Opt s) JNull = True"
| "default_ok OptBBox JNull = True"
| "default_ok (Sc SBool) (JBool b) = True"
| "default_ok _ _ = False"

lemma default_ok_check: "pyd_ok pd \<Longrightarrow> default_ok ty v \<Longrightarrow> ftype_check pd ty v = Some v"
  by (cases "(ty, v)" rule: default_ok.cases) (auto simp: pyd_ok_def)

fun field_ok :: "string list \<Rightarrow> field_spec \<Rightarrow> bool" where
  "field_ok ks (n, ty, Required) = (n \<notin> set ks)"
| "field_ok ks (n, ty, Default v) = (default_ok ty v \<and> (n \<in> set ks \<longrightarrow> v = JNull))"

definition class_ok :: "string list \<Rightarrow> field_spec list \<Rightarrow> bool" where
  "class_ok ks fs = (distinct (field_names fs) \<and> list_all (field_ok ks) fs)"

lemma payload_class_ok: "class_ok (dropped_keys et) (payload_fields et)"
  by (cases et) (simp_all add: class_ok_def field_names_def field_name_def
      occupancy_update_fields_def occupancy_threshold_crossed_fields_def alert_raised_fields_def
      alert_resolved_fields_def vestibule_congestion_fields_def luggage_rack_saturation_fields_def
      unattended_bag_fields_def door_obstruction_fields_def accessibility_detected_fields_def
      ramp_deployed_fields_def alarm_active_fields_def alarm_cleared_fields_def
      journey_started_fields_def journey_ended_fields_def camera_degraded_fields_def
      camera_recovered_fields_def sync_completed_fields_def wagon_exit_fields_def
      wagon_entry_fields_def ledger_drift_observation_fields_def calibration_drift_fields_def
      coach_comfort_index_fields_def stream_priority_fields_def inference_heartbeat_fields_def
      alert_class_state_fields_def)

lemma dget_drop_none:
  "dget (drop_none v k) n = (if n = k \<and> dget v n = Some JNull then None else dget v n)"
proof -
  have f: "dget (filter (\<lambda>(k', v). k' \<noteq> k) v) m = (if m = k then None else dget v m)" for m
    by (induction v) auto
  show ?thesis
    by (auto simp: drop_none_def f split: option.splits)
qed

lemma dget_drop_nones:
  "dget (foldl drop_none v ks) n = (if n \<in> set ks \<and> dget v n = Some JNull then None else dget v n)"
  by (induction ks arbitrary: v) (auto simp: dget_drop_none)

lemma set_drop_none: "set (drop_none v k) \<subseteq> set v"
  by (auto simp: drop_none_def split: option.splits if_splits)

lemma set_drop_nones: "set (foldl drop_none v ks) \<subseteq> set v"
  by (induction ks arbitrary: v) (use set_drop_none in fastforce)+

lemma check_field_name: "check_field pd d f = Some p \<Longrightarrow> fst p = field_name f"
  by (cases f) (auto simp: field_name_def split: option.splits default.splits)

lemma check_fields_names:
  assumes "those (map (check_field pd d) fs) = Some v"
  shows "map fst v = field_names fs"
  using assms unfolding those_map_Some field_names_def
  by (induction rule: list_all2_induct) (auto simp del: check_field.simps dest: check_field_name)

lemma check_fields_get:
  assumes "those (map (check_field pd d) fs) = Some v" "distinct (field_names fs)" "f \<in> set fs"
  shows "\<exists>j. check_field pd d f = Some (field_name f, j) \<and> dget v (field_name f) = Some j"
proof -
  from assms(1,3) obtain p where p: "check_field pd d f = Some p" "p \<in> set v"
    unfolding those_map_Some by (blast dest: list_all2_ex)
  moreover have "distinct (map fst v)"
    using assms(2) check_fields_names [OF assms(1)] by simp
  ultimately show ?thesis
    using check_field_name [OF p(1)] by (cases p) auto
qed

lemma those_map_cong: "(\<And>x. x \<in> set xs \<Longrightarrow> f x = g x) \<Longrightarrow> those (map f xs) = those (map g xs)"
  by (metis map_eq_conv)

lemma validate_dump:
  assumes pd: "pyd_ok pd" and cl: "class_ok ks fs" and v: "validate_fields pd fs d = Some v"
  shows "validate_fields pd fs (foldl drop_none v ks) = Some v"
proof -
  from v have chk: "those (map (check_field pd d) fs) = Some v"
    by (simp add: validate_fields_def split: if_splits)
  from cl have dist: "distinct (field_names fs)" and fok: "\<And>f. f \<in> set fs \<Longrightarrow> field_ok ks f"
    by (auto simp: class_ok_def list_all_iff)
  have "check_field pd (foldl drop_none v ks) f = check_field pd d f" if f: "f \<in> set fs" for f
  proof -
    obtain n ty df where [simp]: "f = (n, ty, df)" by (cases f) auto
    from check_fields_get [OF chk dist f] obtain j where
      j: "check_field pd d f = Some (n, j)" "dget v n = Some j"
      by (auto simp: field_name_def simp del: check_field.simps)
    have "ftype_check pd ty j = Some j"
      using j(1) fok [OF f] default_ok_check [OF pd] ftype_check_idem [OF pd]
      by (auto split: option.splits default.splits)
    moreover have "df = Default JNull" if "n \<in> set ks"
      using that fok [OF f] by (cases df) auto
    ultimately show ?thesis
      using j by (auto simp: dget_drop_nones split: option.splits default.splits)
  qed
  moreover have "set (dkeys (foldl drop_none v ks)) \<subseteq> set (field_names fs)"
    using image_mono [OF set_drop_nones [of v ks], of fst] check_fields_names [OF chk]
    by (simp add: dkeys_def flip: set_map)
  ultimately show ?thesis
    using chk by (simp add: validate_fields_def cong: those_map_cong)
qed

lemma payload_dump_valid:
  assumes "pyd_ok pd" "validate_payload pd et d = Inr v"
  shows "validate_payload pd et (model_dump et v) = Inr v"
  using assms validate_dump [OF assms(1) payload_class_ok [of et]]
  by (auto simp: validate_payload_def model_dump_def split: option.splits if_splits)

section \<open>Replacing and removing a field\<close>

lemma validate_fields_cong:
  assumes "validate_fields pd fs d = Some v" "distinct (field_names fs)"
    and "set (dkeys d') \<subseteq> set (field_names fs)"
    and "\<And>f. f \<in> set fs \<Longrightarrow> check_field pd d' f \<noteq> None"
  shows "\<exists>v'. validate_fields pd fs d' = Some v'"
proof -
  have "those (map (check_field pd d') fs) \<noteq> None"
    using assms(4) by (rule those_not_None)
  then show ?thesis
    using assms(3,4) by (auto simp: validate_fields_def simp del: check_field.simps)
qed

lemma validate_field_ok:
  assumes "validate_fields pd fs d = Some v" "f \<in> set fs"
  shows "check_field pd d f \<noteq> None"
  using assms
  by (auto simp: validate_fields_def those_map_Some simp del: check_field.simps
      split: if_splits dest: list_all2_ex)

lemma validate_ddel:
  assumes v: "validate_fields pd fs d = Some v" and dist: "distinct (field_names fs)"
    and opt: "\<And>ty df. (k, ty, df) \<in> set fs \<Longrightarrow> df \<noteq> Required"
  shows "\<exists>v'. validate_fields pd fs (ddel d k) = Some v'"
proof (rule validate_fields_cong [OF v dist])
  show "set (dkeys (ddel d k)) \<subseteq> set (field_names fs)"
    using v by (auto simp: validate_fields_def dkeys_ddel split: if_splits)
  fix f assume f: "f \<in> set fs"
  obtain n ty df where [simp]: "f = (n, ty, df)" by (cases f) auto
  show "check_field pd (ddel d k) f \<noteq> None"
    using validate_field_ok [OF v f] opt f by (auto split: option.splits default.splits)
qed

lemma validate_dset:
  assumes v: "validate_fields pd fs d = Some v" and dist: "distinct (field_names fs)"
    and k: "k \<in> set (field_names fs)"
    and ok: "\<And>ty df. (k, ty, df) \<in> set fs \<Longrightarrow> ftype_check pd ty j \<noteq> None"
  shows "\<exists>v'. validate_fields pd fs (dset d k j) = Some v'"
proof (rule validate_fields_cong [OF v dist])
  show "set (dkeys (dset d k j)) \<subseteq> set (field_names fs)"
    using v k by (auto simp: validate_fields_def dkeys_dset split: if_splits)
  fix f assume f: "f \<in> set fs"
  obtain n ty df where [simp]: "f = (n, ty, df)" by (cases f) auto
  show "check_field pd (dset d k j) f \<noteq> None"
    using validate_field_ok [OF v f] ok f by (auto split: option.splits default.splits)
qed

section \<open>The strict reader\<close>

lemma as_datetime_strict:
  assumes "dt_ok t"
  shows "fromisoformat_utc (py_replace ''Z'' ''+00:00'' (serialize_utc t)) = Inr t"
proof (cases "us t = 0")
  case False
  have "CHR ''Z'' \<notin> set (iso_head t @ ''.'' @ zpad 6 (us t))"
    by (simp add: iso_head_no_Z zpad_no_char del: zpad.simps)
  then have "py_replace ''Z'' ''+00:00'' ((iso_head t @ ''.'' @ zpad 6 (us t)) @ ''Z'')
      = (iso_head t @ ''.'' @ zpad 6 (us t)) @ ''+00:00''"
    by (rule py_replace_suffix)
  then show ?thesis
    using fromisoformat_us [OF assms] False
    by (simp add: serialize_utc_eq isoformat_us_def del: zpad.simps)
next
  case True
  have "py_replace ''Z'' ''+00:00'' (iso_head t @ ''Z'') = iso_head t @ ''+00:00''"
    by (rule py_replace_suffix) (rule iso_head_no_Z)
  then show ?thesis
    using fromisoformat_s [OF assms True] True by (simp add: serialize_utc_eq)
qed

lemma fromisoformat_ok: "fromisoformat_utc s = Inr t \<Longrightarrow> dt_ok t"
  by (auto simp: fromisoformat_utc_def Let_def split: if_splits)

lemma strict_pydantic_ok: "pyd_ok strict_pydantic"
  by (auto simp: pyd_ok_def strict_pydantic_def as_datetime_strict
      split: json.splits sum.splits dest: fromisoformat_ok)

end
