(* ===== verification/Event_Envelope.thy ===== *)
theory Event_Envelope
  imports Event_Payload_Facts
begin

text \<open>
  \<open>EventEnvelope\<close> of \<open>shared/src/oebb_shared/events/envelope.py\<close>: the field
  validators, the payload check, the JSON form and reading it back. The generated event id
  and the clock reading that fill an absent id and timestamp are arguments.
\<close>

section \<open>The envelope\<close>

record envelope =
  ev_id :: string
  ev_journey_id :: string
  ev_vehicle_id :: string
  ev_timestamp :: string
  ev_type :: event_type
  ev_severity :: severity
  ev_source :: source
  ev_schema_version :: int
  ev_payload :: jdict

text \<open>The keyword arguments of the constructor, before validation.\<close>

record raw_envelope =
  raw_id :: "string option"
  raw_journey_id :: string
  raw_vehicle_id :: string
  raw_timestamp :: "string option"
  raw_type :: string
  raw_severity :: string
  raw_source :: string
  raw_schema_version :: int
  raw_payload :: jdict

section \<open>Field validators\<close>

text \<open>\<open>datetime.strptime(s, "%Y%m%d")\<close> on eight digits.\<close>

definition strptime_ymd :: "string \<Rightarrow> bool" where
  "strptime_ymd s = date_ok (field 0 4 s) (field 4 2 s) (field 6 2 s)"

text \<open>
  \<open>_JOURNEY_ID_RE\<close> is \<open>^[^_]+_[^_]+_(\d{8})$\<close>: three parts between underscores,
  the first two non-empty, the last eight digits, which must be a calendar date.
\<close>

definition validate_journey_id :: "string \<Rightarrow> bool" where
  "validate_journey_id v =
     (case split_on CHR ''_'' v of
        [a, b, d] \<Rightarrow> a \<noteq> [] \<and> b \<noteq> [] \<and> length d = 8 \<and> list_all is_digit d \<and> strptime_ymd d
      | _ \<Rightarrow> False)"

definition validate_timestamp :: "string \<Rightarrow> bool" where
  "validate_timestamp v = timestamp_re v"

text \<open>\<open>_UUID_RE\<close>: a version 4 UUID, in either case.\<close>

definition uuid_pat :: "(char \<Rightarrow> bool) list" where
  "uuid_pat = replicate 8 is_hex @ [lit CHR ''-''] @ replicate 4 is_hex @ [lit CHR ''-''] @
     [lit CHR ''4''] @ replicate 3 is_hex @ [lit CHR ''-''] @
     [\<lambda>c. c \<in> set ''89abAB''] @ replicate 3 is_hex @ [lit CHR ''-''] @ replicate 12 is_hex"

definition validate_event_id :: "string \<Rightarrow> bool" where
  "validate_event_id v = fits uuid_pat v"

definition supported_schema_versions :: "int list" where
  "supported_schema_versions = [1]"

definition validate_schema_version :: "int \<Rightarrow> bool" where
  "validate_schema_version v = (1 \<le> v \<and> v \<in> set supported_schema_versions)"

text \<open>The legacy name of the drift observation is still read.\<close>

definition coerce_legacy_event_type :: "string \<Rightarrow> string" where
  "coerce_legacy_event_type v =
     (if v = ''LEDGER_DRIFT_ALERT'' then event_type_value LEDGER_DRIFT_OBSERVATION else v)"

definition validate_payload_shape :: "pydantic \<Rightarrow> event_type \<Rightarrow> jdict \<Rightarrow> bool" where
  "validate_payload_shape pd et p = (p = [] \<or> (\<exists>v. validate_payload pd et p = Inr v))"

lemma validate_payload_shape_code [code]:
  "validate_payload_shape pd et p =
     (p = [] \<or> (case validate_payload pd et p of Inl _ \<Rightarrow> False | Inr _ \<Rightarrow> True))"
  by (auto simp: validate_payload_shape_def split: sum.splits)

text \<open>\<open>_utc_now\<close>.\<close>

definition utc_now :: "datetime \<Rightarrow> string" where
  "utc_now t = py_replace ''+00:00'' ''Z'' (isoformat_us t)"

section \<open>Construction\<close>

definition default_str :: "(string \<Rightarrow> bool) \<Rightarrow> string option \<Rightarrow> string \<Rightarrow> string res" where
  "default_str ok given dflt =
     (case given of None \<Rightarrow> Inr dflt
      | Some v \<Rightarrow> if ok v then Inr v else Inl ValidationError)"

definition validate_envelope ::
  "pydantic \<Rightarrow> string \<Rightarrow> datetime \<Rightarrow> raw_envelope \<Rightarrow> envelope res" where
  "validate_envelope pd uuid now r =
     bind_res (default_str validate_event_id (raw_id r) uuid) (\<lambda>eid.
     bind_res (guard (validate_journey_id (raw_journey_id r)) ValidationError) (\<lambda>_.
     bind_res (default_str validate_timestamp (raw_timestamp r) (utc_now now)) (\<lambda>ts.
     bind_res (of_opt ValidationError (event_type_of (coerce_legacy_event_type (raw_type r)))) (\<lambda>et.
     bind_res (of_opt ValidationError (severity_of (raw_severity r))) (\<lambda>sv.
     bind_res (of_opt ValidationError (source_of (raw_source r))) (\<lambda>so.
     bind_res (guard (validate_schema_version (raw_schema_version r)) ValidationError) (\<lambda>_.
     bind_res (guard (validate_payload_shape pd et (raw_payload r)) ValidationError) (\<lambda>_.
       Inr \<lparr>ev_id = eid, ev_journey_id = raw_journey_id r, ev_vehicle_id = raw_vehicle_id r,
            ev_timestamp = ts, ev_type = et, ev_severity = sv, ev_source = so,
            ev_schema_version = raw_schema_version r, ev_payload = raw_payload r\<rparr>))))))))"

text \<open>The envelope's own well-formedness: what every accepted envelope satisfies.\<close>

definition envelope_ok :: "pydantic \<Rightarrow> envelope \<Rightarrow> bool" where
  "envelope_ok pd e =
     (validate_event_id (ev_id e) \<and> validate_journey_id (ev_journey_id e) \<and>
      validate_timestamp (ev_timestamp e) \<and> validate_schema_version (ev_schema_version e) \<and>
      validate_payload_shape pd (ev_type e) (ev_payload e))"

section \<open>JSON form\<close>

definition envelope_json :: "envelope \<Rightarrow> jdict" where
  "envelope_json e =
     [(''event_id'', JStr (ev_id e)), (''journey_id'', JStr (ev_journey_id e)),
      (''vehicle_id'', JStr (ev_vehicle_id e)), (''timestamp'', JStr (ev_timestamp e)),
      (''event_type'', JStr (event_type_value (ev_type e))),
      (''severity'', JStr (severity_value (ev_severity e))),
      (''source'', JStr (source_value (ev_source e))),
      (''schema_version'', JInt (ev_schema_version e)), (''payload'', JObj (ev_payload e))]"

definition envelope_keys :: "string list" where
  "envelope_keys = [''event_id'', ''journey_id'', ''vehicle_id'', ''timestamp'', ''event_type'',
     ''severity'', ''source'', ''schema_version'', ''payload'']"

definition json_str :: "pydantic \<Rightarrow> jdict \<Rightarrow> string \<Rightarrow> string res" where
  "json_str pd d k = of_opt ValidationError (Option.bind (dget d k) (as_str pd))"

definition json_opt_str :: "pydantic \<Rightarrow> jdict \<Rightarrow> string \<Rightarrow> string option res" where
  "json_opt_str pd d k =
     (case dget d k of None \<Rightarrow> Inr None
      | Some j \<Rightarrow> map_sum id Some (of_opt ValidationError (as_str pd j)))"

definition json_payload :: "jdict \<Rightarrow> jdict res" where
  "json_payload d =
     (case dget d ''payload'' of None \<Rightarrow> Inr [] | Some (JObj p) \<Rightarrow> Inr p
      | _ \<Rightarrow> Inl ValidationError)"

definition json_version :: "pydantic \<Rightarrow> jdict \<Rightarrow> int res" where
  "json_version pd d =
     (case dget d ''schema_version'' of None \<Rightarrow> Inr 1
      | Some j \<Rightarrow> of_opt ValidationError (as_int pd j))"

text \<open>Reading a JSON body: no unknown key, each present field of its type.\<close>

definition raw_of_json :: "pydantic \<Rightarrow> jdict \<Rightarrow> raw_envelope res" where
  "raw_of_json pd d =
     bind_res (guard (set (dkeys d) \<subseteq> set envelope_keys) ValidationError) (\<lambda>_.
     bind_res (json_opt_str pd d ''event_id'') (\<lambda>eid.
     bind_res (json_str pd d ''journey_id'') (\<lambda>jid.
     bind_res (json_str pd d ''vehicle_id'') (\<lambda>vid.
     bind_res (json_opt_str pd d ''timestamp'') (\<lambda>ts.
     bind_res (json_str pd d ''event_type'') (\<lambda>et.
     bind_res (json_str pd d ''severity'') (\<lambda>sv.
     bind_res (json_str pd d ''source'') (\<lambda>so.
     bind_res (json_version pd d) (\<lambda>ver.
     bind_res (json_payload d) (\<lambda>p.
       Inr \<lparr>raw_id = eid, raw_journey_id = jid, raw_vehicle_id = vid, raw_timestamp = ts,
            raw_type = et, raw_severity = sv, raw_source = so, raw_schema_version = ver,
            raw_payload = p\<rparr>))))))))))"

definition parse_envelope :: "pydantic \<Rightarrow> string \<Rightarrow> datetime \<Rightarrow> jdict \<Rightarrow> envelope res" where
  "parse_envelope pd uuid now d = bind_res (raw_of_json pd d) (validate_envelope pd uuid now)"

section \<open>Facts\<close>

lemma utc_now_eq: "utc_now t = iso_head t @ ''.'' @ zpad 6 (us t) @ ''Z''"
proof -
  have "CHR ''+'' \<notin> set (iso_head t @ ''.'' @ zpad 6 (us t))"
    by (simp add: iso_head_no_plus zpad_no_char del: zpad.simps)
  then have "py_replace ''+00:00'' ''Z'' ((iso_head t @ ''.'' @ zpad 6 (us t)) @ ''+00:00'')
      = (iso_head t @ ''.'' @ zpad 6 (us t)) @ ''Z''"
    by (rule py_replace_suffix)
  then show ?thesis by (simp add: utc_now_def isoformat_us_def del: zpad.simps)
qed

lemma utc_now_valid: "validate_timestamp (utc_now t)"
  by (simp only: validate_timestamp_def utc_now_eq timestamp_re_us)

lemma validate_journey_id_iff:
  "validate_journey_id v \<longleftrightarrow>
     (\<exists>a b d. v = a @ ''_'' @ b @ ''_'' @ d \<and> CHR ''_'' \<notin> set a \<and> CHR ''_'' \<notin> set b \<and>
        a \<noteq> [] \<and> b \<noteq> [] \<and> length d = 8 \<and> list_all is_digit d \<and> strptime_ymd d)"
proof
  assume "validate_journey_id v"
  then obtain a b d where s: "split_on CHR ''_'' v = [a, b, d]" and
    "a \<noteq> []" "b \<noteq> []" "length d = 8" "list_all is_digit d" "strptime_ymd d"
    by (auto simp: validate_journey_id_def split: list.splits)
  then show "\<exists>a b d. v = a @ ''_'' @ b @ ''_'' @ d \<and> CHR ''_'' \<notin> set a \<and> CHR ''_'' \<notin> set b \<and>
        a \<noteq> [] \<and> b \<noteq> [] \<and> length d = 8 \<and> list_all is_digit d \<and> strptime_ymd d"
    using split_on_3 [of "CHR ''_''" v a b d] by auto
next
  assume "\<exists>a b d. v = a @ ''_'' @ b @ ''_'' @ d \<and> CHR ''_'' \<notin> set a \<and> CHR ''_'' \<notin> set b \<and>
        a \<noteq> [] \<and> b \<noteq> [] \<and> length d = 8 \<and> list_all is_digit d \<and> strptime_ymd d"
  then obtain a b d where v: "v = a @ ''_'' @ b @ ''_'' @ d" and "CHR ''_'' \<notin> set a"
    "CHR ''_'' \<notin> set b" and ok: "a \<noteq> []" "b \<noteq> []" "length d = 8" "list_all is_digit d" "strptime_ymd d"
    by blast
  moreover from ok(4) have "CHR ''_'' \<notin> set d"
    by (auto simp: list_all_iff)
  ultimately have "split_on CHR ''_'' v = [a, b, d]"
    using split_on_3 [of "CHR ''_''" v a b d] by simp
  with ok show "validate_journey_id v" by (simp add: validate_journey_id_def)
qed

lemma journey_id_nonempty: "validate_journey_id v \<Longrightarrow> v \<noteq> []"
  by (auto simp: validate_journey_id_iff)

lemma coerce_legacy_value [simp]: "coerce_legacy_event_type (event_type_value e) = event_type_value e"
  by (cases e) (simp_all add: coerce_legacy_event_type_def)

lemma default_str_Inr [res_iff]:
  "default_str ok g d = Inr v \<longleftrightarrow> (case g of None \<Rightarrow> v = d | Some x \<Rightarrow> ok x \<and> v = x)"
  by (auto simp: default_str_def split: option.splits)

lemma validate_envelope_ok:
  assumes "validate_envelope pd uuid now r = Inr e" "validate_event_id uuid"
  shows "envelope_ok pd e"
  using assms utc_now_valid [of now]
  by (auto simp: validate_envelope_def res_iff envelope_ok_def split: option.splits)

text \<open>Every accepted envelope is accepted again from its own JSON, unchanged.\<close>

lemma envelope_json_roundtrip:
  assumes "pyd_ok pd" "envelope_ok pd e"
  shows "parse_envelope pd uuid now (envelope_json e) = Inr e"
  using assms
  by (simp add: parse_envelope_def raw_of_json_def envelope_json_def envelope_keys_def dkeys_def
      json_opt_str_def json_str_def json_version_def json_payload_def validate_envelope_def
      default_str_def envelope_ok_def pyd_ok_def)

lemma parse_envelope_ok:
  assumes "parse_envelope pd uuid now d = Inr e" "validate_event_id uuid"
  shows "envelope_ok pd e"
  using assms validate_envelope_ok by (auto simp: parse_envelope_def res_iff)

end
