(* ===== verification/Event_Anonymise.thy ===== *)
theory Event_Anonymise
  imports Event_Envelope
begin

text \<open>
  The edge-boundary anonymiser \<open>shared/src/oebb_shared/events/anonymise.py\<close>: the policy
  tables, the track token and \<open>anonymise_envelope\<close> on JSON envelopes. The keyed hash
  is the parameter \<open>hmac_hex secret msg\<close>, the hexadecimal digest of
  \<open>hmac.new(secret, msg, sha256)\<close>; \<open>text_of\<close> is Python's \<open>str()\<close> on the values
  that are not strings, integers, booleans or \<open>None\<close>.
\<close>

section \<open>Policy tables\<close>

definition drop_event_types :: "string list" where
  "drop_event_types = [''ACCESSIBILITY_DETECTED'']"

definition pass_through_event_types :: "string list" where
  "pass_through_event_types =
     [''OCCUPANCY_UPDATE'', ''OCCUPANCY_THRESHOLD_CROSSED'', ''ALERT_RAISED'', ''ALERT_RESOLVED'',
      ''VESTIBULE_CONGESTION'', ''LUGGAGE_RACK_SATURATION'', ''ALARM_ACTIVE'', ''ALARM_CLEARED'',
      ''JOURNEY_STARTED'', ''JOURNEY_ENDED'', ''CAMERA_DEGRADED'', ''CAMERA_RECOVERED'',
      ''SYNC_COMPLETED'', ''LEDGER_DRIFT_OBSERVATION'', ''CALIBRATION_DRIFT'',
      ''COACH_COMFORT_INDEX'', ''INFERENCE_HEARTBEAT'', ''ALERT_CLASS_DISABLED'',
      ''ALERT_CLASS_REENABLED'', ''STREAM_PRIORITY'']"

definition drop_fields :: "(string, string list) dict" where
  "drop_fields =
     [(''UNATTENDED_BAG'', [''bbox'', ''camera_id'']),
      (''DOOR_OBSTRUCTION'', [''camera_id'']),
      (''WAGON_EXIT'', [''camera_id'']),
      (''WAGON_ENTRY'', [''camera_id''])]"

definition tokenise_track_id :: "string list" where
  "tokenise_track_id = [''UNATTENDED_BAG'', ''DOOR_OBSTRUCTION'', ''WAGON_EXIT'', ''WAGON_ENTRY'']"

definition token_len :: nat where
  "token_len = 16"

definition redacted_marker :: string where
  "redacted_marker = ''redacted''"

definition redact_in_place_event_types :: "string list" where
  "redact_in_place_event_types = dkeys drop_fields @ tokenise_track_id @ [''RAMP_DEPLOYED'']"

definition known_event_types :: "string list" where
  "known_event_types = drop_event_types @ pass_through_event_types @ redact_in_place_event_types"

section \<open>The token\<close>

fun py_str :: "(json \<Rightarrow> string) \<Rightarrow> json \<Rightarrow> string" where
  "py_str text_of (JStr s) = s"
| "py_str text_of (JInt i) = show_int i"
| "py_str text_of (JBool b) = (if b then ''True'' else ''False'')"
| "py_str text_of JNull = ''None''"
| "py_str text_of j = text_of j"

definition track_token ::
  "(string \<Rightarrow> string \<Rightarrow> string) \<Rightarrow> (json \<Rightarrow> string) \<Rightarrow> string \<Rightarrow> string \<Rightarrow> json \<Rightarrow> string" where
  "track_token hmac_hex text_of secret journey_id track_id =
     ''tk_'' @ take token_len (hmac_hex secret (journey_id @ '':'' @ py_str text_of track_id))"

section \<open>The transform\<close>

text \<open>\<open>dict(envelope.get("payload") or {})\<close>.\<close>

definition payload_copy :: "jdict \<Rightarrow> jdict res" where
  "payload_copy env =
     (case dget env ''payload'' of
        None \<Rightarrow> Inr []
      | Some j \<Rightarrow> if \<not> jtruthy j then Inr []
                  else (case j of JObj p \<Rightarrow> Inr p | _ \<Rightarrow> Inl TypeError))"

definition drop_keys :: "jdict \<Rightarrow> string list \<Rightarrow> jdict" where
  "drop_keys p ks = foldl ddel p ks"

definition redact_payload ::
  "(json \<Rightarrow> string) \<Rightarrow> string \<Rightarrow> jdict \<Rightarrow> jdict" where
  "redact_payload token et p =
     (let p1 = drop_keys p (dget_or drop_fields et []);
          p2 = (if et \<in> set tokenise_track_id
                then (case dget p1 ''track_id'' of None \<Rightarrow> p1
                      | Some t \<Rightarrow> dset p1 ''track_id'' (JStr (token t)))
                else p1)
      in if et = ''RAMP_DEPLOYED'' \<and> dhas p2 ''triggered_by_track_id''
         then dset p2 ''triggered_by_track_id'' (JStr redacted_marker) else p2)"

definition env_journey :: "(json \<Rightarrow> string) \<Rightarrow> jdict \<Rightarrow> string" where
  "env_journey text_of env =
     (case dget env ''journey_id'' of None \<Rightarrow> [] | Some j \<Rightarrow> py_str text_of j)"

definition anonymise_envelope ::
  "(string \<Rightarrow> string \<Rightarrow> string) \<Rightarrow> (json \<Rightarrow> string) \<Rightarrow> string \<Rightarrow> jdict \<Rightarrow> jdict option res" where
  "anonymise_envelope hmac_hex text_of secret env =
     (case dget env ''event_type'' of
        Some (JStr et) \<Rightarrow>
          if et \<in> set drop_event_types then Inr None
          else if et \<notin> set known_event_types then Inr None
          else bind_res (payload_copy env) (\<lambda>p.
            Inr (Some (dset env ''payload''
              (JObj (redact_payload (track_token hmac_hex text_of secret (env_journey text_of env)) et p)))))
      | Some (JList _) \<Rightarrow> Inl TypeError
      | Some (JObj _) \<Rightarrow> Inl TypeError
      | _ \<Rightarrow> Inr None)"

section \<open>Facts\<close>

lemmas policy_defs = drop_event_types_def pass_through_event_types_def drop_fields_def
  tokenise_track_id_def redact_in_place_event_types_def known_event_types_def dkeys_def

lemma every_type_has_a_policy: "event_type_value e \<in> set known_event_types"
  by (cases e) (simp_all add: policy_defs)

text \<open>The policy as a function of the event type.\<close>

datatype egress_policy =
    Withhold
  | PassThrough
  | Redact "string list" bool \<comment> \<open>keys dropped, track id replaced by a token\<close>
  | BlankRampTrack

fun egress_policy_of :: "event_type \<Rightarrow> egress_policy" where
  "egress_policy_of ACCESSIBILITY_DETECTED = Withhold"
| "egress_policy_of RAMP_DEPLOYED = BlankRampTrack"
| "egress_policy_of UNATTENDED_BAG = Redact [''bbox'', ''camera_id''] True"
| "egress_policy_of DOOR_OBSTRUCTION = Redact [''camera_id''] True"
| "egress_policy_of WAGON_EXIT = Redact [''camera_id''] True"
| "egress_policy_of WAGON_ENTRY = Redact [''camera_id''] True"
| "egress_policy_of _ = PassThrough"

definition apply_policy :: "(json \<Rightarrow> string) \<Rightarrow> egress_policy \<Rightarrow> jdict \<Rightarrow> jdict option" where
  "apply_policy token pol p =
     (case pol of
        Withhold \<Rightarrow> None
      | PassThrough \<Rightarrow> Some p
      | BlankRampTrack \<Rightarrow>
          Some (if dhas p ''triggered_by_track_id''
                then dset p ''triggered_by_track_id'' (JStr ''redacted'') else p)
      | Redact ks tok \<Rightarrow>
          (let q = drop_keys p ks in
           Some (case dget q ''track_id'' of None \<Rightarrow> q
                 | Some t \<Rightarrow> if tok then dset q ''track_id'' (JStr (token t)) else q)))"

lemma redact_by_policy:
  "egress_policy_of e \<noteq> Withhold \<Longrightarrow>
     apply_policy token (egress_policy_of e) p = Some (redact_payload token (event_type_value e) p)"
  by (cases e) (simp_all add: apply_policy_def redact_payload_def policy_defs dget_or_def
      drop_keys_def redacted_marker_def Let_def split: option.splits)

lemma withheld_iff: "egress_policy_of e = Withhold \<longleftrightarrow> event_type_value e \<in> set drop_event_types"
  by (cases e) (simp_all add: drop_event_types_def)

lemma anonymise_known:
  assumes "dget env ''event_type'' = Some (JStr (event_type_value e))" "payload_copy env = Inr p"
  shows "anonymise_envelope hm tx secret env =
     Inr (map_option (\<lambda>q. dset env ''payload'' (JObj q))
       (apply_policy (track_token hm tx secret (env_journey tx env)) (egress_policy_of e) p))"
  using assms every_type_has_a_policy [of e] withheld_iff [of e] redact_by_policy [of e]
  by (auto simp: anonymise_envelope_def apply_policy_def)

lemma anonymise_unknown:
  assumes "\<And>e. dget env ''event_type'' \<noteq> Some (JStr (event_type_value e))"
    and "\<And>js. dget env ''event_type'' \<noteq> Some (JList js)"
    and "\<And>d. dget env ''event_type'' \<noteq> Some (JObj d)"
  shows "anonymise_envelope hm tx secret env = Inr None"
proof -
  have "s \<notin> set known_event_types" if "\<And>e. s \<noteq> event_type_value e" for s
  proof
    assume "s \<in> set known_event_types"
    then have "event_type_of s \<noteq> None"
      by (auto simp: policy_defs event_type_of_def all_event_types_def)
    then show False using that event_type_of_Some by auto
  qed
  with assms show ?thesis
    by (auto simp: anonymise_envelope_def split: option.splits json.splits)
qed

lemma dget_drop_keys: "dget (drop_keys p ks) k = (if k \<in> set ks then None else dget p k)"
  unfolding drop_keys_def by (induction ks arbitrary: p) auto

lemma track_token_length: "3 \<le> length (track_token hm tx secret j t)"
  by (simp add: track_token_def)

lemma redact_track_id:
  assumes "validate_fields pd fs p = Some v" "distinct (field_names fs)" "pyd_ok pd"
    and opt: "\<And>k ty df. k \<in> set ks \<Longrightarrow> (k, ty, df) \<in> set fs \<Longrightarrow> df \<noteq> Required"
    and trk: "\<And>ty df. (''track_id'', ty, df) \<in> set fs \<Longrightarrow> ty = Sc NonEmptyStr \<or> ty = Sc SIntOrStr"
    and has: "''track_id'' \<in> set (field_names fs)"
  shows "\<exists>v'. validate_fields pd fs
     (case dget (drop_keys p ks) ''track_id'' of None \<Rightarrow> drop_keys p ks
      | Some t \<Rightarrow> dset (drop_keys p ks) ''track_id'' (JStr (track_token hm tx secret j t))) = Some v'"
proof -
  have "\<exists>v'. validate_fields pd fs (drop_keys p ks) = Some v'"
    using assms(1) opt unfolding drop_keys_def
  proof (induction ks arbitrary: p v)
    case Nil
    then show ?case by auto
  next
    case (Cons k ks)
    from validate_ddel [OF Cons.prems(1) assms(2)] Cons.prems(2)
    obtain v' where "validate_fields pd fs (ddel p k) = Some v'" by fastforce
    with Cons.IH Cons.prems(2) show ?case by (metis foldl_Cons list.set_intros(2))
  qed
  then obtain v' where v': "validate_fields pd fs (drop_keys p ks) = Some v'" ..
  have "ftype_check pd ty (JStr (track_token hm tx secret j t)) \<noteq> None"
    if "(''track_id'', ty, df) \<in> set fs" for ty df t
    using trk [OF that] assms(3) track_token_length [of hm tx secret j t]
    by (auto simp: pyd_ok_def keep_if_def)
  then show ?thesis
    using v' validate_dset [OF v' assms(2) has] by (auto split: option.split)
qed

lemma apply_policy_valid:
  assumes pd: "pyd_ok pd" and v: "validate_payload pd e p = Inr v"
    and q: "apply_policy (track_token hm tx secret j) (egress_policy_of e) p = Some q"
  shows "\<exists>v'. validate_payload pd e q = Inr v'"
proof (cases "egress_policy_of e = PassThrough")
  case True
  with v q show ?thesis by (simp add: apply_policy_def)
next
  case False
  then have e: "e \<in> {ACCESSIBILITY_DETECTED, RAMP_DEPLOYED, UNATTENDED_BAG, DOOR_OBSTRUCTION, WAGON_EXIT, WAGON_ENTRY}"
    by (cases e) simp_all
  from v have f: "validate_fields pd (payload_fields e) p = Some v"
    by (simp add: validate_payload_def split: option.splits if_splits)
  have inv: "payload_invariant e w" for w
    using e by (auto simp: payload_invariant_def)
  have dist: "distinct (field_names (payload_fields e))"
    using payload_class_ok [of e] by (simp add: class_ok_def)
  have "\<exists>v'. validate_fields pd (payload_fields e) q = Some v'"
  proof (cases "e = RAMP_DEPLOYED")
    case True
    have "\<exists>v'. validate_fields pd (payload_fields e) (dset p ''triggered_by_track_id'' (JStr ''redacted'')) = Some v'"
      using pd by (intro validate_dset [OF f dist])
        (auto simp: True ramp_deployed_fields_def field_names_def field_name_def pyd_ok_def)
    with f q True show ?thesis by (auto simp: apply_policy_def)
  next
    case False
    with e q obtain ks where pol: "egress_policy_of e = Redact ks True"
      by (auto simp: apply_policy_def)
    have "\<exists>v'. validate_fields pd (payload_fields e)
       (case dget (drop_keys p ks) ''track_id'' of None \<Rightarrow> drop_keys p ks
        | Some t \<Rightarrow> dset (drop_keys p ks) ''track_id'' (JStr (track_token hm tx secret j t))) = Some v'"
      by (rule redact_track_id [OF f dist pd])
        (use False e pol in \<open>auto simp: unattended_bag_fields_def door_obstruction_fields_def
          wagon_exit_fields_def wagon_entry_fields_def field_names_def field_name_def\<close>)
    with q pol show ?thesis by (auto simp: apply_policy_def Let_def split: option.splits)
  qed
  then show ?thesis using inv by (auto simp: validate_payload_def)
qed

end
