(* ===== verification/Shared_Interfaces.thy ===== *)
theory Shared_Interfaces
  imports Event_Anonymise
begin

text \<open>
  The rest of the shared package: WebSocket subscriptions (\<open>ws/subscription.py\<close>), the
  passenger-counter and display adapters (\<open>adapters/\<close>) and the retry policy of
  \<open>http/retry.py\<close> over a network whose behaviour is a parameter.
\<close>

section \<open>Subscriptions\<close>

record subscription =
  sub_event_types :: "string list"
  sub_min_severity :: string
  sub_coach_ids :: "string list option"
  sub_replay_depth :: int

definition severity_order :: "(string, int) dict" where
  "severity_order = [(''info'', 0), (''warning'', 1), (''critical'', 2)]"

definition matches_severity :: "subscription \<Rightarrow> string \<Rightarrow> bool" where
  "matches_severity sub sev =
     (dget_or severity_order (sub_min_severity sub) 0 \<le> dget_or severity_order sev (-1))"

definition matches_event_type :: "subscription \<Rightarrow> string \<Rightarrow> bool" where
  "matches_event_type sub et = (et \<in> set (sub_event_types sub))"

definition matches_coach :: "subscription \<Rightarrow> string option \<Rightarrow> bool" where
  "matches_coach sub c =
     (case sub_coach_ids sub of None \<Rightarrow> True
      | Some ids \<Rightarrow> (case c of None \<Rightarrow> True | Some x \<Rightarrow> x \<in> set ids))"

definition sub_matches :: "subscription \<Rightarrow> string \<Rightarrow> string \<Rightarrow> string option \<Rightarrow> bool" where
  "sub_matches sub et sev c = (matches_event_type sub et \<and> matches_severity sub sev \<and> matches_coach sub c)"

lemma severity_order_rank [simp]:
  "dget_or severity_order (severity_value s) x = int (severity_rank s)"
  by (cases s) (simp_all add: severity_order_def dget_or_def)

text \<open>On the three severities the comparison is the order of the severities.\<close>

lemma matches_severity_iff:
  assumes "sub_min_severity sub = severity_value m"
  shows "matches_severity sub (severity_value s) \<longleftrightarrow> m \<le> s"
  by (simp add: matches_severity_def assms less_eq_severity_def)

lemma matches_severity_unknown:
  assumes "\<And>v. s \<noteq> severity_value v"
  shows "\<not> matches_severity sub s"
proof -
  have "s \<notin> set (dkeys severity_order)"
    using assms [of Sev_info] assms [of Sev_warning] assms [of Sev_critical]
    by (auto simp: severity_order_def dkeys_def)
  then have s: "dget_or severity_order s (-1) = -1"
    by (auto simp: dget_or_def dkeys_dom split: option.splits)
  have "0 \<le> dget_or severity_order (sub_min_severity sub) 0"
    by (auto simp: dget_or_def severity_order_def split: option.splits if_splits)
  with s show ?thesis by (simp add: matches_severity_def)
qed

section \<open>Adapters\<close>

record occupancy_reading =
  or_car_id :: string
  or_count :: int
  or_timestamp :: string

record door_reading =
  dr_car_id :: string
  dr_is_open :: bool
  dr_timestamp :: string

definition mock_reading :: "string \<Rightarrow> int \<Rightarrow> string \<times> occupancy_reading" where
  "mock_reading c n = (c, \<lparr>or_car_id = c, or_count = n, or_timestamp = ''2026-05-17T10:00:00Z''\<rparr>)"

definition mock_occupancy :: "(string, occupancy_reading) dict" where
  "mock_occupancy = [mock_reading ''car-1'' 45, mock_reading ''car-2'' 182,
     mock_reading ''car-3'' 71, mock_reading ''car-4'' 120, mock_reading ''car-5'' 33]"

definition mock_get_occupancy :: "string \<Rightarrow> occupancy_reading res" where
  "mock_get_occupancy c = of_opt KeyError (dget mock_occupancy c)"

definition mock_get_door_state :: "string \<Rightarrow> door_reading res" where
  "mock_get_door_state c =
     (if dhas mock_occupancy c
      then Inr \<lparr>dr_car_id = c, dr_is_open = False, dr_timestamp = ''2026-05-17T10:00:00Z''\<rparr>
      else Inl KeyError)"

record pis_message =
  pm_car_id :: string
  pm_message :: string
  pm_duration_s :: int

record mock_pis =
  mp_messages :: "pis_message list"
  mp_cleared :: "string list"

definition mock_display_message :: "mock_pis \<Rightarrow> pis_message \<Rightarrow> mock_pis" where
  "mock_display_message s m = s\<lparr>mp_messages := mp_messages s @ [m]\<rparr>"

definition mock_clear_message :: "mock_pis \<Rightarrow> string \<Rightarrow> mock_pis" where
  "mock_clear_message s c = s\<lparr>mp_cleared := mp_cleared s @ [c]\<rparr>"

lemma mock_reading_car: "mock_get_occupancy c = Inr r \<Longrightarrow> or_car_id r = c"
  by (auto simp: mock_get_occupancy_def mock_occupancy_def mock_reading_def res_iff split: if_splits)

section \<open>The network\<close>

text \<open>
  What becomes of one HTTP attempt: the server handled it and the client saw a success;
  the server handled it and the reply was lost or an error; it never arrived. Which one
  happens is a parameter, a function of the number of attempts made so far. Requests that
  reached a server are recorded in the order they arrived.
\<close>

datatype delivery = Acked | Lost_reply | Undelivered

datatype http_req =
    PostEvent envelope \<comment> \<open>\<open>POST {event_store_url}/api/v1/events\<close>\<close>
  | PostFusion string jdict \<comment> \<open>\<open>POST {fusion_url}{path}\<close> with a JSON body\<close>
  | PostInference jdict \<comment> \<open>\<open>POST {inference_url}/context\<close>\<close>
  | PostIngest jdict \<comment> \<open>\<open>POST {rtsp_ingest_url}/context\<close>\<close>
  | PostEventBody jdict \<comment> \<open>an event posted as a plain dictionary, not built by \<open>EventEnvelope\<close>\<close>

record world =
  w_tick :: nat \<comment> \<open>attempts made\<close>
  w_uuids :: nat \<comment> \<open>event ids drawn\<close>
  w_sent :: "http_req list"

record environment =
  net :: "nat \<Rightarrow> delivery"
  uuids :: "nat \<Rightarrow> string"
  pyd :: pydantic

text \<open>
  The clock as a run reads it: the instant read when \<open>n\<close> ids have been drawn. Every
  envelope draws an id, so successive envelopes, those of a retry included, read it anew.
\<close>

type_synonym clock = "nat \<Rightarrow> datetime"

definition env_ok :: "environment \<Rightarrow> bool" where
  "env_ok E \<longleftrightarrow> pyd_ok (pyd E) \<and> (\<forall>n. validate_event_id (uuids E n))"

definition http_post :: "environment \<Rightarrow> http_req \<Rightarrow> world \<Rightarrow> bool \<times> world" where
  "http_post E r w =
     (case net E (w_tick w) of
        Acked \<Rightarrow> (True, w\<lparr>w_tick := Suc (w_tick w), w_sent := w_sent w @ [r]\<rparr>)
      | Lost_reply \<Rightarrow> (False, w\<lparr>w_tick := Suc (w_tick w), w_sent := w_sent w @ [r]\<rparr>)
      | Undelivered \<Rightarrow> (False, w\<lparr>w_tick := Suc (w_tick w)\<rparr>))"

text \<open>
  \<open>DEFAULT_RETRY\<close>: at most five attempts, the last error raised again. The waits
  between attempts are not modelled.
\<close>

definition default_attempts :: nat where
  "default_attempts = 5"

fun retry_post :: "environment \<Rightarrow> nat \<Rightarrow> http_req \<Rightarrow> world \<Rightarrow> bool \<times> world" where
  "retry_post E 0 r w = (False, w)"
| "retry_post E (Suc k) r w =
     (case http_post E r w of (ok, w') \<Rightarrow> if ok then (True, w') else retry_post E k r w')"

text \<open>The events that reached the event-store, and their ids.\<close>

fun sent_events :: "http_req list \<Rightarrow> envelope list" where
  "sent_events [] = []"
| "sent_events (PostEvent e # rs) = e # sent_events rs"
| "sent_events (_ # rs) = sent_events rs"

lemma sent_events_append [simp]: "sent_events (a @ b) = sent_events a @ sent_events b"
  by (induction a rule: sent_events.induct) auto

lemma http_post_sent:
  "http_post E r w = (ok, w') \<Longrightarrow>
     (w_sent w' = w_sent w \<or> w_sent w' = w_sent w @ [r]) \<and> (ok \<longrightarrow> w_sent w' = w_sent w @ [r])
     \<and> w_uuids w' = w_uuids w"
  by (auto simp: http_post_def split: delivery.splits)

text \<open>A retried request only ever adds copies of that request, and at least one on success.\<close>

lemma retry_post_sent:
  "retry_post E k r w = (ok, w') \<Longrightarrow>
     \<exists>n \<le> k. w_sent w' = w_sent w @ replicate n r \<and> (ok \<longrightarrow> 0 < n) \<and> w_uuids w' = w_uuids w"
proof (induction k arbitrary: w)
  case 0
  then show ?case by auto
next
  case (Suc k)
  obtain ok1 w1 where p: "http_post E r w = (ok1, w1)" by fastforce
  note ps = http_post_sent [OF p]
  show ?case
  proof (cases ok1)
    case True
    with Suc.prems p have "ok = True" "w' = w1" by auto
    with ps True show ?thesis by (intro exI [of _ 1]) auto
  next
    case False
    with Suc.prems p have "retry_post E k r w1 = (ok, w')" by simp
    from Suc.IH [OF this] obtain n where n: "n \<le> k" "w_sent w' = w_sent w1 @ replicate n r"
      "ok \<longrightarrow> 0 < n" "w_uuids w' = w_uuids w1" by blast
    show ?thesis
    proof (cases "w_sent w1 = w_sent w")
      case True
      with n ps show ?thesis by (intro exI [of _ n]) auto
    next
      case False
      with n ps show ?thesis by (intro exI [of _ "Suc n"]) auto
    qed
  qed
qed

lemma retry_post_acked:
  assumes "net E (w_tick w) = Acked"
  shows "retry_post E (Suc k) r w = (True, w\<lparr>w_tick := Suc (w_tick w), w_sent := w_sent w @ [r]\<rparr>)"
  using assms by (simp add: http_post_def)

text \<open>What a step adds to the log satisfies a predicate.\<close>

definition adds :: "(http_req \<Rightarrow> bool) \<Rightarrow> world \<Rightarrow> world \<Rightarrow> bool" where
  "adds P w w' = (\<exists>rs. w_sent w' = w_sent w @ rs \<and> list_all P rs)"

lemma adds_same: "w_sent w' = w_sent w \<Longrightarrow> adds P w w'"
  by (simp add: adds_def)

lemma adds_refl [simp]: "adds P w w"
  by (rule adds_same) simp

lemma adds_trans: "adds P w w' \<Longrightarrow> adds P w' w'' \<Longrightarrow> adds P w w''"
  by (auto simp: adds_def)

lemma adds_mono: "adds P w w' \<Longrightarrow> (\<And>r. P r \<Longrightarrow> Q r) \<Longrightarrow> adds Q w w'"
  by (auto simp: adds_def list_all_iff)

lemma adds_Ex_drop: "adds P w w' \<Longrightarrow> list_all P (drop (length (w_sent w)) (w_sent w'))"
  by (auto simp: adds_def)

lemma http_post_adds: "P r \<Longrightarrow> adds P w (snd (http_post E r w))"
  by (auto simp: adds_def http_post_def split: delivery.split)

lemma retry_post_adds: "P r \<Longrightarrow> adds P w (snd (retry_post E k r w))"
  using retry_post_sent [of E k r w, OF surjective_pairing] by (auto simp: adds_def list_all_iff)

section \<open>Retried coroutines\<close>

text \<open>
  \<open>@DEFAULT_RETRY\<close> on a whole method: any exception starts the method again, five
  attempts in all, the last exception raised.
\<close>

fun retry_call :: "nat \<Rightarrow> ('w \<Rightarrow> unit res \<times> 'w) \<Rightarrow> 'w \<Rightarrow> unit res \<times> 'w" where
  "retry_call 0 f w = (Inl RuntimeError, w)"
| "retry_call (Suc k) f w =
     (case f w of
        (Inr u, w') \<Rightarrow> (Inr u, w')
      | (Inl e, w') \<Rightarrow> if k = 0 then (Inl e, w') else retry_call k f w')"

lemma retry_call_first: "f w = (Inr u, w') \<Longrightarrow> retry_call (Suc k) f w = (Inr u, w')"
  by simp

lemma retry_call_invariant:
  assumes "\<And>w. P w \<Longrightarrow> P (snd (f w))" "P w"
  shows "P (snd (retry_call k f w))"
  using assms(2)
proof (induction k arbitrary: w)
  case 0
  then show ?case by simp
next
  case (Suc k)
  obtain r w' where f: "f w = (r, w')" by fastforce
  with assms(1) [OF Suc.prems] have "P w'" by simp
  with f Suc.IH [OF this] show ?case by (cases r) auto
qed

lemma retry_call_succeeded:
  assumes "retry_call k f w = (Inr u, w')"
  shows "\<exists>w0. f w0 = (Inr u, w')"
  using assms
proof (induction k arbitrary: w)
  case 0
  then show ?case by simp
next
  case (Suc k)
  obtain r w1 where f: "f w = (r, w1)" by fastforce
  show ?case
  proof (cases r)
    case (Inl e)
    with f Suc.prems have "retry_call k f w1 = (Inr u, w')" by (auto split: if_splits)
    then show ?thesis by (rule Suc.IH)
  next
    case (Inr v)
    with f Suc.prems show ?thesis by (intro exI [of _ w]) simp
  qed
qed

section \<open>A concrete environment\<close>

text \<open>The strict reader, two event ids in turn, and a network given by its fates so far.\<close>

definition sample_uuid :: "nat \<Rightarrow> string" where
  "sample_uuid n =
     (if n = 0 then ''00000000-0000-4000-8000-000000000000'' else ''00000000-0000-4000-8000-000000000001'')"

definition sample_env :: "delivery list \<Rightarrow> environment" where
  "sample_env ds =
     \<lparr>net = (\<lambda>t. if t < length ds then ds ! t else Acked), uuids = sample_uuid, pyd = strict_pydantic\<rparr>"

definition sample_world :: world where
  "sample_world = \<lparr>w_tick = 0, w_uuids = 0, w_sent = []\<rparr>"

definition sample_time :: datetime where
  "sample_time = \<lparr>yr = 2026, mo = 5, dy = 17, hh = 10, mi = 0, sc = 0, us = 0\<rparr>"

lemma sample_uuid_ok: "validate_event_id (sample_uuid n)"
  by (simp add: sample_uuid_def validate_event_id_def fits_def uuid_pat_def is_hex_def lit_def is_digit_def
      numeral_eq_Suc)

lemma sample_env_ok: "env_ok (sample_env ds)"
  by (simp add: env_ok_def sample_env_def strict_pydantic_ok sample_uuid_ok)

lemma sample_time_ok: "dt_ok sample_time"
  by (simp add: dt_ok_def sample_time_def date_ok_def days_in_month_def)

text \<open>A clock that advances by a microsecond.\<close>

definition sample_clock :: clock where
  "sample_clock n = sample_time\<lparr>us := n\<rparr>"

end
