(* ===== verification/Infer_Base.thy ===== *)
theory Infer_Base
  imports Shared_Interfaces
begin

text \<open>
  What the parts of the inference container share: its settings
  (\<open>inference/src/inference/config.py\<close>), the retry decorator applied to a coroutine
  that rebuilds its envelope on every attempt, the envelope construction that
  \<open>tripwire.py\<close>, \<open>zone_counter.py\<close>, \<open>callback.py\<close>, \<open>safety.py\<close> and
  \<open>heartbeat.py\<close> repeat, and the contract of the rate limiters.
\<close>

section \<open>Settings\<close>

record infer_settings =
  is_vehicle_id :: string
  is_journey_id :: string
  is_schema_version :: int
  is_threshold_pct :: rat
  is_deadband :: int
  is_capacity_default :: int
  is_service_tier :: string
  is_detection_classes :: "string list"
  is_acc_confidence :: rat
  is_door_min_frames :: int
  is_vest_threshold :: int
  is_vest_score :: rat
  is_fall_height :: rat
  is_fall_velocity :: rat
  is_frame_width :: int
  is_frame_height :: int
  is_git_sha :: string

definition default_infer_settings :: infer_settings where
  "default_infer_settings = \<lparr>is_vehicle_id = ''OBB-TEST'', is_journey_id = ''OBB-TEST_unknown_19700101'',
     is_schema_version = 1, is_threshold_pct = 8 / 10, is_deadband = 3, is_capacity_default = 200,
     is_service_tier = ''standard'', is_detection_classes = [''person'', ''suitcase'', ''bicycle''],
     is_acc_confidence = 8 / 10, is_door_min_frames = 2, is_vest_threshold = 8, is_vest_score = 3 / 4,
     is_fall_height = 1 / 2, is_fall_velocity = 50, is_frame_width = 640, is_frame_height = 480,
     is_git_sha = []\<rparr>"

type_synonym bbox = "rat \<times> rat \<times> rat \<times> rat"

text \<open>A detection the callback accepted: the dictionary it hands to its consumers.\<close>

record detection =
  d_track :: "int option"
  d_label :: string
  d_bbox :: "bbox option"
  d_vestibule :: "bool option" \<comment> \<open>the \<open>in_vestibule\<close> key, when present\<close>
  d_confidence :: "rat option"

section \<open>Envelopes of the container\<close>

definition infer_envelope ::
  "environment \<Rightarrow> infer_settings \<Rightarrow> string \<Rightarrow> string \<Rightarrow> datetime \<Rightarrow> event_type \<Rightarrow> jdict \<Rightarrow> severity \<Rightarrow>
   envelope res" where
  "infer_envelope E S journey uuid now et p sev =
     validate_envelope (pyd E) uuid now
       \<lparr>raw_id = None, raw_journey_id = journey, raw_vehicle_id = is_vehicle_id S, raw_timestamp = None,
        raw_type = event_type_value et, raw_severity = severity_value sev, raw_source = ''inference'',
        raw_schema_version = is_schema_version S, raw_payload = p\<rparr>"

definition next_uuid :: "environment \<Rightarrow> world \<Rightarrow> string \<times> world" where
  "next_uuid E w = (uuids E (w_uuids w), w\<lparr>w_uuids := Suc (w_uuids w)\<rparr>)"

text \<open>
  One attempt of an emitting method: the payload, the envelope, the POST to the
  event-store; then, where \<open>follow\<close> names a path, the payload to fusion, whose failure
  is only logged.
\<close>

definition follow_up :: "environment \<Rightarrow> string option \<Rightarrow> jdict \<Rightarrow> world \<Rightarrow> world" where
  "follow_up E path p w =
     (case path of None \<Rightarrow> w | Some q \<Rightarrow> snd (http_post E (PostFusion q p) w))"

definition emit_attempt ::
  "environment \<Rightarrow> infer_settings \<Rightarrow> string \<Rightarrow> clock \<Rightarrow> event_type \<Rightarrow> jdict \<Rightarrow> severity \<Rightarrow> string option \<Rightarrow>
   world \<Rightarrow> unit res \<times> world" where
  "emit_attempt E S journey now et kwargs sev path w =
     (case validate_payload (pyd E) et kwargs of
        Inl e \<Rightarrow> (Inl e, w)
      | Inr v \<Rightarrow>
          (case next_uuid E w of (uuid, w1) \<Rightarrow>
            (case infer_envelope E S journey uuid (now (w_uuids w)) et (model_dump et v) sev of
               Inl e \<Rightarrow> (Inl e, w1)
             | Inr env \<Rightarrow>
                 (case http_post E (PostEvent env) w1 of
                    (ok, w2) \<Rightarrow> if \<not> ok then (Inl HTTPError, w2)
                                else (Inr (), follow_up E path (model_dump et v) w2)))))"

definition emit_event ::
  "environment \<Rightarrow> infer_settings \<Rightarrow> string \<Rightarrow> clock \<Rightarrow> event_type \<Rightarrow> jdict \<Rightarrow> severity \<Rightarrow> string option \<Rightarrow>
   world \<Rightarrow> unit res \<times> world" where
  "emit_event E S journey now et kwargs sev path =
     retry_call default_attempts (emit_attempt E S journey now et kwargs sev path)"

text \<open>The payload and the envelope are built once; only the POST is retried.\<close>

definition emit_built ::
  "environment \<Rightarrow> infer_settings \<Rightarrow> string \<Rightarrow> clock \<Rightarrow> event_type \<Rightarrow> jdict \<Rightarrow> severity \<Rightarrow> world \<Rightarrow>
   unit res \<times> world" where
  "emit_built E S journey now et kwargs sev w =
     (case validate_payload (pyd E) et kwargs of
        Inl e \<Rightarrow> (Inl e, w)
      | Inr v \<Rightarrow>
          (case next_uuid E w of (uuid, w1) \<Rightarrow>
            (case infer_envelope E S journey uuid (now (w_uuids w)) et (model_dump et v) sev of
               Inl e \<Rightarrow> (Inl e, w1)
             | Inr env \<Rightarrow>
                 (case retry_post E default_attempts (PostEvent env) w1 of
                    (ok, w2) \<Rightarrow> (if ok then Inr () else Inl HTTPError, w2)))))"

section \<open>What an emitter adds to the log\<close>

definition infer_own :: "environment \<Rightarrow> string \<Rightarrow> event_type set \<Rightarrow> string set \<Rightarrow> http_req \<Rightarrow> bool" where
  "infer_own E journey ets paths r =
     (case r of
        PostEvent e \<Rightarrow> envelope_ok (pyd E) e \<and> ev_source e = Src_inference \<and> ev_type e \<in> ets \<and>
          ev_journey_id e = journey
      | PostFusion p b \<Rightarrow> p \<in> paths
      | _ \<Rightarrow> False)"

lemma infer_own_mono:
  "infer_own E j ets ps r \<Longrightarrow> ets \<subseteq> ets' \<Longrightarrow> ps \<subseteq> ps' \<Longrightarrow> infer_own E j ets' ps' r"
  by (auto simp: infer_own_def split: http_req.splits)

lemma follow_up_adds: "set_option path \<subseteq> ps \<Longrightarrow> adds (infer_own E j ets ps) w (snd (r, follow_up E path p w))"
  by (cases path) (auto simp: follow_up_def infer_own_def intro!: http_post_adds)

lemma infer_envelope_own:
  assumes "env_ok E" "infer_envelope E S j (uuids E n) now et p sev = Inr e"
  shows "envelope_ok (pyd E) e \<and> ev_source e = Src_inference \<and> ev_type e = et \<and> ev_journey_id e = j \<and>
    ev_payload e = p \<and> ev_id e = uuids E n \<and> ev_severity e = sev"
proof -
  have "envelope_ok (pyd E) e"
    using assms unfolding infer_envelope_def
    by (intro validate_envelope_ok [of "pyd E" "uuids E n"]) (auto simp: env_ok_def)
  moreover have "source_of ''inference'' = Some Src_inference"
    by (simp add: source_of_def)
  ultimately show ?thesis
    using assms(2) by (auto simp: infer_envelope_def validate_envelope_def res_iff default_str_def)
qed

lemma emit_attempt_adds:
  assumes "env_ok E"
  shows "adds (infer_own E j {et} (set_option path)) w (snd (emit_attempt E S j now et kw sev path w))"
proof -
  let ?P = "infer_own E j {et} (set_option path)"
  obtain uuid w1 where u: "next_uuid E w = (uuid, w1)" by fastforce
  then have w1: "adds ?P w w1" and uuid: "uuid = uuids E (w_uuids w)"
    by (auto simp: next_uuid_def intro: adds_same)
  have "adds ?P w (snd (emit_attempt E S j now et kw sev path w))"
    if v: "validate_payload (pyd E) et kw = Inr v"
      and e: "infer_envelope E S j uuid (now (w_uuids w)) et (model_dump et v) sev = Inr env" for v env
  proof -
    obtain ok w2 where h: "http_post E (PostEvent env) w1 = (ok, w2)" by fastforce
    have "infer_own E j {et} (set_option path) (PostEvent env)"
      using infer_envelope_own [OF assms] e uuid by (simp add: infer_own_def)
    then have "adds ?P w1 (snd (http_post E (PostEvent env) w1))" by (rule http_post_adds)
    with h have w2: "adds ?P w1 w2" by simp
    have "adds ?P w2 (snd ((), follow_up E path (model_dump et v) w2))"
      by (rule follow_up_adds) simp
    with adds_trans [OF w1 w2] adds_trans [OF adds_trans [OF w1 w2]] show ?thesis
      by (simp add: emit_attempt_def v u e h)
  qed
  with w1 show ?thesis
    by (cases "validate_payload (pyd E) et kw"; cases "infer_envelope E S j uuid (now (w_uuids w)) et (model_dump et (projr (validate_payload (pyd E) et kw))) sev")
      (auto simp: emit_attempt_def u)
qed

lemma emit_event_adds:
  assumes "env_ok E"
  shows "adds (infer_own E j {et} (set_option path)) w (snd (emit_event E S j now et kw sev path w))"
  unfolding emit_event_def
  by (rule retry_call_invariant) (auto intro: adds_trans emit_attempt_adds [OF assms])

lemma emit_event_adds_mono:
  assumes "env_ok E" "et \<in> ets" "set_option path \<subseteq> ps" "emit_event E S j now et kw sev path w = (r, w')"
  shows "adds (infer_own E j ets ps) w w'"
proof -
  have "adds (infer_own E j {et} (set_option path)) w w'"
    using emit_event_adds [OF assms(1), of j et path w S now kw sev] assms(4) by simp
  then show ?thesis by (rule adds_mono) (rule infer_own_mono, use assms in auto)
qed

lemma emit_built_adds:
  assumes "env_ok E" "et \<in> ets" "emit_built E S j now et kw sev w = (r, w')"
  shows "adds (infer_own E j ets ps) w w'"
proof (cases "validate_payload (pyd E) et kw")
  case (Inl e)
  with assms(3) show ?thesis by (simp add: emit_built_def)
next
  case (Inr v)
  obtain u w1 where u: "next_uuid E w = (u, w1)" by fastforce
  then have w1: "adds (infer_own E j ets ps) w w1" and uu: "u = uuids E (w_uuids w)"
    by (auto simp: next_uuid_def intro: adds_same)
  show ?thesis
  proof (cases "infer_envelope E S j u (now (w_uuids w)) et (model_dump et v) sev")
    case (Inl e)
    with assms(3) Inr u w1 show ?thesis by (simp add: emit_built_def)
  next
    case (Inr env)
    have "infer_own E j ets ps (PostEvent env)"
      using infer_envelope_own [OF assms(1) Inr [unfolded uu]] assms(2) by (simp add: infer_own_def)
    then have "adds (infer_own E j ets ps) w1 (snd (retry_post E k (PostEvent env) w1))" for k
      by (rule retry_post_adds)
    with adds_trans [OF w1] have "adds (infer_own E j ets ps) w (snd (retry_post E default_attempts (PostEvent env) w1))"
      by blast
    with assms(3) Inr \<open>validate_payload _ _ _ = Inr v\<close> u
    show ?thesis by (auto simp: emit_built_def split: prod.splits)
  qed
qed

section \<open>Rate limiters\<close>

text \<open>
  Admit at most one attempt per key and window: \<open>last_of\<close> is the time of the last
  admitted attempt, 0 at the start.
\<close>

fun spaced :: "rat \<Rightarrow> rat \<Rightarrow> rat list \<Rightarrow> bool" where
  "spaced win p [] = True"
| "spaced win p (t # ts) = (win \<le> t - p \<and> spaced win t ts)"

fun admitted :: "('s \<Rightarrow> 'k \<Rightarrow> rat \<Rightarrow> bool \<times> 's) \<Rightarrow> 's \<Rightarrow> ('k \<times> rat) list \<Rightarrow> ('k \<times> rat) list" where
  "admitted attempt s [] = []"
| "admitted attempt s ((k, t) # as) =
     (case attempt s k t of (ok, s') \<Rightarrow> (if ok then [(k, t)] else []) @ admitted attempt s' as)"

definition times_of :: "'k \<Rightarrow> ('k \<times> rat) list \<Rightarrow> rat list" where
  "times_of k as = map snd (filter (\<lambda>(k', t). k' = k) as)"

locale rate_limiter =
  fixes attempt :: "'s \<Rightarrow> 'k \<Rightarrow> rat \<Rightarrow> bool \<times> 's"
    and last_of :: "'s \<Rightarrow> 'k \<Rightarrow> rat"
    and win :: rat
  assumes admit_iff: "fst (attempt s k now) \<longleftrightarrow> \<not> now - last_of s k < win"
    and admit_last: "fst (attempt s k now) \<Longrightarrow> last_of (snd (attempt s k now)) k = now"
    and refuse_last: "\<not> fst (attempt s k now) \<Longrightarrow> last_of (snd (attempt s k now)) k = last_of s k"
    and other_last: "k' \<noteq> k \<Longrightarrow> last_of (snd (attempt s k now)) k' = last_of s k'"
begin

lemma admitted_spaced: "spaced win (last_of s k) (times_of k (admitted attempt s as))"
proof (induction as arbitrary: s)
  case Nil
  show ?case by (simp add: times_of_def)
next
  case (Cons a as)
  obtain l t where a: "a = (l, t)" by fastforce
  obtain ok s' where tr: "attempt s l t = (ok, s')" by fastforce
  note IH = Cons.IH [of s']
  show ?case
  proof (cases "l = k \<and> ok")
    case True
    with tr admit_last [of s l t] have "last_of s' k = t" by simp
    moreover from True tr admit_iff [of s l t] have "win \<le> t - last_of s k" by simp
    ultimately show ?thesis using IH True tr by (auto simp: a times_of_def)
  next
    case False
    with tr refuse_last [of s l t] other_last [of k l s t] have "last_of s' k = last_of s k"
      by (cases "l = k") auto
    with IH False tr show ?thesis by (auto simp: a times_of_def)
  qed
qed

lemma admit_after: "last_of s k + win \<le> now \<Longrightarrow> fst (attempt s k now)"
  by (simp add: admit_iff)

end

end
