(* ===== verification/Infer_Geometry.thy ===== *)
theory Infer_Geometry
  imports Infer_Base
begin

text \<open>
  The geometry of \<open>inference/src/inference/callback.py\<close> and \<open>tripwire.py\<close>: polygon
  membership by ray casting with explicit edges, intersection over union, the pixel-range
  check and the side of the tripwire. Coordinates are exact rationals.
\<close>

section \<open>Polygons\<close>

type_synonym point = "rat \<times> rat"

definition eps :: rat where
  "eps = 1 / 10 ^ 9"

definition on_segment :: "rat \<Rightarrow> rat \<Rightarrow> rat \<Rightarrow> rat \<Rightarrow> rat \<Rightarrow> rat \<Rightarrow> bool" where
  "on_segment x y x1 y1 x2 y2 =
     (let cross = (y - y1) * (x2 - x1) - (x - x1) * (y2 - y1)
      in if \<bar>cross\<bar> > eps then False
         else min x1 x2 - eps \<le> x \<and> x \<le> max x1 x2 + eps \<and> min y1 y2 - eps \<le> y \<and> y \<le> max y1 y2 + eps)"

text \<open>The edges in order: each vertex with its successor, the last with the first.\<close>

definition poly_edges :: "point list \<Rightarrow> (point \<times> point) list" where
  "poly_edges poly = zip poly (rotate1 poly)"

text \<open>The ray-cast loop: \<open>j\<close> is the previous vertex, starting from the last.\<close>

fun ray_cast :: "rat \<Rightarrow> rat \<Rightarrow> point \<Rightarrow> point list \<Rightarrow> bool \<Rightarrow> bool" where
  "ray_cast x y vj [] inside = inside"
| "ray_cast x y (xj, yj) ((xi, yi) # vs) inside =
     ray_cast x y (xi, yi) vs
       (if (yi > y) \<noteq> (yj > y) \<and>
           x < (xj - xi) * (y - yi) / (if yj - yi = 0 then eps else yj - yi) + xi
        then \<not> inside else inside)"

definition point_in_polygon :: "rat \<Rightarrow> rat \<Rightarrow> point list \<Rightarrow> bool" where
  "point_in_polygon x y poly =
     (if length poly < 3 then False
      else if list_ex (\<lambda>((x1, y1), (x2, y2)). on_segment x y x1 y1 x2 y2) (poly_edges poly) then True
      else ray_cast x y (last poly) poly False)"

record zone_mask =
  zm_name :: string
  zm_polygon :: "point list"

definition bbox_in_any_zone :: "bbox \<Rightarrow> zone_mask list \<Rightarrow> bool" where
  "bbox_in_any_zone b zones =
     (case b of (x0, y0, x1, y1) \<Rightarrow>
        list_ex (\<lambda>z. point_in_polygon ((x0 + x1) / 2) ((y0 + y1) / 2) (zm_polygon z)) zones)"

section \<open>Boxes\<close>

definition iou :: "bbox \<Rightarrow> bbox \<Rightarrow> rat" where
  "iou a b =
     (case (a, b) of ((a0, a1, a2, a3), (b0, b1, b2, b3)) \<Rightarrow>
       (let ix1 = max a0 b0; iy1 = max a1 b1; ix2 = min a2 b2; iy2 = min a3 b3;
            inter = max 0 (ix2 - ix1) * max 0 (iy2 - iy1);
            area_a = max 0 (a2 - a0) * max 0 (a3 - a1);
            area_b = max 0 (b2 - b0) * max 0 (b3 - b1);
            union = area_a + area_b - inter
        in if union > 0 then inter / union else 0))"

definition in_pixel_range :: "infer_settings \<Rightarrow> bbox \<Rightarrow> bool" where
  "in_pixel_range S b =
     (case b of (x0, y0, x1, y1) \<Rightarrow>
        0 \<le> x0 \<and> x0 \<le> of_int (is_frame_width S) \<and> 0 \<le> x1 \<and> x1 \<le> of_int (is_frame_width S) \<and>
        0 \<le> y0 \<and> y0 \<le> of_int (is_frame_height S) \<and> 0 \<le> y1 \<and> y1 \<le> of_int (is_frame_height S))"

section \<open>The tripwire\<close>

datatype side = From_side | To_side

definition centroid_side :: "point list \<Rightarrow> rat \<Rightarrow> rat \<Rightarrow> side" where
  "centroid_side poly cx cy =
     (case poly of
        (x1, y1) # (x2, y2) # _ \<Rightarrow>
          (if (x2 - x1) * (cy - y1) - (y2 - y1) * (cx - x1) \<ge> 0 then From_side else To_side)
      | _ \<Rightarrow> From_side)"

section \<open>Facts\<close>

lemma eps_pos: "0 < eps"
  by (simp add: eps_def)

text \<open>The intersection of two boxes is contained in each.\<close>

lemma iou_parts:
  fixes a0 a1 a2 a3 b0 b1 b2 b3 :: rat
  shows "0 \<le> max 0 (min a2 b2 - max a0 b0) * max 0 (min a3 b3 - max a1 b1)"
    "max 0 (min a2 b2 - max a0 b0) * max 0 (min a3 b3 - max a1 b1) \<le> max 0 (a2 - a0) * max 0 (a3 - a1)"
    "max 0 (min a2 b2 - max a0 b0) * max 0 (min a3 b3 - max a1 b1) \<le> max 0 (b2 - b0) * max 0 (b3 - b1)"
  by (simp, (rule mult_mono; simp add: max_def min_def)+)

lemma unit_fraction:
  fixes i p q :: rat
  assumes "0 \<le> i" "i \<le> p" "i \<le> q"
  shows "0 \<le> (if p + q - i > 0 then i / (p + q - i) else 0) \<and> (if p + q - i > 0 then i / (p + q - i) else 0) \<le> 1"
  using assms by (simp add: divide_le_eq)

lemma iou_bounds_aux: "0 \<le> iou a b \<and> iou a b \<le> 1"
proof -
  obtain a0 a1 a2 a3 b0 b1 b2 b3 where ab: "a = (a0, a1, a2, a3)" "b = (b0, b1, b2, b3)"
    by (cases a, cases b) auto
  show ?thesis
    unfolding iou_def ab Let_def prod.case by (rule unit_fraction) (rule iou_parts)+
qed

lemma iou_sym: "iou a b = iou b a"
  by (cases a, cases b) (simp add: iou_def Let_def max.commute min.commute add.commute)

lemma iou_self_aux: "x0 < x1 \<Longrightarrow> y0 < y1 \<Longrightarrow> iou (x0, y0, x1, y1) (x0, y0, x1, y1) = 1"
  by (simp add: iou_def Let_def)

lemma iou_disjoint_aux:
  "a2 \<le> b0 \<or> b2 \<le> a0 \<or> a3 \<le> b1 \<or> b3 \<le> a1 \<Longrightarrow> iou (a0, a1, a2, a3) (b0, b1, b2, b3) = 0"
  by (auto simp: iou_def Let_def max_def min_def)

lemma on_segment_ends: "on_segment x1 y1 x1 y1 x2 y2" "on_segment x2 y2 x1 y1 x2 y2"
  using eps_pos by (auto simp: on_segment_def Let_def)

text \<open>Every vertex, and every point of an edge, is inside.\<close>

lemma edge_point_inside:
  assumes "3 \<le> length poly" "((x1, y1), (x2, y2)) \<in> set (poly_edges poly)" "on_segment x y x1 y1 x2 y2"
  shows "point_in_polygon x y poly"
  using assms by (fastforce simp: point_in_polygon_def list_ex_iff)

lemma vertex_has_edge: "v \<in> set poly \<Longrightarrow> \<exists>v'. (v, v') \<in> set (poly_edges poly)"
  unfolding poly_edges_def
  by (metis (no_types, opaque_lifting) in_set_zipE length_rotate1 in_set_impl_in_set_zip1)

lemma vertex_inside_aux: "3 \<le> length poly \<Longrightarrow> (x, y) \<in> set poly \<Longrightarrow> point_in_polygon x y poly"
  using vertex_has_edge [of "(x, y)" poly] by (auto intro: edge_point_inside on_segment_ends)

text \<open>A zone drawn as an axis-parallel rectangle.\<close>

definition rect :: "rat \<Rightarrow> rat \<Rightarrow> rat \<Rightarrow> rat \<Rightarrow> point list" where
  "rect x0 y0 x1 y1 = [(x0, y0), (x1, y0), (x1, y1), (x0, y1)]"

lemma rect_edges:
  "poly_edges (rect x0 y0 x1 y1) =
     [((x0, y0), (x1, y0)), ((x1, y0), (x1, y1)), ((x1, y1), (x0, y1)), ((x0, y1), (x0, y0))]"
  by (simp add: poly_edges_def rect_def)

lemma rect_ray_cast:
  assumes "x0 < x1" "y0 < y1"
  shows "ray_cast x y (last (rect x0 y0 x1 y1)) (rect x0 y0 x1 y1) False \<longleftrightarrow>
    x0 \<le> x \<and> x < x1 \<and> y0 \<le> y \<and> y < y1"
  using assms by (auto simp: rect_def)

lemma on_segment_near:
  "on_segment x y x1 y1 x2 y2 \<Longrightarrow> min x1 x2 - eps \<le> x \<and> x \<le> max x1 x2 + eps \<and> min y1 y2 - eps \<le> y \<and> y \<le> max y1 y2 + eps"
  by (simp add: on_segment_def Let_def split: if_splits)

lemma rect_inside_aux:
  assumes "x0 < x1" "y0 < y1" "x0 \<le> x" "x \<le> x1" "y0 \<le> y" "y \<le> y1"
  shows "point_in_polygon x y (rect x0 y0 x1 y1)"
proof -
  have len: "\<not> length (rect x0 y0 x1 y1) < 3" by (simp add: rect_def)
  consider "x = x1" | "y = y1" | "x < x1" "y < y1" using assms by linarith
  then show ?thesis
  proof cases
    case 1
    with assms eps_pos have "on_segment x y x1 y0 x1 y1" by (simp add: on_segment_def Let_def)
    with len show ?thesis by (simp add: point_in_polygon_def rect_edges)
  next
    case 2
    with assms eps_pos have "on_segment x y x1 y1 x0 y1" by (simp add: on_segment_def Let_def)
    with len show ?thesis by (simp add: point_in_polygon_def rect_edges)
  next
    case 3
    with assms have "ray_cast x y (last (rect x0 y0 x1 y1)) (rect x0 y0 x1 y1) False"
      by (simp add: rect_ray_cast)
    with len show ?thesis by (simp add: point_in_polygon_def)
  qed
qed

lemma rect_outside_aux:
  assumes "x0 < x1" "y0 < y1" "x < x0 - eps \<or> x1 + eps < x \<or> y < y0 - eps \<or> y1 + eps < y"
  shows "\<not> point_in_polygon x y (rect x0 y0 x1 y1)"
proof -
  have "\<not> ray_cast x y (last (rect x0 y0 x1 y1)) (rect x0 y0 x1 y1) False"
    using assms eps_pos by (auto simp: rect_ray_cast)
  moreover have "\<not> list_ex (\<lambda>((x1, y1), (x2, y2)). on_segment x y x1 y1 x2 y2) (poly_edges (rect x0 y0 x1 y1))"
    using assms by (auto simp: rect_edges dest!: on_segment_near)
  ultimately show ?thesis by (simp add: point_in_polygon_def)
qed

text \<open>A vertical tripwire: left is the \<open>from\<close> side, and so is the line itself.\<close>

lemma vertical_tripwire:
  "0 < h \<Longrightarrow> centroid_side [(a, 0), (a, h)] cx cy = (if cx \<le> a then From_side else To_side)"
  by (auto simp: centroid_side_def mult_le_0_iff)

lemma reversed_tripwire:
  assumes "(x2 - x1) * (cy - y1) - (y2 - y1) * (cx - x1) \<noteq> 0"
  shows "centroid_side [(x2, y2), (x1, y1)] cx cy \<noteq> centroid_side [(x1, y1), (x2, y2)] cx cy"
proof -
  have "(x1 - x2) * (cy - y2) - (y1 - y2) * (cx - x2) = - ((x2 - x1) * (cy - y1) - (y2 - y1) * (cx - x1))"
    by (simp add: algebra_simps)
  with assms show ?thesis by (auto simp: centroid_side_def simp del: minus_diff_eq)
qed

end
