(* ===== verification/Infer_Tripwire.thy ===== *)
theory Infer_Tripwire
  imports Infer_Geometry
begin

text \<open>
  The gangway tripwire, \<open>inference/src/inference/tripwire.py\<close>: which side each track was
  last seen on (an LRU-bounded \<open>OrderedDict\<close>), the crossings, the WAGON_EXIT and
  WAGON_ENTRY events, the orphan timers. A detection is handled as one step.
\<close>

section \<open>Configuration\<close>

datatype traversal = From_to | To_from

fun traversal_value :: "traversal \<Rightarrow> string" where
  "traversal_value From_to = ''from_to''"
| "traversal_value To_from = ''to_from''"

record gangway_camera =
  gc_camera_id :: string
  gc_zone :: string
  gc_polygon :: "point list option" \<comment> \<open>\<open>tripwire.tripwire_polygon\<close>, when both are there\<close>
  gc_from :: "string option"
  gc_to :: "string option"
  gc_axis :: "string option"
  gc_traversal :: "string option"

record tripwire_config =
  tc_from :: string
  tc_to :: string
  tc_axis :: string
  tc_traversal :: string
  tc_polygon :: "point list"

record tw_pending_exit =
  tp_from :: string
  tp_to :: string
  tp_traversal :: traversal
  tp_confidence :: rat
  tp_handle :: nat

record tripwire =
  tw_config :: tripwire_config
  tw_camera_id :: string
  tw_zone :: string
  tw_last_side :: "(int, side) dict"
  tw_pending :: "(int, tw_pending_exit) dict"
  tw_timers :: "(nat, int) dict"
  tw_next_timer :: nat
  tw_tasks :: "int list"

definition gangway_zones :: "string list" where
  "gangway_zones = [''gangway-fwd'', ''gangway-aft'']"

definition build_tripwire :: "gangway_camera \<Rightarrow> tripwire res" where
  "build_tripwire cam =
     bind_res (guard (gc_zone cam \<in> set gangway_zones) RuntimeError) (\<lambda>_.
     bind_res (of_opt RuntimeError (gc_polygon cam)) (\<lambda>poly.
     bind_res (guard (truthy (gc_from cam) \<and> truthy (gc_to cam) \<and> truthy (gc_axis cam)) RuntimeError) (\<lambda>_.
     let tr = keep_or (gc_traversal cam) ''from_to'' in
     bind_res (guard (tr \<in> {''from_to'', ''to_from''}) RuntimeError) (\<lambda>_.
       Inr \<lparr>tw_config = \<lparr>tc_from = keep_or (gc_from cam) [], tc_to = keep_or (gc_to cam) [],
              tc_axis = keep_or (gc_axis cam) [], tc_traversal = tr, tc_polygon = poly\<rparr>,
            tw_camera_id = gc_camera_id cam, tw_zone = gc_zone cam, tw_last_side = [], tw_pending = [],
            tw_timers = [], tw_next_timer = 0, tw_tasks = []\<rparr>))))"

section \<open>Sides\<close>

definition confidence_threshold :: rat where
  "confidence_threshold = 7 / 10"

definition last_side_max :: nat where
  "last_side_max = 2000"

text \<open>\<open>d[k] = v; d.move_to_end(k)\<close>.\<close>

definition touch :: "('k, 'v) dict \<Rightarrow> 'k \<Rightarrow> 'v \<Rightarrow> ('k, 'v) dict" where
  "touch d k v = ddel d k @ [(k, v)]"

definition maybe_evict :: "('k, 'v) dict \<Rightarrow> ('k, 'v) dict" where
  "maybe_evict d = (if length d > last_side_max then drop (last_side_max div 4) d else d)"

text \<open>The decision on one detection: the crossing, if any, and the sides after it.\<close>

definition observe_side ::
  "(int, side) dict \<Rightarrow> int \<Rightarrow> side \<Rightarrow> rat option \<Rightarrow> traversal option \<times> (int, side) dict" where
  "observe_side d t current conf =
     (case dget d t of
        None \<Rightarrow> (None, maybe_evict (touch d t current))
      | Some prev \<Rightarrow>
          if prev = current then (None, maybe_evict (touch d t current))
          else if (case conf of None \<Rightarrow> True | Some c \<Rightarrow> c < confidence_threshold) then (None, d)
          else (Some (if prev = From_side then From_to else To_from), maybe_evict (touch d t current)))"

section \<open>Events\<close>

definition wagon_kwargs :: "tripwire \<Rightarrow> int \<Rightarrow> traversal \<Rightarrow> rat \<Rightarrow> jdict" where
  "wagon_kwargs tw t tr conf =
     [(''track_id'', JInt t), (''coach_from'', JStr (tc_from (tw_config tw))),
      (''coach_to'', JStr (tc_to (tw_config tw))), (''camera_id'', JStr (tw_camera_id tw)),
      (''traversal'', JStr (traversal_value tr)), (''confidence'', JNum conf)]"

definition emit_wagon_exit ::
  "environment \<Rightarrow> infer_settings \<Rightarrow> string \<Rightarrow> clock \<Rightarrow> tripwire \<Rightarrow> int \<Rightarrow> traversal \<Rightarrow> rat \<Rightarrow> bool \<Rightarrow> world \<Rightarrow>
   unit res \<times> world" where
  "emit_wagon_exit E S j now tw t tr conf orphan =
     emit_event E S j now WAGON_EXIT (wagon_kwargs tw t tr conf @ [(''expect_orphan'', JBool orphan)]) Sev_info
       (Some ''/candidates/wagon_exit'')"

definition emit_wagon_entry ::
  "environment \<Rightarrow> infer_settings \<Rightarrow> string \<Rightarrow> clock \<Rightarrow> tripwire \<Rightarrow> int \<Rightarrow> traversal \<Rightarrow> rat \<Rightarrow> world \<Rightarrow>
   unit res \<times> world" where
  "emit_wagon_entry E S j now tw t tr conf =
     emit_event E S j now WAGON_ENTRY (wagon_kwargs tw t tr conf) Sev_info (Some ''/candidates/wagon_entry'')"

definition cancel_orphan :: "tripwire \<Rightarrow> int \<Rightarrow> tripwire" where
  "cancel_orphan tw t =
     (case dget (tw_pending tw) t of
        None \<Rightarrow> tw
      | Some p \<Rightarrow> tw\<lparr>tw_pending := ddel (tw_pending tw) t, tw_timers := ddel (tw_timers tw) (tp_handle p)\<rparr>)"

definition arm_orphan :: "tripwire \<Rightarrow> int \<Rightarrow> traversal \<Rightarrow> rat \<Rightarrow> tripwire" where
  "arm_orphan tw t tr conf =
     tw\<lparr>tw_timers := dset (tw_timers tw) (tw_next_timer tw) t,
        tw_next_timer := Suc (tw_next_timer tw),
        tw_pending := dset (tw_pending tw) t
          \<lparr>tp_from = tc_from (tw_config tw), tp_to = tc_to (tw_config tw), tp_traversal = tr,
           tp_confidence = conf, tp_handle = tw_next_timer tw\<rparr>\<rparr>"

text \<open>The consequence of a crossing: an entry at an aft camera, an exit at a fwd one.\<close>

definition on_crossing ::
  "environment \<Rightarrow> infer_settings \<Rightarrow> string \<Rightarrow> clock \<Rightarrow> tripwire \<Rightarrow> int \<Rightarrow> traversal \<Rightarrow> rat \<Rightarrow> world \<Rightarrow>
   unit res \<times> tripwire \<times> world" where
  "on_crossing E S j now tw t tr conf w =
     (if tw_zone tw = ''gangway-aft''
      then (case emit_wagon_entry E S j now tw t tr conf w of (r, w') \<Rightarrow> (r, tw, w'))
      else (let orphan = (tr = To_from);
                tw1 = (if orphan then tw else cancel_orphan tw t)
            in case emit_wagon_exit E S j now tw1 t tr conf orphan w of
                 (Inl e, w') \<Rightarrow> (Inl e, tw1, w')
               | (Inr u, w') \<Rightarrow> (Inr (), if orphan then tw1 else arm_orphan tw1 t tr conf, w')))"

definition handle_detection ::
  "environment \<Rightarrow> infer_settings \<Rightarrow> string \<Rightarrow> clock \<Rightarrow> tripwire \<Rightarrow> int \<Rightarrow> bbox \<Rightarrow> rat option \<Rightarrow> world \<Rightarrow>
   unit res \<times> tripwire \<times> world" where
  "handle_detection E S j now tw t b conf w =
     (case b of (x0, y0, x1, y1) \<Rightarrow>
       (case observe_side (tw_last_side tw) t
               (centroid_side (tc_polygon (tw_config tw)) ((x0 + x1) / 2) ((y0 + y1) / 2)) conf of
          (None, d) \<Rightarrow> (Inr (), tw\<lparr>tw_last_side := d\<rparr>, w)
        | (Some tr, d) \<Rightarrow>
            on_crossing E S j now (tw\<lparr>tw_last_side := d\<rparr>) t tr (keep_or conf 0) w))"

section \<open>Orphan timers\<close>

definition fire_orphan :: "tripwire \<Rightarrow> nat \<Rightarrow> tripwire" where
  "fire_orphan tw h =
     (case dget (tw_timers tw) h of
        None \<Rightarrow> tw
      | Some t \<Rightarrow> tw\<lparr>tw_timers := ddel (tw_timers tw) h, tw_tasks := tw_tasks tw @ [t]\<rparr>)"

definition orphan_body :: "tripwire \<Rightarrow> int \<Rightarrow> jdict" where
  "orphan_body tw t =
     [(''unreconciled_exit'', JObj
        [(''track_id'', JInt t), (''coach_from'', JStr (tc_from (tw_config tw))),
         (''coach_to'', JStr (tc_to (tw_config tw))), (''camera_id'', JStr (tw_camera_id tw))])]"

text \<open>\<open>_handle_orphaned_exit\<close>: one POST, any failure logged.\<close>

definition handle_orphaned_exit :: "environment \<Rightarrow> tripwire \<Rightarrow> int \<Rightarrow> world \<Rightarrow> tripwire \<times> world" where
  "handle_orphaned_exit E tw t w =
     (tw\<lparr>tw_pending := ddel (tw_pending tw) t, tw_tasks := remove1 t (tw_tasks tw)\<rparr>,
      snd (http_post E (PostFusion ''/context'' (orphan_body tw t)) w))"

section \<open>The side table is a bounded LRU\<close>

lemma dget_append_if: "dget (a @ b) k = (case dget a k of None \<Rightarrow> dget b k | Some v \<Rightarrow> Some v)"
  by (simp add: map_add_def split: option.split)

lemma touch_get [simp]: "dget (touch d t s) u = (if u = t then Some s else dget d u)"
  by (cases "dget d u") (auto simp: touch_def map_add_def)

lemma touch_last: "touch d t s \<noteq> [] \<and> last (touch d t s) = (t, s)"
  by (simp add: touch_def)

lemma touch_dwf: "dwf d \<Longrightarrow> dwf (touch d t s)"
  using dkeys_ddel [of d t] dwf_ddel [of d t] by (auto simp: touch_def dwf_def dkeys_def)

lemma length_ddel_le: "length (ddel d k) \<le> length d"
  by (induction d) auto

lemma touch_length: "length (touch d t s) \<le> Suc (length d)"
  by (simp add: touch_def length_ddel_le)

lemma evict_length: "length d \<le> Suc last_side_max \<Longrightarrow> length (maybe_evict d) \<le> last_side_max"
  by (auto simp: maybe_evict_def last_side_max_def)

lemma evict_dwf: "dwf d \<Longrightarrow> dwf (maybe_evict d)"
  by (simp add: maybe_evict_def dwf_def dkeys_def drop_map [symmetric])

lemma evict_last: "d \<noteq> [] \<Longrightarrow> maybe_evict d \<noteq> [] \<and> last (maybe_evict d) = last d"
  by (simp add: maybe_evict_def last_side_max_def last_drop)

lemma dget_last: "dwf d \<Longrightarrow> d \<noteq> [] \<Longrightarrow> last d = (k, v) \<Longrightarrow> dget d k = Some v"
  unfolding dwf_def dkeys_def by (rule map_of_is_SomeI) (auto dest: last_in_set)

definition sides_ok :: "(int, side) dict \<Rightarrow> bool" where
  "sides_ok d \<longleftrightarrow> dwf d \<and> length d \<le> last_side_max"

lemma sides_ok_step: "sides_ok d \<Longrightarrow> sides_ok (maybe_evict (touch d t s))"
  using touch_length [of d t s] by (simp add: sides_ok_def touch_dwf evict_dwf evict_length)

lemma touched_survives: "sides_ok d \<Longrightarrow> dget (maybe_evict (touch d t s)) t = Some s"
  using touch_last [of d t s] evict_last [of "touch d t s"]
  by (intro dget_last) (auto simp: sides_ok_def touch_dwf evict_dwf)

lemma observe_sides_ok: "sides_ok d \<Longrightarrow> sides_ok (snd (observe_side d t s conf))"
  by (auto simp: observe_side_def sides_ok_step split: option.split)

text \<open>Nothing is forgotten while the table has room.\<close>

lemma no_eviction: "length d < last_side_max \<Longrightarrow> maybe_evict (touch d t s) = touch d t s"
  using touch_length [of d t s] by (simp add: maybe_evict_def)

section \<open>Crossings\<close>

definition confident :: "rat option \<Rightarrow> bool" where
  "confident conf = (\<exists>c. conf = Some c \<and> confidence_threshold \<le> c)"

lemma observe_crossing_iff:
  "fst (observe_side d t s conf) = Some tr \<longleftrightarrow>
     confident conf \<and> (\<exists>prev. dget d t = Some prev \<and> prev \<noteq> s \<and> tr = (if prev = From_side then From_to else To_from))"
  by (auto simp: observe_side_def confident_def split: option.splits)

lemma observe_low_confidence:
  "dget d t = Some prev \<Longrightarrow> prev \<noteq> s \<Longrightarrow> \<not> confident conf \<Longrightarrow> observe_side d t s conf = (None, d)"
  by (auto simp: observe_side_def confident_def split: option.split)

text \<open>A track on its own: the crossings of a run of confident sightings alternate.\<close>

fun side_run :: "(int, side) dict \<Rightarrow> int \<Rightarrow> (side \<times> rat option) list \<Rightarrow> traversal list" where
  "side_run d t [] = []"
| "side_run d t ((s, conf) # xs) =
     (case observe_side d t s conf of
        (None, d') \<Rightarrow> side_run d' t xs
      | (Some tr, d') \<Rightarrow> tr # side_run d' t xs)"

definition leaves :: "side \<Rightarrow> traversal" where
  "leaves s = (if s = From_side then From_to else To_from)"

fun alternates :: "side option \<Rightarrow> traversal list \<Rightarrow> bool" where
  "alternates p [] = True"
| "alternates None (tr # trs) = alternates (Some (if tr = From_to then To_side else From_side)) trs"
| "alternates (Some s) (tr # trs) =
     (tr = leaves s \<and> alternates (Some (if tr = From_to then To_side else From_side)) trs)"

lemma alternates_None: "alternates (Some s) trs \<Longrightarrow> alternates None trs"
  by (cases trs) auto

lemma side_run_alternates: "sides_ok d \<Longrightarrow> alternates (dget d t) (side_run d t xs)"
proof (induction xs arbitrary: d)
  case Nil
  then show ?case by simp
next
  case (Cons x xs)
  obtain s conf where x: "x = (s, conf)" by fastforce
  obtain tr d' where o: "observe_side d t s conf = (tr, d')" by fastforce
  have ok: "sides_ok d'" using observe_sides_ok [OF Cons.prems, of t s conf] o by simp
  note IH = Cons.IH [OF ok]
  show ?case
  proof (cases tr)
    case None
    have "dget d' t = dget d t \<or> dget d t = None"
      using o None touched_survives [OF Cons.prems, of t s]
      by (auto simp: observe_side_def split: option.splits if_splits)
    with IH None show ?thesis
      by (auto simp: x o intro: alternates_None) (metis alternates_None alternates.simps(1) option.exhaust)
  next
    case (Some y)
    with o observe_crossing_iff [of d t s conf y] obtain prev where
      p: "dget d t = Some prev" "prev \<noteq> s" "y = leaves prev" by (auto simp: leaves_def)
    have "dget d' t = Some s"
      using o Some touched_survives [OF Cons.prems, of t s] by (auto simp: observe_side_def split: option.splits if_splits)
    moreover have "(if y = From_to then To_side else From_side) = s"
      using p(2,3) by (cases prev; cases s) (auto simp: leaves_def)
    ultimately have "alternates (Some (if y = From_to then To_side else From_side)) (side_run d' t xs)"
      using IH by simp
    with Some p(1,3) o show ?thesis by (simp only: x side_run.simps prod.case option.case alternates.simps simp_thms)
  qed
qed

section \<open>What a detection may send\<close>

definition tripwire_types :: "event_type set" where
  "tripwire_types = {WAGON_EXIT, WAGON_ENTRY}"

definition tripwire_paths :: "string set" where
  "tripwire_paths = {''/candidates/wagon_exit'', ''/candidates/wagon_entry''}"

lemma on_crossing_sends:
  assumes "env_ok E" "on_crossing E S j now tw t tr conf w = (r, tw', w')"
  shows "adds (infer_own E j {if tw_zone tw = ''gangway-aft'' then WAGON_ENTRY else WAGON_EXIT} tripwire_paths) w w'"
    "tw_last_side tw' = tw_last_side tw"
proof -
  have e1: "adds (infer_own E j {WAGON_ENTRY} tripwire_paths) w w1"
    if "emit_wagon_entry E S j now tw0 t tr conf w = (r1, w1)" for tw0 r1 w1
    using that unfolding emit_wagon_entry_def
    by (rule emit_event_adds_mono [OF assms(1), rotated 2]) (simp_all add: tripwire_paths_def)
  have e2: "adds (infer_own E j {WAGON_EXIT} tripwire_paths) w w1"
    if "emit_wagon_exit E S j now tw0 t tr0 conf orp w = (r1, w1)" for tw0 tr0 orp r1 w1
    using that unfolding emit_wagon_exit_def
    by (rule emit_event_adds_mono [OF assms(1), rotated 2]) (simp_all add: tripwire_paths_def)
  show "adds (infer_own E j {if tw_zone tw = ''gangway-aft'' then WAGON_ENTRY else WAGON_EXIT} tripwire_paths) w w'"
    using assms(2) by (auto simp: on_crossing_def Let_def split: if_splits prod.splits sum.splits dest: e1 e2)
  show "tw_last_side tw' = tw_last_side tw"
    using assms(2) by (auto simp: on_crossing_def Let_def cancel_orphan_def arm_orphan_def
        split: if_splits prod.splits sum.splits option.splits)
qed

lemma handle_detection_quiet:
  assumes "fst (observe_side (tw_last_side tw) t
      (centroid_side (tc_polygon (tw_config tw)) ((x0 + x1) / 2) ((y0 + y1) / 2)) conf) = None"
  shows "\<exists>d. handle_detection E S j now tw t (x0, y0, x1, y1) conf w = (Inr (), tw\<lparr>tw_last_side := d\<rparr>, w)"
  using assms by (auto simp: handle_detection_def split: prod.splits)

lemma handle_detection_sides_ok:
  assumes "env_ok E" "sides_ok (tw_last_side tw)" "handle_detection E S j now tw t b conf w = (r, tw', w')"
  shows "sides_ok (tw_last_side tw')"
proof -
  obtain x0 y0 x1 y1 where b: "b = (x0, y0, x1, y1)" by (cases b) auto
  obtain tr d where o: "observe_side (tw_last_side tw) t
      (centroid_side (tc_polygon (tw_config tw)) ((x0 + x1) / 2) ((y0 + y1) / 2)) conf = (tr, d)" by fastforce
  have "sides_ok d" using observe_sides_ok [OF assms(2)] o by (metis snd_conv)
  with assms(3) b o show ?thesis
    by (cases tr) (auto simp: handle_detection_def dest: on_crossing_sends(2) [OF assms(1)])
qed

section \<open>The tripwire as a transition system\<close>

record tw_system =
  ts_wire :: tripwire
  ts_world :: world

inductive tripwire_step :: "environment \<Rightarrow> infer_settings \<Rightarrow> tw_system \<Rightarrow> tw_system \<Rightarrow> bool" for E S where
  tw_detect: "handle_detection E S j now (ts_wire s) t b conf (ts_world s) = (r, tw, w) \<Longrightarrow>
    tripwire_step E S s (s\<lparr>ts_wire := tw, ts_world := w\<rparr>)"
| tw_fire: "tripwire_step E S s (s\<lparr>ts_wire := fire_orphan (ts_wire s) h\<rparr>)"
| tw_orphan: "t \<in> set (tw_tasks (ts_wire s)) \<Longrightarrow> handle_orphaned_exit E (ts_wire s) t (ts_world s) = (tw, w) \<Longrightarrow>
    tripwire_step E S s (s\<lparr>ts_wire := tw, ts_world := w\<rparr>)"

definition tripwire_start :: "tw_system \<Rightarrow> bool" where
  "tripwire_start s = (\<exists>cam. build_tripwire cam = Inr (ts_wire s))"

definition tripwire_inv :: "tw_system \<Rightarrow> bool" where
  "tripwire_inv s = sides_ok (tw_last_side (ts_wire s))"

definition tripwire_next :: "environment \<Rightarrow> infer_settings \<Rightarrow> tw_system \<Rightarrow> tw_system \<Rightarrow> bool" where
  "tripwire_next E S s t = (env_ok E \<and> tripwire_step E S s t)"

lemma fire_orphan_sides [simp]: "tw_last_side (fire_orphan tw h) = tw_last_side tw"
  by (simp add: fire_orphan_def split: option.split)

lemma build_tripwire_sides: "build_tripwire cam = Inr tw \<Longrightarrow> sides_ok (tw_last_side tw)"
  by (auto simp: build_tripwire_def Let_def res_iff sides_ok_def)

interpretation tripwires: invariant_system tripwire_start "tripwire_next E S" tripwire_inv for E S
proof
  show "tripwire_inv s" if "tripwire_start s" for s
    using that by (auto simp: tripwire_start_def tripwire_inv_def intro: build_tripwire_sides)
  show "tripwire_inv t" if "tripwire_inv s" "tripwire_next E S s t" for s t
    using that by (auto simp: tripwire_next_def tripwire_inv_def handle_orphaned_exit_def
        elim!: tripwire_step.cases dest: handle_detection_sides_ok)
qed

end
