(* ===== verification/Infer_Counter.thy ===== *)
theory Infer_Counter
  imports Infer_Base
begin

text \<open>
  \<open>inference/src/inference/zone_counter.py\<close>: occupancy per coach at 1 Hz with an
  in-flight guard, the threshold crossing with its deadband, slip and fall detection, the
  vestibule congestion event. An update is two steps, \<open>update_begin\<close> (the guards and
  the state mutation under the lock) and \<open>update_finish\<close> (the chain of POSTs and the
  release of the guard), so that updates may interleave at the await between them.
\<close>

section \<open>Construction\<close>

record camera =
  cam_id :: string
  cam_coach :: string
  cam_zone :: "string option"
  cam_capacity :: "json option"

record occupancy_state =
  os_car :: string
  os_count :: int
  os_pct :: rat
  os_capacity :: int
  os_zone :: string
  os_tracks :: "int list"

datatype direction = Rising | Falling

fun direction_value :: "direction \<Rightarrow> string" where
  "direction_value Rising = ''rising''"
| "direction_value Falling = ''falling''"

record zone_counter =
  zc_states :: "(string, occupancy_state) dict"
  zc_last_emit :: "(string, rat) dict"
  zc_threshold :: "(string \<times> rat, direction) dict"
  zc_in_flight :: "(string, bool) dict"
  zc_bboxes :: "(string \<times> string, (int, bbox) dict) dict"
  zc_vest_last :: "(string, rat) dict"
  zc_camera_zone :: "(string \<times> string, string) dict"
  zc_versions :: "(string, string) dict"

text \<open>\<open>int(x)\<close> on a JSON value.\<close>

fun py_int :: "json \<Rightarrow> int option" where
  "py_int (JBool b) = Some (if b then 1 else 0)"
| "py_int (JInt i) = Some i"
| "py_int (JNum r) = Some (truncate_rat r)"
| "py_int (JStr s) = str_int s"
| "py_int j = None"

fun is_json_bool :: "json \<Rightarrow> bool" where
  "is_json_bool (JBool b) = True"
| "is_json_bool j = False"

definition camera_capacity :: "infer_settings \<Rightarrow> camera \<Rightarrow> int res" where
  "camera_capacity S cam =
     (let raw = keep_or (cam_capacity cam) (JInt (is_capacity_default S))
      in if is_json_bool raw then Inl ValueError
         else bind_res (of_opt ValueError (py_int raw)) (\<lambda>c. if c \<le> 0 then Inl ValueError else Inr c))"

fun build_states ::
  "infer_settings \<Rightarrow> camera list \<Rightarrow> (string, occupancy_state) dict \<Rightarrow> (string, occupancy_state) dict res" where
  "build_states S [] d = Inr d"
| "build_states S (cam # cams) d =
     (if dhas d (cam_coach cam) then build_states S cams d
      else bind_res (camera_capacity S cam) (\<lambda>c.
        build_states S cams (dset d (cam_coach cam)
          \<lparr>os_car = cam_coach cam, os_count = 0, os_pct = 0, os_capacity = c,
           os_zone = keep_or (cam_zone cam) ''interior'', os_tracks = []\<rparr>)))"

definition build_counter ::
  "infer_settings \<Rightarrow> camera list \<Rightarrow> (string, string) dict \<Rightarrow> zone_counter res" where
  "build_counter S cams versions =
     map_sum id
       (\<lambda>sts. \<lparr>zc_states = sts, zc_last_emit = map (\<lambda>(c, st). (c, 0)) sts, zc_threshold = [],
          zc_in_flight = map (\<lambda>(c, st). (c, False)) sts, zc_bboxes = [], zc_vest_last = [],
          zc_camera_zone = foldl (\<lambda>d cam. dset d (cam_coach cam, cam_id cam) (keep_or (cam_zone cam) ''interior''))
            [] cams,
          zc_versions = versions\<rparr>)
       (build_states S cams [])"

section \<open>The first half of an update\<close>

text \<open>The 1 Hz gate; the time is recorded when it admits.\<close>

definition occupancy_gate :: "zone_counter \<Rightarrow> string \<Rightarrow> rat \<Rightarrow> bool \<times> zone_counter" where
  "occupancy_gate zc car now =
     (if now - dget_or (zc_last_emit zc) car 0 < 1 then (False, zc)
      else (True, zc\<lparr>zc_last_emit := dset (zc_last_emit zc) car now\<rparr>))"

definition person_tracks :: "detection list \<Rightarrow> int list" where
  "person_tracks ds = remdups (map (the \<circ> d_track) (filter (\<lambda>d. d_label d = ''person'' \<and> d_track d \<noteq> None) ds))"

definition count_people :: "occupancy_state \<Rightarrow> detection list \<Rightarrow> occupancy_state" where
  "count_people st ds =
     (let ts = person_tracks ds; n = int (length ts)
      in st\<lparr>os_tracks := ts, os_count := n, os_pct := min (of_int n / of_int (os_capacity st)) 1\<rparr>)"

text \<open>The guards and the mutation; the result is the previous count when the update goes on.\<close>

definition update_begin :: "zone_counter \<Rightarrow> string \<Rightarrow> detection list \<Rightarrow> rat \<Rightarrow> int option \<times> zone_counter" where
  "update_begin zc car ds now =
     (case dget (zc_states zc) car of
        None \<Rightarrow> (None, zc)
      | Some st \<Rightarrow>
          if dget_or (zc_in_flight zc) car False then (None, zc)
          else (case occupancy_gate zc car now of
                  (False, zc') \<Rightarrow> (None, zc')
                | (True, zc') \<Rightarrow>
                    (Some (os_count st),
                     zc'\<lparr>zc_states := dset (zc_states zc') car (count_people st ds),
                         zc_in_flight := dset (zc_in_flight zc') car True\<rparr>)))"

section \<open>Occupancy and threshold\<close>

definition occupancy_kwargs :: "infer_settings \<Rightarrow> (string, string) dict \<Rightarrow> occupancy_state \<Rightarrow> jdict" where
  "occupancy_kwargs S versions st =
     [(''car_id'', JStr (os_car st)), (''zone'', JStr (os_zone st)),
      (''occupancy_count'', JInt (os_count st)), (''occupancy_pct'', JNum (os_pct st)),
      (''capacity'', JInt (os_capacity st)), (''confidence'', JNull),
      (''service_tier'', JStr (is_service_tier S)), (''model_versions'', jstrs versions)]"

definition post_occupancy_update ::
  "environment \<Rightarrow> infer_settings \<Rightarrow> string \<Rightarrow> clock \<Rightarrow> (string, string) dict \<Rightarrow> occupancy_state \<Rightarrow> world \<Rightarrow>
   unit res \<times> world" where
  "post_occupancy_update E S journey now versions st =
     emit_event E S journey now OCCUPANCY_UPDATE (occupancy_kwargs S versions st) Sev_info
       (Some ''/candidates/occupancy_update'')"

definition rising_at :: "infer_settings \<Rightarrow> int \<Rightarrow> rat" where
  "rising_at S capacity = is_threshold_pct S * of_int capacity + of_int (is_deadband S)"

definition falling_at :: "infer_settings \<Rightarrow> int \<Rightarrow> rat" where
  "falling_at S capacity = is_threshold_pct S * of_int capacity - of_int (is_deadband S)"

text \<open>The decision of \<open>_check_threshold\<close>: the direction to record and to emit.\<close>

definition crossing ::
  "infer_settings \<Rightarrow> int \<Rightarrow> direction option \<Rightarrow> int \<Rightarrow> int \<Rightarrow> direction option" where
  "crossing S capacity last_dir prev new =
     (if of_int prev < rising_at S capacity \<and> rising_at S capacity \<le> of_int new \<and> last_dir \<noteq> Some Rising
      then Some Rising
      else if of_int prev > falling_at S capacity \<and> falling_at S capacity \<ge> of_int new \<and>
              last_dir \<noteq> Some Falling
      then Some Falling
      else None)"

definition crossed_kwargs :: "infer_settings \<Rightarrow> occupancy_state \<Rightarrow> direction \<Rightarrow> jdict" where
  "crossed_kwargs S st dir =
     [(''car_id'', JStr (os_car st)), (''zone'', JStr (os_zone st)),
      (''threshold_pct'', JNum (is_threshold_pct S)), (''direction'', JStr (direction_value dir)),
      (''occupancy_pct'', JNum (os_pct st)), (''occupancy_count'', JInt (os_count st)),
      (''capacity'', JInt (os_capacity st)), (''service_tier'', JStr (is_service_tier S))]"

definition check_threshold ::
  "environment \<Rightarrow> infer_settings \<Rightarrow> string \<Rightarrow> clock \<Rightarrow> zone_counter \<Rightarrow> string \<Rightarrow> occupancy_state \<Rightarrow> int \<Rightarrow>
   world \<Rightarrow> unit res \<times> zone_counter \<times> world" where
  "check_threshold E S journey now zc car st prev w =
     (let key = (car, is_threshold_pct S)
      in case crossing S (os_capacity st) (dget (zc_threshold zc) key) prev (os_count st) of
           None \<Rightarrow> (Inr (), zc, w)
         | Some dir \<Rightarrow>
             (case emit_event E S journey now OCCUPANCY_THRESHOLD_CROSSED (crossed_kwargs S st dir)
                     Sev_warning None w of
                (r, w') \<Rightarrow> (r, zc\<lparr>zc_threshold := dset (zc_threshold zc) key dir\<rparr>, w')))"

section \<open>Slip and fall\<close>

definition fall_detected :: "infer_settings \<Rightarrow> bbox \<Rightarrow> bbox \<Rightarrow> bool" where
  "fall_detected S before after =
     (case (before, after) of ((x0, y0, x1, y1), (u0, v0, u1, v1)) \<Rightarrow>
       (let h1 = y1 - y0; h2 = v1 - v0;
            ratio = (if h1 > 0 then h2 / h1 else 1);
            velocity = \<bar>(v0 + v1) / 2 - (y0 + y1) / 2\<bar>
        in ratio < 1 - is_fall_height S \<and> velocity > is_fall_velocity S))"

definition slip_fall_body :: "string \<Rightarrow> int \<Rightarrow> string \<Rightarrow> rat option \<Rightarrow> (string, string) dict \<Rightarrow> jdict" where
  "slip_fall_body car track cam conf versions =
     [(''alert_type'', JStr ''slip_fall''), (''car_id'', JStr car), (''track_id'', JInt track),
      (''camera_id'', JStr cam), (''confidence'', jopt JNum conf), (''model_versions'', jstrs versions)]"

definition post_fusion :: "environment \<Rightarrow> string \<Rightarrow> jdict \<Rightarrow> world \<Rightarrow> unit res \<times> world" where
  "post_fusion E path body =
     retry_call default_attempts
       (\<lambda>w. case http_post E (PostFusion path body) w of (ok, w') \<Rightarrow> (if ok then Inr () else Inl HTTPError, w'))"

text \<open>The loop over the detections: bounding boxes so far, tracks seen, the world.\<close>

fun slip_loop ::
  "environment \<Rightarrow> infer_settings \<Rightarrow> (string, string) dict \<Rightarrow> string \<Rightarrow> string \<Rightarrow> (int, bbox) dict \<Rightarrow> int list \<Rightarrow>
   detection list \<Rightarrow> world \<Rightarrow> unit res \<times> (int, bbox) dict \<times> int list \<times> world" where
  "slip_loop E S versions car cam boxes active [] w = (Inr (), boxes, active, w)"
| "slip_loop E S versions car cam boxes active (d # ds) w =
     (case (d_track d, d_bbox d) of
        (Some t, Some b) \<Rightarrow>
          if d_label d \<noteq> ''person'' then slip_loop E S versions car cam boxes active ds w
          else (case (if (case dget boxes t of None \<Rightarrow> False | Some p \<Rightarrow> fall_detected S p b)
                      then post_fusion E ''/candidates/alert_raised''
                             (slip_fall_body car t cam (d_confidence d) versions) w
                      else (Inr (), w)) of
                  (Inl e, w') \<Rightarrow> (Inl e, boxes, List.insert t active, w')
                | (Inr u, w') \<Rightarrow>
                    slip_loop E S versions car cam (dset boxes t b) (List.insert t active) ds w')
      | _ \<Rightarrow> slip_loop E S versions car cam boxes active ds w)"

definition check_slip_fall ::
  "environment \<Rightarrow> infer_settings \<Rightarrow> zone_counter \<Rightarrow> string \<Rightarrow> detection list \<Rightarrow> string option \<Rightarrow> world \<Rightarrow>
   unit res \<times> zone_counter \<times> world" where
  "check_slip_fall E S zc car ds camera w =
     (let cam = str_or camera ''unknown''; key = (car, cam)
      in case slip_loop E S (zc_versions zc) car cam (dget_or (zc_bboxes zc) key []) [] ds w of
           (Inl e, boxes, active, w') \<Rightarrow> (Inl e, zc\<lparr>zc_bboxes := dset (zc_bboxes zc) key boxes\<rparr>, w')
         | (Inr u, boxes, active, w') \<Rightarrow>
             (Inr (), zc\<lparr>zc_bboxes := dset (zc_bboxes zc) key (filter (\<lambda>(t, b). t \<in> set active) boxes)\<rparr>, w'))"

section \<open>Vestibule congestion\<close>

text \<open>\<open>round(x, 4)\<close>.\<close>

definition round4 :: "rat \<Rightarrow> rat" where
  "round4 x = of_int (round_half_even (x * 10000)) / 10000"

definition vestibule_zone :: "zone_counter \<Rightarrow> string \<Rightarrow> string option \<Rightarrow> string option" where
  "vestibule_zone zc car camera =
     (case camera of
        Some cam \<Rightarrow> dget (zc_camera_zone zc) (car, cam)
      | None \<Rightarrow> (case filter (\<lambda>((c, i), z). c = car) (zc_camera_zone zc) of
                   [] \<Rightarrow> Some ''interior''
                 | (k, z) # _ \<Rightarrow> Some z))"

definition congestion_score :: "infer_settings \<Rightarrow> int \<Rightarrow> rat" where
  "congestion_score S n =
     (if is_vest_threshold S > 0 then min (of_int n / of_int (is_vest_threshold S)) 1 else 0)"

definition vestibule_gate :: "zone_counter \<Rightarrow> string \<Rightarrow> rat \<Rightarrow> bool \<times> zone_counter" where
  "vestibule_gate zc vid now =
     (if now - dget_or (zc_vest_last zc) vid 0 < 10 then (False, zc)
      else (True, zc\<lparr>zc_vest_last := dset (zc_vest_last zc) vid now\<rparr>))"

definition congestion_kwargs :: "infer_settings \<Rightarrow> string \<Rightarrow> string \<Rightarrow> rat \<Rightarrow> int \<Rightarrow> jdict" where
  "congestion_kwargs S car vid score n =
     [(''car_id'', JStr car), (''vestibule_id'', JStr vid), (''congestion_score'', JNum (round4 score)),
      (''person_count'', JInt n), (''dwell_time_avg_s'', JNum 0), (''threshold_score'', JNum (is_vest_score S))]"

definition check_vestibule_congestion ::
  "environment \<Rightarrow> infer_settings \<Rightarrow> string \<Rightarrow> clock \<Rightarrow> rat \<Rightarrow> zone_counter \<Rightarrow> string \<Rightarrow> int \<Rightarrow> string option \<Rightarrow>
   world \<Rightarrow> unit res \<times> zone_counter \<times> world" where
  "check_vestibule_congestion E S journey now tick zc car n camera w =
     (case vestibule_zone zc car camera of
        None \<Rightarrow> (Inr (), zc, w)
      | Some zone \<Rightarrow>
          if zone \<notin> {''door'', ''vestibule''} then (Inr (), zc, w)
          else (let score = congestion_score S n
                in if score \<le> is_vest_score S then (Inr (), zc, w)
                   else (let vid = car @ ''-'' @ zone
                         in case vestibule_gate zc vid tick of
                              (False, zc') \<Rightarrow> (Inr (), zc', w)
                            | (True, zc') \<Rightarrow>
                                (case emit_built E S journey now VESTIBULE_CONGESTION
                                        (congestion_kwargs S car vid score n) Sev_warning w of
                                   (r, w') \<Rightarrow> (r, zc', w')))))"

definition vestibule_count :: "detection list \<Rightarrow> int" where
  "vestibule_count ds =
     (let persons = filter (\<lambda>d. d_label d = ''person'') ds
      in if list_ex (\<lambda>d. d_vestibule d \<noteq> None) persons
         then int (length (filter (\<lambda>d. d_vestibule d = Some True) persons))
         else int (length persons))"

section \<open>The second half of an update\<close>

text \<open>The chain of POSTs: an exception of one link skips the rest.\<close>

definition update_chain ::
  "environment \<Rightarrow> infer_settings \<Rightarrow> string \<Rightarrow> clock \<Rightarrow> rat \<Rightarrow> zone_counter \<Rightarrow> string \<Rightarrow> occupancy_state \<Rightarrow> int \<Rightarrow>
   detection list \<Rightarrow> string option \<Rightarrow> world \<Rightarrow> unit res \<times> zone_counter \<times> world" where
  "update_chain E S journey now tick zc car st prev ds camera w =
     (case post_occupancy_update E S journey now (zc_versions zc) st w of
        (Inl e, w1) \<Rightarrow> (Inl e, zc, w1)
      | (Inr u, w1) \<Rightarrow>
          (case check_threshold E S journey now zc car st prev w1 of
             (Inl e, zc2, w2) \<Rightarrow> (Inl e, zc2, w2)
           | (Inr u, zc2, w2) \<Rightarrow>
               (case check_slip_fall E S zc2 car ds camera w2 of
                  (Inl e, zc3, w3) \<Rightarrow> (Inl e, zc3, w3)
                | (Inr u, zc3, w3) \<Rightarrow>
                    check_vestibule_congestion E S journey now tick zc3 car (vestibule_count ds) camera w3)))"

definition release :: "zone_counter \<Rightarrow> string \<Rightarrow> zone_counter" where
  "release zc car = zc\<lparr>zc_in_flight := dset (zc_in_flight zc) car False\<rparr>"

definition update_finish ::
  "environment \<Rightarrow> infer_settings \<Rightarrow> string \<Rightarrow> clock \<Rightarrow> rat \<Rightarrow> zone_counter \<Rightarrow> string \<Rightarrow> int \<Rightarrow>
   detection list \<Rightarrow> string option \<Rightarrow> world \<Rightarrow> unit res \<times> zone_counter \<times> world" where
  "update_finish E S journey now tick zc car prev ds camera w =
     (case dget (zc_states zc) car of
        None \<Rightarrow> (Inr (), zc, w)
      | Some st \<Rightarrow>
          (case update_chain E S journey now tick zc car st prev ds camera w of
             (r, zc', w') \<Rightarrow> (r, release zc' car, w')))"

end
