(* ===== verification/Infer_Callback.thy ===== *)
theory Infer_Callback
  imports Infer_Tripwire Infer_Counter
begin

text \<open>
  The frame callback, \<open>inference/src/inference/callback.py\<close>, one per camera. It is
  synchronous: it filters the detections of a frame, updates its door and suitcase
  counters and schedules coroutines; the scheduled coroutines are the \<open>job\<close>s it returns,
  and \<open>run_callback_job\<close> runs those that belong to the callback itself.

  A frame is the list of detections read from the Hailo buffer, \<open>None\<close> when the buffer
  could not be read; a detection whose metadata raises is not in the list. The event-store
  client is always present, as \<open>wire\<close> passes it.
\<close>

section \<open>State\<close>

record raw_detection =
  rd_label :: string
  rd_track :: "int option"
  rd_bbox :: bbox
  rd_confidence :: "rat option"

record callback =
  cb_camera_id :: string
  cb_car_id :: string
  cb_zone :: string
  cb_priority :: string
  cb_zone_masks :: "zone_mask list"
  cb_vestibule :: "zone_mask option"
  cb_allowed :: "string list"
  cb_cam_to_door :: "(string, string) dict"
  cb_hits :: "(string \<times> int, int) dict"
  cb_suitcase :: "(string, bbox) dict"
  cb_bicycle_last :: "(string, rat) dict"
  cb_versions :: "(string, string) dict"
  cb_has_tripwire :: bool

datatype job =
    Zone_update "detection list" \<comment> \<open>\<open>zone_counter.update(car_id, accepted, camera_id)\<close>\<close>
  | Tripwire_frame int bbox "rat option" \<comment> \<open>\<open>tripwire_handler.process_frame\<close>\<close>
  | Door_candidate string string string \<comment> \<open>door, obstruction type, track\<close>
  | Bicycle "rat option" bbox

text \<open>\<open>door_camera_map\<close> turned round; a camera listed twice belongs to the last door.\<close>

definition cam_to_door :: "(string, string list) dict \<Rightarrow> (string, string) dict" where
  "cam_to_door m = foldl (\<lambda>d (door, cams). foldl (\<lambda>d cam. dset d cam door) d cams) [] m"

definition build_callback ::
  "infer_settings \<Rightarrow> camera \<Rightarrow> string \<Rightarrow> zone_mask list \<Rightarrow> zone_mask option \<Rightarrow> (string, string list) dict \<Rightarrow>
   (string, string) dict \<Rightarrow> bool \<Rightarrow> callback res" where
  "build_callback S cam priority masks vest doors versions tripwire =
     bind_res (guard (masks \<noteq> []) RuntimeError) (\<lambda>_.
       Inr \<lparr>cb_camera_id = cam_id cam, cb_car_id = cam_coach cam, cb_zone = keep_or (cam_zone cam) ''interior'',
            cb_priority = priority, cb_zone_masks = masks, cb_vestibule = vest,
            cb_allowed = is_detection_classes S, cb_cam_to_door = cam_to_door doors, cb_hits = [],
            cb_suitcase = [], cb_bicycle_last = [], cb_versions = versions, cb_has_tripwire = tripwire\<rparr>)"

section \<open>Filtering a frame\<close>

definition admissible :: "infer_settings \<Rightarrow> callback \<Rightarrow> raw_detection \<Rightarrow> bool" where
  "admissible S cb d =
     (rd_label d \<in> set (cb_allowed cb) \<and> in_pixel_range S (rd_bbox d) \<and>
      bbox_in_any_zone (rd_bbox d) (cb_zone_masks cb))"

definition in_vestibule :: "callback \<Rightarrow> bbox \<Rightarrow> bool" where
  "in_vestibule cb b = (case cb_vestibule cb of None \<Rightarrow> False | Some z \<Rightarrow> bbox_in_any_zone b [z])"

definition accepted_people :: "infer_settings \<Rightarrow> callback \<Rightarrow> raw_detection list \<Rightarrow> detection list" where
  "accepted_people S cb ds =
     map (\<lambda>d. \<lparr>d_track = rd_track d, d_label = rd_label d, d_bbox = Some (rd_bbox d),
               d_vestibule = Some (in_vestibule cb (rd_bbox d)), d_confidence = rd_confidence d\<rparr>)
       (filter (\<lambda>d. admissible S cb d \<and> rd_label d = ''person'' \<and> rd_track d \<noteq> None) ds)"

definition bicycles :: "infer_settings \<Rightarrow> callback \<Rightarrow> raw_detection list \<Rightarrow> (rat option \<times> bbox) list" where
  "bicycles S cb ds =
     map (\<lambda>d. (rd_confidence d, rd_bbox d)) (filter (\<lambda>d. admissible S cb d \<and> rd_label d = ''bicycle'') ds)"

definition suitcases :: "infer_settings \<Rightarrow> callback \<Rightarrow> raw_detection list \<Rightarrow> bbox list" where
  "suitcases S cb ds = map rd_bbox (filter (\<lambda>d. admissible S cb d \<and> rd_label d = ''suitcase'') ds)"

section \<open>Door obstruction\<close>

definition door_of :: "callback \<Rightarrow> string" where
  "door_of cb = dget_or (cb_cam_to_door cb) (cb_camera_id cb) ''unknown''"

text \<open>\<open>int(time.monotonic() * 1000) % 100000\<close>.\<close>

definition tick_suffix :: "rat \<Rightarrow> string" where
  "tick_suffix tick = show_int (truncate_rat (tick * 1000) mod 100000)"

definition handle_suitcase :: "infer_settings \<Rightarrow> rat \<Rightarrow> bbox list \<Rightarrow> callback \<Rightarrow> job list \<times> callback" where
  "handle_suitcase S tick boxes cb =
     (let key = (cb_camera_id cb, - 1);
          best = hd boxes;
          count = (case dget (cb_suitcase cb) (cb_camera_id cb) of
                     None \<Rightarrow> 1
                   | Some p \<Rightarrow> if iou p best > 1 / 2 then dget_or (cb_hits cb) key 0 + 1 else 1);
          cb1 = cb\<lparr>cb_suitcase := dset (cb_suitcase cb) (cb_camera_id cb) best\<rparr>
      in if count \<ge> is_door_min_frames S
         then ([Door_candidate (door_of cb) ''object'' (''suitcase-'' @ tick_suffix tick)],
               cb1\<lparr>cb_hits := dset (cb_hits cb) key 0\<rparr>)
         else ([], cb1\<lparr>cb_hits := dset (cb_hits cb) key count\<rparr>))"

definition handle_person :: "infer_settings \<Rightarrow> int \<Rightarrow> callback \<Rightarrow> job list \<times> callback" where
  "handle_person S t cb =
     (let key = (cb_camera_id cb, t);
          count = dget_or (cb_hits cb) key 0 + 1
      in if count \<ge> is_door_min_frames S
         then ([Door_candidate (door_of cb) ''person'' (show_int t)], cb\<lparr>cb_hits := dset (cb_hits cb) key 0\<rparr>)
         else ([], cb\<lparr>cb_hits := dset (cb_hits cb) key count\<rparr>))"

fun handle_people :: "infer_settings \<Rightarrow> int list \<Rightarrow> callback \<Rightarrow> job list \<times> callback" where
  "handle_people S [] cb = ([], cb)"
| "handle_people S (t # ts) cb =
     (case handle_person S t cb of
        (js, cb1) \<Rightarrow> (case handle_people S ts cb1 of (js', cb2) \<Rightarrow> (js @ js', cb2)))"

definition clear_suitcase :: "callback \<Rightarrow> callback" where
  "clear_suitcase cb =
     cb\<lparr>cb_suitcase := ddel (cb_suitcase cb) (cb_camera_id cb),
        cb_hits := ddel (cb_hits cb) (cb_camera_id cb, - 1)\<rparr>"

definition prune_hits :: "int list \<Rightarrow> callback \<Rightarrow> callback" where
  "prune_hits active cb =
     cb\<lparr>cb_hits := filter (\<lambda>((cam, t), n). \<not> (cam = cb_camera_id cb \<and> t \<ge> 0 \<and> t \<notin> set active)) (cb_hits cb)\<rparr>"

text \<open>The door part of a frame.\<close>

definition door_stage ::
  "infer_settings \<Rightarrow> rat \<Rightarrow> bbox list \<Rightarrow> int list \<Rightarrow> callback \<Rightarrow> job list \<times> callback" where
  "door_stage S tick boxes tracks cb =
     (if cb_zone cb \<noteq> ''door'' then ([], cb)
      else (case (if boxes \<noteq> [] then handle_suitcase S tick boxes cb else ([], clear_suitcase cb)) of
              (js, cb1) \<Rightarrow>
                (case handle_people S tracks (prune_hits tracks cb1) of (js', cb2) \<Rightarrow> (js @ js', cb2))))"

section \<open>The callback\<close>

definition is_gangway :: "callback \<Rightarrow> bool" where
  "is_gangway cb = (cb_zone cb \<in> set gangway_zones)"

text \<open>\<open>Budget.should_process\<close>.\<close>

definition should_process :: "bool \<Rightarrow> string \<Rightarrow> bool" where
  "should_process throttled priority = (\<not> (priority = ''P2'' \<and> throttled))"

text \<open>The result: the jobs, the frames counted toward the heartbeat, the state.\<close>

definition on_frame ::
  "infer_settings \<Rightarrow> bool \<Rightarrow> bool \<Rightarrow> rat \<Rightarrow> raw_detection list option \<Rightarrow> callback \<Rightarrow> job list \<times> nat \<times> callback" where
  "on_frame S throttled loop_up tick frame cb =
     (if \<not> should_process throttled (cb_priority cb) then ([], 0, cb)
      else (case frame of
              None \<Rightarrow> ([], 0, cb)
            | Some ds \<Rightarrow>
                (let people = accepted_people S cb ds;
                     tracks = map (the \<circ> d_track) people
                 in if \<not> loop_up then ([], 1, cb)
                    else if is_gangway cb \<and> cb_has_tripwire cb
                    then (map (\<lambda>p. Tripwire_frame (the (d_track p)) (the (d_bbox p)) (d_confidence p)) people, 1, cb)
                    else (case door_stage S tick (suitcases S cb ds) tracks cb of
                            (js, cb1) \<Rightarrow>
                              (Zone_update people # js @ map (\<lambda>(c, b). Bicycle c b) (bicycles S cb ds), 1, cb1)))))"

section \<open>The callback's own coroutines\<close>

definition door_kwargs :: "callback \<Rightarrow> string \<Rightarrow> string \<Rightarrow> string \<Rightarrow> jdict" where
  "door_kwargs cb door kind track =
     [(''car_id'', JStr (cb_car_id cb)), (''door_id'', JStr door),
      (''obstruction_type'', JStr (if kind \<in> {''person'', ''object'', ''unknown''} then kind else ''unknown'')),
      (''track_id'', JStr track), (''camera_id'', JStr (cb_camera_id cb)), (''confidence'', JNull),
      (''door_state'', JStr ''unknown''), (''model_versions'', jstrs (cb_versions cb))]"

definition post_door_candidate ::
  "environment \<Rightarrow> callback \<Rightarrow> string \<Rightarrow> string \<Rightarrow> string \<Rightarrow> world \<Rightarrow> unit res \<times> world" where
  "post_door_candidate E cb door kind track =
     retry_call default_attempts
       (\<lambda>w. case validate_payload (pyd E) DOOR_OBSTRUCTION (door_kwargs cb door kind track) of
              Inl e \<Rightarrow> (Inl e, w)
            | Inr v \<Rightarrow>
                (case http_post E (PostFusion ''/candidates/door_obstruction'' (model_dump DOOR_OBSTRUCTION v)) w of
                   (ok, w') \<Rightarrow> (if ok then Inr () else Inl HTTPError, w')))"

text \<open>At most one accessibility event per camera and ten seconds.\<close>

definition bicycle_gate :: "callback \<Rightarrow> string \<Rightarrow> rat \<Rightarrow> bool \<times> callback" where
  "bicycle_gate cb cam now =
     (if now - dget_or (cb_bicycle_last cb) cam 0 < 10 then (False, cb)
      else (True, cb\<lparr>cb_bicycle_last := dset (cb_bicycle_last cb) cam now\<rparr>))"

definition accessibility_kwargs :: "callback \<Rightarrow> string \<Rightarrow> rat \<Rightarrow> string \<Rightarrow> jdict" where
  "accessibility_kwargs cb track conf door =
     [(''car_id'', JStr (cb_car_id cb)), (''zone'', JStr (cb_zone cb)), (''track_id'', JStr track),
      (''assistance_type'', JList [JStr ''wheelchair'']), (''camera_id'', JStr (cb_camera_id cb)),
      (''confidence'', JNum conf), (''near_door_id'', JStr door), (''model_versions'', jstrs (cb_versions cb))]"

definition dispatch_bicycle ::
  "environment \<Rightarrow> infer_settings \<Rightarrow> string \<Rightarrow> clock \<Rightarrow> rat \<Rightarrow> callback \<Rightarrow> rat option \<Rightarrow> world \<Rightarrow>
   unit res \<times> callback \<times> world" where
  "dispatch_bicycle E S j now tick cb conf w =
     (case conf of
        None \<Rightarrow> (Inr (), cb, w)
      | Some c \<Rightarrow>
          if c < is_acc_confidence S then (Inr (), cb, w)
          else (case bicycle_gate cb (cb_camera_id cb) tick of
                  (False, cb') \<Rightarrow> (Inr (), cb', w)
                | (True, cb') \<Rightarrow>
                    (case dget (cb_cam_to_door cb') (cb_camera_id cb') of
                       None \<Rightarrow> (Inr (), cb', w)
                     | Some door \<Rightarrow>
                         (case emit_event E S j now ACCESSIBILITY_DETECTED
                                 (accessibility_kwargs cb' (''acc-'' @ cb_camera_id cb' @ ''-'' @ tick_suffix tick) c door)
                                 Sev_warning None w of
                            (r, w') \<Rightarrow> (r, cb', w')))))"

section \<open>Facts\<close>

interpretation bicycle_limit: rate_limiter bicycle_gate "\<lambda>cb cam. dget_or (cb_bicycle_last cb) cam 0" 10
  by unfold_locales (auto simp: bicycle_gate_def split: if_splits)

lemma accepted_people_ok:
  "p \<in> set (accepted_people S cb ds) \<Longrightarrow>
     d_label p = ''person'' \<and> d_track p \<noteq> None \<and>
     (\<exists>b. d_bbox p = Some b \<and> in_pixel_range S b \<and> bbox_in_any_zone b (cb_zone_masks cb))"
  by (auto simp: accepted_people_def admissible_def simp del: split_paired_Ex)

lemma throttled_frame: "cb_priority cb = ''P2'' \<Longrightarrow> on_frame S True loop_up tick frame cb = ([], 0, cb)"
  by (simp add: on_frame_def should_process_def)

lemma gangway_frame:
  assumes "is_gangway cb" "cb_has_tripwire cb" "on_frame S throttled loop_up tick frame cb = (js, n, cb')"
  shows "cb' = cb \<and> (\<forall>job \<in> set js. \<exists>t b c. job = Tripwire_frame t b c)"
  using assms by (auto simp: on_frame_def Let_def simp del: split_paired_Ex split: if_splits option.splits)

text \<open>A person in the door zone for \<open>n\<close> frames in a row.\<close>

fun person_frames :: "infer_settings \<Rightarrow> int \<Rightarrow> nat \<Rightarrow> callback \<Rightarrow> nat \<times> callback" where
  "person_frames S t 0 cb = (0, cb)"
| "person_frames S t (Suc n) cb =
     (case handle_person S t cb of
        (js, cb1) \<Rightarrow> (case person_frames S t n cb1 of (k, cb2) \<Rightarrow> (length js + k, cb2)))"

lemma handle_person_hits:
  "handle_person S t cb = (js, cb') \<Longrightarrow> cb_camera_id cb' = cb_camera_id cb \<and>
   (let count = dget_or (cb_hits cb) (cb_camera_id cb, t) 0 + 1
    in dget_or (cb_hits cb') (cb_camera_id cb, t) 0 = (if count \<ge> is_door_min_frames S then 0 else count) \<and>
       length js = (if count \<ge> is_door_min_frames S then 1 else 0))"
  by (auto simp: handle_person_def Let_def split: if_splits)

lemma person_frames_count:
  assumes "1 \<le> m" "is_door_min_frames S = int m"
    and "dget_or (cb_hits cb) (cb_camera_id cb, t) 0 = int h" "h < m"
  shows "fst (person_frames S t n cb) = (h + n) div m"
  using assms(3,4)
proof (induction n arbitrary: cb h)
  case 0
  then show ?case by simp
next
  case (Suc n)
  obtain js cb1 where p: "handle_person S t cb = (js, cb1)" by fastforce
  note ph = handle_person_hits [OF p, unfolded Let_def Suc.prems(1) assms(2)]
  obtain k cb2 where r: "person_frames S t n cb1 = (k, cb2)" by fastforce
  show ?case
  proof (cases "Suc h = m")
    case True
    with ph have "dget_or (cb_hits cb1) (cb_camera_id cb1, t) 0 = int 0" "length js = 1" by simp_all
    with Suc.IH [of cb1 0] assms(1) r have "k = n div m" by simp
    moreover have "(h + Suc n) div m = Suc (n div m)"
    proof -
      have "h + Suc n = m + n" using True by simp
      then have "(h + Suc n) div m = (m + n) div m" by (simp only:)
      then show ?thesis using assms(1) by simp
    qed
    ultimately show ?thesis using p r \<open>length js = 1\<close> by simp
  next
    case False
    with Suc.prems(2) have lt: "Suc h < m" by simp
    with ph have "dget_or (cb_hits cb1) (cb_camera_id cb1, t) 0 = int (Suc h)" "length js = 0" by simp_all
    with Suc.IH [of cb1 "Suc h"] lt r have "k = (Suc h + n) div m" by simp
    with p r \<open>length js = 0\<close> show ?thesis by simp
  qed
qed

lemma prune_forgets: "0 \<le> t \<Longrightarrow> t \<notin> set active \<Longrightarrow> dget_or (cb_hits (prune_hits active cb)) (cb_camera_id cb, t) 0 = 0"
proof -
  assume "0 \<le> t" "t \<notin> set active"
  then have "dget (filter (\<lambda>((cam, u), n). \<not> (cam = cb_camera_id cb \<and> u \<ge> 0 \<and> u \<notin> set active)) d) (cb_camera_id cb, t) = None" for d :: "(string \<times> int, int) dict"
    by (auto simp: map_of_eq_None_iff)
  then show ?thesis by (simp add: prune_hits_def dget_or_def)
qed

lemma dispatch_bicycle_sends:
  assumes "env_ok E" "dispatch_bicycle E S j now tick cb conf w = (r, cb', w')"
  shows "adds (infer_own E j {ACCESSIBILITY_DETECTED} {}) w w'"
proof -
  have e: "adds (infer_own E j {ACCESSIBILITY_DETECTED} {}) w w1"
    if "emit_event E S j now ACCESSIBILITY_DETECTED kw Sev_warning None w = (r1, w1)" for kw r1 w1
    by (rule emit_event_adds_mono [OF assms(1) _ _ that]) simp_all
  show ?thesis
    using assms(2) by (auto simp: dispatch_bicycle_def bicycle_gate_def
        split: option.splits if_splits bool.splits prod.splits dest: e)
qed

end
