(* ===== verification/Infer_Counter_Facts.thy ===== *)
theory Infer_Counter_Facts
  imports Infer_Counter
begin

text \<open>
  What the zone counter keeps: the rate limits, one POST chain per coach, the counts and
  their bounds, the hysteresis of the threshold, and what it may send.
\<close>

section \<open>The two rate limiters\<close>

interpretation occupancy_limit: rate_limiter occupancy_gate "\<lambda>zc car. dget_or (zc_last_emit zc) car 0" 1
  by unfold_locales (auto simp: occupancy_gate_def split: if_splits)

interpretation vestibule_limit: rate_limiter vestibule_gate "\<lambda>zc vid. dget_or (zc_vest_last zc) vid 0" 10
  by unfold_locales (auto simp: vestibule_gate_def split: if_splits)

section \<open>Counts\<close>

lemma person_tracks_distinct: "distinct (person_tracks ds)"
  by (simp add: person_tracks_def)

lemma count_people_count:
  "os_count (count_people st ds) = int (card {t. \<exists>d \<in> set ds. d_label d = ''person'' \<and> d_track d = Some t})"
proof -
  have "set (person_tracks ds) = {t. \<exists>d \<in> set ds. d_label d = ''person'' \<and> d_track d = Some t}"
    by (force simp: person_tracks_def image_iff)
  with distinct_card [OF person_tracks_distinct, of ds] show ?thesis
    by (simp add: count_people_def Let_def)
qed

definition state_ok :: "occupancy_state \<Rightarrow> bool" where
  "state_ok st \<longleftrightarrow> 0 < os_capacity st \<and> 0 \<le> os_count st \<and>
     os_pct st = min (of_int (os_count st) / of_int (os_capacity st)) 1"

lemma state_ok_pct: "state_ok st \<Longrightarrow> 0 \<le> os_pct st \<and> os_pct st \<le> 1"
  by (simp add: state_ok_def)

lemma count_people_ok: "state_ok st \<Longrightarrow> state_ok (count_people st ds)"
  by (simp add: state_ok_def count_people_def Let_def)

definition counter_ok :: "zone_counter \<Rightarrow> bool" where
  "counter_ok zc = (\<forall>car st. dget (zc_states zc) car = Some st \<longrightarrow> state_ok st \<and> os_car st = car)"

lemma camera_capacity_pos: "camera_capacity S cam = Inr c \<Longrightarrow> 0 < c"
  by (auto simp: camera_capacity_def Let_def res_iff split: if_splits)

lemma build_states_ok:
  assumes "build_states S cams d = Inr d'" "\<forall>car st. dget d car = Some st \<longrightarrow> state_ok st \<and> os_car st = car"
  shows "\<forall>car st. dget d' car = Some st \<longrightarrow> state_ok st \<and> os_car st = car"
  using assms
proof (induction cams arbitrary: d)
  case Nil
  then show ?case by simp
next
  case (Cons cam cams)
  show ?case
  proof (cases "dhas d (cam_coach cam)")
    case True
    with Cons.prems(1) have "build_states S cams d = Inr d'" by simp
    from Cons.IH [OF this Cons.prems(2)] show ?thesis .
  next
    case False
    with Cons.prems(1) obtain c where c: "camera_capacity S cam = Inr c" and
      rest: "build_states S cams (dset d (cam_coach cam)
          \<lparr>os_car = cam_coach cam, os_count = 0, os_pct = 0, os_capacity = c,
           os_zone = keep_or (cam_zone cam) ''interior'', os_tracks = []\<rparr>) = Inr d'"
      by (auto simp: res_iff)
    from camera_capacity_pos [OF c] Cons.prems(2) show ?thesis
      by (intro Cons.IH [OF rest]) (auto simp: state_ok_def)
  qed
qed

lemma build_counter_ok:
  assumes "build_counter S cams versions = Inr zc"
  shows "counter_ok zc"
proof (cases "build_states S cams []")
  case (Inl e)
  with assms show ?thesis by (simp add: build_counter_def)
next
  case (Inr sts)
  with assms have "zc_states zc = sts" by (auto simp: build_counter_def)
  with build_states_ok [OF Inr] show ?thesis by (simp add: counter_ok_def)
qed

lemma build_states_keys:
  "build_states S cams d = Inr d' \<Longrightarrow> set (dkeys d') = set (dkeys d) \<union> cam_coach ` set cams"
  by (induction cams arbitrary: d) (auto simp: res_iff dkeys_dset dhas_def split: if_splits)

section \<open>The first half\<close>

lemma update_begin_frame:
  assumes "update_begin zc car ds now = (p, zc')"
  shows "zc_threshold zc' = zc_threshold zc \<and> zc_camera_zone zc' = zc_camera_zone zc \<and>
    zc_versions zc' = zc_versions zc \<and> (p = None \<longrightarrow> zc' = zc)"
  using assms by (auto simp: update_begin_def occupancy_gate_def split: option.splits if_splits bool.splits prod.splits)

lemma update_begin_Some:
  assumes "update_begin zc car ds now = (Some prev, zc')"
  obtains st where "dget (zc_states zc) car = Some st" "prev = os_count st" "\<not> dget_or (zc_in_flight zc) car False"
    "1 \<le> now - dget_or (zc_last_emit zc) car 0"
    "zc_states zc' = dset (zc_states zc) car (count_people st ds)"
    "zc_in_flight zc' = dset (zc_in_flight zc) car True"
    "zc_last_emit zc' = dset (zc_last_emit zc) car now"
  using assms by (auto simp: update_begin_def occupancy_gate_def split: option.splits if_splits bool.splits prod.splits)

lemma update_begin_counter_ok: "counter_ok zc \<Longrightarrow> update_begin zc car ds now = (p, zc') \<Longrightarrow> counter_ok zc'"
proof (cases p)
  case None
  assume "counter_ok zc" "update_begin zc car ds now = (p, zc')"
  with None show ?thesis using update_begin_frame by metis
next
  case (Some prev)
  assume ok: "counter_ok zc" and b: "update_begin zc car ds now = (p, zc')"
  from b Some obtain st where "dget (zc_states zc) car = Some st" "zc_states zc' = dset (zc_states zc) car (count_people st ds)"
    by (auto elim: update_begin_Some)
  with ok show ?thesis by (auto simp: counter_ok_def count_people_ok) (simp add: count_people_def Let_def)
qed

section \<open>The threshold\<close>

lemma crossing_direction: "crossing S cap last_dir prev new = Some d \<Longrightarrow> last_dir \<noteq> Some d"
  by (auto simp: crossing_def split: if_splits)

lemma crossing_inside_band:
  "falling_at S cap < of_int new \<Longrightarrow> of_int new < rising_at S cap \<Longrightarrow> crossing S cap last_dir prev new = None"
  by (simp add: crossing_def)

text \<open>A run of counts of one coach: the directions emitted, and the direction on record after it.\<close>

fun crossings :: "infer_settings \<Rightarrow> int \<Rightarrow> direction option \<Rightarrow> int \<Rightarrow> int list \<Rightarrow> direction list" where
  "crossings S cap last_dir prev [] = []"
| "crossings S cap last_dir prev (n # ns) =
     (case crossing S cap last_dir prev n of
        None \<Rightarrow> crossings S cap last_dir n ns
      | Some d \<Rightarrow> d # crossings S cap (Some d) n ns)"

fun alternating :: "direction option \<Rightarrow> direction list \<Rightarrow> bool" where
  "alternating p [] = True"
| "alternating p (d # ds) = (p \<noteq> Some d \<and> alternating (Some d) ds)"

lemma crossings_alternate: "alternating last_dir (crossings S cap last_dir prev ns)"
  by (induction ns arbitrary: last_dir prev) (auto split: option.split dest: crossing_direction)

definition dir_after :: "direction option \<Rightarrow> direction list \<Rightarrow> direction option" where
  "dir_after d ds = (if ds = [] then d else Some (last ds))"

lemma dir_after_simps [simp]: "dir_after d [] = d" "dir_after d (x # ds) = dir_after (Some x) ds"
  by (simp_all add: dir_after_def)

text \<open>The direction on record agrees with the count outside the dead band.\<close>

definition band_ok :: "infer_settings \<Rightarrow> int \<Rightarrow> direction option \<Rightarrow> int \<Rightarrow> bool" where
  "band_ok S cap d n \<longleftrightarrow>
     (rising_at S cap \<le> of_int n \<longrightarrow> d = Some Rising) \<and> (of_int n \<le> falling_at S cap \<longrightarrow> d \<noteq> Some Rising)"

lemma band_order: "0 < is_deadband S \<Longrightarrow> falling_at S cap < rising_at S cap"
  by (simp add: falling_at_def rising_at_def)

lemma band_step:
  assumes "0 < is_deadband S" "band_ok S cap d prev"
  shows "band_ok S cap (dir_after d (case crossing S cap d prev n of None \<Rightarrow> [] | Some x \<Rightarrow> [x])) n"
  using band_order [OF assms(1), of cap] assms(2) by (auto simp: band_ok_def crossing_def)

lemma band_run:
  assumes "0 < is_deadband S"
  shows "band_ok S cap d prev \<Longrightarrow> band_ok S cap (dir_after d (crossings S cap d prev ns)) (last (prev # ns))"
proof (induction ns arbitrary: d prev)
  case Nil
  then show ?case by simp
next
  case (Cons n ns)
  from Cons.IH [OF band_step [OF assms Cons.prems, of n]] show ?case
    by (cases "crossing S cap d prev n") auto
qed

lemma band_start: "0 < rising_at S cap \<Longrightarrow> band_ok S cap None 0"
  by (simp add: band_ok_def)

lemma check_threshold_state:
  assumes "check_threshold E S j now zc car st prev w = (r, zc', w')"
  shows "dget (zc_threshold zc') (car, is_threshold_pct S) =
    dir_after (dget (zc_threshold zc) (car, is_threshold_pct S))
      (case crossing S (os_capacity st) (dget (zc_threshold zc) (car, is_threshold_pct S)) prev (os_count st) of
         None \<Rightarrow> [] | Some x \<Rightarrow> [x])"
  using assms by (auto simp: check_threshold_def Let_def split: option.splits prod.splits)

text \<open>
  The link between an update and the check is the POST before it: when that fails, the
  check is skipped, and the direction on record no longer agrees with the count.
\<close>

lemma failed_post_skips_threshold:
  assumes "post_occupancy_update E S j now (zc_versions zc) st w = (Inl e, w1)"
  shows "update_chain E S j now tick zc car st prev ds cam w = (Inl e, zc, w1)"
  using assms by (simp add: update_chain_def)

section \<open>What an update may send\<close>

definition counter_types :: "event_type set" where
  "counter_types = {OCCUPANCY_UPDATE, OCCUPANCY_THRESHOLD_CROSSED, VESTIBULE_CONGESTION}"

definition counter_paths :: "string set" where
  "counter_paths = {''/candidates/occupancy_update'', ''/candidates/alert_raised''}"

abbreviation counter_sends :: "environment \<Rightarrow> string \<Rightarrow> world \<Rightarrow> world \<Rightarrow> bool" where
  "counter_sends E j \<equiv> adds (infer_own E j counter_types counter_paths)"

lemma post_fusion_adds: "path \<in> ps \<Longrightarrow> adds (infer_own E j ets ps) w (snd (post_fusion E path body w))"
  unfolding post_fusion_def
proof (rule retry_call_invariant)
  let ?P = "infer_own E j ets ps"
  fix w' assume "path \<in> ps" "adds ?P w w'"
  moreover from \<open>path \<in> ps\<close> have "adds ?P w' (snd (http_post E (PostFusion path body) w'))"
    by (intro http_post_adds) (simp add: infer_own_def)
  ultimately show "adds ?P w (snd (case http_post E (PostFusion path body) w' of
      (ok, w') \<Rightarrow> (if ok then Inr () else Inl HTTPError, w')))"
    by (auto split: prod.splits intro: adds_trans)
qed simp

lemma slip_loop_adds:
  "slip_loop E S versions car cam boxes active ds w = (r, boxes', active', w') \<Longrightarrow> counter_sends E j w w'"
proof (induction ds arbitrary: boxes active w)
  case Nil
  then show ?case by simp
next
  case (Cons d ds)
  note IH = Cons.IH
  show ?case
  proof (cases "\<exists>t b. d_track d = Some t \<and> d_bbox d = Some b \<and> d_label d = ''person''")
    case False
    with Cons.prems show ?thesis by (auto split: option.splits if_splits dest: IH)
  next
    case True
    then obtain t b where tb: "d_track d = Some t" "d_bbox d = Some b" "d_label d = ''person''" by blast
    let ?hit = "case dget boxes t of None \<Rightarrow> False | Some p \<Rightarrow> fall_detected S p b"
    obtain r1 w1 where r1: "(if ?hit then post_fusion E ''/candidates/alert_raised''
        (slip_fall_body car t cam (d_confidence d) versions) w else (Inr (), w)) = (r1, w1)" by fastforce
    have g: "counter_sends E j w w1"
      using r1 post_fusion_adds [of "''/candidates/alert_raised''" counter_paths E j counter_types w]
      by (cases ?hit) (auto simp: counter_paths_def, metis snd_conv)
    show ?thesis
    proof (cases r1)
      case (Inl e)
      with Cons.prems tb r1 g show ?thesis by simp
    next
      case (Inr u)
      with Cons.prems tb r1 have "slip_loop E S versions car cam (dset boxes t b) (List.insert t active) ds w1 = (r, boxes', active', w')"
        by simp
      from adds_trans [OF g IH [OF this]] show ?thesis .
    qed
  qed
qed

lemma check_slip_fall_adds:
  assumes "check_slip_fall E S zc car ds cam w = (r, zc', w')"
  shows "counter_sends E j w w' \<and> zc_states zc' = zc_states zc \<and> zc_in_flight zc' = zc_in_flight zc \<and>
    zc_threshold zc' = zc_threshold zc \<and> zc_last_emit zc' = zc_last_emit zc"
proof -
  obtain r1 b1 a1 w1 where s: "slip_loop E S (zc_versions zc) car (str_or cam ''unknown'')
      (dget_or (zc_bboxes zc) (car, str_or cam ''unknown'') []) [] ds w = (r1, b1, a1, w1)"
    by (metis prod_cases4)
  from slip_loop_adds [OF s, of j] s assms show ?thesis
    by (cases r1) (auto simp: check_slip_fall_def Let_def)
qed

lemma check_threshold_adds:
  assumes "env_ok E" "check_threshold E S j now zc car st prev w = (r, zc', w')"
  shows "counter_sends E j w w' \<and> zc_states zc' = zc_states zc \<and> zc_in_flight zc' = zc_in_flight zc \<and>
    zc_last_emit zc' = zc_last_emit zc"
proof (cases "crossing S (os_capacity st) (dget (zc_threshold zc) (car, is_threshold_pct S)) prev (os_count st)")
  case None
  with assms(2) show ?thesis by (simp add: check_threshold_def Let_def)
next
  case (Some dir)
  obtain r1 w1 where em: "emit_event E S j now OCCUPANCY_THRESHOLD_CROSSED (crossed_kwargs S st dir)
      Sev_warning None w = (r1, w1)" by fastforce
  have "counter_sends E j w w1"
    by (rule emit_event_adds_mono [OF assms(1) _ _ em]) (simp_all add: counter_types_def)
  with assms(2) Some em show ?thesis by (auto simp: check_threshold_def Let_def)
qed

lemma check_vestibule_adds:
  assumes "env_ok E" "check_vestibule_congestion E S j now tick zc car n cam w = (r, zc', w')"
  shows "counter_sends E j w w' \<and> zc_states zc' = zc_states zc \<and> zc_in_flight zc' = zc_in_flight zc \<and>
    zc_threshold zc' = zc_threshold zc \<and> zc_last_emit zc' = zc_last_emit zc"
proof -
  have g: "counter_sends E j w w1"
    if "emit_built E S j now VESTIBULE_CONGESTION kw Sev_warning w = (r1, w1)" for kw r1 w1
    by (rule emit_built_adds [OF assms(1) _ that]) (simp add: counter_types_def)
  show ?thesis
    using assms(2) by (auto simp: check_vestibule_congestion_def vestibule_gate_def Let_def
        split: option.splits if_splits bool.splits prod.splits dest: g)
qed

lemma update_chain_frame:
  assumes "env_ok E" "update_chain E S j now tick zc car st prev ds cam w = (r, zc', w')"
  shows "counter_sends E j w w' \<and> zc_states zc' = zc_states zc \<and> zc_in_flight zc' = zc_in_flight zc \<and>
    zc_last_emit zc' = zc_last_emit zc"
proof -
  obtain r1 w1 where p: "post_occupancy_update E S j now (zc_versions zc) st w = (r1, w1)" by fastforce
  have g1: "counter_sends E j w w1"
    using p unfolding post_occupancy_update_def
    by (rule emit_event_adds_mono [OF assms(1), rotated 2]) (simp_all add: counter_types_def counter_paths_def)
  show ?thesis
  proof (cases r1)
    case (Inl e)
    with assms(2) p g1 show ?thesis by (simp add: update_chain_def)
  next
    case (Inr u1)
    obtain r2 zc2 w2 where t: "check_threshold E S j now zc car st prev w1 = (r2, zc2, w2)" by (metis prod_cases3)
    note f2 = check_threshold_adds [OF assms(1) t]
    note g2 = adds_trans [OF g1 conjunct1 [OF f2]]
    show ?thesis
    proof (cases r2)
      case (Inl e)
      with assms(2) p Inr t f2 g2 show ?thesis by (simp add: update_chain_def)
    next
      case (Inr u2)
      obtain r3 zc3 w3 where s: "check_slip_fall E S zc2 car ds cam w2 = (r3, zc3, w3)" by (metis prod_cases3)
      note f3 = check_slip_fall_adds [OF s, of j]
      note g3 = adds_trans [OF g2 conjunct1 [OF f3]]
      show ?thesis
      proof (cases r3)
        case (Inl e)
        with assms(2) p \<open>r1 = Inr u1\<close> t Inr s f2 f3 g3 show ?thesis by (simp add: update_chain_def)
      next
        case (Inr u3)
        with assms(2) p \<open>r1 = Inr u1\<close> t \<open>r2 = Inr u2\<close> s
        have v: "check_vestibule_congestion E S j now tick zc3 car (vestibule_count ds) cam w3 = (r, zc', w')"
          by (simp add: update_chain_def)
        note f4 = check_vestibule_adds [OF assms(1) v]
        from adds_trans [OF g3 conjunct1 [OF f4]] f2 f3 f4 show ?thesis by simp
      qed
    qed
  qed
qed

lemma update_finish_frame:
  assumes "env_ok E" "update_finish E S j now tick zc car prev ds cam w = (r, zc', w')" "dhas (zc_states zc) car"
  shows "counter_sends E j w w' \<and> zc_states zc' = zc_states zc \<and> zc_in_flight zc' = dset (zc_in_flight zc) car False \<and>
    zc_last_emit zc' = zc_last_emit zc"
proof -
  from assms(3) obtain st where st: "dget (zc_states zc) car = Some st" by (auto simp: dhas_iff)
  obtain r1 zc1 w1 where c: "update_chain E S j now tick zc car st prev ds cam w = (r1, zc1, w1)" by (metis prod_cases3)
  from update_chain_frame [OF assms(1) c] assms(2) st c show ?thesis
    by (auto simp: update_finish_def release_def)
qed

section \<open>Interleaved updates\<close>

record counter_system =
  cs_counter :: zone_counter
  cs_jobs :: "(string \<times> int \<times> detection list) list" \<comment> \<open>updates between their two halves\<close>
  cs_world :: world

inductive counter_step :: "environment \<Rightarrow> infer_settings \<Rightarrow> counter_system \<Rightarrow> counter_system \<Rightarrow> bool" for E S where
  begin_skip: "update_begin (cs_counter s) car ds now = (None, zc) \<Longrightarrow>
    counter_step E S s (s\<lparr>cs_counter := zc\<rparr>)"
| begin_go: "update_begin (cs_counter s) car ds now = (Some prev, zc) \<Longrightarrow>
    counter_step E S s (s\<lparr>cs_counter := zc, cs_jobs := (car, prev, ds) # cs_jobs s\<rparr>)"
| finish: "(car, prev, ds) \<in> set (cs_jobs s) \<Longrightarrow>
    update_finish E S j now tick (cs_counter s) car prev ds cam (cs_world s) = (r, zc, w) \<Longrightarrow>
    counter_step E S s (s\<lparr>cs_counter := zc, cs_jobs := remove1 (car, prev, ds) (cs_jobs s), cs_world := w\<rparr>)"

definition counter_start :: "infer_settings \<Rightarrow> counter_system \<Rightarrow> bool" where
  "counter_start S s = (cs_jobs s = [] \<and> (\<exists>cams versions. build_counter S cams versions = Inr (cs_counter s)))"

definition counter_inv :: "counter_system \<Rightarrow> bool" where
  "counter_inv s \<longleftrightarrow> counter_ok (cs_counter s) \<and> distinct (map fst (cs_jobs s)) \<and>
     (\<forall>car. dget_or (zc_in_flight (cs_counter s)) car False = (car \<in> fst ` set (cs_jobs s))) \<and>
     fst ` set (cs_jobs s) \<subseteq> set (dkeys (zc_states (cs_counter s)))"

lemma dget_map_const: "dget_or (map (\<lambda>(c, st). (c, x)) d) k x = x"
  by (induction d) (auto simp: dget_or_def)

lemma counter_start_inv: "counter_start S s \<Longrightarrow> counter_inv s"
proof -
  assume "counter_start S s"
  then obtain cams versions where j: "cs_jobs s = []" and b: "build_counter S cams versions = Inr (cs_counter s)"
    by (auto simp: counter_start_def)
  from b have "\<exists>sts. zc_in_flight (cs_counter s) = map (\<lambda>(c, st :: occupancy_state). (c, False)) sts"
    by (cases "build_states S cams []") (auto simp: build_counter_def intro: zone_counter.select_convs dest!: sym [of _ "cs_counter s"])
  with build_counter_ok [OF b] j show ?thesis by (auto simp: counter_inv_def dget_map_const)
qed

lemma job_removed:
  assumes "distinct (map fst js)" "(car, x) \<in> set js"
  shows "fst ` set (remove1 (car, x) js) = fst ` set js - {car}"
  using assms by (induction js) (auto split: if_splits, force+)

lemma distinct_remove1_fst: "distinct (map fst js) \<Longrightarrow> distinct (map fst (remove1 x js))"
proof (induction js)
  case (Cons y js)
  moreover have "set (remove1 x js) \<subseteq> set js" by (rule set_remove1_subset)
  ultimately show ?case by auto
qed simp

lemma counter_step_inv:
  assumes "env_ok E" "counter_inv s" "counter_step E S s t"
  shows "counter_inv t"
  using assms(3)
proof cases
  case (begin_skip car ds now zc)
  with update_begin_frame [OF begin_skip(2)] assms(2) show ?thesis by (simp add: counter_inv_def)
next
  case (begin_go car ds now prev zc)
  have ok: "counter_ok zc"
    using update_begin_counter_ok [OF _ begin_go(2)] assms(2) by (simp add: counter_inv_def)
  from begin_go(2) obtain st where st: "dget (zc_states (cs_counter s)) car = Some st"
    "\<not> dget_or (zc_in_flight (cs_counter s)) car False"
    "zc_states zc = dset (zc_states (cs_counter s)) car (count_people st ds)"
    "zc_in_flight zc = dset (zc_in_flight (cs_counter s)) car True"
    by (auto elim: update_begin_Some)
  with ok assms(2) begin_go(1) show ?thesis
    by (auto simp: counter_inv_def dkeys_dset)
next
  case (finish car prev ds j now tick cam r zc w)
  from assms(2) have inv: "counter_ok (cs_counter s)" "distinct (map fst (cs_jobs s))"
    "\<And>c. dget_or (zc_in_flight (cs_counter s)) c False = (c \<in> fst ` set (cs_jobs s))"
    "fst ` set (cs_jobs s) \<subseteq> set (dkeys (zc_states (cs_counter s)))"
    by (auto simp: counter_inv_def)
  from finish(2) inv(4) have "dhas (zc_states (cs_counter s)) car" by (force simp: dhas_def)
  note f = update_finish_frame [OF assms(1) finish(3) this]
  have "counter_ok zc" using inv(1) f by (simp add: counter_ok_def)
  with f finish(1) inv job_removed [OF inv(2) finish(2)] show ?thesis
    by (auto simp: counter_inv_def distinct_remove1_fst)
qed

definition counter_next :: "environment \<Rightarrow> infer_settings \<Rightarrow> counter_system \<Rightarrow> counter_system \<Rightarrow> bool" where
  "counter_next E S s t = (env_ok E \<and> counter_step E S s t)"

interpretation counter: invariant_system "counter_start S" "counter_next E S" counter_inv for E S
  by unfold_locales (auto simp: counter_next_def intro: counter_start_inv counter_step_inv)

section \<open>Vestibule and slip-fall facts\<close>

lemma congestion_score_bounds: "0 \<le> n \<Longrightarrow> 0 \<le> congestion_score S n \<and> congestion_score S n \<le> 1"
  by (simp add: congestion_score_def)

lemma fall_needs_drop: "fall_detected S b b = False" if "0 \<le> is_fall_velocity S"
  using that by (cases b) (simp add: fall_detected_def Let_def)

end
