(* ===== verification/Infer_Control.thy ===== *)
theory Infer_Control
  imports Infer_Callback Infer_Counter_Facts
begin

text \<open>
  The control side of the inference container: the throttle (\<open>budget.py\<close>), the context
  push and the readiness answer (\<open>health.py\<close>), the heartbeat (\<open>heartbeat.py\<close>), the
  ramp event (\<open>safety.py\<close>), the model provenance (\<open>model_provenance.py\<close>) and the
  wiring of one callback per camera (\<open>main.py\<close>).
\<close>

section \<open>Throttle and context push\<close>

definition on_context_update :: "bool \<Rightarrow> jdict \<Rightarrow> bool" where
  "on_context_update throttled payload =
     (case dget_or payload ''p2_throttled'' (JBool False) of JBool b \<Rightarrow> b | _ \<Rightarrow> throttled)"

record infer_push =
  ip_throttled :: bool
  ip_journey :: "string option"
  ip_ramp :: bool
  ip_door :: "string option"
  ip_station :: "string option"

definition strict_bool :: "jdict \<Rightarrow> string \<Rightarrow> bool option" where
  "strict_bool d k = (case dget d k of None \<Rightarrow> Some False | Some (JBool b) \<Rightarrow> Some b | Some _ \<Rightarrow> None)"

definition strict_opt_str :: "jdict \<Rightarrow> string \<Rightarrow> string option option" where
  "strict_opt_str d k =
     (case dget d k of
        None \<Rightarrow> Some None | Some JNull \<Rightarrow> Some None | Some (JStr s) \<Rightarrow> Some (Some s) | Some _ \<Rightarrow> None)"

text \<open>\<open>ContextPushModel\<close>: strict types, unknown keys ignored, booleans default to False.\<close>

definition parse_infer_push :: "jdict \<Rightarrow> infer_push option" where
  "parse_infer_push d =
     (case (strict_bool d ''p2_throttled'', strict_opt_str d ''journey_id'', strict_bool d ''ramp_deployed'',
            strict_opt_str d ''ramp_door_id'', strict_opt_str d ''ramp_station_id'') of
        (Some t, Some j, Some r, Some dr, Some st) \<Rightarrow>
          Some \<lparr>ip_throttled = t, ip_journey = j, ip_ramp = r, ip_door = dr, ip_station = st\<rparr>
      | _ \<Rightarrow> None)"

text \<open>\<open>model_dump(exclude_none=True)\<close>.\<close>

definition dump_infer_push :: "infer_push \<Rightarrow> jdict" where
  "dump_infer_push p =
     (''p2_throttled'', JBool (ip_throttled p)) #
     (case ip_journey p of None \<Rightarrow> [] | Some j \<Rightarrow> [(''journey_id'', JStr j)]) @
     (''ramp_deployed'', JBool (ip_ramp p)) #
     (case ip_door p of None \<Rightarrow> [] | Some j \<Rightarrow> [(''ramp_door_id'', JStr j)]) @
     (case ip_station p of None \<Rightarrow> [] | Some j \<Rightarrow> [(''ramp_station_id'', JStr j)])"

record infer_control =
  ic_throttled :: bool
  ic_journey :: string

text \<open>The handler: the new state, and the ramp event it schedules when a loop is up.\<close>

definition infer_context_push :: "bool \<Rightarrow> infer_push \<Rightarrow> infer_control \<Rightarrow> (string \<times> string) option \<times> infer_control" where
  "infer_context_push loop_up p ic =
     (let ic' = ic\<lparr>ic_throttled := on_context_update (ic_throttled ic) (dump_infer_push p),
                   ic_journey := keep_or (ip_journey p) (ic_journey ic)\<rparr>
      in (if ip_ramp p \<and> loop_up
          then Some (str_or (ip_door p) ''unknown'', str_or (ip_station p) ''unknown'') else None, ic'))"

definition health_ready :: "bool list \<Rightarrow> string \<times> int" where
  "health_ready readiness =
     (let n = length (filter id readiness)
      in if n = length readiness \<and> length readiness > 0 then (''ready'', 200)
         else if n > 0 then (''degraded'', 200)
         else (''not_ready'', 503))"

section \<open>The ramp event\<close>

definition infer_ramp_kwargs :: "infer_settings \<Rightarrow> string \<Rightarrow> string \<Rightarrow> jdict" where
  "infer_ramp_kwargs S door station =
     [(''car_id'', JStr (is_vehicle_id S)), (''door_id'', JStr (str_or (Some door) ''unknown'')),
      (''triggered_by_track_id'', JStr ''unknown''), (''deployed_by'', JStr ''auto''),
      (''station_id'', JStr (str_or (Some station) ''unknown''))]"

definition on_ramp_deployed ::
  "environment \<Rightarrow> infer_settings \<Rightarrow> string \<Rightarrow> clock \<Rightarrow> string \<Rightarrow> string \<Rightarrow> world \<Rightarrow> unit res \<times> world" where
  "on_ramp_deployed E S j now door station =
     emit_built E S j now RAMP_DEPLOYED (infer_ramp_kwargs S door station) Sev_warning"

section \<open>The heartbeat\<close>

record heartbeat =
  hb_frames :: int
  hb_last_at :: datetime

definition record_frames :: "heartbeat \<Rightarrow> int \<Rightarrow> datetime \<Rightarrow> heartbeat" where
  "record_frames hb n now = hb\<lparr>hb_frames := hb_frames hb + n, hb_last_at := now\<rparr>"

definition heartbeat_kwargs ::
  "infer_settings \<Rightarrow> (string, string) dict \<Rightarrow> int \<Rightarrow> datetime \<Rightarrow> bool \<Rightarrow> jdict" where
  "heartbeat_kwargs S versions frames last_at ok =
     [(''train_id'', JStr (is_vehicle_id S)), (''model_versions'', jstrs versions),
      (''frames_processed_window'', JInt frames), (''last_inference_at'', JStr (serialize_utc last_at)),
      (''hailo_device_ok'', JBool ok)]"

text \<open>
  \<open>emit_once\<close>: the snapshot under the lock, one attempt that swallows every failure, the
  reset. Frames may be recorded between the snapshot and the reset.
\<close>

definition heartbeat_send ::
  "environment \<Rightarrow> infer_settings \<Rightarrow> string \<Rightarrow> clock \<Rightarrow> (string, string) dict \<Rightarrow> bool list \<Rightarrow> heartbeat \<Rightarrow> world \<Rightarrow>
   bool \<times> world" where
  "heartbeat_send E S j now versions readiness snap w =
     (case emit_attempt E S j now INFERENCE_HEARTBEAT
             (heartbeat_kwargs S versions (hb_frames snap) (hb_last_at snap) (list_ex id readiness)) Sev_info None w of
        (Inl e, w') \<Rightarrow> (False, w')
      | (Inr u, w') \<Rightarrow> (True, w'))"

definition heartbeat_settle :: "heartbeat \<Rightarrow> heartbeat \<Rightarrow> bool \<Rightarrow> heartbeat" where
  "heartbeat_settle hb snap ok = (if ok then hb\<lparr>hb_frames := hb_frames hb - hb_frames snap\<rparr> else hb)"

section \<open>Model provenance\<close>

definition path_name :: "string \<Rightarrow> string" where
  "path_name p = last (split_on CHR ''/'' p)"

definition compute_model_versions ::
  "(string \<Rightarrow> string) \<Rightarrow> infer_settings \<Rightarrow> string \<Rightarrow> bool \<Rightarrow> string option \<Rightarrow> string option \<Rightarrow> string list option \<Rightarrow>
   (string, string) dict option \<Rightarrow> (string, string) dict res" where
  "compute_model_versions sha S hef_path have_hef hef labels groups cached =
     (case cached of
        Some v \<Rightarrow> Inr v
      | None \<Rightarrow>
          bind_res (guard (is_git_sha S \<noteq> []) RuntimeError) (\<lambda>_.
          bind_res (guard have_hef RuntimeError) (\<lambda>_.
          bind_res (of_opt RuntimeError hef) (\<lambda>hef_bytes.
          bind_res (of_opt RuntimeError labels) (\<lambda>label_bytes.
          bind_res (of_opt RuntimeError groups) (\<lambda>gs.
          bind_res (guard (gs \<noteq> []) RuntimeError) (\<lambda>_.
            Inr [(''detector_arch'', hd gs),
                 (''detector_hef'', path_name hef_path @ ''@'' @ take 12 (sha hef_bytes)),
                 (''detector_code'', ''git:'' @ take 8 (is_git_sha S)),
                 (''detector_labels'', ''labels@'' @ take 12 (sha label_bytes))])))))))"

section \<open>Wiring\<close>

record camera_config =
  cc_cam :: camera
  cc_priority :: string
  cc_seat_zones :: "zone_mask list"
  cc_vestibule :: "zone_mask option"
  cc_polygon :: "point list option"
  cc_from :: "string option"
  cc_to :: "string option"
  cc_axis :: "string option"
  cc_traversal :: "string option"

definition gangway_of :: "camera_config \<Rightarrow> gangway_camera" where
  "gangway_of cc =
     \<lparr>gc_camera_id = cam_id (cc_cam cc), gc_zone = keep_or (cam_zone (cc_cam cc)) [], gc_polygon = cc_polygon cc,
      gc_from = cc_from cc, gc_to = cc_to cc, gc_axis = cc_axis cc, gc_traversal = cc_traversal cc\<rparr>"

definition zone_masks_for_camera :: "camera_config \<Rightarrow> zone_mask list res" where
  "zone_masks_for_camera cc = (if cc_seat_zones cc = [] then Inl SystemExit else Inr (cc_seat_zones cc))"

definition wire_tripwire :: "camera_config \<Rightarrow> tripwire option res" where
  "wire_tripwire cc =
     (if keep_or (cam_zone (cc_cam cc)) [] \<notin> set gangway_zones then Inr None
      else if cc_polygon cc = None \<or> \<not> truthy (cc_from cc) \<or> \<not> truthy (cc_to cc) \<or> \<not> truthy (cc_axis cc)
      then Inl SystemExit
      else map_sum id Some (build_tripwire (gangway_of cc)))"

definition wire_camera ::
  "infer_settings \<Rightarrow> (string, string list) dict \<Rightarrow> (string, string) dict \<Rightarrow> camera_config \<Rightarrow>
   (callback \<times> tripwire option) res" where
  "wire_camera S doors versions cc =
     bind_res (zone_masks_for_camera cc) (\<lambda>masks.
     bind_res (wire_tripwire cc) (\<lambda>tw.
     bind_res (build_callback S (cc_cam cc) (cc_priority cc) masks (cc_vestibule cc) doors versions (tw \<noteq> None)) (\<lambda>cb.
       Inr (cb, tw))))"

fun wire_cameras ::
  "infer_settings \<Rightarrow> (string, string list) dict \<Rightarrow> (string, string) dict \<Rightarrow> camera_config list \<Rightarrow>
   (callback \<times> tripwire option) list res" where
  "wire_cameras S doors versions [] = Inr []"
| "wire_cameras S doors versions (cc # ccs) =
     bind_res (wire_camera S doors versions cc) (\<lambda>c.
     bind_res (wire_cameras S doors versions ccs) (\<lambda>cs. Inr (c # cs)))"

text \<open>\<open>zip(cameras, readiness, strict=True)\<close> raises once the shorter list is used up.\<close>

definition wire ::
  "infer_settings \<Rightarrow> (string, string list) dict \<Rightarrow> (string, string) dict \<Rightarrow> camera_config list \<Rightarrow> nat \<Rightarrow>
   (zone_counter \<times> (callback \<times> tripwire option) list) res" where
  "wire S doors versions ccs holders =
     bind_res (build_counter S (map cc_cam ccs) versions) (\<lambda>zc.
     bind_res (wire_cameras S doors versions (take holders ccs)) (\<lambda>cs.
     bind_res (guard (length ccs = holders) ValueError) (\<lambda>_. Inr (zc, cs))))"

definition load_cameras :: "camera_config list \<Rightarrow> camera_config list res" where
  "load_cameras ccs = (if ccs = [] then Inl SystemExit else Inr ccs)"

section \<open>Facts\<close>

lemma parse_dump_infer_push: "parse_infer_push (dump_infer_push p) = Some p"
  by (cases "ip_journey p"; cases "ip_door p"; cases "ip_station p")
    (simp_all add: parse_infer_push_def dump_infer_push_def strict_bool_def strict_opt_str_def)

lemma push_sets_throttle: "on_context_update t (dump_infer_push p) = ip_throttled p"
  by (simp add: on_context_update_def dump_infer_push_def dget_or_def)

lemma omitted_throttle_resets:
  assumes "parse_infer_push d = Some p" "\<not> dhas d ''p2_throttled''"
  shows "\<not> ic_throttled (snd (infer_context_push loop_up p ic))"
proof -
  from assms(2) have "strict_bool d ''p2_throttled'' = Some False"
    by (simp add: strict_bool_def dhas_iff)
  with assms(1) have "ip_throttled p = False"
    by (auto simp: parse_infer_push_def split: option.splits)
  then show ?thesis by (simp add: infer_context_push_def Let_def push_sets_throttle)
qed

lemma health_ready_cases:
  "fst (health_ready rs) = ''ready'' \<longleftrightarrow> rs \<noteq> [] \<and> list_all id rs"
  "snd (health_ready rs) = 503 \<longleftrightarrow> \<not> list_ex id rs"
proof -
  have n: "length (filter id rs) = length rs \<longleftrightarrow> list_all id rs"
  proof (induction rs)
    case (Cons x rs)
    have "length (filter (\<lambda>a. a) rs) \<noteq> Suc (length rs)"
      by (metis Suc_n_not_le_n length_filter_le)
    with Cons show ?case by simp
  qed simp
  have z: "0 < length (filter id rs) \<longleftrightarrow> list_ex id rs"
    by (auto simp: list_ex_iff filter_empty_conv)
  show "fst (health_ready rs) = ''ready'' \<longleftrightarrow> rs \<noteq> [] \<and> list_all id rs"
    using n by (auto simp: health_ready_def Let_def)
  show "snd (health_ready rs) = 503 \<longleftrightarrow> \<not> list_ex id rs"
    using z by (auto simp: health_ready_def Let_def)
qed

subsection \<open>Frames are neither lost nor reported twice\<close>

record heartbeat_system =
  hs_hb :: heartbeat
  hs_snap :: "heartbeat option" \<comment> \<open>the snapshot of the emit under way\<close>
  hs_recorded :: int
  hs_reported :: int
  hs_world :: world

inductive heartbeat_step ::
  "environment \<Rightarrow> infer_settings \<Rightarrow> heartbeat_system \<Rightarrow> heartbeat_system \<Rightarrow> bool" for E S where
  hb_frame: "heartbeat_step E S s (s\<lparr>hs_hb := record_frames (hs_hb s) 1 now, hs_recorded := hs_recorded s + 1\<rparr>)"
| hb_begin: "hs_snap s = None \<Longrightarrow> heartbeat_step E S s (s\<lparr>hs_snap := Some (hs_hb s)\<rparr>)"
| hb_end: "hs_snap s = Some snap \<Longrightarrow> heartbeat_send E S j now versions readiness snap (hs_world s) = (ok, w) \<Longrightarrow>
    heartbeat_step E S s (s\<lparr>hs_hb := heartbeat_settle (hs_hb s) snap ok, hs_snap := None,
      hs_reported := hs_reported s + (if ok then hb_frames snap else 0), hs_world := w\<rparr>)"

definition heartbeat_start :: "heartbeat_system \<Rightarrow> bool" where
  "heartbeat_start s = (hb_frames (hs_hb s) = 0 \<and> hs_snap s = None \<and> hs_recorded s = 0 \<and> hs_reported s = 0)"

definition heartbeat_inv :: "heartbeat_system \<Rightarrow> bool" where
  "heartbeat_inv s \<longleftrightarrow> hs_reported s + hb_frames (hs_hb s) = hs_recorded s \<and> 0 \<le> hb_frames (hs_hb s) \<and>
     (case hs_snap s of None \<Rightarrow> True | Some h \<Rightarrow> 0 \<le> hb_frames h \<and> hb_frames h \<le> hb_frames (hs_hb s))"

interpretation heartbeats: invariant_system heartbeat_start "heartbeat_step E S" heartbeat_inv for E S
proof
  show "heartbeat_inv s" if "heartbeat_start s" for s
    using that by (simp add: heartbeat_start_def heartbeat_inv_def)
  show "heartbeat_inv t" if "heartbeat_inv s" "heartbeat_step E S s t" for s t
    using that(2,1) by cases
      (auto simp: heartbeat_inv_def record_frames_def heartbeat_settle_def split: option.splits)
qed

subsection \<open>Wiring fails closed\<close>

lemma compute_model_versions_ok:
  assumes "compute_model_versions sha S path have_hef hef labels groups None = Inr v"
  shows "dkeys v = [''detector_arch'', ''detector_hef'', ''detector_code'', ''detector_labels''] \<and>
    is_git_sha S \<noteq> [] \<and> have_hef \<and> hef \<noteq> None \<and> labels \<noteq> None"
  using assms by (auto simp: compute_model_versions_def res_iff dkeys_def)

lemma build_tripwire_ok:
  "build_tripwire cam = Inr tw \<Longrightarrow> tw_zone tw = gc_zone cam \<and> gc_zone cam \<in> set gangway_zones \<and>
     tc_from (tw_config tw) \<noteq> [] \<and> tc_to (tw_config tw) \<noteq> [] \<and>
     tc_traversal (tw_config tw) \<in> {''from_to'', ''to_from''}"
  by (cases "gc_from cam"; cases "gc_to cam"; cases "gc_axis cam")
    (auto simp: build_tripwire_def Let_def res_iff)

lemma wire_tripwire_ok:
  "wire_tripwire cc = Inr tw \<Longrightarrow> (tw \<noteq> None) = (keep_or (cam_zone (cc_cam cc)) [] \<in> set gangway_zones) \<and>
     (\<forall>t. tw = Some t \<longrightarrow> build_tripwire (gangway_of cc) = Inr t)"
  by (cases "build_tripwire (gangway_of cc)") (auto simp: wire_tripwire_def split: if_splits)

lemma wire_camera_ok:
  assumes "wire_camera S doors versions cc = Inr (cb, tw)"
  shows "cb_zone_masks cb \<noteq> [] \<and> cb_has_tripwire cb = (tw \<noteq> None) \<and> cb_camera_id cb = cam_id (cc_cam cc) \<and>
    (is_gangway cb \<longleftrightarrow> tw \<noteq> None) \<and> (\<forall>t. tw = Some t \<longrightarrow> tw_zone t = cb_zone cb \<and>
      tc_from (tw_config t) \<noteq> [] \<and> tc_to (tw_config t) \<noteq> [])"
proof -
  from assms obtain masks where m: "zone_masks_for_camera cc = Inr masks" and t: "wire_tripwire cc = Inr tw"
    and c: "build_callback S (cc_cam cc) (cc_priority cc) masks (cc_vestibule cc) doors versions (tw \<noteq> None) = Inr cb"
    by (auto simp: wire_camera_def res_iff)
  from c have cb: "cb_zone_masks cb \<noteq> []" "cb_has_tripwire cb = (tw \<noteq> None)" "cb_camera_id cb = cam_id (cc_cam cc)"
    "cb_zone cb = keep_or (cam_zone (cc_cam cc)) ''interior''"
    by (auto simp: build_callback_def res_iff)
  note tw = wire_tripwire_ok [OF t]
  have z: "keep_or (cam_zone (cc_cam cc)) [] \<in> set gangway_zones \<longleftrightarrow> cb_zone cb \<in> set gangway_zones"
    by (cases "cam_zone (cc_cam cc)") (auto simp: cb(4) gangway_zones_def)
  have "tw_zone u = cb_zone cb \<and> tc_from (tw_config u) \<noteq> [] \<and> tc_to (tw_config u) \<noteq> []" if "tw = Some u" for u
  proof -
    from tw that have b: "build_tripwire (gangway_of cc) = Inr u" by simp
    have "keep_or (cam_zone (cc_cam cc)) [] = cb_zone cb"
      using tw that by (cases "cam_zone (cc_cam cc)") (auto simp: cb(4) gangway_zones_def)
    with build_tripwire_ok [OF b] show ?thesis by (simp add: gangway_of_def)
  qed
  with cb(1-3) tw z show ?thesis by (auto simp: is_gangway_def)
qed

lemma wire_cameras_ok:
  "wire_cameras S doors versions ccs = Inr cs \<Longrightarrow>
     list_all2 (\<lambda>cc c. wire_camera S doors versions cc = Inr c) ccs cs"
  by (induction ccs arbitrary: cs) (auto simp: res_iff)

lemma wire_ok:
  assumes "wire S doors versions ccs holders = Inr (zc, cs)"
  shows "counter_ok zc \<and> length cs = length ccs \<and> length ccs = holders \<and>
    list_all2 (\<lambda>cc c. wire_camera S doors versions cc = Inr c) ccs cs"
  using assms list_all2_lengthD [OF wire_cameras_ok, of S doors versions ccs cs] wire_cameras_ok [of S doors versions ccs cs]
  by (auto simp: wire_def res_iff dest: build_counter_ok)

end
