(* ===== verification/Fusion_State.thy ===== *)
theory Fusion_State
  imports Shared_Interfaces
begin

text \<open>
  The state of the fusion container that the context pushes maintain:
  \<open>fusion/src/fusion/models.py\<close> (the push), \<open>config.py\<close> (the settings) and
  \<open>context_state.py\<close> (the snapshot, its edge detectors, the door and coach lookups and
  the log of recent accessibility tracks).
\<close>

section \<open>Settings and the push model\<close>

record fusion_settings =
  fs_vehicle_id :: string
  fs_schema_version :: int
  fs_recent_window :: rat \<comment> \<open>\<open>accessibility_recent_window_s\<close>\<close>
  fs_calibration_threshold :: rat
  fs_drift_threshold :: int
  fs_bucket_size :: int
  fs_pct_threshold :: rat \<comment> \<open>\<open>comfort_index_pct_threshold\<close>\<close>

definition default_settings :: fusion_settings where
  "default_settings = \<lparr>fs_vehicle_id = ''OBB-TEST'', fs_schema_version = 1, fs_recent_window = 60,
     fs_calibration_threshold = 1 / 10, fs_drift_threshold = 3, fs_bucket_size = 3,
     fs_pct_threshold = 1 / 10\<rparr>"

text \<open>The bounds the settings declare with \<open>Field(ge=..., le=...)\<close>.\<close>

definition settings_ok :: "fusion_settings \<Rightarrow> bool" where
  "settings_ok S = (0 \<le> fs_drift_threshold S \<and> 1 \<le> fs_bucket_size S \<and>
     0 \<le> fs_pct_threshold S \<and> fs_pct_threshold S \<le> 1)"

text \<open>
  \<open>ContextPushModel\<close>: every field is optional, absent meaning keep. \<open>pis\<close> is the
  nested object with its own optional departure. The three fields that are accepted and
  ignored (\<open>trip_number\<close>, \<open>alarms\<close>, \<open>occupancy\<close>) have no component.
\<close>

record context_push =
  pu_journey_id :: "string option"
  pu_vehicle_id :: "string option"
  pu_speed_kmh :: "rat option"
  pu_station_approach :: "bool option"
  pu_maintenance_mode :: "bool option"
  pu_depot_mode :: "bool option"
  pu_gps_valid :: "bool option"
  pu_door_release :: "(string, bool) dict option"
  pu_door_state :: "(string, string) dict option"
  pu_reservations :: "(string, int) dict option"
  pu_consist :: "(string, string) dict option"
  pu_ramp_deployed :: "bool option"
  pu_ramp_door_id :: "string option"
  pu_ramp_station_id :: "string option"
  pu_door_firmware_version :: "string option"
  pu_pis :: "string option option"

definition empty_push :: context_push where
  "empty_push = \<lparr>pu_journey_id = None, pu_vehicle_id = None, pu_speed_kmh = None,
     pu_station_approach = None, pu_maintenance_mode = None, pu_depot_mode = None,
     pu_gps_valid = None, pu_door_release = None, pu_door_state = None, pu_reservations = None,
     pu_consist = None, pu_ramp_deployed = None, pu_ramp_door_id = None,
     pu_ramp_station_id = None, pu_door_firmware_version = None, pu_pis = None\<rparr>"

text \<open>The keys \<open>ContextPushModel\<close> declares; \<open>extra="forbid"\<close> rejects any other.\<close>

definition context_push_keys :: "string list" where
  "context_push_keys = [''journey_id'', ''vehicle_id'', ''speed_kmh'', ''station_approach'',
     ''maintenance_mode'', ''depot_mode'', ''gps_valid'', ''door_release'', ''door_state'',
     ''reservations'', ''consist'', ''ramp_deployed'', ''ramp_door_id'', ''ramp_station_id'',
     ''door_firmware_version'', ''pis'', ''trip_number'', ''alarms'', ''occupancy'']"

definition context_push_accepts :: "jdict \<Rightarrow> bool" where
  "context_push_accepts body = (set (dkeys body) \<subseteq> set context_push_keys)"

section \<open>The snapshot\<close>

record context_state =
  c_journey_id :: "string option"
  c_vehicle_id :: "string option"
  c_speed_kmh :: "rat option"
  c_station_approach :: bool
  c_scheduled_departure :: "string option"
  c_maintenance_mode :: bool
  c_depot_mode :: bool
  c_gps_valid :: bool
  c_door_release :: "(string, bool) dict"
  c_door_state :: "(string, string) dict"
  c_reservations :: "(string, int) dict"
  c_consist :: "(string, string) dict"
  c_door_firmware_version :: string
  c_ramp_deployed :: bool
  c_prev_station_approach :: bool
  c_recent_accessibility :: "(string, (string, string \<times> rat) dict) dict"

definition init_context :: context_state where
  "init_context = \<lparr>c_journey_id = None, c_vehicle_id = None, c_speed_kmh = None,
     c_station_approach = False, c_scheduled_departure = None, c_maintenance_mode = False,
     c_depot_mode = False, c_gps_valid = True, c_door_release = [], c_door_state = [],
     c_reservations = [], c_consist = [], c_door_firmware_version = ''unknown'',
     c_ramp_deployed = False, c_prev_station_approach = False, c_recent_accessibility = []\<rparr>"

text \<open>The departure after a push: a non-empty one replaces, a journey change clears.\<close>

definition next_departure :: "string option option \<Rightarrow> bool \<Rightarrow> string option \<Rightarrow> string option" where
  "next_departure pis journey_changed old =
     (let new_dep = (case pis of None \<Rightarrow> None | Some d \<Rightarrow> d)
      in if truthy new_dep then new_dep else if journey_changed then None else old)"

definition update_from_push :: "context_state \<Rightarrow> context_push \<Rightarrow> context_state" where
  "update_from_push c m =
     (let journey = keep_some (pu_journey_id m) (c_journey_id c) in
      c\<lparr>c_journey_id := journey,
        c_vehicle_id := keep_some (pu_vehicle_id m) (c_vehicle_id c),
        c_speed_kmh := keep_some (pu_speed_kmh m) (c_speed_kmh c),
        c_station_approach := keep_or (pu_station_approach m) (c_station_approach c),
        c_maintenance_mode := keep_or (pu_maintenance_mode m) (c_maintenance_mode c),
        c_depot_mode := keep_or (pu_depot_mode m) (c_depot_mode c),
        c_gps_valid := keep_or (pu_gps_valid m) (c_gps_valid c),
        c_door_release := keep_or (pu_door_release m) (c_door_release c),
        c_door_state := keep_or (pu_door_state m) (c_door_state c),
        c_reservations := keep_or (pu_reservations m) (c_reservations c),
        c_consist := keep_or (pu_consist m) (c_consist c),
        c_door_firmware_version := keep_or (pu_door_firmware_version m) (c_door_firmware_version c),
        c_scheduled_departure :=
          next_departure (pu_pis m) (journey \<noteq> c_journey_id c) (c_scheduled_departure c)\<rparr>)"

section \<open>Edges\<close>

definition observe_ramp_signal :: "context_state \<Rightarrow> bool \<Rightarrow> bool \<times> context_state" where
  "observe_ramp_signal c b = (\<not> c_ramp_deployed c \<and> b, c\<lparr>c_ramp_deployed := b\<rparr>)"

definition observe_station_approach_edge :: "context_state \<Rightarrow> bool \<times> context_state" where
  "observe_station_approach_edge c =
     (\<not> c_prev_station_approach c \<and> c_station_approach c,
      c\<lparr>c_prev_station_approach := c_station_approach c\<rparr>)"

definition peek_station_approach_edge :: "context_state \<Rightarrow> bool" where
  "peek_station_approach_edge c = (\<not> c_prev_station_approach c \<and> c_station_approach c)"

definition consume_station_approach_edge :: "context_state \<Rightarrow> context_state" where
  "consume_station_approach_edge c = c\<lparr>c_prev_station_approach := c_station_approach c\<rparr>"

text \<open>The contract of a rising-edge detector, and what it means over a run of signals.\<close>

fun observe_all :: "('s \<Rightarrow> bool \<Rightarrow> bool \<times> 's) \<Rightarrow> 's \<Rightarrow> bool list \<Rightarrow> bool list" where
  "observe_all obs s [] = []"
| "observe_all obs s (b # bs) = (case obs s b of (e, s') \<Rightarrow> e # observe_all obs s' bs)"

fun rising_edges :: "bool \<Rightarrow> bool list \<Rightarrow> bool list" where
  "rising_edges p [] = []"
| "rising_edges p (b # bs) = (\<not> p \<and> b) # rising_edges b bs"

locale edge_detector =
  fixes prior :: "'s \<Rightarrow> bool" and observe :: "'s \<Rightarrow> bool \<Rightarrow> bool \<times> 's"
  assumes fires: "fst (observe s b) \<longleftrightarrow> \<not> prior s \<and> b"
    and prior_next: "prior (snd (observe s b)) = b"
begin

lemma observe_run: "observe_all observe s bs = rising_edges (prior s) bs"
proof (induction bs arbitrary: s)
  case Nil
  show ?case by simp
next
  case (Cons b bs)
  obtain e s' where o: "observe s b = (e, s')" by fastforce
  have "e = (\<not> prior s \<and> b)" using fires [of s b] o by simp
  moreover have "prior s' = b" using prior_next [of s b] o by simp
  ultimately show ?case using Cons.IH [of s'] o by simp
qed

lemma stuck_signal_once:
  "\<not> prior s \<Longrightarrow> observe_all observe s (replicate (Suc n) True) = True # replicate n False"
proof -
  assume "\<not> prior s"
  moreover have "rising_edges True (replicate n True) = replicate n False"
    by (induction n) auto
  ultimately show ?thesis by (simp add: observe_run del: observe_all.simps)
qed

end

interpretation ramp: edge_detector c_ramp_deployed observe_ramp_signal
  by unfold_locales (simp_all add: observe_ramp_signal_def)

definition observe_station :: "context_state \<Rightarrow> bool \<Rightarrow> bool \<times> context_state" where
  "observe_station c b = observe_station_approach_edge (c\<lparr>c_station_approach := b\<rparr>)"

interpretation station: edge_detector c_prev_station_approach observe_station
  by unfold_locales (simp_all add: observe_station_def observe_station_approach_edge_def)

section \<open>Coach and door lookups\<close>

definition door_key :: "string \<Rightarrow> string \<Rightarrow> string" where
  "door_key car door = car @ '':'' @ door"

definition resolve_car_id :: "context_state \<Rightarrow> string \<Rightarrow> string" where
  "resolve_car_id c idx = str_or (dget (c_consist c) idx) idx"

definition door_state_for :: "context_state \<Rightarrow> string \<Rightarrow> string \<Rightarrow> string" where
  "door_state_for c car door = dget_or (c_door_state c) (door_key car door) ''unknown''"

definition car_candidates :: "context_state \<Rightarrow> string \<Rightarrow> string list" where
  "car_candidates c door =
     map (\<lambda>k. strip_suffix k ('':'' @ door))
       (filter (\<lambda>k. py_endswith k ('':'' @ door)) (dkeys (c_door_state c)))"

definition car_id_for_door :: "context_state \<Rightarrow> string \<Rightarrow> string option" where
  "car_id_for_door c door =
     (case car_candidates c door of
        [] \<Rightarrow> None
      | [x] \<Rightarrow> Some x
      | xs \<Rightarrow> (case filter (\<lambda>x. x \<in> set (map snd (c_consist c))) xs of
                 [y] \<Rightarrow> Some y
               | _ \<Rightarrow> None))"

lemma car_candidates_iff: "x \<in> set (car_candidates c door) \<longleftrightarrow> dhas (c_door_state c) (door_key x door)"
proof
  assume "x \<in> set (car_candidates c door)"
  then obtain k where k: "k \<in> set (dkeys (c_door_state c))" "py_endswith k ('':'' @ door)"
    "x = strip_suffix k ('':'' @ door)"
    by (auto simp: car_candidates_def)
  then have "k = x @ '':'' @ door" using py_endswith_iff by metis
  with k(1) show "dhas (c_door_state c) (door_key x door)"
    by (simp add: dhas_def door_key_def)
next
  assume "dhas (c_door_state c) (door_key x door)"
  moreover have "py_endswith (x @ '':'' @ door) ('':'' @ door)"
    "strip_suffix (x @ '':'' @ door) ('':'' @ door) = x"
    by (rule py_endswith_append, rule strip_suffix_append)
  ultimately show "x \<in> set (car_candidates c door)"
    by (auto simp: car_candidates_def dhas_def door_key_def image_iff
        intro!: bexI [of _ "x @ '':'' @ door"])
qed

section \<open>Recent accessibility tracks\<close>

definition note_accessibility ::
  "context_state \<Rightarrow> string \<Rightarrow> string \<Rightarrow> string \<Rightarrow> rat \<Rightarrow> context_state" where
  "note_accessibility c car door track now =
     c\<lparr>c_recent_accessibility :=
         dset (c_recent_accessibility c) car
           (dset (dget_or (c_recent_accessibility c) car []) door (track, now))\<rparr>"

definition gc_stale :: "(string, string \<times> rat) dict \<Rightarrow> rat \<Rightarrow> rat \<Rightarrow> (string, string \<times> rat) dict" where
  "gc_stale d window now = filter (\<lambda>(k, (t, ts)). \<not> now - ts > window) d"

definition find_recent_accessibility ::
  "context_state \<Rightarrow> string \<Rightarrow> string \<Rightarrow> rat \<Rightarrow> rat \<Rightarrow> string option \<times> context_state" where
  "find_recent_accessibility c car door window now =
     (case dget (c_recent_accessibility c) car of
        None \<Rightarrow> (None, c)
      | Some per_car \<Rightarrow>
          if per_car = [] then (None, c)
          else (let kept = gc_stale per_car window now;
                    c' = c\<lparr>c_recent_accessibility := dset (c_recent_accessibility c) car kept\<rparr>
                in (map_option fst (dget kept door), c')))"

lemma gc_stale_in: "dget (gc_stale d w now) k = Some (t, ts) \<Longrightarrow> now - ts \<le> w \<and> ((k, (t, ts)) \<in> set d)"
  by (auto simp: gc_stale_def dest!: map_of_SomeD)

lemma gc_stale_get:
  assumes "dwf d"
  shows "dget (gc_stale d w now) k =
    (case dget d k of None \<Rightarrow> None | Some (t, ts) \<Rightarrow> if now - ts > w then None else Some (t, ts))"
  using assms
proof (induction d)
  case Nil
  show ?case by (simp add: gc_stale_def)
next
  case (Cons p d)
  obtain k' t ts where p: "p = (k', (t, ts))" by (cases p) auto
  from Cons.prems have "dwf d" and k': "dget d k' = None"
    by (auto simp: p dwf_def dkeys_def map_of_eq_None_iff)
  with Cons.IH have "dget (gc_stale d w now) k =
    (case dget d k of None \<Rightarrow> None | Some (t, ts) \<Rightarrow> if now - ts > w then None else Some (t, ts))"
    by simp
  with k' show ?case by (auto simp: p gc_stale_def)
qed

section \<open>Facts\<close>

lemma next_departure_idem:
  "next_departure pis False (next_departure pis b old) = next_departure pis b old"
  by (simp add: next_departure_def Let_def)

lemma update_from_push_idem: "update_from_push (update_from_push c m) m = update_from_push c m"
  by (simp add: update_from_push_def Let_def next_departure_idem)

lemma update_from_push_empty: "update_from_push c empty_push = c"
  by (simp add: update_from_push_def empty_push_def next_departure_def)

end
