(* ===== verification/Fusion_Enrich.thy ===== *)
theory Fusion_Enrich
  imports Fusion_State
begin

text \<open>
  Envelope construction and delivery of the fusion container,
  \<open>fusion/src/fusion/enrichment.py\<close>: the seconds until departure, the severity of an
  alert, \<open>_build_envelope\<close>, \<open>_post_envelope\<close> under the retry policy,
  \<open>emit_alert\<close> and \<open>emit_envelope\<close>. An alert reads the clock once, for the countdown and the envelope.
\<close>

section \<open>Derived fields\<close>

definition seconds_to_departure ::
  "string option \<Rightarrow> bool \<Rightarrow> rat option \<Rightarrow> datetime \<Rightarrow> int option res" where
  "seconds_to_departure dep station speed now =
     (if \<not> (station \<or> speed = Some 0) then Inr None
      else case dep of
        None \<Rightarrow> Inr None
      | Some s \<Rightarrow>
          if s = [] \<or> \<not> timestamp_re s then Inr None
          else bind_res (fromisoformat_utc (py_replace ''Z'' ''+00:00'' s)) (\<lambda>sched.
            let delta = \<lfloor>total_seconds (dt_micros sched - dt_micros now)\<rfloor>
            in if delta < 0 \<and> \<not> station then Inr None else Inr (Some (max 0 delta))))"

definition severity_for :: "string \<Rightarrow> rat option \<Rightarrow> severity" where
  "severity_for alert_code speed =
     (if alert_code \<in> {''door_obstruction'', ''door_fault''}
      then (case speed of None \<Rightarrow> Sev_critical
            | Some v \<Rightarrow> if v > 0 then Sev_critical else Sev_warning)
      else Sev_warning)"

section \<open>Building and posting\<close>

definition draw_uuid :: "environment \<Rightarrow> world \<Rightarrow> string \<times> world" where
  "draw_uuid E w = (uuids E (w_uuids w), w\<lparr>w_uuids := Suc (w_uuids w)\<rparr>)"

definition build_envelope ::
  "environment \<Rightarrow> fusion_settings \<Rightarrow> context_state \<Rightarrow> string \<Rightarrow> datetime \<Rightarrow>
   event_type \<Rightarrow> jdict \<Rightarrow> severity \<Rightarrow> string option \<Rightarrow> envelope option res" where
  "build_envelope E S c uuid now et p sev ts =
     (case c_journey_id c of
        None \<Rightarrow> Inr None
      | Some j \<Rightarrow> map_sum id Some (validate_envelope (pyd E) uuid now
          \<lparr>raw_id = None, raw_journey_id = j,
           raw_vehicle_id = str_or (c_vehicle_id c) (fs_vehicle_id S),
           raw_timestamp = ts, raw_type = event_type_value et,
           raw_severity = severity_value sev, raw_source = ''fusion'',
           raw_schema_version = fs_schema_version S, raw_payload = p\<rparr>))"

definition post_envelope :: "environment \<Rightarrow> envelope \<Rightarrow> world \<Rightarrow> unit res \<times> world" where
  "post_envelope E e w =
     (case retry_post E default_attempts (PostEvent e) w of
        (ok, w') \<Rightarrow> (if ok then Inr () else Inl HTTPError, w'))"

text \<open>The tail both emitters share: build, skip without a journey, post.\<close>

definition build_and_post ::
  "environment \<Rightarrow> fusion_settings \<Rightarrow> context_state \<Rightarrow> clock \<Rightarrow>
   event_type \<Rightarrow> jdict \<Rightarrow> severity \<Rightarrow> string option \<Rightarrow> world \<Rightarrow> unit res \<times> world" where
  "build_and_post E S c now et p sev ts w =
     (case draw_uuid E w of (uuid, w1) \<Rightarrow>
        (case build_envelope E S c uuid (now (w_uuids w)) et p sev ts of
           Inl e \<Rightarrow> (Inl e, w1)
         | Inr None \<Rightarrow> (Inr (), w)
         | Inr (Some env) \<Rightarrow> post_envelope E env w1))"

definition alert_kwargs ::
  "string \<Rightarrow> string \<Rightarrow> string \<Rightarrow> string option \<Rightarrow> string \<Rightarrow> string \<Rightarrow> rat option \<Rightarrow> string \<Rightarrow>
   (string, string) dict \<Rightarrow> int option \<Rightarrow> jdict" where
  "alert_kwargs alert_id alert_code car_id zone description priority score basis versions secs =
     [(''alert_id'', JStr alert_id), (''alert_code'', JStr alert_code), (''car_id'', JStr car_id),
      (''zone'', jopt JStr zone), (''description'', JStr description),
      (''priority'', JStr priority), (''confidence_score'', jopt JNum score),
      (''confidence_basis'', JStr basis), (''model_versions'', jstrs versions),
      (''seconds_to_departure'', jopt JInt secs)]"

definition emit_alert ::
  "environment \<Rightarrow> fusion_settings \<Rightarrow> context_state \<Rightarrow> clock \<Rightarrow> string \<Rightarrow> string \<Rightarrow> string \<Rightarrow>
   string \<Rightarrow> string option \<Rightarrow> rat option \<Rightarrow> (string, string) dict option \<Rightarrow> world \<Rightarrow>
   unit res \<times> world" where
  "emit_alert E S c now alert_code car_id description basis zone score versions w =
     (let sev = severity_for alert_code (c_speed_kmh c);
          priority = (if c_station_approach c then ''escalated'' else ''normal'')
      in case seconds_to_departure (c_scheduled_departure c) (c_station_approach c)
                (c_speed_kmh c) (now (w_uuids w)) of
           Inl e \<Rightarrow> (Inl e, w)
         | Inr secs \<Rightarrow>
             (case draw_uuid E w of (alert_id, w1) \<Rightarrow>
               (case validate_payload (pyd E) ALERT_RAISED
                       (alert_kwargs alert_id alert_code car_id zone description priority score
                          basis (keep_or versions []) secs) of
                  Inl e \<Rightarrow> (Inl e, w1)
                | Inr v \<Rightarrow> build_and_post E S c now ALERT_RAISED (model_dump ALERT_RAISED v) sev
                             (Some (utc_now (now (w_uuids w)))) w1)))"

definition emit_envelope ::
  "environment \<Rightarrow> fusion_settings \<Rightarrow> context_state \<Rightarrow> clock \<Rightarrow> string \<Rightarrow> jdict \<Rightarrow> severity \<Rightarrow>
   world \<Rightarrow> unit res \<times> world" where
  "emit_envelope E S c now event_type_name p sev w =
     (case event_type_of event_type_name of
        None \<Rightarrow> (Inl ValueError, w)
      | Some et \<Rightarrow> build_and_post E S c now et p sev None w)"

section \<open>What an emitter may send\<close>

text \<open>
  The common contract of every routine that sends: the log adds by copies of one valid
  envelope of the container's own, about the current journey.
\<close>

definition own_envelope :: "environment \<Rightarrow> context_state \<Rightarrow> event_type \<Rightarrow> severity \<Rightarrow> envelope \<Rightarrow> bool" where
  "own_envelope E c et sev e \<longleftrightarrow>
     envelope_ok (pyd E) e \<and> ev_source e = Src_fusion \<and> ev_type e = et \<and> ev_severity e = sev \<and>
     Some (ev_journey_id e) = c_journey_id c"

definition sends_copies ::
  "environment \<Rightarrow> context_state \<Rightarrow> event_type \<Rightarrow> severity \<Rightarrow> (unit res \<times> world) \<Rightarrow> world \<Rightarrow> bool" where
  "sends_copies E c et sev r w \<longleftrightarrow>
     (\<exists>n e. w_sent (snd r) = w_sent w @ replicate n (PostEvent e) \<and> n \<le> default_attempts \<and>
        (0 < n \<longrightarrow> own_envelope E c et sev e))"

lemma map_sum_Some_iff: "map_sum id Some x = Inr (Some e) \<longleftrightarrow> x = Inr e"
  by (cases x) simp_all

lemma sends_none: "w_sent (snd r) = w_sent w \<Longrightarrow> sends_copies E c et sev r w"
  unfolding sends_copies_def by (intro exI [of _ 0]) simp

lemma build_envelope_own:
  assumes "env_ok E" "build_envelope E S c (uuids E n) now et p sev ts = Inr (Some e)"
  shows "own_envelope E c et sev e \<and> ev_payload e = p"
proof -
  from assms(2) obtain j where j: "c_journey_id c = Some j" and
    v: "validate_envelope (pyd E) (uuids E n) now
          \<lparr>raw_id = None, raw_journey_id = j, raw_vehicle_id = str_or (c_vehicle_id c) (fs_vehicle_id S),
           raw_timestamp = ts, raw_type = event_type_value et, raw_severity = severity_value sev,
           raw_source = ''fusion'', raw_schema_version = fs_schema_version S, raw_payload = p\<rparr> = Inr e"
    by (cases "c_journey_id c") (auto simp: build_envelope_def map_sum_Some_iff)
  have "envelope_ok (pyd E) e"
    using v assms(1) by (intro validate_envelope_ok [OF v]) (simp add: env_ok_def)
  moreover have "source_of ''fusion'' = Some Src_fusion"
    by (simp add: source_of_def)
  ultimately show ?thesis
    using v j by (auto simp: validate_envelope_def res_iff own_envelope_def)
qed

lemma build_and_post_sends:
  assumes "env_ok E"
  shows "sends_copies E c et sev (build_and_post E S c now et p sev ts w) w"
proof -
  obtain uuid w1 where d: "draw_uuid E w = (uuid, w1)" by fastforce
  then have uuid: "uuid = uuids E (w_uuids w)" and w1: "w_sent w1 = w_sent w"
    by (auto simp: draw_uuid_def)
  show ?thesis
  proof (cases "build_envelope E S c uuid (now (w_uuids w)) et p sev ts")
    case (Inl a)
    with d w1 show ?thesis by (intro sends_none) (simp add: build_and_post_def)
  next
    case (Inr o_env)
    show ?thesis
    proof (cases o_env)
      case None
      with d Inr show ?thesis by (intro sends_none) (simp add: build_and_post_def)
    next
      case (Some e)
      obtain ok w' where r: "retry_post E default_attempts (PostEvent e) w1 = (ok, w')" by fastforce
      from retry_post_sent [OF r] obtain n where "n \<le> default_attempts"
        "w_sent w' = w_sent w1 @ replicate n (PostEvent e)" by blast
      moreover have "own_envelope E c et sev e"
        using build_envelope_own [OF assms] Inr Some uuid by blast
      moreover have "build_and_post E S c now et p sev ts w = (if ok then Inr () else Inl HTTPError, w')"
        using d Inr Some r by (simp add: build_and_post_def post_envelope_def)
      ultimately show ?thesis
        using w1 unfolding sends_copies_def by auto
    qed
  qed
qed

lemma emit_envelope_sends:
  assumes "env_ok E"
  shows "sends_copies E c et sev (emit_envelope E S c now (event_type_value et) p sev w) w"
  using build_and_post_sends [OF assms] by (simp add: emit_envelope_def)

lemma draw_uuid_sent: "draw_uuid E w = (u, w1) \<Longrightarrow> w_sent w1 = w_sent w"
  by (auto simp: draw_uuid_def)

lemma emit_alert_sends:
  assumes "env_ok E"
  shows "sends_copies E c ALERT_RAISED (severity_for code (c_speed_kmh c))
     (emit_alert E S c now code car desc basis zone score versions w) w"
proof -
  obtain aid w1 where d: "draw_uuid E w = (aid, w1)" by fastforce
  note w1 = draw_uuid_sent [OF d]
  have lift: "sends_copies E c et sev r w" if "sends_copies E c et sev r w1" for et sev r
    using that w1 by (simp add: sends_copies_def)
  show ?thesis
    unfolding emit_alert_def Let_def d prod.case
    by (auto split: sum.split intro!: lift [OF build_and_post_sends [OF assms]] sends_none
        simp: w1)
qed

lemma no_journey_no_send:
  assumes "c_journey_id c = None"
  shows "w_sent (snd (emit_envelope E S c now n p sev w)) = w_sent w"
    "w_sent (snd (emit_alert E S c now code car desc basis zone score versions w)) = w_sent w"
proof -
  have bp: "w_sent (snd (build_and_post E S c now et p sev ts w)) = w_sent w" for et p sev ts w
    using assms by (simp add: build_and_post_def build_envelope_def draw_uuid_def)
  show "w_sent (snd (emit_envelope E S c now n p sev w)) = w_sent w"
    by (simp add: emit_envelope_def bp split: option.split)
  show "w_sent (snd (emit_alert E S c now code car desc basis zone score versions w)) = w_sent w"
    by (simp add: emit_alert_def Let_def bp draw_uuid_def split: sum.split)
qed

text \<open>A successful emit for a known journey reached the event-store.\<close>

lemma build_and_post_delivered:
  assumes "build_and_post E S c now et p sev ts w = (Inr (), w')" "c_journey_id c \<noteq> None"
  shows "w_sent w' \<noteq> w_sent w"
proof -
  obtain uuid w1 where d: "draw_uuid E w = (uuid, w1)" by fastforce
  from assms(2) obtain j where j: "c_journey_id c = Some j" by blast
  have ms: "map_sum id Some x \<noteq> Inr None" for x :: "exn + envelope" by (cases x) simp_all
  from assms(1) obtain e where e: "build_envelope E S c uuid (now (w_uuids w)) et p sev ts = Inr (Some e)"
    using j ms by (cases "build_envelope E S c uuid (now (w_uuids w)) et p sev ts")
      (auto simp: build_and_post_def d build_envelope_def split: option.splits sum.splits)
  obtain ok w2 where r: "retry_post E default_attempts (PostEvent e) w1 = (ok, w2)" by fastforce
  from assms(1) d e r have "ok" "w' = w2" by (auto simp: build_and_post_def post_envelope_def split: if_splits)
  with retry_post_sent [OF r] draw_uuid_sent [OF d] show ?thesis by auto
qed

lemma emit_alert_delivered:
  assumes "emit_alert E S c now code car desc basis zone score versions w = (Inr (), w')" "c_journey_id c \<noteq> None"
  shows "w_sent w' \<noteq> w_sent w"
proof -
  obtain aid w1 where d: "draw_uuid E w = (aid, w1)" by fastforce
  from assms(1) obtain p sev ts where "build_and_post E S c now ALERT_RAISED p sev ts w1 = (Inr (), w')"
    by (auto simp: emit_alert_def Let_def d split: sum.splits)
  from build_and_post_delivered [OF this assms(2)] draw_uuid_sent [OF d] show ?thesis by simp
qed

end
