(* ===== verification/Fusion_Suppress.thy ===== *)
theory Fusion_Suppress
  imports Fusion_Enrich
begin

text \<open>
  The suppression state machine, \<open>fusion/src/fusion/suppression.py\<close>: the dominant state of
  a context, the gate's memory of the last state and of the journeys already ended, and
  the one-shot JOURNEY_ENDED on entering the depot.
\<close>

section \<open>The dominant state\<close>

datatype suppression_state = NORMAL | GPS_INVALID | MAINTENANCE | DEPOT

fun suppression_rank :: "suppression_state \<Rightarrow> nat" where
  "suppression_rank NORMAL = 0"
| "suppression_rank GPS_INVALID = 1"
| "suppression_rank MAINTENANCE = 2"
| "suppression_rank DEPOT = 3"

lemma suppression_rank_inj: "suppression_rank a = suppression_rank b \<Longrightarrow> a = b"
  by (cases a; cases b) simp_all

instantiation suppression_state :: linorder
begin

definition less_eq_suppression_state :: "suppression_state \<Rightarrow> suppression_state \<Rightarrow> bool" where
  "less_eq_suppression_state a b = (suppression_rank a \<le> suppression_rank b)"

definition less_suppression_state :: "suppression_state \<Rightarrow> suppression_state \<Rightarrow> bool" where
  "less_suppression_state a b = (suppression_rank a < suppression_rank b)"

instance
  by standard
    (auto simp: less_eq_suppression_state_def less_suppression_state_def intro: suppression_rank_inj)

end

definition evaluate :: "context_state \<Rightarrow> suppression_state" where
  "evaluate c =
     (if c_depot_mode c then DEPOT
      else if c_maintenance_mode c then MAINTENANCE
      else if \<not> c_gps_valid c then GPS_INVALID
      else NORMAL)"

text \<open>The states whose condition holds; the documented priority is the order above.\<close>

definition active_states :: "context_state \<Rightarrow> suppression_state set" where
  "active_states c =
     {NORMAL} \<union> (if c_gps_valid c then {} else {GPS_INVALID}) \<union>
     (if c_maintenance_mode c then {MAINTENANCE} else {}) \<union> (if c_depot_mode c then {DEPOT} else {})"

lemma evaluate_is_Max: "evaluate c = Max (active_states c)"
  by (simp add: evaluate_def active_states_def max_def less_eq_suppression_state_def)

section \<open>The gate\<close>

record gate =
  g_last_state :: suppression_state
  g_ended_for :: "string list"

definition init_gate :: gate where
  "init_gate = \<lparr>g_last_state = NORMAL, g_ended_for = []\<rparr>"

definition should_emit :: "context_state \<Rightarrow> bool" where
  "should_emit c = (evaluate c = NORMAL)"

definition on_context_changed ::
  "environment \<Rightarrow> fusion_settings \<Rightarrow> context_state \<Rightarrow> clock \<Rightarrow> gate \<Rightarrow> world \<Rightarrow>
   unit res \<times> gate \<times> world" where
  "on_context_changed E S c now g w =
     (let current = evaluate c;
          entering = (current = DEPOT \<and> g_last_state g \<noteq> DEPOT);
          g1 = g\<lparr>g_last_state := current\<rparr>
      in if \<not> entering then (Inr (), g1, w)
         else (let journey = str_or (c_journey_id c) []
               in if journey = [] then (Inr (), g1, w)
                  else if journey \<in> set (g_ended_for g) then (Inr (), g1, w)
                  else (let g2 = g1\<lparr>g_ended_for := journey # g_ended_for g\<rparr>
                        in case emit_envelope E S c now ''JOURNEY_ENDED'' [] Sev_info w of
                             (r, w') \<Rightarrow> (r, g2, w'))))"

section \<open>Facts\<close>

lemma should_emit_iff:
  "should_emit c \<longleftrightarrow> c_gps_valid c \<and> \<not> c_maintenance_mode c \<and> \<not> c_depot_mode c"
  by (simp add: should_emit_def evaluate_def)

lemma on_context_changed_last: "g_last_state (fst (snd (on_context_changed E S c now g w))) = evaluate c"
  by (simp add: on_context_changed_def Let_def split: prod.split)

text \<open>The envelopes that end journeys.\<close>

definition ended_events :: "world \<Rightarrow> envelope list" where
  "ended_events w = filter (\<lambda>e. ev_type e = JOURNEY_ENDED) (sent_events (w_sent w))"

text \<open>Each ended journey is on record, and all its envelopes are one and the same.\<close>

definition ended_once :: "gate \<Rightarrow> world \<Rightarrow> bool" where
  "ended_once g w \<longleftrightarrow>
     (\<forall>e \<in> set (ended_events w). ev_journey_id e \<in> set (g_ended_for g)) \<and>
     (\<forall>e \<in> set (ended_events w). \<forall>e' \<in> set (ended_events w).
        ev_journey_id e = ev_journey_id e' \<longrightarrow> e = e')"

lemma sent_events_replicate [simp]:
  "sent_events (replicate n (PostEvent e)) = replicate n e"
  by (induction n) auto

lemma sends_copies_ended_other:
  assumes "sends_copies E c et sev r w" "et \<noteq> JOURNEY_ENDED"
  shows "ended_events (snd r) = ended_events w"
proof -
  from assms(1) obtain n e where "w_sent (snd r) = w_sent w @ replicate n (PostEvent e)"
    "0 < n \<longrightarrow> own_envelope E c et sev e"
    by (auto simp: sends_copies_def)
  with assms(2) show ?thesis
    by (cases "n = 0") (auto simp: ended_events_def own_envelope_def)
qed

lemma on_context_changed_ended_once:
  assumes "env_ok E" "ended_once g w" "on_context_changed E S c now g w = (r, g', w')"
  shows "ended_once g' w'"
proof (cases "ended_events w' = ended_events w")
  case True
  moreover have "set (g_ended_for g) \<subseteq> set (g_ended_for g')"
    using assms(3) by (auto simp: on_context_changed_def Let_def split: if_splits prod.splits)
  ultimately show ?thesis using assms(2) unfolding ended_once_def by auto
next
  case False
  let ?j = "str_or (c_journey_id c) []"
  from False assms(3) have j: "?j \<noteq> []" "?j \<notin> set (g_ended_for g)"
    and g': "g_ended_for g' = ?j # g_ended_for g"
    and em: "emit_envelope E S c now ''JOURNEY_ENDED'' [] Sev_info w = (r, w')"
    by (auto simp: on_context_changed_def Let_def split: if_splits prod.splits)
  have "sends_copies E c JOURNEY_ENDED Sev_info (r, w') w"
    using emit_envelope_sends [OF assms(1), of c JOURNEY_ENDED Sev_info S now "[]" w] em by simp
  then obtain n e where w': "w_sent w' = w_sent w @ replicate n (PostEvent e)"
    and own: "0 < n \<longrightarrow> own_envelope E c JOURNEY_ENDED Sev_info e"
    by (auto simp: sends_copies_def)
  from False w' own have e: "own_envelope E c JOURNEY_ENDED Sev_info e" "ended_events w' = ended_events w @ replicate n e"
    by (cases "n = 0", auto simp: ended_events_def own_envelope_def)+
  have "ev_journey_id e = ?j"
  proof (cases "c_journey_id c")
    case (Some s)
    with j(1) e(1) show ?thesis by (cases s) (auto simp: own_envelope_def)
  qed (use j in simp)
  with assms(2) e(2) j(2) g' show ?thesis
    by (auto simp: ended_once_def)
qed

end
