(* ===== verification/Fusion_Ledger.thy ===== *)
theory Fusion_Ledger
  imports Fusion_State
begin

text \<open>
  The closed-ledger engine, \<open>fusion/src/fusion/ledger.py\<close>: rows in memory written
  through to the SQLite table, pending exits with their timers, the drift check, restart.

  \<^item> A row of the table is the row record itself; the upsert of \<open>_persist\<close> is a write of
    one key. SQLite statements are taken to succeed.
  \<^item> \<open>loop.call_later\<close> arms a timer with a handle of its own. A fired timer becomes a task
    (\<open>loop.create_task\<close>), and a cancelled timer never fires; a task already created still
    runs. Timers and tasks are separate components, so every interleaving of a timeout
    with arriving events is a sequence of steps.
  \<^item> The handlers contain no \<open>await\<close>, so each runs as one step.
\<close>

section \<open>State\<close>

record ledger_row =
  lr_count :: int
  lr_last_reconciled :: "string option"
  lr_unreconciled :: int

definition new_row :: ledger_row where
  "new_row = \<lparr>lr_count = 0, lr_last_reconciled = None, lr_unreconciled = 0\<rparr>"

record pending_exit =
  pe_track :: int
  pe_camera :: string
  pe_from :: string
  pe_to :: string
  pe_ts :: string
  pe_timer :: nat

record ledger =
  l_rows :: "(string, ledger_row) dict"
  l_table :: "(string, ledger_row) dict"
  l_pending :: "(int, pending_exit) dict"
  l_timers :: "(nat, int) dict" \<comment> \<open>armed timers: handle and track id\<close>
  l_next_timer :: nat
  l_tasks :: "int list" \<comment> \<open>timeout tasks created and not yet run\<close>
  l_seen :: "string list"
  l_bucket :: "(string, int) dict"
  l_closed :: bool

datatype track = TInt int | TStr string

record wagon_event =
  we_track :: track
  we_from :: string
  we_to :: string
  we_camera :: "string option"
  we_traversal :: string
  we_confidence :: rat
  we_expect_orphan :: bool \<comment> \<open>exits only\<close>

record drift_observation =
  do_car_id :: string
  do_camera_count :: int
  do_ledger_count :: int
  do_delta :: int
  do_threshold :: int
  do_surface :: bool

text \<open>\<open>_utc_now_iso\<close>: the instant to the millisecond.\<close>

definition utc_now_iso :: "datetime \<Rightarrow> string" where
  "utc_now_iso t = iso_head t @ ''.'' @ zpad 3 (us t div 1000) @ ''Z''"

section \<open>Rows and the table\<close>

definition row_of :: "ledger \<Rightarrow> string \<Rightarrow> ledger_row" where
  "row_of L c = dget_or (l_rows L) c new_row"

definition persist :: "ledger \<Rightarrow> string \<Rightarrow> ledger" where
  "persist L c = L\<lparr>l_table := dset (l_table L) c (row_of L c)\<rparr>"

definition ensure_row :: "ledger \<Rightarrow> string \<Rightarrow> ledger" where
  "ensure_row L c =
     (if dhas (l_rows L) c then L else persist (L\<lparr>l_rows := dset (l_rows L) c new_row\<rparr>) c)"

definition put_row :: "ledger \<Rightarrow> string \<Rightarrow> ledger_row \<Rightarrow> ledger" where
  "put_row L c r = L\<lparr>l_rows := dset (l_rows L) c r\<rparr>"

definition mark_seen :: "ledger \<Rightarrow> string \<Rightarrow> ledger" where
  "mark_seen L c = L\<lparr>l_seen := List.insert c (l_seen L)\<rparr>"

definition seed_coach :: "ledger \<Rightarrow> string \<Rightarrow> ledger" where
  "seed_coach L c =
     (if dhas (l_rows L) c then L else persist (put_row L c new_row) c)"

text \<open>Start: load the table; a counter of lost pending exits is reset and written back.\<close>

definition clean_row :: "ledger_row \<Rightarrow> ledger_row" where
  "clean_row r = (if lr_unreconciled r > 0 then r\<lparr>lr_unreconciled := 0\<rparr> else r)"

definition stale_coaches :: "(string, ledger_row) dict \<Rightarrow> string list" where
  "stale_coaches t = dkeys (filter (\<lambda>(c, r). lr_unreconciled r > 0) t)"

definition load_ledger :: "(string, ledger_row) dict \<Rightarrow> ledger" where
  "load_ledger t =
     foldl persist
       \<lparr>l_rows = map (\<lambda>(c, r). (c, clean_row r)) t, l_table = t, l_pending = [], l_timers = [],
        l_next_timer = 0, l_tasks = [], l_seen = [], l_bucket = [], l_closed = False\<rparr>
       (stale_coaches t)"

definition cancel_timer :: "ledger \<Rightarrow> nat \<Rightarrow> ledger" where
  "cancel_timer L h = L\<lparr>l_timers := ddel (l_timers L) h\<rparr>"

definition close_ledger :: "ledger \<Rightarrow> ledger" where
  "close_ledger L =
     (foldl cancel_timer L (map (pe_timer \<circ> snd) (l_pending L)))\<lparr>l_closed := True, l_pending := []\<rparr>"

section \<open>Wagon events\<close>

definition schedule_timeout :: "ledger \<Rightarrow> int \<Rightarrow> nat \<times> ledger" where
  "schedule_timeout L t =
     (l_next_timer L,
      L\<lparr>l_timers := dset (l_timers L) (l_next_timer L) t, l_next_timer := Suc (l_next_timer L)\<rparr>)"

definition arm_pending :: "ledger \<Rightarrow> int \<Rightarrow> string \<Rightarrow> string \<Rightarrow> string \<Rightarrow> string \<Rightarrow> ledger" where
  "arm_pending L t cam cf ct ts =
     (case schedule_timeout L t of
        (h, L') \<Rightarrow> L'\<lparr>l_pending := dset (l_pending L') t
          \<lparr>pe_track = t, pe_camera = cam, pe_from = cf, pe_to = ct, pe_ts = ts, pe_timer = h\<rparr>\<rparr>)"

definition on_wagon_exit :: "ledger \<Rightarrow> wagon_event \<Rightarrow> string \<Rightarrow> ledger" where
  "on_wagon_exit L p ts =
     (case (we_track p, we_camera p) of
        (TInt t, Some cam) \<Rightarrow>
          (let cf = we_from p; ct = we_to p;
               L1 = mark_seen (mark_seen L cf) ct
           in if \<not> we_expect_orphan p \<and> dhas (l_pending L1) t then L1
              else (let L2 = ensure_row L1 cf;
                        r = (row_of L2 cf)\<lparr>lr_count := lr_count (row_of L2 cf) - 1\<rparr>
                    in if we_expect_orphan p then persist (put_row L2 cf r) cf
                       else (let r' = r\<lparr>lr_unreconciled := lr_unreconciled r + 1\<rparr>
                             in arm_pending (persist (put_row L2 cf r') cf) t cam cf ct ts)))
      | _ \<Rightarrow> L)"

definition credit_entry :: "ledger \<Rightarrow> string \<Rightarrow> string \<Rightarrow> ledger" where
  "credit_entry L ct ts =
     (let L1 = ensure_row L ct;
          r = row_of L1 ct
      in persist (put_row L1 ct (r\<lparr>lr_count := lr_count r + 1, lr_last_reconciled := Some ts\<rparr>)) ct)"

definition settle_exit :: "ledger \<Rightarrow> string \<Rightarrow> ledger" where
  "settle_exit L cf =
     (let L1 = ensure_row L cf;
          r = row_of L1 cf
      in if lr_unreconciled r > 0
         then persist (put_row L1 cf (r\<lparr>lr_unreconciled := lr_unreconciled r - 1\<rparr>)) cf
         else L1)"

definition pop_pending :: "ledger \<Rightarrow> int \<Rightarrow> ledger" where
  "pop_pending L t = L\<lparr>l_pending := ddel (l_pending L) t\<rparr>"

definition on_wagon_entry :: "ledger \<Rightarrow> wagon_event \<Rightarrow> string \<Rightarrow> ledger" where
  "on_wagon_entry L p ts =
     (case (we_track p, we_camera p) of
        (TInt t, Some cam) \<Rightarrow>
          (let cf = we_from p; ct = we_to p;
               L1 = mark_seen (mark_seen L cf) ct
           in case dget (l_pending L1) t of
                None \<Rightarrow> credit_entry L1 ct ts
              | Some pend \<Rightarrow>
                  settle_exit (credit_entry (cancel_timer (pop_pending L1 t) (pe_timer pend)) ct ts)
                    (pe_from pend))
      | _ \<Rightarrow> L)"

section \<open>Timeouts\<close>

text \<open>The loop fires an armed timer: it becomes a task.\<close>

definition fire_timer :: "ledger \<Rightarrow> nat \<Rightarrow> ledger" where
  "fire_timer L h =
     (case dget (l_timers L) h of
        None \<Rightarrow> L
      | Some t \<Rightarrow> (cancel_timer L h)\<lparr>l_tasks := l_tasks L @ [t]\<rparr>)"

definition handle_pending_timeout :: "ledger \<Rightarrow> int \<Rightarrow> ledger" where
  "handle_pending_timeout L t = (if l_closed L then L else pop_pending L t)"

text \<open>The loop runs a created task.\<close>

definition run_task :: "ledger \<Rightarrow> int \<Rightarrow> ledger" where
  "run_task L t =
     (if t \<in> set (l_tasks L) then handle_pending_timeout (L\<lparr>l_tasks := remove1 t (l_tasks L)\<rparr>) t else L)"

section \<open>The drift check\<close>

definition drift_bucket :: "fusion_settings \<Rightarrow> int \<Rightarrow> int" where
  "drift_bucket S delta =
     (let magnitude = \<bar>delta\<bar> div max 1 (fs_bucket_size S)
      in if delta < 0 then - magnitude else magnitude)"

definition bucket_of :: "fusion_settings \<Rightarrow> int \<Rightarrow> int" where
  "bucket_of S delta = (if \<bar>delta\<bar> \<le> fs_drift_threshold S then 0 else drift_bucket S delta)"

definition check_drift ::
  "fusion_settings \<Rightarrow> ledger \<Rightarrow> string \<Rightarrow> int \<Rightarrow> bool \<Rightarrow> drift_observation option \<times> ledger" where
  "check_drift S L car camera station =
     (if car \<notin> set (l_seen L) then (None, L)
      else
        (let L1 = ensure_row L car;
             count = lr_count (row_of L1 car);
             delta = count - camera;
             bucket = bucket_of S delta;
             last = dget_or (l_bucket L1) car 0
         in if bucket = last then (None, L1)
            else
              (let L2 = L1\<lparr>l_bucket := dset (l_bucket L1) car bucket\<rparr>;
                   obs = (if bucket = 0
                          then \<lparr>do_car_id = car, do_camera_count = camera, do_ledger_count = camera,
                                do_delta = 0, do_threshold = fs_drift_threshold S, do_surface = station\<rparr>
                          else \<lparr>do_car_id = car, do_camera_count = camera, do_ledger_count = count,
                                do_delta = delta, do_threshold = fs_drift_threshold S, do_surface = station\<rparr>)
               in (Some obs,
                   if count \<noteq> camera
                   then persist (put_row L2 car ((row_of L2 car)\<lparr>lr_count := camera\<rparr>)) car
                   else L2))))"

definition drift_payload :: "drift_observation \<Rightarrow> jdict" where
  "drift_payload o_b =
     [(''car_id'', JStr (do_car_id o_b)), (''camera_count'', JInt (do_camera_count o_b)),
      (''ledger_count'', JInt (do_ledger_count o_b)), (''delta'', JInt (do_delta o_b)),
      (''threshold'', JInt (do_threshold o_b)), (''surface_to_operator'', JBool (do_surface o_b))]"

end
