(* ===== verification/Fusion_Ledger_Facts.thy ===== *)
theory Fusion_Ledger_Facts
  imports Fusion_Ledger
begin

text \<open>
  What the ledger keeps: the table agrees with memory, the unreconciled counters cover the
  pending exits; and what each operation does to the counts, as a refinement of an
  abstract ledger of plain functions.
\<close>

section \<open>Frame lemmas\<close>

named_theorems ledger_simps "how the helpers act on the components of the ledger"

lemma row_of_persist [ledger_simps]: "row_of (persist L c) = row_of L"
  by (rule ext) (simp add: persist_def row_of_def)

lemma row_of_put [ledger_simps]: "row_of (put_row L c r) = (row_of L)(c := r)"
  by (rule ext) (simp add: put_row_def row_of_def)

lemma row_of_ensure [ledger_simps]: "row_of (ensure_row L c) = row_of L"
  by (rule ext) (simp add: ensure_row_def row_of_def persist_def dget_or_def dhas_iff)

lemma frame_pending [ledger_simps]:
  "l_pending (persist L c) = l_pending L" "l_pending (put_row L c r) = l_pending L"
  "l_pending (ensure_row L c) = l_pending L" "l_pending (mark_seen L c) = l_pending L"
  "l_pending (cancel_timer L h) = l_pending L" "l_pending (pop_pending L t) = ddel (l_pending L) t"
  by (simp_all add: persist_def put_row_def ensure_row_def mark_seen_def cancel_timer_def pop_pending_def)

lemma frame_closed [ledger_simps]:
  "l_closed (persist L c) = l_closed L" "l_closed (put_row L c r) = l_closed L"
  "l_closed (ensure_row L c) = l_closed L" "l_closed (mark_seen L c) = l_closed L"
  "l_closed (cancel_timer L h) = l_closed L" "l_closed (pop_pending L t) = l_closed L"
  by (simp_all add: persist_def put_row_def ensure_row_def mark_seen_def cancel_timer_def pop_pending_def)

lemma frame_seen [ledger_simps]:
  "l_seen (persist L c) = l_seen L" "l_seen (put_row L c r) = l_seen L"
  "l_seen (ensure_row L c) = l_seen L" "l_seen (cancel_timer L h) = l_seen L"
  "l_seen (pop_pending L t) = l_seen L" "l_seen (mark_seen L c) = List.insert c (l_seen L)"
  by (simp_all add: persist_def put_row_def ensure_row_def mark_seen_def cancel_timer_def pop_pending_def)

lemma frame_bucket [ledger_simps]:
  "l_bucket (persist L c) = l_bucket L" "l_bucket (put_row L c r) = l_bucket L"
  "l_bucket (ensure_row L c) = l_bucket L"
  by (simp_all add: persist_def put_row_def ensure_row_def)

lemma row_of_frame [ledger_simps]:
  "row_of (mark_seen L c) = row_of L" "row_of (cancel_timer L h) = row_of L"
  "row_of (pop_pending L t) = row_of L" "row_of (L\<lparr>l_bucket := b\<rparr>) = row_of L"
  "row_of (L\<lparr>l_tasks := ts\<rparr>) = row_of L" "row_of (L\<lparr>l_closed := x\<rparr>) = row_of L"
  "row_of (L\<lparr>l_pending := ps\<rparr>) = row_of L"
  by (simp_all add: fun_eq_iff mark_seen_def cancel_timer_def pop_pending_def row_of_def)

lemma arm_pending_frame [ledger_simps]:
  "row_of (arm_pending L t cam cf ct ts) = row_of L"
  "l_closed (arm_pending L t cam cf ct ts) = l_closed L"
  "l_seen (arm_pending L t cam cf ct ts) = l_seen L"
  "l_pending (arm_pending L t cam cf ct ts) = dset (l_pending L) t
     \<lparr>pe_track = t, pe_camera = cam, pe_from = cf, pe_to = ct, pe_ts = ts, pe_timer = l_next_timer L\<rparr>"
  by (simp_all add: fun_eq_iff arm_pending_def schedule_timeout_def row_of_def)

section \<open>The table agrees with memory\<close>

definition write_through :: "ledger \<Rightarrow> bool" where
  "write_through L = (\<forall>c. dget (l_table L) c = dget (l_rows L) c)"

lemma write_through_store: "write_through L \<Longrightarrow> write_through (persist (put_row L c r) c)"
  by (simp add: write_through_def persist_def put_row_def row_of_def)

lemma write_through_ensure: "write_through L \<Longrightarrow> write_through (ensure_row L c)"
  by (simp add: write_through_def ensure_row_def persist_def row_of_def)

lemma write_through_frame:
  "write_through (mark_seen L c) = write_through L" "write_through (cancel_timer L h) = write_through L"
  "write_through (pop_pending L t) = write_through L"
  "write_through (arm_pending L t cam cf ct ts) = write_through L"
  "write_through (L\<lparr>l_bucket := b\<rparr>) = write_through L" "write_through (L\<lparr>l_tasks := tk\<rparr>) = write_through L"
  by (simp_all add: write_through_def mark_seen_def cancel_timer_def pop_pending_def arm_pending_def
      schedule_timeout_def)

lemmas write_through_rules = write_through_store write_through_ensure

lemma write_through_exit: "write_through L \<Longrightarrow> write_through (on_wagon_exit L p ts)"
  by (auto simp: on_wagon_exit_def Let_def write_through_frame split: track.split option.split
      intro!: write_through_rules)

lemma write_through_credit: "write_through L \<Longrightarrow> write_through (credit_entry L c ts)"
  by (auto simp: credit_entry_def Let_def intro!: write_through_rules)

lemma write_through_settle: "write_through L \<Longrightarrow> write_through (settle_exit L c)"
  by (auto simp: settle_exit_def Let_def intro!: write_through_rules)

lemma write_through_entry: "write_through L \<Longrightarrow> write_through (on_wagon_entry L p ts)"
  by (auto simp: on_wagon_entry_def Let_def write_through_frame split: track.split option.split
      intro!: write_through_settle write_through_credit)

lemma write_through_drift: "write_through L \<Longrightarrow> write_through (snd (check_drift S L car cam st))"
  by (auto simp: check_drift_def Let_def write_through_frame intro!: write_through_rules)

lemma foldl_persist:
  "l_rows (foldl persist L cs) = l_rows L \<and> l_pending (foldl persist L cs) = l_pending L \<and>
   l_closed (foldl persist L cs) = l_closed L"
  by (induction cs arbitrary: L) (simp_all add: persist_def)

lemma table_foldl_persist:
  "dget (l_table (foldl persist L cs)) c =
     (if c \<in> set cs then Some (row_of L c) else dget (l_table L) c)"
proof (induction cs arbitrary: L)
  case Nil
  show ?case by simp
next
  case (Cons d cs)
  have "row_of (persist L d) = row_of L" by (rule row_of_persist)
  with Cons show ?case by (auto simp: persist_def)
qed

lemma dget_map_snd: "dget (map (\<lambda>(c, r). (c, f r)) t) c = map_option f (dget t c)"
  by (induction t) auto

lemma row_of_load: "row_of (load_ledger t) c = clean_row (dget_or t c new_row)"
proof -
  have "clean_row new_row = new_row" by (simp add: clean_row_def new_row_def)
  then show ?thesis
    by (simp add: load_ledger_def row_of_def foldl_persist dget_or_def dget_map_snd split: option.split)
qed

lemma write_through_load: "write_through (load_ledger t)"
proof -
  have "clean_row r = r" if "dget t c = Some r" "c \<notin> set (stale_coaches t)" for c r
  proof -
    from that(1) have "(c, r) \<in> set t" by (rule map_of_SomeD)
    with that(2) show ?thesis by (force simp: stale_coaches_def dkeys_def clean_row_def)
  qed
  moreover have "dget t c \<noteq> None" if "c \<in> set (stale_coaches t)" for c
    using that by (auto simp: stale_coaches_def dkeys_def map_of_eq_None_iff)
  ultimately show ?thesis
    by (auto simp: write_through_def load_ledger_def table_foldl_persist foldl_persist
        dget_map_snd row_of_def dget_or_def split: option.splits) fastforce
qed

section \<open>Unreconciled exits cover the pending ones\<close>

definition pending_from :: "ledger \<Rightarrow> string \<Rightarrow> nat" where
  "pending_from L c = length (filter (\<lambda>(t, p). pe_from p = c) (l_pending L))"

definition unreconciled :: "ledger \<Rightarrow> string \<Rightarrow> int" where
  "unreconciled L c = lr_unreconciled (row_of L c)"

definition pending_ok :: "ledger \<Rightarrow> bool" where
  "pending_ok L \<longleftrightarrow> dwf (l_pending L) \<and> (\<forall>c. int (pending_from L c) \<le> unreconciled L c)"

lemma filter_ddel:
  assumes "dwf d"
  shows "length (filter (\<lambda>(t, p). P p) (ddel d k)) =
    length (filter (\<lambda>(t, p). P p) d) - (case dget d k of None \<Rightarrow> 0 | Some p \<Rightarrow> if P p then 1 else 0)"
  using assms
proof (induction d)
  case Nil
  show ?case by simp
next
  case (Cons x d)
  obtain k' p where x: "x = (k', p)" by (cases x) auto
  from Cons.prems have d: "dwf d" and k': "dget d k' = None" "\<not> dhas d k'"
    by (auto simp: x dwf_def dkeys_def map_of_eq_None_iff dhas_def)
  have pos: "0 < length (filter (\<lambda>(t, p). P p) d)" if "dget d k = Some q" "P q" for q
    using map_of_SomeD [OF that(1)] that(2) by (auto simp: filter_empty_conv)
  show ?case
  proof (cases "k' = k")
    case True
    with k' show ?thesis by (simp add: x ddel_absent)
  next
    case False
    with Cons.IH [OF d] pos show ?thesis by (auto simp: x split: option.splits)
  qed
qed

lemma filter_ddel_le: "length (filter (\<lambda>(t, p). P p) (ddel d k)) \<le> length (filter (\<lambda>(t, p). P p) d)"
  by (induction d) auto

lemma pending_ok_pop: "pending_ok L \<Longrightarrow> pending_ok (pop_pending L t)"
  unfolding pending_ok_def pending_from_def unreconciled_def ledger_simps
  using filter_ddel_le [of _ "l_pending L" t] by (auto intro: order_trans [OF of_nat_mono])

lemma pending_ok_cong:
  "row_of L' = row_of L \<Longrightarrow> l_pending L' = l_pending L \<Longrightarrow> pending_ok L' = pending_ok L"
  by (simp add: pending_ok_def pending_from_def unreconciled_def)

lemma rows_exit:
  "row_of (on_wagon_exit L p ts) =
     (case (we_track p, we_camera p) of
        (TInt t, Some cam) \<Rightarrow>
          if we_expect_orphan p
          then (row_of L)(we_from p := (row_of L (we_from p))\<lparr>lr_count := lr_count (row_of L (we_from p)) - 1\<rparr>)
          else if dhas (l_pending L) t then row_of L
          else (row_of L)(we_from p := (row_of L (we_from p))\<lparr>lr_count := lr_count (row_of L (we_from p)) - 1,
                 lr_unreconciled := lr_unreconciled (row_of L (we_from p)) + 1\<rparr>)
      | _ \<Rightarrow> row_of L)"
  by (auto simp: on_wagon_exit_def Let_def ledger_simps split: track.split option.split)

lemma pending_exit_eq:
  "l_pending (on_wagon_exit L p ts) =
     (case (we_track p, we_camera p) of
        (TInt t, Some cam) \<Rightarrow>
          if we_expect_orphan p \<or> dhas (l_pending L) t then l_pending L
          else l_pending L @ [(t, \<lparr>pe_track = t, pe_camera = cam, pe_from = we_from p, pe_to = we_to p,
                 pe_ts = ts, pe_timer = l_next_timer L\<rparr>)]
      | _ \<Rightarrow> l_pending L)"
proof -
  have nt: "l_next_timer (persist (put_row (ensure_row (mark_seen (mark_seen L a) b) a) a r) a) = l_next_timer L"
    for a b r
    by (simp add: persist_def put_row_def ensure_row_def mark_seen_def)
  show ?thesis
    by (auto simp: on_wagon_exit_def Let_def ledger_simps nt dset_new split: track.split option.split)
qed

lemma rows_credit:
  "row_of (credit_entry L c ts) =
     (row_of L)(c := (row_of L c)\<lparr>lr_count := lr_count (row_of L c) + 1, lr_last_reconciled := Some ts\<rparr>)"
  by (simp add: credit_entry_def Let_def ledger_simps)

lemma rows_settle:
  "row_of (settle_exit L c) =
     (row_of L)(c := (row_of L c)\<lparr>lr_unreconciled :=
        (if lr_unreconciled (row_of L c) > 0 then lr_unreconciled (row_of L c) - 1
         else lr_unreconciled (row_of L c))\<rparr>)"
  by (simp add: settle_exit_def Let_def ledger_simps fun_eq_iff)

lemma frame_credit_settle [ledger_simps]:
  "l_pending (credit_entry L c ts) = l_pending L" "l_pending (settle_exit L c) = l_pending L"
  "l_closed (credit_entry L c ts) = l_closed L" "l_closed (settle_exit L c) = l_closed L"
  "l_seen (credit_entry L c ts) = l_seen L" "l_seen (settle_exit L c) = l_seen L"
  by (simp_all add: credit_entry_def settle_exit_def Let_def ledger_simps)

lemma pending_entry_eq:
  "l_pending (on_wagon_entry L p ts) =
     (case (we_track p, we_camera p) of (TInt t, Some cam) \<Rightarrow> ddel (l_pending L) t | _ \<Rightarrow> l_pending L)"
  by (auto simp: on_wagon_entry_def Let_def ledger_simps dhas_iff ddel_absent
      split: track.split option.split)

lemma pending_ok_exit:
  assumes "pending_ok L"
  shows "pending_ok (on_wagon_exit L p ts)"
proof -
  have "int (pending_from (on_wagon_exit L p ts) c) \<le> unreconciled (on_wagon_exit L p ts) c" for c
    using assms spec [OF conjunct2 [OF assms [unfolded pending_ok_def]], of c]
    by (auto simp: pending_from_def unreconciled_def rows_exit pending_exit_eq
        split: track.splits option.splits)
  moreover have "dwf (l_pending (on_wagon_exit L p ts))"
    using assms by (auto simp: pending_ok_def pending_exit_eq dwf_def dkeys_def dhas_def
        split: track.split option.split)
  ultimately show ?thesis by (simp add: pending_ok_def)
qed

lemma pending_ok_entry:
  assumes "pending_ok L"
  shows "pending_ok (on_wagon_entry L p ts)"
proof (cases "\<exists>t cam pend. we_track p = TInt t \<and> we_camera p = Some cam \<and> dget (l_pending L) t = Some pend")
  case True
  then obtain t cam pend where h: "we_track p = TInt t" "we_camera p = Some cam"
    "dget (l_pending L) t = Some pend" by blast
  let ?L = "on_wagon_entry L p ts"
  from assms have wf: "dwf (l_pending L)" and le: "int (pending_from L c) \<le> unreconciled L c" for c
    by (auto simp: pending_ok_def)
  have rows: "lr_unreconciled (row_of ?L c) =
     (if c = pe_from pend then (if unreconciled L c > 0 then unreconciled L c - 1 else unreconciled L c)
      else unreconciled L c)" for c
    using h by (simp add: on_wagon_entry_def Let_def ledger_simps rows_credit rows_settle unreconciled_def)
  have pf: "pending_from ?L c = pending_from L c - (if pe_from pend = c then 1 else 0)" for c
    using h filter_ddel [OF wf, of "\<lambda>p. pe_from p = c" t] by (simp add: pending_from_def pending_entry_eq)
  have pos: "0 < pending_from L (pe_from pend)"
    using map_of_SomeD [OF h(3)] by (auto simp: pending_from_def filter_empty_conv)
  have "int (pending_from ?L c) \<le> unreconciled ?L c" for c
    using le [of c] pos by (auto simp: pf rows unreconciled_def)
  moreover have "dwf (l_pending ?L)" using wf h by (simp add: pending_entry_eq)
  ultimately show ?thesis by (simp add: pending_ok_def)
next
  case False
  then have "l_pending (on_wagon_entry L p ts) = l_pending L"
    by (auto simp: pending_entry_eq dhas_iff ddel_absent split: track.splits option.splits)
  moreover have "lr_unreconciled (row_of (on_wagon_entry L p ts) c) = lr_unreconciled (row_of L c)" for c
    using False by (auto simp: on_wagon_entry_def Let_def ledger_simps rows_credit
        split: track.splits option.splits)
  ultimately show ?thesis
    using assms by (simp add: pending_ok_def pending_from_def unreconciled_def)
qed

lemma rows_drift:
  "row_of (snd (check_drift S L car cam st)) =
     (if fst (check_drift S L car cam st) = None then row_of L
      else (row_of L)(car := (row_of L car)\<lparr>lr_count := cam\<rparr>))"
  by (auto simp: check_drift_def Let_def ledger_simps fun_eq_iff)

lemma pending_drift: "l_pending (snd (check_drift S L car cam st)) = l_pending L"
  by (auto simp: check_drift_def Let_def ledger_simps)

lemma pending_ok_drift: "pending_ok L \<Longrightarrow> pending_ok (snd (check_drift S L car cam st))"
  by (auto simp: pending_ok_def pending_from_def unreconciled_def pending_drift rows_drift)

lemma clean_row_unreconciled: "0 \<le> lr_unreconciled r \<Longrightarrow> lr_unreconciled (clean_row r) = 0"
  by (simp add: clean_row_def)

lemma pending_ok_load:
  assumes "\<And>c r. dget t c = Some r \<Longrightarrow> 0 \<le> lr_unreconciled r"
  shows "pending_ok (load_ledger t)"
proof -
  have "0 \<le> lr_unreconciled (dget_or t c new_row)" for c
    using assms by (auto simp: dget_or_def new_row_def split: option.split)
  then have "lr_unreconciled (clean_row (dget_or t c new_row)) = 0" for c
    by (rule clean_row_unreconciled)
  moreover have "l_pending (load_ledger t) = []" by (simp add: load_ledger_def foldl_persist)
  ultimately show ?thesis by (simp add: pending_ok_def pending_from_def unreconciled_def row_of_load)
qed

section \<open>The ledger as a transition system\<close>

inductive ledger_step :: "fusion_settings \<Rightarrow> ledger \<Rightarrow> ledger \<Rightarrow> bool" for S where
  step_exit: "\<not> l_closed L \<Longrightarrow> ledger_step S L (on_wagon_exit L p ts)"
| step_entry: "\<not> l_closed L \<Longrightarrow> ledger_step S L (on_wagon_entry L p ts)"
| step_drift: "\<not> l_closed L \<Longrightarrow> ledger_step S L (snd (check_drift S L car cam st))"
| step_seed: "\<not> l_closed L \<Longrightarrow> ledger_step S L (seed_coach L c)"
| step_fire: "ledger_step S L (fire_timer L h)"
| step_task: "ledger_step S L (run_task L t)"
| step_close: "\<not> l_closed L \<Longrightarrow> ledger_step S L (close_ledger L)"
| step_restart: "ledger_step S L (load_ledger (l_table L))"

definition ledger_init :: "ledger \<Rightarrow> bool" where
  "ledger_init L = (L = load_ledger [])"

definition ledger_inv :: "ledger \<Rightarrow> bool" where
  "ledger_inv L = (write_through L \<and> pending_ok L)"

lemma foldl_cancel:
  "row_of (foldl cancel_timer L hs) = row_of L \<and> write_through (foldl cancel_timer L hs) = write_through L \<and>
   l_rows (foldl cancel_timer L hs) = l_rows L \<and> l_table (foldl cancel_timer L hs) = l_table L"
  by (induction hs arbitrary: L) (simp_all add: ledger_simps write_through_frame, simp_all add: cancel_timer_def)

lemma close_ledger_inv: "ledger_inv L \<Longrightarrow> ledger_inv (close_ledger L)"
proof -
  assume inv: "ledger_inv L"
  then have "0 \<le> unreconciled L c" for c
    unfolding ledger_inv_def pending_ok_def by (meson of_nat_0_le_iff order_trans)
  with inv show ?thesis
    by (simp add: ledger_inv_def write_through_def pending_ok_def pending_from_def unreconciled_def
        close_ledger_def foldl_cancel row_of_def)
qed

lemma table_unreconciled_nonneg:
  assumes "ledger_inv L" "dget (l_table L) c = Some r"
  shows "0 \<le> lr_unreconciled r"
proof -
  from assms have "row_of L c = r" by (simp add: ledger_inv_def write_through_def row_of_def dget_or_def)
  moreover have "int (pending_from L c) \<le> unreconciled L c"
    using assms(1) by (simp add: ledger_inv_def pending_ok_def)
  ultimately show ?thesis by (simp add: unreconciled_def)
qed

lemma fire_timer_inv: "ledger_inv L \<Longrightarrow> ledger_inv (fire_timer L h)"
  by (auto simp: fire_timer_def ledger_inv_def write_through_frame
      pending_ok_cong [of "(cancel_timer L h)\<lparr>l_tasks := _\<rparr>" L] ledger_simps split: option.split)

lemma run_task_inv: "ledger_inv L \<Longrightarrow> ledger_inv (run_task L t)"
  by (auto simp: run_task_def handle_pending_timeout_def ledger_inv_def write_through_frame
      pending_ok_cong [of "L\<lparr>l_tasks := _\<rparr>" L] ledger_simps intro!: pending_ok_pop)

lemma seed_coach_eq: "seed_coach L c = ensure_row L c"
  by (simp add: seed_coach_def ensure_row_def put_row_def)

lemma ledger_step_inv: "ledger_inv L \<Longrightarrow> ledger_step S L L' \<Longrightarrow> ledger_inv L'"
proof (erule ledger_step.cases, goal_cases)
  case (8 L0)
  then have "0 \<le> lr_unreconciled r" if "dget (l_table L) c = Some r" for c r
    using that by (blast intro: table_unreconciled_nonneg)
  with 8 show ?case by (auto simp: ledger_inv_def intro: write_through_load pending_ok_load)
qed (auto simp: ledger_inv_def write_through_exit pending_ok_exit write_through_entry pending_ok_entry
    write_through_drift pending_ok_drift seed_coach_eq write_through_ensure ledger_simps
    pending_ok_cong [of "ensure_row _ _"]
    dest: fire_timer_inv [unfolded ledger_inv_def, OF conjI]
    run_task_inv [unfolded ledger_inv_def, OF conjI] close_ledger_inv [unfolded ledger_inv_def, OF conjI])

interpretation ledger: invariant_system ledger_init "ledger_step S" ledger_inv for S
proof
  show "ledger_inv s" if "ledger_init s" for s
    using that by (auto simp: ledger_init_def ledger_inv_def write_through_load intro: pending_ok_load)
  show "ledger_inv t" if "ledger_inv s" "ledger_step S s t" for s t
    using that by (rule ledger_step_inv)
qed

end
