(* ===== verification/Fusion_Ledger_Spec.thy ===== *)
theory Fusion_Ledger_Spec
  imports Fusion_Ledger_Facts
begin

text \<open>
  What the ledger of \<open>fusion/src/fusion/ledger.py\<close> promises, as an abstract ledger of
  three plain functions (passengers per coach, exits never matched per coach, the coach a
  track left), and the refinement: every operation of the engine computes the abstract one.
  Then the drift check: when it speaks, what it corrects, and that it settles.
\<close>

section \<open>The abstract ledger\<close>

record abs_ledger =
  al_count :: "string \<Rightarrow> int"
  al_unmatched :: "string \<Rightarrow> int"
  al_open :: "int \<Rightarrow> string option"

definition abs_of :: "ledger \<Rightarrow> abs_ledger" where
  "abs_of L = \<lparr>al_count = (\<lambda>c. lr_count (row_of L c)), al_unmatched = (\<lambda>c. lr_unreconciled (row_of L c)),
     al_open = (\<lambda>t. map_option pe_from (dget (l_pending L) t))\<rparr>"

definition add_at :: "(string \<Rightarrow> int) \<Rightarrow> string \<Rightarrow> int \<Rightarrow> string \<Rightarrow> int" where
  "add_at f c n = f(c := f c + n)"

definition abs_exit :: "abs_ledger \<Rightarrow> int \<Rightarrow> string \<Rightarrow> abs_ledger" where
  "abs_exit A t c =
     (if al_open A t \<noteq> None then A
      else A\<lparr>al_count := add_at (al_count A) c (- 1), al_unmatched := add_at (al_unmatched A) c 1,
             al_open := (al_open A)(t \<mapsto> c)\<rparr>)"

definition abs_orphan :: "abs_ledger \<Rightarrow> string \<Rightarrow> abs_ledger" where
  "abs_orphan A c = A\<lparr>al_count := add_at (al_count A) c (- 1)\<rparr>"

definition abs_entry :: "abs_ledger \<Rightarrow> int \<Rightarrow> string \<Rightarrow> abs_ledger" where
  "abs_entry A t c =
     A\<lparr>al_count := add_at (al_count A) c 1,
       al_unmatched := (case al_open A t of None \<Rightarrow> al_unmatched A
                        | Some d \<Rightarrow> add_at (al_unmatched A) d (- 1)),
       al_open := (al_open A)(t := None)\<rparr>"

definition abs_forget :: "abs_ledger \<Rightarrow> int \<Rightarrow> abs_ledger" where
  "abs_forget A t = A\<lparr>al_open := (al_open A)(t := None)\<rparr>"

definition abs_correct :: "abs_ledger \<Rightarrow> string \<Rightarrow> int \<Rightarrow> abs_ledger" where
  "abs_correct A c n = A\<lparr>al_count := (al_count A)(c := n)\<rparr>"

section \<open>Each operation refines its abstract one\<close>

lemma abs_of_cong:
  "row_of L' = row_of L \<Longrightarrow> l_pending L' = l_pending L \<Longrightarrow> abs_of L' = abs_of L"
  by (simp add: abs_of_def)

lemma unmatched_pos:
  assumes "pending_ok L" "dget (l_pending L) t = Some pend"
  shows "0 < lr_unreconciled (row_of L (pe_from pend))"
proof -
  have "0 < pending_from L (pe_from pend)"
    using map_of_SomeD [OF assms(2)] by (auto simp: pending_from_def filter_empty_conv)
  moreover have "int (pending_from L (pe_from pend)) \<le> unreconciled L (pe_from pend)"
    using assms(1) by (simp add: pending_ok_def)
  ultimately show ?thesis by (simp add: unreconciled_def)
qed

lemma abs_exit_refines:
  "we_track p = TInt t \<Longrightarrow> we_camera p = Some cam \<Longrightarrow>
   abs_of (on_wagon_exit L p ts) =
     (if we_expect_orphan p then abs_orphan (abs_of L) (we_from p) else abs_exit (abs_of L) t (we_from p))"
  by (auto simp: abs_of_def rows_exit pending_exit_eq abs_exit_def abs_orphan_def add_at_def fun_eq_iff
      map_add_def dhas_iff split: option.split)

lemma abs_entry_refines:
  assumes "pending_ok L" "we_track p = TInt t" "we_camera p = Some cam"
  shows "abs_of (on_wagon_entry L p ts) = abs_entry (abs_of L) t (we_to p)"
proof (cases "dget (l_pending L) t")
  case None
  with assms(2,3) have "row_of (on_wagon_entry L p ts) = (row_of L)(we_to p :=
      (row_of L (we_to p))\<lparr>lr_count := lr_count (row_of L (we_to p)) + 1, lr_last_reconciled := Some ts\<rparr>)"
    by (simp add: on_wagon_entry_def Let_def ledger_simps rows_credit)
  with None assms(2,3) show ?thesis
    by (auto simp: abs_of_def abs_entry_def add_at_def fun_eq_iff pending_entry_eq)
next
  case (Some pend)
  with assms(2,3) have "row_of (on_wagon_entry L p ts) = row_of (settle_exit (credit_entry L (we_to p) ts) (pe_from pend))"
    by (simp add: on_wagon_entry_def Let_def ledger_simps rows_credit rows_settle)
  with Some assms(2,3) unmatched_pos [OF assms(1) Some] show ?thesis
    by (auto simp: abs_of_def abs_entry_def add_at_def fun_eq_iff pending_entry_eq rows_credit rows_settle)
qed

lemma malformed_event_ignored:
  "(\<nexists>t cam. we_track p = TInt t \<and> we_camera p = Some cam) \<Longrightarrow>
   on_wagon_exit L p ts = L \<and> on_wagon_entry L p ts = L"
  by (auto simp: on_wagon_exit_def on_wagon_entry_def split: track.split option.split)

lemma abs_drift_refines:
  "abs_of (snd (check_drift S L car cam st)) =
     (if fst (check_drift S L car cam st) = None then abs_of L else abs_correct (abs_of L) car cam)"
  by (simp add: abs_of_def abs_correct_def rows_drift pending_drift fun_eq_iff)

lemma abs_timeout_refines: "abs_of (handle_pending_timeout L t) = (if l_closed L then abs_of L else abs_forget (abs_of L) t)"
  by (simp add: handle_pending_timeout_def abs_of_def abs_forget_def ledger_simps fun_eq_iff)

lemma abs_fire_refines: "abs_of (fire_timer L h) = abs_of L"
  by (simp add: fire_timer_def abs_of_def ledger_simps split: option.split)

lemma abs_close_refines: "abs_of (close_ledger L) = (abs_of L)\<lparr>al_open := \<lambda>t. None\<rparr>"
  by (simp add: close_ledger_def abs_of_def row_of_def foldl_cancel)

lemma abs_restart_refines:
  assumes "ledger_inv L"
  shows "abs_of (load_ledger (l_table L)) = (abs_of L)\<lparr>al_unmatched := \<lambda>c. 0, al_open := \<lambda>t. None\<rparr>"
proof -
  have row: "dget_or (l_table L) c new_row = row_of L c" for c
    using assms by (simp add: ledger_inv_def write_through_def row_of_def dget_or_def)
  have "0 \<le> lr_unreconciled (row_of L c)" for c
    using assms of_nat_0_le_iff order_trans unfolding ledger_inv_def pending_ok_def unreconciled_def by blast
  then have "lr_unreconciled (clean_row (row_of L c)) = 0" for c by (rule clean_row_unreconciled)
  moreover have "lr_count (clean_row r) = lr_count r" for r by (simp add: clean_row_def)
  moreover have "l_pending (load_ledger (l_table L)) = []" by (simp add: load_ledger_def foldl_persist)
  ultimately show ?thesis by (simp add: abs_of_def row_of_load row)
qed

lemma abs_task_refines:
  "abs_of (run_task L u) = (if u \<in> set (l_tasks L) \<and> \<not> l_closed L then abs_forget (abs_of L) u else abs_of L)"
proof -
  have "abs_of (L\<lparr>l_tasks := x\<rparr>) = abs_of L" for x by (simp add: abs_of_def ledger_simps)
  then show ?thesis by (simp add: run_task_def abs_timeout_refines)
qed

section \<open>Transfers\<close>

definition with_track :: "int \<Rightarrow> string \<Rightarrow> string \<Rightarrow> string \<Rightarrow> wagon_event" where
  "with_track t cam cf ct = \<lparr>we_track = TInt t, we_from = cf, we_to = ct, we_camera = Some cam,
     we_traversal = ''t'', we_confidence = 1, we_expect_orphan = False\<rparr>"

lemma transfer_abs:
  assumes "pending_ok L" "\<not> dhas (l_pending L) t"
    and "we_track p = TInt t" "we_camera p = Some cam" "\<not> we_expect_orphan p"
    and "we_track q = TInt t" "we_camera q = Some cam'"
  shows "abs_of (on_wagon_entry (on_wagon_exit L p ts) q ts') =
    (abs_of L)\<lparr>al_count := add_at (add_at (al_count (abs_of L)) (we_from p) (- 1)) (we_to q) 1\<rparr>"
proof -
  have "al_open (abs_of L) t = None"
    using assms(2) by (simp add: abs_of_def dhas_iff)
  with assms show ?thesis
    by (simp add: abs_entry_refines [OF pending_ok_exit] abs_exit_refines abs_entry_def abs_exit_def add_at_def
        fun_eq_iff fun_upd_idem)
qed

lemma sum_add_at: "finite C \<Longrightarrow> c \<in> C \<Longrightarrow> (\<Sum>x\<in>C. add_at f c n x) = (\<Sum>x\<in>C. f x) + n"
  by (simp add: add_at_def sum.remove [of C c])

lemma duplicate_exit_idem:
  assumes "we_track p = TInt t" "we_camera p = Some cam" "\<not> we_expect_orphan p"
    and "we_track q = TInt t" "we_camera q = Some cam'" "\<not> we_expect_orphan q"
  shows "abs_of (on_wagon_exit (on_wagon_exit L p ts) q ts') = abs_of (on_wagon_exit L p ts)"
  using assms by (simp add: abs_exit_refines abs_exit_def)

section \<open>The drift check\<close>

lemma drift_bucket_zero:
  assumes "settings_ok S"
  shows "drift_bucket S d = 0 \<longleftrightarrow> \<bar>d\<bar> < fs_bucket_size S"
proof -
  have m: "max 1 (fs_bucket_size S) = fs_bucket_size S" "0 < fs_bucket_size S"
    using assms by (simp_all add: settings_ok_def)
  have "\<bar>d\<bar> div fs_bucket_size S = 0 \<longleftrightarrow> \<bar>d\<bar> < fs_bucket_size S"
    using m(2) by (auto simp: zdiv_eq_0_iff)
  then show ?thesis by (auto simp: drift_bucket_def Let_def m(1))
qed

lemma bucket_of_zero:
  "settings_ok S \<Longrightarrow> bucket_of S d = 0 \<longleftrightarrow> \<bar>d\<bar> \<le> fs_drift_threshold S \<or> \<bar>d\<bar> < fs_bucket_size S"
  by (simp add: bucket_of_def drift_bucket_zero)

lemma bucket_of_self [simp]: "0 \<le> fs_drift_threshold S \<Longrightarrow> bucket_of S 0 = 0"
  by (simp add: bucket_of_def)

text \<open>The settings under which every drift beyond the threshold has a bucket of its own.\<close>

definition buckets_cover :: "fusion_settings \<Rightarrow> bool" where
  "buckets_cover S = (settings_ok S \<and> fs_bucket_size S \<le> fs_drift_threshold S + 1)"

lemma bucket_of_cover: "buckets_cover S \<Longrightarrow> bucket_of S d = 0 \<longleftrightarrow> \<bar>d\<bar> \<le> fs_drift_threshold S"
  by (auto simp: buckets_cover_def bucket_of_zero)

definition last_bucket :: "ledger \<Rightarrow> string \<Rightarrow> int" where
  "last_bucket L car = dget_or (l_bucket L) car 0"

lemma drift_silent_iff:
  "fst (check_drift S L car cam st) = None \<longleftrightarrow>
     car \<notin> set (l_seen L) \<or> bucket_of S (lr_count (row_of L car) - cam) = last_bucket L car"
  by (simp add: check_drift_def Let_def ledger_simps last_bucket_def)

lemma drift_bucket_after:
  "last_bucket (snd (check_drift S L car cam st)) car =
     (if car \<in> set (l_seen L) then bucket_of S (lr_count (row_of L car) - cam) else last_bucket L car)"
  by (auto simp: check_drift_def Let_def ledger_simps last_bucket_def)

lemma drift_seen: "l_seen (snd (check_drift S L car cam st)) = l_seen L"
  by (auto simp: check_drift_def Let_def ledger_simps)

lemma drift_silent_frame:
  "fst (check_drift S L car cam st) = None \<Longrightarrow>
   row_of (snd (check_drift S L car cam st)) = row_of L \<and>
   last_bucket (snd (check_drift S L car cam st)) car = last_bucket L car"
  by (auto simp: rows_drift drift_bucket_after drift_silent_iff)

lemma drift_reported_count:
  "fst (check_drift S L car cam st) \<noteq> None \<Longrightarrow> lr_count (row_of (snd (check_drift S L car cam st)) car) = cam"
  by (auto simp: rows_drift)

text \<open>A silent check stays silent while nothing else happens.\<close>

lemma drift_silent_again:
  assumes "fst (check_drift S L car cam st) = None"
  shows "fst (check_drift S (snd (check_drift S L car cam st)) car cam st') = None"
  using assms drift_silent_frame [OF assms] by (simp add: drift_silent_iff drift_seen)

text \<open>A report is followed by at most one more, the resolution.\<close>

lemma drift_settles_aux:
  assumes "settings_ok S" "fst (check_drift S L car cam st) \<noteq> None"
    "L1 = snd (check_drift S L car cam st)" "L2 = snd (check_drift S L1 car cam st')"
  shows "fst (check_drift S L2 car cam st'') = None"
proof -
  have thr: "0 \<le> fs_drift_threshold S" using assms(1) by (simp add: settings_ok_def)
  have seen: "car \<in> set (l_seen L)" using assms(2) by (auto simp: drift_silent_iff)
  have "lr_count (row_of L1 car) = cam" using assms(2,3) by (simp add: drift_reported_count)
  then have L2: "lr_count (row_of L2 car) = cam" by (simp add: assms(4) rows_drift)
  have "last_bucket L2 car = 0"
    using seen thr \<open>lr_count (row_of L1 car) = cam\<close> by (simp add: assms(3,4) drift_bucket_after drift_seen)
  with L2 thr show ?thesis by (simp add: drift_silent_iff)
qed

end
