(* ===== verification/Fusion_Comfort.thy ===== *)
theory Fusion_Comfort
  imports Fusion_State "HOL-Library.Char_ord" "HOL-Library.List_Lexorder"
begin

text \<open>
  The Coach Comfort Index, \<open>fusion/src/fusion/comfort_index.py\<close>: the baseline of each
  coach, the set of coaches seen this journey, the two-phase delta emit
  (\<open>on_occupancy_update\<close>, then \<open>confirm_emit\<close>) and the station-approach edge.
\<close>

section \<open>State and payload\<close>

record comfort =
  cf_last :: "(string, rat) dict" \<comment> \<open>\<open>_last_emitted_pct\<close>\<close>
  cf_observed :: "string list" \<comment> \<open>\<open>_observed_coaches\<close>\<close>

definition init_comfort :: comfort where
  "init_comfort = \<lparr>cf_last = [], cf_observed = []\<rparr>"

record comfort_payload =
  cp_car_id :: string
  cp_score :: rat
  cp_pct :: rat

definition clamp01 :: "rat \<Rightarrow> rat" where
  "clamp01 x = max 0 (min 1 x)"

definition compute_payload :: "string \<Rightarrow> rat \<Rightarrow> comfort_payload" where
  "compute_payload car pct = \<lparr>cp_car_id = car, cp_score = clamp01 (1 - pct), cp_pct = clamp01 pct\<rparr>"

definition comfort_json :: "comfort_payload \<Rightarrow> jdict" where
  "comfort_json p =
     [(''car_id'', JStr (cp_car_id p)), (''comfort_score'', JNum (cp_score p)),
      (''occupancy_pct'', JNum (cp_pct p)), (''temperature_c'', JNull), (''noise_db'', JNull)]"

section \<open>Operations\<close>

definition on_occupancy_update ::
  "fusion_settings \<Rightarrow> comfort \<Rightarrow> string \<Rightarrow> rat \<Rightarrow> comfort_payload option \<times> comfort" where
  "on_occupancy_update S cf car occupancy_pct =
     (let cf1 = cf\<lparr>cf_observed := List.insert car (cf_observed cf)\<rparr>;
          pct = clamp01 occupancy_pct
      in case dget (cf_last cf1) car of
           None \<Rightarrow> (None, cf1\<lparr>cf_last := dset (cf_last cf1) car pct\<rparr>)
         | Some prior \<Rightarrow>
             if \<bar>pct - prior\<bar> \<le> fs_pct_threshold S then (None, cf1)
             else (Some (compute_payload car pct), cf1))"

definition confirm_emit :: "comfort \<Rightarrow> string \<Rightarrow> rat \<Rightarrow> comfort" where
  "confirm_emit cf car pct = cf\<lparr>cf_last := dset (cf_last cf) car (clamp01 pct)\<rparr>"

definition observed_coaches :: "comfort \<Rightarrow> string list" where
  "observed_coaches cf = sort (cf_observed cf)"

definition reset_comfort :: "comfort \<Rightarrow> comfort" where
  "reset_comfort cf = cf\<lparr>cf_last := [], cf_observed := []\<rparr>"

fun edge_payloads :: "(string, rat) dict \<Rightarrow> string list \<Rightarrow> comfort_payload list" where
  "edge_payloads base [] = []"
| "edge_payloads base (car # cars) =
     (case dget base car of
        None \<Rightarrow> edge_payloads base cars
      | Some pct \<Rightarrow> compute_payload car pct # edge_payloads base cars)"

definition on_station_approach_edge :: "comfort \<Rightarrow> comfort_payload list" where
  "on_station_approach_edge cf = edge_payloads (cf_last cf) (sort (cf_observed cf))"

section \<open>Facts\<close>

lemma clamp01_bounds [simp]: "0 \<le> clamp01 x" "clamp01 x \<le> 1"
  by (simp_all add: clamp01_def)

lemma clamp01_id: "0 \<le> x \<Longrightarrow> x \<le> 1 \<Longrightarrow> clamp01 x = x"
  by (simp add: clamp01_def)

lemma clamp01_idem [simp]: "clamp01 (clamp01 x) = clamp01 x"
  by (rule clamp01_id) simp_all

lemma clamp01_complement: "clamp01 (1 - clamp01 x) = 1 - clamp01 x"
  by (rule clamp01_id) simp_all

text \<open>Every coach seen has a baseline, so the edge skips none.\<close>

definition comfort_inv :: "comfort \<Rightarrow> bool" where
  "comfort_inv cf \<longleftrightarrow> distinct (cf_observed cf) \<and> set (cf_observed cf) = set (dkeys (cf_last cf)) \<and>
     (\<forall>car pct. dget (cf_last cf) car = Some pct \<longrightarrow> 0 \<le> pct \<and> pct \<le> 1)"

lemma comfort_inv_init: "comfort_inv init_comfort"
  by (simp add: comfort_inv_def init_comfort_def dkeys_def)

lemma comfort_inv_reset: "comfort_inv (reset_comfort cf)"
  by (simp add: comfort_inv_def reset_comfort_def dkeys_def)

lemma comfort_inv_update: "comfort_inv cf \<Longrightarrow> comfort_inv (snd (on_occupancy_update S cf car x))"
  by (auto simp: comfort_inv_def on_occupancy_update_def Let_def dkeys_dset dkeys_dom distinct_insert
      split: option.splits if_splits)

lemma comfort_inv_confirm:
  "comfort_inv cf \<Longrightarrow> car \<in> set (cf_observed cf) \<Longrightarrow> comfort_inv (confirm_emit cf car x)"
  by (auto simp: comfort_inv_def confirm_emit_def dkeys_dset insert_absorb)

lemma update_observes: "car \<in> set (cf_observed (snd (on_occupancy_update S cf car x)))"
  by (simp add: on_occupancy_update_def Let_def split: option.split)

lemma edge_payloads_cars:
  "set cars \<subseteq> dom (dget base) \<Longrightarrow> edge_payloads base cars = map (\<lambda>car. compute_payload car (the (dget base car))) cars"
  by (induction cars) (auto split: option.split)

lemma edge_covers_observed:
  assumes "comfort_inv cf"
  shows "map cp_car_id (on_station_approach_edge cf) = observed_coaches cf"
proof -
  have "set (sort (cf_observed cf)) \<subseteq> dom (dget (cf_last cf))"
    using assms by (simp add: comfort_inv_def dkeys_dom)
  then show ?thesis
    by (simp add: on_station_approach_edge_def edge_payloads_cars observed_coaches_def compute_payload_def
        comp_def)
qed

lemma update_emits_iff:
  "fst (on_occupancy_update S cf car x) =
     (case dget (cf_last cf) car of
        None \<Rightarrow> None
      | Some prior \<Rightarrow> if \<bar>clamp01 x - prior\<bar> \<le> fs_pct_threshold S then None
                      else Some (compute_payload car (clamp01 x)))"
  by (simp add: on_occupancy_update_def Let_def split: option.split)

lemma update_keeps_baseline:
  "dget (cf_last cf) c = Some prior \<Longrightarrow> dget (cf_last (snd (on_occupancy_update S cf car x))) c = Some prior"
  by (auto simp: on_occupancy_update_def Let_def split: option.split)

text \<open>The baseline after an update whose emit, if any, was confirmed.\<close>

definition update_confirmed :: "fusion_settings \<Rightarrow> comfort \<Rightarrow> string \<Rightarrow> rat \<Rightarrow> comfort" where
  "update_confirmed S cf car x =
     (case on_occupancy_update S cf car x of
        (None, cf') \<Rightarrow> cf' | (Some p, cf') \<Rightarrow> confirm_emit cf' car (cp_pct p))"

lemma update_confirmed_tracks:
  assumes "0 \<le> fs_pct_threshold S"
  shows "\<exists>b. dget (cf_last (update_confirmed S cf car x)) car = Some b \<and> \<bar>clamp01 x - b\<bar> \<le> fs_pct_threshold S"
  using assms by (auto simp: update_confirmed_def on_occupancy_update_def Let_def confirm_emit_def
      compute_payload_def split: option.split)

lemma comfort_json_valid:
  "pyd_ok pd \<Longrightarrow> cp_car_id p \<noteq> [] \<Longrightarrow> 0 \<le> cp_score p \<Longrightarrow> cp_score p \<le> 1 \<Longrightarrow> 0 \<le> cp_pct p \<Longrightarrow> cp_pct p \<le> 1 \<Longrightarrow>
   validate_payload pd COACH_COMFORT_INDEX (comfort_json p) = Inr (comfort_json p)"
  by (simp add: validate_payload_def validate_fields_def coach_comfort_index_fields_def comfort_json_def
      field_names_def field_name_def dkeys_def payload_invariant_def pyd_ok_def keep_if_def Suc_le_eq)

lemma compute_payload_valid:
  "pyd_ok pd \<Longrightarrow> car \<noteq> [] \<Longrightarrow>
   validate_payload pd COACH_COMFORT_INDEX (comfort_json (compute_payload car pct)) =
     Inr (comfort_json (compute_payload car pct))"
  by (rule comfort_json_valid) (simp_all add: compute_payload_def)

text \<open>
  The race the two phases leave open: a journey change between the update and its
  confirmation leaves a baseline for a coach the new journey has not seen.
\<close>

lemma late_confirm_breaks_inv: "\<not> comfort_inv (confirm_emit (reset_comfort cf) car x)"
  by (auto simp: comfort_inv_def confirm_emit_def reset_comfort_def dkeys_def)

end
