(* ===== verification/Fusion_Handlers.thy ===== *)
theory Fusion_Handlers
  imports Fusion_Suppress Fusion_Ledger_Spec Fusion_Comfort
begin

text \<open>
  The candidate handlers of the fusion container: \<open>door_obstruction.py\<close>,
  \<open>accessibility.py\<close>, \<open>occupancy.py\<close> and the payload access of the endpoints. A
  payload model instance is its validated field dictionary; the accessors below read a
  field of the type its class declares.
\<close>

section \<open>Reading a validated payload\<close>

definition jstr_at :: "jdict \<Rightarrow> string \<Rightarrow> string" where
  "jstr_at v k = (case dget v k of Some (JStr s) \<Rightarrow> s | _ \<Rightarrow> [])"

definition jint_at :: "jdict \<Rightarrow> string \<Rightarrow> int" where
  "jint_at v k = (case dget v k of Some (JInt i) \<Rightarrow> i | _ \<Rightarrow> 0)"

definition jnum_at :: "jdict \<Rightarrow> string \<Rightarrow> rat" where
  "jnum_at v k = (case jnum_of (dget v k) of Some r \<Rightarrow> r | None \<Rightarrow> 0)"

definition jbool_at :: "jdict \<Rightarrow> string \<Rightarrow> bool" where
  "jbool_at v k = (dget v k = Some (JBool True))"

definition jopt_str_at :: "jdict \<Rightarrow> string \<Rightarrow> string option" where
  "jopt_str_at v k = (case dget v k of Some (JStr s) \<Rightarrow> Some s | _ \<Rightarrow> None)"

fun jstr_entries :: "jdict \<Rightarrow> (string, string) dict" where
  "jstr_entries [] = []"
| "jstr_entries ((k, JStr s) # d) = (k, s) # jstr_entries d"
| "jstr_entries (p # d) = jstr_entries d"

definition jstrs_at :: "jdict \<Rightarrow> string \<Rightarrow> (string, string) dict" where
  "jstrs_at v k = (case dget v k of Some (JObj d) \<Rightarrow> jstr_entries d | _ \<Rightarrow> [])"

text \<open>\<open>payload.model_versions or {"detector_arch": "unknown"}\<close>.\<close>

definition versions_or_unknown :: "(string, string) dict \<Rightarrow> (string, string) dict" where
  "versions_or_unknown d = (if d = [] then [(''detector_arch'', ''unknown'')] else d)"

definition wagon_event_of :: "jdict \<Rightarrow> wagon_event" where
  "wagon_event_of v =
     \<lparr>we_track = (case dget v ''track_id'' of Some (JInt i) \<Rightarrow> TInt i | _ \<Rightarrow> TStr (jstr_at v ''track_id'')),
      we_from = jstr_at v ''coach_from'', we_to = jstr_at v ''coach_to'',
      we_camera = jopt_str_at v ''camera_id'', we_traversal = jstr_at v ''traversal'',
      we_confidence = jnum_at v ''confidence'', we_expect_orphan = jbool_at v ''expect_orphan''\<rparr>"

section \<open>Door obstruction\<close>

definition obstruction_description :: "string \<Rightarrow> string \<Rightarrow> string \<Rightarrow> string" where
  "obstruction_description door kind st =
     ''Door obstruction on '' @ door @ '' ('' @ kind @ '') with door state '' @ st"

definition handle_door_obstruction ::
  "environment \<Rightarrow> fusion_settings \<Rightarrow> context_state \<Rightarrow> clock \<Rightarrow> jdict \<Rightarrow> world \<Rightarrow> unit res \<times> world" where
  "handle_door_obstruction E S c now v w =
     (if \<not> should_emit c then (Inr (), w)
      else (let score = keep_or (jnum_of (dget v ''confidence'')) 0;
                upstream = versions_or_unknown (jstrs_at v ''model_versions'');
                car = resolve_car_id c (jstr_at v ''car_id'');
                door = jstr_at v ''door_id'';
                st = door_state_for c car door
            in if st \<notin> {''closing'', ''closed''} then (Inr (), w)
               else emit_alert E S c now ''door_obstruction'' car
                      (obstruction_description door (jstr_at v ''obstruction_type'') st) ''fused'' None
                      (Some score)
                      (Some (dset upstream ''door_sensor_firmware'' (c_door_firmware_version c))) w))"

section \<open>Accessibility and the ramp\<close>

definition note_accessibility_candidate :: "context_state \<Rightarrow> jdict \<Rightarrow> rat \<Rightarrow> context_state" where
  "note_accessibility_candidate c v tick =
     (let car = jstr_at v ''car_id''; track = jstr_at v ''track_id'';
          c1 = note_accessibility c car (jstr_at v ''near_door_id'') track tick
      in if truthy (jopt_str_at v ''zone'') then note_accessibility c1 car (jstr_at v ''zone'') track tick
         else c1)"

definition ramp_payload :: "string \<Rightarrow> string \<Rightarrow> string \<Rightarrow> string \<Rightarrow> jdict" where
  "ramp_payload car door triggered station =
     [(''car_id'', JStr car), (''door_id'', JStr door), (''triggered_by_track_id'', JStr triggered),
      (''deployed_by'', JStr ''auto''), (''station_id'', JStr station)]"

definition handle_ramp_deployed ::
  "environment \<Rightarrow> fusion_settings \<Rightarrow> clock \<Rightarrow> rat \<Rightarrow> string \<Rightarrow> string \<Rightarrow> string \<Rightarrow> context_state \<Rightarrow> world \<Rightarrow>
   unit res \<times> context_state \<times> world" where
  "handle_ramp_deployed E S now tick car door station c w =
     (case (if door = ''unknown'' then (None, c)
            else find_recent_accessibility c car door (fs_recent_window S) tick) of
        (track, c') \<Rightarrow>
          (case validate_payload (pyd E) RAMP_DEPLOYED
                  (ramp_payload car door (str_or track ''unknown'') station) of
             Inl e \<Rightarrow> (Inl e, c', w)
           | Inr v \<Rightarrow>
               (case emit_envelope E S c' now (event_type_value RAMP_DEPLOYED)
                       (model_dump RAMP_DEPLOYED v) Sev_info w of
                  (r, w') \<Rightarrow> (r, c', w'))))"

section \<open>Occupancy passthrough\<close>

text \<open>
  \<open>process_occupancy_update\<close>: the APC comparison only logs; its outcome is the Boolean
  the model returns beside the emit.
\<close>

definition calibration_drift :: "fusion_settings \<Rightarrow> int \<Rightarrow> int option \<Rightarrow> bool" where
  "calibration_drift S count apc =
     (case apc of None \<Rightarrow> False
      | Some a \<Rightarrow> count > 0 \<and> of_int \<bar>count - a\<bar> / of_int count > fs_calibration_threshold S)"

definition process_occupancy_update ::
  "environment \<Rightarrow> fusion_settings \<Rightarrow> context_state \<Rightarrow> clock \<Rightarrow> jdict \<Rightarrow> int option \<Rightarrow> world \<Rightarrow>
   bool \<times> unit res \<times> world" where
  "process_occupancy_update E S c now v apc w =
     (calibration_drift S (jint_at v ''occupancy_count'') apc,
      emit_envelope E S c now (event_type_value OCCUPANCY_UPDATE) (model_dump OCCUPANCY_UPDATE v) Sev_info w)"

section \<open>Requests of the container\<close>

text \<open>An event of the container's own, of one of the given types, about the current journey.\<close>

definition own :: "environment \<Rightarrow> string option \<Rightarrow> event_type set \<Rightarrow> http_req \<Rightarrow> bool" where
  "own E journey ets r =
     (case r of
        PostEvent e \<Rightarrow> envelope_ok (pyd E) e \<and> ev_source e = Src_fusion \<and> ev_type e \<in> ets \<and>
          Some (ev_journey_id e) = journey
      | _ \<Rightarrow> False)"

lemma own_mono: "own E j ets r \<Longrightarrow> ets \<subseteq> ets' \<Longrightarrow> own E j ets' r"
  by (auto simp: own_def split: http_req.splits)

lemma sends_copies_grows:
  assumes "sends_copies E c et sev (r, w') w"
  shows "adds (own E (c_journey_id c) {et}) w w'"
proof -
  from assms obtain n e where "w_sent w' = w_sent w @ replicate n (PostEvent e)"
    "0 < n \<longrightarrow> own_envelope E c et sev e"
    by (auto simp: sends_copies_def)
  then show ?thesis
    by (cases "n = 0") (auto simp: adds_def own_def own_envelope_def list_all_iff)
qed

lemma emit_envelope_grows:
  assumes "env_ok E" "emit_envelope E S c now (event_type_value et) p sev w = (r, w')"
  shows "adds (own E (c_journey_id c) {et}) w w'"
  using emit_envelope_sends [OF assms(1), of c et sev S now p w] assms(2)
  by (auto intro: sends_copies_grows)

lemma emit_alert_grows:
  assumes "env_ok E" "emit_alert E S c now code car desc basis zone score versions w = (r, w')"
  shows "adds (own E (c_journey_id c) {ALERT_RAISED}) w w'"
  using emit_alert_sends [OF assms(1), of c code S now car desc basis zone score versions w] assms(2)
  by (auto intro: sends_copies_grows)

lemma handle_door_obstruction_grows:
  assumes "env_ok E" "handle_door_obstruction E S c now v w = (r, w')"
  shows "adds (own E (c_journey_id c) {ALERT_RAISED}) w w'" "\<not> should_emit c \<Longrightarrow> w' = w"
  using assms(2)
  by (auto simp: handle_door_obstruction_def Let_def split: if_splits dest: emit_alert_grows [OF assms(1)])

text \<open>The part of the snapshot the emitters and the gate read.\<close>

definition same_view :: "context_state \<Rightarrow> context_state \<Rightarrow> bool" where
  "same_view c c' \<longleftrightarrow> c_journey_id c' = c_journey_id c \<and> evaluate c' = evaluate c \<and>
     c_station_approach c' = c_station_approach c \<and> c_prev_station_approach c' = c_prev_station_approach c"

lemma same_view_refl [simp]: "same_view c c"
  by (simp add: same_view_def)

lemma same_view_trans: "same_view c c' \<Longrightarrow> same_view c' c'' \<Longrightarrow> same_view c c''"
  by (simp add: same_view_def)

lemma same_view_emit: "same_view c c' \<Longrightarrow> should_emit c' = should_emit c"
  by (simp add: same_view_def should_emit_def)

lemma same_view_recent: "same_view c (c\<lparr>c_recent_accessibility := r\<rparr>)"
  by (simp add: same_view_def evaluate_def)

lemma same_view_ramp: "same_view c (c\<lparr>c_ramp_deployed := b\<rparr>)"
  by (simp add: same_view_def evaluate_def)

lemma find_recent_view: "same_view c (snd (find_recent_accessibility c car door win now))"
  by (simp add: find_recent_accessibility_def Let_def same_view_recent split: option.split)

lemma handle_ramp_deployed_view:
  "handle_ramp_deployed E S now tick car door station c w = (r, c', w') \<Longrightarrow> same_view c c'"
  using find_recent_view [of c car door "fs_recent_window S" tick]
  by (auto simp: handle_ramp_deployed_def simp del: event_type_value.simps
      split: prod.splits sum.splits if_splits)

lemma handle_ramp_deployed_grows:
  assumes "env_ok E" "handle_ramp_deployed E S now tick car door station c w = (r, c', w')"
  shows "adds (own E (c_journey_id c) {RAMP_DEPLOYED}) w w'"
proof -
  obtain t c1 where s: "(if door = ''unknown'' then (None, c)
      else find_recent_accessibility c car door (fs_recent_window S) tick) = (t, c1)" by fastforce
  have j: "c_journey_id c = c_journey_id c1"
    using s find_recent_view [of c car door "fs_recent_window S" tick]
    by (auto simp: same_view_def split: if_splits)
  from assms(2) show ?thesis unfolding j
    by (auto simp: handle_ramp_deployed_def s simp del: event_type_value.simps split: sum.splits prod.splits
        dest: emit_envelope_grows [OF assms(1)])
qed

section \<open>Attribution of the ramp\<close>

lemma find_recent_within:
  assumes "find_recent_accessibility c car door win now = (Some t, c')"
  shows "\<exists>ts per_car. dget (c_recent_accessibility c) car = Some per_car \<and> (door, (t, ts)) \<in> set per_car
    \<and> now - ts \<le> win"
  using assms
  by (auto simp: find_recent_accessibility_def Let_def split: option.splits if_splits dest!: gc_stale_in)

lemma find_recent_note:
  assumes "dwf (dget_or (c_recent_accessibility c) car [])" "now - ts \<le> win"
  shows "fst (find_recent_accessibility (note_accessibility c car door t ts) car door win now) = Some t"
proof -
  let ?d = "dset (dget_or (c_recent_accessibility c) car []) door (t, ts)"
  have "dget (gc_stale ?d win now) door = Some (t, ts)"
    using assms by (subst gc_stale_get) auto
  moreover have "?d \<noteq> []" by (metis dget_dset map_of.simps(1) option.distinct(1))
  ultimately show ?thesis
    by (simp add: find_recent_accessibility_def note_accessibility_def Let_def)
qed

section \<open>Door obstruction, in full\<close>

lemma door_obstruction_open_dropped:
  "door_state_for c (resolve_car_id c (jstr_at v ''car_id'')) (jstr_at v ''door_id'') \<notin> {''closing'', ''closed''} \<Longrightarrow>
   handle_door_obstruction E S c now v w = (Inr (), w)"
  by (simp add: handle_door_obstruction_def Let_def)

lemma versions_or_unknown_nonempty: "versions_or_unknown d \<noteq> []"
  by (simp add: versions_or_unknown_def)

text \<open>The joined provenance has the two entries the fused basis needs.\<close>

lemma joined_versions_two:
  "\<not> dhas d ''door_sensor_firmware'' \<Longrightarrow> 2 \<le> length (dset (versions_or_unknown d) ''door_sensor_firmware'' fw)"
  by (cases d) (auto simp: versions_or_unknown_def length_dset dhas_iff Suc_le_eq)

end
