(* ===== verification/Fusion_App.thy ===== *)
theory Fusion_App
  imports Fusion_Handlers
begin

text \<open>
  The endpoints of the fusion container, \<open>fusion/src/fusion/health.py\<close>, over the state
  its lifespan owns: the context snapshot, the suppression gate, the ledger, the comfort
  state and the network. A request body that fails validation is answered 422 before the
  handler runs. Each handler runs as one step: interleavings at the awaits inside a
  handler are outside this model.
\<close>

section \<open>State, requests, responses\<close>

record fusion_app =
  a_ctx :: context_state
  a_gate :: gate
  a_ledger :: ledger
  a_comfort :: comfort
  a_world :: world

datatype response = Accepted | Unprocessable | Server_error

record slip_fall_candidate =
  sf_car_id :: string
  sf_track_id :: int
  sf_camera_id :: string
  sf_confidence :: "rat option"
  sf_model_versions :: "(string, string) dict option"

datatype fusion_request =
    Post_context context_push
  | Post_door_obstruction jdict
  | Post_alert_raised slip_fall_candidate
  | Post_accessibility jdict
  | Post_wagon_exit jdict
  | Post_wagon_entry jdict
  | Post_occupancy jdict

text \<open>\<open>except httpx.HTTPError\<close> and \<open>except Exception\<close> around an emit.\<close>

definition catch_http :: "unit res \<Rightarrow> unit res" where
  "catch_http r = (if r = Inl HTTPError then Inr () else r)"

definition catch_all :: "unit res \<Rightarrow> unit res" where
  "catch_all r = Inr ()"

definition respond :: "unit res \<Rightarrow> response" where
  "respond r = (case r of Inl e \<Rightarrow> Server_error | Inr u \<Rightarrow> Accepted)"

section \<open>Readiness\<close>

record readiness =
  rc_last_check :: rat
  rc_last_result :: bool

definition init_readiness :: readiness where
  "init_readiness = \<lparr>rc_last_check = 0, rc_last_result = False\<rparr>"

text \<open>\<open>reply\<close> is the status code of the event-store, \<open>None\<close> for a transport error.\<close>

definition is_ready :: "rat \<Rightarrow> readiness \<Rightarrow> rat \<Rightarrow> int option \<Rightarrow> bool \<times> readiness" where
  "is_ready ttl rc now reply =
     (if now - rc_last_check rc < ttl then (rc_last_result rc, rc)
      else (reply = Some 200, rc\<lparr>rc_last_check := now, rc_last_result := (reply = Some 200)\<rparr>))"

section \<open>The context push\<close>

definition ramp_stage ::
  "environment \<Rightarrow> fusion_settings \<Rightarrow> clock \<Rightarrow> rat \<Rightarrow> context_push \<Rightarrow> context_state \<Rightarrow> world \<Rightarrow>
   unit res \<times> context_state \<times> world" where
  "ramp_stage E S now tick m c w =
     (case pu_ramp_deployed m of
        None \<Rightarrow> (Inr (), c, w)
      | Some b \<Rightarrow>
          (case observe_ramp_signal c b of
             (edge, c1) \<Rightarrow>
               if \<not> edge \<or> \<not> should_emit c1 then (Inr (), c1, w)
               else (let door = str_or (pu_ramp_door_id m) ''unknown'';
                         station = str_or (pu_ramp_station_id m) ''unknown'';
                         car = str_or (car_id_for_door c1 door) ''unknown''
                     in case handle_ramp_deployed E S now tick car door station c1 w of
                          (r, c2, w') \<Rightarrow> (catch_http r, c2, w'))))"

fun emit_comforts ::
  "environment \<Rightarrow> fusion_settings \<Rightarrow> context_state \<Rightarrow> clock \<Rightarrow> comfort_payload list \<Rightarrow> world \<Rightarrow>
   unit res \<times> world" where
  "emit_comforts E S c now [] w = (Inr (), w)"
| "emit_comforts E S c now (p # ps) w =
     (case emit_envelope E S c now ''COACH_COMFORT_INDEX'' (comfort_json p) Sev_info w of
        (r, w') \<Rightarrow> (case catch_http r of
                      Inl e \<Rightarrow> (Inl e, w')
                    | Inr u \<Rightarrow> emit_comforts E S c now ps w'))"

definition station_stage ::
  "environment \<Rightarrow> fusion_settings \<Rightarrow> clock \<Rightarrow> comfort \<Rightarrow> context_state \<Rightarrow> world \<Rightarrow>
   unit res \<times> context_state \<times> world" where
  "station_stage E S now cf c w =
     (if \<not> peek_station_approach_edge c \<or> \<not> should_emit c then (Inr (), c, w)
      else (let c1 = consume_station_approach_edge c
            in case emit_comforts E S c1 now (on_station_approach_edge cf) w of
                 (r, w') \<Rightarrow> (r, c1, w')))"

definition context_push ::
  "environment \<Rightarrow> fusion_settings \<Rightarrow> clock \<Rightarrow> rat \<Rightarrow> context_push \<Rightarrow> fusion_app \<Rightarrow> unit res \<times> fusion_app" where
  "context_push E S now tick m A =
     (let c1 = update_from_push (a_ctx A) m;
          cf1 = (if c_journey_id c1 \<noteq> c_journey_id (a_ctx A) then reset_comfort (a_comfort A) else a_comfort A)
      in case on_context_changed E S c1 now (a_gate A) (a_world A) of
           (r1, g1, w1) \<Rightarrow>
             (let A1 = A\<lparr>a_ctx := c1, a_comfort := cf1, a_gate := g1, a_world := w1\<rparr>
              in case r1 of
                   Inl e \<Rightarrow> (Inl e, A1)
                 | Inr u \<Rightarrow>
                     (case ramp_stage E S now tick m c1 w1 of
                        (r2, c2, w2) \<Rightarrow>
                          (case r2 of
                             Inl e \<Rightarrow> (Inl e, A1\<lparr>a_ctx := c2, a_world := w2\<rparr>)
                           | Inr u \<Rightarrow>
                               (case station_stage E S now cf1 c2 w2 of
                                  (r3, c3, w3) \<Rightarrow> (r3, A1\<lparr>a_ctx := c3, a_world := w3\<rparr>))))))"

section \<open>The candidates\<close>

definition candidate_door_obstruction ::
  "environment \<Rightarrow> fusion_settings \<Rightarrow> clock \<Rightarrow> jdict \<Rightarrow> fusion_app \<Rightarrow> unit res \<times> fusion_app" where
  "candidate_door_obstruction E S now v A =
     (case handle_door_obstruction E S (a_ctx A) now v (a_world A) of
        (r, w') \<Rightarrow> (catch_all r, A\<lparr>a_world := w'\<rparr>))"

definition slip_fall_description :: "slip_fall_candidate \<Rightarrow> string" where
  "slip_fall_description p =
     ''Suspected passenger fall detected by camera ('' @ sf_camera_id p @ '', track '' @
       show_int (sf_track_id p) @ '')''"

definition candidate_alert_raised ::
  "environment \<Rightarrow> fusion_settings \<Rightarrow> clock \<Rightarrow> slip_fall_candidate \<Rightarrow> fusion_app \<Rightarrow> unit res \<times> fusion_app" where
  "candidate_alert_raised E S now p A =
     (if \<not> should_emit (a_ctx A) then (Inr (), A)
      else (case emit_alert E S (a_ctx A) now ''slip_fall'' (resolve_car_id (a_ctx A) (sf_car_id p))
                   (slip_fall_description p) ''model'' None (Some (keep_or (sf_confidence p) 0))
                   (Some (versions_or_unknown (keep_or (sf_model_versions p) []))) (a_world A) of
              (r, w') \<Rightarrow> (catch_all r, A\<lparr>a_world := w'\<rparr>)))"

definition candidate_accessibility :: "rat \<Rightarrow> jdict \<Rightarrow> fusion_app \<Rightarrow> unit res \<times> fusion_app" where
  "candidate_accessibility tick v A = (Inr (), A\<lparr>a_ctx := note_accessibility_candidate (a_ctx A) v tick\<rparr>)"

definition candidate_wagon_exit :: "clock \<Rightarrow> jdict \<Rightarrow> fusion_app \<Rightarrow> unit res \<times> fusion_app" where
  "candidate_wagon_exit now v A =
     (Inr (), A\<lparr>a_ledger := on_wagon_exit (a_ledger A) (wagon_event_of v) (utc_now_iso (now (w_uuids (a_world A))))\<rparr>)"

definition candidate_wagon_entry :: "clock \<Rightarrow> jdict \<Rightarrow> fusion_app \<Rightarrow> unit res \<times> fusion_app" where
  "candidate_wagon_entry now v A =
     (Inr (), A\<lparr>a_ledger := on_wagon_entry (a_ledger A) (wagon_event_of v) (utc_now_iso (now (w_uuids (a_world A))))\<rparr>)"

text \<open>The first half of the occupancy endpoint: the ledger's drift check and its emit.\<close>

definition drift_stage ::
  "environment \<Rightarrow> fusion_settings \<Rightarrow> clock \<Rightarrow> jdict \<Rightarrow> fusion_app \<Rightarrow> unit res \<times> fusion_app" where
  "drift_stage E S now v A =
     (case check_drift S (a_ledger A) (jstr_at v ''car_id'') (jint_at v ''occupancy_count'')
             (c_station_approach (a_ctx A)) of
        (o_b, L') \<Rightarrow>
          (let A1 = A\<lparr>a_ledger := L'\<rparr>
           in case o_b of
                None \<Rightarrow> (Inr (), A1)
              | Some ob \<Rightarrow>
                  if \<not> should_emit (a_ctx A) then (Inr (), A1)
                  else (case emit_envelope E S (a_ctx A) now ''LEDGER_DRIFT_OBSERVATION''
                               (drift_payload ob) Sev_info (a_world A) of
                          (r, w') \<Rightarrow> (catch_http r, A1\<lparr>a_world := w'\<rparr>))))"

text \<open>The second half: the comfort index, its baseline confirmed only by a successful emit.\<close>

definition comfort_stage ::
  "environment \<Rightarrow> fusion_settings \<Rightarrow> clock \<Rightarrow> jdict \<Rightarrow> fusion_app \<Rightarrow> unit res \<times> fusion_app" where
  "comfort_stage E S now v A =
     (if \<not> should_emit (a_ctx A) then (Inr (), A)
      else (let car = jstr_at v ''car_id''
            in case on_occupancy_update S (a_comfort A) car (jnum_at v ''occupancy_pct'') of
                 (None, cf) \<Rightarrow> (Inr (), A\<lparr>a_comfort := cf\<rparr>)
               | (Some p, cf) \<Rightarrow>
                   (case emit_envelope E S (a_ctx A) now ''COACH_COMFORT_INDEX'' (comfort_json p)
                           Sev_info (a_world A) of
                      (r, w') \<Rightarrow>
                        (catch_http r,
                         A\<lparr>a_world := w',
                           a_comfort := (if r = Inr () then confirm_emit cf car (cp_pct p) else cf)\<rparr>))))"

definition candidate_occupancy_update ::
  "environment \<Rightarrow> fusion_settings \<Rightarrow> clock \<Rightarrow> jdict \<Rightarrow> fusion_app \<Rightarrow> unit res \<times> fusion_app" where
  "candidate_occupancy_update E S now v A =
     (case drift_stage E S now v A of
        (Inl e, A1) \<Rightarrow> (Inl e, A1)
      | (Inr u, A1) \<Rightarrow> comfort_stage E S now v A1)"

section \<open>Dispatch\<close>

text \<open>Pydantic validates the body; a rejected body is a 422 and leaves the state alone.\<close>

definition with_body ::
  "environment \<Rightarrow> event_type \<Rightarrow> jdict \<Rightarrow> (jdict \<Rightarrow> unit res \<times> fusion_app) \<Rightarrow> fusion_app \<Rightarrow> response \<times> fusion_app" where
  "with_body E et body f A =
     (case validate_payload (pyd E) et body of
        Inl e \<Rightarrow> (Unprocessable, A)
      | Inr v \<Rightarrow> (case f v of (r, A') \<Rightarrow> (respond r, A')))"

fun fusion_handle ::
  "environment \<Rightarrow> fusion_settings \<Rightarrow> clock \<Rightarrow> rat \<Rightarrow> fusion_request \<Rightarrow> fusion_app \<Rightarrow> response \<times> fusion_app" where
  "fusion_handle E S now tick (Post_context m) A =
     (case context_push E S now tick m A of (r, A') \<Rightarrow> (respond r, A'))"
| "fusion_handle E S now tick (Post_door_obstruction b) A =
     with_body E DOOR_OBSTRUCTION b (\<lambda>v. candidate_door_obstruction E S now v A) A"
| "fusion_handle E S now tick (Post_alert_raised p) A =
     (case candidate_alert_raised E S now p A of (r, A') \<Rightarrow> (respond r, A'))"
| "fusion_handle E S now tick (Post_accessibility b) A =
     with_body E ACCESSIBILITY_DETECTED b (\<lambda>v. candidate_accessibility tick v A) A"
| "fusion_handle E S now tick (Post_wagon_exit b) A =
     with_body E WAGON_EXIT b (\<lambda>v. candidate_wagon_exit now v A) A"
| "fusion_handle E S now tick (Post_wagon_entry b) A =
     with_body E WAGON_ENTRY b (\<lambda>v. candidate_wagon_entry now v A) A"
| "fusion_handle E S now tick (Post_occupancy b) A =
     with_body E OCCUPANCY_UPDATE b (\<lambda>v. candidate_occupancy_update E S now v A) A"

definition init_app :: "(string, ledger_row) dict \<Rightarrow> fusion_app" where
  "init_app table = \<lparr>a_ctx = init_context, a_gate = init_gate, a_ledger = load_ledger table,
     a_comfort = init_comfort, a_world = \<lparr>w_tick = 0, w_uuids = 0, w_sent = []\<rparr>\<rparr>"

end
