(* ===== verification/Fusion_App_Facts.thy ===== *)
theory Fusion_App_Facts
  imports Fusion_App
begin

text \<open>
  What the fusion container does over any run of requests and timer events: which events
  reach the event-store, when, and about what; the invariants of its state; the
  station-approach edge.
\<close>

section \<open>What each handler may send\<close>

definition live_types :: "event_type set" where
  "live_types = {RAMP_DEPLOYED, COACH_COMFORT_INDEX, ALERT_RAISED, LEDGER_DRIFT_OBSERVATION}"

definition allowed_types :: "context_state \<Rightarrow> event_type set" where
  "allowed_types c =
     (if should_emit c then live_types else if evaluate c = DEPOT then {JOURNEY_ENDED} else {})"

definition allowed :: "environment \<Rightarrow> context_state \<Rightarrow> http_req \<Rightarrow> bool" where
  "allowed E c = own E (c_journey_id c) (allowed_types c)"

lemma adds_own_mono:
  "adds (own E j ets) w w' \<Longrightarrow> ets \<subseteq> ets' \<Longrightarrow> adds (own E j ets') w w'"
  by (erule adds_mono) (rule own_mono)

lemma adds_allowed:
  "adds (own E j ets) w w' \<Longrightarrow> j = c_journey_id c \<Longrightarrow> ets \<subseteq> allowed_types c \<Longrightarrow> adds (allowed E c) w w'"
  unfolding allowed_def by (auto elim: adds_own_mono)

lemma live_allowed: "should_emit c \<Longrightarrow> et \<in> live_types \<Longrightarrow> {et} \<subseteq> allowed_types c"
  by (simp add: allowed_types_def)

lemma allowed_cong:
  "c_journey_id c' = c_journey_id c \<Longrightarrow> evaluate c' = evaluate c \<Longrightarrow> allowed E c' = allowed E c"
  by (simp add: allowed_def allowed_types_def should_emit_def)

lemma allowed_view: "same_view c c' \<Longrightarrow> allowed E c' = allowed E c"
  by (rule allowed_cong) (simp_all add: same_view_def)

lemma allowedD:
  "allowed E c r \<Longrightarrow> \<exists>e. r = PostEvent e \<and> envelope_ok (pyd E) e \<and> ev_source e = Src_fusion \<and>
     Some (ev_journey_id e) = c_journey_id c \<and>
     (if should_emit c then ev_type e \<in> live_types else evaluate c = DEPOT \<and> ev_type e = JOURNEY_ENDED)"
  by (cases r) (auto simp: allowed_def own_def allowed_types_def split: if_splits)

text \<open>The same without the end of the journey: what every stage but the gate's may send.\<close>

definition live :: "environment \<Rightarrow> context_state \<Rightarrow> http_req \<Rightarrow> bool" where
  "live E c = own E (c_journey_id c) (allowed_types c \<inter> live_types)"

lemma live_cong:
  "c_journey_id c' = c_journey_id c \<Longrightarrow> evaluate c' = evaluate c \<Longrightarrow> live E c' = live E c"
  by (simp add: live_def allowed_types_def should_emit_def)

lemma live_view: "same_view c c' \<Longrightarrow> live E c' = live E c"
  by (rule live_cong) (simp_all add: same_view_def)

lemma adds_live_allowed: "adds (live E c) w w' \<Longrightarrow> adds (allowed E c) w w'"
  unfolding live_def allowed_def by (erule adds_own_mono) simp

lemma adds_live:
  "adds (own E (c_journey_id c) {et}) w w' \<Longrightarrow> should_emit c \<Longrightarrow> et \<in> live_types \<Longrightarrow> adds (live E c) w w'"
  unfolding live_def by (erule adds_own_mono) (simp add: allowed_types_def)

lemma live_not_ended:
  assumes "adds (live E c) w w'"
  shows "ended_events w' = ended_events w"
proof -
  have "filter (\<lambda>e. ev_type e = JOURNEY_ENDED) (sent_events rs) = []" if "list_all (live E c) rs" for rs
    using that by (induction rs rule: sent_events.induct) (auto simp: live_def own_def live_types_def)
  with assms show ?thesis by (auto simp: adds_def ended_events_def)
qed

lemma on_context_changed_cases:
  assumes "on_context_changed E S c now g w = (r, g', w')"
  obtains "w' = w" "r = Inr ()"
  | "evaluate c = DEPOT" "emit_envelope E S c now (event_type_value JOURNEY_ENDED) [] Sev_info w = (r, w')"
proof (cases "evaluate c = DEPOT \<and> g_last_state g \<noteq> DEPOT \<and> str_or (c_journey_id c) [] \<noteq> [] \<and>
    str_or (c_journey_id c) [] \<notin> set (g_ended_for g)")
  case True
  obtain r0 w0 where "emit_envelope E S c now ''JOURNEY_ENDED'' [] Sev_info w = (r0, w0)" by fastforce
  with assms True show ?thesis by (intro that(2)) (simp_all add: on_context_changed_def Let_def)
next
  case False
  with assms have "w' = w \<and> r = Inr ()"
    unfolding on_context_changed_def Let_def by (simp only: if_False if_True simp_thms split: if_splits) auto
  then show ?thesis by (intro that(1)) auto
qed

lemma on_context_changed_allowed:
  assumes "env_ok E" "on_context_changed E S c now g w = (r, g', w')"
  shows "adds (allowed E c) w w'"
  using assms(2)
proof (cases rule: on_context_changed_cases)
  case 1
  then show ?thesis by simp
next
  case 2
  then have "{JOURNEY_ENDED} \<subseteq> allowed_types c"
    by (simp add: allowed_types_def should_emit_def)
  with emit_envelope_grows [OF assms(1) 2(2)] show ?thesis by (auto intro: adds_allowed)
qed

lemma ramp_stage_allowed:
  assumes "env_ok E" "ramp_stage E S now tick m c w = (r, c', w')"
  shows "same_view c c' \<and> adds (live E c) w w'"
proof -
  have 1: "same_view c c1 \<and> w1 = w" if "ramp_stage E S now tick m c w = (r1, c1, w1)"
    "pu_ramp_deployed m = None \<or> \<not> fst (observe_ramp_signal c (the (pu_ramp_deployed m))) \<or>
       \<not> should_emit (snd (observe_ramp_signal c (the (pu_ramp_deployed m))))" for r1 c1 w1
    using that by (auto simp: ramp_stage_def observe_ramp_signal_def same_view_ramp split: option.splits if_splits)
  show "same_view c c' \<and> adds (live E c) w w'"
  proof (cases "pu_ramp_deployed m = None \<or> \<not> fst (observe_ramp_signal c (the (pu_ramp_deployed m))) \<or>
       \<not> should_emit (snd (observe_ramp_signal c (the (pu_ramp_deployed m))))")
    case True
    from 1 [OF assms(2) True] show ?thesis by simp
  next
    case False
    let ?c1 = "c\<lparr>c_ramp_deployed := the (pu_ramp_deployed m)\<rparr>"
    from False have em: "should_emit ?c1" by (simp add: observe_ramp_signal_def)
    from False assms(2) obtain r' car door st where
      h: "handle_ramp_deployed E S now tick car door st ?c1 w = (r', c', w')"
      by (auto simp: ramp_stage_def observe_ramp_signal_def Let_def split: option.splits if_splits prod.splits)
    have v1: "same_view c ?c1" by (rule same_view_ramp)
    from same_view_trans [OF v1 handle_ramp_deployed_view [OF h]] have v: "same_view c c'" .
    have "adds (live E ?c1) w w'"
      by (rule adds_live [OF handle_ramp_deployed_grows [OF assms(1) h] em]) (simp add: live_types_def)
    with v live_view [OF v1] show ?thesis by simp
  qed
qed

lemma emit_comforts_grows:
  assumes "env_ok E"
  shows "emit_comforts E S c now ps w = (r, w') \<Longrightarrow> adds (own E (c_journey_id c) {COACH_COMFORT_INDEX}) w w'"
proof (induction ps arbitrary: w)
  case Nil
  then show ?case by simp
next
  case (Cons p ps)
  obtain r1 w1 where em: "emit_envelope E S c now (event_type_value COACH_COMFORT_INDEX) (comfort_json p) Sev_info w = (r1, w1)"
    by fastforce
  note g = emit_envelope_grows [OF assms em]
  show ?case
  proof (cases "catch_http r1")
    case (Inl e)
    with Cons.prems em g show ?thesis by simp
  next
    case (Inr u)
    with Cons.prems em have "emit_comforts E S c now ps w1 = (r, w')" by simp
    from adds_trans [OF g Cons.IH [OF this]] show ?thesis .
  qed
qed

lemma station_stage_allowed:
  assumes "env_ok E" "station_stage E S now cf c w = (r, c', w')"
  shows "c_journey_id c' = c_journey_id c \<and> evaluate c' = evaluate c" "adds (live E c) w w'"
proof -
  have ev: "evaluate (consume_station_approach_edge c) = evaluate c"
    by (simp add: consume_station_approach_edge_def evaluate_def)
  show "c_journey_id c' = c_journey_id c \<and> evaluate c' = evaluate c"
    using assms(2) ev by (auto simp: station_stage_def Let_def consume_station_approach_edge_def
        split: if_splits prod.splits)
  show "adds (live E c) w w'"
  proof (cases "\<not> peek_station_approach_edge c \<or> \<not> should_emit c")
    case True
    with assms(2) show ?thesis by (auto simp: station_stage_def)
  next
    case False
    with assms(2) have "emit_comforts E S (consume_station_approach_edge c) now (on_station_approach_edge cf) w = (r, w')"
      by (auto simp: station_stage_def Let_def split: prod.splits)
    from emit_comforts_grows [OF assms(1) this] False show ?thesis
      by (intro adds_live) (auto simp: consume_station_approach_edge_def live_types_def)
  qed
qed

text \<open>The three stages of a push, unfolded once.\<close>

lemma context_push_cases:
  assumes "context_push E S now tick m A = (r, A')"
  obtains r1 g1 w1 r2 c2 w2 r3 c3 w3 where
    "on_context_changed E S (update_from_push (a_ctx A) m) now (a_gate A) (a_world A) = (r1, g1, w1)"
    "ramp_stage E S now tick m (update_from_push (a_ctx A) m) w1 = (r2, c2, w2)"
    "station_stage E S now (a_comfort A') c2 w2 = (r3, c3, w3)"
    "a_gate A' = g1" "a_ledger A' = a_ledger A" "a_comfort A' \<in> {a_comfort A, reset_comfort (a_comfort A)}"
    "(a_ctx A', a_world A') \<in> {(update_from_push (a_ctx A) m, w1), (c2, w2), (c3, w3)}"
proof -
  let ?c = "update_from_push (a_ctx A) m"
  let ?cf = "if c_journey_id ?c \<noteq> c_journey_id (a_ctx A) then reset_comfort (a_comfort A) else a_comfort A"
  obtain r1 g1 w1 where 1: "on_context_changed E S ?c now (a_gate A) (a_world A) = (r1, g1, w1)"
    by (metis prod_cases3)
  obtain r2 c2 w2 where 2: "ramp_stage E S now tick m ?c w1 = (r2, c2, w2)"
    by (metis prod_cases3)
  obtain r3 c3 w3 where 3: "station_stage E S now ?cf c2 w2 = (r3, c3, w3)"
    by (metis prod_cases3)
  let ?A1 = "A\<lparr>a_ctx := ?c, a_comfort := ?cf, a_gate := g1, a_world := w1\<rparr>"
  have "A' = ?A1 \<or> A' = ?A1\<lparr>a_ctx := c2, a_world := w2\<rparr> \<or> A' = ?A1\<lparr>a_ctx := c3, a_world := w3\<rparr>"
  proof (cases r1)
    case (Inl e)
    with assms show ?thesis unfolding context_push_def Let_def 1 by simp
  next
    case (Inr u1)
    show ?thesis
    proof (cases r2)
      case (Inl e)
      with assms \<open>r1 = Inr u1\<close> show ?thesis unfolding context_push_def Let_def 1 by (simp add: 2)
    next
      case (Inr u2)
      with assms \<open>r1 = Inr u1\<close> show ?thesis
        unfolding context_push_def Let_def 1 sum.case prod.case 2 Inr 3 by simp
    qed
  qed
  then have "a_comfort A' = ?cf" "a_gate A' = g1" "a_ledger A' = a_ledger A"
    "(a_ctx A', a_world A') \<in> {(?c, w1), (c2, w2), (c3, w3)}"
    by (elim disjE, simp_all)+
  with 1 2 3 show ?thesis by (intro that) auto
qed

lemma context_push_allowed:
  assumes "env_ok E" "context_push E S now tick m A = (r, A')"
  shows "adds (allowed E (a_ctx A')) (a_world A) (a_world A')"
    "ended_once (a_gate A) (a_world A) \<Longrightarrow> ended_once (a_gate A') (a_world A')"
proof -
  let ?c = "update_from_push (a_ctx A) m"
  from context_push_cases [OF assms(2)] obtain r1 g1 w1 r2 c2 w2 r3 c3 w3 where
    1: "on_context_changed E S ?c now (a_gate A) (a_world A) = (r1, g1, w1)" and
    2: "ramp_stage E S now tick m ?c w1 = (r2, c2, w2)" and
    3: "station_stage E S now (a_comfort A') c2 w2 = (r3, c3, w3)" and g: "a_gate A' = g1" and
    A': "(a_ctx A', a_world A') \<in> {(?c, w1), (c2, w2), (c3, w3)}"
    by metis
  note g1 = on_context_changed_allowed [OF assms(1) 1]
  from ramp_stage_allowed [OF assms(1) 2] have v2: "same_view ?c c2" and g2: "adds (live E ?c) w1 w2" by auto
  have g3: "adds (live E ?c) w2 w3"
    using station_stage_allowed(2) [OF assms(1) 3] by (simp add: live_view [OF v2])
  have "allowed E c3 = allowed E c2"
    using station_stage_allowed(1) [OF assms(1) 3] by (intro allowed_cong) auto
  with allowed_view [OF v2] A' g1 adds_trans [OF g1 adds_live_allowed [OF g2]]
    adds_trans [OF g1 adds_trans [OF adds_live_allowed [OF g2] adds_live_allowed [OF g3]]]
  show "adds (allowed E (a_ctx A')) (a_world A) (a_world A')" by auto
  assume "ended_once (a_gate A) (a_world A)"
  from on_context_changed_ended_once [OF assms(1) this 1] have "ended_once g1 w1" .
  moreover have "ended_events (a_world A') = ended_events w1"
    using A' live_not_ended [OF g2] live_not_ended [OF g3] by auto
  ultimately show "ended_once (a_gate A') (a_world A')" by (simp add: ended_once_def g)
qed

lemma emit_live_grows:
  assumes "env_ok E" "emit_envelope E S c now (event_type_value et) p sev w = (r, w')"
    "should_emit c" "et \<in> live_types"
  shows "adds (live E c) w w'"
  using assms(3,4) by (rule adds_live [OF emit_envelope_grows [OF assms(1,2)]])

lemmas emit_drift_grows = emit_live_grows [where et = LEDGER_DRIFT_OBSERVATION, simplified]
  and emit_comfort_grows = emit_live_grows [where et = COACH_COMFORT_INDEX, simplified]

lemma drift_stage_allowed:
  assumes "env_ok E" "drift_stage E S now v A = (r, A')"
  shows "a_ctx A' = a_ctx A \<and> a_gate A' = a_gate A \<and> a_comfort A' = a_comfort A \<and>
    a_ledger A' = snd (check_drift S (a_ledger A) (jstr_at v ''car_id'') (jint_at v ''occupancy_count'')
        (c_station_approach (a_ctx A))) \<and>
    adds (live E (a_ctx A)) (a_world A) (a_world A')"
proof -
  obtain o_b L' where d: "check_drift S (a_ledger A) (jstr_at v ''car_id'') (jint_at v ''occupancy_count'')
        (c_station_approach (a_ctx A)) = (o_b, L')" by fastforce
  show ?thesis
  proof (cases "o_b = None \<or> \<not> should_emit (a_ctx A)")
    case True
    with assms(2) show ?thesis by (auto simp: drift_stage_def d Let_def split: option.splits)
  next
    case False
    then obtain ob where ob: "o_b = Some ob" "should_emit (a_ctx A)" by auto
    obtain r0 w0 where em: "emit_envelope E S (a_ctx A) now ''LEDGER_DRIFT_OBSERVATION''
        (drift_payload ob) Sev_info (a_world A) = (r0, w0)" by fastforce
    have "adds (live E (a_ctx A)) (a_world A) w0"
      by (rule emit_drift_grows [OF assms(1) em ob(2)]) (simp add: live_types_def)
    with assms(2) ob em show ?thesis by (auto simp: drift_stage_def d Let_def)
  qed
qed

lemma comfort_stage_allowed:
  assumes "env_ok E" "comfort_stage E S now v A = (r, A')"
  shows "a_ctx A' = a_ctx A \<and> a_gate A' = a_gate A \<and> a_ledger A' = a_ledger A \<and>
    adds (live E (a_ctx A)) (a_world A) (a_world A') \<and>
    (comfort_inv (a_comfort A) \<longrightarrow> comfort_inv (a_comfort A'))"
proof (cases "should_emit (a_ctx A)")
  case False
  with assms(2) show ?thesis by (simp add: comfort_stage_def)
next
  case True
  let ?car = "jstr_at v ''car_id''"
  obtain p cf where u: "on_occupancy_update S (a_comfort A) ?car (jnum_at v ''occupancy_pct'') = (p, cf)"
    by fastforce
  have inv: "comfort_inv (a_comfort A) \<longrightarrow> comfort_inv cf" and obs: "?car \<in> set (cf_observed cf)"
    using comfort_inv_update [of "a_comfort A" S ?car "jnum_at v ''occupancy_pct''"]
      update_observes [of ?car S "a_comfort A" "jnum_at v ''occupancy_pct''"] by (simp_all add: u)
  show ?thesis
  proof (cases p)
    case None
    with assms(2) True u inv show ?thesis by (auto simp: comfort_stage_def Let_def)
  next
    case (Some q)
    obtain r0 w0 where em: "emit_envelope E S (a_ctx A) now ''COACH_COMFORT_INDEX''
        (comfort_json q) Sev_info (a_world A) = (r0, w0)" by fastforce
    have "adds (live E (a_ctx A)) (a_world A) w0"
      by (rule emit_comfort_grows [OF assms(1) em True]) (simp add: live_types_def)
    with assms(2) True u Some em inv obs show ?thesis
      by (auto simp: comfort_stage_def Let_def comfort_inv_confirm)
  qed
qed

section \<open>Every request\<close>

lemma candidate_occupancy_allowed:
  assumes "env_ok E" "candidate_occupancy_update E S now v A = (r, A')"
  shows "a_ctx A' = a_ctx A \<and> a_gate A' = a_gate A \<and>
    (\<exists>car n st. a_ledger A' = snd (check_drift S (a_ledger A) car n st)) \<and>
    adds (live E (a_ctx A)) (a_world A) (a_world A') \<and>
    (comfort_inv (a_comfort A) \<longrightarrow> comfort_inv (a_comfort A'))"
proof -
  obtain r1 A1 where d: "drift_stage E S now v A = (r1, A1)" by fastforce
  note da = drift_stage_allowed [OF assms(1) d]
  show ?thesis
  proof (cases r1)
    case (Inl e)
    with d assms(2) have "A' = A1" by (simp add: candidate_occupancy_update_def)
    with da show ?thesis by auto
  next
    case (Inr u)
    with d assms(2) have "comfort_stage E S now v A1 = (r, A')" by (simp add: candidate_occupancy_update_def)
    from comfort_stage_allowed [OF assms(1) this] da show ?thesis by (auto intro: adds_trans)
  qed
qed

lemma door_candidate_allowed:
  assumes "env_ok E" "candidate_door_obstruction E S now v A = (r, A')"
  shows "\<exists>w'. A' = A\<lparr>a_world := w'\<rparr> \<and>
    adds (live E (a_ctx A)) (a_world A) w'"
proof -
  obtain r0 w0 where h: "handle_door_obstruction E S (a_ctx A) now v (a_world A) = (r0, w0)" by fastforce
  note g = handle_door_obstruction_grows [OF assms(1) h]
  have "adds (live E (a_ctx A)) (a_world A) w0"
  proof (cases "should_emit (a_ctx A)")
    case True
    show ?thesis by (rule adds_live [OF g(1) True]) (simp add: live_types_def)
  next
    case False
    with g(2) show ?thesis by simp
  qed
  with h assms(2) show ?thesis by (auto simp: candidate_door_obstruction_def)
qed

lemma alert_candidate_allowed:
  assumes "env_ok E" "candidate_alert_raised E S now p A = (r, A')"
  shows "\<exists>w'. A' = A\<lparr>a_world := w'\<rparr> \<and>
    adds (live E (a_ctx A)) (a_world A) w'"
proof (cases "should_emit (a_ctx A)")
  case False
  with assms(2) show ?thesis by (intro exI [of _ "a_world A"]) (simp add: candidate_alert_raised_def)
next
  case True
  obtain r0 w0 where em: "emit_alert E S (a_ctx A) now ''slip_fall'' (resolve_car_id (a_ctx A) (sf_car_id p))
      (slip_fall_description p) ''model'' None (Some (keep_or (sf_confidence p) 0))
      (Some (versions_or_unknown (keep_or (sf_model_versions p) []))) (a_world A) = (r0, w0)" by fastforce
  have "ALERT_RAISED \<in> live_types" by (simp add: live_types_def)
  from adds_live [OF emit_alert_grows [OF assms(1) em] True this] em True assms(2) show ?thesis
    by (auto simp: candidate_alert_raised_def)
qed

section \<open>The container as a transition system\<close>

definition sound_request :: "environment \<Rightarrow> http_req \<Rightarrow> bool" where
  "sound_request E r =
     (case r of PostEvent e \<Rightarrow> envelope_ok (pyd E) e \<and> ev_source e = Src_fusion | _ \<Rightarrow> False)"

lemma own_sound: "own E j ets r \<Longrightarrow> sound_request E r"
  by (simp add: own_def sound_request_def split: http_req.splits)

lemma sound_requestD:
  "sound_request E r \<Longrightarrow> \<exists>e. r = PostEvent e \<and> envelope_ok (pyd E) e \<and> ev_source e = Src_fusion"
  by (cases r) (auto simp: sound_request_def)

definition app_inv :: "environment \<Rightarrow> fusion_app \<Rightarrow> bool" where
  "app_inv E A \<longleftrightarrow> ended_once (a_gate A) (a_world A) \<and> ledger_inv (a_ledger A) \<and> comfort_inv (a_comfort A) \<and>
     list_all (sound_request E) (w_sent (a_world A))"

lemma adds_sound:
  "adds (allowed E c) w w' \<Longrightarrow> list_all (sound_request E) (w_sent w) \<Longrightarrow> list_all (sound_request E) (w_sent w')"
  by (auto simp: adds_def allowed_def list_all_iff dest: own_sound)

text \<open>What one request does to the parts of the state.\<close>

definition request_effect :: "environment \<Rightarrow> fusion_app \<Rightarrow> fusion_app \<Rightarrow> bool" where
  "request_effect E A A' \<longleftrightarrow>
     adds (allowed E (a_ctx A')) (a_world A) (a_world A') \<and> (app_inv E A \<longrightarrow> app_inv E A')"

lemma request_effect_refl [simp]: "request_effect E A A"
  by (simp add: request_effect_def)

lemma request_effect_live:
  assumes "a_ctx A' = a_ctx A" "a_gate A' = a_gate A" "adds (live E (a_ctx A)) (a_world A) (a_world A')"
    "ledger_inv (a_ledger A) \<Longrightarrow> ledger_inv (a_ledger A')" "comfort_inv (a_comfort A) \<Longrightarrow> comfort_inv (a_comfort A')"
  shows "request_effect E A A'"
  using assms adds_live_allowed [OF assms(3)] live_not_ended [OF assms(3)]
  by (auto simp: request_effect_def app_inv_def ended_once_def intro: adds_sound)

lemma request_effect_push:
  assumes "env_ok E" "context_push E S now tick m A = (r, A')"
  shows "request_effect E A A'"
proof -
  have f: "a_ledger A' = a_ledger A"
    "a_comfort A' = a_comfort A \<or> a_comfort A' = reset_comfort (a_comfort A)"
    by (rule context_push_cases [OF assms(2)], simp)+
  with context_push_allowed [OF assms] show ?thesis
    by (auto simp: request_effect_def app_inv_def comfort_inv_reset intro: adds_sound)
qed

lemma request_effect_access:
  "candidate_accessibility tick v A = (r, A') \<Longrightarrow> request_effect E A A'"
  by (auto simp: candidate_accessibility_def request_effect_def app_inv_def)

lemma ledger_inv_events:
  "ledger_inv L \<Longrightarrow> ledger_inv (on_wagon_exit L p ts)" "ledger_inv L \<Longrightarrow> ledger_inv (on_wagon_entry L p ts)"
  "ledger_inv L \<Longrightarrow> ledger_inv (snd (check_drift S L car n st))"
  by (simp_all add: ledger_inv_def write_through_exit pending_ok_exit write_through_entry pending_ok_entry
      write_through_drift pending_ok_drift)

lemma request_effect_body:
  assumes "\<And>v r A'. f v = (r, A') \<Longrightarrow> request_effect E A A'" "with_body E et b f A = (resp, A')"
  shows "request_effect E A A'"
  using assms by (auto simp: with_body_def split: sum.splits prod.splits)

lemma fusion_handle_effect:
  assumes "env_ok E" "fusion_handle E S now tick req A = (resp, A')"
  shows "request_effect E A A'"
proof (cases req)
  case (Post_context m)
  with assms show ?thesis by (auto split: prod.splits dest: request_effect_push)
next
  case (Post_door_obstruction b)
  have "request_effect E A A''" if "candidate_door_obstruction E S now v A = (r, A'')" for v r A''
    using door_candidate_allowed [OF assms(1) that] by (auto intro: request_effect_live)
  with Post_door_obstruction assms(2) show ?thesis by (auto elim!: request_effect_body [rotated])
next
  case (Post_alert_raised p)
  have "request_effect E A A''" if "candidate_alert_raised E S now p A = (r, A'')" for r A''
    using alert_candidate_allowed [OF assms(1) that] by (auto intro: request_effect_live)
  with Post_alert_raised assms(2) show ?thesis by (auto split: prod.splits)
next
  case (Post_accessibility b)
  with assms(2) show ?thesis by (auto elim!: request_effect_body [rotated] dest: request_effect_access)
next
  case (Post_wagon_exit b)
  have "request_effect E A A''" if "candidate_wagon_exit now v A = (r, A'')" for v r A''
    using that by (intro request_effect_live) (auto simp: candidate_wagon_exit_def ledger_inv_events)
  with Post_wagon_exit assms(2) show ?thesis by (auto elim!: request_effect_body [rotated])
next
  case (Post_wagon_entry b)
  have "request_effect E A A''" if "candidate_wagon_entry now v A = (r, A'')" for v r A''
    using that by (intro request_effect_live) (auto simp: candidate_wagon_entry_def ledger_inv_events)
  with Post_wagon_entry assms(2) show ?thesis by (auto elim!: request_effect_body [rotated])
next
  case (Post_occupancy b)
  have "request_effect E A A''" if "candidate_occupancy_update E S now v A = (r, A'')" for v r A''
    using candidate_occupancy_allowed [OF assms(1) that] by (auto intro!: request_effect_live simp: ledger_inv_events)
  with Post_occupancy assms(2) show ?thesis by (auto elim!: request_effect_body [rotated])
qed

inductive app_step :: "environment \<Rightarrow> fusion_settings \<Rightarrow> fusion_app \<Rightarrow> fusion_app \<Rightarrow> bool" for E S where
  app_request: "app_step E S A (snd (fusion_handle E S now tick req A))"
| app_fire: "app_step E S A (A\<lparr>a_ledger := fire_timer (a_ledger A) h\<rparr>)"
| app_task: "app_step E S A (A\<lparr>a_ledger := run_task (a_ledger A) t\<rparr>)"

text \<open>A process starts on a table whose counters are not negative.\<close>

definition app_start :: "fusion_app \<Rightarrow> bool" where
  "app_start A = (\<exists>table. A = init_app table \<and> (\<forall>c r. dget table c = Some r \<longrightarrow> 0 \<le> lr_unreconciled r))"

lemma app_start_inv: "app_start A \<Longrightarrow> app_inv E A"
  by (auto simp: app_start_def app_inv_def init_app_def ended_once_def ended_events_def ledger_inv_def
      write_through_load comfort_inv_init intro!: pending_ok_load)

lemma app_step_inv: "env_ok E \<Longrightarrow> app_inv E A \<Longrightarrow> app_step E S A A' \<Longrightarrow> app_inv E A'"
  by (erule app_step.cases)
    (auto simp: app_inv_def fire_timer_inv run_task_inv
      dest!: fusion_handle_effect [OF _ surjective_pairing, unfolded request_effect_def app_inv_def])

text \<open>The steps of a container whose environment keeps its documented promises.\<close>

definition app_next :: "environment \<Rightarrow> fusion_settings \<Rightarrow> fusion_app \<Rightarrow> fusion_app \<Rightarrow> bool" where
  "app_next E S A A' = (env_ok E \<and> app_step E S A A')"

interpretation app: invariant_system app_start "app_next E S" "app_inv E" for E S
  by unfold_locales (auto simp: app_next_def intro: app_start_inv app_step_inv)

section \<open>Replies\<close>

definition never_raises :: "fusion_request \<Rightarrow> bool" where
  "never_raises req =
     (case req of Post_context m \<Rightarrow> False | Post_occupancy b \<Rightarrow> False | _ \<Rightarrow> True)"

lemma candidates_never_500:
  "never_raises req \<Longrightarrow> fst (fusion_handle E S now tick req A) \<noteq> Server_error"
  by (cases req)
    (auto simp: never_raises_def with_body_def respond_def candidate_door_obstruction_def catch_all_def
      candidate_alert_raised_def candidate_accessibility_def candidate_wagon_exit_def
      candidate_wagon_entry_def split: sum.splits prod.splits if_splits)

section \<open>The station-approach edge\<close>

definition comfort_events :: "world \<Rightarrow> envelope list" where
  "comfort_events w = filter (\<lambda>e. ev_type e = COACH_COMFORT_INDEX) (sent_events (w_sent w))"

lemma push_keeps_prev: "c_prev_station_approach (update_from_push c m) = c_prev_station_approach c"
  by (simp add: update_from_push_def Let_def)

lemma station_stage_idle:
  "c_prev_station_approach c \<Longrightarrow> station_stage E S now cf c w = (Inr (), c, w)"
  by (simp add: station_stage_def peek_station_approach_edge_def)

lemma own_no_comfort:
  assumes "adds (own E j ets) w w'" "COACH_COMFORT_INDEX \<notin> ets"
  shows "comfort_events w' = comfort_events w"
proof -
  have "filter (\<lambda>e. ev_type e = COACH_COMFORT_INDEX) (sent_events rs) = []" if "list_all (own E j ets) rs" for rs
    using that assms(2) by (induction rs rule: sent_events.induct) (auto simp: own_def)
  with assms(1) show ?thesis by (auto simp: adds_def comfort_events_def)
qed

lemma ramp_stage_no_comfort:
  assumes "env_ok E" "ramp_stage E S now tick m c w = (r, c', w')"
  shows "comfort_events w' = comfort_events w"
proof -
  have "comfort_events w1 = comfort_events w"
    if "handle_ramp_deployed E S now tick car door st c1 w = (r1, c2, w1)" for car door st c1 r1 c2 w1
    using own_no_comfort [OF handle_ramp_deployed_grows [OF assms(1) that]] by simp
  with assms(2) show ?thesis
    by (auto simp: ramp_stage_def Let_def split: option.splits prod.splits if_splits)
qed

lemma gate_no_comfort:
  assumes "env_ok E" "on_context_changed E S c now g w = (r, g', w')"
  shows "comfort_events w' = comfort_events w"
  using assms(2)
proof (cases rule: on_context_changed_cases)
  case 2
  from own_no_comfort [OF emit_envelope_grows [OF assms(1) 2(2)]] show ?thesis by simp
qed simp

lemma push_after_edge:
  assumes "env_ok E" "c_prev_station_approach (a_ctx A)" "context_push E S now tick m A = (r, A')"
  shows "c_prev_station_approach (a_ctx A') \<and> comfort_events (a_world A') = comfort_events (a_world A)"
proof -
  let ?c = "update_from_push (a_ctx A) m"
  from context_push_cases [OF assms(3)] obtain r1 g1 w1 r2 c2 w2 r3 c3 w3 where
    1: "on_context_changed E S ?c now (a_gate A) (a_world A) = (r1, g1, w1)" and
    2: "ramp_stage E S now tick m ?c w1 = (r2, c2, w2)" and
    3: "station_stage E S now (a_comfort A') c2 w2 = (r3, c3, w3)" and
    A': "(a_ctx A', a_world A') \<in> {(?c, w1), (c2, w2), (c3, w3)}"
    by metis
  have p: "c_prev_station_approach ?c" using assms(2) by (simp add: push_keeps_prev)
  with ramp_stage_allowed [OF assms(1) 2] have "c_prev_station_approach c2" by (simp add: same_view_def)
  with 3 have "c3 = c2" "w3 = w2" by (simp_all add: station_stage_idle)
  with p A' \<open>c_prev_station_approach c2\<close> gate_no_comfort [OF assms(1) 1] ramp_stage_no_comfort [OF assms(1) 2]
  show ?thesis by auto
qed

lemma prev_forever_step:
  assumes "env_ok E" "c_prev_station_approach (a_ctx A)" "app_step E S A A'"
  shows "c_prev_station_approach (a_ctx A')"
  using assms(3)
proof cases
  case (app_request now tick req)
  obtain resp A2 where h: "fusion_handle E S now tick req A = (resp, A2)" by fastforce
  have body: "c_prev_station_approach (a_ctx A2)"
    if "with_body E et b f A = (resp, A2)" "\<And>v r A3. f v = (r, A3) \<Longrightarrow> c_prev_station_approach (a_ctx A3)" for et b f
    using that assms(2) by (auto simp: with_body_def split: sum.splits prod.splits)
  have "c_prev_station_approach (a_ctx A2)"
  proof (cases req)
    case (Post_context m)
    with h assms show ?thesis by (auto split: prod.splits dest: push_after_edge)
  next
    case (Post_door_obstruction b)
    with h assms show ?thesis by (auto elim!: body dest: door_candidate_allowed)
  next
    case (Post_alert_raised p)
    with h assms show ?thesis by (auto split: prod.splits dest: alert_candidate_allowed)
  next
    case (Post_accessibility b)
    with h assms show ?thesis
      by (auto elim!: body simp: candidate_accessibility_def note_accessibility_candidate_def note_accessibility_def Let_def)
  next
    case (Post_wagon_exit b)
    with h assms show ?thesis by (auto elim!: body simp: candidate_wagon_exit_def)
  next
    case (Post_wagon_entry b)
    with h assms show ?thesis by (auto elim!: body simp: candidate_wagon_entry_def)
  next
    case (Post_occupancy b)
    with h assms show ?thesis by (auto elim!: body dest: candidate_occupancy_allowed)
  qed
  with h app_request show ?thesis by simp
qed (use assms in simp_all)

lemma prev_forever:
  "(app_next E S)\<^sup>*\<^sup>* A A' \<Longrightarrow> c_prev_station_approach (a_ctx A) \<Longrightarrow> c_prev_station_approach (a_ctx A')"
  by (induction rule: rtranclp_induct) (auto simp: app_next_def intro: prev_forever_step)

end
