(* ===== verification/Train_Contracts.thy ===== *)
theory Train_Contracts
  imports Infer_Control Fusion_App_Facts Event_Anonymise
begin

text \<open>
  The contracts between the containers of the train, over the definitions of both ends: what
  the tripwire of the inference container posts and what fusion does with it, and what a
  fusion alert looks like once the egress filter has seen it; and where the containers send by default.
\<close>

section \<open>From the tripwire to the ledger\<close>

text \<open>The wagon event fusion reads out of what the tripwire posts.\<close>

definition tripwire_event :: "tripwire \<Rightarrow> int \<Rightarrow> traversal \<Rightarrow> rat \<Rightarrow> bool \<Rightarrow> wagon_event" where
  "tripwire_event tw t tr conf orphan =
     \<lparr>we_track = TInt t, we_from = tc_from (tw_config tw), we_to = tc_to (tw_config tw),
      we_camera = Some (tw_camera_id tw), we_traversal = traversal_value tr,
      we_confidence = conf, we_expect_orphan = orphan\<rparr>"

definition exit_kwargs :: "tripwire \<Rightarrow> int \<Rightarrow> traversal \<Rightarrow> rat \<Rightarrow> bool \<Rightarrow> jdict" where
  "exit_kwargs tw t tr conf orphan = wagon_kwargs tw t tr conf @ [(''expect_orphan'', JBool orphan)]"

definition tripwire_named :: "tripwire \<Rightarrow> bool" where
  "tripwire_named tw \<longleftrightarrow> tc_from (tw_config tw) \<noteq> [] \<and> tc_to (tw_config tw) \<noteq> [] \<and> tw_camera_id tw \<noteq> []"

lemma nonempty_length: "xs \<noteq> [] \<Longrightarrow> Suc 0 \<le> length xs"
  by (cases xs) simp_all

lemma traversal_literal: "traversal_value tr \<in> {''from_to'', ''to_from''}"
  by (cases tr) simp_all

lemma exit_kwargs_valid:
  assumes "pyd_ok pd" "tripwire_named tw" "0 \<le> conf" "conf \<le> 1"
  shows "validate_payload pd WAGON_EXIT (exit_kwargs tw t tr conf b) = Inr (exit_kwargs tw t tr conf b)"
  using assms traversal_literal [of tr]
  by (simp add: exit_kwargs_def wagon_kwargs_def tripwire_named_def pyd_ok_def validate_payload_def validate_fields_def
      wagon_exit_fields_def field_names_def field_name_def dkeys_def payload_invariant_def keep_if_def nonempty_length)

lemma entry_kwargs_valid:
  assumes "pyd_ok pd" "tripwire_named tw" "0 \<le> conf" "conf \<le> 1"
  shows "validate_payload pd WAGON_ENTRY (wagon_kwargs tw t tr conf) = Inr (wagon_kwargs tw t tr conf)"
  using assms traversal_literal [of tr]
  by (simp add: wagon_kwargs_def tripwire_named_def pyd_ok_def validate_payload_def validate_fields_def
      wagon_entry_fields_def field_names_def field_name_def dkeys_def payload_invariant_def keep_if_def nonempty_length)

lemma wagon_dump:
  "model_dump WAGON_EXIT (exit_kwargs tw t tr conf b) = exit_kwargs tw t tr conf b"
  "model_dump WAGON_ENTRY (wagon_kwargs tw t tr conf) = wagon_kwargs tw t tr conf"
  by (simp_all add: model_dump_def drop_none_def exit_kwargs_def wagon_kwargs_def)

lemma wagon_event_read:
  "wagon_event_of (exit_kwargs tw t tr conf b) = tripwire_event tw t tr conf b"
  "wagon_event_of (wagon_kwargs tw t tr conf) = tripwire_event tw t tr conf False"
  by (simp_all add: wagon_event_of_def exit_kwargs_def wagon_kwargs_def tripwire_event_def
      jstr_at_def jopt_str_at_def jnum_at_def jbool_at_def jnum_of_def)

lemma exit_handled:
  assumes "pyd_ok (pyd F)" "tripwire_named tw" "0 \<le> conf" "conf \<le> 1"
  shows "fusion_handle F S now tick (Post_wagon_exit (exit_kwargs tw t tr conf b)) A =
     (Accepted, A\<lparr>a_ledger := on_wagon_exit (a_ledger A) (tripwire_event tw t tr conf b) (utc_now_iso (now (w_uuids (a_world A))))\<rparr>)"
  by (simp add: with_body_def exit_kwargs_valid [OF assms] candidate_wagon_exit_def wagon_event_read respond_def)

lemma entry_handled:
  assumes "pyd_ok (pyd F)" "tripwire_named tw" "0 \<le> conf" "conf \<le> 1"
  shows "fusion_handle F S now tick (Post_wagon_entry (wagon_kwargs tw t tr conf)) A =
     (Accepted, A\<lparr>a_ledger := on_wagon_entry (a_ledger A) (tripwire_event tw t tr conf False) (utc_now_iso (now (w_uuids (a_world A))))\<rparr>)"
  by (simp add: with_body_def entry_kwargs_valid [OF assms] candidate_wagon_entry_def wagon_event_read respond_def)

section \<open>Delivery on a working network\<close>

lemma emit_event_acked:
  assumes "net E (w_tick w) = Acked" "net E (Suc (w_tick w)) = Acked"
    and "validate_payload (pyd E) et kw = Inr v"
    and "infer_envelope E S j (uuids E (w_uuids w)) (now (w_uuids w)) et (model_dump et v) sev = Inr e"
  shows "emit_event E S j now et kw sev (Some p) w =
     (Inr (), w\<lparr>w_uuids := Suc (w_uuids w), w_tick := Suc (Suc (w_tick w)),
                w_sent := w_sent w @ [PostEvent e, PostFusion p (model_dump et v)]\<rparr>)"
  unfolding emit_event_def default_attempts_def
  by (simp add: numeral_eq_Suc emit_attempt_def next_uuid_def http_post_def follow_up_def assms)

section \<open>What an alert says\<close>

lemma alert_description:
  assumes "pyd_ok pd"
    and "validate_payload pd ALERT_RAISED (alert_kwargs aid code car zone desc pri score basis vs secs) = Inr v"
  shows "dget (model_dump ALERT_RAISED v) ''description'' = Some (JStr desc)"
proof -
  let ?f = "(''description'', Sc NonEmptyStr, Required) :: field_spec"
  let ?d = "alert_kwargs aid code car zone desc pri score basis vs secs"
  from assms(2) have "those (map (check_field pd ?d) alert_raised_fields) = Some v"
    by (simp add: validate_payload_def validate_fields_def split: option.splits if_splits)
  moreover have "distinct (field_names alert_raised_fields)"
    using payload_class_ok [of ALERT_RAISED] by (simp add: class_ok_def)
  moreover have "?f \<in> set alert_raised_fields" by (simp add: alert_raised_fields_def)
  ultimately obtain j where "check_field pd ?d ?f = Some (field_name ?f, j)" "dget v (field_name ?f) = Some j"
    by (blast dest: check_fields_get)
  then have "dget v ''description'' = Some (JStr desc)"
    using assms(1) by (auto simp: field_name_def alert_kwargs_def pyd_ok_def)
  then show ?thesis by (simp add: model_dump_def dget_drop_nones del: dropped_keys.simps)
qed

text \<open>What \<open>emit_alert\<close> adds to the log carries the description it was given.\<close>

lemma build_and_post_payload:
  assumes "env_ok E" "build_and_post E S c now et p sev ts w = (r, w')"
  shows "\<exists>n e. w_sent w' = w_sent w @ replicate n (PostEvent e) \<and> (0 < n \<longrightarrow> ev_type e = et \<and> ev_payload e = p)"
proof -
  obtain u w1 where d: "draw_uuid E w = (u, w1)" by fastforce
  then have u: "u = uuids E (w_uuids w)" "w_sent w1 = w_sent w" by (auto simp: draw_uuid_def)
  have quiet: "\<exists>n e. w_sent w' = w_sent w @ replicate n (PostEvent e) \<and> (0 < n \<longrightarrow> ev_type e = et \<and> ev_payload e = p)"
    if "w_sent w' = w_sent w"
    using that by (intro exI [of _ 0]) simp
  show ?thesis
  proof (cases "build_envelope E S c u (now (w_uuids w)) et p sev ts")
    case (Inl a)
    with assms(2) d u quiet show ?thesis by (auto simp: build_and_post_def)
  next
    case (Inr oe)
    show ?thesis
    proof (cases oe)
      case None
      with assms(2) d u Inr quiet show ?thesis by (auto simp: build_and_post_def)
    next
      case (Some e)
      with Inr u build_envelope_own [OF assms(1)] have e: "ev_type e = et" "ev_payload e = p"
        by (auto simp: own_envelope_def)
      obtain ok w2 where rp: "retry_post E default_attempts (PostEvent e) w1 = (ok, w2)" by fastforce
      with assms(2) d Inr Some have "w' = w2" by (auto simp: build_and_post_def post_envelope_def)
      with retry_post_sent [OF rp] u e show ?thesis by auto
    qed
  qed
qed

lemma emit_alert_says:
  assumes "env_ok E" "emit_alert E S c now code car desc basis zone score versions w = (r, w')"
  shows "\<exists>n e. w_sent w' = w_sent w @ replicate n (PostEvent e) \<and>
    (0 < n \<longrightarrow> ev_type e = ALERT_RAISED \<and> dget (ev_payload e) ''description'' = Some (JStr desc))"
proof (cases "w_sent w' = w_sent w")
  case True
  then show ?thesis by (intro exI [of _ 0]) simp
next
  case False
  obtain aid w1 where d: "draw_uuid E w = (aid, w1)" by fastforce
  with draw_uuid_sent [OF d] assms(2) False obtain pri secs v sev ts where
    v: "validate_payload (pyd E) ALERT_RAISED
          (alert_kwargs aid code car zone desc pri score basis (keep_or versions []) secs) = Inr v" and
    b: "build_and_post E S c now ALERT_RAISED (model_dump ALERT_RAISED v) sev ts w1 = (r, w')"
    by (auto simp: emit_alert_def Let_def split: sum.splits)
  have "pyd_ok (pyd E)" using assms(1) by (simp add: env_ok_def)
  from alert_description [OF this v] build_and_post_payload [OF assms(1) b] draw_uuid_sent [OF d]
  show ?thesis by fastforce
qed

text \<open>An alert passes the egress filter untouched.\<close>

lemma alert_passes_through:
  assumes "ev_type e = ALERT_RAISED"
  shows "anonymise_envelope hm tx secret (envelope_json e) = Inr (Some (envelope_json e))"
proof -
  have t: "dget (envelope_json e) ''event_type'' = Some (JStr (event_type_value ALERT_RAISED))"
    using assms by (simp add: envelope_json_def)
  have p: "payload_copy (envelope_json e) = Inr (ev_payload e)"
    by (simp add: payload_copy_def envelope_json_def)
  show ?thesis
    unfolding anonymise_known [OF t p] by (simp add: apply_policy_def envelope_json_def)
qed

section \<open>Addresses\<close>

text \<open>
  The addresses the containers of the train use by default: where each listens (\<open>config.py\<close>,
  \<open>main.py\<close>) and the base URLs it posts to. A container is reached under the name of its service.
\<close>

definition event_store_listens :: "string \<times> nat" where
  "event_store_listens = (''event-store'', 8001)"

definition fusion_listens :: "string \<times> nat" where
  "fusion_listens = (''fusion'', 8090)"

definition inference_listens :: "string \<times> nat" where
  "inference_listens = (''inference'', 8081)"

definition rtsp_ingest_listens :: "string \<times> nat" where
  "rtsp_ingest_listens = (''rtsp-ingest'', 8080)"

definition train_listeners :: "(string \<times> nat) list" where
  "train_listeners = [event_store_listens, fusion_listens, inference_listens, rtsp_ingest_listens]"

text \<open>The URL settings of a container, by the name of the field.\<close>

definition vlan_urls :: "(string \<times> string) list" where
  "vlan_urls = [(''event_store_url'', ''http://event-store:8001''), (''fusion_url'', ''http://fusion:8003''),
     (''inference_url'', ''http://inference:8004''), (''rtsp_ingest_url'', ''http://rtsp-ingest:8005'')]"

definition fusion_urls :: "(string \<times> string) list" where
  "fusion_urls = [(''event_store_url'', ''http://event-store:8000'')]"

definition inference_urls :: "(string \<times> string) list" where
  "inference_urls = [(''event_store_url'', ''http://event-store:8001''), (''fusion_url'', ''http://fusion:8090'')]"

definition rtsp_ingest_urls :: "(string \<times> string) list" where
  "rtsp_ingest_urls = [(''event_store_url'', ''http://event-store:8001'')]"

definition cloud_sync_urls :: "(string \<times> string) list" where
  "cloud_sync_urls = [(''event_store_url'', ''http://event-store:8001'')]"

text \<open>The host and the port of a base URL without a path.\<close>

definition url_authority :: "string \<Rightarrow> (string \<times> nat) option" where
  "url_authority u =
     (if \<not> py_startswith u ''http://'' then None
      else map_option (\<lambda>(h, p). (h, nat_of_digits p)) (split_once CHR '':'' (drop 7 u)))"

definition url_reached :: "string \<Rightarrow> bool" where
  "url_reached u \<longleftrightarrow> url_authority u \<in> Some ` set train_listeners"

text \<open>
  By default the pollers reach no consumer of their context, and fusion does not reach the
  event-store; every other address is right.
\<close>

theorem default_addresses:
  "map fst (filter (\<lambda>(f, u). \<not> url_reached u) vlan_urls) = [''fusion_url'', ''inference_url'', ''rtsp_ingest_url''] \<and>
   map fst (filter (\<lambda>(f, u). \<not> url_reached u) fusion_urls) = [''event_store_url''] \<and>
   list_all (\<lambda>(f, u). url_reached u) (inference_urls @ rtsp_ingest_urls @ cloud_sync_urls)"
  by (simp add: vlan_urls_def fusion_urls_def inference_urls_def rtsp_ingest_urls_def cloud_sync_urls_def url_reached_def
      url_authority_def py_startswith_def split_once_def nat_of_digits_def digit_val_def train_listeners_def
      event_store_listens_def fusion_listens_def inference_listens_def rtsp_ingest_listens_def)

end
