(* ===== verification/Shared_Properties.thy ===== *)
theory Shared_Properties
  imports Shared_Interfaces
begin

text \<open>
  The properties of the shared package: payloads and envelopes survive the wire, the
  journey id and timestamp formats, the egress redaction.
\<close>

text \<open>For all 26 event types, what a payload model serialises is accepted again by the
  same model and validates to the same fields: \<open>model_dump\<close> (with its dropped
  \<open>None\<close> keys) loses nothing that \<open>model_validate\<close> needs.\<close>

theorem payload_roundtrip:
  assumes "pyd_ok pd" "validate_payload pd et d = Inr v"
  shows "validate_payload pd et (model_dump et v) = Inr v"
  using assms by (rule payload_dump_valid)

definition sample_exit :: jdict where
  "sample_exit = [(''track_id'', JInt 7), (''coach_from'', JStr ''A''), (''coach_to'', JStr ''B''),
     (''camera_id'', JStr ''cam-1''), (''traversal'', JStr ''from_to''), (''confidence'', JNum (9 / 10))]"

definition sample_exit_fields :: jdict where
  "sample_exit_fields = sample_exit @ [(''expect_orphan'', JBool False)]"

lemma sample_exit_valid: "validate_payload strict_pydantic WAGON_EXIT sample_exit = Inr sample_exit_fields"
  by (simp add: sample_exit_def sample_exit_fields_def validate_payload_def validate_fields_def
      wagon_exit_fields_def field_names_def field_name_def dkeys_def payload_invariant_def
      strict_pydantic_def keep_if_def)

theorem payload_roundtrip_witness:
  "validate_payload strict_pydantic WAGON_EXIT (model_dump WAGON_EXIT sample_exit_fields) = Inr sample_exit_fields"
  using payload_roundtrip [OF strict_pydantic_ok sample_exit_valid] .

text \<open>C33: Whatever JSON the envelope parser accepts, the envelope it returns is well formed
  (event id, journey id, timestamp, schema version and payload all valid), and its own JSON
  is parsed back to exactly that envelope, whenever and wherever that happens.\<close>

theorem envelope_roundtrip:
  assumes "pyd_ok pd" "validate_event_id uuid" "parse_envelope pd uuid now d = Inr e"
  shows "envelope_ok pd e \<and> parse_envelope pd uuid' now' (envelope_json e) = Inr e"
  using parse_envelope_ok [OF assms(3,2)] envelope_json_roundtrip [OF assms(1)] by simp

definition sample_body :: jdict where
  "sample_body = [(''journey_id'', JStr ''T1_RJ42_20260517''), (''vehicle_id'', JStr ''T1''),
     (''event_type'', JStr ''LEDGER_DRIFT_ALERT''), (''severity'', JStr ''info''),
     (''source'', JStr ''fusion''), (''timestamp'', JStr ''2026-05-17T10:00:00Z'')]"

definition sample_envelope :: envelope where
  "sample_envelope = \<lparr>ev_id = sample_uuid 0, ev_journey_id = ''T1_RJ42_20260517'', ev_vehicle_id = ''T1'',
     ev_timestamp = ''2026-05-17T10:00:00Z'', ev_type = LEDGER_DRIFT_OBSERVATION, ev_severity = Sev_info,
     ev_source = Src_fusion, ev_schema_version = 1, ev_payload = []\<rparr>"

lemma sample_body_parses: "parse_envelope strict_pydantic (sample_uuid 0) sample_time sample_body = Inr sample_envelope"
proof -
  have j: "validate_journey_id ''T1_RJ42_20260517''"
    by (simp add: validate_journey_id_def strptime_ymd_def date_ok_def days_in_month_def field_def nat_of_digits_def
        digit_val_def is_digit_def numeral_eq_Suc leap_year_def)
  have t: "validate_timestamp ''2026-05-17T10:00:00Z''"
    by (simp add: validate_timestamp_def timestamp_re_def iso_head_pat_def fits_def lit_def is_digit_def numeral_eq_Suc)
  have e: "event_type_of (coerce_legacy_event_type ''LEDGER_DRIFT_ALERT'') = Some LEDGER_DRIFT_OBSERVATION"
    by (simp add: coerce_legacy_event_type_def event_type_of_def all_event_types_def)
  show ?thesis
    using j t e
    by (simp add: parse_envelope_def raw_of_json_def sample_body_def envelope_keys_def dkeys_def json_opt_str_def
        json_str_def json_version_def json_payload_def validate_envelope_def default_str_def strict_pydantic_def
        severity_of_def source_of_def sample_envelope_def validate_schema_version_def supported_schema_versions_def
        validate_payload_shape_def)
qed

theorem envelope_roundtrip_witness:
  "envelope_ok strict_pydantic sample_envelope \<and>
   parse_envelope strict_pydantic (sample_uuid 1) sample_time (envelope_json sample_envelope) = Inr sample_envelope"
  using envelope_roundtrip [OF strict_pydantic_ok sample_uuid_ok sample_body_parses] .

text \<open>The journey id validator accepts exactly the strings \<open>vehicle_trip_YYYYMMDD\<close>:
  two non-empty parts without an underscore, then eight digits that are a calendar date.\<close>

theorem journey_id_language:
  "validate_journey_id v \<longleftrightarrow>
     (\<exists>a b d. v = a @ ''_'' @ b @ ''_'' @ d \<and> CHR ''_'' \<notin> set a \<and> CHR ''_'' \<notin> set b \<and>
        a \<noteq> [] \<and> b \<noteq> [] \<and> length d = 8 \<and> list_all is_digit d \<and> strptime_ymd d)"
  by (rule validate_journey_id_iff)

text \<open>Timestamps round trip: the text the services write for an instant passes the
  timestamp validator, and reading it back gives the same instant.\<close>

theorem timestamp_roundtrip:
  assumes "dt_ok t"
  shows "validate_timestamp (serialize_utc t) \<and>
    fromisoformat_utc (py_replace ''Z'' ''+00:00'' (serialize_utc t)) = Inr t \<and>
    validate_timestamp (utc_now t) \<and>
    fromisoformat_utc (py_replace ''Z'' ''+00:00'' (utc_now t)) = Inr t"
proof -
  have "CHR ''Z'' \<notin> set (iso_head t @ ''.'' @ zpad 6 (us t))"
    by (simp add: iso_head_no_Z zpad_no_char del: zpad.simps)
  then have "py_replace ''Z'' ''+00:00'' ((iso_head t @ ''.'' @ zpad 6 (us t)) @ ''Z'')
      = (iso_head t @ ''.'' @ zpad 6 (us t)) @ ''+00:00''"
    by (rule py_replace_suffix)
  then have "py_replace ''Z'' ''+00:00'' (utc_now t) = isoformat_us t"
    by (simp add: utc_now_eq isoformat_us_def del: zpad.simps)
  with assms show ?thesis
    by (simp add: timestamp_re_serialize validate_timestamp_def as_datetime_strict fromisoformat_us
        utc_now_valid [unfolded validate_timestamp_def])
qed

theorem timestamp_roundtrip_witness:
  "fromisoformat_utc (py_replace ''Z'' ''+00:00'' (serialize_utc sample_time)) = Inr sample_time"
  using timestamp_roundtrip [OF sample_time_ok] by simp

section \<open>Egress\<close>

definition tracked_types :: "event_type list" where
  "tracked_types = [UNATTENDED_BAG, DOOR_OBSTRUCTION, WAGON_EXIT, WAGON_ENTRY]"

lemma tracked_policy:
  "e \<in> set tracked_types \<Longrightarrow> \<exists>ks. egress_policy_of e = Redact ks True \<and> ''camera_id'' \<in> set ks \<and>
     ''track_id'' \<notin> set ks \<and> set ks \<subseteq> {''camera_id'', ''bbox''} \<and> (e = UNATTENDED_BAG \<longrightarrow> ''bbox'' \<in> set ks)"
  by (auto simp: tracked_types_def)

lemma released_payload:
  assumes "dget env ''event_type'' = Some (JStr (event_type_value e))" "payload_copy env = Inr p"
    "anonymise_envelope hm tx secret env = Inr (Some out)"
  obtains q where "apply_policy (track_token hm tx secret (env_journey tx env)) (egress_policy_of e) p = Some q"
    "out = dset env ''payload'' (JObj q)"
  using assms(3) unfolding anonymise_known [OF assms(1,2)] by auto

text \<open>C26: What redaction takes out of an event that leaves the train, and what it does not. No
  ACCESSIBILITY_DETECTED is released. In a released UNATTENDED_BAG, DOOR_OBSTRUCTION, WAGON_EXIT or
  WAGON_ENTRY the camera is gone (and the bounding box of a bag), the track id is replaced by the keyed
  token of its journey, and every other field of the payload is unchanged. A released RAMP_DEPLOYED
  names no track in \<open>triggered_by_track_id\<close> and is unchanged otherwise. The payload of every
  other type is released as it is, raw identifiers included if a producer put any in (as the slip and
  fall alert does in its detail). Outside the payload nothing is changed.\<close>

theorem redaction_hides_track:
  assumes "dget env ''event_type'' = Some (JStr (event_type_value e))" "payload_copy env = Inr p"
    "anonymise_envelope hm tx secret env = Inr (Some out)"
  shows "\<exists>q. dget out ''payload'' = Some (JObj q) \<and>
    (e \<in> set tracked_types \<longrightarrow>
       dget q ''camera_id'' = None \<and> (e = UNATTENDED_BAG \<longrightarrow> dget q ''bbox'' = None) \<and>
       dget q ''track_id'' = map_option (\<lambda>t. JStr (track_token hm tx secret (env_journey tx env) t)) (dget p ''track_id'') \<and>
       (\<forall>k. k \<notin> {''camera_id'', ''bbox'', ''track_id''} \<longrightarrow> dget q k = dget p k)) \<and>
    (e = RAMP_DEPLOYED \<longrightarrow> dget q ''triggered_by_track_id'' \<in> {None, Some (JStr redacted_marker)} \<and>
       (\<forall>k. k \<noteq> ''triggered_by_track_id'' \<longrightarrow> dget q k = dget p k)) \<and>
    (e \<notin> set tracked_types \<and> e \<noteq> RAMP_DEPLOYED \<longrightarrow> q = p) \<and> e \<noteq> ACCESSIBILITY_DETECTED \<and>
    (\<forall>k. k \<noteq> ''payload'' \<longrightarrow> dget out k = dget env k)"
proof -
  let ?tok = "track_token hm tx secret (env_journey tx env)"
  obtain q where q: "apply_policy ?tok (egress_policy_of e) p = Some q" and out: "out = dset env ''payload'' (JObj q)"
    using assms by (rule released_payload)
  have "dget q ''camera_id'' = None \<and> (e = UNATTENDED_BAG \<longrightarrow> dget q ''bbox'' = None) \<and>
       dget q ''track_id'' = map_option (\<lambda>t. JStr (?tok t)) (dget p ''track_id'') \<and>
       (\<forall>k. k \<notin> {''camera_id'', ''bbox'', ''track_id''} \<longrightarrow> dget q k = dget p k)" if tracked: "e \<in> set tracked_types"
  proof -
    obtain ks where ks: "egress_policy_of e = Redact ks True" "''camera_id'' \<in> set ks" "''track_id'' \<notin> set ks"
      "set ks \<subseteq> {''camera_id'', ''bbox''}" "e = UNATTENDED_BAG \<longrightarrow> ''bbox'' \<in> set ks"
      using tracked_policy [OF tracked] by blast
    with q show ?thesis
      by (cases "dget p ''track_id''") (auto simp: apply_policy_def Let_def dget_drop_keys)
  qed
  moreover have "dget q ''triggered_by_track_id'' \<in> {None, Some (JStr redacted_marker)} \<and>
       (\<forall>k. k \<noteq> ''triggered_by_track_id'' \<longrightarrow> dget q k = dget p k)" if "e = RAMP_DEPLOYED"
    using q that by (auto simp: apply_policy_def redacted_marker_def dhas_iff split: if_splits)
  moreover have "q = p" if "e \<notin> set tracked_types" "e \<noteq> RAMP_DEPLOYED"
    using q that by (cases e) (simp_all add: apply_policy_def tracked_types_def)
  moreover have "e \<noteq> ACCESSIBILITY_DETECTED" using q by (auto simp: apply_policy_def)
  ultimately show ?thesis by (auto simp: out)
qed

definition sample_hmac :: "string \<Rightarrow> string \<Rightarrow> string" where
  "sample_hmac key msg = ''deadbeef''"

definition sample_exit_envelope :: jdict where
  "sample_exit_envelope = [(''event_type'', JStr (event_type_value WAGON_EXIT)),
     (''journey_id'', JStr ''T1_RJ42_20260517''), (''payload'', JObj sample_exit)]"

definition sample_exit_released :: jdict where
  "sample_exit_released = [(''event_type'', JStr (event_type_value WAGON_EXIT)),
     (''journey_id'', JStr ''T1_RJ42_20260517''),
     (''payload'', JObj [(''track_id'', JStr ''tk_deadbeef''), (''coach_from'', JStr ''A''), (''coach_to'', JStr ''B''),
        (''traversal'', JStr ''from_to''), (''confidence'', JNum (9 / 10))])]"

lemma sample_release:
  "anonymise_envelope sample_hmac (\<lambda>j. []) ''key'' sample_exit_envelope = Inr (Some sample_exit_released)"
  "payload_copy sample_exit_envelope = Inr sample_exit"
  "dget sample_exit_envelope ''event_type'' = Some (JStr (event_type_value WAGON_EXIT))"
  by (simp_all add: anonymise_envelope_def sample_exit_envelope_def sample_exit_def sample_exit_released_def
      payload_copy_def redact_payload_def policy_defs drop_keys_def dget_or_def track_token_def token_len_def
      sample_hmac_def dhas_iff)

theorem redaction_hides_track_witness:
  "\<exists>q. dget sample_exit_released ''payload'' = Some (JObj q) \<and> dget q ''camera_id'' = None"
  using redaction_hides_track [OF sample_release(3,2,1)] by (auto simp: tracked_types_def)

text \<open>The redacted copy still satisfies the schema the cloud validates with: if the
  payload was valid, so is the payload of the released copy.\<close>

theorem redaction_keeps_schema:
  assumes "pyd_ok pd" "dget env ''event_type'' = Some (JStr (event_type_value e))" "payload_copy env = Inr p"
    "validate_payload pd e p = Inr v" "anonymise_envelope hm tx secret env = Inr (Some out)"
  shows "\<exists>q v'. dget out ''payload'' = Some (JObj q) \<and> validate_payload pd e q = Inr v'"
proof -
  obtain q where "apply_policy (track_token hm tx secret (env_journey tx env)) (egress_policy_of e) p = Some q"
    "out = dset env ''payload'' (JObj q)"
    using assms(2,3,5) by (rule released_payload)
  with apply_policy_valid [OF assms(1,4)] show ?thesis by auto
qed

theorem redaction_keeps_schema_witness:
  "\<exists>q v'. dget sample_exit_released ''payload'' = Some (JObj q) \<and> validate_payload strict_pydantic WAGON_EXIT q = Inr v'"
  by (rule redaction_keeps_schema [OF strict_pydantic_ok sample_release(3,2) sample_exit_valid sample_release(1)])

text \<open>The egress boundary fails closed: an envelope whose event type is not one of the
  26 (missing, misspelt, not a string) is withheld, and so is ACCESSIBILITY_DETECTED.\<close>

theorem egress_fails_closed:
  assumes "\<And>e. e \<noteq> ACCESSIBILITY_DETECTED \<Longrightarrow> dget env ''event_type'' \<noteq> Some (JStr (event_type_value e))"
    and "\<And>js. dget env ''event_type'' \<noteq> Some (JList js)" "\<And>d. dget env ''event_type'' \<noteq> Some (JObj d)"
  shows "anonymise_envelope hm tx secret env = Inr None"
proof (cases "dget env ''event_type'' = Some (JStr (event_type_value ACCESSIBILITY_DETECTED))")
  case True
  then show ?thesis by (simp add: anonymise_envelope_def drop_event_types_def)
next
  case False
  with assms(1) have "dget env ''event_type'' \<noteq> Some (JStr (event_type_value e))" for e by metis
  with assms(2,3) show ?thesis by (blast intro: anonymise_unknown)
qed

theorem egress_fails_closed_witness:
  "anonymise_envelope sample_hmac (\<lambda>j. []) ''key'' [(''event_type'', JStr ''FACE_EMBEDDING'')] = Inr None"
proof (rule egress_fails_closed)
  show "dget [(''event_type'', JStr ''FACE_EMBEDDING'')] ''event_type'' \<noteq> Some (JStr (event_type_value e))" for e
    by (cases e) simp_all
qed simp_all

end
