(* ===== verification/Fusion_Properties.thy ===== *)
theory Fusion_Properties
  imports Fusion_App_Facts
begin

text \<open>The properties of the fusion container.\<close>

section \<open>The closed ledger\<close>

text \<open>C2: The ledger engine implements the abstract ledger of three functions (passengers
  per coach, exits never matched, the coach an open track left), operation by operation: a
  non-orphan exit takes one passenger out once per open track, an entry puts one in and
  settles the coach the track left, a timeout only forgets the open track (the count is not
  reverted), a drift report sets the count of its coach to the camera's, closing forgets the
  open tracks, and a restart from the database keeps every count.\<close>

theorem ledger_refines:
  assumes "ledger_inv L" "we_track p = TInt t" "we_camera p = Some cam"
  shows "abs_of (on_wagon_exit L p ts) =
      (if we_expect_orphan p then abs_orphan (abs_of L) (we_from p) else abs_exit (abs_of L) t (we_from p)) \<and>
    abs_of (on_wagon_entry L p ts) = abs_entry (abs_of L) t (we_to p) \<and>
    abs_of (fire_timer L h) = abs_of L \<and>
    abs_of (run_task L u) = (if u \<in> set (l_tasks L) \<and> \<not> l_closed L then abs_forget (abs_of L) u else abs_of L) \<and>
    abs_of (snd (check_drift S L car n st)) =
      (if fst (check_drift S L car n st) = None then abs_of L else abs_correct (abs_of L) car n) \<and>
    abs_of (close_ledger L) = (abs_of L)\<lparr>al_open := \<lambda>t. None\<rparr> \<and>
    abs_of (load_ledger (l_table L)) = (abs_of L)\<lparr>al_unmatched := \<lambda>c. 0, al_open := \<lambda>t. None\<rparr>"
proof -
  from assms(1) have "pending_ok L" by (simp add: ledger_inv_def)
  with assms show ?thesis
    by (simp only: abs_exit_refines abs_entry_refines abs_fire_refines abs_task_refines abs_drift_refines
        abs_close_refines abs_restart_refines simp_thms)
qed

definition sample_ledger :: ledger where
  "sample_ledger = on_wagon_exit (load_ledger []) (with_track 7 ''cam'' ''A'' ''B'') ''t0''"

lemma sample_ledger_step: "ledger_step default_settings (load_ledger []) sample_ledger"
  unfolding sample_ledger_def by (rule step_exit) (simp add: load_ledger_def foldl_persist)

lemma sample_ledger_reach: "reach ledger_init (ledger_step default_settings) sample_ledger"
  by (rule reach_step, rule reach_init) (rule ledger_init_def [THEN iffD2, OF refl], rule sample_ledger_step)

lemma sample_ledger_inv: "ledger_inv sample_ledger"
  using ledger.reach_inv [OF sample_ledger_reach] .

theorem ledger_refines_witness:
  "abs_of (on_wagon_entry sample_ledger (with_track 7 ''cam'' ''A'' ''B'') ''t1'') =
     abs_entry (abs_of sample_ledger) 7 ''B''"
  using ledger_refines [OF sample_ledger_inv, of "with_track 7 ''cam'' ''A'' ''B''" 7 "''cam''" "''t1''"]
  by (simp add: with_track_def)

text \<open>In every state the engine can reach by exits, entries, drift checks, seeding, timer
  events in any interleaving, closing and restarting: the database row of every coach equals
  the row in memory, the unreconciled counter of every coach covers the exits still pending
  from it, no track is pending twice, and a restart would keep every count.\<close>

theorem ledger_reachable:
  assumes "reach ledger_init (ledger_step S) L"
  shows "(\<forall>c. dget (l_table L) c = dget (l_rows L) c) \<and>
    (\<forall>c. int (pending_from L c) \<le> lr_unreconciled (row_of L c)) \<and>
    distinct (dkeys (l_pending L)) \<and>
    (\<forall>c. lr_count (row_of (load_ledger (l_table L)) c) = lr_count (row_of L c))"
proof -
  from assms have inv: "ledger_inv L" by (rule ledger.reach_inv)
  from arg_cong [OF abs_restart_refines [OF inv], of al_count]
  have "\<forall>c. lr_count (row_of (load_ledger (l_table L)) c) = lr_count (row_of L c)"
    by (simp add: abs_of_def fun_eq_iff)
  with inv show ?thesis
    by (simp add: ledger_inv_def write_through_def pending_ok_def unreconciled_def dwf_def)
qed

theorem ledger_reachable_witness: "int (pending_from sample_ledger ''A'') \<le> lr_unreconciled (row_of sample_ledger ''A'')"
  using ledger_reachable [OF sample_ledger_reach] by blast

text \<open>A passenger who walks from one coach to the next is neither lost nor invented: an
  exit of a track that is not pending, followed by the entry of the same track, moves one
  passenger from the coach the exit names to the coach the entry names, leaves the total over
  any set of coaches that holds both unchanged, and leaves no trace in the pending exits and
  the unreconciled counters.\<close>

theorem transfer_conserves:
  assumes "reach ledger_init (ledger_step S) L" "\<not> dhas (l_pending L) t"
    and "we_track p = TInt t" "we_camera p = Some cam" "\<not> we_expect_orphan p"
    and "we_track q = TInt t" "we_camera q = Some cam'"
    and "finite C" "we_from p \<in> C" "we_to q \<in> C"
    and "L' = on_wagon_entry (on_wagon_exit L p ts) q ts'"
  shows "(\<Sum>c\<in>C. lr_count (row_of L' c)) = (\<Sum>c\<in>C. lr_count (row_of L c)) \<and>
    (\<forall>c. lr_count (row_of L' c) = lr_count (row_of L c)
       - (if c = we_from p then 1 else 0) + (if c = we_to q then 1 else 0)) \<and>
    (\<forall>c. lr_unreconciled (row_of L' c) = lr_unreconciled (row_of L c)) \<and>
    (\<forall>u. map_option pe_from (dget (l_pending L') u) = map_option pe_from (dget (l_pending L) u))"
proof -
  have pend: "pending_ok L" using ledger.reach_inv [OF assms(1)] by (simp add: ledger_inv_def)
  have L': "abs_of L' =
      (abs_of L)\<lparr>al_count := add_at (add_at (al_count (abs_of L)) (we_from p) (- 1)) (we_to q) 1\<rparr>"
    unfolding assms(11) using transfer_abs [OF pend assms(2-7)] .
  have count: "(\<lambda>c. lr_count (row_of L' c)) = add_at (add_at (\<lambda>c. lr_count (row_of L c)) (we_from p) (- 1)) (we_to q) 1"
    using arg_cong [OF L', of al_count] by (simp add: abs_of_def)
  moreover have "(\<lambda>c. lr_unreconciled (row_of L' c)) = (\<lambda>c. lr_unreconciled (row_of L c))"
    "(\<lambda>u. map_option pe_from (dget (l_pending L') u)) = (\<lambda>u. map_option pe_from (dget (l_pending L) u))"
    using arg_cong [OF L', of al_unmatched] arg_cong [OF L', of al_open] by (simp_all add: abs_of_def)
  moreover have "(\<Sum>c\<in>C. lr_count (row_of L' c)) = (\<Sum>c\<in>C. lr_count (row_of L c))"
    using fun_cong [OF count] assms(8-10) by (simp add: sum_add_at)
  ultimately show ?thesis by (simp add: fun_eq_iff add_at_def)
qed

theorem transfer_conserves_witness:
  "(\<Sum>c\<in>{''A'', ''B''}. lr_count (row_of (on_wagon_entry (on_wagon_exit sample_ledger
      (with_track 8 ''cam'' ''A'' ''B'') ''t1'') (with_track 8 ''cam'' ''A'' ''B'') ''t2'') c)) =
   (\<Sum>c\<in>{''A'', ''B''}. lr_count (row_of sample_ledger c))"
proof -
  have "\<not> dhas (l_pending sample_ledger) 8"
    by (simp add: sample_ledger_def pending_exit_eq with_track_def load_ledger_def foldl_persist dhas_iff)
  from conjunct1 [OF transfer_conserves [OF sample_ledger_reach this, of "with_track 8 ''cam'' ''A'' ''B''" "''cam''"
      "with_track 8 ''cam'' ''A'' ''B''" "''cam''" "{''A'', ''B''}" _ "''t1''" "''t2''"]]
  show ?thesis by (simp add: with_track_def)
qed

section \<open>Drift\<close>

text \<open>With buckets no wider than the threshold allows (\<open>bucket_size\<close> at most
  \<open>threshold + 1\<close>, as in the default settings), no drift goes unnoticed: for a coach seen in a
  wagon event and not already in drift, a difference beyond the threshold is reported with the
  counts as they were, and the ledger of that coach, and of no other, is set to the camera's
  count.\<close>

theorem drift_complete:
  assumes "buckets_cover S" "car \<in> set (l_seen L)" "last_bucket L car = 0"
    and "fs_drift_threshold S < \<bar>lr_count (row_of L car) - camera\<bar>"
  shows "\<exists>ob L'. check_drift S L car camera st = (Some ob, L') \<and>
    do_car_id ob = car \<and> do_camera_count ob = camera \<and> do_ledger_count ob = lr_count (row_of L car) \<and>
    do_delta ob = lr_count (row_of L car) - camera \<and> do_surface ob = st \<and>
    row_of L' = (row_of L)(car := (row_of L car)\<lparr>lr_count := camera\<rparr>)"
proof -
  have b: "bucket_of S (lr_count (row_of L car) - camera) \<noteq> 0"
    using bucket_of_cover [OF assms(1)] assms(4) by simp
  with assms(2,3) have "fst (check_drift S L car camera st) \<noteq> None" by (simp add: drift_silent_iff)
  then obtain ob L' where d: "check_drift S L car camera st = (Some ob, L')" by (metis eq_fst_iff not_None_eq)
  have "row_of L' = (row_of L)(car := (row_of L car)\<lparr>lr_count := camera\<rparr>)"
    using rows_drift [of S L car camera st] d by simp
  moreover have "do_car_id ob = car \<and> do_camera_count ob = camera \<and> do_ledger_count ob = lr_count (row_of L car) \<and>
    do_delta ob = lr_count (row_of L car) - camera \<and> do_surface ob = st"
    using d b by (auto simp: check_drift_def Let_def ledger_simps split: if_splits)
  ultimately show ?thesis using d by blast
qed

theorem drift_complete_witness:
  "\<exists>ob L'. check_drift default_settings sample_ledger ''A'' 20 True = (Some ob, L') \<and> do_delta ob = - 21"
proof -
  have row: "lr_count (row_of sample_ledger ''A'') = - 1"
    by (simp add: sample_ledger_def rows_exit with_track_def load_ledger_def foldl_persist row_of_def new_row_def dhas_iff)
  have "''A'' \<in> set (l_seen sample_ledger)" "last_bucket sample_ledger ''A'' = 0"
    by (simp_all add: sample_ledger_def on_wagon_exit_def with_track_def load_ledger_def Let_def dhas_iff
        ledger_simps last_bucket_def arm_pending_def schedule_timeout_def stale_coaches_def dkeys_def mark_seen_def)
  from drift_complete [OF _ this, of default_settings 20 True] row show ?thesis
    by (auto simp: buckets_cover_def settings_ok_def default_settings_def)
qed

text \<open>A standing difference is reported and then resolved: whatever the state, two drift
  checks against the same camera count leave nothing to say, and a third is silent.\<close>

theorem drift_settles:
  assumes "settings_ok S" "L1 = snd (check_drift S L car camera st1)" "L2 = snd (check_drift S L1 car camera st2)"
  shows "fst (check_drift S L2 car camera st3) = None"
proof (cases "fst (check_drift S L car camera st1) = None")
  case True
  from drift_silent_again [OF True] have "fst (check_drift S L1 car camera st2) = None" by (simp add: assms(2))
  from drift_silent_again [OF this] show ?thesis by (simp add: assms(3))
next
  case False
  then show ?thesis using assms by (intro drift_settles_aux [OF assms(1) False assms(2,3)])
qed

theorem drift_settles_witness:
  "fst (check_drift default_settings (snd (check_drift default_settings
      (snd (check_drift default_settings sample_ledger ''A'' 20 True)) ''A'' 20 True)) ''A'' 20 True) = None"
  by (rule drift_settles [OF _ refl refl]) (simp add: settings_ok_def default_settings_def)

text \<open>The gap in the buckets: when the configured bucket is wider than the threshold plus
  one, a difference beyond the threshold but below the bucket size is neither reported nor
  corrected.\<close>

theorem drift_gap:
  assumes "settings_ok S" "last_bucket L car = 0"
    and "fs_drift_threshold S < \<bar>lr_count (row_of L car) - camera\<bar>"
    and "\<bar>lr_count (row_of L car) - camera\<bar> < fs_bucket_size S"
  shows "fst (check_drift S L car camera st) = None \<and> row_of (snd (check_drift S L car camera st)) = row_of L"
proof -
  have "bucket_of S (lr_count (row_of L car) - camera) = 0"
    using assms(4) by (simp add: bucket_of_zero [OF assms(1)])
  with assms(2) have "fst (check_drift S L car camera st) = None" by (simp add: drift_silent_iff)
  with drift_silent_frame [OF this] show ?thesis by simp
qed

theorem drift_gap_witness:
  "fst (check_drift (default_settings\<lparr>fs_bucket_size := 10\<rparr>) (load_ledger [(''A'', new_row)]) ''A'' 5 True) = None"
proof -
  have L: "l_bucket (load_ledger [(''A'', new_row)]) = []"
    by (simp add: load_ledger_def stale_coaches_def new_row_def dkeys_def)
  have r: "lr_count (row_of (load_ledger [(''A'', new_row)]) ''A'') = 0"
    by (simp add: row_of_load clean_row_def new_row_def dget_or_def)
  show ?thesis
    using drift_gap [of "default_settings\<lparr>fs_bucket_size := 10\<rparr>" "load_ledger [(''A'', new_row)]" "''A''" 5 True]
    by (simp add: settings_ok_def default_settings_def L r last_bucket_def)
qed

section \<open>What reaches the event-store\<close>

text \<open>C24: Suppression is airtight: whatever one request makes the container send is a valid
  envelope of its own about the current journey; when the suppression state after the request
  is NORMAL it is one of the four live event types, and otherwise it is JOURNEY_ENDED, sent in
  the depot only.\<close>

theorem suppression_safety:
  assumes "env_ok E" "fusion_handle E S now tick req A = (resp, A')"
  shows "\<exists>rs. w_sent (a_world A') = w_sent (a_world A) @ rs \<and>
    (\<forall>r \<in> set rs. \<exists>e. r = PostEvent e \<and> envelope_ok (pyd E) e \<and> ev_source e = Src_fusion \<and>
       Some (ev_journey_id e) = c_journey_id (a_ctx A') \<and>
       (if should_emit (a_ctx A') then ev_type e \<in> live_types
        else evaluate (a_ctx A') = DEPOT \<and> ev_type e = JOURNEY_ENDED))"
proof -
  from fusion_handle_effect [OF assms] obtain rs where rs: "w_sent (a_world A') = w_sent (a_world A) @ rs"
    "list_all (allowed E (a_ctx A')) rs" by (auto simp: request_effect_def adds_def)
  from rs(2) have "\<forall>r \<in> set rs. allowed E (a_ctx A') r" by (simp add: list_all_iff)
  with rs(1) show ?thesis by (intro exI [of _ rs] conjI ballI) (blast dest: allowedD)+
qed

definition depot_push :: context_push where
  "depot_push = empty_push\<lparr>pu_journey_id := Some ''T1_RJ42_20260517'', pu_depot_mode := Some True\<rparr>"

theorem suppression_safety_witness:
  "\<exists>rs. w_sent (a_world (snd (fusion_handle (sample_env []) default_settings sample_clock 5
      (Post_context depot_push) (init_app [])))) = rs \<and> (\<forall>r \<in> set rs. \<exists>e. r = PostEvent e \<and> ev_source e = Src_fusion)"
proof -
  have "w_sent (a_world (init_app [])) = []" by (simp add: init_app_def)
  with suppression_safety [OF sample_env_ok surjective_pairing, of "[]" default_settings sample_clock 5
      "Post_context depot_push" "init_app []"] show ?thesis by fastforce
qed

text \<open>Over any run of requests and timer events from a fresh start: every request the
  container ever sent is a valid envelope of its own; all JOURNEY_ENDED envelopes of one journey
  are one and the same event (the copies its retries sent); the ledger's table agrees with its
  memory; every coach observed this journey has a comfort baseline.\<close>

theorem fusion_reachable:
  assumes "reach app_start (app_next E S) A"
  shows "(\<forall>r \<in> set (w_sent (a_world A)). \<exists>e. r = PostEvent e \<and> envelope_ok (pyd E) e \<and> ev_source e = Src_fusion) \<and>
    (\<forall>e \<in> set (ended_events (a_world A)). \<forall>e' \<in> set (ended_events (a_world A)).
       ev_journey_id e = ev_journey_id e' \<longrightarrow> e = e') \<and>
    (\<forall>c. dget (l_table (a_ledger A)) c = dget (l_rows (a_ledger A)) c) \<and>
    set (cf_observed (a_comfort A)) = set (dkeys (cf_last (a_comfort A)))"
proof -
  have inv: "app_inv E A" using assms by (rule app.reach_inv)
  then have "\<forall>r \<in> set (w_sent (a_world A)). \<exists>e. r = PostEvent e \<and> envelope_ok (pyd E) e \<and> ev_source e = Src_fusion"
    unfolding app_inv_def list_all_iff by (blast dest: sound_requestD)
  with inv show ?thesis
    by (simp add: app_inv_def ended_once_def ledger_inv_def write_through_def comfort_inv_def)
qed

lemma init_app_start: "app_start (init_app [])"
  by (auto simp: app_start_def)

lemma sample_app_reach:
  "reach app_start (app_next (sample_env []) default_settings)
     (snd (fusion_handle (sample_env []) default_settings sample_clock 5 (Post_context depot_push) (init_app [])))"
proof (rule reach_step)
  show "reach app_start (app_next (sample_env []) default_settings) (init_app [])"
    by (rule reach_init) (rule init_app_start)
qed (simp only: app_next_def sample_env_ok app_request simp_thms)

theorem fusion_reachable_witness:
  "\<forall>c. dget (l_table (a_ledger (snd (fusion_handle (sample_env []) default_settings sample_clock 5
      (Post_context depot_push) (init_app []))))) c =
    dget (l_rows (a_ledger (snd (fusion_handle (sample_env []) default_settings sample_clock 5
      (Post_context depot_push) (init_app []))))) c"
  using fusion_reachable [OF sample_app_reach] by blast

text \<open>An alert is one event: \<open>emit_alert\<close> adds to the log only copies of one valid
  ALERT_RAISED envelope about the current journey, at most five; it is \<open>critical\<close> exactly for
  the door codes on a train not known to stand still; and when the call returns normally for a
  known journey, at least one copy arrived.\<close>

theorem alert_is_one_event:
  assumes "env_ok E" "emit_alert E S c now code car desc basis zone score versions w = (r, w')"
  shows "\<exists>n e. w_sent w' = w_sent w @ replicate n (PostEvent e) \<and> n \<le> 5 \<and>
    (0 < n \<longrightarrow> envelope_ok (pyd E) e \<and> ev_source e = Src_fusion \<and> ev_type e = ALERT_RAISED \<and>
       Some (ev_journey_id e) = c_journey_id c \<and>
       (ev_severity e = Sev_critical \<longleftrightarrow>
          code \<in> {''door_obstruction'', ''door_fault''} \<and> (\<forall>v. c_speed_kmh c = Some v \<longrightarrow> 0 < v))) \<and>
    (r = Inr () \<and> c_journey_id c \<noteq> None \<longrightarrow> 0 < n)"
proof -
  have "sends_copies E c ALERT_RAISED (severity_for code (c_speed_kmh c)) (r, w') w"
    using emit_alert_sends [OF assms(1), of c code S now car desc basis zone score versions w] assms(2) by simp
  then obtain n e where ne: "w_sent w' = w_sent w @ replicate n (PostEvent e)" "n \<le> 5"
    "0 < n \<longrightarrow> own_envelope E c ALERT_RAISED (severity_for code (c_speed_kmh c)) e"
    by (auto simp: sends_copies_def default_attempts_def)
  have sev: "severity_for code (c_speed_kmh c) = Sev_critical \<longleftrightarrow>
      code \<in> {''door_obstruction'', ''door_fault''} \<and> (\<forall>v. c_speed_kmh c = Some v \<longrightarrow> 0 < v)"
    by (auto simp: severity_for_def split: option.split)
  have "0 < n" if "r = Inr () \<and> c_journey_id c \<noteq> None"
    using emit_alert_delivered [of E S c now code car desc basis zone score versions w w'] that assms(2) ne(1)
    by (cases n) auto
  moreover have "0 < n \<longrightarrow> envelope_ok (pyd E) e \<and> ev_source e = Src_fusion \<and> ev_type e = ALERT_RAISED \<and>
      Some (ev_journey_id e) = c_journey_id c \<and>
       (ev_severity e = Sev_critical \<longleftrightarrow>
          code \<in> {''door_obstruction'', ''door_fault''} \<and> (\<forall>v. c_speed_kmh c = Some v \<longrightarrow> 0 < v))"
    using ne(3) by (simp add: own_envelope_def sev)
  ultimately show ?thesis using ne(1,2) by blast
qed

theorem alert_is_one_event_witness:
  "\<exists>n e. w_sent (snd (emit_alert (sample_env [Lost_reply]) default_settings init_context sample_clock ''slip_fall'' ''A'' ''d''
      ''model'' None (Some 1) None sample_world)) = replicate n (PostEvent e) \<and> n \<le> 5"
  using alert_is_one_event [OF sample_env_ok surjective_pairing, of "[Lost_reply]" default_settings init_context sample_clock
      "''slip_fall''" "''A''" "''d''" "''model''" None "Some 1" None sample_world]
  by (auto simp: sample_world_def)

text \<open>No candidate endpoint but the occupancy one can answer 500: whatever the candidate
  and whatever the network does, inference gets 202, or 422 for a malformed body.\<close>

theorem candidates_answered:
  assumes "never_raises req"
  shows "fst (fusion_handle E S now tick req A) \<in> {Accepted, Unprocessable}"
  using candidates_never_500 [OF assms] by (metis insertCI response.exhaust)

theorem candidates_answered_witness:
  "fst (fusion_handle (sample_env []) default_settings sample_clock 5 (Post_wagon_exit []) (init_app [])) \<in> {Accepted, Unprocessable}"
  by (rule candidates_answered) (simp add: never_raises_def)

section \<open>The context\<close>

text \<open>The station-approach edge fires once in the life of the process: after a push has
  consumed the edge, no later push sends a COACH_COMFORT_INDEX, whatever it says about the
  station, because nothing ever takes the remembered signal back to false.\<close>

theorem station_edge_once:
  assumes "env_ok E" "c_prev_station_approach (a_ctx A)" "(app_next E S)\<^sup>*\<^sup>* A A'"
    and "context_push E S now tick m A' = (r, A'')"
  shows "comfort_events (a_world A'') = comfort_events (a_world A') \<and> c_prev_station_approach (a_ctx A'')"
  using push_after_edge [OF assms(1) prev_forever [OF assms(3,2)] assms(4)] by simp

definition approached_app :: fusion_app where
  "approached_app = (init_app [])\<lparr>a_ctx := consume_station_approach_edge (init_context\<lparr>c_station_approach := True\<rparr>)\<rparr>"

theorem station_edge_once_witness:
  "comfort_events (a_world (snd (context_push (sample_env []) default_settings sample_clock 5
      (empty_push\<lparr>pu_station_approach := Some True\<rparr>) approached_app))) = comfort_events (a_world approached_app)"
proof -
  have "c_prev_station_approach (a_ctx approached_app)"
    by (simp add: approached_app_def consume_station_approach_edge_def)
  from conjunct1 [OF station_edge_once [OF sample_env_ok this rtranclp.rtrancl_refl surjective_pairing]]
  show ?thesis .
qed

text \<open>Applying a context push twice is applying it once; an empty push changes nothing; and
  a push that changes the journey without naming a departure never leaves the departure of the
  journey before it in place.\<close>

theorem push_contract:
  assumes "pu_journey_id m = Some j" "c_journey_id c \<noteq> Some j" "\<not> truthy (keep_or (pu_pis m) None)"
  shows "c_scheduled_departure (update_from_push c m) = None \<and> c_journey_id (update_from_push c m) = Some j \<and>
    update_from_push (update_from_push c m) m = update_from_push c m \<and> update_from_push c empty_push = c"
  using assms
  by (auto simp: update_from_push_idem update_from_push_empty)
     (auto simp: update_from_push_def Let_def next_departure_def keep_or_def split: option.splits)

theorem push_contract_witness:
  "c_scheduled_departure (update_from_push (init_context\<lparr>c_scheduled_departure := Some ''x''\<rparr>)
     (empty_push\<lparr>pu_journey_id := Some ''j''\<rparr>)) = None"
  using push_contract [of "empty_push\<lparr>pu_journey_id := Some ''j''\<rparr>" "''j''" "init_context\<lparr>c_scheduled_departure := Some ''x''\<rparr>"]
  by (simp add: empty_push_def init_context_def)

text \<open>The time to departure, for a departure written the way the services write instants:
  nothing unless the train approaches a station or stands; otherwise the whole seconds left,
  rounded down, clamped at zero on approach, and nothing once a standing train has missed it.\<close>

theorem departure_countdown:
  assumes "dt_ok sched" "left = (dt_micros sched - dt_micros now) div 1000000"
  shows "seconds_to_departure (Some (serialize_utc sched)) station speed now =
    Inr (if \<not> station \<and> speed \<noteq> Some 0 then None
         else if left < 0 \<and> \<not> station then None else Some (max 0 left))"
proof -
  have "serialize_utc sched \<noteq> []" using timestamp_re_serialize [of sched]
    by (auto simp: timestamp_re_def Let_def)
  with assms show ?thesis
    by (simp add: seconds_to_departure_def timestamp_re_serialize as_datetime_strict floor_total_seconds Let_def)
qed

theorem departure_countdown_witness:
  "seconds_to_departure (Some (serialize_utc sample_time)) True None sample_time = Inr (Some 0)"
  using departure_countdown [OF sample_time_ok refl, where station = True and speed = None and now = sample_time] by simp

text \<open>A departure that has the shape of a timestamp and is no calendar date (a month 13)
  passes the format check and makes the parser raise: near a station the alert is not sent and
  the call ends in ValueError, although such a field is documented to count as absent.\<close>

theorem impossible_departure_loses_alert:
  assumes "c_station_approach c" "c_scheduled_departure c = Some ''2026-13-01T00:00:00Z''"
  shows "emit_alert E S c now code car desc basis zone score versions w = (Inl ValueError, w)"
proof -
  have "timestamp_re ''2026-13-01T00:00:00Z''"
    by (simp add: timestamp_re_def iso_head_pat_def fits_def lit_def is_digit_def numeral_eq_Suc)
  moreover have "fromisoformat_utc (py_replace ''Z'' ''+00:00'' ''2026-13-01T00:00:00Z'') = Inl ValueError"
    by code_simp
  ultimately show ?thesis
    using assms by (simp add: emit_alert_def seconds_to_departure_def)
qed

theorem impossible_departure_loses_alert_witness:
  "emit_alert (sample_env []) default_settings
     (init_context\<lparr>c_journey_id := Some ''T1_RJ42_20260517'', c_station_approach := True,
        c_scheduled_departure := Some ''2026-13-01T00:00:00Z''\<rparr>)
     sample_clock ''door_obstruction'' ''A'' ''d'' ''model'' None (Some 1) None sample_world = (Inl ValueError, sample_world)"
  by (rule impossible_departure_loses_alert) simp_all

text \<open>A ramp is attributed to the person who was last seen at its door, if that was within
  the window, and to nobody otherwise: after a sighting at a door is noted, the lookup for that
  door returns its track exactly while the sighting is no older than the window.\<close>

theorem ramp_attribution:
  assumes "dwf (dget_or (c_recent_accessibility c) car [])"
  shows "fst (find_recent_accessibility (note_accessibility c car door track seen) car door win now) =
    (if now - seen \<le> win then Some track else None)"
proof (cases "now - seen \<le> win")
  case True
  with find_recent_note [OF assms True] show ?thesis by simp
next
  case False
  let ?d = "dset (dget_or (c_recent_accessibility c) car []) door (track, seen)"
  have "dget (gc_stale ?d win now) door = None"
    using False assms by (subst gc_stale_get) auto
  then show ?thesis using False
    by (simp add: find_recent_accessibility_def note_accessibility_def Let_def)
qed

theorem ramp_attribution_witness:
  "fst (find_recent_accessibility (note_accessibility init_context ''A'' ''d1'' ''acc-1'' 10) ''A'' ''d1'' 60 50) = Some ''acc-1''"
  using ramp_attribution [of init_context "''A''" "''d1''" "''acc-1''" 10 60 50] by (simp add: init_context_def)

section \<open>Comfort\<close>

text \<open>The published comfort index never lags by more than the threshold: after an update of
  a coach whose event, if one was due, was delivered, the coach has a baseline, and it is within
  the threshold of the occupancy just observed (clamped to the unit interval).\<close>

theorem comfort_tracks:
  assumes "settings_ok S"
  shows "\<exists>b. dget (cf_last (update_confirmed S cf car x)) car = Some b \<and> \<bar>clamp01 x - b\<bar> \<le> fs_pct_threshold S"
  using update_confirmed_tracks assms by (simp add: settings_ok_def)

theorem comfort_tracks_witness:
  "\<exists>b. dget (cf_last (update_confirmed default_settings init_comfort ''A'' (1 / 2))) ''A'' = Some b \<and>
     \<bar>clamp01 (1 / 2) - b\<bar> \<le> fs_pct_threshold default_settings"
  by (rule comfort_tracks) (simp add: settings_ok_def default_settings_def)

text \<open>On the station-approach edge, in every state the container can reach, exactly the
  coaches observed this journey get a payload, in sorted order, each of them valid for the event
  schema.\<close>

theorem comfort_edge_complete:
  assumes "reach app_start (app_next E S) A" "pyd_ok pd" "[] \<notin> set (cf_observed (a_comfort A))"
  shows "map cp_car_id (on_station_approach_edge (a_comfort A)) = observed_coaches (a_comfort A) \<and>
    (\<forall>p \<in> set (on_station_approach_edge (a_comfort A)).
       validate_payload pd COACH_COMFORT_INDEX (comfort_json p) = Inr (comfort_json p))"
proof -
  have inv: "comfort_inv (a_comfort A)" using app.reach_inv [OF assms(1)] by (simp add: app_inv_def)
  have dom: "set (sort (cf_observed (a_comfort A))) \<subseteq> dom (dget (cf_last (a_comfort A)))"
    using inv by (simp add: comfort_inv_def dkeys_dom)
  have "validate_payload pd COACH_COMFORT_INDEX (comfort_json p) = Inr (comfort_json p)"
    if "p \<in> set (on_station_approach_edge (a_comfort A))" for p
  proof -
    from that obtain car pct where "p = compute_payload car pct" "car \<in> set (cf_observed (a_comfort A))"
      by (auto simp: on_station_approach_edge_def edge_payloads_cars [OF dom])
    with assms(2,3) show ?thesis by (metis compute_payload_valid)
  qed
  with edge_covers_observed [OF inv] show ?thesis by simp
qed

theorem comfort_edge_complete_witness:
  "map cp_car_id (on_station_approach_edge (a_comfort (init_app []))) = observed_coaches (a_comfort (init_app []))"
proof (rule conjunct1 [OF comfort_edge_complete [OF _ strict_pydantic_ok]])
  show "reach app_start (app_next (sample_env []) default_settings) (init_app [])"
    by (rule reach_init) (rule init_app_start)
qed (simp add: init_app_def init_comfort_def)

end
