(* ===== verification/Infer_Properties.thy ===== *)
theory Infer_Properties
  imports Infer_Control
begin

text \<open>The properties of the inference container.\<close>

section \<open>The zone counter\<close>

text \<open>C38: The threshold decision is a hysteresis that misses nothing: if the direction on record
  agrees with the previous count outside the dead band (risen at or above the upper bound, not
  risen at or below the lower one), then after the check it agrees with the new count, and the
  check sends something only when it changes the direction on record.\<close>

theorem threshold_agrees:
  assumes "0 < is_deadband S"
    and "band_ok S (os_capacity st) (dget (zc_threshold zc) (car, is_threshold_pct S)) prev"
    and "check_threshold E S j now zc car st prev w = (r, zc', w')"
  shows "band_ok S (os_capacity st) (dget (zc_threshold zc') (car, is_threshold_pct S)) (os_count st) \<and>
    (w' \<noteq> w \<longrightarrow> dget (zc_threshold zc') (car, is_threshold_pct S) \<noteq> dget (zc_threshold zc) (car, is_threshold_pct S))"
proof -
  have "w' = w" if "dget (zc_threshold zc') (car, is_threshold_pct S) = dget (zc_threshold zc) (car, is_threshold_pct S)"
    using that assms(3) by (auto simp: check_threshold_def Let_def split: option.splits prod.splits dest: crossing_direction)
  with band_step [OF assms(1,2), of "os_count st"] check_threshold_state [OF assms(3)] show ?thesis by auto
qed

definition sample_camera :: camera where
  "sample_camera = \<lparr>cam_id = ''cam-1'', cam_coach = ''A'', cam_zone = Some ''door'', cam_capacity = Some (JInt 20)\<rparr>"

definition sample_state :: occupancy_state where
  "sample_state = \<lparr>os_car = ''A'', os_count = 0, os_pct = 0, os_capacity = 20, os_zone = ''door'', os_tracks = []\<rparr>"

definition sample_counter :: zone_counter where
  "sample_counter = \<lparr>zc_states = [(''A'', sample_state)], zc_last_emit = [(''A'', 0)], zc_threshold = [],
     zc_in_flight = [(''A'', False)], zc_bboxes = [], zc_vest_last = [],
     zc_camera_zone = [((''A'', ''cam-1''), ''door'')], zc_versions = []\<rparr>"

lemma sample_counter_built: "build_counter default_infer_settings [sample_camera] [] = Inr sample_counter"
  by (simp add: build_counter_def camera_capacity_def sample_camera_def sample_counter_def sample_state_def dhas_iff)

lemma sample_rising: "rising_at default_infer_settings 20 = 19" "falling_at default_infer_settings 20 = 13"
  by (simp_all add: rising_at_def falling_at_def default_infer_settings_def)

theorem threshold_agrees_witness:
  "band_ok default_infer_settings 20
     (dget (zc_threshold (fst (snd (check_threshold (sample_env []) default_infer_settings ''T1_RJ42_20260517'' sample_clock
        sample_counter ''A'' (sample_state\<lparr>os_count := 19\<rparr>) 0 sample_world)))) (''A'', 4 / 5)) 19"
proof -
  have "band_ok default_infer_settings (os_capacity (sample_state\<lparr>os_count := 19\<rparr>))
     (dget (zc_threshold sample_counter) (''A'', is_threshold_pct default_infer_settings)) 0"
    by (simp add: sample_state_def sample_counter_def band_ok_def sample_rising)
  moreover obtain r zc' w' where c: "check_threshold (sample_env []) default_infer_settings ''T1_RJ42_20260517'' sample_clock
      sample_counter ''A'' (sample_state\<lparr>os_count := 19\<rparr>) 0 sample_world = (r, zc', w')" by (metis prod_cases3)
  ultimately have "band_ok default_infer_settings (os_capacity (sample_state\<lparr>os_count := 19\<rparr>))
     (dget (zc_threshold zc') (''A'', is_threshold_pct default_infer_settings)) (os_count (sample_state\<lparr>os_count := 19\<rparr>))"
    by (intro conjunct1 [OF threshold_agrees [OF _ _ c]]) (simp_all add: default_infer_settings_def)
  with c show ?thesis by (simp add: default_infer_settings_def sample_state_def)
qed

text \<open>Over any run of counts of a coach, the directions emitted alternate between rising and
  falling, and the last one agrees with the current count: rising whenever the count is at or
  above the upper bound, not rising whenever it is at or below the lower one.\<close>

theorem threshold_alternates:
  assumes "0 < is_deadband S" "0 < rising_at S cap"
  shows "alternating None (crossings S cap None 0 ns) \<and>
    band_ok S cap (dir_after None (crossings S cap None 0 ns)) (last (0 # ns))"
  using crossings_alternate band_run [OF assms(1) band_start [OF assms(2)], of ns] by auto

theorem threshold_alternates_witness:
  "alternating None (crossings default_infer_settings 20 None 0 [25, 15, 18, 10, 22])"
  by (rule conjunct1 [OF threshold_alternates]) (simp_all add: default_infer_settings_def rising_at_def)

text \<open>At most one chain of POSTs per coach is under way in any interleaving of updates: a
  second update of the same coach is refused until the first has ended, well or badly; and every
  coach's state keeps a positive capacity and an occupancy fraction equal to its count over its
  capacity, capped at one.\<close>

theorem one_chain_per_coach:
  assumes "reach (counter_start S) (counter_next E S) s"
  shows "distinct (map fst (cs_jobs s)) \<and>
    (\<forall>car ds now. car \<in> fst ` set (cs_jobs s) \<longrightarrow> update_begin (cs_counter s) car ds now = (None, cs_counter s)) \<and>
    (\<forall>car st. dget (zc_states (cs_counter s)) car = Some st \<longrightarrow>
       0 < os_capacity st \<and> os_pct st = min (of_int (os_count st) / of_int (os_capacity st)) 1 \<and> 0 \<le> os_pct st)"
proof -
  have inv: "counter_inv s" using assms by (rule counter.reach_inv)
  have "update_begin (cs_counter s) car ds now = (None, cs_counter s)" if "car \<in> fst ` set (cs_jobs s)" for car ds now
    using inv that by (auto simp: counter_inv_def update_begin_def split: option.split)
  moreover have "0 < os_capacity st \<and> os_pct st = min (of_int (os_count st) / of_int (os_capacity st)) 1 \<and> 0 \<le> os_pct st"
    if "dget (zc_states (cs_counter s)) car = Some st" for car st
    using inv that state_ok_pct [of st] by (auto simp: counter_inv_def counter_ok_def state_ok_def)
  ultimately show ?thesis using inv unfolding counter_inv_def by blast
qed

definition sample_busy :: counter_system where
  "sample_busy = \<lparr>cs_counter = snd (update_begin sample_counter ''A'' [] 5), cs_jobs = [(''A'', 0, [])], cs_world = sample_world\<rparr>"

lemma sample_busy_reach:
  "reach (counter_start default_infer_settings) (counter_next (sample_env []) default_infer_settings) sample_busy"
proof (rule reach_step)
  let ?s = "\<lparr>cs_counter = sample_counter, cs_jobs = [], cs_world = sample_world\<rparr>"
  show "reach (counter_start default_infer_settings) (counter_next (sample_env []) default_infer_settings) ?s"
    by (rule reach_init) (auto simp: counter_start_def intro: sample_counter_built)
  have b: "update_begin (cs_counter ?s) ''A'' [] 5 = (Some 0, cs_counter sample_busy)"
    by (simp add: sample_busy_def sample_counter_def update_begin_def occupancy_gate_def dget_or_def sample_state_def)
  have "sample_busy = ?s\<lparr>cs_counter := cs_counter sample_busy, cs_jobs := (''A'', 0, []) # cs_jobs ?s\<rparr>"
    by (simp add: sample_busy_def)
  with begin_go [OF b, of "sample_env []" default_infer_settings] sample_env_ok
  show "counter_next (sample_env []) default_infer_settings ?s sample_busy"
    by (simp add: counter_next_def)
qed

theorem one_chain_per_coach_witness:
  "update_begin (cs_counter sample_busy) ''A'' [] 100 = (None, cs_counter sample_busy)"
  using one_chain_per_coach [OF sample_busy_reach] by (auto simp: sample_busy_def)

text \<open>The three rate limits hold over any run of attempts: between two admitted occupancy
  updates of a coach there is at least a second, between two congestion events of a vestibule
  and between two accessibility events of a camera at least ten.\<close>

theorem rate_limits:
  "spaced 1 (dget_or (zc_last_emit zc) car 0) (times_of car (admitted occupancy_gate zc as)) \<and>
   spaced 10 (dget_or (zc_vest_last zc) vid 0) (times_of vid (admitted vestibule_gate zc bs)) \<and>
   spaced 10 (dget_or (cb_bicycle_last cb) cam 0) (times_of cam (admitted bicycle_gate cb cs))"
  by (intro conjI occupancy_limit.admitted_spaced vestibule_limit.admitted_spaced bicycle_limit.admitted_spaced)

text \<open>A failed occupancy POST loses a threshold crossing for good: the new count is stored
  before the POST, the failure skips the check, and from then on no count at or above the upper
  bound is reported as rising, because the previous count already was.\<close>

theorem failed_post_loses_crossing:
  assumes "update_begin zc car ds now = (Some prev, zc1)" "dget (zc_states zc1) car = Some st"
    and "post_occupancy_update E S j dt (zc_versions zc1) st w = (Inl e, w1)"
    and "update_finish E S j dt tick zc1 car prev ds cam w = (r, zc2, w2)"
    and "rising_at S (os_capacity st) \<le> of_int (os_count st)"
  shows "r = Inl e \<and> zc_threshold zc2 = zc_threshold zc \<and> dget (zc_states zc2) car = Some st \<and>
    (\<forall>d n. rising_at S (os_capacity st) \<le> of_int n \<longrightarrow> crossing S (os_capacity st) d (os_count st) n \<noteq> Some Rising)"
proof -
  have "update_chain E S j dt tick zc1 car st prev ds cam w = (Inl e, zc1, w1)"
    using assms(3) by (rule failed_post_skips_threshold)
  with assms(2,4) have "r = Inl e" "zc2 = release zc1 car" by (auto simp: update_finish_def)
  moreover have "zc_threshold zc1 = zc_threshold zc" using update_begin_frame [OF assms(1)] by simp
  moreover have "crossing S (os_capacity st) d (os_count st) n \<noteq> Some Rising" for d n
    using assms(5) by (auto simp: crossing_def)
  ultimately show ?thesis using assms(2) by (simp add: release_def)
qed

definition crowd :: "detection list" where
  "crowd = map (\<lambda>i. \<lparr>d_track = Some i, d_label = ''person'', d_bbox = None, d_vestibule = None, d_confidence = None\<rparr>)
     [1, 2, 3, 4, 5, 6, 7, 8, 9, 10, 11, 12, 13, 14, 15, 16, 17, 18, 19]"

definition lossy_env :: environment where
  "lossy_env = (sample_env [])\<lparr>net := \<lambda>t. Undelivered\<rparr>"

lemma lossy_attempt: "fst (emit_attempt lossy_env S j now et kw sev path w) \<noteq> Inr u"
  by (auto simp: emit_attempt_def http_post_def lossy_env_def sample_env_def split: sum.splits prod.splits)

lemma lossy_event: "\<exists>e. fst (emit_event lossy_env S j now et kw sev path w) = Inl e"
proof (cases "fst (emit_event lossy_env S j now et kw sev path w)")
  case (Inr u)
  then have "emit_event lossy_env S j now et kw sev path w = (Inr u, snd (emit_event lossy_env S j now et kw sev path w))"
    by (metis prod.collapse)
  then obtain w0 where "emit_attempt lossy_env S j now et kw sev path w0 = (Inr u, snd (emit_event lossy_env S j now et kw sev path w))"
    unfolding emit_event_def by (blast dest: retry_call_succeeded)
  then show ?thesis using lossy_attempt [of S j now et kw sev path w0 u] by simp
qed simp

theorem failed_post_loses_crossing_witness:
  "\<exists>e. fst (update_finish lossy_env default_infer_settings ''T1_RJ42_20260517'' sample_clock 5
       (snd (update_begin sample_counter ''A'' crowd 5)) ''A'' 0 crowd None sample_world) = Inl e"
proof -
  let ?zc1 = "snd (update_begin sample_counter ''A'' crowd 5)"
  have b: "update_begin sample_counter ''A'' crowd 5 = (Some 0, ?zc1)"
    by (simp add: sample_counter_def update_begin_def occupancy_gate_def dget_or_def sample_state_def)
  have st: "dget (zc_states ?zc1) ''A'' = Some (count_people sample_state crowd)"
    by (simp add: sample_counter_def update_begin_def occupancy_gate_def dget_or_def)
  obtain e w1 where p: "post_occupancy_update lossy_env default_infer_settings ''T1_RJ42_20260517'' sample_clock
      (zc_versions ?zc1) (count_people sample_state crowd) sample_world = (Inl e, w1)"
    unfolding post_occupancy_update_def by (metis lossy_event prod.collapse)
  obtain r zc2 w2 where f: "update_finish lossy_env default_infer_settings ''T1_RJ42_20260517'' sample_clock 5 ?zc1 ''A'' 0 crowd
      None sample_world = (r, zc2, w2)" by (metis prod_cases3)
  have n: "os_count (count_people sample_state crowd) = 19" "os_capacity (count_people sample_state crowd) = 20"
    by (simp_all add: count_people_def Let_def person_tracks_def crowd_def sample_state_def)
  have "rising_at default_infer_settings (os_capacity (count_people sample_state crowd))
      \<le> of_int (os_count (count_people sample_state crowd))"
    unfolding n sample_rising by simp
  from conjunct1 [OF failed_post_loses_crossing [OF b st p f this]] f show ?thesis by simp
qed

section \<open>Emission\<close>

text \<open>What two attempts of one emission send when the first reply is lost: two envelopes, each
  with an id and a timestamp of its own.\<close>

lemma lost_reply_duplicates:
  assumes "env_ok E" "net E (w_tick w) = Lost_reply" "net E (Suc (w_tick w)) = Acked"
    and "validate_payload (pyd E) et kwargs = Inr v"
    and "infer_envelope E S j (uuids E (w_uuids w)) (now (w_uuids w)) et (model_dump et v) sev = Inr e1"
    and "infer_envelope E S j (uuids E (Suc (w_uuids w))) (now (Suc (w_uuids w))) et (model_dump et v) sev = Inr e2"
    and "emit_event E S j now et kwargs sev path w = (r, w')"
  shows "r = Inr () \<and> sent_events (w_sent w') = sent_events (w_sent w) @ [e1, e2] \<and>
    ev_id e1 = uuids E (w_uuids w) \<and> ev_id e2 = uuids E (Suc (w_uuids w)) \<and> ev_payload e1 = ev_payload e2"
proof -
  let ?w1 = "w\<lparr>w_uuids := Suc (w_uuids w), w_tick := Suc (w_tick w), w_sent := w_sent w @ [PostEvent e1]\<rparr>"
  let ?w2 = "?w1\<lparr>w_uuids := Suc (Suc (w_uuids w)), w_tick := Suc (Suc (w_tick w)), w_sent := w_sent w @ [PostEvent e1, PostEvent e2]\<rparr>"
  have 1: "emit_attempt E S j now et kwargs sev path w = (Inl HTTPError, ?w1)"
    using assms(2,4,5) by (simp add: emit_attempt_def next_uuid_def http_post_def)
  have 2: "emit_attempt E S j now et kwargs sev path ?w1 = (Inr (), follow_up E path (model_dump et v) ?w2)"
    using assms(3,4,6) by (simp add: emit_attempt_def next_uuid_def http_post_def)
  have "emit_event E S j now et kwargs sev path w = (Inr (), follow_up E path (model_dump et v) ?w2)"
    unfolding emit_event_def default_attempts_def by (simp add: numeral_eq_Suc 1 2)
  moreover have "sent_events (w_sent (follow_up E path p u)) = sent_events (w_sent u)" for p u
    by (auto simp: follow_up_def http_post_def split: option.split delivery.split)
  ultimately show ?thesis
    using assms(7) infer_envelope_own [OF assms(1,5)] infer_envelope_own [OF assms(1,6)] by auto
qed

definition sample_ramp :: jdict where
  "sample_ramp = [(''car_id'', JStr ''A''), (''door_id'', JStr ''d''), (''triggered_by_track_id'', JStr ''unknown''),
     (''deployed_by'', JStr ''auto''), (''station_id'', JStr ''s'')]"

definition sample_ramp_event :: "nat \<Rightarrow> envelope" where
  "sample_ramp_event n = \<lparr>ev_id = sample_uuid n, ev_journey_id = ''T1_RJ42_20260517'', ev_vehicle_id = ''OBB-TEST'',
     ev_timestamp = utc_now (sample_clock n), ev_type = RAMP_DEPLOYED, ev_severity = Sev_info,
     ev_source = Src_inference, ev_schema_version = 1, ev_payload = sample_ramp\<rparr>"

lemma sample_journey_ok: "validate_journey_id ''T1_RJ42_20260517''"
  by (simp add: validate_journey_id_def strptime_ymd_def date_ok_def days_in_month_def field_def nat_of_digits_def
      digit_val_def is_digit_def numeral_eq_Suc leap_year_def)

lemma sample_ramp_valid: "validate_payload strict_pydantic RAMP_DEPLOYED sample_ramp = Inr sample_ramp"
  by (simp add: sample_ramp_def validate_payload_def validate_fields_def ramp_deployed_fields_def field_names_def
      field_name_def dkeys_def payload_invariant_def strict_pydantic_def keep_if_def)

lemma sample_ramp_envelope:
  "infer_envelope (sample_env ds) default_infer_settings ''T1_RJ42_20260517'' (sample_uuid n) (sample_clock n) RAMP_DEPLOYED
     (model_dump RAMP_DEPLOYED sample_ramp) Sev_info = Inr (sample_ramp_event n)"
proof -
  have "model_dump RAMP_DEPLOYED sample_ramp = sample_ramp" by (simp add: model_dump_def)
  moreover have "validate_payload_shape strict_pydantic RAMP_DEPLOYED sample_ramp"
    using sample_ramp_valid by (auto simp: validate_payload_shape_def)
  moreover have "event_type_of ''RAMP_DEPLOYED'' = Some RAMP_DEPLOYED"
    using event_type_of_value [of RAMP_DEPLOYED] by simp
  ultimately show ?thesis
    using sample_journey_ok
    by (simp add: infer_envelope_def validate_envelope_def default_str_def coerce_legacy_event_type_def sample_env_def
        severity_of_def source_of_def default_infer_settings_def validate_schema_version_def
        supported_schema_versions_def sample_ramp_event_def)
qed

lemma sample_ramp_emission:
  "emit_event (sample_env [Lost_reply]) default_infer_settings ''T1_RJ42_20260517'' sample_clock RAMP_DEPLOYED sample_ramp Sev_info
     None sample_world = (r, w') \<Longrightarrow> sent_events (w_sent w') = [sample_ramp_event 0, sample_ramp_event 1]"
proof -
  let ?E = "sample_env [Lost_reply]"
  assume e: "emit_event ?E default_infer_settings ''T1_RJ42_20260517'' sample_clock RAMP_DEPLOYED sample_ramp Sev_info
     None sample_world = (r, w')"
  have n: "net ?E (w_tick sample_world) = Lost_reply" "net ?E (Suc (w_tick sample_world)) = Acked"
    by (simp_all add: sample_env_def sample_world_def)
  have v: "validate_payload (pyd ?E) RAMP_DEPLOYED sample_ramp = Inr sample_ramp"
    by (simp add: sample_env_def sample_ramp_valid)
  have u: "uuids ?E (w_uuids sample_world) = sample_uuid 0" "uuids ?E (Suc (w_uuids sample_world)) = sample_uuid 1"
    "sample_clock (w_uuids sample_world) = sample_clock 0" "sample_clock (Suc (w_uuids sample_world)) = sample_clock 1"
    by (simp_all add: sample_env_def sample_world_def)
  from conjunct1 [OF conjunct2 [OF lost_reply_duplicates [OF sample_env_ok n v _ _ e, unfolded u,
      OF sample_ramp_envelope sample_ramp_envelope]]]
  show ?thesis by (simp add: sample_world_def)
qed

section \<open>The tripwire\<close>

text \<open>A track is counted once per crossing: over any run of sightings of one track, the
  crossings reported alternate between the two directions, starting with the one that leaves the
  side on record, and a sighting on the other side with low or no confidence neither reports nor
  moves the track.\<close>

theorem crossings_of_a_track:
  assumes "sides_ok d"
  shows "alternates (dget d t) (side_run d t xs) \<and>
    (\<forall>prev s conf. dget d t = Some prev \<and> prev \<noteq> s \<and> \<not> confident conf \<longrightarrow> observe_side d t s conf = (None, d))"
  using side_run_alternates [OF assms] observe_low_confidence by blast

theorem crossings_of_a_track_witness:
  "alternates None (side_run [] 7 [(From_side, None), (To_side, Some 1), (From_side, Some (1 / 2)), (From_side, Some 1)])"
proof -
  have "sides_ok []" by (simp add: sides_ok_def)
  note conjunct1 [OF crossings_of_a_track [OF this], of 7]
  moreover have "dget [] (7 :: int) = None" by simp
  ultimately show ?thesis by metis
qed

text \<open>What a detection does: it sends nothing unless it is a confident sighting of a known
  track on the other side of the wire, and then only WAGON_ENTRY (aft camera) or WAGON_EXIT (fwd
  camera) events of the current journey and their candidates for fusion.\<close>

theorem detection_effect:
  assumes "env_ok E" "handle_detection E S j now tw t (x0, y0, x1, y1) conf w = (r, tw', w')"
    and "s = centroid_side (tc_polygon (tw_config tw)) ((x0 + x1) / 2) ((y0 + y1) / 2)"
  shows "if confident conf \<and> (\<exists>prev. dget (tw_last_side tw) t = Some prev \<and> prev \<noteq> s)
    then adds (infer_own E j {if tw_zone tw = ''gangway-aft'' then WAGON_ENTRY else WAGON_EXIT} tripwire_paths) w w'
    else w' = w \<and> r = Inr ()"
proof (cases "fst (observe_side (tw_last_side tw) t s conf)")
  case None
  then have "\<not> (confident conf \<and> (\<exists>prev. dget (tw_last_side tw) t = Some prev \<and> prev \<noteq> s))"
    using observe_crossing_iff [of "tw_last_side tw" t s conf] by (metis option.distinct(1))
  moreover have "w' = w \<and> r = Inr ()"
    using handle_detection_quiet [OF None [unfolded assms(3)], of E S j now w] assms(2) by auto
  ultimately show ?thesis by simp
next
  case (Some tr)
  then have c: "confident conf \<and> (\<exists>prev. dget (tw_last_side tw) t = Some prev \<and> prev \<noteq> s)"
    using observe_crossing_iff [of "tw_last_side tw" t s conf tr] by blast
  obtain d where o: "observe_side (tw_last_side tw) t s conf = (Some tr, d)" using Some by (metis prod.collapse)
  with assms(2,3) have "on_crossing E S j now (tw\<lparr>tw_last_side := d\<rparr>) t tr (keep_or conf 0) w = (r, tw', w')"
    by (simp add: handle_detection_def)
  from on_crossing_sends(1) [OF assms(1) this] c show ?thesis by simp
qed

definition sample_gangway :: gangway_camera where
  "sample_gangway = \<lparr>gc_camera_id = ''cam-g'', gc_zone = ''gangway-fwd'', gc_polygon = Some [(320, 0), (320, 480)],
     gc_from = Some ''A'', gc_to = Some ''B'', gc_axis = Some ''x'', gc_traversal = None\<rparr>"

definition sample_tripwire :: tripwire where
  "sample_tripwire = \<lparr>tw_config = \<lparr>tc_from = ''A'', tc_to = ''B'', tc_axis = ''x'', tc_traversal = ''from_to'',
     tc_polygon = [(320, 0), (320, 480)]\<rparr>, tw_camera_id = ''cam-g'', tw_zone = ''gangway-fwd'', tw_last_side = [],
     tw_pending = [], tw_timers = [], tw_next_timer = 0, tw_tasks = []\<rparr>"

lemma sample_tripwire_built: "build_tripwire sample_gangway = Inr sample_tripwire"
  by (simp add: build_tripwire_def sample_gangway_def sample_tripwire_def gangway_zones_def Let_def)

theorem detection_effect_witness:
  "snd (snd (handle_detection (sample_env []) default_infer_settings ''T1_RJ42_20260517'' sample_clock sample_tripwire 7
      (100, 100, 120, 120) (Some 1) sample_world)) = sample_world"
proof -
  obtain r tw' w' where h: "handle_detection (sample_env []) default_infer_settings ''T1_RJ42_20260517'' sample_clock
      sample_tripwire 7 (100, 100, 120, 120) (Some 1) sample_world = (r, tw', w')" by (metis prod_cases3)
  from detection_effect [OF sample_env_ok h refl] have "w' = sample_world"
    by (simp add: sample_tripwire_def)
  with h show ?thesis by simp
qed

text \<open>The memory of the tripwire stays bounded: in every state a handler can reach, by
  detections, timers and orphan tasks in any order, it remembers at most 2000 tracks, each once.\<close>

theorem tripwire_bounded:
  assumes "reach tripwire_start (tripwire_next E S) s"
  shows "length (tw_last_side (ts_wire s)) \<le> 2000 \<and> distinct (dkeys (tw_last_side (ts_wire s)))"
  using tripwires.reach_inv [OF assms] by (simp add: tripwire_inv_def sides_ok_def dwf_def last_side_max_def)

theorem tripwire_bounded_witness:
  "length (tw_last_side (ts_wire \<lparr>ts_wire = sample_tripwire, ts_world = sample_world\<rparr>)) \<le> 2000"
proof (rule conjunct1 [OF tripwire_bounded])
  show "reach tripwire_start (tripwire_next (sample_env []) default_infer_settings)
      \<lparr>ts_wire = sample_tripwire, ts_world = sample_world\<rparr>"
    by (rule reach_init) (auto simp: tripwire_start_def intro: sample_tripwire_built)
qed

section \<open>The callback and the control side\<close>

text \<open>A seating zone drawn as a rectangle contains every point of the closed rectangle and no
  point farther from it than the tolerance of the edge test (a thousand-millionth of a pixel).\<close>

theorem rectangle_zone:
  assumes "x0 < x1" "y0 < y1"
  shows "(x0 \<le> x \<and> x \<le> x1 \<and> y0 \<le> y \<and> y \<le> y1 \<longrightarrow> point_in_polygon x y (rect x0 y0 x1 y1)) \<and>
    (x < x0 - eps \<or> x1 + eps < x \<or> y < y0 - eps \<or> y1 + eps < y \<longrightarrow> \<not> point_in_polygon x y (rect x0 y0 x1 y1))"
  using rect_inside_aux [OF assms, of x y] rect_outside_aux [OF assms, of x y] by blast

theorem rectangle_zone_witness:
  "point_in_polygon 10 5 (rect 0 0 10 10) \<and> \<not> point_in_polygon 11 5 (rect 0 0 10 10)"
  using rectangle_zone [of 0 10 0 10 10 5] rectangle_zone [of 0 10 0 10 11 5] by (simp add: eps_def)

text \<open>A person who stays in a door zone for \<open>n\<close> frames in a row, starting from a
  count of \<open>h\<close>, raises exactly \<open>(h + n) div min_frames\<close> candidates: one per
  \<open>min_frames\<close> frames, no flood and no miss.\<close>

theorem door_candidates_count:
  assumes "1 \<le> m" "is_door_min_frames S = int m"
    and "dget_or (cb_hits cb) (cb_camera_id cb, t) 0 = int h" "h < m"
  shows "fst (person_frames S t n cb) = (h + n) div m"
  using assms by (rule person_frames_count)

definition sample_callback :: callback where
  "sample_callback = \<lparr>cb_camera_id = ''cam-1'', cb_car_id = ''A'', cb_zone = ''door'', cb_priority = ''P1'',
     cb_zone_masks = [], cb_vestibule = None, cb_allowed = [], cb_cam_to_door = [], cb_hits = [], cb_suitcase = [],
     cb_bicycle_last = [], cb_versions = [], cb_has_tripwire = False\<rparr>"

theorem door_candidates_count_witness: "fst (person_frames default_infer_settings 7 5 sample_callback) = 2"
  using door_candidates_count [of 2 default_infer_settings sample_callback 7 0 5]
  by (simp add: default_infer_settings_def sample_callback_def)

text \<open>Frames are neither lost nor counted twice: at any moment, with frames arriving while a
  heartbeat is being sent and heartbeats failing at will, the frames of the successful heartbeats
  and the frames still in the window add up to the frames recorded.\<close>

theorem heartbeat_accounts:
  assumes "reach heartbeat_start (heartbeat_step E S) s"
  shows "hs_reported s + hb_frames (hs_hb s) = hs_recorded s \<and> 0 \<le> hb_frames (hs_hb s)"
  using heartbeats.reach_inv [OF assms] by (simp add: heartbeat_inv_def)

definition idle_heartbeat :: heartbeat_system where
  "idle_heartbeat = \<lparr>hs_hb = \<lparr>hb_frames = 0, hb_last_at = sample_time\<rparr>, hs_snap = None, hs_recorded = 0, hs_reported = 0,
     hs_world = sample_world\<rparr>"

definition one_frame :: heartbeat_system where
  "one_frame = idle_heartbeat\<lparr>hs_hb := record_frames (hs_hb idle_heartbeat) 1 sample_time,
     hs_recorded := hs_recorded idle_heartbeat + 1\<rparr>"

lemma one_frame_reach: "reach heartbeat_start (heartbeat_step (sample_env []) default_infer_settings) one_frame"
proof (rule reach_step)
  show "reach heartbeat_start (heartbeat_step (sample_env []) default_infer_settings) idle_heartbeat"
    by (rule reach_init) (simp add: heartbeat_start_def idle_heartbeat_def)
qed (unfold one_frame_def, rule hb_frame)

theorem heartbeat_accounts_witness: "hs_reported one_frame + hb_frames (hs_hb one_frame) = hs_recorded one_frame"
  using heartbeat_accounts [OF one_frame_reach] by simp

text \<open>Start-up fails closed: when the wiring succeeds there is one callback per camera, each
  with a non-empty zone mask; every gangway camera has a tripwire handler with both coach names
  and no other camera has one; and every coach has a positive capacity.\<close>

theorem wiring_fails_closed:
  assumes "wire S doors versions ccs holders = Inr (zc, cs)"
  shows "length cs = length ccs \<and>
    (\<forall>cb tw. (cb, tw) \<in> set cs \<longrightarrow> cb_zone_masks cb \<noteq> [] \<and> (is_gangway cb \<longleftrightarrow> tw \<noteq> None) \<and> cb_has_tripwire cb = (tw \<noteq> None) \<and>
       (\<forall>t. tw = Some t \<longrightarrow> tc_from (tw_config t) \<noteq> [] \<and> tc_to (tw_config t) \<noteq> [])) \<and>
    (\<forall>car st. dget (zc_states zc) car = Some st \<longrightarrow> 0 < os_capacity st)"
proof -
  note w = wire_ok [OF assms]
  have "cb_zone_masks cb \<noteq> [] \<and> (is_gangway cb \<longleftrightarrow> tw \<noteq> None) \<and> cb_has_tripwire cb = (tw \<noteq> None) \<and>
       (\<forall>t. tw = Some t \<longrightarrow> tc_from (tw_config t) \<noteq> [] \<and> tc_to (tw_config t) \<noteq> [])" if "(cb, tw) \<in> set cs" for cb tw
  proof -
    from that w obtain cc where c: "wire_camera S doors versions cc = Inr (cb, tw)"
      by (fastforce simp: list_all2_conv_all_nth in_set_conv_nth)
    with wire_camera_ok [OF c] show ?thesis by blast
  qed
  with w show ?thesis by (auto simp: counter_ok_def state_ok_def)
qed

definition sample_config :: camera_config where
  "sample_config = \<lparr>cc_cam = sample_camera\<lparr>cam_zone := Some ''gangway-fwd''\<rparr>, cc_priority = ''P1'',
     cc_seat_zones = [\<lparr>zm_name = ''seats'', zm_polygon = rect 0 0 10 10\<rparr>], cc_vestibule = None,
     cc_polygon = Some [(320, 0), (320, 480)], cc_from = Some ''A'', cc_to = Some ''B'', cc_axis = Some ''x'', cc_traversal = None\<rparr>"

theorem wiring_fails_closed_witness:
  "case wire default_infer_settings [] [] [sample_config] 1 of Inl _ \<Rightarrow> False
   | Inr (zc, cs) \<Rightarrow> length cs = 1 \<and> 0 < os_capacity (the (dget (zc_states zc) ''A''))"
proof (cases "wire default_infer_settings [] [] [sample_config] 1")
  case (Inl e)
  then show ?thesis
    by (simp add: wire_def build_counter_def camera_capacity_def sample_config_def sample_camera_def wire_camera_def
        zone_masks_for_camera_def wire_tripwire_def build_tripwire_def gangway_zones_def gangway_of_def truthy_def
        build_callback_def Let_def dhas_iff)
next
  case (Inr p)
  then obtain zc cs where w: "wire default_infer_settings [] [] [sample_config] 1 = Inr (zc, cs)" by (cases p) simp
  then obtain st where "dget (zc_states zc) ''A'' = Some st"
    by (auto simp: wire_def build_counter_def camera_capacity_def sample_config_def sample_camera_def Let_def res_iff dhas_iff)
  with wiring_fails_closed [OF w] w show ?thesis by auto
qed

end
