(* ===== verification/Infer_Pipeline.thy ===== *)
theory Infer_Pipeline
  imports Infer_Control
begin

text \<open>
  The multiplexed pipeline of the inference container, \<open>inference/src/inference/pipeline.py\<close>,
  and its start (\<open>main.py\<close>): the pipeline string, the routing of a buffer to the callback of its
  camera, and the readiness of the cameras. What GStreamer and the Hailo helpers do is outside:
  their string fragments and the stream id read off a buffer (\<open>None\<close> when reading it raises) are
  parameters, and the constructor of \<open>GStreamerDetectionApp\<close> is taken to succeed.
\<close>

section \<open>The pipeline string\<close>

definition coco_class_id :: "(string, int) dict" where
  "coco_class_id = [(''person'', 0)]"

definition roundrobin_name :: string where
  "roundrobin_name = ''src_rr''"

record pipeline_settings =
  ps_fps :: rat
  ps_hef_path :: string
  ps_batch_size :: int

definition default_pipeline_settings :: pipeline_settings where
  "default_pipeline_settings = \<lparr>ps_fps = 5, ps_hef_path = ''/models/yolox_s_leaky.hef'', ps_batch_size = 8\<rparr>"

record fragments =
  fr_inference :: "string \<Rightarrow> int \<Rightarrow> string"
  fr_tracker :: "int \<Rightarrow> string"
  fr_user_callback :: "string \<Rightarrow> string"
  fr_display :: string

text \<open>The sink pad of a source, as the branch names it.\<close>

definition pad_name :: "nat \<Rightarrow> string" where
  "pad_name i = ''sink_'' @ show_nat i"

definition source_branch :: "nat \<Rightarrow> string \<Rightarrow> rat \<Rightarrow> string" where
  "source_branch i url fps =
     ''uridecodebin uri='' @ url @ '' ! videorate ! video/x-raw,framerate='' @ show_int (truncate_rat fps) @
     ''/1 ! videoconvert ! video/x-raw,format=RGB ! '' @ roundrobin_name @ ''.'' @ pad_name i @ '' ''"

definition source_branches :: "string list \<Rightarrow> rat \<Rightarrow> string list" where
  "source_branches urls fps = map (\<lambda>(i, u). source_branch i u fps) (enumerate 0 urls)"

definition build_pipeline_string :: "fragments \<Rightarrow> pipeline_settings \<Rightarrow> string list \<Rightarrow> string res" where
  "build_pipeline_string F P urls =
     (if urls = [] \<or> [] \<in> set urls then Inl ValueError
      else Inr (concat (source_branches urls (ps_fps P)) @ ''hailoroundrobin name='' @ roundrobin_name @ '' ! '' @
        fr_inference F (ps_hef_path P) (ps_batch_size P) @ fr_tracker F (dget_or coco_class_id ''person'' 0) @
        fr_user_callback F ''oebb'' @ fr_display F))"

section \<open>Routing\<close>

text \<open>\<open>(?:^|_)(\d+)$\<close>: the digits at the end, before a final line break if there is one, after the
  start or an underscore. \<open>None\<close> stands for \<open>_UNKNOWN_STREAM\<close>.\<close>

definition parse_stream_index :: "string \<Rightarrow> nat option" where
  "parse_stream_index s =
     (let t = (if s \<noteq> [] \<and> last s = CHR 0x0A then butlast s else s);
          ds = rev (takeWhile is_digit (rev t)); before = rev (dropWhile is_digit (rev t))
      in if ds \<noteq> [] \<and> (before = [] \<or> last before = CHR ''_'') then Some (nat_of_digits ds) else None)"

record pipeline =
  pl_callbacks :: "callback list"
  pl_first_frame :: "bool list"
  pl_ready :: "bool list"
  pl_string :: string

text \<open>\<open>InferencePipeline.__init__\<close>, with one readiness holder per camera.\<close>

definition new_pipeline ::
  "fragments \<Rightarrow> infer_settings \<Rightarrow> pipeline_settings \<Rightarrow> (callback \<times> string) list \<Rightarrow> bool list \<Rightarrow> pipeline res" where
  "new_pipeline F S P cbs ready =
     (if is_detection_classes S \<noteq> [''person''] then Inl ValueError
      else if cbs = [] then Inl ValueError
      else bind_res (build_pipeline_string F P (map snd cbs)) (\<lambda>s.
        Inr \<lparr>pl_callbacks = map fst cbs, pl_first_frame = replicate (length cbs) True, pl_ready = ready, pl_string = s\<rparr>))"

definition resolve_stream_index :: "pipeline \<Rightarrow> string option \<Rightarrow> nat option" where
  "resolve_stream_index p stream_id =
     (if length (pl_callbacks p) = 1 then Some 0
      else (case stream_id of
              None \<Rightarrow> None
            | Some s \<Rightarrow>
                (case parse_stream_index s of
                   None \<Rightarrow> None
                 | Some i \<Rightarrow> if i < length (pl_callbacks p) then Some i else None)))"

text \<open>\<open>_dispatch\<close>: the jobs the callback schedules, the frames it counted, the pipeline after.\<close>

definition dispatch ::
  "infer_settings \<Rightarrow> bool \<Rightarrow> bool \<Rightarrow> rat \<Rightarrow> string option \<Rightarrow> raw_detection list option \<Rightarrow> pipeline \<Rightarrow>
   job list \<times> nat \<times> pipeline" where
  "dispatch S throttled loop_up tick stream_id frame p =
     (case resolve_stream_index p stream_id of
        None \<Rightarrow> ([], 0, p)
      | Some i \<Rightarrow>
          (let p1 = (if pl_first_frame p ! i
                     then p\<lparr>pl_ready := (pl_ready p)[i := True], pl_first_frame := (pl_first_frame p)[i := False]\<rparr> else p)
           in (case on_frame S throttled loop_up tick frame (pl_callbacks p ! i) of
                 (js, n, cb) \<Rightarrow> (js, n, p1\<lparr>pl_callbacks := (pl_callbacks p1)[i := cb]\<rparr>))))"

text \<open>The end of the pipeline thread, whatever ended it.\<close>

definition pipeline_exited :: "pipeline \<Rightarrow> pipeline" where
  "pipeline_exited p = p\<lparr>pl_ready := map (\<lambda>r. False) (pl_ready p)\<rparr>"

text \<open>\<open>main\<close>'s \<open>lifespan\<close>: the cameras, the wiring, the pipeline.\<close>

definition start_inference ::
  "fragments \<Rightarrow> infer_settings \<Rightarrow> pipeline_settings \<Rightarrow> (string, string list) dict \<Rightarrow> (string, string) dict \<Rightarrow>
   (camera_config \<times> string) list \<Rightarrow> (zone_counter \<times> tripwire option list \<times> pipeline) res" where
  "start_inference F S P doors versions ccs =
     bind_res (load_cameras (map fst ccs)) (\<lambda>cams.
     bind_res (wire S doors versions cams (length cams)) (\<lambda>(zc, cs).
     bind_res (new_pipeline F S P (zip (map fst cs) (map snd ccs)) (replicate (length cs) False)) (\<lambda>p.
       Inr (zc, map snd cs, p))))"

section \<open>The served app\<close>

text \<open>
  \<open>main\<close> serves the app it builds before the loop runs; its \<open>lifespan\<close> appends the routes of the
  wired app to it. Each of the two has a throttle and a journey of its own, and only the wired
  one has a ramp handler. \<open>router\<close> is how the web framework picks a route from the table; other
  routes of the framework (the schema and its pages) have paths of their own.
\<close>

datatype app_part = Bootstrap | Wired

type_synonym route = "(string \<times> string) \<times> app_part"

definition infer_routes :: "app_part \<Rightarrow> route list" where
  "infer_routes a =
     [((''GET'', ''/health/ready''), a), ((''GET'', ''/health/live''), a), ((''POST'', ''/context''), a)]"

record infer_app =
  ia_routes :: "route list"
  ia_boot :: infer_control
  ia_wired :: "infer_control option"

definition new_control :: "infer_settings \<Rightarrow> infer_control" where
  "new_control S = \<lparr>ic_throttled = False, ic_journey = is_journey_id S\<rparr>"

definition bootstrap_app :: "infer_settings \<Rightarrow> infer_app" where
  "bootstrap_app S = \<lparr>ia_routes = infer_routes Bootstrap, ia_boot = new_control S, ia_wired = None\<rparr>"

definition lifespan_begin :: "infer_settings \<Rightarrow> infer_app \<Rightarrow> infer_app" where
  "lifespan_begin S a = a\<lparr>ia_routes := ia_routes a @ infer_routes Wired, ia_wired := Some (new_control S)\<rparr>"

text \<open>The answer to a push: the ramp event scheduled and the app after; \<open>None\<close> when no route matches.\<close>

definition app_push ::
  "(route list \<Rightarrow> string \<times> string \<Rightarrow> app_part option) \<Rightarrow> infer_push \<Rightarrow> infer_app \<Rightarrow>
   ((string \<times> string) option \<times> infer_app) option" where
  "app_push router p a =
     (case (router (ia_routes a) (''POST'', ''/context''), ia_wired a) of
        (Some Bootstrap, _) \<Rightarrow> Some (None, a\<lparr>ia_boot := snd (infer_context_push False p (ia_boot a))\<rparr>)
      | (Some Wired, Some ic) \<Rightarrow>
          (case infer_context_push True p ic of (ramp, ic') \<Rightarrow> Some (ramp, a\<lparr>ia_wired := Some ic'\<rparr>))
      | _ \<Rightarrow> None)"

fun app_pushes ::
  "(route list \<Rightarrow> string \<times> string \<Rightarrow> app_part option) \<Rightarrow> infer_push list \<Rightarrow> infer_app \<Rightarrow>
   (string \<times> string) list \<times> infer_app" where
  "app_pushes router [] a = ([], a)"
| "app_pushes router (p # ps) a =
     (case app_push router p a of
        None \<Rightarrow> app_pushes router ps a
      | Some (ramp, a') \<Rightarrow> (case app_pushes router ps a' of (rs, a2) \<Rightarrow> (case ramp of None \<Rightarrow> rs | Some r \<Rightarrow> r # rs, a2)))"

text \<open>What the framework documents: a request goes to the first route of its method and path.\<close>

definition in_order :: "(route list \<Rightarrow> string \<times> string \<Rightarrow> app_part option) \<Rightarrow> bool" where
  "in_order router \<longleftrightarrow>
     (\<forall>rs k. (router rs k = None) = (k \<notin> fst ` set rs)) \<and>
     (\<forall>rs k a. router rs k = Some a \<longrightarrow> (k, a) \<in> set rs) \<and>
     (\<forall>rs qs k a. router rs k = Some a \<longrightarrow> router (rs @ qs) k = Some a)"

section \<open>Running\<close>

text \<open>The steps of a started pipeline; \<open>pr_seen\<close> records the streams that delivered a buffer.\<close>

record pipeline_run =
  pr_pipeline :: pipeline
  pr_running :: bool
  pr_seen :: "nat set"

inductive pipeline_step :: "infer_settings \<Rightarrow> pipeline_run \<Rightarrow> pipeline_run \<Rightarrow> bool" for S :: infer_settings where
  Buffer: "pr_running R \<Longrightarrow> dispatch S throttled loop_up tick sid frame (pr_pipeline R) = (js, n, p) \<Longrightarrow>
     pipeline_step S R (R\<lparr>pr_pipeline := p, pr_seen := pr_seen R \<union> set_option (resolve_stream_index (pr_pipeline R) sid)\<rparr>)"
| Crash: "pr_running R \<Longrightarrow> pipeline_step S R (R\<lparr>pr_pipeline := pipeline_exited (pr_pipeline R), pr_running := False\<rparr>)"

definition pipeline_start ::
  "fragments \<Rightarrow> infer_settings \<Rightarrow> pipeline_settings \<Rightarrow> (string, string list) dict \<Rightarrow> (string, string) dict \<Rightarrow>
   (camera_config \<times> string) list \<Rightarrow> pipeline_run \<Rightarrow> bool" where
  "pipeline_start F S P doors versions ccs R \<longleftrightarrow>
     (\<exists>zc tws. start_inference F S P doors versions ccs = Inr (zc, tws, pr_pipeline R)) \<and> pr_running R \<and> pr_seen R = {}"

section \<open>Facts\<close>

lemma digits_show_nat: "list_all is_digit (show_nat n)" "nat_of_digits (show_nat n) = n" "show_nat n \<noteq> []"
  by (simp_all only: show_nat_digits nat_of_digits_show show_nat_nonempty) simp_all

text \<open>A stream id that ends in a number, after the start or an underscore, is read as that number; so
  the one the round robin stamps names the pad it was wired to.\<close>

lemma parse_trailing_number:
  assumes "pre = [] \<or> last pre = CHR ''_''"
  shows "parse_stream_index (pre @ show_nat i) = Some i"
proof -
  have d: "\<forall>c \<in> set (rev (show_nat i)). is_digit c" using digits_show_nat(1) [of i] by (simp add: list_all_iff)
  have n: "\<not> is_digit (CHR ''_'')" "\<not> is_digit (CHR 0x0A)" by (simp_all add: is_digit_def)
  have "last (show_nat i) \<in> set (show_nat i)" using digits_show_nat(3) by (rule last_in_set)
  with d n(2) have "last (show_nat i) \<noteq> CHR 0x0A" by (metis set_rev)
  then have nl: "last (pre @ show_nat i) \<noteq> CHR 0x0A" using digits_show_nat(3) [of i] by simp
  have stop: "takeWhile is_digit (rev pre) = []" "dropWhile is_digit (rev pre) = rev pre"
    using assms n(1) by (cases pre rule: rev_cases; simp)+
  have "takeWhile is_digit (rev (pre @ show_nat i)) = rev (show_nat i)"
    "dropWhile is_digit (rev (pre @ show_nat i)) = rev pre"
    using takeWhile_append2 [of "rev (show_nat i)" is_digit "rev pre"] d
      dropWhile_append2 [of "rev (show_nat i)" is_digit "rev pre"] stop by simp_all
  then show ?thesis
    using nl digits_show_nat assms by (auto simp: parse_stream_index_def Let_def)
qed

lemma parse_pad_name: "parse_stream_index (pad_name i) = Some i"
  unfolding pad_name_def by (rule parse_trailing_number) simp

lemma pad_name_inj: "pad_name i = pad_name j \<longleftrightarrow> i = j"
  using parse_pad_name by (metis option.inject)

text \<open>A callback keeps its camera and the classes it admits.\<close>

definition callback_id :: "callback \<Rightarrow> string \<times> string list" where
  "callback_id cb = (cb_camera_id cb, cb_allowed cb)"

lemma on_frame_keeps:
  assumes "on_frame S throttled loop_up tick frame cb = (js, n, cb')"
  shows "callback_id cb' = callback_id cb"
proof -
  have hp: "callback_id (snd (handle_people S ts c)) = callback_id c" for ts c
    by (induction ts arbitrary: c) (simp_all add: handle_person_def Let_def case_prod_unfold callback_id_def)
  have "callback_id (snd (door_stage S tick boxes ts c)) = callback_id c" for boxes ts c
  proof -
    have "callback_id (snd (handle_suitcase S tick boxes c)) = callback_id c"
      by (simp add: handle_suitcase_def Let_def callback_id_def)
    moreover have "callback_id (clear_suitcase c) = callback_id c" "callback_id (prune_hits ts d) = callback_id d" for d
      by (simp_all add: clear_suitcase_def prune_hits_def callback_id_def)
    ultimately show ?thesis
      using hp [of ts "prune_hits ts (snd (handle_suitcase S tick boxes c))"] hp [of ts "prune_hits ts (clear_suitcase c)"]
      by (simp add: door_stage_def case_prod_unfold)
  qed
  note ds = this
  show ?thesis
  proof (cases frame)
    case (Some fs)
    show ?thesis
      using assms ds [of "suitcases S cb fs" "map (the \<circ> d_track) (accepted_people S cb fs)" cb]
      by (auto simp: on_frame_def Some Let_def split: if_splits prod.splits)
  qed (use assms in \<open>auto simp: on_frame_def split: if_splits\<close>)
qed

text \<open>A callback that only admits persons schedules nothing for luggage.\<close>

definition luggage_job :: "job \<Rightarrow> bool" where
  "luggage_job j \<longleftrightarrow> (case j of Bicycle c b \<Rightarrow> True | Door_candidate d k t \<Rightarrow> k \<noteq> ''person'' | _ \<Rightarrow> False)"

lemma on_frame_people:
  assumes "on_frame S throttled loop_up tick frame cb = (js, n, cb')" "cb_allowed cb = [''person'']"
  shows "\<not> list_ex luggage_job js"
proof -
  have none: "suitcases S cb ds = []" "bicycles S cb ds = []" for ds
    using assms(2) by (auto simp: suitcases_def bicycles_def admissible_def filter_empty_conv)
  have hp: "\<not> list_ex luggage_job (fst (handle_people S ts c))" for ts c
    by (induction ts arbitrary: c) (simp_all add: handle_person_def Let_def luggage_job_def case_prod_unfold)
  have "\<not> list_ex luggage_job (fst (door_stage S tick [] ts c))" for ts c
    using hp [of ts "prune_hits ts (clear_suitcase c)"] by (auto simp: door_stage_def split: prod.split)
  note ds = this
  show ?thesis
  proof (cases frame)
    case (Some fs)
    have people: "\<not> list_ex luggage_job (map (\<lambda>p. Tripwire_frame (the (d_track p)) (the (d_bbox p)) (d_confidence p)) ps)" for ps
      by (induction ps) (simp_all add: luggage_job_def)
    show ?thesis
      using assms(1) ds [of "map (the \<circ> d_track) (accepted_people S cb fs)" cb] people
      by (auto simp: on_frame_def Some Let_def none luggage_job_def split: if_splits prod.splits)
  qed (use assms in \<open>auto simp: on_frame_def split: if_splits\<close>)
qed

lemma dispatch_cases:
  assumes "dispatch S throttled loop_up tick sid frame p = (js, n, p')"
  obtains (dropped) "resolve_stream_index p sid = None" "js = []" "n = 0" "p' = p"
    | (routed) i cb where "resolve_stream_index p sid = Some i"
       "on_frame S throttled loop_up tick frame (pl_callbacks p ! i) = (js, n, cb)"
       "p' = p\<lparr>pl_callbacks := (pl_callbacks p)[i := cb],
              pl_ready := (if pl_first_frame p ! i then (pl_ready p)[i := True] else pl_ready p),
              pl_first_frame := (if pl_first_frame p ! i then (pl_first_frame p)[i := False] else pl_first_frame p)\<rparr>"
  using assms
  by (auto simp: dispatch_def Let_def split: option.splits prod.splits if_splits)

lemma resolve_bound: "resolve_stream_index p sid = Some i \<Longrightarrow> pl_callbacks p \<noteq> [] \<Longrightarrow> i < length (pl_callbacks p)"
  by (auto simp: resolve_stream_index_def split: if_splits option.splits)

text \<open>
  What a run keeps: the branches and the cameras in the order of the configuration, and a camera
  is ready exactly when the pipeline runs and the camera delivered.
\<close>

definition pipeline_inv ::
  "fragments \<Rightarrow> infer_settings \<Rightarrow> pipeline_settings \<Rightarrow> (camera_config \<times> string) list \<Rightarrow> pipeline_run \<Rightarrow> bool" where
  "pipeline_inv F S P ccs R \<longleftrightarrow>
     (let p = pr_pipeline R; n = length ccs in
      0 < n \<and> is_detection_classes S = [''person''] \<and> build_pipeline_string F P (map snd ccs) = Inr (pl_string p) \<and>
      map callback_id (pl_callbacks p) = map (\<lambda>c. (cam_id (cc_cam (fst c)), [''person''])) ccs \<and>
      length (pl_first_frame p) = n \<and> length (pl_ready p) = n \<and> pr_seen R \<subseteq> {..<n} \<and>
      (\<forall>i < n. pl_first_frame p ! i = (i \<notin> pr_seen R) \<and> pl_ready p ! i = (pr_running R \<and> i \<in> pr_seen R)))"

lemma pipeline_inv_length: "pipeline_inv F S P ccs R \<Longrightarrow> length (pl_callbacks (pr_pipeline R)) = length ccs"
  unfolding pipeline_inv_def Let_def by (metis length_map)

lemma pipeline_inv_camera:
  assumes "pipeline_inv F S P ccs R" "i < length ccs"
  shows "callback_id (pl_callbacks (pr_pipeline R) ! i) = (cam_id (cc_cam (fst (ccs ! i))), [''person''])"
proof -
  have "map callback_id (pl_callbacks (pr_pipeline R)) ! i = map (\<lambda>c. (cam_id (cc_cam (fst c)), [''person''])) ccs ! i"
    using assms(1) by (simp add: pipeline_inv_def Let_def)
  then show ?thesis using assms(2) pipeline_inv_length [OF assms(1)] by simp
qed

lemma wire_camera_id:
  "wire_camera S doors versions cc = Inr (cb, tw) \<Longrightarrow> callback_id cb = (cam_id (cc_cam cc), is_detection_classes S)"
  by (auto simp: wire_camera_def build_callback_def res_iff callback_id_def)

lemma new_pipeline_Inr:
  "new_pipeline F S P cbs ready = Inr p \<longleftrightarrow>
     is_detection_classes S = [''person''] \<and> cbs \<noteq> [] \<and> [] \<notin> snd ` set cbs \<and>
     (\<exists>s. build_pipeline_string F P (map snd cbs) = Inr s \<and>
       p = \<lparr>pl_callbacks = map fst cbs, pl_first_frame = replicate (length cbs) True, pl_ready = ready, pl_string = s\<rparr>)"
  by (auto simp: new_pipeline_def res_iff build_pipeline_string_def split: if_splits)

lemma start_inference_Inr:
  assumes "start_inference F S P doors versions ccs = Inr (zc, tws, p)"
  obtains cs where "wire S doors versions (map fst ccs) (length ccs) = Inr (zc, cs)" "ccs \<noteq> []" "tws = map snd cs"
    "new_pipeline F S P (zip (map fst cs) (map snd ccs)) (replicate (length ccs) False) = Inr p" "length cs = length ccs"
proof -
  from assms obtain cs where w: "wire S doors versions (map fst ccs) (length ccs) = Inr (zc, cs)" "ccs \<noteq> []" "tws = map snd cs"
    and p: "new_pipeline F S P (zip (map fst cs) (map snd ccs)) (replicate (length cs) False) = Inr p"
    by (auto simp: start_inference_def load_cameras_def res_iff split: if_splits)
  moreover have "length cs = length ccs" using wire_ok [OF w(1)] by simp
  ultimately show ?thesis using that by simp
qed

lemma pipeline_start_inv:
  assumes "pipeline_start F S P doors versions ccs R"
  shows "pipeline_inv F S P ccs R"
proof -
  obtain zc tws where "start_inference F S P doors versions ccs = Inr (zc, tws, pr_pipeline R)"
    using assms by (auto simp: pipeline_start_def)
  then obtain cs where w: "wire S doors versions (map fst ccs) (length ccs) = Inr (zc, cs)" and ne: "ccs \<noteq> []"
    and p: "new_pipeline F S P (zip (map fst cs) (map snd ccs)) (replicate (length ccs) False) = Inr (pr_pipeline R)"
    and len: "length cs = length ccs"
    by (rule start_inference_Inr)
  have people: "is_detection_classes S = [''person'']" using p by (simp add: new_pipeline_Inr)
  have "list_all2 (\<lambda>cc c. wire_camera S doors versions cc = Inr c) (map fst ccs) cs" using wire_ok [OF w] by simp
  then have "callback_id (fst (cs ! i)) = (cam_id (cc_cam (fst (ccs ! i))), [''person''])" if "i < length ccs" for i
    using that len people wire_camera_id [of S doors versions "fst (ccs ! i)" "fst (cs ! i)" "snd (cs ! i)"]
    by (simp add: list_all2_conv_all_nth)
  then have "map callback_id (map fst cs) = map (\<lambda>c. (cam_id (cc_cam (fst c)), [''person''])) ccs"
    using len by (intro nth_equalityI) simp_all
  moreover have "pl_callbacks (pr_pipeline R) = map fst cs" "pl_first_frame (pr_pipeline R) = replicate (length ccs) True"
    "pl_ready (pr_pipeline R) = replicate (length ccs) False"
    "build_pipeline_string F P (map snd ccs) = Inr (pl_string (pr_pipeline R))"
    using p len by (auto simp: new_pipeline_Inr)
  ultimately show ?thesis
    using assms ne people by (simp add: pipeline_inv_def Let_def pipeline_start_def)
qed

lemma pipeline_step_inv:
  assumes "pipeline_inv F S P ccs R" "pipeline_step S R R'"
  shows "pipeline_inv F S P ccs R'"
  using assms(2)
proof (cases rule: pipeline_step.cases)
  case (Buffer throttled loop_up tick sid frame js n p')
  let ?p = "pr_pipeline R"
  from Buffer(3) show ?thesis
  proof (cases rule: dispatch_cases)
    case dropped
    then show ?thesis using assms(1) Buffer(1) by (simp add: pipeline_inv_def)
  next
    case (routed i cb)
    note i = routed(1) and cb = routed(2) and p' = routed(3)
    have inv: "0 < length ccs" "is_detection_classes S = [''person'']"
      "build_pipeline_string F P (map snd ccs) = Inr (pl_string ?p)"
      "map callback_id (pl_callbacks ?p) = map (\<lambda>c. (cam_id (cc_cam (fst c)), [''person''])) ccs"
      "length (pl_first_frame ?p) = length ccs" "length (pl_ready ?p) = length ccs" "pr_seen R \<subseteq> {..<length ccs}"
      "\<And>k. k < length ccs \<Longrightarrow> pl_first_frame ?p ! k = (k \<notin> pr_seen R) \<and> pl_ready ?p ! k = (pr_running R \<and> k \<in> pr_seen R)"
      using assms(1) by (simp_all add: pipeline_inv_def Let_def)
    note len = pipeline_inv_length [OF assms(1)]
    from resolve_bound [OF i] inv(1) len have lt: "i < length ccs" by force
    have "map callback_id ((pl_callbacks ?p)[i := cb]) = map callback_id (pl_callbacks ?p)"
      using on_frame_keeps [OF cb] lt len by (simp add: map_update list_update_same_conv)
    then show ?thesis
      unfolding Buffer(1) pipeline_inv_def Let_def
      using inv(1-7) inv(8) lt Buffer(2) i by (auto simp: p' nth_list_update)
  qed
next
  case Crash
  then show ?thesis using assms(1) by (auto simp: pipeline_inv_def Let_def pipeline_exited_def)
qed

interpretation camera_run: invariant_system "pipeline_start F S P doors versions ccs" "pipeline_step S" "pipeline_inv F S P ccs"
  for F S P doors versions ccs
  by unfold_locales (auto intro: pipeline_start_inv pipeline_step_inv)

lemma source_branches_nth:
  assumes "i < length urls"
  shows "\<exists>pre post. concat (source_branches urls fps) = pre @ source_branch i (urls ! i) fps @ post"
proof -
  let ?bs = "source_branches urls fps"
  have l: "i < length ?bs" "?bs ! i = source_branch i (urls ! i) fps"
    using assms by (simp_all add: source_branches_def nth_enumerate_eq)
  have "concat ?bs = concat (take i ?bs) @ ?bs ! i @ concat (drop (Suc i) ?bs)"
    using l(1) by (metis concat.simps(2) concat_append id_take_nth_drop)
  with l(2) show ?thesis by auto
qed

section \<open>Facts of the served app\<close>

text \<open>The route of the shell hides the one appended after it.\<close>

definition served_by_shell :: "(route list \<Rightarrow> string \<times> string \<Rightarrow> app_part option) \<Rightarrow> infer_app \<Rightarrow> bool" where
  "served_by_shell router a \<longleftrightarrow> router (ia_routes a) (''POST'', ''/context'') = Some Bootstrap"

lemma served_by_shell_started:
  assumes "in_order router"
  shows "served_by_shell router (lifespan_begin S (bootstrap_app S))"
proof -
  let ?k = "(''POST'', ''/context'')"
  have "router (infer_routes Bootstrap) ?k \<noteq> None" using assms by (simp add: in_order_def infer_routes_def)
  then obtain a where a: "router (infer_routes Bootstrap) ?k = Some a" by blast
  with assms have "(?k, a) \<in> set (infer_routes Bootstrap)" by (simp add: in_order_def)
  then have "a = Bootstrap" by (simp add: infer_routes_def)
  with a assms show ?thesis
    by (simp add: in_order_def served_by_shell_def lifespan_begin_def bootstrap_app_def)
qed

lemma app_push_shell:
  "served_by_shell router a \<Longrightarrow> app_push router p a = Some (None, a\<lparr>ia_boot := snd (infer_context_push False p (ia_boot a))\<rparr>)"
  by (simp add: app_push_def served_by_shell_def)

lemma app_pushes_shell:
  "served_by_shell router a \<Longrightarrow>
     app_pushes router ps a = ([], a\<lparr>ia_boot := fold (\<lambda>p. snd \<circ> infer_context_push False p) ps (ia_boot a)\<rparr>)"
  by (induction ps arbitrary: a) (simp_all add: app_push_shell served_by_shell_def)

end
