(* ===== verification/Infer_Pipeline_Properties.thy ===== *)
theory Infer_Pipeline_Properties
  imports Infer_Properties Infer_Pipeline
begin

text \<open>The properties of the multiplexed pipeline and of the app the inference container serves.\<close>

section \<open>Samples\<close>

definition people_settings :: infer_settings where
  "people_settings = default_infer_settings\<lparr>is_detection_classes := [''person'']\<rparr>"

definition sample_fragments :: fragments where
  "sample_fragments = \<lparr>fr_inference = \<lambda>p n. p @ '' ! '', fr_tracker = \<lambda>n. ''hailotracker ! '',
     fr_user_callback = \<lambda>n. n @ '' ! '', fr_display = ''fakesink''\<rparr>"

definition door_camera :: "string \<Rightarrow> camera_config" where
  "door_camera c = \<lparr>cc_cam = sample_camera\<lparr>cam_id := c\<rparr>, cc_priority = ''P1'',
     cc_seat_zones = [\<lparr>zm_name = ''z'', zm_polygon = [(0, 0), (640, 0), (640, 480), (0, 480)]\<rparr>], cc_vestibule = None,
     cc_polygon = None, cc_from = None, cc_to = None, cc_axis = None, cc_traversal = None\<rparr>"

definition two_cameras :: "(camera_config \<times> string) list" where
  "two_cameras = [(door_camera ''cam-1'', ''rtsp://a''), (door_camera ''cam-2'', ''rtsp://b'')]"

definition sample_start :: "(zone_counter \<times> tripwire option list \<times> pipeline) res" where
  "sample_start = start_inference sample_fragments people_settings default_pipeline_settings [] [] two_cameras"

definition sample_pipeline :: pipeline where
  "sample_pipeline = (case sample_start of Inr (zc, tws, p) \<Rightarrow> p | Inl e \<Rightarrow>
     \<lparr>pl_callbacks = [], pl_first_frame = [], pl_ready = [], pl_string = []\<rparr>)"

lemma sample_started: "\<exists>zc. sample_start = Inr (zc, [None, None], sample_pipeline)"
  by (simp add: sample_pipeline_def sample_start_def start_inference_def two_cameras_def load_cameras_def wire_def
      build_counter_def camera_capacity_def door_camera_def sample_camera_def wire_camera_def zone_masks_for_camera_def
      wire_tripwire_def gangway_zones_def build_callback_def new_pipeline_def build_pipeline_string_def people_settings_def
      dhas_iff)

definition sample_run :: pipeline_run where
  "sample_run = \<lparr>pr_pipeline = sample_pipeline, pr_running = True, pr_seen = {}\<rparr>"

lemma sample_run_reach:
  "reach (pipeline_start sample_fragments people_settings default_pipeline_settings [] [] two_cameras)
     (pipeline_step people_settings) sample_run"
  by (rule reach_init)
    (use sample_started in \<open>auto simp: pipeline_start_def sample_run_def sample_start_def\<close>)

section \<open>Routing\<close>

lemma resolve_pad:
  assumes "i < length (pl_callbacks p)"
  shows "resolve_stream_index p (Some (pad_name i)) = Some i"
proof (cases "length (pl_callbacks p) = 1")
  case False
  then show ?thesis using assms by (simp add: resolve_stream_index_def parse_pad_name)
qed (use assms in \<open>simp add: resolve_stream_index_def\<close>)

lemma pipeline_string_branch:
  assumes "build_pipeline_string F P urls = Inr s" "i < length urls"
  shows "\<exists>pre post. s = pre @ source_branch i (urls ! i) (ps_fps P) @ post"
proof -
  obtain pre post where "concat (source_branches urls (ps_fps P)) = pre @ source_branch i (urls ! i) (ps_fps P) @ post"
    using source_branches_nth [OF assms(2)] by blast
  moreover obtain rest where "s = concat (source_branches urls (ps_fps P)) @ rest"
    using assms(1) by (auto simp: build_pipeline_string_def split: if_splits)
  ultimately show ?thesis by auto
qed

text \<open>C35: In every state of a started pipeline the stream of a camera goes to the callback of that
  camera: the pipeline string decodes the URL of the \<open>i\<close>-th camera into the \<open>i\<close>-th sink pad, and a
  buffer stamped with the name of that pad, or with any id that ends in the number \<open>i\<close> after the
  start or an underscore (\<open>src_i\<close>, the bare \<open>i\<close>), runs the callback of the \<open>i\<close>-th camera,
  whose coroutines it schedules, and leaves the state of every other callback alone. With more than one
  camera, a buffer whose stream id cannot be read, holds no such number, or holds one that is no
  camera's runs no callback at all; with one camera every buffer runs its callback.\<close>

theorem frames_routed:
  assumes "reach (pipeline_start F S P doors versions ccs) (pipeline_step S) R" "i < length ccs"
    and "on_frame S throttled loop_up tick frame (pl_callbacks (pr_pipeline R) ! i) = (js, n, cb)"
    and "dispatch S throttled loop_up tick sid frame (pr_pipeline R) = (js', n', p')"
  shows "(\<exists>pre post. pl_string (pr_pipeline R) = pre @ source_branch i (snd (ccs ! i)) (ps_fps P) @ post) \<and>
    cb_camera_id (pl_callbacks (pr_pipeline R) ! i) = cam_id (cc_cam (fst (ccs ! i))) \<and>
    parse_stream_index (pad_name i) = Some i \<and>
    (\<forall>pre. pre = [] \<or> last pre = CHR ''_'' \<longrightarrow> parse_stream_index (pre @ show_nat i) = Some i) \<and>
    (length ccs = 1 \<or> (\<exists>s. sid = Some s \<and> parse_stream_index s = Some i) \<longrightarrow>
       js' = js \<and> n' = n \<and> pl_callbacks p' = (pl_callbacks (pr_pipeline R))[i := cb]) \<and>
    (1 < length ccs \<and> (\<forall>s k. sid = Some s \<and> parse_stream_index s = Some k \<longrightarrow> length ccs \<le> k) \<longrightarrow>
       js' = [] \<and> n' = 0 \<and> p' = pr_pipeline R)"
proof -
  have inv: "pipeline_inv F S P ccs R" using assms(1) by (rule camera_run.reach_inv)
  note len = pipeline_inv_length [OF inv]
  have "cb_camera_id (pl_callbacks (pr_pipeline R) ! i) = cam_id (cc_cam (fst (ccs ! i)))"
    using pipeline_inv_camera [OF inv assms(2)] by (simp add: callback_id_def)
  moreover have "\<exists>pre post. pl_string (pr_pipeline R) = pre @ source_branch i (snd (ccs ! i)) (ps_fps P) @ post"
    using pipeline_string_branch [of F P "map snd ccs" _ i] inv assms(2) by (simp add: pipeline_inv_def Let_def)
  moreover have "js' = js \<and> n' = n \<and> pl_callbacks p' = (pl_callbacks (pr_pipeline R))[i := cb]"
    if "length ccs = 1 \<or> (\<exists>s. sid = Some s \<and> parse_stream_index s = Some i)"
  proof -
    have "resolve_stream_index (pr_pipeline R) sid = Some i"
      using that assms(2) by (auto simp: resolve_stream_index_def len)
    with assms(4,3) show ?thesis by (auto elim!: dispatch_cases)
  qed
  moreover have "js' = [] \<and> n' = 0 \<and> p' = pr_pipeline R"
    if "1 < length ccs" "\<forall>s k. sid = Some s \<and> parse_stream_index s = Some k \<longrightarrow> length ccs \<le> k"
  proof -
    have "resolve_stream_index (pr_pipeline R) sid = None"
      using that by (auto simp: resolve_stream_index_def len split: option.splits)
    with assms(4) show ?thesis by (auto elim!: dispatch_cases)
  qed
  ultimately show ?thesis using parse_pad_name parse_trailing_number by blast
qed

theorem frames_routed_witness:
  "\<exists>js n cb. cb_camera_id (pl_callbacks sample_pipeline ! 1) = ''cam-2'' \<and>
   on_frame people_settings False True 0 None (pl_callbacks sample_pipeline ! 1) = (js, n, cb) \<and>
   fst (dispatch people_settings False True 0 (Some (pad_name 1)) None sample_pipeline) = js \<and>
   dispatch people_settings False True 0 None None sample_pipeline = ([], 0, sample_pipeline)"
proof -
  let ?p = "pr_pipeline sample_run"
  obtain js n cb where o: "on_frame people_settings False True 0 None (pl_callbacks ?p ! 1) = (js, n, cb)"
    by (metis prod_cases3)
  obtain js' n' p' where d: "dispatch people_settings False True 0 (Some (pad_name 1)) None ?p = (js', n', p')"
    by (metis prod_cases3)
  obtain js'' n'' p'' where e: "dispatch people_settings False True 0 None None ?p = (js'', n'', p'')"
    by (metis prod_cases3)
  have two: "1 < length two_cameras" "cam_id (cc_cam (fst (two_cameras ! 1))) = ''cam-2''"
    by (simp_all add: two_cameras_def door_camera_def)
  from frames_routed [OF sample_run_reach two(1) o d] have "js' = js" by simp
  moreover from frames_routed [OF sample_run_reach two(1) o e] two have "js'' = [] \<and> n'' = 0 \<and> p'' = ?p"
    "cb_camera_id (pl_callbacks ?p ! 1) = ''cam-2''" by simp_all
  ultimately show ?thesis using o d e by (simp add: sample_run_def)
qed

text \<open>C36: The readiness answer tells the state of the cameras: while the pipeline runs it is
  \<open>ready\<close> exactly when every camera has delivered a buffer and 503 exactly when none has, and
  after the pipeline has ended, for whatever reason, it is 503 for good.\<close>

theorem readiness_true:
  assumes "reach (pipeline_start F S P doors versions ccs) (pipeline_step S) R"
  shows "(fst (health_ready (pl_ready (pr_pipeline R))) = ''ready'') = (pr_running R \<and> pr_seen R = {..<length ccs}) \<and>
    (snd (health_ready (pl_ready (pr_pipeline R))) = 503) = (\<not> pr_running R \<or> pr_seen R = {})"
proof -
  let ?rs = "pl_ready (pr_pipeline R)"
  have inv: "0 < length ccs" "length ?rs = length ccs" "pr_seen R \<subseteq> {..<length ccs}"
    "\<forall>i < length ccs. ?rs ! i = (pr_running R \<and> i \<in> pr_seen R)"
    using camera_run.reach_inv [OF assms] by (simp_all add: pipeline_inv_def Let_def)
  have "list_all id ?rs \<longleftrightarrow> pr_running R \<and> pr_seen R = {..<length ccs}"
    using inv by (auto simp: list_all_length)
  moreover have "list_ex id ?rs \<longleftrightarrow> pr_running R \<and> pr_seen R \<noteq> {}"
    using inv by (auto simp: list_ex_length)
  moreover have "?rs \<noteq> []" using inv(1,2) by auto
  ultimately show ?thesis using health_ready_cases [of ?rs] by simp
qed

theorem readiness_true_witness:
  "\<exists>R :: pipeline_run. pr_seen R = {0} \<and> pr_running R \<and> fst (health_ready (pl_ready (pr_pipeline R))) \<noteq> ''ready'' \<and>
     snd (health_ready (pl_ready (pr_pipeline R))) \<noteq> 503"
proof -
  let ?init = "pipeline_start sample_fragments people_settings default_pipeline_settings [] [] two_cameras"
  have len: "length (pl_callbacks sample_pipeline) = 2"
    using pipeline_inv_length [OF camera_run.reach_inv [OF sample_run_reach]] by (simp add: sample_run_def two_cameras_def)
  obtain js n p where d: "dispatch people_settings False True 0 (Some (pad_name 0)) None (pr_pipeline sample_run) = (js, n, p)"
    by (metis prod_cases3)
  obtain R where R: "R = sample_run\<lparr>pr_pipeline := p, pr_seen := pr_seen sample_run \<union>
      set_option (resolve_stream_index (pr_pipeline sample_run) (Some (pad_name 0)))\<rparr>" by blast
  have seen: "pr_seen R = {0}" using len by (simp add: R sample_run_def resolve_pad)
  have running: "pr_running R" by (simp add: R sample_run_def)
  have "pipeline_step people_settings sample_run R" unfolding R by (rule Buffer [OF _ d]) (simp add: sample_run_def)
  with sample_run_reach have "reach ?init (pipeline_step people_settings) R" by (rule reach_step)
  note r = readiness_true [OF this]
  have "1 \<in> {..<length two_cameras}" by (simp add: two_cameras_def)
  with seen have "pr_seen R \<noteq> {..<length two_cameras}" by force
  then have "fst (health_ready (pl_ready (pr_pipeline R))) \<noteq> ''ready''" using conjunct1 [OF r] by blast
  moreover have "snd (health_ready (pl_ready (pr_pipeline R))) \<noteq> 503" using conjunct2 [OF r] seen running by blast
  ultimately show ?thesis using seen running by blast
qed

section \<open>What the assembly loses\<close>

text \<open>C37: Luggage is never seen: with the default classes (persons, suitcases and
  bicycles) it does not start, whatever the cameras are, and in every state of a pipeline that
  did start no frame schedules a suitcase or bicycle coroutine, so that no object obstruction and
  no accessibility event is ever emitted.\<close>

theorem luggage_never_seen:
  "(\<exists>e. start_inference F default_infer_settings P doors versions ccs = Inl e) \<and>
   (reach (pipeline_start F S P doors versions ccs) (pipeline_step S) R \<longrightarrow>
      \<not> list_ex luggage_job (fst (dispatch S throttled loop_up tick sid frame (pr_pipeline R))))"
proof (intro conjI impI)
  show "\<exists>e. start_inference F default_infer_settings P doors versions ccs = Inl e"
  proof (cases "start_inference F default_infer_settings P doors versions ccs")
    case (Inr r)
    obtain zc tws p where "r = (zc, tws, p)" by (metis prod_cases3)
    with Inr have "start_inference F default_infer_settings P doors versions ccs = Inr (zc, tws, p)" by simp
    then show ?thesis by (rule start_inference_Inr) (simp add: new_pipeline_Inr default_infer_settings_def)
  qed simp
  assume "reach (pipeline_start F S P doors versions ccs) (pipeline_step S) R"
  then have inv: "pipeline_inv F S P ccs R" by (rule camera_run.reach_inv)
  obtain js n p' where d: "dispatch S throttled loop_up tick sid frame (pr_pipeline R) = (js, n, p')" by (metis prod_cases3)
  from d have "\<not> list_ex luggage_job js"
  proof (cases rule: dispatch_cases)
    case (routed i cb)
    note i = routed(1) and f = routed(2)
    have "0 < length ccs" using inv by (simp add: pipeline_inv_def Let_def)
    with resolve_bound [OF i] pipeline_inv_length [OF inv] have "i < length ccs" by force
    from pipeline_inv_camera [OF inv this] have "cb_allowed (pl_callbacks (pr_pipeline R) ! i) = [''person'']"
      by (simp add: callback_id_def)
    with f show ?thesis by (rule on_frame_people)
  qed simp
  then show "\<not> list_ex luggage_job (fst (dispatch S throttled loop_up tick sid frame (pr_pipeline R)))" by (simp add: d)
qed

definition suitcase_frame :: "raw_detection list" where
  "suitcase_frame = [\<lparr>rd_label = ''suitcase'', rd_track = None, rd_bbox = (100, 100, 200, 200), rd_confidence = Some 1\<rparr>]"

theorem luggage_never_seen_witness:
  "\<not> list_ex luggage_job
     (fst (dispatch people_settings False True 0 (Some (pad_name 0)) (Some suitcase_frame) sample_pipeline))"
  using conjunct2 [OF luggage_never_seen [of sample_fragments default_pipeline_settings "[]" "[]" two_cameras people_settings
      sample_run False True 0 "Some (pad_name 0)" "Some suitcase_frame"]] sample_run_reach
  by (simp add: sample_run_def)

text \<open>C34: No context push reaches the detectors: the routes of the wired app are appended behind
  those of the shell, and requests go to the first route that matches, so that whatever is pushed
  once the container has started, every push is answered by the shell, the throttle the callbacks
  ask stays off, the journey their events carry stays the configured one, and no ramp event is
  scheduled, while the shell follows the pushes.\<close>

theorem pushes_miss_detectors:
  assumes "in_order router"
  shows "app_pushes router ps (lifespan_begin S (bootstrap_app S)) =
    ([], (lifespan_begin S (bootstrap_app S))\<lparr>ia_boot := fold (\<lambda>p. snd \<circ> infer_context_push False p) ps (new_control S)\<rparr>) \<and>
    ia_wired (snd (app_pushes router ps (lifespan_begin S (bootstrap_app S)))) =
      Some \<lparr>ic_throttled = False, ic_journey = is_journey_id S\<rparr>"
  using app_pushes_shell [OF served_by_shell_started [OF assms, of S], of ps]
  by (simp add: lifespan_begin_def bootstrap_app_def new_control_def)

definition first_route :: "route list \<Rightarrow> string \<times> string \<Rightarrow> app_part option" where
  "first_route rs k = map_option snd (find (\<lambda>r. fst r = k) rs)"

lemma first_route_in_order: "in_order first_route"
proof -
  have n: "(first_route rs k = None) = (k \<notin> fst ` set rs)" for rs k
    by (induction rs) (auto simp: first_route_def)
  have m: "first_route rs k = Some a \<Longrightarrow> (k, a) \<in> set rs" for rs k a
    by (induction rs) (auto simp: first_route_def split: if_splits)
  have e: "first_route rs k = Some a \<Longrightarrow> first_route (rs @ qs) k = Some a" for rs qs k a
    by (induction rs) (auto simp: first_route_def split: if_splits)
  from n m e show ?thesis by (simp add: in_order_def)
qed

theorem pushes_miss_detectors_witness:
  "fst (app_pushes first_route
     [\<lparr>ip_throttled = True, ip_journey = Some ''T1_RJ42_20260517'', ip_ramp = True, ip_door = None, ip_station = None\<rparr>]
     (lifespan_begin default_infer_settings (bootstrap_app default_infer_settings))) = []"
  by (simp only: conjunct1 [OF pushes_miss_detectors [OF first_route_in_order]] fst_conv)

end
