(* ===== verification/Store_Database.thy ===== *)
theory Store_Database
  imports Shared_Interfaces "HOL-Library.Char_ord" "HOL-Library.List_Lexorder" "HOL-Library.Product_Lexorder"
begin

text \<open>
  The tables of the on-train event-store, \<open>event-store/src/event_store/database.py\<close>,
  \<open>schema.sql\<close> and \<open>sync/cursor.py\<close>. A row of \<open>events\<close> is an envelope: the nine
  columns are its nine fields, and the payload column is JSON text that is read back to the
  value written. Rows are kept in insertion order. TEXT columns compare byte by byte, the
  order of \<open>List_Lexorder\<close> on strings; \<open>(timestamp, event_id)\<close> compares as the pair.
\<close>

section \<open>Tables\<close>

record journey_row =
  jr_vehicle_id :: string
  jr_trip_number :: string
  jr_route_name :: "string option"
  jr_origin :: "string option"
  jr_destination :: "string option"
  jr_start_time :: "string option"
  jr_end_time :: "string option"

record store =
  db_events :: "envelope list"
  db_journeys :: "(string, journey_row) dict"
  db_cursor :: "string option" \<comment> \<open>\<open>sync_state.last_synced_event_id\<close>\<close>
  db_last_sync :: "string option"

definition init_db :: store where
  "init_db = \<lparr>db_events = [], db_journeys = [], db_cursor = None, db_last_sync = None\<rparr>"

text \<open>The two uniqueness constraints of the table.\<close>

definition natural_key :: "envelope \<Rightarrow> string \<times> event_type \<times> string" where
  "natural_key e = (ev_journey_id e, ev_type e, ev_timestamp e)"

definition clashes :: "envelope \<Rightarrow> envelope \<Rightarrow> bool" where
  "clashes e r = (ev_id r = ev_id e \<or> natural_key r = natural_key e)"

text \<open>\<open>INSERT OR IGNORE\<close>: a row that violates a constraint is left out without an error.\<close>

definition insert_event :: "store \<Rightarrow> envelope \<Rightarrow> bool res \<times> store" where
  "insert_event db e =
     (if ev_schema_version e \<notin> set supported_schema_versions then (Inl UnsupportedSchemaVersion, db)
      else if list_ex (clashes e) (db_events db) then (Inr False, db)
      else (Inr True, db\<lparr>db_events := db_events db @ [e]\<rparr>))"

section \<open>Filtered reads\<close>

definition row_key :: "envelope \<Rightarrow> string \<times> string" where
  "row_key e = (ev_timestamp e, ev_id e)"

definition severity_score :: "string \<Rightarrow> int res" where
  "severity_score v = of_opt ValueError (dget severity_order v)"

definition row_score :: "envelope \<Rightarrow> int" where
  "row_score e = int (severity_rank (ev_severity e))"

definition find_event :: "store \<Rightarrow> string \<Rightarrow> envelope option" where
  "find_event db k = List.find (\<lambda>e. ev_id e = k) (db_events db)"

text \<open>
  \<open>_build_filter_clauses\<close>: the conjunction of the clauses, each present when its argument
  is neither \<open>None\<close> nor empty. An unknown cursor and an unknown severity raise.
\<close>

definition cursor_clause :: "store \<Rightarrow> string option \<Rightarrow> (envelope \<Rightarrow> bool) res" where
  "cursor_clause db after =
     (if \<not> truthy after then Inr (\<lambda>e. True)
      else bind_res (of_opt InvalidCursor (find_event db (keep_or after [])))
        (\<lambda>r. Inr (\<lambda>e. (ev_timestamp r, keep_or after []) < row_key e)))"

definition severity_clause :: "string option \<Rightarrow> (envelope \<Rightarrow> bool) res" where
  "severity_clause min_severity =
     (if \<not> truthy min_severity then Inr (\<lambda>e. True)
      else bind_res (severity_score (keep_or min_severity [])) (\<lambda>n. Inr (\<lambda>e. n \<le> row_score e)))"

definition build_filter_clauses ::
  "store \<Rightarrow> string list option \<Rightarrow> string option \<Rightarrow> string option \<Rightarrow> string option \<Rightarrow>
   (envelope \<Rightarrow> bool) res" where
  "build_filter_clauses db types min_severity journey after =
     bind_res (cursor_clause db after) (\<lambda>c.
     bind_res (severity_clause min_severity) (\<lambda>s.
       Inr (\<lambda>e. c e \<and> (truthy journey \<longrightarrow> ev_journey_id e = keep_or journey []) \<and>
              (keep_or types [] \<noteq> [] \<longrightarrow> event_type_value (ev_type e) \<in> set (keep_or types [])) \<and> s e)))"

definition cursor_page_size :: nat where
  "cursor_page_size = 100"

definition get_journey :: "store \<Rightarrow> string \<Rightarrow> journey_row res" where
  "get_journey db j = of_opt JourneyNotFound (dget (db_journeys db) j)"

definition get_events_page ::
  "store \<Rightarrow> string option \<Rightarrow> string option \<Rightarrow> nat option \<Rightarrow> string list option \<Rightarrow> string option \<Rightarrow>
   envelope list res" where
  "get_events_page db journey after limit types min_severity =
     (let page_size = (case limit of None \<Rightarrow> cursor_page_size | Some n \<Rightarrow> if n = 0 then cursor_page_size else n)
      in bind_res (guard (case journey of None \<Rightarrow> True | Some j \<Rightarrow> dhas (db_journeys db) j) JourneyNotFound) (\<lambda>_.
         bind_res (build_filter_clauses db types min_severity journey after) (\<lambda>p.
           Inr (take page_size (filter p (sort_key row_key (db_events db)))))))"

section \<open>Replay\<close>

text \<open>
  \<open>json_extract(payload, '$.car_id')\<close> compared with the coach ids: \<open>None\<close> is SQL NULL. A
  JSON string is its text; a nested value is its JSON text, which is the parameter
  \<open>json_text\<close>; a number or a boolean is no text and equals none.
\<close>

definition car_matches :: "(json \<Rightarrow> string) \<Rightarrow> string list \<Rightarrow> jdict \<Rightarrow> bool" where
  "car_matches json_text ids p =
     (case dget p ''car_id'' of
        None \<Rightarrow> True
      | Some JNull \<Rightarrow> True
      | Some (JStr s) \<Rightarrow> s \<in> set ids
      | Some (JList xs) \<Rightarrow> json_text (JList xs) \<in> set ids
      | Some (JObj d) \<Rightarrow> json_text (JObj d) \<in> set ids
      | Some _ \<Rightarrow> False)"

definition get_filtered_events_for_replay ::
  "(json \<Rightarrow> string) \<Rightarrow> store \<Rightarrow> string list option \<Rightarrow> string option \<Rightarrow> string list option \<Rightarrow> nat \<Rightarrow>
   envelope list res" where
  "get_filtered_events_for_replay json_text db types min_severity coaches limit =
     bind_res (guard (coaches \<noteq> Some []) ValueError) (\<lambda>_.
     bind_res (build_filter_clauses db types min_severity None None) (\<lambda>p.
       Inr (rev (take limit (filter (\<lambda>e. p e \<and> (case coaches of None \<Rightarrow> True | Some ids \<Rightarrow> car_matches json_text ids (ev_payload e)))
         (rev (sort_key row_key (db_events db))))))))"

section \<open>The sync cursor\<close>

definition get_sync_cursor :: "store \<Rightarrow> string" where
  "get_sync_cursor db = keep_or (db_cursor db) []"

definition advance_cursor :: "store \<Rightarrow> string \<Rightarrow> string \<Rightarrow> store" where
  "advance_cursor db k updated_at = db\<lparr>db_cursor := Some k, db_last_sync := Some updated_at\<rparr>"

text \<open>
  The journeys by their newest event, newest first. \<open>GROUP BY\<close> walks the index on
  \<open>journey_id\<close>; journeys whose newest events have one timestamp, whose order SQL leaves
  open, stay in that order here.
\<close>

definition newest :: "envelope list \<Rightarrow> string \<Rightarrow> string" where
  "newest es j = Max (ev_timestamp ` set (filter (\<lambda>e. ev_journey_id e = j) es))"

definition ranked_journeys :: "envelope list \<Rightarrow> string list" where
  "ranked_journeys es = rev (sort_key (newest es) (rev (sort (remdups (map ev_journey_id es)))))"

definition truncate_old_journeys :: "store \<Rightarrow> nat \<Rightarrow> nat \<times> store" where
  "truncate_old_journeys db retain =
     (let keep = take retain (ranked_journeys (db_events db));
          es = filter (\<lambda>e. ev_journey_id e \<in> set keep) (db_events db)
      in (length (db_events db) - length es, db\<lparr>db_events := es\<rparr>))"

end
