(* ===== verification/Store_Facts.thy ===== *)
theory Store_Facts
  imports Store_Database
begin

text \<open>
  Facts on the event-store's tables: the uniqueness invariant, the chronological order a read
  follows, what a page holds, and what truncation keeps.
\<close>

section \<open>The uniqueness invariant\<close>

definition store_ok :: "store \<Rightarrow> bool" where
  "store_ok db \<longleftrightarrow> distinct (map ev_id (db_events db)) \<and> distinct (map natural_key (db_events db)) \<and>
     (\<forall>e \<in> set (db_events db). ev_id e \<noteq> [] \<and> ev_schema_version e \<in> set supported_schema_versions)"

lemma store_ok_init: "store_ok init_db"
  by (simp add: store_ok_def init_db_def)

lemma clash_iff: "list_ex (clashes e) es \<longleftrightarrow> ev_id e \<in> ev_id ` set es \<or> natural_key e \<in> natural_key ` set es"
  unfolding list_ex_iff clashes_def image_iff by metis

lemma insert_event_cases:
  assumes "insert_event db e = (r, db')"
  obtains (unsupported) "ev_schema_version e \<notin> set supported_schema_versions" "r = Inl UnsupportedSchemaVersion" "db' = db"
    | (duplicate) "ev_schema_version e \<in> set supported_schema_versions" "ev_id e \<in> ev_id ` set (db_events db) \<or> natural_key e \<in> natural_key ` set (db_events db)"
        "r = Inr False" "db' = db"
    | (stored) "ev_schema_version e \<in> set supported_schema_versions" "ev_id e \<notin> ev_id ` set (db_events db)"
        "natural_key e \<notin> natural_key ` set (db_events db)" "r = Inr True" "db' = db\<lparr>db_events := db_events db @ [e]\<rparr>"
proof (cases "ev_schema_version e \<in> set supported_schema_versions")
  case False
  with assms show thesis by (intro unsupported) (simp_all add: insert_event_def)
next
  case True
  show thesis
  proof (cases "list_ex (clashes e) (db_events db)")
    case c: True
    with True assms show thesis by (intro duplicate) (simp_all add: insert_event_def clash_iff [symmetric])
  next
    case c: False
    with True assms show thesis by (intro stored) (simp_all add: insert_event_def clash_iff [symmetric], simp_all add: clash_iff)
  qed
qed

lemma insert_event_ok: "store_ok db \<Longrightarrow> ev_id e \<noteq> [] \<Longrightarrow> insert_event db e = (r, db') \<Longrightarrow> store_ok db'"
  by (erule insert_event_cases) (auto simp: store_ok_def)

lemma insert_event_again:
  assumes "insert_event db e = (Inr b, db')"
  shows "insert_event db' e = (Inr False, db')"
  using assms by (rule insert_event_cases) (simp_all add: insert_event_def clash_iff clashes_def)

lemma insert_event_mono: "insert_event db e = (r, db') \<Longrightarrow> set (db_events db) \<subseteq> set (db_events db')"
  by (erule insert_event_cases) auto

lemma filter_distinct_map: "distinct (map f xs) \<Longrightarrow> distinct (map f (filter P xs))"
  by (simp add: distinct_map inj_on_def)

lemma truncate_ok: "store_ok db \<Longrightarrow> store_ok (snd (truncate_old_journeys db n))"
  by (auto simp: store_ok_def truncate_old_journeys_def Let_def filter_distinct_map)

lemma advance_ok: "store_ok (advance_cursor db k t) = store_ok db"
  by (simp add: store_ok_def advance_cursor_def)

lemma find_event_in: "find_event db k = Some e \<Longrightarrow> e \<in> set (db_events db) \<and> ev_id e = k"
  by (auto simp: find_event_def find_Some_iff in_set_conv_nth)

lemma find_event_None: "find_event db k = None \<longleftrightarrow> k \<notin> ev_id ` set (db_events db)"
  by (auto simp: find_event_def find_None_iff)

lemma find_event_of:
  assumes "store_ok db" "e \<in> set (db_events db)"
  shows "find_event db (ev_id e) = Some e"
proof -
  obtain r where r: "find_event db (ev_id e) = Some r"
    using assms(2) find_event_None [of db "ev_id e"] by auto
  with find_event_in [OF r] assms show ?thesis
    by (auto simp: store_ok_def distinct_map inj_on_def)
qed

section \<open>The chronological order\<close>

definition chron :: "store \<Rightarrow> envelope list" where
  "chron db = sort_key row_key (db_events db)"

lemma chron_set [simp]: "set (chron db) = set (db_events db)" "length (chron db) = length (db_events db)"
  by (simp_all add: chron_def)

lemma chron_sorted: "store_ok db \<Longrightarrow> sorted_wrt (\<lambda>a b. row_key a < row_key b) (chron db)"
proof -
  assume ok: "store_ok db"
  then have "inj_on row_key (set (db_events db))"
    by (auto simp: store_ok_def distinct_map inj_on_def row_key_def)
  moreover have "distinct (db_events db)"
    using ok by (simp add: store_ok_def distinct_map)
  ultimately have "distinct (map row_key (chron db))"
    by (simp add: distinct_map chron_def)
  moreover have "sorted (map row_key (chron db))"
    by (simp add: chron_def)
  ultimately have "sorted_wrt (<) (map row_key (chron db))"
    by (simp add: strict_sorted_iff)
  then show ?thesis by (simp add: sorted_wrt_map)
qed

text \<open>The rows after the last one of a prefix are the rest.\<close>

lemma after_prefix:
  assumes "sorted_wrt (\<lambda>a b. row_key a < row_key b) (pre @ suf)" "pre \<noteq> []"
  shows "filter (\<lambda>e. row_key (last pre) < row_key e) (pre @ suf) = suf"
proof -
  have suf: "row_key (last pre) < row_key e" if "e \<in> set suf" for e
    using assms that by (auto simp: sorted_wrt_append)
  have pre: "\<not> row_key (last pre) < row_key e" if e: "e \<in> set pre" for e
  proof -
    have "sorted_wrt (\<lambda>a b. row_key a < row_key b) (butlast pre @ [last pre])"
      using assms by (simp add: sorted_wrt_append)
    then have "\<forall>x \<in> set (butlast pre). row_key x < row_key (last pre)"
      by (simp add: sorted_wrt_append)
    moreover have "e \<in> set (butlast pre) \<or> e = last pre"
      using e assms(2) by (metis append_butlast_last_id in_set_butlastD rotate1.simps(2) set_ConsD set_rotate1)
    ultimately show ?thesis by auto
  qed
  have "filter (\<lambda>e. row_key (last pre) < row_key e) pre = []"
    using pre by (simp add: filter_empty_conv)
  moreover have "filter (\<lambda>e. row_key (last pre) < row_key e) suf = suf"
    using suf by (simp add: filter_id_conv)
  ultimately show ?thesis by simp
qed

definition cursor_after :: "envelope list \<Rightarrow> string option" where
  "cursor_after pre = (if pre = [] then None else Some (ev_id (last pre)))"

lemma page_after_prefix:
  assumes ok: "store_ok db" and c: "chron db = pre @ suf" and n: "0 < n"
  shows "get_events_page db None (cursor_after pre) (Some n) None None = Inr (take n suf)"
proof (cases "pre = []")
  case True
  with c n show ?thesis
    by (simp add: get_events_page_def cursor_after_def build_filter_clauses_def cursor_clause_def severity_clause_def
        chron_def)
next
  case False
  then have l: "last pre \<in> set (db_events db)"
    using c chron_set(1) [of db] by (metis Un_iff last_in_set set_append)
  then have id: "ev_id (last pre) \<noteq> []" using ok by (auto simp: store_ok_def)
  have f: "find_event db (ev_id (last pre)) = Some (last pre)" by (rule find_event_of [OF ok l])
  have "filter (\<lambda>e. row_key (last pre) < row_key e) (chron db) = suf"
    using after_prefix [of pre suf] chron_sorted [OF ok] c False by simp
  with f id False n show ?thesis
    by (simp add: get_events_page_def cursor_after_def build_filter_clauses_def cursor_clause_def severity_clause_def
        chron_def truthy_def row_key_def)
qed

text \<open>Every row of a page lies behind the cursor it was asked for.\<close>

lemma page_behind_cursor:
  assumes "get_events_page db j (Some k) n ts s = Inr rows" "find_event db k = Some c" "k \<noteq> []" "e \<in> set rows"
  shows "row_key c < row_key e"
proof -
  have "ev_id c = k" using find_event_in [OF assms(2)] by simp
  with assms show ?thesis
    by (auto simp: get_events_page_def build_filter_clauses_def cursor_clause_def res_iff Let_def row_key_def
        truthy_def dest!: in_set_takeD)
qed

lemma page_unknown_cursor:
  assumes "k \<noteq> []" "find_event db k = None" "j = None"
  shows "get_events_page db j (Some k) n ts s = Inl InvalidCursor"
  using assms by (simp add: get_events_page_def build_filter_clauses_def cursor_clause_def truthy_def)

section \<open>Truncation\<close>

lemma ranked_set [simp]: "set (ranked_journeys es) = ev_journey_id ` set es"
  by (simp add: ranked_journeys_def)

lemma ranked_distinct: "distinct (ranked_journeys es)"
  by (simp add: ranked_journeys_def)

lemma ranked_sorted: "sorted_wrt (\<lambda>a b. newest es b \<le> newest es a) (ranked_journeys es)"
proof -
  have "sorted (map (newest es) (sort_key (newest es) (rev (sort (remdups (map ev_journey_id es))))))" by simp
  then show ?thesis unfolding ranked_journeys_def by (simp add: sorted_wrt_map sorted_wrt_rev)
qed

lemma outranked:
  assumes "sorted_wrt (\<lambda>a b. f b \<le> f a) xs" "distinct xs" "J \<subseteq> set xs" "finite J" "n \<le> card J"
    and "\<And>j. j \<in> J \<Longrightarrow> f x < (f j :: 'b :: linorder)"
  shows "x \<notin> set (take n xs)"
proof
  assume "x \<in> set (take n xs)"
  then obtain i where i: "i < n" "i < length xs" "xs ! i = x"
    by (auto simp: in_set_conv_nth)
  have "J \<subseteq> set (take i xs)"
  proof
    fix j assume j: "j \<in> J"
    with assms(3) have "j \<in> set xs" by blast
    then obtain m where m: "m < length xs" "xs ! m = j" unfolding in_set_conv_nth by blast
    have "m < i"
    proof (rule ccontr)
      assume "\<not> m < i"
      then have "i = m \<or> i < m" by auto
      then have "f j \<le> f x"
        using assms(1) i m by (auto simp: sorted_wrt_iff_nth_less)
      with assms(6) [OF j] show False by simp
    qed
    with m show "j \<in> set (take i xs)" by (auto simp: in_set_conv_nth)
  qed
  then have "card J \<le> card (set (take i xs))" by (intro card_mono) simp_all
  also have "\<dots> \<le> i" using i by (metis card_length length_take min.absorb2 min_less_iff_conj order_less_imp_le)
  finally show False using assms(5) i(1) by simp
qed

text \<open>An event of a journey that \<open>retain\<close> newer journeys outrank is deleted.\<close>

lemma truncate_deletes:
  assumes "J \<subseteq> ev_journey_id ` set (db_events db)" "n \<le> card J"
    and "\<And>j. j \<in> J \<Longrightarrow> newest (db_events db) (ev_journey_id e) < newest (db_events db) j"
  shows "e \<notin> set (db_events (snd (truncate_old_journeys db n)))"
proof -
  have "finite J" using assms(1) finite_subset by blast
  then have "ev_journey_id e \<notin> set (take n (ranked_journeys (db_events db)))"
    using outranked [OF ranked_sorted ranked_distinct, of J "db_events db" n "ev_journey_id e"] assms by auto
  then show ?thesis by (simp add: truncate_old_journeys_def Let_def)
qed

text \<open>With at most \<open>retain\<close> journeys nothing is deleted.\<close>

lemma truncate_few:
  assumes "card (ev_journey_id ` set (db_events db)) \<le> n"
  shows "truncate_old_journeys db n = (0, db)"
proof -
  have "length (ranked_journeys (db_events db)) \<le> n"
    using assms ranked_distinct [of "db_events db"] distinct_card by fastforce
  then have "filter (\<lambda>e. ev_journey_id e \<in> set (take n (ranked_journeys (db_events db)))) (db_events db) = db_events db"
    by (simp add: filter_id_conv)
  then show ?thesis by (simp add: truncate_old_journeys_def Let_def)
qed

lemma truncate_subset: "set (db_events (snd (truncate_old_journeys db n))) \<subseteq> set (db_events db)"
  by (auto simp: truncate_old_journeys_def Let_def)

end
