(* ===== verification/Store_Routes.thy ===== *)
theory Store_Routes
  imports Store_Facts
begin

text \<open>
  The HTTP interface of the event-store: \<open>auth.py\<close>, \<open>config.py\<close>, \<open>egress_privacy.py\<close>,
  \<open>routes/events.py\<close>, \<open>routes/journeys.py\<close>, \<open>routes/sync.py\<close>, \<open>routes/health.py\<close> and the
  error handler of \<open>main.py\<close>. A reply is its status and body; a refusal is its status and
  error code. Each request is one step: the ingest route has no suspension point between the
  insertion and the fan-out, and the cursor route holds the write lock.
\<close>

section \<open>Settings and authentication\<close>

definition coerce_empty_to_none :: "string option \<Rightarrow> string option" where
  "coerce_empty_to_none v = (case v of None \<Rightarrow> None | Some s \<Rightarrow> if s = [] then None else Some s)"

record store_settings =
  ss_api_key :: "string option"
  ss_anonymise_key :: "string option"

definition load_settings :: "string option \<Rightarrow> string option \<Rightarrow> store_settings" where
  "load_settings api anon =
     \<lparr>ss_api_key = coerce_empty_to_none api, ss_anonymise_key = coerce_empty_to_none anon\<rparr>"

definition require_api_key :: "store_settings \<Rightarrow> string option \<Rightarrow> bool" where
  "require_api_key S provided =
     (case ss_api_key S of None \<Rightarrow> True
      | Some k \<Rightarrow> truthy provided \<and> keep_or provided [] = k)"

definition egress_key :: "store_settings \<Rightarrow> string" where
  "egress_key S = keep_or (ss_anonymise_key S) ''event-store-dev-anonymise-key''"

section \<open>The privacy boundary\<close>

fun anonymise_page ::
  "(string \<Rightarrow> string \<Rightarrow> string) \<Rightarrow> (json \<Rightarrow> string) \<Rightarrow> string \<Rightarrow> jdict list \<Rightarrow> jdict list res" where
  "anonymise_page hm tx key [] = Inr []"
| "anonymise_page hm tx key (row # rows) =
     bind_res (anonymise_envelope hm tx key row) (\<lambda>redacted.
     bind_res (anonymise_page hm tx key rows) (\<lambda>out.
       Inr (case redacted of None \<Rightarrow> out | Some r \<Rightarrow> r # out)))"

section \<open>Requests and replies\<close>

datatype store_request =
    Post_event jdict
  | Get_events "string option" "string option" int "string list option" "string option"
  | Get_journey string
  | Post_cursor jdict
  | Get_ready

datatype store_reply =
    Refused int string
  | Ingested int string bool
  | Page "jdict list" nat "string option" "string option"
  | Journey_meta journey_row
  | Cursor_moved string nat
  | Ready int

definition schema_version_error :: "pydantic \<Rightarrow> jdict \<Rightarrow> bool" where
  "schema_version_error pd d =
     (case dget d ''schema_version'' of None \<Rightarrow> False
      | Some j \<Rightarrow> (case as_int pd j of None \<Rightarrow> True | Some v \<Rightarrow> \<not> validate_schema_version v))"

definition validation_reply :: "pydantic \<Rightarrow> jdict \<Rightarrow> store_reply" where
  "validation_reply pd d =
     Refused 422 (if schema_version_error pd d then ''UNSUPPORTED_SCHEMA_VERSION'' else ''VALIDATION_ERROR'')"

text \<open>The ingest route: the reply, the tables, and the envelope handed to the broadcaster.\<close>

definition ingest_event ::
  "pydantic \<Rightarrow> string \<Rightarrow> datetime \<Rightarrow> jdict \<Rightarrow> store \<Rightarrow> store_reply \<times> store \<times> envelope option" where
  "ingest_event pd uuid now body db =
     (case parse_envelope pd uuid now body of
        Inl e \<Rightarrow> (validation_reply pd body, db, None)
      | Inr env \<Rightarrow>
          (case insert_event db env of
             (Inl e, db') \<Rightarrow> (Refused 422 ''UNSUPPORTED_SCHEMA_VERSION'', db', None)
           | (Inr stored, db') \<Rightarrow>
               if \<not> stored then (Ingested 200 (ev_id env) False, db', None)
               else (Ingested 201 (ev_id env) True, db', Some env)))"

definition severity_names :: "string list" where
  "severity_names = [''info'', ''warning'', ''critical'']"

text \<open>The pull route. The cursor of the next page is taken before redaction.\<close>

definition list_events ::
  "(string \<Rightarrow> string \<Rightarrow> string) \<Rightarrow> (json \<Rightarrow> string) \<Rightarrow> store_settings \<Rightarrow> store \<Rightarrow>
   string option \<Rightarrow> string option \<Rightarrow> int \<Rightarrow> string list option \<Rightarrow> string option \<Rightarrow> store_reply" where
  "list_events hm tx S db journey after limit types min_severity =
     (if \<not> (1 \<le> limit \<and> limit \<le> 500) \<or> (case min_severity of None \<Rightarrow> False | Some s \<Rightarrow> s \<notin> set severity_names)
      then Refused 422 ''VALIDATION_ERROR''
      else (case get_events_page db journey after (Some (nat limit)) types min_severity of
              Inl InvalidCursor \<Rightarrow> Refused 400 ''INVALID_CURSOR''
            | Inl JourneyNotFound \<Rightarrow> Refused 404 ''JOURNEY_NOT_FOUND''
            | Inl e \<Rightarrow> Refused 500 ''INTERNAL''
            | Inr rows \<Rightarrow>
                (let next_cursor = (if int (length rows) = limit then Some (ev_id (last rows)) else None)
                 in case anonymise_page hm tx (egress_key S) (map envelope_json rows) of
                      Inl e \<Rightarrow> Refused 500 ''INTERNAL''
                    | Inr redacted \<Rightarrow> Page redacted (length redacted) journey next_cursor)))"

definition get_journey_meta :: "store \<Rightarrow> string \<Rightarrow> store_reply" where
  "get_journey_meta db j =
     (case get_journey db j of Inl e \<Rightarrow> Refused 404 ''JOURNEY_NOT_FOUND'' | Inr r \<Rightarrow> Journey_meta r)"

text \<open>The acknowledgement route: existence, idempotence, advance, truncation.\<close>

definition parse_cursor :: "jdict \<Rightarrow> string option" where
  "parse_cursor body =
     (if set (dkeys body) \<subseteq> {''last_event_id''}
      then (case dget body ''last_event_id'' of
              Some (JStr s) \<Rightarrow> if fits uuid_pat s then Some s else None
            | _ \<Rightarrow> None)
      else None)"

definition retained_journeys :: nat where
  "retained_journeys = 3"

definition advance_sync_cursor_endpoint :: "string \<Rightarrow> string \<Rightarrow> store \<Rightarrow> store_reply \<times> store" where
  "advance_sync_cursor_endpoint updated_at k db =
     (if find_event db k = None then (Refused 400 ''INVALID_CURSOR'', db)
      else if get_sync_cursor db = k then (Cursor_moved k 0, db)
      else (case truncate_old_journeys (advance_cursor db k updated_at) retained_journeys of
              (n, db') \<Rightarrow> (Cursor_moved k n, db')))"

definition health_ready_store :: "bool \<Rightarrow> store_reply" where
  "health_ready_store db_ready = Ready (if db_ready then 200 else 503)"

section \<open>Dispatch\<close>

record store_env =
  sv_pyd :: pydantic
  sv_hmac :: "string \<Rightarrow> string \<Rightarrow> string"
  sv_text :: "json \<Rightarrow> string"
  sv_settings :: store_settings

definition store_handle ::
  "store_env \<Rightarrow> string option \<Rightarrow> string \<Rightarrow> datetime \<Rightarrow> store_request \<Rightarrow> store \<Rightarrow> store_reply \<times> store \<times> envelope option" where
  "store_handle V key uuid now req db =
     (case req of
        Get_ready \<Rightarrow> (health_ready_store True, db, None)
      | _ \<Rightarrow>
        if \<not> require_api_key (sv_settings V) key then (Refused 401 ''UNAUTHENTICATED'', db, None)
        else (case req of
            Post_event body \<Rightarrow> ingest_event (sv_pyd V) uuid now body db
          | Get_events j a n ts s \<Rightarrow> (list_events (sv_hmac V) (sv_text V) (sv_settings V) db j a n ts s, db, None)
          | Get_journey j \<Rightarrow> (get_journey_meta db j, db, None)
          | Post_cursor body \<Rightarrow>
              (case parse_cursor body of
                 None \<Rightarrow> (Refused 422 ''VALIDATION_ERROR'', db, None)
               | Some k \<Rightarrow> (case advance_sync_cursor_endpoint (iso_head now @ ''Z'') k db of (r, db') \<Rightarrow> (r, db', None)))
          | Get_ready \<Rightarrow> (health_ready_store True, db, None)))"

section \<open>Facts\<close>

lemma require_api_key_iff:
  "require_api_key (load_settings api anon) provided \<longleftrightarrow>
     api = None \<or> api = Some [] \<or> (provided = api \<and> provided \<noteq> None)"
  by (auto simp: require_api_key_def load_settings_def coerce_empty_to_none_def truthy_def keep_or_def
      split: option.splits if_splits)

lemma envelope_json_released:
  "\<exists>o_r. anonymise_envelope hm tx key (envelope_json e) = Inr o_r"
proof -
  have "dget (envelope_json e) ''event_type'' = Some (JStr (event_type_value (ev_type e)))"
    and "payload_copy (envelope_json e) = Inr (ev_payload e)"
    by (simp_all add: envelope_json_def payload_copy_def)
  from anonymise_known [OF this] show ?thesis by simp
qed

text \<open>What the boundary releases of a row.\<close>

definition released :: "(string \<Rightarrow> string \<Rightarrow> string) \<Rightarrow> (json \<Rightarrow> string) \<Rightarrow> string \<Rightarrow> envelope \<Rightarrow> jdict option" where
  "released hm tx key e = (case anonymise_envelope hm tx key (envelope_json e) of Inl _ \<Rightarrow> None | Inr r \<Rightarrow> r)"

lemma anonymise_page_rows:
  "anonymise_page hm tx key (map envelope_json rows) = Inr (List.map_filter (released hm tx key) rows)"
proof (induction rows)
  case (Cons e rows)
  obtain r where r: "anonymise_envelope hm tx key (envelope_json e) = Inr r" using envelope_json_released by blast
  with Cons show ?case by (cases r) (simp_all add: released_def map_filter_simps)
qed (simp add: map_filter_simps)

text \<open>Only the payload of a released row differs from the stored one.\<close>

lemma released_shape:
  assumes "released hm tx key e = Some q"
  shows "event_type_value (ev_type e) \<notin> set drop_event_types \<and> (\<exists>w. q = dset (envelope_json e) ''payload'' (JObj w))"
proof -
  have t: "dget (envelope_json e) ''event_type'' = Some (JStr (event_type_value (ev_type e)))"
    and p: "payload_copy (envelope_json e) = Inr (ev_payload e)"
    by (simp_all add: envelope_json_def payload_copy_def)
  from assms have "anonymise_envelope hm tx key (envelope_json e) = Inr (Some q)"
    using envelope_json_released [of hm tx key e] by (auto simp: released_def)
  with anonymise_known [OF t p] obtain w where
    w: "apply_policy (track_token hm tx key (env_journey tx (envelope_json e))) (egress_policy_of (ev_type e)) (ev_payload e) = Some w"
    "q = dset (envelope_json e) ''payload'' (JObj w)" by auto
  moreover have "egress_policy_of (ev_type e) \<noteq> Withhold" using w(1) by (auto simp: apply_policy_def)
  ultimately show ?thesis using withheld_iff [of "ev_type e"] by auto
qed

lemma released_json:
  assumes "released hm tx key e = Some q"
  shows "dget q ''event_id'' = Some (JStr (ev_id e)) \<and> dget q ''vehicle_id'' = Some (JStr (ev_vehicle_id e)) \<and>
    dget q ''event_type'' = Some (JStr (event_type_value (ev_type e))) \<and> dget q ''timestamp'' = Some (JStr (ev_timestamp e))"
  using released_shape [OF assms] by (auto simp: envelope_json_def)

text \<open>The withheld types are withheld from every page.\<close>

lemma released_iff: "released hm tx key e = None \<longleftrightarrow> event_type_value (ev_type e) \<in> set drop_event_types"
proof -
  have t: "dget (envelope_json e) ''event_type'' = Some (JStr (event_type_value (ev_type e)))"
    and p: "payload_copy (envelope_json e) = Inr (ev_payload e)"
    by (simp_all add: envelope_json_def payload_copy_def)
  show ?thesis
    unfolding released_def anonymise_known [OF t p] withheld_iff [symmetric]
    by (auto simp: apply_policy_def Let_def split: egress_policy.split option.split)
qed

text \<open>The page after a prefix of the chronological order.\<close>

lemma map_filter_split: "List.map_filter f (xs @ ys) = List.map_filter f xs @ List.map_filter f ys"
  by (simp add: List.map_filter_def)

lemma list_events_after:
  assumes "store_ok db" "chron db = pre @ suf" "1 \<le> n" "n \<le> 500"
  shows "list_events hm tx S db None (cursor_after pre) (int n) None None =
    Page (List.map_filter (released hm tx (egress_key S)) (take n suf))
      (length (List.map_filter (released hm tx (egress_key S)) (take n suf))) None
      (if n \<le> length suf then Some (ev_id (last (take n suf))) else None)"
  using page_after_prefix [OF assms(1,2), of n] assms(3,4)
  by (simp add: list_events_def anonymise_page_rows Let_def)

lemma event_id_nonempty: "validate_event_id v \<Longrightarrow> v \<noteq> []"
  using fits_length [of uuid_pat v] by (auto simp: validate_event_id_def uuid_pat_def)

lemma ingest_event_store:
  assumes "ingest_event pd uuid now body db = (r, db', b)" "pyd_ok pd" "validate_event_id uuid" "store_ok db"
  shows "store_ok db' \<and> db_journeys db' = db_journeys db \<and>
    (\<forall>e. b = Some e \<longrightarrow> db_events db' = db_events db @ [e] \<and> r = Ingested 201 (ev_id e) True \<and> envelope_ok pd e)"
proof (cases "parse_envelope pd uuid now body")
  case (Inl a)
  with assms show ?thesis by (simp add: ingest_event_def)
next
  case (Inr env)
  have ok: "envelope_ok pd env" using parse_envelope_ok assms(2,3) Inr by blast
  then have "validate_event_id (ev_id env)" by (simp add: envelope_ok_def)
  then have "ev_id env \<noteq> []" by (rule event_id_nonempty)
  moreover obtain s db1 where i: "insert_event db env = (s, db1)" by fastforce
  ultimately have "store_ok db1" using insert_event_ok assms(4) by blast
  with i assms(1) Inr ok show ?thesis
    by (auto simp: ingest_event_def split: sum.splits if_splits elim!: insert_event_cases)
qed

lemma advance_endpoint_store:
  assumes "advance_sync_cursor_endpoint t k db = (r, db')" "store_ok db"
  shows "store_ok db' \<and> db_journeys db' = db_journeys db \<and> set (db_events db') \<subseteq> set (db_events db)"
  using assms truncate_ok [of "advance_cursor db k t" retained_journeys] advance_ok [of db k t]
    truncate_subset [of "advance_cursor db k t" retained_journeys]
  by (auto simp: advance_sync_cursor_endpoint_def truncate_old_journeys_def advance_cursor_def Let_def split: if_splits)

section \<open>The store as a transition system\<close>

inductive store_step :: "store_env \<Rightarrow> store \<Rightarrow> store \<Rightarrow> bool" for V where
  store_request: "validate_event_id uuid \<Longrightarrow> store_handle V key uuid now req db = (r, db', b) \<Longrightarrow> store_step V db db'"

definition store_start :: "store \<Rightarrow> bool" where
  "store_start db = (db = init_db)"

definition store_next :: "store_env \<Rightarrow> store \<Rightarrow> store \<Rightarrow> bool" where
  "store_next V db db' = (pyd_ok (sv_pyd V) \<and> store_step V db db')"

definition store_inv :: "store \<Rightarrow> bool" where
  "store_inv db = (store_ok db \<and> db_journeys db = [])"

lemma store_handle_inv:
  assumes "store_handle V key uuid now req db = (r, db', b)" "validate_event_id uuid" "pyd_ok (sv_pyd V)" "store_inv db"
  shows "store_inv db'"
proof -
  have i: "store_inv db1" if "ingest_event (sv_pyd V) uuid now body db = (r1, db1, b1)" for body r1 db1 b1
    using ingest_event_store [OF that assms(3,2)] assms(4) by (simp add: store_inv_def)
  have a: "store_inv db1" if "advance_sync_cursor_endpoint t k db = (r1, db1)" for t k r1 db1
    using advance_endpoint_store [OF that] assms(4) by (simp add: store_inv_def)
  show ?thesis
    using assms(1,4) by (auto simp: store_handle_def split: store_request.splits if_splits option.splits prod.splits dest: i a)
qed

interpretation stores: invariant_system store_start "store_next V" store_inv for V
proof
  show "store_inv db" if "store_start db" for db
    using that store_ok_init by (simp add: store_start_def store_inv_def init_db_def)
  show "store_inv t" if "store_inv s" "store_next V s t" for s t
    using that by (auto simp: store_next_def elim!: store_step.cases intro: store_handle_inv)
qed

end
