(* ===== verification/Store_Live.thy ===== *)
theory Store_Live
  imports Store_Routes
begin

text \<open>
  The live stream of the event-store: \<open>websocket/broadcaster.py\<close>, \<open>websocket/replay.py\<close> and
  \<open>websocket/handler.py\<close>. A connection is registered first, then the last events of the table
  are replayed to it, then it is acknowledged and its queue drained; an event committed
  meanwhile is both replayed and queued, and the writer leaves the second copy out. The
  coroutines interleave at their awaits: each function below runs from one await to the next.
\<close>

section \<open>Subscribers\<close>

definition queue_max :: nat where
  "queue_max = 256"

record subscriber =
  sb_subscription :: subscription
  sb_queue :: "jdict list"
  sb_dropped :: nat
  sb_pending_replay_ids :: "string set"
  sb_deduped :: nat

definition new_subscriber :: "subscription \<Rightarrow> subscriber" where
  "new_subscriber sub =
     \<lparr>sb_subscription = sub, sb_queue = [], sb_dropped = 0, sb_pending_replay_ids = {}, sb_deduped = 0\<rparr>"

definition coach_id_from_payload :: "jdict \<Rightarrow> string option" where
  "coach_id_from_payload env =
     (case dget env ''payload'' of
        Some (JObj p) \<Rightarrow> (case dget p ''car_id'' of Some (JStr s) \<Rightarrow> Some s | _ \<Rightarrow> None)
      | _ \<Rightarrow> None)"

text \<open>\<open>str(envelope.get(k, ""))\<close>.\<close>

definition text_at :: "(json \<Rightarrow> string) \<Rightarrow> jdict \<Rightarrow> string \<Rightarrow> string" where
  "text_at tx env k = py_str tx (dget_or env k (JStr []))"

definition frame_matches :: "(json \<Rightarrow> string) \<Rightarrow> subscription \<Rightarrow> jdict \<Rightarrow> bool" where
  "frame_matches tx sub env =
     sub_matches sub (text_at tx env ''event_type'') (text_at tx env ''severity'') (coach_id_from_payload env)"

text \<open>One turn of the loop of \<open>broadcast\<close>: no match, a place in the queue, or a drop.\<close>

definition offer :: "(json \<Rightarrow> string) \<Rightarrow> jdict \<Rightarrow> subscriber \<Rightarrow> subscriber" where
  "offer tx env s =
     (if \<not> frame_matches tx (sb_subscription s) env then s
      else if length (sb_queue s) < queue_max then s\<lparr>sb_queue := sb_queue s @ [env]\<rparr>
      else s\<lparr>sb_dropped := Suc (sb_dropped s)\<rparr>)"

section \<open>The subscription frame\<close>

definition parse_subscription :: "(json \<Rightarrow> string) \<Rightarrow> jdict \<Rightarrow> subscription res" where
  "parse_subscription tx data =
     (case dget_or data ''event_types'' (JList []) of
        JList ts \<Rightarrow>
          bind_res (guard (ts \<noteq> []) ValueError) (\<lambda>_.
          (let sev = py_str tx (dget_or data ''min_severity'' (JStr ''info'')) in
          bind_res (guard (sev \<in> {''info'', ''warning'', ''critical''}) ValueError) (\<lambda>_.
          bind_res (case dget_or data ''coach_ids'' JNull of
                      JNull \<Rightarrow> Inr None
                    | JList cs \<Rightarrow> if cs = [] then Inl ValueError else Inr (Some (map (py_str tx) cs))
                    | _ \<Rightarrow> Inl ValueError) (\<lambda>coaches.
          (case dget_or data ''reconnect_replay_depth'' (JInt 50) of
             JInt n \<Rightarrow> Inr \<lparr>sub_event_types = map (py_str tx) ts, sub_min_severity = sev,
                            sub_coach_ids = coaches, sub_replay_depth = n\<rparr>
           | _ \<Rightarrow> Inl ValueError)))))
      | _ \<Rightarrow> Inl ValueError)"

section \<open>Replay\<close>

definition replay_cap_hard :: int where
  "replay_cap_hard = 1000"

definition replay_rows :: "(json \<Rightarrow> string) \<Rightarrow> store \<Rightarrow> subscription \<Rightarrow> envelope list res" where
  "replay_rows json_text db sub =
     (if sub_replay_depth sub \<le> 0 then Inr []
      else get_filtered_events_for_replay json_text db
             (if sub_event_types sub = [] then None else Some (sub_event_types sub))
             (Some (sub_min_severity sub)) (sub_coach_ids sub)
             (nat (min (sub_replay_depth sub) replay_cap_hard)))"

section \<open>Connections\<close>

datatype frame = Event_frame jdict | Ack_frame jdict

datatype phase =
    Registered \<comment> \<open>in the subscriber set, the table not read yet\<close>
  | Replaying "jdict list" \<comment> \<open>the rows still to be sent\<close>
  | Live

text \<open>
  The last field is history: the ids in the table when the connection was registered.
\<close>

record connection =
  cn_subscriber :: subscriber
  cn_phase :: phase
  cn_data :: jdict
  cn_frames :: "frame list"
  cn_known :: "string set"

type_synonym hub = "(nat, connection) dict"

definition stored_ids :: "store \<Rightarrow> string set" where
  "stored_ids db = ev_id ` set (db_events db)"

text \<open>The handler up to \<open>broadcaster.add\<close>; a bad first frame closes with 1003.\<close>

definition connect :: "(json \<Rightarrow> string) \<Rightarrow> store \<Rightarrow> jdict \<Rightarrow> connection res" where
  "connect tx db data =
     map_sum id (\<lambda>sub. \<lparr>cn_subscriber = new_subscriber sub, cn_phase = Registered, cn_data = data,
       cn_frames = [], cn_known = stored_ids db\<rparr>) (parse_subscription tx data)"

definition begin_replay :: "(json \<Rightarrow> string) \<Rightarrow> store \<Rightarrow> connection \<Rightarrow> connection res" where
  "begin_replay json_text db c =
     map_sum id (\<lambda>rows. c\<lparr>cn_phase := Replaying (map envelope_json rows)\<rparr>)
       (replay_rows json_text db (sb_subscription (cn_subscriber c)))"

definition note_replayed :: "string \<Rightarrow> subscriber \<Rightarrow> subscriber" where
  "note_replayed k s =
     (if k = [] then s else s\<lparr>sb_pending_replay_ids := insert k (sb_pending_replay_ids s)\<rparr>)"

definition ack_frame :: "jdict \<Rightarrow> frame" where
  "ack_frame data = Ack_frame [(''status'', JStr ''subscribed''), (''filter'', JObj data)]"

text \<open>One turn of the replay loop, and after the last row the acknowledgement.\<close>

definition replay_step :: "(json \<Rightarrow> string) \<Rightarrow> connection \<Rightarrow> connection option" where
  "replay_step tx c =
     (case cn_phase c of
        Replaying (d # ds) \<Rightarrow>
          Some (c\<lparr>cn_subscriber := note_replayed (text_at tx d ''event_id'') (cn_subscriber c),
                  cn_phase := Replaying ds, cn_frames := cn_frames c @ [Event_frame d]\<rparr>)
      | Replaying [] \<Rightarrow> Some (c\<lparr>cn_phase := Live, cn_frames := cn_frames c @ [ack_frame (cn_data c)]\<rparr>)
      | _ \<Rightarrow> None)"

text \<open>One turn of \<open>_writer\<close>; it waits while the queue is empty.\<close>

definition writer_step :: "(json \<Rightarrow> string) \<Rightarrow> connection \<Rightarrow> connection option" where
  "writer_step tx c =
     (case (cn_phase c, sb_queue (cn_subscriber c)) of
        (Live, env # q) \<Rightarrow>
          (let s = (cn_subscriber c)\<lparr>sb_queue := q\<rparr>; k = text_at tx env ''event_id''
           in Some (if k \<noteq> [] \<and> k \<in> sb_pending_replay_ids s
                    then c\<lparr>cn_subscriber := s\<lparr>sb_pending_replay_ids := sb_pending_replay_ids s - {k},
                                                  sb_deduped := Suc (sb_deduped s)\<rparr>\<rparr>
                    else c\<lparr>cn_subscriber := s, cn_frames := cn_frames c @ [Event_frame env]\<rparr>))
      | _ \<Rightarrow> None)"

definition broadcast :: "(json \<Rightarrow> string) \<Rightarrow> jdict \<Rightarrow> hub \<Rightarrow> hub" where
  "broadcast tx env h = map (\<lambda>(i, c). (i, c\<lparr>cn_subscriber := offer tx env (cn_subscriber c)\<rparr>)) h"

definition add_connection :: "hub \<Rightarrow> nat \<Rightarrow> connection \<Rightarrow> hub" where
  "add_connection h i c = dset h i c"

definition remove_connection :: "hub \<Rightarrow> nat \<Rightarrow> hub" where
  "remove_connection h i = ddel h i"

end
