(* ===== verification/Store_Live_Facts.thy ===== *)
theory Store_Live_Facts
  imports Store_Live
begin

text \<open>
  Facts on the live stream: the SQL filter of replay against the Python filter of the live
  path, and the delivery invariant of a connection through every interleaving of requests,
  replay and the writer.
\<close>

section \<open>Replay and live filter alike\<close>

text \<open>pydantic's \<open>str\<close> reads a JSON string only.\<close>

definition str_only :: "pydantic \<Rightarrow> bool" where
  "str_only pd = (\<forall>j s. as_str pd j = Some s \<longrightarrow> j = JStr s)"

lemma strict_str_only: "str_only strict_pydantic"
  by (auto simp: str_only_def strict_pydantic_def split: json.splits)

lemma car_id_field: "(''car_id'', ty, df) \<in> set (payload_fields et) \<Longrightarrow> ty = Sc NonEmptyStr"
  by (cases et) (auto simp: occupancy_update_fields_def occupancy_threshold_crossed_fields_def alert_raised_fields_def
      alert_resolved_fields_def vestibule_congestion_fields_def luggage_rack_saturation_fields_def
      unattended_bag_fields_def door_obstruction_fields_def accessibility_detected_fields_def
      ramp_deployed_fields_def alarm_active_fields_def alarm_cleared_fields_def
      journey_started_fields_def journey_ended_fields_def camera_degraded_fields_def
      camera_recovered_fields_def sync_completed_fields_def wagon_exit_fields_def
      wagon_entry_fields_def ledger_drift_observation_fields_def calibration_drift_fields_def
      coach_comfort_index_fields_def stream_priority_fields_def inference_heartbeat_fields_def
      alert_class_state_fields_def)

text \<open>So the coach of a stored event is a string or absent, never another value.\<close>

lemma car_id_string:
  assumes "validate_payload_shape pd et p" "str_only pd" "dget p ''car_id'' = Some j"
  shows "\<exists>s. j = JStr s"
proof -
  from assms(1,3) obtain v w where v: "validate_fields pd (payload_fields et) p = Some v"
    by (auto simp: validate_payload_shape_def validate_payload_def split: option.splits)
  have "''car_id'' \<in> set (dkeys p)" using assms(3) by (metis dhas_def dhas_iff option.distinct(1))
  with v obtain f where f: "f \<in> set (payload_fields et)" "field_name f = ''car_id''"
    by (auto simp: validate_fields_def field_names_def split: if_splits)
  obtain ty df where fd: "f = (''car_id'', ty, df)" using f(2) by (cases f) (auto simp: field_name_def)
  with f car_id_field have "ty = Sc NonEmptyStr" by blast
  with validate_field_ok [OF v f(1)] fd assms(3) have "scalar_check pd NonEmptyStr j \<noteq> None" by auto
  with assms(2) show ?thesis by (auto simp: str_only_def bind_eq_Some_conv)
qed

lemma coach_of_event:
  assumes "validate_payload_shape pd (ev_type e) (ev_payload e)" "str_only pd"
  shows "car_matches jt ids (ev_payload e) \<longleftrightarrow>
    (case coach_id_from_payload (envelope_json e) of None \<Rightarrow> True | Some s \<Rightarrow> s \<in> set ids)"
proof (cases "dget (ev_payload e) ''car_id''")
  case None
  then show ?thesis by (simp add: car_matches_def coach_id_from_payload_def envelope_json_def)
next
  case (Some j)
  with car_id_string [OF assms] obtain s where "j = JStr s" by blast
  with Some show ?thesis by (simp add: car_matches_def coach_id_from_payload_def envelope_json_def)
qed

lemma text_at_envelope [simp]:
  "text_at tx (envelope_json e) ''event_type'' = event_type_value (ev_type e)"
  "text_at tx (envelope_json e) ''severity'' = severity_value (ev_severity e)"
  "text_at tx (envelope_json e) ''event_id'' = ev_id e"
  by (simp_all add: text_at_def envelope_json_def dget_or_def)

text \<open>What a parsed subscription satisfies.\<close>

definition sub_ok :: "subscription \<Rightarrow> bool" where
  "sub_ok sub \<longleftrightarrow> sub_event_types sub \<noteq> [] \<and> sub_min_severity sub \<in> {''info'', ''warning'', ''critical''} \<and>
     sub_coach_ids sub \<noteq> Some []"

lemma parse_subscription_ok: "parse_subscription tx data = Inr sub \<Longrightarrow> sub_ok sub"
  by (cases "dget_or data ''reconnect_replay_depth'' (JInt 50)"; cases "dget_or data ''coach_ids'' JNull";
      cases "dget_or data ''event_types'' (JList [])")
    (auto simp: parse_subscription_def sub_ok_def res_iff Let_def split: if_splits)

definition matching :: "(json \<Rightarrow> string) \<Rightarrow> subscription \<Rightarrow> envelope list \<Rightarrow> envelope list" where
  "matching tx sub es = filter (\<lambda>e. frame_matches tx sub (envelope_json e)) es"

definition last_n :: "nat \<Rightarrow> 'a list \<Rightarrow> 'a list" where
  "last_n n xs = drop (length xs - n) xs"

definition replay_depth :: "subscription \<Rightarrow> nat" where
  "replay_depth sub = nat (min (sub_replay_depth sub) replay_cap_hard)"

lemma replay_rows_eq:
  assumes "sub_ok sub" "str_only pd" "\<forall>e \<in> set (db_events db). envelope_ok pd e"
  shows "replay_rows jt db sub = Inr (last_n (replay_depth sub) (matching tx sub (chron db)))"
proof (cases "sub_replay_depth sub \<le> 0")
  case True
  then show ?thesis by (simp add: replay_rows_def last_n_def replay_depth_def)
next
  case False
  obtain n where n: "severity_score (sub_min_severity sub) = Inr n" "dget_or severity_order (sub_min_severity sub) 0 = n"
    using assms(1) by (auto simp: sub_ok_def severity_score_def severity_order_def dget_or_def)
  let ?p = "\<lambda>e. (event_type_value (ev_type e) \<in> set (sub_event_types sub) \<and> n \<le> row_score e) \<and>
     (case sub_coach_ids sub of None \<Rightarrow> True | Some ids \<Rightarrow> car_matches jt ids (ev_payload e))"
  have c: "get_filtered_events_for_replay jt db (Some (sub_event_types sub)) (Some (sub_min_severity sub)) (sub_coach_ids sub) k
      = Inr (rev (take k (filter ?p (rev (chron db)))))" for k
    using assms(1) n by (auto simp: get_filtered_events_for_replay_def build_filter_clauses_def cursor_clause_def
        severity_clause_def sub_ok_def truthy_def chron_def)
  have "?p e \<longleftrightarrow> frame_matches tx sub (envelope_json e)" if "e \<in> set (chron db)" for e
    using coach_of_event [of pd e jt] assms that n
    by (auto simp: frame_matches_def sub_matches_def matches_event_type_def matches_severity_def matches_coach_def
        row_score_def envelope_ok_def split: option.splits)
  then have "filter ?p (rev (chron db)) = rev (matching tx sub (chron db))"
    unfolding matching_def rev_filter [symmetric] by (metis (no_types, lifting) filter_cong)
  with c False assms(1) show ?thesis
    by (simp add: replay_rows_def replay_depth_def last_n_def sub_ok_def take_rev)
qed

section \<open>The delivery invariant\<close>

definition event_frames :: "connection \<Rightarrow> jdict list" where
  "event_frames c = concat (map (\<lambda>f. case f of Event_frame d \<Rightarrow> [d] | Ack_frame d \<Rightarrow> []) (cn_frames c))"

definition sent_ids :: "(json \<Rightarrow> string) \<Rightarrow> connection \<Rightarrow> string list" where
  "sent_ids tx c = map (\<lambda>d. text_at tx d ''event_id'') (event_frames c)"

definition queued_ids :: "(json \<Rightarrow> string) \<Rightarrow> connection \<Rightarrow> string list" where
  "queued_ids tx c = map (\<lambda>d. text_at tx d ''event_id'') (sb_queue (cn_subscriber c))"

definition replay_left :: "connection \<Rightarrow> jdict list" where
  "replay_left c = (case cn_phase c of Replaying ds \<Rightarrow> ds | _ \<Rightarrow> [])"

abbreviation conn_sub :: "connection \<Rightarrow> subscription" where
  "conn_sub c \<equiv> sb_subscription (cn_subscriber c)"

text \<open>
  Apart from the ids \<open>again\<close>, taken a second time after truncation deleted them: the ids sent are
  distinct; an id both sent and queued is pending, so that the writer leaves it out; the rows still to
  be replayed are none of those sent.
\<close>

definition once :: "string set \<Rightarrow> string list \<Rightarrow> bool" where
  "once again ks \<longleftrightarrow> distinct (filter (\<lambda>k. k \<notin> again) ks)"

definition ids_ok ::
  "string set \<Rightarrow> string set \<Rightarrow> string list \<Rightarrow> string list \<Rightarrow> string list \<Rightarrow> string set \<Rightarrow> bool" where
  "ids_ok ever again S Q R P \<longleftrightarrow> once again S \<and> once again Q \<and> once again R \<and>
     set Q \<inter> set S \<subseteq> P \<union> again \<and> P \<subseteq> set S \<and> set R \<inter> set S \<subseteq> again \<and>
     set S \<union> set Q \<union> set R \<subseteq> ever \<and> [] \<notin> ever"

lemma once_simps [simp]:
  "once A []" "once A (k # ks) \<longleftrightarrow> (k \<in> A \<or> k \<notin> set ks) \<and> once A ks"
  "once A (ks @ [k]) \<longleftrightarrow> (k \<in> A \<or> k \<notin> set ks) \<and> once A ks"
  by (auto simp: once_def)

lemma once_distinct: "distinct ks \<Longrightarrow> once A ks"
  by (simp add: once_def)

lemma once_grows: "once A ks \<Longrightarrow> A \<subseteq> B \<Longrightarrow> once B ks"
  by (induction ks) auto

definition conn_ids_ok :: "(json \<Rightarrow> string) \<Rightarrow> string set \<Rightarrow> string set \<Rightarrow> connection \<Rightarrow> bool" where
  "conn_ids_ok tx ever again c = ids_ok ever again (sent_ids tx c) (queued_ids tx c)
     (map (\<lambda>d. text_at tx d ''event_id'') (replay_left c)) (sb_pending_replay_ids (cn_subscriber c))"

definition frames_match :: "(json \<Rightarrow> string) \<Rightarrow> connection \<Rightarrow> bool" where
  "frames_match tx c \<longleftrightarrow> sub_ok (conn_sub c) \<and> length (sb_queue (cn_subscriber c)) \<le> queue_max \<and>
     (\<forall>d \<in> set (event_frames c) \<union> set (sb_queue (cn_subscriber c)) \<union> set (replay_left c). frame_matches tx (conn_sub c) d)"

text \<open>Nothing that matches and was stored since the registration is lost, unless it was dropped.\<close>

definition nothing_lost :: "(json \<Rightarrow> string) \<Rightarrow> store \<Rightarrow> connection \<Rightarrow> bool" where
  "nothing_lost tx db c \<longleftrightarrow> (sb_dropped (cn_subscriber c) = 0 \<longrightarrow>
     (\<forall>e \<in> set (db_events db). frame_matches tx (conn_sub c) (envelope_json e) \<longrightarrow>
        ev_id e \<in> cn_known c \<or> ev_id e \<in> set (sent_ids tx c) \<or> ev_id e \<in> set (queued_ids tx c)))"

definition conn_ok :: "(json \<Rightarrow> string) \<Rightarrow> store \<Rightarrow> string set \<Rightarrow> string set \<Rightarrow> connection \<Rightarrow> bool" where
  "conn_ok tx db gone again c \<longleftrightarrow> conn_ids_ok tx (stored_ids db \<union> gone) again c \<and> frames_match tx c \<and> nothing_lost tx db c \<and>
     (cn_phase c = Registered \<longrightarrow> cn_frames c = [] \<and> sb_pending_replay_ids (cn_subscriber c) = {})"

lemmas conn_defs = conn_ok_def conn_ids_ok_def frames_match_def nothing_lost_def event_frames_def sent_ids_def
  queued_ids_def replay_left_def

lemma connect_ok:
  assumes "connect tx db data = Inr c" "[] \<notin> stored_ids db \<union> gone"
  shows "conn_ok tx db gone A c"
proof -
  obtain sub where "parse_subscription tx data = Inr sub"
    and c: "c = \<lparr>cn_subscriber = new_subscriber sub, cn_phase = Registered, cn_data = data, cn_frames = [], cn_known = stored_ids db\<rparr>"
    using assms(1) by (cases "parse_subscription tx data") (auto simp: connect_def)
  with parse_subscription_ok assms(2) show ?thesis
    by (auto simp: conn_defs ids_ok_def new_subscriber_def stored_ids_def queue_max_def)
qed

lemma begin_replay_ok:
  assumes "begin_replay jt db c = Inr c'" "conn_ok tx db gone A c" "cn_phase c = Registered" "str_only pd" "store_ok db"
    and "\<forall>e \<in> set (db_events db). envelope_ok pd e"
  shows "conn_ok tx db gone A c'"
proof -
  let ?m = "last_n (replay_depth (conn_sub c)) (matching tx (conn_sub c) (chron db))"
  have sub: "sub_ok (conn_sub c)" using assms(2) by (simp add: conn_ok_def frames_match_def)
  have c': "c' = c\<lparr>cn_phase := Replaying (map envelope_json ?m)\<rparr>"
    using assms(1) replay_rows_eq [OF sub assms(4,6), of jt tx] by (simp add: begin_replay_def)
  have m: "set ?m \<subseteq> set (db_events db)" "\<forall>e \<in> set ?m. frame_matches tx (conn_sub c) (envelope_json e)"
    by (auto simp: last_n_def matching_def dest!: in_set_dropD)
  have "distinct (map ev_id (chron db))"
    using assms(5) by (simp add: store_ok_def distinct_map chron_def)
  then have d: "distinct (map ev_id ?m)"
    by (simp add: last_n_def matching_def filter_distinct_map drop_map [symmetric])
  from assms(2,3) m once_distinct [OF d, of A] show ?thesis
    by (auto simp: c' conn_defs ids_ok_def stored_ids_def comp_def)
qed

lemma ids_replayed: "ids_ok ever A S Q (r # R) P \<Longrightarrow> ids_ok ever A (S @ [r]) Q R (insert r P)"
  by (auto simp: ids_ok_def)

lemma ids_deduped: "ids_ok ever A S (q # Q) R P \<Longrightarrow> ids_ok ever A S Q R (P - {q})"
  by (auto simp: ids_ok_def)

lemma ids_written: "ids_ok ever A S (q # Q) [] P \<Longrightarrow> q \<notin> P \<Longrightarrow> ids_ok ever A (S @ [q]) Q [] P"
  by (auto simp: ids_ok_def)

lemma ids_queued: "ids_ok ever A S Q R P \<Longrightarrow> k \<in> A \<or> k \<notin> ever \<Longrightarrow> k \<noteq> [] \<Longrightarrow> ids_ok (insert k ever) A S (Q @ [k]) R P"
  by (auto simp: ids_ok_def)

lemma ids_stored: "ids_ok ever A S Q R P \<Longrightarrow> k \<noteq> [] \<Longrightarrow> ids_ok (insert k ever) A S Q R P"
  by (auto simp: ids_ok_def)

lemma again_grows: "conn_ok tx db gone A c \<Longrightarrow> A \<subseteq> B \<Longrightarrow> conn_ok tx db gone B c"
  unfolding conn_ok_def conn_ids_ok_def ids_ok_def by (blast intro: once_grows)

lemma event_frames_update [simp]:
  "event_frames (c\<lparr>cn_frames := cn_frames c @ [Event_frame d]\<rparr>) = event_frames c @ [d]"
  "event_frames (c\<lparr>cn_frames := cn_frames c @ [ack_frame a]\<rparr>) = event_frames c"
  "event_frames (c\<lparr>cn_subscriber := s\<rparr>) = event_frames c"
  "event_frames (c\<lparr>cn_phase := p\<rparr>) = event_frames c"
  by (simp_all add: event_frames_def ack_frame_def)

lemma replay_step_ok:
  assumes "replay_step tx c = Some c'" "conn_ok tx db gone A c"
  shows "conn_ok tx db gone A c'"
proof -
  obtain ds where ph: "cn_phase c = Replaying ds"
    using assms(1) by (auto simp: replay_step_def split: phase.splits)
  show ?thesis
  proof (cases ds)
    case Nil
    with ph assms have "c' = c\<lparr>cn_phase := Live, cn_frames := cn_frames c @ [ack_frame (cn_data c)]\<rparr>"
      by (simp add: replay_step_def)
    then have "event_frames c' = event_frames c" "cn_phase c' = Live" "cn_subscriber c' = cn_subscriber c" "cn_known c' = cn_known c"
      by (simp_all add: event_frames_def ack_frame_def)
    with ph Nil assms(2) show ?thesis
      by (simp add: conn_ok_def conn_ids_ok_def frames_match_def nothing_lost_def sent_ids_def queued_ids_def replay_left_def)
  next
    case (Cons d ds')
    let ?k = "text_at tx d ''event_id''"
    have ids: "ids_ok (stored_ids db \<union> gone) A (sent_ids tx c) (queued_ids tx c)
        (?k # map (\<lambda>d. text_at tx d ''event_id'') ds') (sb_pending_replay_ids (cn_subscriber c))"
      using assms(2) ph Cons by (simp add: conn_ok_def conn_ids_ok_def replay_left_def)
    then have k: "?k \<noteq> []" by (auto simp: ids_ok_def)
    let ?s = "(cn_subscriber c)\<lparr>sb_pending_replay_ids := insert ?k (sb_pending_replay_ids (cn_subscriber c))\<rparr>"
    from k ph Cons assms(1) have "c' = c\<lparr>cn_subscriber := ?s, cn_phase := Replaying ds', cn_frames := cn_frames c @ [Event_frame d]\<rparr>"
      by (simp add: replay_step_def note_replayed_def)
    then have "event_frames c' = event_frames c @ [d]" "cn_phase c' = Replaying ds'" "cn_subscriber c' = ?s" "cn_known c' = cn_known c"
      by (simp_all add: event_frames_def)
    with ids_replayed [OF ids] ph Cons assms(2) show ?thesis
      by (simp add: conn_ok_def conn_ids_ok_def frames_match_def nothing_lost_def sent_ids_def queued_ids_def replay_left_def)
        blast
  qed
qed

lemma writer_step_ok:
  assumes "writer_step tx c = Some c'" "conn_ok tx db gone A c"
  shows "conn_ok tx db gone A c'"
proof -
  obtain env q where e: "cn_phase c = Live" "sb_queue (cn_subscriber c) = env # q"
    using assms(1) by (auto simp: writer_step_def split: phase.splits list.splits)
  let ?k = "text_at tx env ''event_id''" and ?P = "sb_pending_replay_ids (cn_subscriber c)"
  have ids: "ids_ok (stored_ids db \<union> gone) A (sent_ids tx c) (?k # map (\<lambda>d. text_at tx d ''event_id'') q) [] ?P"
    using assms(2) e by (simp add: conn_ok_def conn_ids_ok_def replay_left_def queued_ids_def)
  have lost: "sb_dropped (cn_subscriber c) = 0 \<longrightarrow>
     (\<forall>e \<in> set (db_events db). frame_matches tx (conn_sub c) (envelope_json e) \<longrightarrow>
        ev_id e \<in> cn_known c \<or> ev_id e \<in> set (sent_ids tx c) \<or> ev_id e = ?k \<or> ev_id e \<in> set (map (\<lambda>d. text_at tx d ''event_id'') q))"
    using assms(2) e by (simp add: conn_ok_def nothing_lost_def queued_ids_def)
  show ?thesis
  proof (cases "?k \<noteq> [] \<and> ?k \<in> ?P")
    case True
    let ?s = "(cn_subscriber c)\<lparr>sb_queue := q, sb_pending_replay_ids := ?P - {?k}, sb_deduped := Suc (sb_deduped (cn_subscriber c))\<rparr>"
    from True e assms(1) have "c' = c\<lparr>cn_subscriber := ?s\<rparr>" by (simp add: writer_step_def)
    then have c': "event_frames c' = event_frames c" "cn_phase c' = Live" "cn_subscriber c' = ?s" "cn_known c' = cn_known c"
      using e by simp_all
    have "nothing_lost tx db c'"
    proof -
      have "?k \<in> set (sent_ids tx c)" using True ids by (auto simp: ids_ok_def)
      moreover have "sent_ids tx c' = sent_ids tx c" "queued_ids tx c' = map (\<lambda>d. text_at tx d ''event_id'') q"
        using c' by (simp_all add: sent_ids_def queued_ids_def)
      ultimately show ?thesis using lost c' by (auto simp: nothing_lost_def)
    qed
    with c' show ?thesis
      using ids_deduped [OF ids] e assms(2)
      by (simp add: conn_ok_def conn_ids_ok_def frames_match_def sent_ids_def queued_ids_def replay_left_def)
  next
    case False
    let ?s = "(cn_subscriber c)\<lparr>sb_queue := q\<rparr>"
    have k: "?k \<notin> ?P" using False ids by (auto simp: ids_ok_def)
    from False e assms(1) have "c' = c\<lparr>cn_subscriber := ?s, cn_frames := cn_frames c @ [Event_frame env]\<rparr>"
      by (auto simp: writer_step_def)
    then have "event_frames c' = event_frames c @ [env]" "cn_phase c' = Live" "cn_subscriber c' = ?s" "cn_known c' = cn_known c"
      using e by (simp_all add: event_frames_def)
    with ids_written [OF ids k] lost e assms(2) show ?thesis
      by (simp add: conn_ok_def conn_ids_ok_def frames_match_def nothing_lost_def sent_ids_def queued_ids_def replay_left_def)
        blast
  qed
qed

lemma offer_cases:
  obtains (other) "\<not> frame_matches tx (sb_subscription s) d" "offer tx d s = s"
    | (queued) "frame_matches tx (sb_subscription s) d" "length (sb_queue s) < queue_max" "offer tx d s = s\<lparr>sb_queue := sb_queue s @ [d]\<rparr>"
    | (dropped) "frame_matches tx (sb_subscription s) d" "queue_max \<le> length (sb_queue s)" "offer tx d s = s\<lparr>sb_dropped := Suc (sb_dropped s)\<rparr>"
  by (cases "frame_matches tx (sb_subscription s) d"; cases "length (sb_queue s) < queue_max") (simp_all add: offer_def)

lemma offer_ok:
  assumes "conn_ok tx db gone A c" "db_events db' = db_events db @ [e]" "ev_id e \<in> A \<or> ev_id e \<notin> stored_ids db \<union> gone" "ev_id e \<noteq> []"
  shows "conn_ok tx db' gone A (c\<lparr>cn_subscriber := offer tx (envelope_json e) (cn_subscriber c)\<rparr>)"
proof -
  have ids: "stored_ids db' \<union> gone = insert (ev_id e) (stored_ids db \<union> gone)"
    using assms(2) by (auto simp: stored_ids_def)
  have i: "ids_ok (stored_ids db \<union> gone) A (sent_ids tx c) (queued_ids tx c)
      (map (\<lambda>d. text_at tx d ''event_id'') (replay_left c)) (sb_pending_replay_ids (cn_subscriber c))"
    using assms(1) by (simp add: conn_ok_def conn_ids_ok_def)
  note conn = conn_ok_def conn_ids_ok_def frames_match_def nothing_lost_def sent_ids_def queued_ids_def replay_left_def
  show ?thesis
  proof (cases rule: offer_cases [of tx "cn_subscriber c" "envelope_json e"])
    case other
    with ids_stored [OF i assms(4)] assms(1,2) show ?thesis by (simp add: ids conn)
  next
    case queued
    with ids_queued [OF i assms(3,4)] assms(1,2) show ?thesis by (simp add: ids conn) blast
  next
    case dropped
    with ids_stored [OF i assms(4)] assms(1,2) show ?thesis by (simp add: ids conn)
  qed
qed

text \<open>Deleting rows takes nothing away from a connection.\<close>

lemma truncated_ok:
  assumes "conn_ok tx db gone A c" "set (db_events db') \<subseteq> set (db_events db)"
  shows "conn_ok tx db' (gone \<union> (stored_ids db - stored_ids db')) A c"
proof -
  have "stored_ids db' \<union> (gone \<union> (stored_ids db - stored_ids db')) = stored_ids db \<union> gone"
    using assms(2) by (auto simp: stored_ids_def)
  with assms show ?thesis by (auto simp: conn_ok_def nothing_lost_def)
qed

section \<open>The server\<close>

text \<open>
  The table, the subscriber set and, as history, the ids that truncation deleted and those of them
  that a producer has sent again since: the table has forgotten the key and takes such an event as new.
\<close>

record server =
  srv_db :: store
  srv_hub :: hub
  srv_gone :: "string set"
  srv_again :: "string set"

definition fan_out :: "(json \<Rightarrow> string) \<Rightarrow> envelope option \<Rightarrow> hub \<Rightarrow> hub" where
  "fan_out tx b h = (case b of None \<Rightarrow> h | Some e \<Rightarrow> broadcast tx (envelope_json e) h)"

definition after_request :: "store_env \<Rightarrow> server \<Rightarrow> store \<Rightarrow> envelope option \<Rightarrow> server" where
  "after_request V s db' b =
     s\<lparr>srv_db := db', srv_hub := fan_out (sv_text V) b (srv_hub s),
       srv_gone := srv_gone s \<union> (stored_ids (srv_db s) - stored_ids db'),
       srv_again := srv_again s \<union> (ev_id ` set_option b \<inter> srv_gone s)\<rparr>"

text \<open>
  A request is one step; any request may come at any moment.
\<close>

inductive server_step :: "store_env \<Rightarrow> (json \<Rightarrow> string) \<Rightarrow> server \<Rightarrow> server \<Rightarrow> bool" for V jt where
  request: "validate_event_id uuid \<Longrightarrow> store_handle V key uuid now req (srv_db s) = (r, db', b) \<Longrightarrow>
    server_step V jt s (after_request V s db' b)"
| connects: "connect (sv_text V) (srv_db s) data = Inr c \<Longrightarrow> dget (srv_hub s) i = None \<Longrightarrow>
    server_step V jt s (s\<lparr>srv_hub := add_connection (srv_hub s) i c\<rparr>)"
| reads: "dget (srv_hub s) i = Some c \<Longrightarrow> cn_phase c = Registered \<Longrightarrow> begin_replay jt (srv_db s) c = Inr c' \<Longrightarrow>
    server_step V jt s (s\<lparr>srv_hub := dset (srv_hub s) i c'\<rparr>)"
| replays: "dget (srv_hub s) i = Some c \<Longrightarrow> replay_step (sv_text V) c = Some c' \<Longrightarrow>
    server_step V jt s (s\<lparr>srv_hub := dset (srv_hub s) i c'\<rparr>)"
| writes: "dget (srv_hub s) i = Some c \<Longrightarrow> writer_step (sv_text V) c = Some c' \<Longrightarrow>
    server_step V jt s (s\<lparr>srv_hub := dset (srv_hub s) i c'\<rparr>)"
| disconnects: "server_step V jt s (s\<lparr>srv_hub := remove_connection (srv_hub s) i\<rparr>)"

definition server_start :: "server \<Rightarrow> bool" where
  "server_start s = (srv_db s = init_db \<and> srv_hub s = [] \<and> srv_gone s = {} \<and> srv_again s = {})"

definition server_next :: "store_env \<Rightarrow> (json \<Rightarrow> string) \<Rightarrow> server \<Rightarrow> server \<Rightarrow> bool" where
  "server_next V jt s t = (pyd_ok (sv_pyd V) \<and> str_only (sv_pyd V) \<and> server_step V jt s t)"

definition server_inv :: "store_env \<Rightarrow> server \<Rightarrow> bool" where
  "server_inv V s \<longleftrightarrow> store_inv (srv_db s) \<and> (\<forall>e \<in> set (db_events (srv_db s)). envelope_ok (sv_pyd V) e) \<and>
     [] \<notin> srv_gone s \<and> (\<forall>i c. dget (srv_hub s) i = Some c \<longrightarrow> conn_ok (sv_text V) (srv_db s) (srv_gone s) (srv_again s) c)"

lemma dget_broadcast:
  "dget (broadcast tx d h) i = map_option (\<lambda>c. c\<lparr>cn_subscriber := offer tx d (cn_subscriber c)\<rparr>) (dget h i)"
  by (induction h) (auto simp: broadcast_def)

lemma ingest_effect:
  assumes "ingest_event pd uuid now body db = (r, db', b)" "pyd_ok pd" "validate_event_id uuid"
  shows "(b = None \<and> db' = db) \<or>
    (\<exists>e. b = Some e \<and> db_events db' = db_events db @ [e] \<and> envelope_ok pd e \<and> ev_id e \<notin> stored_ids db)"
proof (cases "parse_envelope pd uuid now body")
  case (Inl a)
  with assms(1) show ?thesis by (simp add: ingest_event_def)
next
  case (Inr env)
  have ok: "envelope_ok pd env" using parse_envelope_ok assms(2,3) Inr by blast
  obtain s db1 where i: "insert_event db env = (s, db1)" by fastforce
  from i show ?thesis
    by (rule insert_event_cases) (use assms(1) Inr ok i in \<open>auto simp: ingest_event_def stored_ids_def\<close>)
qed

lemma store_handle_effect:
  assumes "store_handle V key uuid now req db = (r, db', b)" "validate_event_id uuid" "pyd_ok (sv_pyd V)" "store_ok db"
  shows "(b = None \<and> set (db_events db') \<subseteq> set (db_events db)) \<or>
    (\<exists>e. b = Some e \<and> db_events db' = db_events db @ [e] \<and> envelope_ok (sv_pyd V) e \<and> ev_id e \<notin> stored_ids db)"
proof -
  have i: ?thesis if "ingest_event (sv_pyd V) uuid now body db = (r, db', b)" for body
    using ingest_effect [OF that assms(3,2)] by auto
  have a: "set (db_events db1) \<subseteq> set (db_events db)" if "advance_sync_cursor_endpoint t k db = (r1, db1)" for t k r1 db1
    using advance_endpoint_store [OF that assms(4)] by blast
  show ?thesis
  proof (cases req)
    case (Post_event body)
    with assms(1) i show ?thesis by (auto simp: store_handle_def split: if_splits)
  next
    case (Post_cursor body)
    with assms(1) a show ?thesis by (fastforce simp: store_handle_def split: if_splits option.splits prod.splits)
  qed (use assms(1) in \<open>auto simp: store_handle_def split: if_splits\<close>)
qed

lemma request_inv:
  assumes "server_inv V s" "pyd_ok (sv_pyd V)" "validate_event_id uuid"
    and "store_handle V key uuid now req (srv_db s) = (r, db', b)"
  shows "server_inv V (after_request V s db' b)"
proof -
  have st: "store_inv (srv_db s)" "store_ok (srv_db s)" using assms(1) by (simp_all add: server_inv_def store_inv_def)
  have st': "store_inv db'" using store_handle_inv [OF assms(4,3,2) st(1)] .
  then have ne: "[] \<notin> stored_ids db" if "db = srv_db s \<or> db = db'" for db
    using that st by (auto simp: store_inv_def store_ok_def stored_ids_def)
  consider "b = None" "set (db_events db') \<subseteq> set (db_events (srv_db s))"
    | e where "b = Some e" "db_events db' = db_events (srv_db s) @ [e]" "envelope_ok (sv_pyd V) e" "ev_id e \<notin> stored_ids (srv_db s)"
    using store_handle_effect [OF assms(4,3,2) st(2)] by blast
  then show ?thesis
  proof cases
    case 1
    with assms(1) st' ne truncated_ok show ?thesis
      by (auto simp: server_inv_def after_request_def fan_out_def)
  next
    case (2 e)
    have gone: "srv_gone s \<union> (stored_ids (srv_db s) - stored_ids db') = srv_gone s" using 2(2) by (auto simp: stored_ids_def)
    have ne': "ev_id e \<noteq> []" using event_id_nonempty 2(3) by (simp add: envelope_ok_def)
    let ?A = "srv_again s \<union> ({ev_id e} \<inter> srv_gone s)"
    have "conn_ok (sv_text V) db' (srv_gone s) ?A c'"
      if h: "dget (broadcast (sv_text V) (envelope_json e) (srv_hub s)) i = Some c'" for i c'
    proof -
      obtain c where c: "dget (srv_hub s) i = Some c" "c' = c\<lparr>cn_subscriber := offer (sv_text V) (envelope_json e) (cn_subscriber c)\<rparr>"
        using h by (auto simp: dget_broadcast)
      with assms(1) have "conn_ok (sv_text V) (srv_db s) (srv_gone s) (srv_again s) c" by (simp add: server_inv_def)
      then have "conn_ok (sv_text V) (srv_db s) (srv_gone s) ?A c" by (rule again_grows) blast
      moreover have "ev_id e \<in> ?A \<or> ev_id e \<notin> stored_ids (srv_db s) \<union> srv_gone s" using 2(4) by blast
      ultimately show ?thesis unfolding c(2) using offer_ok 2(2) ne' by blast
    qed
    with assms(1) st' 2 gone show ?thesis
      by (auto simp: server_inv_def after_request_def fan_out_def)
  qed
qed

lemma server_step_inv:
  assumes "server_inv V s" "server_step V jt s t" "pyd_ok (sv_pyd V)" "str_only (sv_pyd V)"
  shows "server_inv V t"
  using assms(2)
proof cases
  case (request uuid key now req r db' b)
  with request_inv assms(1,3) show ?thesis by blast
next
  case (connects data c i)
  have "[] \<notin> stored_ids (srv_db s) \<union> srv_gone s"
    using assms(1) by (auto simp: server_inv_def store_inv_def store_ok_def stored_ids_def)
  with connects connect_ok assms(1) show ?thesis by (auto simp: server_inv_def add_connection_def)
next
  case (reads i c c')
  with assms(1,4) begin_replay_ok show ?thesis by (auto simp: server_inv_def store_inv_def)
next
  case (replays i c c')
  with assms(1) replay_step_ok show ?thesis by (auto simp: server_inv_def)
next
  case (writes i c c')
  with assms(1) writer_step_ok show ?thesis by (auto simp: server_inv_def)
next
  case (disconnects i)
  with assms(1) show ?thesis by (auto simp: server_inv_def remove_connection_def)
qed

interpretation live: invariant_system server_start "server_next V jt" "server_inv V" for V jt
proof
  show "server_inv V s" if "server_start s" for s
    using that store_ok_init by (simp add: server_start_def server_inv_def store_inv_def init_db_def)
  show "server_inv V t" if "server_inv V s" "server_next V jt s t" for s t
    using that server_step_inv by (auto simp: server_next_def)
qed

end
