(* ===== verification/Store_Properties.thy ===== *)
theory Store_Properties
  imports Store_Live_Facts
begin

text \<open>
  The properties of the event-store: idempotent ingestion, uniqueness in every reachable state,
  complete reading page by page, what an acknowledgement deletes, and exactly-once delivery on
  the live stream.
\<close>

section \<open>Ingestion\<close>

text \<open>C32: Ingestion is idempotent as long as the table remembers the event. The first post of an
  envelope is answered 201 and broadcast, or is itself a duplicate, and leaves a row in the table that
  carries its id or its key. Posted again, however much later and whatever was stored in between, it is
  answered 200 with stored = false, changes nothing and is not broadcast if such a row is still there;
  if truncation has deleted every such row, it is taken as new: answered 201, stored and broadcast.\<close>

theorem ingest_idempotent:
  assumes "pyd_ok (sv_pyd V)" "require_api_key (sv_settings V) key" "envelope_ok (sv_pyd V) e"
    and "store_handle V key uuid now (Post_event (envelope_json e)) db = (r, db1, b)"
  shows "((r, db1, b) = (Ingested 201 (ev_id e) True, db\<lparr>db_events := db_events db @ [e]\<rparr>, Some e) \<or>
     (r, db1, b) = (Ingested 200 (ev_id e) False, db, None)) \<and>
    (\<exists>x \<in> set (db_events db1). ev_id x = ev_id e \<or> natural_key x = natural_key e) \<and>
    store_handle V key uuid' now' (Post_event (envelope_json e)) db2 =
      (if \<exists>x \<in> set (db_events db2). ev_id x = ev_id e \<or> natural_key x = natural_key e
       then (Ingested 200 (ev_id e) False, db2, None)
       else (Ingested 201 (ev_id e) True, db2\<lparr>db_events := db_events db2 @ [e]\<rparr>, Some e))"
proof -
  have ver: "ev_schema_version e \<in> set supported_schema_versions"
    using assms(3) by (simp add: envelope_ok_def validate_schema_version_def)
  have post: "store_handle V key u n (Post_event (envelope_json e)) d =
      (if \<exists>x \<in> set (db_events d). ev_id x = ev_id e \<or> natural_key x = natural_key e then (Ingested 200 (ev_id e) False, d, None)
       else (Ingested 201 (ev_id e) True, d\<lparr>db_events := db_events d @ [e]\<rparr>, Some e))" for u n d
  proof -
    have "parse_envelope (sv_pyd V) u n (envelope_json e) = Inr e"
      using envelope_json_roundtrip assms(1,3) by blast
    with ver assms(2) show ?thesis
      by (simp add: store_handle_def ingest_event_def insert_event_def list_ex_iff clashes_def)
  qed
  show ?thesis
    using assms(4) post [of uuid now db] post [of uuid' now' db2]
    by (cases "\<exists>x \<in> set (db_events db). ev_id x = ev_id e \<or> natural_key x = natural_key e") auto
qed

definition sample_store_env :: store_env where
  "sample_store_env = \<lparr>sv_pyd = strict_pydantic, sv_hmac = (\<lambda>k m. m), sv_text = (\<lambda>j. []),
     sv_settings = load_settings None (Some ''k'')\<rparr>"

definition sample_row :: "nat \<Rightarrow> string \<Rightarrow> event_type \<Rightarrow> envelope" where
  "sample_row n d et = \<lparr>ev_id = sample_uuid n, ev_journey_id = ''T1_RJ42_202605'' @ d, ev_vehicle_id = ''T1'',
     ev_timestamp = ''2026-05-'' @ d @ ''T10:00:00Z'', ev_type = et, ev_severity = Sev_info,
     ev_source = Src_inference, ev_schema_version = 1, ev_payload = []\<rparr>"

lemma sample_row_sel [simp]:
  "ev_id (sample_row n d et) = sample_uuid n" "ev_journey_id (sample_row n d et) = ''T1_RJ42_202605'' @ d"
  "ev_timestamp (sample_row n d et) = ''2026-05-'' @ d @ ''T10:00:00Z''" "ev_type (sample_row n d et) = et"
  "ev_schema_version (sample_row n d et) = 1" "ev_payload (sample_row n d et) = []" "ev_severity (sample_row n d et) = Sev_info"
  by (simp_all add: sample_row_def)

lemma sample_row_ok: "envelope_ok strict_pydantic (sample_row n ''17'' et)"
proof -
  have j: "validate_journey_id ''T1_RJ42_20260517''"
    by (simp add: validate_journey_id_def strptime_ymd_def date_ok_def days_in_month_def field_def nat_of_digits_def
        digit_val_def is_digit_def numeral_eq_Suc leap_year_def)
  have t: "validate_timestamp ''2026-05-17T10:00:00Z''"
    by (simp add: validate_timestamp_def timestamp_re_def iso_head_pat_def fits_def lit_def is_digit_def numeral_eq_Suc)
  from j t show ?thesis
    by (simp add: envelope_ok_def sample_row_def sample_uuid_ok validate_schema_version_def
        supported_schema_versions_def validate_payload_shape_def)
qed

lemma sample_env_open: "require_api_key (sv_settings sample_store_env) key" "sv_pyd sample_store_env = strict_pydantic"
  by (simp_all add: sample_store_env_def require_api_key_iff)

lemma first_post:
  "store_handle sample_store_env None (sample_uuid 0) sample_time (Post_event (envelope_json (sample_row 0 ''17'' RAMP_DEPLOYED))) init_db =
     (Ingested 201 (sample_uuid 0) True, init_db\<lparr>db_events := [sample_row 0 ''17'' RAMP_DEPLOYED]\<rparr>, Some (sample_row 0 ''17'' RAMP_DEPLOYED))"
proof -
  have "parse_envelope strict_pydantic (sample_uuid 0) sample_time (envelope_json (sample_row 0 ''17'' RAMP_DEPLOYED)) =
      Inr (sample_row 0 ''17'' RAMP_DEPLOYED)"
    using envelope_json_roundtrip strict_pydantic_ok sample_row_ok by blast
  then show ?thesis
    by (simp add: store_handle_def sample_env_open ingest_event_def insert_event_def init_db_def supported_schema_versions_def)
qed

lemma one_row_reachable:
  "reach store_start (store_next sample_store_env) (init_db\<lparr>db_events := [sample_row 0 ''17'' RAMP_DEPLOYED]\<rparr>)"
proof -
  have "store_next sample_store_env init_db (init_db\<lparr>db_events := [sample_row 0 ''17'' RAMP_DEPLOYED]\<rparr>)"
    using store_request [OF sample_uuid_ok first_post] strict_pydantic_ok by (simp add: store_next_def sample_env_open)
  then show ?thesis using reach_step reach_init store_start_def by metis
qed

theorem ingest_idempotent_witness:
  "store_handle sample_store_env None (sample_uuid 1) sample_time (Post_event (envelope_json (sample_row 0 ''17'' RAMP_DEPLOYED)))
     (init_db\<lparr>db_events := [sample_row 0 ''17'' RAMP_DEPLOYED]\<rparr>) =
   (Ingested 200 (sample_uuid 0) False, init_db\<lparr>db_events := [sample_row 0 ''17'' RAMP_DEPLOYED]\<rparr>, None)"
proof -
  have "envelope_ok (sv_pyd sample_store_env) (sample_row 0 ''17'' RAMP_DEPLOYED)"
    using sample_row_ok by (simp add: sample_env_open)
  from conjunct2 [OF conjunct2 [OF ingest_idempotent [OF _ sample_env_open(1) this first_post, of "sample_uuid 1" sample_time
      "init_db\<lparr>db_events := [sample_row 0 ''17'' RAMP_DEPLOYED]\<rparr>"]]] show ?thesis
    by (simp add: strict_pydantic_ok sample_env_open)
qed

text \<open>In every reachable state of the event-store no two rows share an event id or a natural key
  (journey, type, timestamp), every row has a supported schema version, and the journeys table is
  empty, because nothing ever fills it.\<close>

theorem store_reachable:
  assumes "reach store_start (store_next V) db"
  shows "distinct (map ev_id (db_events db)) \<and> distinct (map natural_key (db_events db)) \<and>
    (\<forall>e \<in> set (db_events db). ev_schema_version e \<in> set supported_schema_versions) \<and> db_journeys db = []"
  using stores.reach_inv [OF assms] by (simp add: store_inv_def store_ok_def)

theorem store_reachable_witness:
  "db_journeys (init_db\<lparr>db_events := [sample_row 0 ''17'' RAMP_DEPLOYED]\<rparr>) = []"
  using store_reachable [OF one_row_reachable] by blast

text \<open>Reading by journey never works: in every reachable state the pull of one journey's events
  and the journey route are answered 404 JOURNEY_NOT_FOUND, even for a journey with events stored.\<close>

theorem journey_reads_404:
  assumes "reach store_start (store_next V) db" "require_api_key (sv_settings V) key" "1 \<le> n" "n \<le> 500"
  shows "store_handle V key uuid now (Get_events (Some j) a n ts None) db = (Refused 404 ''JOURNEY_NOT_FOUND'', db, None) \<and>
    store_handle V key uuid now (Get_journey j) db = (Refused 404 ''JOURNEY_NOT_FOUND'', db, None)"
  using stores.reach_inv [OF assms(1)] assms(2-4)
  by (simp add: store_handle_def list_events_def get_events_page_def get_journey_meta_def get_journey_def store_inv_def
      dhas_def dkeys_def guard_def Let_def)

theorem journey_reads_404_witness:
  "fst (store_handle sample_store_env None (sample_uuid 1) sample_time (Get_events (Some ''T1_RJ42_20260517'') None 100 None None)
     (init_db\<lparr>db_events := [sample_row 0 ''17'' RAMP_DEPLOYED]\<rparr>)) = Refused 404 ''JOURNEY_NOT_FOUND''"
  using journey_reads_404 [OF one_row_reachable sample_env_open(1), of 100] by simp

section \<open>Pulling\<close>

text \<open>
  The contract of \<open>EventPage\<close> in \<open>models.py\<close>: a client passes a non-null
  \<open>next_cursor\<close> as the next \<open>after\<close>, until there is none.
\<close>

fun pull_route :: "store_env \<Rightarrow> store \<Rightarrow> nat \<Rightarrow> string option \<Rightarrow> nat \<Rightarrow> jdict list option" where
  "pull_route V db n after 0 = None"
| "pull_route V db n after (Suc k) =
     (case list_events (sv_hmac V) (sv_text V) (sv_settings V) db None after (int n) None None of
        Page data c j next \<Rightarrow>
          (case next of None \<Rightarrow> Some data
           | Some k' \<Rightarrow> map_option (\<lambda>rest. data @ rest) (pull_route V db n (Some k') k))
      | _ \<Rightarrow> None)"

lemma pull_route_suffix:
  assumes "store_ok db" "1 \<le> n" "n \<le> 500"
  shows "chron db = pre @ suf \<Longrightarrow> length suf < k * n \<Longrightarrow>
    pull_route V db n (cursor_after pre) k = Some (List.map_filter (released (sv_hmac V) (sv_text V) (egress_key (sv_settings V))) suf)"
proof (induction k arbitrary: pre suf)
  case 0
  then show ?case by simp
next
  case (Suc k)
  note p = list_events_after [OF assms(1) Suc.prems(1) assms(2,3)]
  let ?f = "List.map_filter (released (sv_hmac V) (sv_text V) (egress_key (sv_settings V)))"
  show ?case
  proof (cases "n \<le> length suf")
    case True
    let ?pre = "pre @ take n suf"
    have ne: "take n suf \<noteq> []" using True assms(2) by auto
    have "chron db = ?pre @ drop n suf" using Suc.prems(1) by simp
    moreover have "length (drop n suf) < k * n" using Suc.prems(2) True by simp
    ultimately have "pull_route V db n (cursor_after ?pre) k = Some (?f (drop n suf))" by (rule Suc.IH)
    moreover have "cursor_after ?pre = Some (ev_id (last (take n suf)))"
      using ne by (simp add: cursor_after_def)
    moreover have "?f (take n suf) @ ?f (drop n suf) = ?f suf"
      by (metis append_take_drop_id map_filter_split)
    ultimately show ?thesis unfolding pull_route.simps p using True by simp
  next
    case False
    with p show ?thesis by simp
  qed
qed

text \<open>C28: A client that follows next_cursor reads everything once: for any page size the route
  accepts, with one round more than the full pages, it gets exactly the released copies of all
  stored events, in the order of (timestamp, event id), each once; a page whose last rows, or all
  rows, are withheld does not stop it.\<close>

theorem pull_complete:
  assumes "store_ok db" "1 \<le> n" "n \<le> 500" "length (db_events db) < k * n"
  shows "pull_route V db n None k =
      Some (List.map_filter (released (sv_hmac V) (sv_text V) (egress_key (sv_settings V))) (chron db)) \<and>
    distinct (chron db) \<and> set (chron db) = set (db_events db) \<and> sorted_wrt (\<lambda>a b. row_key a < row_key b) (chron db)"
proof -
  have "distinct (chron db)" using assms(1) by (simp add: store_ok_def chron_def distinct_map)
  then show ?thesis
    using pull_route_suffix [OF assms(1-3), of "[]" "chron db" k V] chron_sorted [OF assms(1)] assms(4)
    by (simp add: cursor_after_def)
qed

definition two_rows :: store where
  "two_rows = init_db\<lparr>db_events := [sample_row 1 ''18'' RAMP_DEPLOYED, sample_row 0 ''17'' ACCESSIBILITY_DETECTED]\<rparr>"

lemma two_rows_ok: "store_ok two_rows"
  by (simp add: store_ok_def two_rows_def natural_key_def sample_uuid_def supported_schema_versions_def)

theorem pull_complete_witness:
  "pull_route sample_store_env two_rows 1 None 3 =
     Some (List.map_filter (released (\<lambda>k m. m) (\<lambda>j. []) ''k'') [sample_row 0 ''17'' ACCESSIBILITY_DETECTED, sample_row 1 ''18'' RAMP_DEPLOYED])"
proof -
  have "chron two_rows = [sample_row 0 ''17'' ACCESSIBILITY_DETECTED, sample_row 1 ''18'' RAMP_DEPLOYED]"
    by (simp add: chron_def two_rows_def row_key_def)
  moreover have "length (db_events two_rows) < 3 * 1" by (simp add: two_rows_def)
  ultimately show ?thesis
    using conjunct1 [OF pull_complete [OF two_rows_ok, of 1 3 sample_store_env]]
    by (simp add: sample_store_env_def egress_key_def load_settings_def coerce_empty_to_none_def keep_or_def)
qed

text \<open>A late event is never pulled: an event stored after a pull that already passed its
  timestamp is in no page for that cursor or any later one, whatever the filters, although it is
  in the table.\<close>

theorem late_event_never_pulled:
  assumes "store_ok db" "insert_event db e = (Inr True, db')" "find_event db k = Some c" "k \<noteq> []"
    and "row_key e < row_key c" "find_event db' k' = Some c'" "k' \<noteq> []" "row_key c \<le> row_key c'"
    and "get_events_page db' j (Some k') n ts s = Inr rows"
  shows "e \<in> set (db_events db') \<and> e \<notin> set rows"
proof -
  have "e \<notin> set rows"
    using page_behind_cursor [OF assms(9,6,7), of e] assms(5,8) by fastforce
  with assms(2) show ?thesis by (auto simp: insert_event_def split: if_splits)
qed

theorem late_event_never_pulled_witness:
  "sample_row 0 ''17'' RAMP_DEPLOYED \<notin> set (projr (get_events_page
      (init_db\<lparr>db_events := [sample_row 1 ''18'' RAMP_DEPLOYED, sample_row 0 ''17'' RAMP_DEPLOYED]\<rparr>)
      None (Some (sample_uuid 1)) None None None))"
proof -
  let ?c = "sample_row 1 ''18'' RAMP_DEPLOYED" and ?e = "sample_row 0 ''17'' RAMP_DEPLOYED"
  let ?db = "init_db\<lparr>db_events := [?c]\<rparr>" and ?db' = "init_db\<lparr>db_events := [?c, ?e]\<rparr>"
  have ok: "store_ok ?db" by (simp add: store_ok_def sample_uuid_def supported_schema_versions_def)
  have i: "insert_event ?db ?e = (Inr True, ?db')"
    by (simp add: insert_event_def clashes_def natural_key_def supported_schema_versions_def sample_uuid_def)
  have f: "find_event ?db (sample_uuid 1) = Some ?c" "find_event ?db' (sample_uuid 1) = Some ?c"
    by (simp_all add: find_event_def)
  have ne: "sample_uuid 1 \<noteq> []" by (simp add: sample_uuid_def)
  have lt: "row_key ?e < row_key ?c" by (simp add: row_key_def)
  obtain rows where r: "get_events_page ?db' None (Some (sample_uuid 1)) None None None = Inr rows"
    using f(2) ne by (auto simp: get_events_page_def build_filter_clauses_def cursor_clause_def severity_clause_def truthy_def guard_def)
  from late_event_never_pulled [OF ok i f(1) ne lt f(2) ne order_refl r] r show ?thesis by simp
qed

section \<open>Acknowledging\<close>

text \<open>What an acknowledgement does, on every branch: an id that is not in the table is refused
  with 400 and changes nothing; the cursor's own id again changes nothing; any other id becomes the
  cursor, even one behind the old, and every event outside the three journeys with the newest
  events is deleted, whether it was acknowledged or not; the number returned counts deleted events.\<close>

theorem ack_effect:
  assumes "advance_sync_cursor_endpoint t k db = (r, db')"
  shows "(find_event db k = None \<longrightarrow> (r, db') = (Refused 400 ''INVALID_CURSOR'', db)) \<and>
    (find_event db k \<noteq> None \<and> get_sync_cursor db = k \<longrightarrow> (r, db') = (Cursor_moved k 0, db)) \<and>
    (find_event db k \<noteq> None \<and> get_sync_cursor db \<noteq> k \<longrightarrow>
      (\<exists>K. distinct K \<and> length K \<le> 3 \<and> set K \<subseteq> ev_journey_id ` set (db_events db) \<and>
        (\<forall>e \<in> set (db_events db). ev_journey_id e \<notin> set K \<longrightarrow> length K = 3 \<and>
           (\<forall>j \<in> set K. newest (db_events db) (ev_journey_id e) \<le> newest (db_events db) j)) \<and>
        db_cursor db' = Some k \<and> db_events db' = filter (\<lambda>e. ev_journey_id e \<in> set K) (db_events db) \<and>
        r = Cursor_moved k (length (db_events db) - length (db_events db'))))"
proof (cases "find_event db k \<noteq> None \<and> get_sync_cursor db \<noteq> k")
  case False
  with assms show ?thesis by (auto simp: advance_sync_cursor_endpoint_def split: if_splits)
next
  case True
  let ?R = "ranked_journeys (db_events db)" and ?K = "take 3 (ranked_journeys (db_events db))"
  have "set ?K \<subseteq> ev_journey_id ` set (db_events db)"
    using set_take_subset [of 3 ?R] by simp
  moreover have "length ?K = 3 \<and> (\<forall>j \<in> set ?K. newest (db_events db) (ev_journey_id e) \<le> newest (db_events db) j)"
    if e: "e \<in> set (db_events db)" "ev_journey_id e \<notin> set ?K" for e
  proof -
    have "ev_journey_id e \<in> set ?R" using e(1) by simp
    then have d: "ev_journey_id e \<in> set (drop 3 ?R)" using e(2) by (metis Un_iff append_take_drop_id set_append)
    then have "length ?K = 3" by (cases "length ?R \<le> 3") simp_all
    moreover have "sorted_wrt (\<lambda>a b. newest (db_events db) b \<le> newest (db_events db) a) (?K @ drop 3 ?R)"
      using ranked_sorted by simp
    ultimately show ?thesis using d unfolding sorted_wrt_append by blast
  qed
  moreover have "(r, db') = (case truncate_old_journeys (advance_cursor db k t) retained_journeys of (n, db') \<Rightarrow> (Cursor_moved k n, db'))"
    using assms True by (simp add: advance_sync_cursor_endpoint_def)
  then have "db_cursor db' = Some k" "db_events db' = filter (\<lambda>e. ev_journey_id e \<in> set ?K) (db_events db)"
    "r = Cursor_moved k (length (db_events db) - length (db_events db'))"
    by (simp_all add: truncate_old_journeys_def advance_cursor_def retained_journeys_def Let_def)
  moreover have "distinct ?K" "length ?K \<le> 3" using ranked_distinct by simp_all
  ultimately show ?thesis using True by blast
qed

text \<open>Four journeys on four days; the first is acknowledged.\<close>

definition four_days :: store where
  "four_days = init_db\<lparr>db_events := [(sample_row 0 ''17'' RAMP_DEPLOYED), (sample_row 1 ''18'' RAMP_DEPLOYED)\<lparr>ev_id := ''b''\<rparr>,
     (sample_row 1 ''19'' RAMP_DEPLOYED)\<lparr>ev_id := ''c''\<rparr>, (sample_row 1 ''20'' RAMP_DEPLOYED)]\<rparr>"

theorem ack_effect_witness:
  "\<exists>K. length K \<le> 3 \<and> db_events (snd (advance_sync_cursor_endpoint [] (sample_uuid 0) four_days)) =
     filter (\<lambda>e. ev_journey_id e \<in> set K) (db_events four_days)"
proof -
  obtain r db' where a: "advance_sync_cursor_endpoint [] (sample_uuid 0) four_days = (r, db')" by fastforce
  have "find_event four_days (sample_uuid 0) \<noteq> None \<and> get_sync_cursor four_days \<noteq> sample_uuid 0"
    by (simp add: find_event_def four_days_def get_sync_cursor_def keep_or_def init_db_def) (simp add: sample_uuid_def)
  with conjunct2 [OF conjunct2 [OF ack_effect [OF a]]] a show ?thesis by auto
qed

lemma four_days_ok: "store_ok four_days"
  by (simp add: store_ok_def four_days_def natural_key_def supported_schema_versions_def) (simp add: sample_uuid_def)

lemma four_days_newest:
  "newest (db_events four_days) ''T1_RJ42_20260517'' = ''2026-05-17T10:00:00Z''"
  "newest (db_events four_days) ''T1_RJ42_20260518'' = ''2026-05-18T10:00:00Z''"
  "newest (db_events four_days) ''T1_RJ42_20260519'' = ''2026-05-19T10:00:00Z''"
  "newest (db_events four_days) ''T1_RJ42_20260520'' = ''2026-05-20T10:00:00Z''"
  by (simp_all add: newest_def four_days_def)

lemma four_days_later:
  "{''T1_RJ42_20260518'', ''T1_RJ42_20260519'', ''T1_RJ42_20260520''} \<subseteq> ev_journey_id ` set (db_events four_days)"
  "3 \<le> card {''T1_RJ42_20260518'', ''T1_RJ42_20260519'', ''T1_RJ42_20260520''}"
  "\<forall>j \<in> {''T1_RJ42_20260518'', ''T1_RJ42_20260519'', ''T1_RJ42_20260520''}.
     newest (db_events four_days) (ev_journey_id (sample_row 0 ''17'' RAMP_DEPLOYED)) < newest (db_events four_days) j"
  using four_days_newest by (simp_all add: four_days_def)

text \<open>Idempotence ends where truncation begins: an event an acknowledgement deleted is taken as
  new when its producer sends it again, answered 201 and broadcast a second time.\<close>

theorem deleted_event_is_new:
  assumes "store_ok db" "e \<in> set (db_events db)" "advance_sync_cursor_endpoint t k db = (r, db1)" "e \<notin> set (db_events db1)"
    and "pyd_ok (sv_pyd V)" "require_api_key (sv_settings V) key" "envelope_ok (sv_pyd V) e"
  shows "store_handle V key uuid now (Post_event (envelope_json e)) db1 =
    (Ingested 201 (ev_id e) True, db1\<lparr>db_events := db_events db1 @ [e]\<rparr>, Some e)"
proof -
  have p: "parse_envelope (sv_pyd V) uuid now (envelope_json e) = Inr e"
    using envelope_json_roundtrip assms(5,7) by blast
  have ver: "ev_schema_version e \<in> set supported_schema_versions"
    using assms(7) by (simp add: envelope_ok_def validate_schema_version_def)
  have "set (db_events db1) \<subseteq> set (db_events db)" using advance_endpoint_store [OF assms(3,1)] by blast
  then have "\<not> list_ex (clashes e) (db_events db1)"
    using assms(1,2,4) by (auto simp: list_ex_iff clashes_def store_ok_def distinct_map dest: inj_onD)
  with p ver assms(6) show ?thesis by (simp add: store_handle_def ingest_event_def insert_event_def)
qed

theorem deleted_event_is_new_witness:
  "fst (store_handle sample_store_env None (sample_uuid 1) sample_time (Post_event (envelope_json (sample_row 0 ''17'' RAMP_DEPLOYED)))
     (snd (advance_sync_cursor_endpoint [] (sample_uuid 1) four_days))) = Ingested 201 (sample_uuid 0) True"
proof -
  let ?e = "sample_row 0 ''17'' RAMP_DEPLOYED"
  obtain r db1 where a: "advance_sync_cursor_endpoint [] (sample_uuid 1) four_days = (r, db1)" by fastforce
  have f: "find_event four_days (sample_uuid 1) \<noteq> None" "get_sync_cursor four_days \<noteq> sample_uuid 1"
    by (simp_all add: find_event_def four_days_def get_sync_cursor_def keep_or_def init_db_def) (simp_all add: sample_uuid_def)
  let ?a = "advance_cursor four_days (sample_uuid 1) []"
  have ev: "db_events ?a = db_events four_days" by (simp add: advance_cursor_def)
  have "?e \<notin> set (db_events (snd (truncate_old_journeys ?a 3)))"
    using truncate_deletes [of _ ?a 3 ?e, unfolded ev, OF four_days_later(1,2)] four_days_later(3) by blast
  moreover have "db1 = snd (truncate_old_journeys ?a 3)"
    using a f by (auto simp: advance_sync_cursor_endpoint_def retained_journeys_def split: prod.splits)
  ultimately have g: "?e \<notin> set (db_events db1)" by simp
  have e: "?e \<in> set (db_events four_days)" by (simp add: four_days_def)
  have o: "envelope_ok (sv_pyd sample_store_env) ?e" using sample_row_ok by (simp add: sample_env_open)
  from deleted_event_is_new [OF four_days_ok e a g _ sample_env_open(1) o] a show ?thesis
    by (simp add: strict_pydantic_ok sample_env_open)
qed

section \<open>The live stream\<close>

lemma count_list_pos: "k \<in> set xs \<Longrightarrow> 1 \<le> count_list xs k"
  by (induction xs) auto

lemma count_list_once: "once A xs \<Longrightarrow> k \<notin> A \<Longrightarrow> count_list xs k \<le> 1"
proof (induction xs)
  case (Cons x xs)
  have "count_list xs k = 0" if "k \<notin> set xs" using that by (induction xs) auto
  with Cons show ?case by auto
qed simp

text \<open>C3: Live delivery is exactly once, with one exception. Through any interleaving of requests,
  connections, replay and writers a connection is sent nothing it did not ask for, its queue stays
  within 256, and once its queue is drained without a drop it has been sent every matching event in
  the table that was stored after it was registered. No event id is sent to it twice, unless a producer
  has posted the id again after truncation deleted it: such an event is new to the store, which
  broadcasts it a second time (\<open>deleted_event_is_new\<close>). The field types are read as
  pydantic documents it (\<open>pyd_ok\<close>, \<open>str_only\<close>).\<close>

theorem live_exactly_once:
  assumes "reach server_start (server_next V jt) s" "dget (srv_hub s) i = Some c"
  shows "(\<forall>k. k \<notin> srv_again s \<longrightarrow> count_list (sent_ids (sv_text V) c) k \<le> 1) \<and> (\<forall>d \<in> set (event_frames c). frame_matches (sv_text V) (conn_sub c) d) \<and>
    length (sb_queue (cn_subscriber c)) \<le> queue_max \<and>
    (cn_phase c = Live \<and> sb_queue (cn_subscriber c) = [] \<and> sb_dropped (cn_subscriber c) = 0 \<longrightarrow>
      (\<forall>e \<in> set (db_events (srv_db s)). frame_matches (sv_text V) (conn_sub c) (envelope_json e) \<and> ev_id e \<notin> cn_known c \<longrightarrow>
         1 \<le> count_list (sent_ids (sv_text V) c) (ev_id e) \<and>
         (ev_id e \<notin> srv_again s \<longrightarrow> count_list (sent_ids (sv_text V) c) (ev_id e) = 1)))"
proof -
  have ok: "conn_ok (sv_text V) (srv_db s) (srv_gone s) (srv_again s) c"
    using live.reach_inv [OF assms(1)] assms(2) by (simp add: server_inv_def)
  then have "once (srv_again s) (sent_ids (sv_text V) c)" by (simp add: conn_ok_def conn_ids_ok_def ids_ok_def)
  note le = count_list_once [OF this] and pos = count_list_pos [of _ "sent_ids (sv_text V) c"]
  have "count_list (sent_ids (sv_text V) c) k = 1" if "k \<in> set (sent_ids (sv_text V) c)" "k \<notin> srv_again s" for k
    using le pos that by (simp add: le_antisym)
  with ok le pos show ?thesis by (auto simp: conn_ok_def frames_match_def nothing_lost_def queued_ids_def)
qed

definition sample_filter :: jdict where
  "sample_filter = [(''event_types'', JList [JStr ''RAMP_DEPLOYED''])]"

definition sample_sub :: subscription where
  "sample_sub = \<lparr>sub_event_types = [''RAMP_DEPLOYED''], sub_min_severity = ''info'', sub_coach_ids = None, sub_replay_depth = 50\<rparr>"

lemma sample_filter_parses: "parse_subscription tx sample_filter = Inr sample_sub"
  by (simp add: parse_subscription_def sample_filter_def sample_sub_def dget_or_def guard_def)

definition sample_conn :: "phase \<Rightarrow> jdict list \<Rightarrow> frame list \<Rightarrow> connection" where
  "sample_conn p q fs = \<lparr>cn_subscriber = (new_subscriber sample_sub)\<lparr>sb_queue := q\<rparr>, cn_phase = p, cn_data = sample_filter,
     cn_frames = fs, cn_known = {}\<rparr>"

definition sample_server :: "store \<Rightarrow> connection \<Rightarrow> server" where
  "sample_server db c = \<lparr>srv_db = db, srv_hub = [(0, c)], srv_gone = {}, srv_again = {}\<rparr>"

lemma drained_reachable:
  fixes jt
  defines "e \<equiv> sample_row 0 ''17'' RAMP_DEPLOYED"
  shows "reach server_start (server_next sample_store_env jt) (sample_server (init_db\<lparr>db_events := [e]\<rparr>)
    (sample_conn Live [] [ack_frame sample_filter, Event_frame (envelope_json e)]))"
proof -
  let ?V = sample_store_env and ?tx = "sv_text sample_store_env" and ?ack = "ack_frame sample_filter"
  let ?R = "reach server_start (server_next ?V jt)"
  have go: "?R t" if "?R s" "server_step ?V jt s t" for s t
    by (rule reach_step [OF that(1)]) (use that(2) in \<open>simp add: server_next_def sample_env_open strict_pydantic_ok strict_str_only\<close>)
  have "connect ?tx init_db sample_filter = Inr (sample_conn Registered [] [])"
    by (simp add: connect_def sample_filter_parses sample_conn_def stored_ids_def init_db_def new_subscriber_def)
  then have s0: "server_step ?V jt \<lparr>srv_db = init_db, srv_hub = [], srv_gone = {}, srv_again = {}\<rparr> (sample_server init_db (sample_conn Registered [] []))"
    using connects [of ?V "\<lparr>srv_db = init_db, srv_hub = [], srv_gone = {}, srv_again = {}\<rparr>" sample_filter _ 0 jt]
    by (simp add: sample_server_def add_connection_def dset_def)
  have 1: "?R (sample_server init_db (sample_conn Registered [] []))"
    by (rule go [OF reach_init s0]) (simp add: server_start_def)
  have "replay_rows jt init_db sample_sub = Inr []"
    using replay_rows_eq [of sample_sub strict_pydantic init_db jt ?tx] parse_subscription_ok [OF sample_filter_parses]
    by (simp add: strict_str_only init_db_def chron_def matching_def last_n_def)
  then have 2: "?R (sample_server init_db (sample_conn (Replaying []) [] []))"
    using go [OF 1 reads [of _ 0 "sample_conn Registered [] []" jt "sample_conn (Replaying []) [] []"]]
    by (simp add: sample_server_def dset_def begin_replay_def) (simp add: sample_conn_def new_subscriber_def)
  have 3: "?R (sample_server init_db (sample_conn Live [] [?ack]))"
    using go [OF 2 replays [of _ 0 "sample_conn (Replaying []) [] []" ?V "sample_conn Live [] [?ack]"]]
    by (simp add: sample_server_def dset_def replay_step_def) (simp add: sample_conn_def)
  have "frame_matches ?tx sample_sub (envelope_json e)"
    by (simp add: frame_matches_def sub_matches_def matches_event_type_def sample_sub_def e_def matches_severity_def
        matches_coach_def severity_order_def dget_or_def)
  then have "after_request ?V (sample_server init_db (sample_conn Live [] [?ack])) (init_db\<lparr>db_events := [e]\<rparr>) (Some e) =
      sample_server (init_db\<lparr>db_events := [e]\<rparr>) (sample_conn Live [envelope_json e] [?ack])"
    by (simp add: after_request_def sample_server_def fan_out_def broadcast_def offer_def sample_conn_def new_subscriber_def
        queue_max_def stored_ids_def init_db_def)
  then have 4: "?R (sample_server (init_db\<lparr>db_events := [e]\<rparr>) (sample_conn Live [envelope_json e] [?ack]))"
    using go [OF 3 request [OF sample_uuid_ok, of ?V None 0 sample_time "Post_event (envelope_json e)"]] first_post
    by (simp add: sample_server_def e_def)
  show ?thesis
    using go [OF 4 writes [of _ 0 "sample_conn Live [envelope_json e] [?ack]" ?V
        "sample_conn Live [] [?ack, Event_frame (envelope_json e)]"]]
    by (simp add: sample_server_def dset_def writer_step_def sample_conn_def new_subscriber_def)
qed

theorem live_exactly_once_witness:
  "count_list (sent_ids (sv_text sample_store_env) (sample_conn Live []
     [ack_frame sample_filter, Event_frame (envelope_json (sample_row 0 ''17'' RAMP_DEPLOYED))])) (sample_uuid 0) = 1"
proof -
  let ?e = "sample_row 0 ''17'' RAMP_DEPLOYED" and ?tx = "sv_text sample_store_env"
  let ?c = "sample_conn Live [] [ack_frame sample_filter, Event_frame (envelope_json ?e)]"
  have "dget (srv_hub (sample_server (init_db\<lparr>db_events := [?e]\<rparr>) ?c)) 0 = Some ?c" by (simp add: sample_server_def)
  note l = live_exactly_once [OF drained_reachable this]
  have m: "frame_matches ?tx (conn_sub ?c) (envelope_json ?e)"
    by (simp add: frame_matches_def sub_matches_def matches_event_type_def sample_conn_def new_subscriber_def sample_sub_def
        matches_severity_def matches_coach_def severity_order_def dget_or_def)
  have s: "cn_phase ?c = Live" "sb_queue (cn_subscriber ?c) = []" "sb_dropped (cn_subscriber ?c) = 0" "cn_known ?c = {}"
    "db_events (srv_db (sample_server (init_db\<lparr>db_events := [?e]\<rparr>) ?c)) = [?e]"
    "srv_again (sample_server (init_db\<lparr>db_events := [?e]\<rparr>) ?c) = {}"
    by (simp_all add: sample_conn_def new_subscriber_def sample_server_def)
  from l [unfolded s] m show ?thesis by simp
qed

text \<open>C39: Replay filters as the live path does: for every parsed subscription and a table of valid
  envelopes, the SQL query returns exactly the last N of the events the live filter would pass, in
  chronological order, N the requested depth but at most 1000 and at least 0.\<close>

theorem replay_agrees:
  assumes "parse_subscription tx data = Inr sub" "str_only pd" "\<forall>e \<in> set (db_events db). envelope_ok pd e"
  shows "replay_rows jt db sub =
    Inr (last_n (nat (min (sub_replay_depth sub) 1000)) (filter (\<lambda>e. frame_matches tx sub (envelope_json e)) (chron db)))"
  using replay_rows_eq [OF parse_subscription_ok [OF assms(1)] assms(2,3), of jt tx]
  by (simp add: replay_depth_def replay_cap_hard_def matching_def)

theorem replay_agrees_witness:
  "replay_rows (\<lambda>j. []) (init_db\<lparr>db_events := [sample_row 0 ''17'' RAMP_DEPLOYED, sample_row 1 ''17'' ALARM_ACTIVE]\<rparr>) sample_sub =
     Inr [sample_row 0 ''17'' RAMP_DEPLOYED]"
proof -
  let ?db = "init_db\<lparr>db_events := [sample_row 0 ''17'' RAMP_DEPLOYED, sample_row 1 ''17'' ALARM_ACTIVE]\<rparr>"
  have ok: "\<forall>e \<in> set (db_events ?db). envelope_ok strict_pydantic e" using sample_row_ok by simp
  have c: "chron ?db = [sample_row 0 ''17'' RAMP_DEPLOYED, sample_row 1 ''17'' ALARM_ACTIVE]"
    by (simp add: chron_def row_key_def sample_uuid_def)
  have m: "frame_matches (\<lambda>j. []) sample_sub (envelope_json (sample_row 0 ''17'' RAMP_DEPLOYED))"
    "\<not> frame_matches (\<lambda>j. []) sample_sub (envelope_json (sample_row 1 ''17'' ALARM_ACTIVE))"
    by (simp_all add: frame_matches_def sub_matches_def matches_event_type_def sample_sub_def
        matches_severity_def matches_coach_def severity_order_def dget_or_def)
  have n: "sub_replay_depth sample_sub = 50" by (simp add: sample_sub_def)
  show ?thesis
    unfolding replay_agrees [OF sample_filter_parses [of "\<lambda>j. []"] strict_str_only ok, of "\<lambda>j. []"] c n using m
    by (simp add: last_n_def)
qed

end
