(* ===== verification/Sync_Queue.thy ===== *)
theory Sync_Queue
  imports Event_Anonymise "HOL-Library.Char_ord" "HOL-Library.List_Lexorder" "HOL-Library.Product_Lexorder"
begin

text \<open>
  The outbox of cloud-sync, \<open>cloud-sync/src/cloud_sync/db.py\<close> and its \<open>schema.sql\<close>: the
  table \<open>publish_queue\<close> and the one row of \<open>cursor_state\<close>. \<open>dumps\<close> stands for
  \<open>json.dumps(envelope, sort_keys=True)\<close>, a clock reading is an argument. The four indexed
  columns of an envelope are strings, as in every page of the event-store; SQLite's conversions
  of other values (a number becomes text, a null skips the row) are outside the model, where such
  an envelope is an error of the insertion.
\<close>

section \<open>Tables\<close>

record queue_row =
  qr_event_id :: string
  qr_vehicle_id :: string
  qr_event_type :: string
  qr_timestamp :: string
  qr_envelope_json :: string
  qr_published_at :: "string option"
  qr_attempts :: nat
  qr_last_error :: "string option"

record sync_db =
  sd_rows :: "queue_row list"
  sd_pulled :: "string option"
  sd_acked :: "string option"
  sd_updated_at :: "string option"

definition init_sync_db :: sync_db where
  "init_sync_db = \<lparr>sd_rows = [], sd_pulled = None, sd_acked = None, sd_updated_at = None\<rparr>"

definition qr_key :: "queue_row \<Rightarrow> string \<times> string" where
  "qr_key r = (qr_timestamp r, qr_event_id r)"

definition is_published :: "queue_row \<Rightarrow> bool" where
  "is_published r = (qr_published_at r \<noteq> None)"

section \<open>Operations\<close>

definition str_column :: "jdict \<Rightarrow> string \<Rightarrow> string res" where
  "str_column env k =
     (case dget env k of None \<Rightarrow> Inl KeyError | Some (JStr s) \<Rightarrow> Inr s | Some _ \<Rightarrow> Inl TypeError)"

definition row_of_envelope :: "(jdict \<Rightarrow> string) \<Rightarrow> jdict \<Rightarrow> queue_row res" where
  "row_of_envelope dumps env =
     bind_res (str_column env ''event_id'') (\<lambda>i.
     bind_res (str_column env ''vehicle_id'') (\<lambda>v.
     bind_res (str_column env ''event_type'') (\<lambda>t.
     bind_res (str_column env ''timestamp'') (\<lambda>ts.
       Inr \<lparr>qr_event_id = i, qr_vehicle_id = v, qr_event_type = t, qr_timestamp = ts, qr_envelope_json = dumps env,
            qr_published_at = None, qr_attempts = 0, qr_last_error = None\<rparr>))))"

text \<open>\<open>INSERT OR IGNORE\<close> on the primary key.\<close>

definition enqueue_event :: "(jdict \<Rightarrow> string) \<Rightarrow> sync_db \<Rightarrow> jdict \<Rightarrow> bool res \<times> sync_db" where
  "enqueue_event dumps db env =
     (case row_of_envelope dumps env of
        Inl e \<Rightarrow> (Inl e, db)
      | Inr r \<Rightarrow>
          if qr_event_id r \<in> qr_event_id ` set (sd_rows db) then (Inr False, db)
          else (Inr True, db\<lparr>sd_rows := sd_rows db @ [r]\<rparr>))"

definition pending_rows :: "sync_db \<Rightarrow> queue_row list" where
  "pending_rows db = sort_key qr_key (filter (\<lambda>r. \<not> is_published r) (sd_rows db))"

definition published_rows :: "sync_db \<Rightarrow> queue_row list" where
  "published_rows db = sort_key qr_key (filter is_published (sd_rows db))"

definition iter_pending :: "sync_db \<Rightarrow> nat \<Rightarrow> queue_row list" where
  "iter_pending db limit = take limit (pending_rows db)"

definition update_rows :: "sync_db \<Rightarrow> string \<Rightarrow> (queue_row \<Rightarrow> queue_row) \<Rightarrow> sync_db" where
  "update_rows db k f = db\<lparr>sd_rows := map (\<lambda>r. if qr_event_id r = k then f r else r) (sd_rows db)\<rparr>"

definition mark_published :: "string \<Rightarrow> sync_db \<Rightarrow> string \<Rightarrow> sync_db" where
  "mark_published now db k = update_rows db k (\<lambda>r. r\<lparr>qr_published_at := Some now\<rparr>)"

definition mark_failed :: "sync_db \<Rightarrow> string \<Rightarrow> string \<Rightarrow> sync_db" where
  "mark_failed db k error =
     update_rows db k (\<lambda>r. r\<lparr>qr_attempts := Suc (qr_attempts r), qr_last_error := Some error\<rparr>)"

definition queue_depth :: "sync_db \<Rightarrow> nat" where
  "queue_depth db = length (filter (\<lambda>r. \<not> is_published r) (sd_rows db))"

definition last_publish_utc :: "sync_db \<Rightarrow> string option" where
  "last_publish_utc db =
     (case List.map_filter qr_published_at (sd_rows db) of [] \<Rightarrow> None | t # ts \<Rightarrow> Some (Max (set (t # ts))))"

definition cursor_state_get :: "sync_db \<Rightarrow> string option \<times> string option" where
  "cursor_state_get db = (sd_pulled db, sd_acked db)"

definition cursor_state_set_pulled :: "string \<Rightarrow> sync_db \<Rightarrow> string \<Rightarrow> sync_db" where
  "cursor_state_set_pulled now db k = db\<lparr>sd_pulled := Some k, sd_updated_at := Some now\<rparr>"

definition cursor_state_set_acked :: "string \<Rightarrow> sync_db \<Rightarrow> string \<Rightarrow> sync_db" where
  "cursor_state_set_acked now db k = db\<lparr>sd_acked := Some k, sd_updated_at := Some now\<rparr>"

text \<open>The two queries: the first pending row, then the last published row before it.\<close>

definition last_id :: "queue_row list \<Rightarrow> string option" where
  "last_id rs = (if rs = [] then None else Some (qr_event_id (last rs)))"

definition contiguous_published_prefix :: "sync_db \<Rightarrow> string option" where
  "contiguous_published_prefix db =
     (case pending_rows db of
        [] \<Rightarrow> last_id (published_rows db)
      | gap # _ \<Rightarrow> last_id (filter (\<lambda>r. qr_key r < qr_key gap) (published_rows db)))"

definition find_row :: "sync_db \<Rightarrow> string \<Rightarrow> queue_row option" where
  "find_row db k = List.find (\<lambda>r. qr_event_id r = k) (sd_rows db)"

definition delete_acked :: "sync_db \<Rightarrow> string \<Rightarrow> nat \<times> sync_db" where
  "delete_acked db k =
     (case find_row db k of
        None \<Rightarrow> (0, db)
      | Some ref \<Rightarrow>
          (let rs = filter (\<lambda>r. \<not> (is_published r \<and> qr_key r \<le> (qr_timestamp ref, k))) (sd_rows db)
           in (length (sd_rows db) - length rs, db\<lparr>sd_rows := rs\<rparr>)))"

section \<open>Facts\<close>

definition queue_ok :: "sync_db \<Rightarrow> bool" where
  "queue_ok db = distinct (map qr_event_id (sd_rows db))"

lemma queue_ok_init: "queue_ok init_sync_db"
  by (simp add: queue_ok_def init_sync_db_def)

lemma enqueue_ok: "queue_ok db \<Longrightarrow> queue_ok (snd (enqueue_event dumps db env))"
  by (auto simp: queue_ok_def enqueue_event_def split: sum.splits)

lemma update_ids:
  assumes "\<And>r. qr_event_id (f r) = qr_event_id r"
  shows "map qr_event_id (sd_rows (update_rows db k f)) = map qr_event_id (sd_rows db)"
  using assms by (simp add: update_rows_def)

lemma mark_ok: "queue_ok (mark_published t db k) = queue_ok db" "queue_ok (mark_failed db k e) = queue_ok db"
  unfolding queue_ok_def mark_published_def mark_failed_def by (simp_all add: update_ids)

lemma delete_ok: "queue_ok db \<Longrightarrow> queue_ok (snd (delete_acked db k))"
  by (auto simp: queue_ok_def delete_acked_def Let_def distinct_map inj_on_def split: option.split)

lemma key_inj: "queue_ok db \<Longrightarrow> inj_on qr_key (set (sd_rows db))"
  by (auto simp: queue_ok_def qr_key_def distinct_map inj_on_def)

lemma find_row_of:
  assumes "queue_ok db" "r \<in> set (sd_rows db)"
  shows "find_row db (qr_event_id r) = Some r"
proof -
  obtain q where q: "find_row db (qr_event_id r) = Some q"
    using assms(2) by (cases "find_row db (qr_event_id r)") (auto simp: find_row_def find_None_iff)
  then have "q \<in> set (sd_rows db)" "qr_event_id q = qr_event_id r"
    by (auto simp: find_row_def find_Some_iff in_set_conv_nth)
  with q assms show ?thesis by (auto simp: queue_ok_def distinct_map inj_on_def)
qed

text \<open>The rows in publishing order, and the reference walk of the docstring.\<close>

definition queue_order :: "sync_db \<Rightarrow> queue_row list" where
  "queue_order db = sort_key qr_key (sd_rows db)"

lemma queue_order_sorted: "queue_ok db \<Longrightarrow> sorted_wrt (\<lambda>a b. qr_key a < qr_key b) (queue_order db)"
proof -
  assume ok: "queue_ok db"
  then have "distinct (map qr_key (queue_order db))"
    using key_inj [OF ok] by (simp add: queue_ok_def distinct_map queue_order_def)
  moreover have "sorted (map qr_key (queue_order db))" by (simp add: queue_order_def)
  ultimately show ?thesis by (simp add: strict_sorted_iff sorted_wrt_map [symmetric])
qed

lemma sort_filter: "sort_key f (filter P xs) = filter P (sort_key f xs)"
  by (simp add: filter_sort)

lemma filter_order: "pending_rows db = filter (\<lambda>r. \<not> is_published r) (queue_order db)"
  "published_rows db = filter is_published (queue_order db)"
  by (simp_all add: pending_rows_def published_rows_def queue_order_def sort_filter)

lemma sorted_before_gap:
  assumes "sorted_wrt (\<lambda>a b. f a < (f b :: 'b :: linorder)) rs" "filter (\<lambda>r. \<not> P r) rs = g # gs"
  shows "filter (\<lambda>r. P r \<and> f r < f g) rs = takeWhile P rs"
  using assms
proof (induction rs)
  case (Cons r rs)
  show ?case
  proof (cases "P r")
    case True
    with Cons.prems have "filter (\<lambda>r. \<not> P r) rs = g # gs" by simp
    moreover from this have "g \<in> set (filter (\<lambda>r. \<not> P r) rs)" by simp
    then have "g \<in> set rs" by simp
    ultimately show ?thesis using Cons True by simp
  next
    case False
    with Cons.prems have "r = g" by simp
    with Cons.prems False show ?thesis by (auto simp: filter_empty_conv)
  qed
qed simp

lemma prefix_walk:
  assumes "queue_ok db"
  shows "contiguous_published_prefix db = last_id (takeWhile is_published (queue_order db))"
proof (cases "pending_rows db")
  case Nil
  then have "\<forall>r \<in> set (queue_order db). is_published r" by (simp add: filter_order filter_empty_conv)
  with Nil show ?thesis by (simp add: contiguous_published_prefix_def filter_order(2) filter_id_conv takeWhile_eq_all_conv [THEN iffD2])
next
  case (Cons g gs)
  with sorted_before_gap [OF queue_order_sorted [OF assms], of is_published g gs]
  have "filter (\<lambda>r. qr_key r < qr_key g) (published_rows db) = takeWhile is_published (queue_order db)"
    by (simp add: filter_order conj_commute)
  with Cons show ?thesis by (simp add: contiguous_published_prefix_def)
qed

text \<open>Everything at or before the acknowledged row is published.\<close>

lemma prefix_published:
  assumes "queue_ok db" "contiguous_published_prefix db = Some k"
  obtains c where "find_row db k = Some c" "is_published c" "qr_event_id c = k"
    "\<And>r. r \<in> set (sd_rows db) \<Longrightarrow> qr_key r \<le> qr_key c \<Longrightarrow> is_published r"
proof -
  let ?rs = "queue_order db" and ?p = "takeWhile is_published (queue_order db)"
  from assms have p: "?p \<noteq> []" "k = qr_event_id (last ?p)"
    by (auto simp: prefix_walk last_id_def split: if_splits)
  let ?c = "last ?p"
  have c: "?c \<in> set ?p" using p(1) by simp
  then have in_db: "?c \<in> set (sd_rows db)" "is_published ?c"
    using set_takeWhileD by (metis queue_order_def set_sort, metis set_takeWhileD)
  have srt: "sorted_wrt (\<lambda>a b. qr_key a < qr_key b) (?p @ dropWhile is_published ?rs)"
    using queue_order_sorted [OF assms(1)] by simp
  have before: "is_published r" if r: "r \<in> set (sd_rows db)" "qr_key r \<le> qr_key ?c" for r
  proof (rule ccontr)
    assume u: "\<not> is_published r"
    have "r \<in> set ?p \<union> set (dropWhile is_published ?rs)"
      using r(1) unfolding set_append [symmetric] takeWhile_dropWhile_id by (simp add: queue_order_def)
    moreover have "r \<notin> set ?p" using u set_takeWhileD by metis
    ultimately have "r \<in> set (dropWhile is_published ?rs)" by blast
    with srt c have "qr_key ?c < qr_key r" unfolding sorted_wrt_append by blast
    with r(2) show False by simp
  qed
  show thesis
  proof (rule that [of ?c])
    show "find_row db k = Some ?c" using find_row_of [OF assms(1) in_db(1)] p(2) by simp
    show "is_published ?c" "qr_event_id ?c = k" using in_db(2) p(2) by simp_all
    show "is_published r" if "r \<in> set (sd_rows db)" "qr_key r \<le> qr_key ?c" for r
      using before that by blast
  qed
qed

lemma delete_keeps: "set (sd_rows (snd (delete_acked db k))) \<subseteq> set (sd_rows db)"
  "r \<in> set (sd_rows db) \<Longrightarrow> \<not> is_published r \<Longrightarrow> r \<in> set (sd_rows (snd (delete_acked db k)))"
  by (auto simp: delete_acked_def Let_def split: option.split)

end
