(* ===== verification/Sync_Publish.thy ===== *)
theory Sync_Publish
  imports Sync_Queue
begin

text \<open>
  The publisher of cloud-sync, \<open>cloud-sync/src/cloud_sync/mqtt_client.py\<close>: topics, the token
  bucket, the reconnect backoff, and one row published to a broker whose reply is an argument.
  Seconds and tokens are exact rationals.
\<close>

section \<open>Topics\<close>

definition is_alnum :: "char \<Rightarrow> bool" where
  "is_alnum c = (let n = of_char c :: nat in 48 \<le> n \<and> n \<le> 57 \<or> 65 \<le> n \<and> n \<le> 90 \<or> 97 \<le> n \<and> n \<le> 122)"

definition slug_with :: "char \<Rightarrow> string \<Rightarrow> string" where
  "slug_with extra s = map (\<lambda>c. if is_alnum c \<or> c = extra then c else CHR ''-'') s"

definition slugify_vehicle_id :: "string \<Rightarrow> string" where
  "slugify_vehicle_id v =
     (let s = slug_with CHR ''-'' v
      in if s = [] \<or> list_all (\<lambda>c. c = CHR ''-'') s then ''unknown'' else s)"

definition ascii_upper :: "string \<Rightarrow> string" where
  "ascii_upper = map (\<lambda>c. let n = of_char c :: nat in if 97 \<le> n \<and> n \<le> 122 then char_of (n - 32) else c)"

definition rstrip_slash :: "string \<Rightarrow> string" where
  "rstrip_slash s = rev (dropWhile (\<lambda>c. c = CHR ''/'') (rev s))"

definition build_topic :: "string \<Rightarrow> string \<Rightarrow> string \<Rightarrow> string" where
  "build_topic prefix vehicle et =
     rstrip_slash prefix @ ''/'' @ slugify_vehicle_id vehicle @ ''/'' @
     (if event_type_of et \<noteq> None then et else ascii_upper (slug_with CHR ''_'' et))"

section \<open>The token bucket\<close>

record token_bucket =
  tb_rate :: rat
  tb_tokens :: rat
  tb_last :: rat

definition new_bucket :: "int \<Rightarrow> rat \<Rightarrow> token_bucket res" where
  "new_bucket rate now =
     (if rate \<le> 0 then Inl ValueError
      else Inr \<lparr>tb_rate = of_int rate, tb_tokens = of_int rate, tb_last = now\<rparr>)"

text \<open>One turn of \<open>acquire\<close>: a token taken, or the seconds to sleep before the next turn.\<close>

definition try_acquire :: "rat \<Rightarrow> token_bucket \<Rightarrow> rat option \<times> token_bucket" where
  "try_acquire now b =
     (let t = min (tb_rate b) (tb_tokens b + (now - tb_last b) * tb_rate b);
          b1 = b\<lparr>tb_tokens := t, tb_last := now\<rparr>
      in if 1 \<le> t then (None, b1\<lparr>tb_tokens := t - 1\<rparr>)
         else (Some ((1 - t) / tb_rate b), b1))"

text \<open>The turns of any number of callers, at the instants given; how many took a token.\<close>

fun acquire_turns :: "token_bucket \<Rightarrow> rat list \<Rightarrow> nat \<times> token_bucket" where
  "acquire_turns b [] = (0, b)"
| "acquire_turns b (now # ts) =
     (case try_acquire now b of (w, b1) \<Rightarrow>
        (case acquire_turns b1 ts of (n, b2) \<Rightarrow> ((if w = None then Suc n else n), b2)))"

section \<open>Reconnecting\<close>

definition backoff_schedule :: "rat list" where
  "backoff_schedule = [1, 2, 5, 10, 30, 60]"

definition stable_uptime_reset_s :: rat where
  "stable_uptime_reset_s = 30"

definition next_backoff :: "nat \<Rightarrow> rat" where
  "next_backoff attempt = backoff_schedule ! min attempt (length backoff_schedule - 1)"

record publisher =
  pb_connected :: bool
  pb_reconnect_attempt :: nat
  pb_batch :: "queue_row list" \<comment> \<open>what is left of the rows read last\<close>
  pb_last_publish_utc :: "string option"

definition init_publisher :: publisher where
  "init_publisher = \<lparr>pb_connected = False, pb_reconnect_attempt = 0, pb_batch = [], pb_last_publish_utc = None\<rparr>"

definition on_connect :: "publisher \<Rightarrow> publisher" where
  "on_connect p = p\<lparr>pb_connected := True, pb_batch := []\<rparr>"

text \<open>
  The handler of a broker error in \<open>run\<close>: \<open>uptime\<close> is the age of the connection, \<open>None\<close>
  when there never was one. The result is the wait before the next attempt.
\<close>

definition on_disconnect :: "rat option \<Rightarrow> publisher \<Rightarrow> rat \<times> publisher" where
  "on_disconnect uptime p =
     (let a = (case uptime of Some u \<Rightarrow> if stable_uptime_reset_s \<le> u then 0 else pb_reconnect_attempt p
               | None \<Rightarrow> pb_reconnect_attempt p)
      in (next_backoff a, p\<lparr>pb_connected := False, pb_batch := [], pb_reconnect_attempt := Suc a\<rparr>))"

text \<open>The handler of any other error, such as a locked database: the counter stays.\<close>

definition on_loop_error :: "publisher \<Rightarrow> publisher" where
  "on_loop_error p = p\<lparr>pb_connected := False, pb_batch := []\<rparr>"

section \<open>Publishing\<close>

type_synonym message = "string \<times> string"

text \<open>
  What becomes of a publication at QoS 1: acknowledged, or an error, and then the broker may
  have it (the acknowledgement was lost) or not.
\<close>

datatype broker_reply = Puback | Broker_error string bool

definition row_message :: "string \<Rightarrow> queue_row \<Rightarrow> message" where
  "row_message prefix r = (build_topic prefix (qr_vehicle_id r) (qr_event_type r), qr_envelope_json r)"

definition publish_row ::
  "string \<Rightarrow> string \<Rightarrow> broker_reply \<Rightarrow> queue_row \<Rightarrow> sync_db \<Rightarrow> message list \<Rightarrow> bool \<times> sync_db \<times> message list" where
  "publish_row prefix now reply r db broker =
     (case reply of
        Puback \<Rightarrow> (True, mark_published now db (qr_event_id r), broker @ [row_message prefix r])
      | Broker_error err arrived \<Rightarrow>
          (False, mark_failed db (qr_event_id r) err, if arrived then broker @ [row_message prefix r] else broker))"

text \<open>One turn of \<open>_publish_loop\<close>: read the next rows when the last are done, else publish one.\<close>

definition read_batch :: "nat \<Rightarrow> sync_db \<Rightarrow> publisher \<Rightarrow> publisher" where
  "read_batch rate db p = p\<lparr>pb_batch := iter_pending db rate\<rparr>"

definition publish_next ::
  "string \<Rightarrow> string \<Rightarrow> broker_reply \<Rightarrow> publisher \<Rightarrow> sync_db \<Rightarrow> message list \<Rightarrow>
   (bool \<times> publisher \<times> sync_db \<times> message list) option" where
  "publish_next prefix now reply p db broker =
     (case pb_batch p of
        [] \<Rightarrow> None
      | r # rs \<Rightarrow>
          (case publish_row prefix now reply r db broker of (ok, db', broker') \<Rightarrow>
             Some (ok, if ok then p\<lparr>pb_batch := rs, pb_last_publish_utc := Some now\<rparr> else p, db', broker')))"

section \<open>Facts\<close>

text \<open>A slug is made of letters, digits, the dash and the extra character only.\<close>

lemma slug_chars: "c \<in> set (slug_with x s) \<Longrightarrow> is_alnum c \<or> c = x \<or> c = CHR ''-''"
  by (auto simp: slug_with_def split: if_splits)

lemma slug_vehicle_chars:
  assumes "c \<in> set (slugify_vehicle_id v)"
  shows "is_alnum c \<or> c = CHR ''-''"
proof (cases "slugify_vehicle_id v = ''unknown''")
  case True
  have "\<forall>c \<in> set ''unknown''. is_alnum c" by (simp add: is_alnum_def)
  with assms show ?thesis unfolding True by blast
next
  case False
  then have "slugify_vehicle_id v = slug_with CHR ''-'' v" by (auto simp: slugify_vehicle_id_def Let_def split: if_splits)
  with assms slug_chars show ?thesis by metis
qed

lemma slug_vehicle_nonempty: "slugify_vehicle_id v \<noteq> []"
  by (simp add: slugify_vehicle_id_def Let_def)

lemma not_alnum: "\<not> is_alnum CHR ''/''" "\<not> is_alnum CHR ''+''" "\<not> is_alnum CHR ''#''" "\<not> is_alnum CHR ''_''" "\<not> is_alnum CHR ''-''"
  by (simp_all add: is_alnum_def)

lemma upper_chars:
  assumes "c \<in> set (ascii_upper s)" "\<forall>d \<in> set s. is_alnum d \<or> d = CHR ''_'' \<or> d = CHR ''-''"
  shows "is_alnum c \<or> c = CHR ''_'' \<or> c = CHR ''-''"
proof -
  obtain d where d: "d \<in> set s" "c = (let n = of_char d :: nat in if 97 \<le> n \<and> n \<le> 122 then char_of (n - 32) else d)"
    using assms(1) by (auto simp: ascii_upper_def)
  show ?thesis
  proof (cases "97 \<le> (of_char d :: nat) \<and> (of_char d :: nat) \<le> 122")
    case True
    then have "of_char c = ((of_char d :: nat) - 32) mod 256" using d(2) by simp
    moreover have "(of_char d :: nat) - 32 < 256" using True by linarith
    ultimately have "of_char c = (of_char d :: nat) - 32" by (simp only: mod_less)
    with True have "65 \<le> (of_char c :: nat) \<and> (of_char c :: nat) \<le> 90" by linarith
    then show ?thesis by (simp add: is_alnum_def Let_def)
  next
    case False
    then have "c = d" using d(2) by (auto simp: Let_def)
    with assms(2) d(1) show ?thesis by simp
  qed
qed

lemma type_value_chars: "c \<in> set (event_type_value e) \<Longrightarrow> is_alnum c \<or> c = CHR ''_''"
proof -
  have "list_all (\<lambda>e. list_all (\<lambda>c. is_alnum c \<or> c = CHR ''_'') (event_type_value e)) all_event_types"
    by (simp add: all_event_types_def is_alnum_def)
  then show "c \<in> set (event_type_value e) \<Longrightarrow> is_alnum c \<or> c = CHR ''_''"
    by (simp only: list_all_iff all_event_types_ball)
qed

definition bucket_ok :: "token_bucket \<Rightarrow> bool" where
  "bucket_ok b \<longleftrightarrow> 1 \<le> tb_rate b \<and> 0 \<le> tb_tokens b \<and> tb_tokens b \<le> tb_rate b"

lemma new_bucket_ok: "new_bucket r now = Inr b \<Longrightarrow> bucket_ok b"
  by (auto simp: new_bucket_def bucket_ok_def split: if_splits)

lemma try_acquire_ok:
  assumes "try_acquire now b = (w, b')" "bucket_ok b" "tb_last b \<le> now"
  shows "bucket_ok b' \<and> tb_last b' = now \<and> tb_rate b' = tb_rate b \<and>
    tb_tokens b' + (if w = None then 1 else 0) \<le> tb_tokens b + (now - tb_last b) * tb_rate b"
proof -
  have "0 \<le> (now - tb_last b) * tb_rate b" using assms(2,3) by (simp add: bucket_ok_def)
  with assms show ?thesis
    by (auto simp: try_acquire_def bucket_ok_def Let_def min_def split: if_splits)
qed

text \<open>After the sleep it was told, a lone caller gets its token.\<close>

lemma acquire_after_wait:
  assumes "try_acquire now b = (Some w, b')" "bucket_ok b" "tb_last b \<le> now"
  shows "0 < w \<and> w \<le> 1 / tb_rate b \<and> fst (try_acquire (now + w) b') = None"
proof -
  have nonneg: "0 \<le> tb_tokens b'" using try_acquire_ok [OF assms] by (simp add: bucket_ok_def)
  have b': "tb_tokens b' < 1" "w = (1 - tb_tokens b') / tb_rate b" "tb_last b' = now" "tb_rate b' = tb_rate b"
    using assms(1) by (auto simp: try_acquire_def Let_def split: if_splits)
  have r: "1 \<le> tb_rate b" using assms(2) by (simp add: bucket_ok_def)
  then have "w * tb_rate b = 1 - tb_tokens b'" using b'(2) by simp
  moreover have "w \<le> 1 / tb_rate b" unfolding b'(2) using nonneg r by (intro divide_right_mono) simp_all
  ultimately show ?thesis using b' r by (simp add: try_acquire_def Let_def)
qed

text \<open>However many callers there are, the tokens taken are bounded by the time that passed.\<close>

lemma acquire_turns_bound:
  assumes "bucket_ok b" "sorted (tb_last b # ts)"
  shows "of_nat (fst (acquire_turns b ts)) \<le> tb_tokens b + (last (tb_last b # ts) - tb_last b) * tb_rate b"
  using assms
proof (induction ts arbitrary: b)
  case Nil
  then show ?case by (simp add: bucket_ok_def)
next
  case (Cons now ts)
  obtain w b1 where t: "try_acquire now b = (w, b1)" by fastforce
  note ok = try_acquire_ok [OF t Cons.prems(1)]
  have le: "tb_last b \<le> now" using Cons.prems(2) by simp
  with ok have s: "bucket_ok b1" "tb_last b1 = now" "tb_rate b1 = tb_rate b"
    and tok: "tb_tokens b1 + (if w = None then 1 else 0) \<le> tb_tokens b + (now - tb_last b) * tb_rate b" by simp_all
  have "of_nat (fst (acquire_turns b1 ts)) \<le> tb_tokens b1 + (last (now # ts) - now) * tb_rate b"
    using Cons.IH [of b1] s Cons.prems(2) by simp
  moreover have "of_nat (fst (acquire_turns b (now # ts))) = (if w = None then 1 else 0) + (of_nat (fst (acquire_turns b1 ts)) :: rat)"
    by (simp add: t split: prod.split)
  ultimately have "of_nat (fst (acquire_turns b (now # ts))) \<le>
      tb_tokens b + (now - tb_last b) * tb_rate b + (last (now # ts) - now) * tb_rate b"
    using tok by linarith
  then show ?case by (simp add: algebra_simps)
qed

lemma acquire_turns_ok:
  assumes "bucket_ok b" "sorted (tb_last b # ts)"
  shows "bucket_ok (snd (acquire_turns b ts)) \<and> tb_last (snd (acquire_turns b ts)) = last (tb_last b # ts) \<and>
    tb_rate (snd (acquire_turns b ts)) = tb_rate b"
  using assms
proof (induction ts arbitrary: b)
  case (Cons now ts)
  obtain w b1 where t: "try_acquire now b = (w, b1)" by fastforce
  with try_acquire_ok [OF t Cons.prems(1)] Cons.prems(2) have "bucket_ok b1" "tb_last b1 = now" "tb_rate b1 = tb_rate b" by simp_all
  with Cons.IH [of b1] Cons.prems(2) show ?case by (auto simp: t split: prod.split)
qed simp

lemma publish_row_ok:
  assumes "publish_row prefix now reply r db broker = (ok, db', broker')"
  shows "queue_ok db' = queue_ok db \<and> set broker \<subseteq> set broker' \<and>
    (ok \<longrightarrow> row_message prefix r \<in> set broker')"
  using assms by (auto simp: publish_row_def mark_ok split: broker_reply.splits if_splits)

end
