(* ===== verification/Sync_Loops.thy ===== *)
theory Sync_Loops
  imports Sync_Publish Store_Routes
begin

text \<open>
  The loops of cloud-sync: \<open>event_store_client.py\<close>, \<open>pull_loop.py\<close>, \<open>ack_loop.py\<close>,
  \<open>health.py\<close> and \<open>config.py\<close>. A client call is its result after the retries: what the
  event-store answered in the end, or an HTTP error. A loop's body is one function, split where
  the body awaits the answer.
\<close>

section \<open>Settings\<close>

definition is_blank :: "string \<Rightarrow> bool" where
  "is_blank s = list_all (\<lambda>c. (of_char c :: nat) \<in> {9, 10, 11, 12, 13, 28, 29, 30, 31, 32, 133, 160}) s"

definition coerce_blank_to_none :: "string option \<Rightarrow> string option" where
  "coerce_blank_to_none v = (case v of None \<Rightarrow> None | Some s \<Rightarrow> if s = [] \<or> is_blank s then None else Some s)"

record sync_settings =
  sy_api_key :: "string option"
  sy_topic_prefix :: string
  sy_pull_batch_size :: int
  sy_publish_rate :: int

definition load_sync_settings :: "string option \<Rightarrow> string \<Rightarrow> int \<Rightarrow> int \<Rightarrow> sync_settings res" where
  "load_sync_settings key prefix batch rate =
     (if 1 \<le> batch \<and> batch \<le> 500 \<and> 0 < rate
      then Inr \<lparr>sy_api_key = coerce_blank_to_none key, sy_topic_prefix = prefix, sy_pull_batch_size = batch, sy_publish_rate = rate\<rparr>
      else Inl ValidationError)"

definition default_sync_settings :: sync_settings where
  "default_sync_settings = \<lparr>sy_api_key = None, sy_topic_prefix = ''oebb/events'', sy_pull_batch_size = 200, sy_publish_rate = 500\<rparr>"

section \<open>The client of the event-store\<close>

record event_page =
  ep_data :: "jdict list"
  ep_next_cursor :: "string option"
  ep_count :: int

definition pull_request :: "string option \<Rightarrow> int \<Rightarrow> store_request" where
  "pull_request after limit = Get_events None (if truthy after then after else None) limit None None"

definition read_page :: "store_reply \<Rightarrow> event_page res" where
  "read_page r =
     (case r of
        Page data n j next \<Rightarrow> Inr \<lparr>ep_data = data, ep_next_cursor = next, ep_count = int n\<rparr>
      | _ \<Rightarrow> Inl HTTPError)"

definition ack_request :: "string \<Rightarrow> store_request" where
  "ack_request k = Post_cursor [(''last_event_id'', JStr k)]"

text \<open>A 400 is cursor drift, any other error status raises.\<close>

definition read_ack :: "store_reply \<Rightarrow> jdict res" where
  "read_ack r =
     (case r of
        Cursor_moved k n \<Rightarrow> Inr [(''data'', JObj [(''acked'', JStr k), (''truncated_journeys'', JInt (int n))])]
      | Refused s c \<Rightarrow>
          if s = 400 then Inr [(''data'', JObj [(''acked'', JNull), (''truncated_journeys'', JInt 0)])] else Inl HTTPError
      | _ \<Rightarrow> Inl HTTPError)"

section \<open>The pull loop\<close>

definition required_envelope_keys :: "string list" where
  "required_envelope_keys = [''event_id'', ''vehicle_id'', ''event_type'', ''timestamp'']"

definition well_formed :: "jdict \<Rightarrow> bool" where
  "well_formed env = list_all (dhas env) required_envelope_keys"

definition last_well_formed_event_id :: "(json \<Rightarrow> string) \<Rightarrow> jdict list \<Rightarrow> string option" where
  "last_well_formed_event_id tx envs =
     map_option (\<lambda>env. py_str tx (dget_or env ''event_id'' JNull)) (List.find well_formed (rev envs))"

text \<open>A malformed envelope, or one the table refuses, is skipped; so is one whose insertion SQLite
  answers with an error, \<open>fails\<close> saying at which positions of the page it does.\<close>

fun enqueue_page :: "(jdict \<Rightarrow> string) \<Rightarrow> (nat \<Rightarrow> bool) \<Rightarrow> sync_db \<Rightarrow> jdict list \<Rightarrow> sync_db" where
  "enqueue_page dumps fails db [] = db"
| "enqueue_page dumps fails db (env # envs) =
     enqueue_page dumps (\<lambda>i. fails (Suc i))
       (if well_formed env \<and> \<not> fails 0 then snd (enqueue_event dumps db env) else db) envs"

text \<open>One turn of \<open>pull_loop.run\<close> once the page is there: the cursor moves past every row of the
  page, the skipped ones included.\<close>

definition pull_round ::
  "(json \<Rightarrow> string) \<Rightarrow> (jdict \<Rightarrow> string) \<Rightarrow> (nat \<Rightarrow> bool) \<Rightarrow> string \<Rightarrow> event_page res \<Rightarrow> sync_db \<Rightarrow> sync_db" where
  "pull_round tx dumps fails now reply db =
     (case reply of
        Inl e \<Rightarrow> db
      | Inr page \<Rightarrow>
          if ep_data page = [] then db
          else (let db1 = enqueue_page dumps fails db (ep_data page)
                in case last_well_formed_event_id tx (ep_data page) of
                     None \<Rightarrow> db1
                   | Some k \<Rightarrow> cursor_state_set_pulled now db1 k))"

section \<open>The acknowledgement loop\<close>

text \<open>\<open>_tick\<close> up to its await: the cursor to acknowledge, if there is a new one.\<close>

definition ack_begin :: "sync_db \<Rightarrow> string option" where
  "ack_begin db =
     (case contiguous_published_prefix db of
        None \<Rightarrow> None
      | Some k \<Rightarrow> if sd_acked db = Some k then None else Some k)"

text \<open>\<open>(body.get("data") or {}).get("acked")\<close>.\<close>

definition acked_of :: "jdict \<Rightarrow> json res" where
  "acked_of body =
     (let data = dget_or body ''data'' JNull
      in if \<not> jtruthy data then Inr JNull
         else (case data of JObj d \<Rightarrow> Inr (dget_or d ''acked'' JNull) | _ \<Rightarrow> Inl AttributeError))"

definition settle_ack :: "string \<Rightarrow> sync_db \<Rightarrow> string \<Rightarrow> sync_db" where
  "settle_ack now db k = snd (delete_acked (cursor_state_set_acked now db k) k)"

text \<open>The rest of \<open>_tick\<close>: an error changes nothing, drift settles the local cursor.\<close>

definition ack_finish :: "string \<Rightarrow> string \<Rightarrow> jdict res \<Rightarrow> sync_db \<Rightarrow> unit res \<times> sync_db" where
  "ack_finish now new_cursor reply db =
     (case reply of
        Inl e \<Rightarrow> (Inr (), db)
      | Inr body \<Rightarrow>
          (case acked_of body of
             Inl e \<Rightarrow> (Inl e, db)
           | Inr JNull \<Rightarrow> (Inr (), settle_ack now db new_cursor)
           | Inr (JStr k) \<Rightarrow> (Inr (), settle_ack now db k)
           | Inr _ \<Rightarrow> (Inr (), db)))"

section \<open>Health\<close>

record sync_health =
  sh_status :: string
  sh_broker_connected :: bool
  sh_queue_depth :: nat
  sh_last_publish :: "string option"

definition sync_health_reply :: "(sync_db \<times> publisher) option \<Rightarrow> sync_health" where
  "sync_health_reply st =
     (case st of
        None \<Rightarrow> \<lparr>sh_status = ''starting'', sh_broker_connected = False, sh_queue_depth = 0, sh_last_publish = None\<rparr>
      | Some (db, p) \<Rightarrow> \<lparr>sh_status = ''ok'', sh_broker_connected = pb_connected p, sh_queue_depth = queue_depth db,
          sh_last_publish = last_publish_utc db\<rparr>)"

end
