(* ===== verification/Sync_Pull.thy ===== *)
theory Sync_Pull
  imports Sync_Loops
begin

text \<open>
  The pull loop against a table that stands still: one turn, many turns, and how far they get.
\<close>

record sync_env =
  se_store :: store_env
  se_settings :: sync_settings
  se_dumps :: "jdict \<Rightarrow> string"
  se_str :: "json \<Rightarrow> string"

definition ask :: "sync_env \<Rightarrow> string \<Rightarrow> datetime \<Rightarrow> store_request \<Rightarrow> store \<Rightarrow> store_reply" where
  "ask V uuid now req db = fst (store_handle (se_store V) (sy_api_key (se_settings V)) uuid now req db)"

definition env_accepts :: "sync_env \<Rightarrow> bool" where
  "env_accepts V \<longleftrightarrow> require_api_key (sv_settings (se_store V)) (sy_api_key (se_settings V)) \<and>
     1 \<le> sy_pull_batch_size (se_settings V) \<and> sy_pull_batch_size (se_settings V) \<le> 500"

definition batch :: "sync_env \<Rightarrow> nat" where
  "batch V = nat (sy_pull_batch_size (se_settings V))"

definition env_released :: "sync_env \<Rightarrow> envelope \<Rightarrow> jdict option" where
  "env_released V = released (sv_hmac (se_store V)) (sv_text (se_store V)) (egress_key (sv_settings (se_store V)))"

text \<open>A turn: ask for the page after the cursor, take it. Then turns in a row; \<open>F i\<close> says which
  insertions of turn \<open>i\<close> the database answers with an error.\<close>

definition pull_turn :: "sync_env \<Rightarrow> (nat \<Rightarrow> bool) \<Rightarrow> string \<Rightarrow> datetime \<Rightarrow> string \<Rightarrow> store \<Rightarrow> sync_db \<Rightarrow> sync_db" where
  "pull_turn V fails uuid now t st db =
     pull_round (se_str V) (se_dumps V) fails t
       (read_page (ask V uuid now (pull_request (sd_pulled db) (sy_pull_batch_size (se_settings V))) st)) db"

fun pull_turns ::
  "nat \<Rightarrow> sync_env \<Rightarrow> (nat \<Rightarrow> nat \<Rightarrow> bool) \<Rightarrow> string \<Rightarrow> datetime \<Rightarrow> string \<Rightarrow> store \<Rightarrow> sync_db \<Rightarrow> sync_db" where
  "pull_turns 0 V F uuid now t st db = db"
| "pull_turns (Suc k) V F uuid now t st db =
     pull_turns k V (\<lambda>i. F (Suc i)) uuid now t st (pull_turn V (F 0) uuid now t st db)"

abbreviation no_errors :: "nat \<Rightarrow> bool" where
  "no_errors \<equiv> \<lambda>i. False"

definition row_ids :: "sync_db \<Rightarrow> string set" where
  "row_ids db = qr_event_id ` set (sd_rows db)"

definition released_ids :: "sync_env \<Rightarrow> envelope list \<Rightarrow> string set" where
  "released_ids V es = {ev_id e | e. e \<in> set es \<and> env_released V e \<noteq> None}"

section \<open>The page of a turn\<close>

lemma ask_page:
  assumes "store_ok st" "env_accepts V" "chron st = pre @ suf"
  shows "ask V uuid now (pull_request (cursor_after pre) (sy_pull_batch_size (se_settings V))) st =
    Page (List.map_filter (env_released V) (take (batch V) suf)) (length (List.map_filter (env_released V) (take (batch V) suf))) None
      (if batch V \<le> length suf then Some (ev_id (last (take (batch V) suf))) else None)"
proof -
  have n: "1 \<le> batch V" "batch V \<le> 500" "sy_pull_batch_size (se_settings V) = int (batch V)"
    using assms(2) unfolding env_accepts_def batch_def by linarith+
  have c: "(if truthy (cursor_after pre) then cursor_after pre else None) = cursor_after pre"
  proof (cases "pre = []")
    case False
    then have "last pre \<in> set (db_events st)" using assms(3) chron_set(1) [of st] by (metis Un_iff last_in_set set_append)
    then have "ev_id (last pre) \<noteq> []" using assms(1) by (simp add: store_ok_def)
    then show ?thesis by (simp add: cursor_after_def truthy_def)
  qed (simp add: cursor_after_def)
  show ?thesis
    using list_events_after [OF assms(1,3) n(1,2)] assms(2) c
    by (simp add: ask_def store_handle_def pull_request_def env_accepts_def n(3) env_released_def)
qed

lemma turn_page:
  assumes "store_ok st" "env_accepts V" "chron st = pre @ suf" "sd_pulled db = cursor_after pre"
  shows "pull_turn V fails uuid now t st db =
    (let data = List.map_filter (env_released V) (take (batch V) suf)
     in if data = [] then db
        else (case last_well_formed_event_id (se_str V) data of
                None \<Rightarrow> enqueue_page (se_dumps V) fails db data
              | Some k \<Rightarrow> cursor_state_set_pulled t (enqueue_page (se_dumps V) fails db data) k))"
  unfolding pull_turn_def assms(4) ask_page [OF assms(1-3)]
  by (simp add: read_page_def pull_round_def Let_def)

lemma released_well_formed:
  assumes "env_released V e = Some q"
  shows "well_formed q \<and> dget_or q ''event_id'' JNull = JStr (ev_id e) \<and>
    (\<exists>r. row_of_envelope dumps q = Inr r \<and> qr_event_id r = ev_id e)"
  using released_json [OF assms [unfolded env_released_def]]
  by (simp add: well_formed_def required_envelope_keys_def dhas_iff dget_or_def row_of_envelope_def str_column_def)

lemma enqueue_ids:
  assumes "row_of_envelope dumps q = Inr r"
  shows "row_ids (snd (enqueue_event dumps db q)) = insert (qr_event_id r) (row_ids db)"
  using assms by (auto simp: enqueue_event_def row_ids_def)

lemma page_ids:
  "row_ids (enqueue_page dumps no_errors db (List.map_filter (env_released V) es)) = row_ids db \<union> released_ids V es"
proof (induction es arbitrary: db)
  case (Cons e es)
  show ?case
  proof (cases "env_released V e")
    case None
    with Cons show ?thesis by (auto simp: map_filter_simps released_ids_def)
  next
    case (Some q)
    note w = released_well_formed [OF Some, of dumps]
    then obtain r where r: "row_of_envelope dumps q = Inr r" "qr_event_id r = ev_id e" by blast
    have "released_ids V (e # es) = insert (ev_id e) (released_ids V es)"
      using Some by (auto simp: released_ids_def)
    with Cons Some w enqueue_ids [OF r(1)] r(2) show ?thesis
      by (simp add: map_filter_simps)
  qed
qed (simp add: map_filter_simps released_ids_def)

lemma last_released:
  assumes "env_released V e = Some q" "\<forall>b \<in> set bs. env_released V b = None"
  shows "last_well_formed_event_id tx (List.map_filter (env_released V) (as @ e # bs)) = Some (ev_id e)"
proof -
  have "List.map_filter (env_released V) bs = []" using assms(2) by (simp add: map_filter_def filter_empty_conv)
  then have "List.map_filter (env_released V) (as @ e # bs) = List.map_filter (env_released V) as @ [q]"
    using assms(1) by (simp add: map_filter_split map_filter_simps)
  with released_well_formed [OF assms(1)] show ?thesis by (simp add: last_well_formed_event_id_def)
qed

section \<open>Progress\<close>

text \<open>A turn whose page is not empty moves the cursor and takes all the page.\<close>

lemma turn_moves:
  assumes "store_ok st" "env_accepts V" "chron st = pre @ suf" "sd_pulled db = cursor_after pre"
    and "x \<in> set (take (batch V) suf)" "env_released V x \<noteq> None"
  shows "\<exists>mid suf'. suf = mid @ suf' \<and> mid \<noteq> [] \<and>
    sd_pulled (pull_turn V no_errors uuid now t st db) = cursor_after (pre @ mid) \<and>
    row_ids (pull_turn V no_errors uuid now t st db) = row_ids db \<union> released_ids V mid"
proof -
  obtain as e bs where s: "take (batch V) suf = as @ e # bs" "env_released V e \<noteq> None" "\<forall>b \<in> set bs. \<not> env_released V b \<noteq> None"
    using split_list_last_prop [of "take (batch V) suf" "\<lambda>e. env_released V e \<noteq> None"] assms(5,6) by blast
  then obtain q where q: "env_released V e = Some q" by auto
  have k: "last_well_formed_event_id (se_str V) (List.map_filter (env_released V) (take (batch V) suf)) = Some (ev_id e)"
    using last_released [OF q] s by simp
  have ne: "List.map_filter (env_released V) (take (batch V) suf) \<noteq> []"
    using k by (auto simp: last_well_formed_event_id_def)
  have suf: "suf = (as @ [e]) @ (bs @ drop (batch V) suf)"
    using s(1) by (metis append_Cons append_assoc append_Nil append_take_drop_id)
  have "released_ids V (as @ e # bs) = released_ids V (as @ [e])"
    using s(3) by (auto simp: released_ids_def)
  then have "row_ids (pull_turn V no_errors uuid now t st db) = row_ids db \<union> released_ids V (as @ [e])"
    using turn_page [OF assms(1-4)] k ne page_ids [of "se_dumps V" db V "take (batch V) suf"] s(1)
    by (simp add: Let_def row_ids_def cursor_state_set_pulled_def)
  moreover have "sd_pulled (pull_turn V no_errors uuid now t st db) = cursor_after (pre @ as @ [e])"
    using turn_page [OF assms(1-4)] k ne by (simp add: Let_def cursor_state_set_pulled_def cursor_after_def)
  ultimately show ?thesis using suf by (intro exI [of _ "as @ [e]"] exI [of _ "bs @ drop (batch V) suf"]) simp
qed

text \<open>A turn whose page is withheld as a whole does nothing.\<close>

lemma turn_stays:
  assumes "store_ok st" "env_accepts V" "chron st = pre @ suf" "sd_pulled db = cursor_after pre"
    and "\<forall>x \<in> set (take (batch V) suf). env_released V x = None"
  shows "pull_turn V fails uuid now t st db = db"
proof -
  have "List.map_filter (env_released V) (take (batch V) suf) = []"
    using assms(5) by (simp add: map_filter_def filter_empty_conv)
  with turn_page [OF assms(1-4)] show ?thesis by simp
qed

lemma turns_stay: "(\<And>fails. pull_turn V fails uuid now t st db = db) \<Longrightarrow> pull_turns k V F uuid now t st db = db"
  by (induction k arbitrary: F) simp_all

text \<open>If no full page after the cursor is withheld, enough turns without a database error take
  everything after it that is released, and keep what the queue had.\<close>

lemma turns_catch_up:
  assumes "store_ok st" "env_accepts V"
  shows "chron st = pre @ suf \<Longrightarrow> length suf < k \<Longrightarrow> sd_pulled db = cursor_after pre \<Longrightarrow> A \<subseteq> row_ids db \<Longrightarrow>
    \<forall>i. i + batch V \<le> length suf \<longrightarrow> (\<exists>x \<in> set (take (batch V) (drop i suf)). env_released V x \<noteq> None) \<Longrightarrow>
    A \<union> released_ids V suf \<subseteq> row_ids (pull_turns k V (\<lambda>j. no_errors) uuid now t st db)"
proof (induction k arbitrary: pre suf db A)
  case 0
  then show ?case by simp
next
  case (Suc k)
  show ?case
  proof (cases "\<forall>x \<in> set (take (batch V) suf). env_released V x = None")
    case True
    have "length suf < batch V"
    proof (rule ccontr)
      assume "\<not> length suf < batch V"
      then show False using Suc.prems(5) True by (auto dest: spec [of _ 0])
    qed
    then have "released_ids V suf = {}" using True by (auto simp: released_ids_def)
    moreover have "pull_turns (Suc k) V (\<lambda>j. no_errors) uuid now t st db = db"
      by (rule turns_stay) (rule turn_stays [OF assms Suc.prems(1,3) True])
    ultimately show ?thesis using Suc.prems(4) by auto
  next
    case False
    then obtain x where "x \<in> set (take (batch V) suf)" "env_released V x \<noteq> None" by blast
    from turn_moves [OF assms Suc.prems(1,3) this] obtain mid suf' where
      m: "suf = mid @ suf'" "mid \<noteq> []" "sd_pulled (pull_turn V no_errors uuid now t st db) = cursor_after (pre @ mid)"
        "row_ids (pull_turn V no_errors uuid now t st db) = row_ids db \<union> released_ids V mid" by blast
    have keep: "A \<union> released_ids V mid \<subseteq> row_ids (pull_turn V no_errors uuid now t st db)"
      using Suc.prems(4) m(4) by auto
    have less: "length suf' < k" using Suc.prems(2) m(1,2) by (cases mid) auto
    have full: "\<exists>x \<in> set (take (batch V) (drop i suf')). env_released V x \<noteq> None" if "i + batch V \<le> length suf'" for i
      using Suc.prems(5) [rule_format, of "length mid + i"] that m(1) by simp
    have "A \<union> released_ids V mid \<union> released_ids V suf' \<subseteq>
        row_ids (pull_turns k V (\<lambda>j. no_errors) uuid now t st (pull_turn V no_errors uuid now t st db))"
      by (rule Suc.IH [OF _ less m(3) keep]) (use full Suc.prems(1) m(1) in simp_all)
    moreover have "released_ids V suf = released_ids V mid \<union> released_ids V suf'"
      by (auto simp: m(1) released_ids_def)
    ultimately show ?thesis by (simp add: Un_assoc)
  qed
qed

text \<open>Once the cursor's row is gone from the table, every turn is refused.\<close>

lemma turn_refused:
  assumes "env_accepts V" "sd_pulled db = Some k" "k \<noteq> []" "find_event st k = None"
  shows "pull_turn V fails uuid now t st db = db"
  using page_unknown_cursor [OF assms(3,4), of None] assms(1,2,3)
  by (simp add: pull_turn_def ask_def store_handle_def pull_request_def truthy_def env_accepts_def list_events_def
      read_page_def pull_round_def)

end
