(* ===== verification/Sync_Train.thy ===== *)
theory Sync_Train
  imports Sync_Pull
begin

text \<open>
  cloud-sync as it runs: the pull, publish and acknowledgement loops and the event-store they
  talk to, interleaved at their awaits. History: what was ever taken from the event-store into
  the queue, with the message made of it.
\<close>

section \<open>State and steps\<close>

record train =
  tr_store :: store
  tr_sync :: sync_db
  tr_publisher :: publisher
  tr_page :: "event_page res option" \<comment> \<open>a page on its way to the pull loop\<close>
  tr_ack :: "string option" \<comment> \<open>the cursor the acknowledgement loop waits for\<close>
  tr_broker :: "message list"
  tr_taken :: "(string \<times> message) set"

definition init_train :: train where
  "init_train = \<lparr>tr_store = init_db, tr_sync = init_sync_db, tr_publisher = init_publisher, tr_page = None,
     tr_ack = None, tr_broker = [], tr_taken = {}\<rparr>"

definition row_entry :: "string \<Rightarrow> queue_row \<Rightarrow> string \<times> message" where
  "row_entry prefix r = (qr_event_id r, row_message prefix r)"

definition taken_since :: "string \<Rightarrow> sync_db \<Rightarrow> sync_db \<Rightarrow> (string \<times> message) set" where
  "taken_since prefix db db' =
     row_entry prefix ` {r \<in> set (sd_rows db'). qr_event_id r \<notin> qr_event_id ` set (sd_rows db)}"

text \<open>An answer to the acknowledgement of \<open>k\<close>: the cursor itself, or drift.\<close>

definition ack_answer :: "string \<Rightarrow> jdict res \<Rightarrow> bool" where
  "ack_answer k reply = (case reply of Inl e \<Rightarrow> True | Inr body \<Rightarrow> acked_of body \<in> {Inr JNull, Inr (JStr k)})"

inductive train_step :: "sync_env \<Rightarrow> train \<Rightarrow> train \<Rightarrow> bool" for V where
  store_moves: "validate_event_id uuid \<Longrightarrow> store_handle (se_store V) key uuid now req (tr_store s) = (r, db', b) \<Longrightarrow>
    train_step V s (s\<lparr>tr_store := db'\<rparr>)"
| page_comes: "tr_page s = None \<Longrightarrow>
    reply = read_page (ask V uuid now (pull_request (sd_pulled (tr_sync s)) (sy_pull_batch_size (se_settings V))) (tr_store s)) \<or>
      reply = Inl HTTPError \<Longrightarrow>
    train_step V s (s\<lparr>tr_page := Some reply\<rparr>)"
| page_taken: "tr_page s = Some reply \<Longrightarrow> db' = pull_round (se_str V) (se_dumps V) fails t reply (tr_sync s) \<Longrightarrow>
    train_step V s (s\<lparr>tr_page := None, tr_sync := db',
      tr_taken := tr_taken s \<union> taken_since (sy_topic_prefix (se_settings V)) (tr_sync s) db'\<rparr>)"
| page_breaks: "tr_page s = Some (Inr page) \<Longrightarrow> db' = enqueue_page (se_dumps V) fails (tr_sync s) (take n (ep_data page)) \<Longrightarrow>
    train_step V s (s\<lparr>tr_page := None, tr_sync := db',
      tr_taken := tr_taken s \<union> taken_since (sy_topic_prefix (se_settings V)) (tr_sync s) db'\<rparr>)"
    \<comment> \<open>the process stops within a page, its cursor not yet moved\<close>
| broker_connects: "train_step V s (s\<lparr>tr_publisher := on_connect (tr_publisher s)\<rparr>)"
| broker_leaves: "train_step V s (s\<lparr>tr_publisher := snd (on_disconnect up (tr_publisher s))\<rparr>)"
| reads_batch: "pb_connected (tr_publisher s) \<Longrightarrow> pb_batch (tr_publisher s) = [] \<Longrightarrow>
    train_step V s (s\<lparr>tr_publisher := read_batch (nat (sy_publish_rate (se_settings V))) (tr_sync s) (tr_publisher s)\<rparr>)"
| publishes: "pb_connected (tr_publisher s) \<Longrightarrow>
    publish_next (sy_topic_prefix (se_settings V)) t reply (tr_publisher s) (tr_sync s) (tr_broker s) = Some (ok, p', db', broker') \<Longrightarrow>
    train_step V s (s\<lparr>tr_publisher := if ok then p' else snd (on_disconnect up p'), tr_sync := db', tr_broker := broker'\<rparr>)"
| loop_fails: "broker' = tr_broker s \<or> (\<exists>r rs. pb_batch (tr_publisher s) = r # rs \<and>
      broker' = tr_broker s @ [row_message (sy_topic_prefix (se_settings V)) r]) \<Longrightarrow>
    train_step V s (s\<lparr>tr_publisher := on_loop_error (tr_publisher s), tr_broker := broker'\<rparr>)"
    \<comment> \<open>possibly between the broker's reply and the note of it in the queue\<close>
| ack_starts: "tr_ack s = None \<Longrightarrow> train_step V s (s\<lparr>tr_ack := ack_begin (tr_sync s)\<rparr>)"
| ack_ends: "tr_ack s = Some k \<Longrightarrow> ack_answer k reply \<Longrightarrow> ack_finish t k reply (tr_sync s) = (r, db') \<Longrightarrow>
    train_step V s (s\<lparr>tr_ack := None, tr_sync := db'\<rparr>)"
| restarts: "train_step V s (s\<lparr>tr_publisher := init_publisher, tr_page := None, tr_ack := None\<rparr>)"

lemma ack_answers:
  assumes "store_handle V key uuid now (ack_request k) db = (r, db', b)"
  shows "ack_answer k (read_ack r)"
  using assms
  by (auto simp: store_handle_def ack_request_def ack_answer_def read_ack_def acked_of_def dget_or_def
      parse_cursor_def advance_sync_cursor_endpoint_def split: if_splits option.splits prod.splits)

section \<open>The delivery invariant\<close>

definition waits :: "sync_db \<Rightarrow> string \<Rightarrow> string \<times> message \<Rightarrow> bool" where
  "waits db prefix x = (\<exists>r \<in> set (sd_rows db). \<not> is_published r \<and> row_entry prefix r = x)"

definition train_inv :: "sync_env \<Rightarrow> train \<Rightarrow> bool" where
  "train_inv V s \<longleftrightarrow> (let prefix = sy_topic_prefix (se_settings V); db = tr_sync s in
     queue_ok db \<and> distinct (map qr_event_id (pb_batch (tr_publisher s))) \<and>
     (\<forall>r \<in> set (pb_batch (tr_publisher s)). waits db prefix (row_entry prefix r)) \<and>
     (\<forall>r \<in> set (sd_rows db). is_published r \<longrightarrow> row_message prefix r \<in> set (tr_broker s)) \<and>
     (\<forall>r \<in> set (sd_rows db). row_entry prefix r \<in> tr_taken s) \<and>
     (\<forall>x \<in> tr_taken s. waits db prefix x \<or> snd x \<in> set (tr_broker s)))"

text \<open>Taking a page adds unpublished rows with new ids, and nothing else.\<close>

definition queue_grows :: "sync_db \<Rightarrow> sync_db \<Rightarrow> bool" where
  "queue_grows db db' \<longleftrightarrow> (\<exists>rs. sd_rows db' = sd_rows db @ rs \<and> (\<forall>r \<in> set rs. \<not> is_published r) \<and>
     distinct (map qr_event_id rs) \<and> set (map qr_event_id rs) \<inter> set (map qr_event_id (sd_rows db)) = {})"

lemma queue_grows_refl: "queue_grows db db"
  by (simp add: queue_grows_def)

lemma queue_grows_trans: "queue_grows a b \<Longrightarrow> queue_grows b c \<Longrightarrow> queue_grows a c" for a b c
proof -
  assume "queue_grows a b" "queue_grows b c"
  then obtain rs qs where
    rs: "sd_rows b = sd_rows a @ rs" "\<forall>r \<in> set rs. \<not> is_published r" "distinct (map qr_event_id rs)"
      "set (map qr_event_id rs) \<inter> set (map qr_event_id (sd_rows a)) = {}" and
    qs: "sd_rows c = sd_rows b @ qs" "\<forall>r \<in> set qs. \<not> is_published r" "distinct (map qr_event_id qs)"
      "set (map qr_event_id qs) \<inter> set (map qr_event_id (sd_rows b)) = {}"
    unfolding queue_grows_def by blast
  have d: "set (map qr_event_id qs) \<inter> set (map qr_event_id rs) = {}" "set (map qr_event_id qs) \<inter> set (map qr_event_id (sd_rows a)) = {}"
    using qs(4) unfolding rs(1) map_append set_append Int_Un_distrib Un_empty by simp_all
  have "sd_rows c = sd_rows a @ (rs @ qs)" using rs(1) qs(1) by simp
  moreover have "\<forall>r \<in> set (rs @ qs). \<not> is_published r" using rs(2) qs(2) by auto
  moreover have "distinct (map qr_event_id (rs @ qs))"
    unfolding map_append distinct_append using rs(3) qs(3) d(1) by (simp add: Int_commute)
  moreover have "set (map qr_event_id (rs @ qs)) \<inter> set (map qr_event_id (sd_rows a)) = {}"
    unfolding map_append set_append Int_Un_distrib2 using rs(4) d(2) by simp
  ultimately show ?thesis unfolding queue_grows_def by blast
qed

lemma queue_grows_enqueue: "queue_grows db (snd (enqueue_event dumps db env))"
proof (cases "row_of_envelope dumps env")
  case (Inl e)
  then show ?thesis by (simp add: enqueue_event_def queue_grows_refl)
next
  case (Inr r)
  then have "\<not> is_published r"
    by (auto simp: row_of_envelope_def is_published_def res_iff)
  with Inr queue_grows_refl [of db] show ?thesis by (simp add: enqueue_event_def) (simp add: queue_grows_def)
qed

lemma queue_grows_page: "queue_grows db (enqueue_page dumps fails db envs)"
proof (induction envs arbitrary: db fails)
  case (Cons env envs)
  have "queue_grows db (if well_formed env \<and> \<not> fails 0 then snd (enqueue_event dumps db env) else db)"
    by (simp add: queue_grows_enqueue queue_grows_refl)
  from queue_grows_trans [OF this Cons.IH] show ?case by (simp only: enqueue_page.simps)
qed (simp add: queue_grows_refl)

lemma queue_grows_cursor: "queue_grows db (cursor_state_set_pulled t db' k) = queue_grows db db'"
  by (simp add: queue_grows_def cursor_state_set_pulled_def)

lemma queue_grows_round: "queue_grows db (pull_round tx dumps fails t reply db)"
  by (simp add: pull_round_def Let_def queue_grows_cursor queue_grows_page queue_grows_refl split: sum.split option.split)

lemma queue_grows_ok:
  assumes "queue_grows db db'" "queue_ok db"
  shows "queue_ok db'"
proof -
  obtain rs where rs: "sd_rows db' = sd_rows db @ rs" "distinct (map qr_event_id rs)"
    "set (map qr_event_id rs) \<inter> set (map qr_event_id (sd_rows db)) = {}"
    using assms(1) unfolding queue_grows_def by blast
  with assms(2) show ?thesis unfolding queue_ok_def rs(1) map_append distinct_append by blast
qed

text \<open>What publishing and acknowledging do to the rows.\<close>

lemma entry_updates [simp]:
  "row_entry prefix (r\<lparr>qr_published_at := x\<rparr>) = row_entry prefix r"
  "row_entry prefix (r\<lparr>qr_attempts := n, qr_last_error := y\<rparr>) = row_entry prefix r"
  by (simp_all add: row_entry_def row_message_def)

lemma mark_published_rows:
  "set (sd_rows (mark_published t db k)) =
     (\<lambda>q. if qr_event_id q = k then q\<lparr>qr_published_at := Some t\<rparr> else q) ` set (sd_rows db)"
  by (simp add: mark_published_def update_rows_def)

lemma waits_mark_published:
  assumes "waits db prefix x" "fst x \<noteq> k"
  shows "waits (mark_published t db k) prefix x"
proof -
  obtain r where r: "r \<in> set (sd_rows db)" "\<not> is_published r" "row_entry prefix r = x"
    using assms(1) by (auto simp: waits_def)
  moreover have "qr_event_id r \<noteq> k" using r(3) assms(2) by (auto simp: row_entry_def)
  ultimately have "r \<in> set (sd_rows (mark_published t db k))" unfolding mark_published_rows by (intro image_eqI [of _ _ r]) auto
  with r show ?thesis unfolding waits_def by blast
qed

lemma waits_mark_failed:
  assumes "waits db prefix x"
  shows "waits (mark_failed db k e) prefix x"
proof -
  obtain r where r: "r \<in> set (sd_rows db)" "\<not> is_published r" "row_entry prefix r = x"
    using assms by (auto simp: waits_def)
  let ?r = "if qr_event_id r = k then r\<lparr>qr_attempts := Suc (qr_attempts r), qr_last_error := Some e\<rparr> else r"
  have "?r \<in> set (sd_rows (mark_failed db k e))" using r(1) by (auto simp: mark_failed_def update_rows_def)
  with r show ?thesis unfolding waits_def by (intro bexI [of _ ?r]) (auto simp: is_published_def)
qed

lemma settle_rows:
  "set (sd_rows (settle_ack t db k)) \<subseteq> set (sd_rows db)"
  "r \<in> set (sd_rows db) \<Longrightarrow> \<not> is_published r \<Longrightarrow> r \<in> set (sd_rows (settle_ack t db k))"
  using delete_keeps(1) [of "cursor_state_set_acked t db k" k] delete_keeps(2) [of r "cursor_state_set_acked t db k" k]
  by (auto simp: settle_ack_def cursor_state_set_acked_def)

lemma waits_settle: "waits db prefix x \<Longrightarrow> waits (settle_ack t db k) prefix x"
  using settle_rows(2) by (fastforce simp: waits_def)

lemma settle_ok: "queue_ok db \<Longrightarrow> queue_ok (settle_ack t db k)"
  using delete_ok by (auto simp: settle_ack_def queue_ok_def cursor_state_set_acked_def)

section \<open>Each step keeps the invariant\<close>

lemma inv_growth:
  assumes "train_inv V s" "queue_grows (tr_sync s) db'"
  shows "train_inv V (s\<lparr>tr_page := None, tr_sync := db',
      tr_taken := tr_taken s \<union> taken_since (sy_topic_prefix (se_settings V)) (tr_sync s) db'\<rparr>)"
proof -
  let ?p = "sy_topic_prefix (se_settings V)" and ?db = "tr_sync s"
  obtain rs where rs: "sd_rows db' = sd_rows ?db @ rs" "\<forall>r \<in> set rs. \<not> is_published r"
    "set (map qr_event_id rs) \<inter> set (map qr_event_id (sd_rows ?db)) = {}"
    using assms(2) unfolding queue_grows_def by blast
  have new: "taken_since ?p ?db db' = row_entry ?p ` set rs"
    using rs(3) by (auto simp: taken_since_def rs(1))
  have mono: "waits db' ?p x" if "waits ?db ?p x" for x
    using that by (auto simp: waits_def rs(1))
  have fresh: "waits db' ?p x" if "x \<in> taken_since ?p ?db db'" for x
    using that rs(2) by (auto simp: new waits_def rs(1))
  have ok: "queue_ok db'" using queue_grows_ok [OF assms(2)] assms(1) by (simp add: train_inv_def Let_def)
  have inv: "\<forall>r \<in> set (pb_batch (tr_publisher s)). waits ?db ?p (row_entry ?p r)"
    "\<forall>r \<in> set (sd_rows ?db). is_published r \<longrightarrow> row_message ?p r \<in> set (tr_broker s)"
    "\<forall>r \<in> set (sd_rows ?db). row_entry ?p r \<in> tr_taken s" "\<forall>x \<in> tr_taken s. waits ?db ?p x \<or> snd x \<in> set (tr_broker s)"
    "distinct (map qr_event_id (pb_batch (tr_publisher s)))"
    using assms(1) by (simp_all add: train_inv_def Let_def)
  have "\<forall>x \<in> tr_taken s \<union> taken_since ?p ?db db'. waits db' ?p x \<or> snd x \<in> set (tr_broker s)"
    using inv(4) mono fresh by blast
  moreover have "\<forall>r \<in> set (sd_rows db'). row_entry ?p r \<in> tr_taken s \<union> taken_since ?p ?db db'"
    using inv(3) by (auto simp: rs(1) new)
  moreover have "\<forall>r \<in> set (sd_rows db'). is_published r \<longrightarrow> row_message ?p r \<in> set (tr_broker s)"
    using inv(2) rs(2) by (auto simp: rs(1))
  moreover have "\<forall>r \<in> set (pb_batch (tr_publisher s)). waits db' ?p (row_entry ?p r)" using inv(1) mono by blast
  ultimately show ?thesis using ok inv(5) unfolding train_inv_def Let_def by simp
qed

lemma inv_batch:
  assumes "train_inv V s" "distinct (map qr_event_id (pb_batch p))"
    and "\<forall>r \<in> set (pb_batch p). waits (tr_sync s) (sy_topic_prefix (se_settings V)) (row_entry (sy_topic_prefix (se_settings V)) r)"
  shows "train_inv V (s\<lparr>tr_publisher := p\<rparr>)"
  using assms by (simp add: train_inv_def Let_def)

lemma iter_pending_sub: "set (iter_pending db n) \<subseteq> {r \<in> set (sd_rows db). \<not> is_published r}"
  by (auto simp: iter_pending_def pending_rows_def dest: in_set_takeD)

lemma iter_pending_distinct: "queue_ok db \<Longrightarrow> distinct (map qr_event_id (iter_pending db n))"
  by (auto simp: iter_pending_def pending_rows_def queue_ok_def distinct_map take_map [symmetric] inj_on_def
      intro!: distinct_take dest!: in_set_takeD)

lemma inv_published:
  assumes "train_inv V s" "pb_batch (tr_publisher s) = r # rs" "pb_batch p = rs"
  shows "train_inv V (s\<lparr>tr_publisher := p, tr_sync := mark_published t (tr_sync s) (qr_event_id r),
    tr_broker := tr_broker s @ [row_message (sy_topic_prefix (se_settings V)) r]\<rparr>)"
proof -
  let ?p = "sy_topic_prefix (se_settings V)" and ?db = "tr_sync s" and ?k = "qr_event_id r"
  have inv: "queue_ok ?db" "distinct (map qr_event_id (r # rs))" "\<forall>q \<in> set (r # rs). waits ?db ?p (row_entry ?p q)"
    "\<forall>q \<in> set (sd_rows ?db). is_published q \<longrightarrow> row_message ?p q \<in> set (tr_broker s)"
    "\<forall>q \<in> set (sd_rows ?db). row_entry ?p q \<in> tr_taken s"
    "\<forall>x \<in> tr_taken s. waits ?db ?p x \<or> snd x \<in> set (tr_broker s)"
    using assms(1,2) by (simp_all add: train_inv_def Let_def)
  have same: "row_message ?p q = row_message ?p r" if "q \<in> set (sd_rows ?db)" "qr_event_id q = ?k" for q
  proof -
    obtain r0 where "r0 \<in> set (sd_rows ?db)" "row_entry ?p r0 = row_entry ?p r"
      using inv(3) by (auto simp: waits_def)
    with that inv(1) show ?thesis by (auto simp: queue_ok_def distinct_map inj_on_def row_entry_def)
  qed
  have batch: "waits (mark_published t ?db ?k) ?p (row_entry ?p q)" if "q \<in> set rs" for q
  proof -
    have "qr_event_id q \<noteq> ?k" using inv(2) that by (metis distinct.simps(2) image_eqI list.map(2) list.set_map)
    with inv(3) that show ?thesis by (intro waits_mark_published) (auto simp: row_entry_def)
  qed
  have pub: "row_message ?p q' \<in> set (tr_broker s @ [row_message ?p r])"
    if q': "q' \<in> set (sd_rows (mark_published t ?db ?k))" "is_published q'" for q'
  proof -
    obtain q where q: "q \<in> set (sd_rows ?db)" "q' = (if qr_event_id q = ?k then q\<lparr>qr_published_at := Some t\<rparr> else q)"
      using q'(1) unfolding mark_published_rows by auto
    show ?thesis
    proof (cases "qr_event_id q = ?k")
      case True
      with q same have "row_message ?p q' = row_message ?p r" by (simp add: row_message_def)
      then show ?thesis by simp
    next
      case False
      with q q'(2) inv(4) show ?thesis by simp
    qed
  qed
  have taken: "waits (mark_published t ?db ?k) ?p x \<or> snd x \<in> set (tr_broker s @ [row_message ?p r])" if x: "x \<in> tr_taken s" for x
  proof (cases "fst x = ?k")
    case True
    show ?thesis
    proof (cases "waits ?db ?p x")
      case w: True
      then obtain q where q: "q \<in> set (sd_rows ?db)" "row_entry ?p q = x" by (auto simp: waits_def)
      with True have "qr_event_id q = ?k" by (auto simp: row_entry_def)
      with same [OF q(1)] q(2) show ?thesis by (auto simp: row_entry_def)
    next
      case False
      with inv(6) x show ?thesis by auto
    qed
  next
    case False
    with inv(6) x waits_mark_published show ?thesis by (metis Un_iff set_append)
  qed
  have rows: "\<forall>q' \<in> set (sd_rows (mark_published t ?db ?k)). row_entry ?p q' \<in> tr_taken s"
    using inv(5) unfolding mark_published_rows by auto
  show ?thesis
    using inv(1,2) batch pub taken rows assms(3) by (simp add: train_inv_def Let_def mark_ok)
qed

lemma inv_failed:
  assumes "train_inv V s" "set broker \<supseteq> set (tr_broker s)" "pb_batch p = []"
  shows "train_inv V (s\<lparr>tr_publisher := p, tr_sync := mark_failed (tr_sync s) k e, tr_broker := broker\<rparr>)"
proof -
  let ?p = "sy_topic_prefix (se_settings V)" and ?db = "tr_sync s"
  have rows: "\<exists>q \<in> set (sd_rows ?db). row_entry ?p q' = row_entry ?p q \<and> is_published q' = is_published q"
    if "q' \<in> set (sd_rows (mark_failed ?db k e))" for q'
    using that by (auto simp: mark_failed_def update_rows_def is_published_def)
  have "row_message ?p q' \<in> set broker" if q': "q' \<in> set (sd_rows (mark_failed ?db k e))" "is_published q'" for q'
  proof -
    obtain q where "q \<in> set (sd_rows ?db)" "row_entry ?p q' = row_entry ?p q" "is_published q"
      using rows [OF q'(1)] q'(2) by auto
    with assms show ?thesis by (auto simp: train_inv_def Let_def row_entry_def)
  qed
  moreover have "row_entry ?p q' \<in> tr_taken s" if q': "q' \<in> set (sd_rows (mark_failed ?db k e))" for q'
    using rows [OF q'] assms(1) by (auto simp: train_inv_def Let_def)
  moreover have "waits (mark_failed ?db k e) ?p x \<or> snd x \<in> set broker" if "x \<in> tr_taken s" for x
  proof -
    have "waits ?db ?p x \<or> snd x \<in> set (tr_broker s)" using assms(1) that unfolding train_inv_def Let_def by blast
    then show ?thesis using waits_mark_failed assms(2) by blast
  qed
  ultimately show ?thesis using assms(1,3) by (simp add: train_inv_def Let_def mark_ok)
qed

lemma inv_settled:
  assumes "train_inv V s"
  shows "train_inv V (s\<lparr>tr_ack := a, tr_sync := settle_ack t (tr_sync s) k\<rparr>)"
  using assms settle_rows(1) [of t "tr_sync s" k] waits_settle settle_ok
  by (simp add: train_inv_def Let_def) blast

lemma inv_publish:
  assumes "train_inv V s"
    and "publish_next (sy_topic_prefix (se_settings V)) t reply (tr_publisher s) (tr_sync s) (tr_broker s) = Some (ok, p', db', broker')"
  shows "train_inv V (s\<lparr>tr_publisher := if ok then p' else snd (on_disconnect up p'), tr_sync := db', tr_broker := broker'\<rparr>)"
proof -
  obtain r rs where b: "pb_batch (tr_publisher s) = r # rs"
    using assms(2) by (auto simp: publish_next_def split: list.splits)
  show ?thesis
  proof (cases reply)
    case Puback
    with b assms(2) have "ok" "pb_batch p' = rs" "db' = mark_published t (tr_sync s) (qr_event_id r)"
      "broker' = tr_broker s @ [row_message (sy_topic_prefix (se_settings V)) r]"
      by (auto simp: publish_next_def publish_row_def)
    with inv_published [OF assms(1) b] show ?thesis by simp
  next
    case (Broker_error err arrived)
    with b assms(2) have "\<not> ok" "db' = mark_failed (tr_sync s) (qr_event_id r) err" "set (tr_broker s) \<subseteq> set broker'"
      by (auto simp: publish_next_def publish_row_def)
    with inv_failed [OF assms(1)] show ?thesis by (simp add: on_disconnect_def Let_def)
  qed
qed

lemma inv_broker:
  "train_inv V s \<Longrightarrow> set (tr_broker s) \<subseteq> set broker \<Longrightarrow> pb_batch p = [] \<Longrightarrow>
     train_inv V (s\<lparr>tr_publisher := p, tr_broker := broker\<rparr>)"
  by (auto simp: train_inv_def Let_def)

lemma inv_frame:
  assumes "train_inv V s"
  shows "train_inv V (s\<lparr>tr_store := db\<rparr>)" "train_inv V (s\<lparr>tr_page := pg\<rparr>)" "train_inv V (s\<lparr>tr_ack := a\<rparr>)"
  using assms by (simp_all add: train_inv_def Let_def)

lemma train_step_inv:
  assumes "train_inv V s" "train_step V s s'"
  shows "train_inv V s'"
  using assms(2)
proof cases
  case (page_taken reply db' fails t)
  with inv_growth [OF assms(1) queue_grows_round] show ?thesis by simp
next
  case (page_breaks page db' fails n)
  with inv_growth [OF assms(1) queue_grows_page] show ?thesis by simp
next
  case (reads_batch)
  have "queue_ok (tr_sync s)" using assms(1) by (simp add: train_inv_def Let_def)
  moreover have "waits (tr_sync s) p (row_entry p r)" if "r \<in> set (iter_pending (tr_sync s) n)" for p r n
    using that iter_pending_sub unfolding waits_def by blast
  ultimately show ?thesis
    unfolding reads_batch(1) by (intro inv_batch [OF assms(1)]) (simp_all add: read_batch_def iter_pending_distinct)
next
  case (publishes t reply ok p' db' broker' up)
  with inv_publish assms(1) show ?thesis by blast
next
  case (loop_fails broker')
  then have "set (tr_broker s) \<subseteq> set broker'" by auto
  with inv_broker [OF assms(1), of broker' "on_loop_error (tr_publisher s)"] show ?thesis
    unfolding loop_fails(1) by (simp add: on_loop_error_def)
next
  case (ack_ends k reply t r db')
  then have "db' = tr_sync s \<or> (\<exists>k. db' = settle_ack t (tr_sync s) k)"
    by (auto simp: ack_finish_def split: sum.splits json.splits)
  with ack_ends inv_settled [OF assms(1)] inv_frame(3) [OF assms(1)] show ?thesis by auto
next
  case restarts
  then have e: "s' = s\<lparr>tr_ack := None, tr_page := None, tr_publisher := init_publisher\<rparr>" by simp
  show ?thesis
    unfolding e by (rule inv_batch [OF inv_frame(2) [OF inv_frame(3) [OF assms(1)]]]) (simp_all add: init_publisher_def)
qed (use inv_frame [OF assms(1)] inv_batch [OF assms(1)] in \<open>auto simp: on_connect_def on_disconnect_def Let_def\<close>)

definition train_start :: "train \<Rightarrow> bool" where
  "train_start s = (s = init_train)"

interpretation trains: invariant_system train_start "train_step V" "train_inv V" for V
proof
  show "train_inv V s" if "train_start s" for s
    using that by (simp add: train_start_def train_inv_def init_train_def init_sync_db_def init_publisher_def queue_ok_def)
  show "train_inv V t" if "train_inv V s" "train_step V s t" for s t
    using train_step_inv that by blast
qed

end
