(* ===== verification/Sync_Properties.thy ===== *)
theory Sync_Properties
  imports Sync_Train Store_Properties
begin

text \<open>
  The properties of cloud-sync: nothing taken is lost before the broker has it, an
  acknowledgement covers delivered events only, how far pulling gets and where it stops for
  good, the rate limit and the topics.
\<close>

section \<open>A run\<close>

definition sample_sync_env :: sync_env where
  "sample_sync_env = \<lparr>se_store = sample_store_env, se_settings = default_sync_settings\<lparr>sy_pull_batch_size := 1\<rparr>,
     se_dumps = (\<lambda>d. []), se_str = (\<lambda>j. [])\<rparr>"

lemma sample_sync_accepts: "env_accepts sample_sync_env" "batch sample_sync_env = 1"
  by (simp_all add: env_accepts_def sample_sync_env_def default_sync_settings_def sample_env_open batch_def)

text \<open>One event is posted, pulled, published and waits to be acknowledged.\<close>

abbreviation (input) one_event :: store where
  "one_event \<equiv> init_db\<lparr>db_events := [sample_row 0 ''17'' RAMP_DEPLOYED]\<rparr>"

definition one_row :: "string option \<Rightarrow> queue_row" where
  "one_row pub = \<lparr>qr_event_id = sample_uuid 0, qr_vehicle_id = ''T1'', qr_event_type = ''RAMP_DEPLOYED'',
     qr_timestamp = ''2026-05-17T10:00:00Z'', qr_envelope_json = [], qr_published_at = pub, qr_attempts = 0, qr_last_error = None\<rparr>"

definition one_queued :: "string option \<Rightarrow> sync_db" where
  "one_queued pub = \<lparr>sd_rows = [one_row pub], sd_pulled = Some (sample_uuid 0), sd_acked = None, sd_updated_at = Some ''t''\<rparr>"

definition one_message :: message where
  "one_message = row_message ''oebb/events'' (one_row None)"

lemma one_event_ok: "store_ok one_event" "chron one_event = [sample_row 0 ''17'' RAMP_DEPLOYED]"
  using stores.reach_inv [OF one_row_reachable] by (simp_all add: store_inv_def chron_def)

lemma one_turn: "pull_turn sample_sync_env no_errors uuid now ''t'' one_event init_sync_db = one_queued None"
proof -
  let ?e = "sample_row 0 ''17'' RAMP_DEPLOYED" and ?V = sample_sync_env
  have "env_released ?V ?e \<noteq> None"
    by (simp only: env_released_def released_iff) (simp add: drop_event_types_def)
  then obtain q where q: "env_released ?V ?e = Some q" by blast
  have d: "List.map_filter (env_released ?V) (take (batch ?V) [?e]) = [q]"
    using q by (simp add: sample_sync_accepts map_filter_simps)
  have k: "last_well_formed_event_id (se_str ?V) [q] = Some (sample_uuid 0)"
    using last_released [OF q, of "[]" "se_str ?V" "[]"] q by (simp add: map_filter_simps)
  have "row_of_envelope (se_dumps ?V) q = Inr (one_row None)"
    using released_json [OF q [unfolded env_released_def]]
    by (simp add: row_of_envelope_def str_column_def one_row_def sample_sync_env_def) (simp add: sample_row_def)
  moreover have "well_formed q" using released_well_formed [OF q] by blast
  ultimately have "enqueue_page (se_dumps ?V) no_errors init_sync_db [q] = init_sync_db\<lparr>sd_rows := [one_row None]\<rparr>"
    by (simp add: enqueue_event_def init_sync_db_def)
  with turn_page [OF one_event_ok(1) sample_sync_accepts(1), of "[]" "[?e]" init_sync_db no_errors uuid now "''t''"] d k one_event_ok(2)
  show ?thesis
    by (simp add: cursor_after_def init_sync_db_def cursor_state_set_pulled_def one_queued_def)
qed

definition published_train :: train where
  "published_train = \<lparr>tr_store = one_event, tr_sync = one_queued (Some ''t''),
     tr_publisher = \<lparr>pb_connected = True, pb_reconnect_attempt = 0, pb_batch = [], pb_last_publish_utc = Some ''t''\<rparr>,
     tr_page = None, tr_ack = None, tr_broker = [one_message], tr_taken = {(sample_uuid 0, one_message)}\<rparr>"

lemma published_reachable: "reach train_start (train_step sample_sync_env) published_train"
proof -
  let ?V = sample_sync_env
  let ?R = "reach train_start (train_step ?V)"
  let ?reply = "read_page (ask ?V (sample_uuid 0) sample_time (pull_request None (sy_pull_batch_size (se_settings ?V))) one_event)"
  have pre: "sy_topic_prefix (se_settings ?V) = ''oebb/events''" "nat (sy_publish_rate (se_settings ?V)) = 500" "se_store ?V = sample_store_env"
    by (simp_all add: sample_sync_env_def default_sync_settings_def)
  have go: "?R t" if "?R s" "train_step ?V s t" for s t using that by (rule reach_step)
  have 0: "?R init_train" by (rule reach_init) (simp add: train_start_def)
  have tr: "tr_store init_train = init_db" by (simp add: init_train_def)
  have "store_handle (se_store ?V) None (sample_uuid 0) sample_time
      (Post_event (envelope_json (sample_row 0 ''17'' RAMP_DEPLOYED))) (tr_store init_train) =
      (Ingested 201 (sample_uuid 0) True, one_event, Some (sample_row 0 ''17'' RAMP_DEPLOYED))"
    unfolding tr pre by (rule first_post)
  from store_moves [OF sample_uuid_ok this]
  have s1: "train_step ?V init_train (init_train\<lparr>tr_store := one_event\<rparr>)" .
  have 1: "?R (init_train\<lparr>tr_store := one_event\<rparr>)" by (rule go [OF 0 s1])
  have s2: "train_step ?V (init_train\<lparr>tr_store := one_event\<rparr>) (init_train\<lparr>tr_store := one_event, tr_page := Some ?reply\<rparr>)"
    by (rule page_comes [where uuid = "sample_uuid 0" and now = sample_time and s = "init_train\<lparr>tr_store := one_event\<rparr>"])
      (simp_all add: init_train_def init_sync_db_def)
  have 2: "?R (init_train\<lparr>tr_store := one_event, tr_page := Some ?reply\<rparr>)" by (rule go [OF 1 s2])
  have turn: "one_queued None = pull_round (se_str ?V) (se_dumps ?V) no_errors ''t'' ?reply init_sync_db"
    using one_turn [of "sample_uuid 0" sample_time] by (simp add: pull_turn_def init_sync_db_def)
  have taken: "taken_since ''oebb/events'' init_sync_db (one_queued None) = {(sample_uuid 0, one_message)}"
    by (auto simp: taken_since_def init_sync_db_def one_queued_def row_entry_def one_message_def) (simp_all add: one_row_def)
  let ?t = "init_train\<lparr>tr_store := one_event, tr_sync := one_queued None, tr_taken := {(sample_uuid 0, one_message)}\<rparr>"
  have "train_step ?V (init_train\<lparr>tr_store := one_event, tr_page := Some ?reply\<rparr>)
      (init_train\<lparr>tr_store := one_event, tr_page := Some ?reply, tr_page := None, tr_sync := one_queued None,
        tr_taken := tr_taken init_train \<union> taken_since ''oebb/events'' init_sync_db (one_queued None)\<rparr>)"
    using page_taken [where V = ?V and s = "init_train\<lparr>tr_store := one_event, tr_page := Some ?reply\<rparr>" and reply = ?reply and t = "''t''"
      and db' = "one_queued None"] turn by (simp add: pre init_train_def)
  from go [OF 2 this] have 3: "?R ?t" by (simp add: taken init_train_def)
  let ?p = "\<lambda>b u. \<lparr>pb_connected = True, pb_reconnect_attempt = 0, pb_batch = b, pb_last_publish_utc = u\<rparr>"
  have 4: "?R (?t\<lparr>tr_publisher := ?p [] None\<rparr>)"
    using go [OF 3 broker_connects [where s = ?t]] by (simp add: init_train_def on_connect_def init_publisher_def)
  have "iter_pending (one_queued None) 500 = [one_row None]"
    by (simp add: iter_pending_def pending_rows_def one_queued_def is_published_def one_row_def)
  then have 5: "?R (?t\<lparr>tr_publisher := ?p [one_row None] None\<rparr>)"
    using go [OF 4 reads_batch [where s = "?t\<lparr>tr_publisher := ?p [] None\<rparr>"]] by (simp add: init_train_def read_batch_def pre)
  have pb: "publish_next ''oebb/events'' ''t'' Puback (?p [one_row None] None) (one_queued None) [] =
      Some (True, ?p [] (Some ''t''), one_queued (Some ''t''), [one_message])"
    by (simp add: publish_next_def publish_row_def mark_published_def update_rows_def one_queued_def one_message_def)
      (simp add: one_row_def)
  have "train_step ?V (?t\<lparr>tr_publisher := ?p [one_row None] None\<rparr>) published_train"
    using publishes [where V = ?V and t = "''t''" and reply = Puback and ok = True and s = "?t\<lparr>tr_publisher := ?p [one_row None] None\<rparr>"] pb
    by (simp add: init_train_def pre published_train_def)
  from go [OF 5 this] show ?thesis .
qed

lemma published_ack: "ack_begin (tr_sync published_train) = Some (sample_uuid 0)"
  by (simp add: ack_begin_def contiguous_published_prefix_def pending_rows_def published_rows_def published_train_def
      one_queued_def is_published_def last_id_def one_row_def)

section \<open>Delivery\<close>

text \<open>C1: Delivery is at least once: whatever was ever taken into the queue, through any
  interleaving of the three loops, database errors on single rows, broker failures, lost
  acknowledgements, errors between the broker's reply and the note of it, drift and restarts, within a
  page too, is at the broker or still waits unpublished in the queue; every published row is at the
  broker, and a row leaves the queue only after that. (A row that the database refuses is not taken:
  \<open>skipped_row_lost\<close>.)\<close>

theorem at_least_once:
  assumes "reach train_start (train_step V) s"
  shows "(\<forall>(i, m) \<in> tr_taken s. m \<in> set (tr_broker s) \<or>
      (\<exists>r \<in> set (sd_rows (tr_sync s)). qr_event_id r = i \<and> \<not> is_published r \<and> row_message (sy_topic_prefix (se_settings V)) r = m)) \<and>
    (\<forall>r \<in> set (sd_rows (tr_sync s)). is_published r \<longrightarrow> row_message (sy_topic_prefix (se_settings V)) r \<in> set (tr_broker s)) \<and>
    (train_step V s s' \<longrightarrow> (\<forall>r \<in> set (sd_rows (tr_sync s)). qr_event_id r \<notin> row_ids (tr_sync s') \<longrightarrow>
      row_message (sy_topic_prefix (se_settings V)) r \<in> set (tr_broker s')))"
proof -
  let ?p = "sy_topic_prefix (se_settings V)"
  have inv: "train_inv V s" using trains.reach_inv [OF assms] .
  have last: "row_message ?p r \<in> set (tr_broker s')"
    if st: "train_step V s s'" and r: "r \<in> set (sd_rows (tr_sync s))" "qr_event_id r \<notin> row_ids (tr_sync s')" for r
  proof -
    have "train_inv V s'" using train_step_inv inv st by blast
    moreover have "row_entry ?p r \<in> tr_taken s" using inv r(1) by (simp add: train_inv_def Let_def)
    moreover from st have "tr_taken s \<subseteq> tr_taken s'" by cases auto
    ultimately have "waits (tr_sync s') ?p (row_entry ?p r) \<or> row_message ?p r \<in> set (tr_broker s')"
      by (auto simp: train_inv_def Let_def row_entry_def)
    moreover have "\<not> waits (tr_sync s') ?p (row_entry ?p r)"
    proof
      assume "waits (tr_sync s') ?p (row_entry ?p r)"
      then obtain q where "q \<in> set (sd_rows (tr_sync s'))" "qr_event_id q = qr_event_id r" by (auto simp: waits_def row_entry_def)
      then have "qr_event_id r \<in> row_ids (tr_sync s')" unfolding row_ids_def by (metis image_eqI)
      with r(2) show False ..
    qed
    ultimately show ?thesis by blast
  qed
  have "\<forall>x \<in> tr_taken s. waits (tr_sync s) ?p x \<or> snd x \<in> set (tr_broker s)"
    using inv by (simp add: train_inv_def Let_def)
  then have "\<forall>(i, m) \<in> tr_taken s. m \<in> set (tr_broker s) \<or>
      (\<exists>r \<in> set (sd_rows (tr_sync s)). qr_event_id r = i \<and> \<not> is_published r \<and> row_message ?p r = m)"
    unfolding waits_def row_entry_def by fastforce
  with inv last show ?thesis by (simp add: train_inv_def Let_def)
qed

theorem at_least_once_witness: "one_message \<in> set (tr_broker published_train)"
  using conjunct1 [OF conjunct2 [OF at_least_once [OF published_reachable]]]
  by (simp add: published_train_def one_queued_def is_published_def one_row_def one_message_def row_message_def
      sample_sync_env_def default_sync_settings_def)

text \<open>C31: An acknowledgement covers delivered events only: the cursor the loop sends is the id of a
  published row, and every row of the queue at or before it in (timestamp, event id) order is at
  the broker.\<close>

theorem ack_covers_delivered:
  assumes "reach train_start (train_step V) s" "ack_begin (tr_sync s) = Some k"
  shows "\<exists>c. find_row (tr_sync s) k = Some c \<and> is_published c \<and>
    (\<forall>r \<in> set (sd_rows (tr_sync s)). qr_key r \<le> qr_key c \<longrightarrow>
       row_message (sy_topic_prefix (se_settings V)) r \<in> set (tr_broker s))"
proof -
  have inv: "train_inv V s" using trains.reach_inv [OF assms(1)] .
  then have ok: "queue_ok (tr_sync s)" by (simp add: train_inv_def Let_def)
  have "contiguous_published_prefix (tr_sync s) = Some k"
    using assms(2) by (auto simp: ack_begin_def split: option.splits if_splits)
  from prefix_published [OF ok this] obtain c where
    "find_row (tr_sync s) k = Some c" "is_published c" "\<And>r. r \<in> set (sd_rows (tr_sync s)) \<Longrightarrow> qr_key r \<le> qr_key c \<Longrightarrow> is_published r"
    by blast
  with inv show ?thesis by (auto simp: train_inv_def Let_def)
qed

theorem ack_covers_delivered_witness: "find_row (one_queued (Some ''t'')) (sample_uuid 0) \<noteq> None"
  using ack_covers_delivered [OF published_reachable published_ack] by (auto simp: published_train_def)

text \<open>The two SQL queries that find the acknowledgeable cursor agree with the walk they replace:
  the id of the last row before the first unpublished one in (timestamp, event id) order, nothing
  when the first row is unpublished.\<close>

theorem prefix_is_walk:
  assumes "queue_ok db"
  shows "contiguous_published_prefix db =
    (case takeWhile is_published (sort_key qr_key (sd_rows db)) of [] \<Rightarrow> None | r # rs \<Rightarrow> Some (qr_event_id (last (r # rs))))"
  using prefix_walk [OF assms] by (simp add: last_id_def queue_order_def split: list.split)

definition sample_queue_row :: "string \<Rightarrow> string option \<Rightarrow> queue_row" where
  "sample_queue_row i pub = \<lparr>qr_event_id = i, qr_vehicle_id = ''T1'', qr_event_type = ''RAMP_DEPLOYED'', qr_timestamp = ''t'' @ i,
     qr_envelope_json = i, qr_published_at = pub, qr_attempts = 0, qr_last_error = None\<rparr>"

theorem prefix_is_walk_witness:
  "contiguous_published_prefix (init_sync_db\<lparr>sd_rows := [sample_queue_row ''c'' (Some ''n''), sample_queue_row ''b'' None,
     sample_queue_row ''a'' (Some ''n'')]\<rparr>) = Some ''a''"
proof -
  have "queue_ok (init_sync_db\<lparr>sd_rows := [sample_queue_row ''c'' (Some ''n''), sample_queue_row ''b'' None,
     sample_queue_row ''a'' (Some ''n'')]\<rparr>)" by (simp add: queue_ok_def sample_queue_row_def)
  from prefix_is_walk [OF this] show ?thesis by (simp add: sample_queue_row_def qr_key_def is_published_def)
qed

section \<open>Pulling\<close>

text \<open>C29: Pulling catches up with a table that stands still. The cursor is either not set yet or
  names a row of the table, \<open>pre\<close> being the events up to it in (timestamp, id) order and
  \<open>suf\<close> those after it; no full page of \<open>suf\<close> is withheld as a whole. Then as many turns as
  there are events in \<open>suf\<close>, and one more, put every released event of \<open>suf\<close> into the queue
  and take nothing out of it, if the database refuses no insertion. With no cursor yet these are all
  the released events of the table.\<close>

theorem pull_catches_up:
  assumes "store_ok st" "env_accepts V" "chron st = pre @ suf" "sd_pulled db = cursor_after pre"
    and "\<forall>i. i + batch V \<le> length suf \<longrightarrow> (\<exists>x \<in> set (take (batch V) (drop i suf)). env_released V x \<noteq> None)"
  shows "row_ids db \<union> {ev_id e | e. e \<in> set suf \<and> env_released V e \<noteq> None} \<subseteq>
    row_ids (pull_turns (Suc (length suf)) V (\<lambda>j. no_errors) uuid now t st db) \<and>
    (sd_pulled db = None \<longrightarrow> set suf = set (db_events st))"
proof -
  have "suf = chron st" if "sd_pulled db = None" using assms(3,4) that by (auto simp: cursor_after_def split: if_splits)
  with turns_catch_up [OF assms(1-3) _ assms(4) subset_refl assms(5), of "Suc (length suf)" uuid now t] show ?thesis
    by (auto simp: released_ids_def)
qed

text \<open>A withheld page stops the pull for good: when as many successive events as a page holds
  are of a withheld type, the page is empty though its next_cursor points past them; the loop does
  not use next_cursor, keeps its cursor and asks for the same page forever, and no event behind
  them reaches the cloud however many turns it takes.\<close>

theorem withheld_page_stops_pull:
  assumes "store_ok st" "env_accepts V" "chron st = pre @ ws @ rest" "length ws = batch V"
    and "\<forall>e \<in> set ws. event_type_value (ev_type e) \<in> set drop_event_types" "sd_pulled db = cursor_after pre"
  shows "ask V uuid now (pull_request (sd_pulled db) (sy_pull_batch_size (se_settings V))) st =
      Page [] 0 None (Some (ev_id (last ws))) \<and>
    pull_turns k V F uuid now t st db = db"
proof -
  have w: "take (batch V) (ws @ rest) = ws" "batch V \<le> length (ws @ rest)" using assms(4) by simp_all
  have none: "\<forall>x \<in> set (take (batch V) (ws @ rest)). env_released V x = None"
    using assms(5) by (simp only: w(1) env_released_def released_iff)
  then have "List.map_filter (env_released V) ws = []"
    unfolding w(1) by (simp add: map_filter_def filter_empty_conv)
  then have "ask V uuid now (pull_request (sd_pulled db) (sy_pull_batch_size (se_settings V))) st =
      Page [] 0 None (Some (ev_id (last ws)))"
    using ask_page [OF assms(1-3)] w assms(6) by simp
  moreover have "pull_turn V fails uuid now t st db = db" for fails
    by (rule turn_stays [OF assms(1-3,6) none])
  then have "pull_turns k V F uuid now t st db = db" by (rule turns_stay)
  ultimately show ?thesis by simp
qed

lemma two_rows_chron: "chron two_rows = [sample_row 0 ''17'' ACCESSIBILITY_DETECTED, sample_row 1 ''18'' RAMP_DEPLOYED]"
  by (simp add: chron_def two_rows_def row_key_def)

theorem withheld_page_stops_pull_witness:
  "pull_turns 1000 sample_sync_env (\<lambda>j. no_errors) (sample_uuid 1) sample_time ''t'' two_rows init_sync_db = init_sync_db"
proof -
  have c: "chron two_rows = [] @ [sample_row 0 ''17'' ACCESSIBILITY_DETECTED] @ [sample_row 1 ''18'' RAMP_DEPLOYED]"
    using two_rows_chron by simp
  have "sd_pulled init_sync_db = cursor_after []" by (simp add: init_sync_db_def cursor_after_def)
  from conjunct2 [OF withheld_page_stops_pull [OF two_rows_ok sample_sync_accepts(1) c _ _ this]] show ?thesis
    by (simp add: sample_sync_accepts drop_event_types_def)
qed

theorem pull_catches_up_witness:
  "sample_uuid 0 \<in> row_ids (pull_turns 2 sample_sync_env (\<lambda>j. no_errors) (sample_uuid 1) sample_time ''t'' one_event init_sync_db)"
proof -
  let ?e = "sample_row 0 ''17'' RAMP_DEPLOYED"
  have rel: "env_released sample_sync_env ?e \<noteq> None"
    by (simp only: env_released_def released_iff) (simp add: drop_event_types_def)
  have "\<forall>i. i + batch sample_sync_env \<le> length [?e] \<longrightarrow>
      (\<exists>x \<in> set (take (batch sample_sync_env) (drop i [?e])). env_released sample_sync_env x \<noteq> None)"
    using rel by (simp add: sample_sync_accepts)
  moreover have "chron one_event = [] @ [?e]" "sd_pulled init_sync_db = cursor_after []"
    by (simp_all add: one_event_ok init_sync_db_def cursor_after_def)
  ultimately have "{ev_id e | e. e \<in> set [?e] \<and> env_released sample_sync_env e \<noteq> None} \<subseteq>
      row_ids (pull_turns (Suc (length [?e])) sample_sync_env (\<lambda>j. no_errors) (sample_uuid 1) sample_time ''t'' one_event init_sync_db)"
    using pull_catches_up [OF one_event_ok(1) sample_sync_accepts(1)] by blast
  with rel show ?thesis by (auto simp: numeral_2_eq_2)
qed

text \<open>A row the database refuses is lost to the cloud: the turn skips it and still moves the cursor
  past it, so no later turn asks for it again.\<close>

theorem skipped_row_lost:
  assumes "F 0 0"
  shows "pull_turns (Suc k) sample_sync_env F uuid now ''t'' one_event init_sync_db =
    init_sync_db\<lparr>sd_pulled := Some (sample_uuid 0), sd_updated_at := Some ''t''\<rparr>"
proof -
  let ?e = "sample_row 0 ''17'' RAMP_DEPLOYED" and ?V = sample_sync_env
  let ?db = "init_sync_db\<lparr>sd_pulled := Some (sample_uuid 0), sd_updated_at := Some ''t''\<rparr>"
  have "env_released ?V ?e \<noteq> None"
    by (simp only: env_released_def released_iff) (simp add: drop_event_types_def)
  then obtain q where q: "env_released ?V ?e = Some q" by blast
  have d: "List.map_filter (env_released ?V) (take (batch ?V) [?e]) = [q]"
    using q by (simp add: sample_sync_accepts map_filter_simps)
  have k: "last_well_formed_event_id (se_str ?V) [q] = Some (sample_uuid 0)"
    using last_released [OF q, of "[]" "se_str ?V" "[]"] q by (simp add: map_filter_simps)
  have first: "pull_turn ?V (F 0) uuid now ''t'' one_event init_sync_db = ?db"
    using turn_page [OF one_event_ok(1) sample_sync_accepts(1), of "[]" "[?e]" init_sync_db "F 0" uuid now "''t''"] d k assms
    by (simp add: one_event_ok(2) cursor_after_def init_sync_db_def cursor_state_set_pulled_def)
  have "pull_turn ?V fails uuid now ''t'' one_event ?db = ?db" for fails
    by (rule turn_stays [OF one_event_ok(1) sample_sync_accepts(1), of "[?e]" "[]"])
      (simp_all add: one_event_ok(2) cursor_after_def)
  then have "pull_turns k ?V (\<lambda>i. F (Suc i)) uuid now ''t'' one_event ?db = ?db" by (rule turns_stay)
  with first show ?thesis by simp
qed

text \<open>C30: An acknowledgement can stop the pull for good: when three journeys of the table are newer
  than the journey of the last pulled event, acknowledging any event the table holds, other than the
  one acknowledged last (that changes nothing), deletes the row the pull cursor names, and with it
  every event of that journey nobody pulled. From then on every turn is refused and takes nothing,
  whatever is stored later, as long as no producer posts the very event the cursor names again.\<close>

theorem ack_strands_pull:
  assumes "store_ok st" "env_accepts V" "sd_pulled db = Some p" "find_event st p = Some c"
    and "find_event st a \<noteq> None" "get_sync_cursor st \<noteq> a"
    and "J \<subseteq> ev_journey_id ` set (db_events st)" "3 \<le> card J"
    and "\<forall>j \<in> J. newest (db_events st) (ev_journey_id c) < newest (db_events st) j"
    and "advance_sync_cursor_endpoint u a st = (r, st1)"
    and "\<forall>e \<in> set (db_events st2) - set (db_events st1). ev_id e \<noteq> p"
  shows "(\<forall>e \<in> set (db_events st1). ev_journey_id e \<noteq> ev_journey_id c) \<and> pull_turns k V F uuid now t st2 db = db"
proof -
  let ?a = "advance_cursor st a u"
  have ev: "db_events ?a = db_events st" by (simp add: advance_cursor_def)
  have st1: "st1 = snd (truncate_old_journeys ?a 3)"
    using assms(5,6,10) by (auto simp: advance_sync_cursor_endpoint_def retained_journeys_def split: prod.splits)
  have gone: "e \<notin> set (db_events st1)" if "ev_journey_id e = ev_journey_id c" for e
    using truncate_deletes [of J ?a 3 e] assms(7-9) that by (simp add: st1 ev)
  have "ev_id e \<noteq> p" if e: "e \<in> set (db_events st1)" for e
  proof
    assume "ev_id e = p"
    moreover have "e \<in> set (db_events st)" using e truncate_subset [of ?a 3] by (auto simp: st1 ev)
    ultimately have "e = c" using find_event_of [OF assms(1)] assms(4) by fastforce
    with gone e show False by blast
  qed
  with assms(11) have "find_event st2 p = None" by (auto simp: find_event_None)
  moreover have "p \<noteq> []" using find_event_in [OF assms(4)] assms(1) by (auto simp: store_ok_def)
  ultimately have "pull_turn V fails uuid now t st2 db = db" for fails using turn_refused [OF assms(2,3)] by blast
  then have "pull_turns k V F uuid now t st2 db = db" by (rule turns_stay)
  with gone show ?thesis by blast
qed

theorem ack_strands_pull_witness:
  "pull_turns 1000 sample_sync_env (\<lambda>j. no_errors) (sample_uuid 1) sample_time ''t''
     (snd (advance_sync_cursor_endpoint [] (sample_uuid 0) four_days)) (init_sync_db\<lparr>sd_pulled := Some (sample_uuid 0)\<rparr>) =
   init_sync_db\<lparr>sd_pulled := Some (sample_uuid 0)\<rparr>"
proof -
  obtain r st1 where a: "advance_sync_cursor_endpoint [] (sample_uuid 0) four_days = (r, st1)" by fastforce
  have f: "find_event four_days (sample_uuid 0) = Some (sample_row 0 ''17'' RAMP_DEPLOYED)"
    by (simp add: find_event_def four_days_def)
  have c: "get_sync_cursor four_days \<noteq> sample_uuid 0"
    by (simp add: four_days_def get_sync_cursor_def keep_or_def init_db_def) (simp add: sample_uuid_def)
  have n: "find_event four_days (sample_uuid 0) \<noteq> None" using f by simp
  have p: "sd_pulled (init_sync_db\<lparr>sd_pulled := Some (sample_uuid 0)\<rparr>) = Some (sample_uuid 0)" by simp
  from conjunct2 [OF ack_strands_pull [OF four_days_ok sample_sync_accepts(1) p f n c four_days_later a, of st1]] a
  show ?thesis by simp
qed

section \<open>Publishing\<close>

text \<open>C40: The rate limit holds over reconnects and for any number of callers: from a new bucket of
  rate r, the tokens taken at instants up to time t number at most r + r * (t - start). And nobody
  waits in vain: in whatever state such turns have left the bucket, a caller that is told to wait is
  told a positive time, of at most 1 / r seconds, after which, if no other caller comes in between,
  it gets its token.\<close>

theorem rate_limited:
  assumes "new_bucket rate start = Inr b" "sorted (start # ts)"
  shows "of_nat (fst (acquire_turns b ts)) \<le> of_int rate + (last (start # ts) - start) * of_int rate \<and>
    (\<forall>now w b'. last (start # ts) \<le> now \<and> try_acquire now (snd (acquire_turns b ts)) = (Some w, b') \<longrightarrow>
       0 < w \<and> w \<le> 1 / of_int rate \<and> fst (try_acquire (now + w) b') = None)"
proof -
  have b: "tb_tokens b = of_int rate" "tb_rate b = of_int rate" "tb_last b = start"
    using assms(1) by (auto simp: new_bucket_def split: if_splits)
  note ok = new_bucket_ok [OF assms(1)]
  from acquire_turns_ok [OF ok, of ts] assms(2)
  have left: "bucket_ok (snd (acquire_turns b ts))" "tb_last (snd (acquire_turns b ts)) = last (start # ts)"
    "tb_rate (snd (acquire_turns b ts)) = of_int rate" unfolding b by simp_all
  show ?thesis
    using acquire_turns_bound [OF ok, of ts] assms(2) acquire_after_wait [OF _ left(1)] unfolding left(2,3) b by blast
qed

text \<open>A bucket of rate 1, emptied at once: the next caller waits a second and then gets its token.\<close>

theorem rate_limited_witness:
  "\<exists>b b'. new_bucket 1 0 = Inr b \<and> of_nat (fst (acquire_turns b [0, 0, 0])) \<le> (1 :: rat) \<and>
     try_acquire 0 (snd (acquire_turns b [0, 0, 0])) = (Some 1, b') \<and> fst (try_acquire 1 b') = None"
proof -
  let ?b = "\<lparr>tb_rate = 1, tb_tokens = 1, tb_last = 0\<rparr> :: token_bucket"
  have b: "new_bucket 1 0 = Inr ?b" by (simp add: new_bucket_def)
  have s: "sorted [0, 0, 0, 0 :: rat]" by simp
  have w: "try_acquire 0 (snd (acquire_turns ?b [0, 0, 0])) = (Some 1, ?b\<lparr>tb_tokens := 0\<rparr>)"
    by (simp add: try_acquire_def)
  note r = rate_limited [OF b s]
  from r have "of_nat (fst (acquire_turns ?b [0, 0, 0])) \<le> (1 :: rat)" by simp
  moreover from r w have "fst (try_acquire (0 + 1) (?b\<lparr>tb_tokens := 0\<rparr>)) = None" by fastforce
  ultimately show ?thesis using b w by (intro exI [of _ ?b] exI [of _ "?b\<lparr>tb_tokens := 0\<rparr>"]) simp
qed

text \<open>Topics are well formed: for an event type of the catalogue the topic is the prefix without
  trailing slashes, the vehicle slug and the type, and for any vehicle id and any type the two
  levels contain no slash and no MQTT wildcard and the vehicle level is never empty.\<close>

theorem topic_well_formed:
  "build_topic prefix v (event_type_value e) = rstrip_slash prefix @ ''/'' @ slugify_vehicle_id v @ ''/'' @ event_type_value e \<and>
   (\<exists>ty. build_topic prefix v et = rstrip_slash prefix @ ''/'' @ slugify_vehicle_id v @ ''/'' @ ty \<and>
      slugify_vehicle_id v \<noteq> [] \<and>
      set (slugify_vehicle_id v @ ty) \<inter> {CHR ''/'', CHR ''+'', CHR ''#''} = {})"
proof -
  have plain: "c \<notin> {CHR ''/'', CHR ''+'', CHR ''#''}" if "is_alnum c \<or> c = CHR ''_'' \<or> c = CHR ''-''" for c
  proof
    assume "c \<in> {CHR ''/'', CHR ''+'', CHR ''#''}"
    then have "c = CHR ''/'' \<or> c = CHR ''+'' \<or> c = CHR ''#''" by simp
    with that not_alnum show False by (elim disjE; hypsubst) simp_all
  qed
  have veh: "set (slugify_vehicle_id v) \<inter> {CHR ''/'', CHR ''+'', CHR ''#''} = {}"
  proof -
    have "c \<notin> {CHR ''/'', CHR ''+'', CHR ''#''}" if "c \<in> set (slugify_vehicle_id v)" for c
      by (rule plain) (use slug_vehicle_chars [OF that] in argo)
    then show ?thesis by (simp only: disjoint_iff) simp
  qed
  have ty: "set (if event_type_of et \<noteq> None then et else ascii_upper (slug_with CHR ''_'' et)) \<inter> {CHR ''/'', CHR ''+'', CHR ''#''} = {}"
  proof (cases "event_type_of et")
    case None
    have "\<forall>d \<in> set (slug_with CHR ''_'' et). is_alnum d \<or> d = CHR ''_'' \<or> d = CHR ''-''" using slug_chars by blast
    from upper_chars [OF _ this]
    have "c \<notin> {CHR ''/'', CHR ''+'', CHR ''#''}" if "c \<in> set (ascii_upper (slug_with CHR ''_'' et))" for c
      using that plain by metis
    with None show ?thesis by (simp only: disjoint_iff) simp
  next
    case (Some e)
    then have et: "et = event_type_value e" using event_type_of_Some by auto
    have "c \<notin> {CHR ''/'', CHR ''+'', CHR ''#''}" if "c \<in> set et" for c
      by (rule plain) (use type_value_chars [OF that [unfolded et]] in argo)
    with Some show ?thesis by (simp only: disjoint_iff) simp
  qed
  let ?ty = "if event_type_of et \<noteq> None then et else ascii_upper (slug_with CHR ''_'' et)"
  have "set (slugify_vehicle_id v @ ?ty) \<inter> {CHR ''/'', CHR ''+'', CHR ''#''} = {}"
    unfolding set_append Int_Un_distrib2 using veh ty by blast
  then have "\<exists>ty. build_topic prefix v et = rstrip_slash prefix @ ''/'' @ slugify_vehicle_id v @ ''/'' @ ty \<and>
      slugify_vehicle_id v \<noteq> [] \<and> set (slugify_vehicle_id v @ ty) \<inter> {CHR ''/'', CHR ''+'', CHR ''#''} = {}"
    using slug_vehicle_nonempty by (intro exI [of _ ?ty] conjI) (simp only: build_topic_def)
  moreover have "build_topic prefix v (event_type_value e) =
      rstrip_slash prefix @ ''/'' @ slugify_vehicle_id v @ ''/'' @ event_type_value e"
    by (simp add: build_topic_def)
  ultimately show ?thesis by blast
qed

end
