(* ===== verification/Vlan_Decoder.thy ===== *)
theory Vlan_Decoder
  imports Event_Types
begin

text \<open>
  \<open>vlan-pollers/src/vlan_pollers/snmp_decoder.py\<close>: the alarm table and the trip number out
  of the varbinds of a GETBULK walk. A varbind is an object identifier and a value, both as the
  strings the poller renders them to.
\<close>

section \<open>Object identifiers\<close>

type_synonym varbind = "string \<times> string"

definition im0_alarm_entry_prefix :: string where
  "im0_alarm_entry_prefix = ''1.3.6.1.4.1.1234.1.2.1''"

definition im0_trip_scalar_oid :: string where
  "im0_trip_scalar_oid = ''1.3.6.1.4.1.1234.1.1.1.0''"

definition lstrip_dots :: "string \<Rightarrow> string" where
  "lstrip_dots = dropWhile (\<lambda>c. c = CHR ''.'')"

text \<open>The column and the row of a cell; \<open>None\<close> for what is skipped.\<close>

definition alarm_cell :: "string \<Rightarrow> (string \<times> string) option" where
  "alarm_cell oid =
     (if \<not> py_startswith oid im0_alarm_entry_prefix then None
      else split_once CHR ''.'' (lstrip_dots (drop (length im0_alarm_entry_prefix) oid)))"

section \<open>Rows\<close>

record alarm_row =
  ar_alarm_id :: string
  ar_description :: string
  ar_severity :: severity
  ar_active :: bool

definition severity_map :: "(int, severity) dict" where
  "severity_map = [(1, Sev_critical), (2, Sev_critical), (3, Sev_warning), (4, Sev_warning), (5, Sev_info), (6, Sev_info)]"

definition map_severity :: "int \<Rightarrow> severity" where
  "map_severity raw = dget_or severity_map raw Sev_info"

definition int_column :: "(string, string) dict \<Rightarrow> string \<Rightarrow> int \<Rightarrow> int res" where
  "int_column cols k d = (case dget cols k of None \<Rightarrow> Inr d | Some s \<Rightarrow> of_opt ValueError (str_int s))"

definition build_alarm_row :: "string \<Rightarrow> (string, string) dict \<Rightarrow> alarm_row res" where
  "build_alarm_row row_idx cols =
     bind_res (int_column cols ''3'' 6) (\<lambda>raw_severity.
     bind_res (int_column cols ''4'' 1) (\<lambda>raw_active.
       Inr \<lparr>ar_alarm_id = dget_or cols ''1'' row_idx, ar_description = dget_or cols ''2'' [],
            ar_severity = map_severity raw_severity, ar_active = (raw_active = 1)\<rparr>))"

definition add_cell :: "(string, (string, string) dict) dict \<Rightarrow> varbind \<Rightarrow> (string, (string, string) dict) dict" where
  "add_cell rows vb =
     (case alarm_cell (fst vb) of
        None \<Rightarrow> rows
      | Some (col, row_idx) \<Rightarrow> dset rows row_idx (dset (dget_or rows row_idx []) col (snd vb)))"

definition alarm_rows :: "varbind list \<Rightarrow> (string, (string, string) dict) dict" where
  "alarm_rows varbinds = foldl add_cell [] varbinds"

text \<open>A row that does not decode is logged and left out.\<close>

definition decode_alarm_table :: "varbind list \<Rightarrow> alarm_row list" where
  "decode_alarm_table varbinds =
     concat (map (\<lambda>(i, cols). case build_alarm_row i cols of Inl e \<Rightarrow> [] | Inr r \<Rightarrow> [r]) (alarm_rows varbinds))"

definition decode_trip_number :: "varbind list \<Rightarrow> string option" where
  "decode_trip_number varbinds = map_option (\<lambda>vb. strip_spaces (snd vb)) (List.find (\<lambda>vb. fst vb = im0_trip_scalar_oid) varbinds)"

section \<open>The walk of a table\<close>

text \<open>
  What an agent answers a walk of the alarm table: column by column, in each column row by row.
\<close>

definition severity_number :: "severity \<Rightarrow> string" where
  "severity_number s = (case s of Sev_critical \<Rightarrow> ''1'' | Sev_warning \<Rightarrow> ''3'' | Sev_info \<Rightarrow> ''5'')"

definition cell_oid :: "string \<Rightarrow> string \<Rightarrow> string" where
  "cell_oid col row_idx = im0_alarm_entry_prefix @ ''.'' @ col @ ''.'' @ row_idx"

definition column_walk :: "string \<Rightarrow> (alarm_row \<Rightarrow> string) \<Rightarrow> (string \<times> alarm_row) list \<Rightarrow> varbind list" where
  "column_walk col f table = map (\<lambda>(i, r). (cell_oid col i, f r)) table"

definition table_walk :: "(string \<times> alarm_row) list \<Rightarrow> varbind list" where
  "table_walk table =
     column_walk ''1'' ar_alarm_id table @ column_walk ''2'' ar_description table @
     column_walk ''3'' (\<lambda>r. severity_number (ar_severity r)) table @
     column_walk ''4'' (\<lambda>r. if ar_active r then ''1'' else ''2'') table"


end
