(* ===== verification/Vlan_Context.thy ===== *)
theory Vlan_Context
  imports Vlan_Decoder Shared_Interfaces
begin

text \<open>
  \<open>vlan-pollers/src/vlan_pollers/models.py\<close>, \<open>context_state.py\<close> and
  \<open>journey_tracker.py\<close>: what the pollers know of the train, and whom they tell about a change.
  An update gives the new state and the requests it posts, in order; each is posted with
  \<open>DEFAULT_RETRY\<close>.
\<close>

section \<open>State\<close>

record alarm_entry =
  al_alarm_id :: string
  al_description :: string
  al_severity :: severity
  al_active :: bool
  al_alarm_type :: string
  al_car_id :: string
  al_hardware_code :: string

definition alarm_entry_of :: "alarm_row \<Rightarrow> alarm_entry" where
  "alarm_entry_of r = \<lparr>al_alarm_id = ar_alarm_id r, al_description = ar_description r, al_severity = ar_severity r,
     al_active = ar_active r, al_alarm_type = ''other'', al_car_id = [], al_hardware_code = ''SNMP''\<rparr>"

record pis_state =
  ps_next_station :: string
  ps_next_station_arrival_utc :: string
  ps_scheduled_departure :: string
  ps_actual_departure :: string
  ps_platform :: string
  ps_delay_min :: int

definition empty_pis :: pis_state where
  "empty_pis = \<lparr>ps_next_station = [], ps_next_station_arrival_utc = [], ps_scheduled_departure = [],
     ps_actual_departure = [], ps_platform = [], ps_delay_min = 0\<rparr>"

record vlan_context =
  vc_journey_id :: string
  vc_trip_number :: string
  vc_vehicle_id :: string
  vc_speed_kmh :: rat
  vc_station_approach :: bool
  vc_door_release :: "(string, bool) dict"
  vc_alarms :: "(string, alarm_entry) dict"
  vc_pis :: pis_state
  vc_occupancy :: "(string, occupancy_reading) dict"
  vc_reservations :: "(string, int) dict"

definition init_vlan_context :: vlan_context where
  "init_vlan_context = \<lparr>vc_journey_id = [], vc_trip_number = [], vc_vehicle_id = [], vc_speed_kmh = 0,
     vc_station_approach = False, vc_door_release = [], vc_alarms = [], vc_pis = empty_pis,
     vc_occupancy = [], vc_reservations = []\<rparr>"

section \<open>The push\<close>

definition alarm_json :: "alarm_entry \<Rightarrow> json" where
  "alarm_json a = JObj [(''alarm_id'', JStr (al_alarm_id a)), (''description'', JStr (al_description a)),
     (''severity'', JStr (severity_value (al_severity a))), (''active'', JBool (al_active a)),
     (''alarm_type'', JStr (al_alarm_type a)), (''car_id'', JStr (al_car_id a)),
     (''hardware_code'', JStr (al_hardware_code a))]"

definition pis_json :: "pis_state \<Rightarrow> json" where
  "pis_json p = JObj [(''next_station'', JStr (ps_next_station p)),
     (''next_station_arrival_utc'', JStr (ps_next_station_arrival_utc p)),
     (''scheduled_departure'', JStr (ps_scheduled_departure p)),
     (''actual_departure'', JStr (ps_actual_departure p)), (''platform'', JStr (ps_platform p)),
     (''delay_min'', JInt (ps_delay_min p))]"

definition reading_json :: "occupancy_reading \<Rightarrow> json" where
  "reading_json r = JObj [(''car_id'', JStr (or_car_id r)), (''count'', JInt (or_count r)),
     (''timestamp'', JStr (or_timestamp r))]"

definition state_to_dict :: "vlan_context \<Rightarrow> jdict" where
  "state_to_dict c = [(''journey_id'', JStr (vc_journey_id c)), (''trip_number'', JStr (vc_trip_number c)),
     (''vehicle_id'', JStr (vc_vehicle_id c)), (''speed_kmh'', JNum (vc_speed_kmh c)),
     (''station_approach'', JBool (vc_station_approach c)), (''alarms'', JList (map (alarm_json \<circ> snd) (vc_alarms c))),
     (''pis'', pis_json (vc_pis c)),
     (''occupancy'', JObj (map (\<lambda>(k, r). (k, reading_json r)) (vc_occupancy c))),
     (''reservations'', JObj (map (\<lambda>(k, n). (k, JInt n)) (vc_reservations c)))]"

definition push_context_delta :: "vlan_context \<Rightarrow> http_req list" where
  "push_context_delta c = [PostFusion ''/context'' (state_to_dict c), PostInference (state_to_dict c)]"

section \<open>Updates\<close>

text \<open>Two dictionaries are equal when they have the same entries, in whatever order.\<close>

definition dict_eq :: "('k, 'v) dict \<Rightarrow> ('k, 'v) dict \<Rightarrow> bool" where
  "dict_eq a b = (set (dkeys a) = set (dkeys b) \<and> list_all (\<lambda>k. dget a k = dget b k) (dkeys a))"

definition update_journey :: "string \<Rightarrow> string \<Rightarrow> string \<Rightarrow> vlan_context \<Rightarrow> vlan_context \<times> http_req list" where
  "update_journey journey trip vehicle c =
     (if \<not> (vc_journey_id c \<noteq> journey \<or> vc_trip_number c \<noteq> trip \<or> vc_vehicle_id c \<noteq> vehicle) then (c, [])
      else (let c' = c\<lparr>vc_journey_id := journey, vc_trip_number := trip, vc_vehicle_id := vehicle, vc_pis := empty_pis\<rparr>
            in (c', push_context_delta c')))"

definition update_alarm :: "alarm_entry \<Rightarrow> vlan_context \<Rightarrow> vlan_context \<times> http_req list" where
  "update_alarm a c =
     (if dget (vc_alarms c) (al_alarm_id a) = Some a then (c, [])
      else (let c' = c\<lparr>vc_alarms := dset (vc_alarms c) (al_alarm_id a) a\<rparr> in (c', push_context_delta c')))"

definition update_speed :: "rat \<Rightarrow> vlan_context \<Rightarrow> vlan_context \<times> http_req list" where
  "update_speed v c =
     (if vc_speed_kmh c = v then (c, [])
      else (let c' = c\<lparr>vc_speed_kmh := v\<rparr> in (c', push_context_delta c')))"

definition set_station_approach :: "bool \<Rightarrow> vlan_context \<Rightarrow> vlan_context \<times> http_req list" where
  "set_station_approach active c =
     (if vc_station_approach c = active then (c, [])
      else (let c' = c\<lparr>vc_station_approach := active\<rparr>
            in (c', [PostFusion ''/context''
                  [(''station_approach'', JBool active), (''journey_id'', JStr (vc_journey_id c'))]])))"

definition set_door_release :: "string \<Rightarrow> string \<Rightarrow> vlan_context \<Rightarrow> vlan_context \<times> http_req list" where
  "set_door_release car door c =
     (c\<lparr>vc_door_release := dset (vc_door_release c) (car @ '':'' @ door) True\<rparr>,
      [PostIngest [(''event'', JStr ''door_release''), (''car_id'', JStr car), (''door_id'', JStr door)]])"

definition update_pis :: "pis_state \<Rightarrow> vlan_context \<Rightarrow> vlan_context \<times> http_req list" where
  "update_pis p c =
     (if vc_pis c = p then (c, []) else (let c' = c\<lparr>vc_pis := p\<rparr> in (c', push_context_delta c')))"

definition update_occupancy :: "(string, occupancy_reading) dict \<Rightarrow> vlan_context \<Rightarrow> vlan_context \<times> http_req list" where
  "update_occupancy readings c =
     (if dict_eq (vc_occupancy c) readings then (c, [])
      else (let c' = c\<lparr>vc_occupancy := readings\<rparr> in (c', push_context_delta c')))"

definition update_reservations :: "(string, int) dict \<Rightarrow> vlan_context \<Rightarrow> vlan_context \<times> http_req list" where
  "update_reservations d c =
     (if dict_eq (vc_reservations c) d then (c, [])
      else (let c' = c\<lparr>vc_reservations := d\<rparr> in (c', push_context_delta c')))"

text \<open>
  Posting. The failures of a full push are isolated from each other and from the caller; the
  request of a station approach or a door release fails its caller.
\<close>

definition post_isolated :: "environment \<Rightarrow> http_req list \<Rightarrow> world \<Rightarrow> world" where
  "post_isolated E reqs w = foldl (\<lambda>w r. snd (retry_post E default_attempts r w)) w reqs"

definition post_or_raise :: "environment \<Rightarrow> http_req list \<Rightarrow> world \<Rightarrow> unit res \<times> world" where
  "post_or_raise E reqs w =
     (case reqs of
        [] \<Rightarrow> (Inr (), w)
      | r # _ \<Rightarrow> (case retry_post E default_attempts r w of (ok, w') \<Rightarrow> (if ok then Inr () else Inl HTTPError, w')))"

section \<open>The journey tracker\<close>

type_synonym tracker = "(string \<times> string, string) dict"

definition journey_name :: "string \<Rightarrow> string \<Rightarrow> string \<Rightarrow> string" where
  "journey_name vehicle trip date = vehicle @ ''_'' @ trip @ ''_'' @ date"

definition get_journey_id :: "datetime \<Rightarrow> string \<Rightarrow> string \<Rightarrow> tracker \<Rightarrow> string \<times> tracker" where
  "get_journey_id now vehicle trip tr =
     (let tr' = (if dhas tr (vehicle, trip) then tr else dset tr (vehicle, trip) (ymd now))
      in (journey_name vehicle trip (dget_or tr' (vehicle, trip) []), tr'))"

definition current_journey_id :: "datetime \<Rightarrow> string \<Rightarrow> string \<Rightarrow> tracker \<Rightarrow> string" where
  "current_journey_id now vehicle trip tr = journey_name vehicle trip (dget_or tr (vehicle, trip) (ymd now))"

definition known_trips :: "tracker \<Rightarrow> string list" where
  "known_trips tr = map (snd \<circ> fst) tr"

end
