(* ===== verification/Vlan_Pollers.thy ===== *)
theory Vlan_Pollers
  imports Vlan_Context
begin

text \<open>
  The five tasks of vlan-pollers: \<open>snmp_poller.py\<close>, \<open>apc_poller.py\<close>, \<open>pis_poller.py\<close>,
  \<open>reservation_poller.py\<close> and the station watchdog of \<open>main.py\<close>, with \<open>config.py\<close> and
  \<open>health.py\<close>. What the train network answers is an argument of a poll. A poll is one step here,
  network attempts included; what the tasks do between each other's awaits, to the context and to what
  fusion receives of it, is \<open>polling_step\<close> of \<open>Vlan_Contracts\<close>.
\<close>

section \<open>State\<close>

record vlan_settings =
  vs_vehicle_id :: string
  vs_approach_window_s :: int
  vs_car_ids :: "string list"

definition default_vlan_settings :: vlan_settings where
  "default_vlan_settings = \<lparr>vs_vehicle_id = ''OBB-TEST'', vs_approach_window_s = 120,
     vs_car_ids = [''car-1'', ''car-2'', ''car-3'', ''car-4'', ''car-5'']\<rparr>"

record vlan_app =
  va_ctx :: vlan_context
  va_tracker :: tracker
  va_prev_alarms :: "(string, bool) dict"
  va_connected :: bool
  va_snmp_ready :: bool
  va_watchdog :: bool \<comment> \<open>the watchdog task runs\<close>
  va_world :: world

definition init_vlan :: "world \<Rightarrow> vlan_app" where
  "init_vlan w = \<lparr>va_ctx = init_vlan_context, va_tracker = [], va_prev_alarms = [], va_connected = False,
     va_snmp_ready = False, va_watchdog = True, va_world = w\<rparr>"

text \<open>An update of the shared context whose push fails in isolation.\<close>

definition change_context :: "environment \<Rightarrow> (vlan_context \<Rightarrow> vlan_context \<times> http_req list) \<Rightarrow> vlan_app \<Rightarrow> vlan_app" where
  "change_context E f A =
     (case f (va_ctx A) of (c', reqs) \<Rightarrow> A\<lparr>va_ctx := c', va_world := post_isolated E reqs (va_world A)\<rparr>)"

section \<open>Alarm events\<close>

definition alarm_kwargs :: "string \<Rightarrow> alarm_entry \<Rightarrow> jdict" where
  "alarm_kwargs vehicle a =
     (if al_active a
      then [(''alarm_id'', JStr (al_alarm_id a)), (''alarm_type'', JStr (al_alarm_type a)),
            (''car_id'', JStr (str_or (Some (al_car_id a)) vehicle)), (''hardware_code'', JStr (al_hardware_code a)),
            (''triggered_by'', JStr ''automatic'')]
      else [(''alarm_id'', JStr (al_alarm_id a)), (''alarm_type'', JStr (al_alarm_type a)),
            (''car_id'', JStr (str_or (Some (al_car_id a)) vehicle)), (''cleared_by'', JStr ''automatic''),
            (''duration_s'', JNum 0)])"

definition alarm_event_type :: "alarm_entry \<Rightarrow> event_type" where
  "alarm_event_type a = (if al_active a then ALARM_ACTIVE else ALARM_CLEARED)"

definition alarm_envelope :: "environment \<Rightarrow> string \<Rightarrow> string \<Rightarrow> datetime \<Rightarrow> string \<Rightarrow> alarm_entry \<Rightarrow> envelope res" where
  "alarm_envelope E vehicle uuid now journey a =
     validate_envelope (pyd E) uuid now
       \<lparr>raw_id = Some uuid, raw_journey_id = journey, raw_vehicle_id = vehicle, raw_timestamp = Some (utc_now now),
        raw_type = event_type_value (alarm_event_type a), raw_severity = severity_value (al_severity a),
        raw_source = ''vlan-pollers'', raw_schema_version = 1, raw_payload = alarm_kwargs vehicle a\<rparr>"

text \<open>
  The envelope is built once and posted with \<open>DEFAULT_RETRY\<close>; a 409 counts as a success.
\<close>

definition emit_alarm_event ::
  "environment \<Rightarrow> string \<Rightarrow> clock \<Rightarrow> string \<Rightarrow> alarm_entry \<Rightarrow> world \<Rightarrow> unit res \<times> world" where
  "emit_alarm_event E vehicle now journey a w =
     (let w1 = w\<lparr>w_uuids := Suc (w_uuids w)\<rparr>
      in case alarm_envelope E vehicle (uuids E (w_uuids w)) (now (w_uuids w)) journey a of
           Inl e \<Rightarrow> (Inl e, w1)
         | Inr env \<Rightarrow>
             (case retry_post E default_attempts (PostEvent env) w1 of
                (ok, w2) \<Rightarrow> (if ok then Inr () else Inl HTTPError, w2)))"

definition process_row :: "environment \<Rightarrow> string \<Rightarrow> clock \<Rightarrow> string \<Rightarrow> alarm_row \<Rightarrow> vlan_app \<Rightarrow> vlan_app" where
  "process_row E vehicle now journey row A =
     (let entry = alarm_entry_of row; i = al_alarm_id entry;
          A' = (if dget (va_prev_alarms A) i \<noteq> Some (al_active entry)
                then (case emit_alarm_event E vehicle now journey entry (va_world A) of
                        (Inr u, w) \<Rightarrow> A\<lparr>va_prev_alarms := dset (va_prev_alarms A) i (al_active entry), va_world := w\<rparr>
                      | (Inl e, w) \<Rightarrow> A\<lparr>va_world := w\<rparr>)
                else A\<lparr>va_prev_alarms := dset (va_prev_alarms A) i (al_active entry)\<rparr>)
      in change_context E (update_alarm entry) A')"

definition ghost_entry :: "string \<Rightarrow> alarm_entry" where
  "ghost_entry i = \<lparr>al_alarm_id = i, al_description = [], al_severity = Sev_info, al_active = False,
     al_alarm_type = ''other'', al_car_id = [], al_hardware_code = ''SNMP''\<rparr>"

definition clear_ghost ::
  "environment \<Rightarrow> string \<Rightarrow> clock \<Rightarrow> string \<Rightarrow> string list \<Rightarrow> string \<times> bool \<Rightarrow> vlan_app \<Rightarrow> vlan_app" where
  "clear_ghost E vehicle now journey current p A =
     (case p of (i, was_active) \<Rightarrow>
        if i \<notin> set current \<and> was_active
        then (case emit_alarm_event E vehicle now journey (ghost_entry i) (va_world A) of
                (Inr u, w) \<Rightarrow> A\<lparr>va_prev_alarms := ddel (va_prev_alarms A) i, va_world := w\<rparr>
              | (Inl e, w) \<Rightarrow> A\<lparr>va_world := w\<rparr>)
        else A)"

definition process_alarms :: "environment \<Rightarrow> string \<Rightarrow> clock \<Rightarrow> varbind list \<Rightarrow> string \<Rightarrow> vlan_app \<Rightarrow> vlan_app" where
  "process_alarms E vehicle now varbinds journey A =
     (let rows = decode_alarm_table varbinds;
          A' = fold (process_row E vehicle now journey) rows A
      in fold (clear_ghost E vehicle now journey (map ar_alarm_id rows)) (va_prev_alarms A') A')"

definition process :: "environment \<Rightarrow> vlan_settings \<Rightarrow> clock \<Rightarrow> varbind list \<Rightarrow> vlan_app \<Rightarrow> vlan_app" where
  "process E S now varbinds A =
     (let trip = decode_trip_number varbinds
      in if \<not> truthy trip then A
         else (case get_journey_id (now (w_uuids (va_world A))) (vs_vehicle_id S) (the trip) (va_tracker A) of
                 (journey, tr) \<Rightarrow>
                   process_alarms E (vs_vehicle_id S) now varbinds journey
                     (change_context E (update_journey journey (the trip) (vs_vehicle_id S)) (A\<lparr>va_tracker := tr\<rparr>))))"

text \<open>One round of \<open>run\<close>: the walk's answer, or its failure.\<close>

definition snmp_poll :: "environment \<Rightarrow> vlan_settings \<Rightarrow> clock \<Rightarrow> varbind list res \<Rightarrow> vlan_app \<Rightarrow> vlan_app" where
  "snmp_poll E S now walk A =
     (case walk of
        Inl e \<Rightarrow> if va_connected A then A\<lparr>va_connected := False, va_snmp_ready := False\<rparr> else A
      | Inr varbinds \<Rightarrow>
          process E S now varbinds
            (if va_connected A then A else A\<lparr>va_connected := True, va_snmp_ready := True\<rparr>))"

definition vlan_health_ready :: "vlan_app \<Rightarrow> nat" where
  "vlan_health_ready A = (if va_snmp_ready A then 200 else 503)"

definition signal_door_release :: "environment \<Rightarrow> string \<Rightarrow> string \<Rightarrow> vlan_app \<Rightarrow> unit res \<times> vlan_app" where
  "signal_door_release E car door A =
     (case set_door_release car door (va_ctx A) of
        (c', reqs) \<Rightarrow> (case post_or_raise E reqs (va_world A) of (r, w) \<Rightarrow> (r, A\<lparr>va_ctx := c', va_world := w\<rparr>)))"

section \<open>The other pollers\<close>

text \<open>\<open>@DEFAULT_RETRY\<close> around a request whose answers are given per attempt.\<close>

fun retry_fetch :: "nat \<Rightarrow> (nat \<Rightarrow> 'a res) \<Rightarrow> 'a res" where
  "retry_fetch 0 f = Inl RuntimeError"
| "retry_fetch (Suc k) f =
     (case f 0 of Inr x \<Rightarrow> Inr x | Inl e \<Rightarrow> if k = 0 then Inl e else retry_fetch k (\<lambda>n. f (Suc n)))"

fun fetch_cars :: "(string \<Rightarrow> nat \<Rightarrow> occupancy_reading res) \<Rightarrow> string list \<Rightarrow> (string, occupancy_reading) dict \<Rightarrow>
    (string, occupancy_reading) dict res" where
  "fetch_cars adapter [] readings = Inr readings"
| "fetch_cars adapter (c # cs) readings =
     bind_res (retry_fetch default_attempts (adapter c)) (\<lambda>r. fetch_cars adapter cs (dset readings c r))"

definition apc_poll :: "environment \<Rightarrow> vlan_settings \<Rightarrow> (string \<Rightarrow> nat \<Rightarrow> occupancy_reading res) \<Rightarrow> vlan_app \<Rightarrow> vlan_app" where
  "apc_poll E S adapter A =
     (case fetch_cars adapter (vs_car_ids S) [] of
        Inl e \<Rightarrow> A
      | Inr readings \<Rightarrow> change_context E (update_occupancy readings) A)"

text \<open>\<open>str(data.get(k) or "")\<close>; \<open>tx\<close> is \<open>str\<close> on what is no string.\<close>

definition text_field :: "(json \<Rightarrow> string) \<Rightarrow> jdict \<Rightarrow> string \<Rightarrow> string" where
  "text_field tx d k =
     (case dget d k of
        None \<Rightarrow> []
      | Some (JStr s) \<Rightarrow> s
      | Some j \<Rightarrow> if jtruthy j then tx j else [])"

text \<open>
  \<open>int(float(str(raw)))\<close>. An infinite value makes \<open>int\<close> raise \<open>OverflowError\<close>, which is
  not caught here.
\<close>

fun parse_delay_min :: "json option \<Rightarrow> int res" where
  "parse_delay_min None = Inr 0"
| "parse_delay_min (Some (JInt i)) = Inr i"
| "parse_delay_min (Some (JNum q)) = Inr (truncate_rat q)"
| "parse_delay_min (Some (JStr s)) =
     (case parse_float s of
        Some (Finite q) \<Rightarrow> Inr (truncate_rat q)
      | Some Infinite \<Rightarrow> Inl OverflowError
      | _ \<Rightarrow> Inr 0)"
| "parse_delay_min (Some j) = Inr 0"

definition pis_of :: "(json \<Rightarrow> string) \<Rightarrow> json \<Rightarrow> pis_state res" where
  "pis_of tx j =
     (case j of
        JObj d \<Rightarrow>
          bind_res (parse_delay_min (dget d ''delay_min'')) (\<lambda>delay.
            Inr \<lparr>ps_next_station = text_field tx d ''next_station'',
                 ps_next_station_arrival_utc = text_field tx d ''next_station_arrival_utc'',
                 ps_scheduled_departure = text_field tx d ''scheduled_departure'',
                 ps_actual_departure = text_field tx d ''actual_departure'',
                 ps_platform = text_field tx d ''platform'', ps_delay_min = delay\<rparr>)
      | _ \<Rightarrow> Inl AttributeError)"

definition pis_poll :: "environment \<Rightarrow> (json \<Rightarrow> string) \<Rightarrow> (nat \<Rightarrow> json res) \<Rightarrow> vlan_app \<Rightarrow> vlan_app" where
  "pis_poll E tx answers A =
     (case bind_res (retry_fetch default_attempts answers) (pis_of tx) of
        Inl e \<Rightarrow> A
      | Inr p \<Rightarrow> change_context E (update_pis p) A)"

fun seat_count :: "json \<Rightarrow> int option" where
  "seat_count (JInt i) = Some i"
| "seat_count (JNum q) = Some (truncate_rat q)"
| "seat_count (JBool b) = Some (if b then 1 else 0)"
| "seat_count j = None"

definition reservations_of :: "string list \<Rightarrow> json \<Rightarrow> (string, int) dict res" where
  "reservations_of cars j =
     (case j of
        JObj d \<Rightarrow> Inr (List.map_filter (\<lambda>(k, v). if k \<in> set cars then map_option (Pair k) (seat_count v) else None) d)
      | _ \<Rightarrow> Inl ValueError)"

definition reservation_poll :: "environment \<Rightarrow> vlan_settings \<Rightarrow> (nat \<Rightarrow> json res) \<Rightarrow> vlan_app \<Rightarrow> vlan_app" where
  "reservation_poll E S answers A =
     (case retry_fetch default_attempts (\<lambda>n. bind_res (answers n) (reservations_of (vs_car_ids S))) of
        Inl e \<Rightarrow> A
      | Inr d \<Rightarrow> change_context E (update_reservations d) A)"

section \<open>The station watchdog\<close>

text \<open>
  Whether a station is near: a naive instant cannot be subtracted from an aware one.
\<close>

definition approaching :: "int \<Rightarrow> datetime \<Rightarrow> string \<Rightarrow> bool res" where
  "approaching window now arrival =
     bind_res (fromisoformat (py_replace ''Z'' ''+00:00'' arrival)) (\<lambda>t.
       case t of
         Naive v \<Rightarrow> Inl TypeError
       | Aware m \<Rightarrow> (let secs = total_seconds (m - dt_micros now) in Inr (0 \<le> secs \<and> secs \<le> of_int window)))"

definition approach_change :: "environment \<Rightarrow> bool \<Rightarrow> vlan_app \<Rightarrow> unit res \<times> vlan_app" where
  "approach_change E active A =
     (case set_station_approach active (va_ctx A) of
        (c', reqs) \<Rightarrow> (case post_or_raise E reqs (va_world A) of (r, w) \<Rightarrow> (r, A\<lparr>va_ctx := c', va_world := w\<rparr>)))"

definition watch_arrival :: "environment \<Rightarrow> vlan_settings \<Rightarrow> datetime \<Rightarrow> vlan_app \<Rightarrow> unit res \<times> vlan_app" where
  "watch_arrival E S now A =
     (let arrival = ps_next_station_arrival_utc (vc_pis (va_ctx A))
      in if arrival \<noteq> []
         then (case approaching (vs_approach_window_s S) now arrival of
                 Inl ValueError \<Rightarrow> (Inr (), A)
               | Inl e \<Rightarrow> (Inl e, A)
               | Inr b \<Rightarrow> approach_change E b A)
         else if vc_station_approach (va_ctx A) then approach_change E False A else (Inr (), A))"

text \<open>One round of the watchdog; an exception ends the task.\<close>

definition watchdog :: "environment \<Rightarrow> vlan_settings \<Rightarrow> datetime \<Rightarrow> vlan_app \<Rightarrow> vlan_app" where
  "watchdog E S now A =
     (if \<not> va_watchdog A then A
      else (case watch_arrival E S now A of
              (Inl e, A') \<Rightarrow> A'\<lparr>va_watchdog := False\<rparr>
            | (Inr u, A') \<Rightarrow>
                if 20 < vc_speed_kmh (va_ctx A) \<and> vc_station_approach (va_ctx A')
                then (case approach_change E False A' of
                        (Inl e, A'') \<Rightarrow> A''\<lparr>va_watchdog := False\<rparr>
                      | (Inr u, A'') \<Rightarrow> A'')
                else A'))"

section \<open>The running service\<close>

text \<open>Rounds of the tasks, one after the other: a round runs to its end before another begins.
  \<open>W\<close> are the answers a walk of the alarm table may have.\<close>

inductive vlan_step ::
  "environment \<Rightarrow> vlan_settings \<Rightarrow> (varbind list \<Rightarrow> bool) \<Rightarrow> clock \<Rightarrow> vlan_app \<Rightarrow> vlan_app \<Rightarrow> bool" for E S W now where
  snmp_fails: "vlan_step E S W now A (snmp_poll E S now (Inl e) A)"
| snmp_polls: "W walk \<Longrightarrow> vlan_step E S W now A (snmp_poll E S now (Inr walk) A)"
| apc_polls: "vlan_step E S W now A (apc_poll E S adapter A)"
| pis_polls: "vlan_step E S W now A (pis_poll E tx answers A)"
| reservation_polls: "vlan_step E S W now A (reservation_poll E S answers A)"
| watchdog_wakes: "vlan_step E S W now A (watchdog E S t A)"
| door_released: "vlan_step E S W now A (snd (signal_door_release E car door A))"

end
