(* ===== verification/Vlan_Facts.thy ===== *)
theory Vlan_Facts
  imports Vlan_Pollers "HOL-Library.List_Lexorder"
begin

text \<open>
  What the decoder makes of a walk, what a poll posts, and the invariant of the running
  service.
\<close>

section \<open>The decoder on a walk\<close>

lemma alarm_cell_oid:
  assumes "col \<noteq> []" "CHR ''.'' \<notin> set col"
  shows "alarm_cell (cell_oid col i) = Some (col, i)"
proof -
  have "lstrip_dots (''.'' @ col @ ''.'' @ i) = col @ CHR ''.'' # i"
    using assms by (cases col) (auto simp: lstrip_dots_def)
  then show ?thesis
    using assms split_once_append [of "CHR ''.''" col i] by (simp add: alarm_cell_def cell_oid_def)
qed

lemma dset_middle: "k \<notin> fst ` set a \<Longrightarrow> dset (a @ (k, v) # b) k w = a @ (k, w) # b"
  by (induction a) (auto simp: dset_def)

lemma dget_middle: "k \<notin> fst ` set a \<Longrightarrow> dget (a @ (k, v) # b) k = Some v"
  by (induction a) auto

lemma first_column:
  assumes "col \<noteq> []" "CHR ''.'' \<notin> set col" "distinct (map fst (xs @ ys))"
  shows "foldl add_cell (map (\<lambda>(i, r). (i, [(col, f r)])) xs) (column_walk col f ys) =
    map (\<lambda>(i, r). (i, [(col, f r)])) (xs @ ys)"
  using assms(3)
proof (induction ys arbitrary: xs)
  case Nil
  then show ?case by (simp add: column_walk_def)
next
  case (Cons y ys)
  obtain i r where y: "y = (i, r)" by fastforce
  let ?m = "map (\<lambda>(i, r). (i, [(col, f r)])) xs"
  have "i \<notin> set (dkeys ?m)"
    using Cons.prems y by (force simp: dkeys_def)
  then have "\<not> dhas ?m i" by (auto simp: dkeys_dom dhas_iff)
  then have "add_cell ?m (cell_oid col i, f r) = ?m @ [(i, [(col, f r)])]"
    using alarm_cell_oid [OF assms(1,2)] by (simp add: add_cell_def dset_new dget_or_def dhas_iff)
  with Cons.IH [of "xs @ [y]"] Cons.prems y show ?case by (simp add: column_walk_def)
qed

lemma next_column:
  assumes "col \<noteq> []" "CHR ''.'' \<notin> set col" "distinct (map fst (xs @ ys))"
  shows "foldl add_cell (map (\<lambda>(i, r). (i, dset (g r) col (f r))) xs @ map (\<lambda>(i, r). (i, g r)) ys) (column_walk col f ys) =
    map (\<lambda>(i, r). (i, dset (g r) col (f r))) (xs @ ys)"
  using assms(3)
proof (induction ys arbitrary: xs)
  case Nil
  then show ?case by (simp add: column_walk_def)
next
  case (Cons y ys)
  obtain i r where y: "y = (i, r)" by fastforce
  let ?a = "map (\<lambda>(i, r). (i, dset (g r) col (f r))) xs" and ?b = "map (\<lambda>(i, r). (i, g r)) ys"
  have "i \<notin> fst ` set ?a" using Cons.prems y by force
  note mid = dget_middle [OF this] dset_middle [OF this]
  have "dget_or (?a @ (i, g r) # ?b) i [] = g r" "dset (?a @ (i, g r) # ?b) i w = ?a @ (i, w) # ?b" for w
    unfolding dget_or_def mid by simp_all
  then have "add_cell (?a @ (i, g r) # ?b) (cell_oid col i, f r) = ?a @ (i, dset (g r) col (f r)) # ?b"
    unfolding add_cell_def fst_conv snd_conv alarm_cell_oid [OF assms(1,2)] by (simp only: option.case prod.case)
  with Cons.IH [of "xs @ [y]"] Cons.prems y show ?case by (simp add: column_walk_def)
qed

lemmas next_columns = next_column [of _ "[]", simplified]

lemma alarm_rows_walk:
  assumes "distinct (map fst table)"
  shows "alarm_rows (table_walk table) =
    map (\<lambda>(i, r). (i, [(''1'', ar_alarm_id r), (''2'', ar_description r),
      (''3'', severity_number (ar_severity r)), (''4'', if ar_active r then ''1'' else ''2'')])) table"
  unfolding alarm_rows_def table_walk_def foldl_append
  using assms first_column [of "''1''" "[]" table ar_alarm_id]
  by (simp add: next_columns dset_def)

lemma digit_texts [simp]: "str_int ''1'' = Some 1" "str_int ''2'' = Some 2" "str_int ''3'' = Some 3" "str_int ''5'' = Some 5"
  by code_simp+

lemma severity_number_int [simp]: "str_int (severity_number s) = Some (case s of Sev_critical \<Rightarrow> 1 | Sev_warning \<Rightarrow> 3 | Sev_info \<Rightarrow> 5)"
  by (cases s) (simp_all add: severity_number_def)

lemma row_of_cells:
  "build_alarm_row i [(''1'', ar_alarm_id r), (''2'', ar_description r),
      (''3'', severity_number (ar_severity r)), (''4'', if ar_active r then ''1'' else ''2'')] = Inr r"
  by (cases "ar_severity r")
     (auto simp: build_alarm_row_def int_column_def dget_or_def map_severity_def severity_map_def intro!: alarm_row.equality)

lemma decode_walk:
  assumes "distinct (map fst table)"
  shows "decode_alarm_table (table_walk table) = map snd table"
  unfolding decode_alarm_table_def alarm_rows_walk [OF assms]
  by (induction table) (auto simp: row_of_cells)

section \<open>The walk and the trip number\<close>

text \<open>
  An object identifier is a list of numbers, its text the numbers between dots. A walk returns
  what follows its starting point in the order of the numbers.
\<close>

definition oid_text :: "nat list \<Rightarrow> string" where
  "oid_text ns = join_with ''.'' (map show_nat ns)"

definition alarm_entry_oid :: "nat list" where
  "alarm_entry_oid = [1, 3, 6, 1, 4, 1, 1234, 1, 2, 1]"

definition trip_oid :: "nat list" where
  "trip_oid = [1, 3, 6, 1, 4, 1, 1234, 1, 1, 1, 0]"

definition walked_from :: "nat list \<Rightarrow> varbind list \<Rightarrow> bool" where
  "walked_from start varbinds \<longleftrightarrow> (\<forall>vb \<in> set varbinds. \<exists>ns. start < ns \<and> fst vb = oid_text ns)"

lemma split_on_join:
  assumes "ps \<noteq> []" "\<And>p. p \<in> set ps \<Longrightarrow> c \<notin> set p"
  shows "split_on c (join_with [c] ps) = ps"
  using assms
proof (induction ps)
  case (Cons p ps)
  have p: "c \<notin> set p" using Cons.prems(2) by simp
  show ?case
  proof (cases ps)
    case Nil
    with p show ?thesis by (simp add: split_on_free)
  next
    case qs: (Cons q qs)
    have "split_on c (join_with [c] ps) = ps"
      by (rule Cons.IH) (use qs Cons.prems in auto)
    moreover have "join_with [c] (p # ps) = p @ c # join_with [c] ps" by (simp add: qs)
    ultimately show ?thesis using split_on_append [OF p] by metis
  qed
qed simp

lemma digits_no_dot: "list_all is_digit s \<Longrightarrow> CHR ''.'' \<notin> set s"
proof -
  have "\<not> is_digit CHR ''.''" by code_simp
  then show "list_all is_digit s \<Longrightarrow> CHR ''.'' \<notin> set s" unfolding list_all_iff by blast
qed

lemmas no_dot = digits_no_dot [OF show_nat_digits]

lemma oid_text_inj:
  assumes "oid_text ms = oid_text ns" "ms \<noteq> []" "ns \<noteq> []"
  shows "ms = ns"
proof -
  have "map show_nat ms = map show_nat ns"
  proof -
    have s: "split_on CHR ''.'' (oid_text ks) = map show_nat ks" if "ks \<noteq> []" for ks
      unfolding oid_text_def using that no_dot by (intro split_on_join) auto
    show ?thesis using s [OF assms(2)] s [OF assms(3)] assms(1) by simp
  qed
  then show ?thesis by (rule list.inj_map_strong [rotated]) (rule show_nat_inj)
qed

lemma oid_texts: "oid_text alarm_entry_oid = im0_alarm_entry_prefix" "oid_text trip_oid = im0_trip_scalar_oid"
  by code_simp+

lemma trip_before_table: "trip_oid < alarm_entry_oid"
  by (simp add: trip_oid_def alarm_entry_oid_def)

lemma walk_has_no_trip:
  assumes "walked_from alarm_entry_oid varbinds"
  shows "decode_trip_number varbinds = None"
proof -
  have "fst vb \<noteq> im0_trip_scalar_oid" if "vb \<in> set varbinds" for vb
  proof
    assume trip: "fst vb = im0_trip_scalar_oid"
    from assms that obtain ns where ns: "alarm_entry_oid < ns" "fst vb = oid_text ns"
      unfolding walked_from_def by blast
    then have "ns \<noteq> []" "trip_oid \<noteq> []" by (auto simp: trip_oid_def)
    then have "ns = trip_oid" using oid_text_inj [of ns trip_oid] ns(2) trip by (simp add: oid_texts)
    with ns(1) trip_before_table show False by simp
  qed
  then have "List.find (\<lambda>vb. fst vb = im0_trip_scalar_oid) varbinds = None"
    unfolding find_None_iff by blast
  then show ?thesis by (simp add: decode_trip_number_def)
qed

end
