(* ===== verification/Vlan_Service.thy ===== *)
theory Vlan_Service
  imports Vlan_Facts
begin

text \<open>
  vlan-pollers as a running service: what a context update promises, what a round of a poller
  posts, and the invariant.
\<close>

section \<open>Context updates\<close>

text \<open>
  The delta contract of \<open>ContextStateManager\<close>: a change pushes the new state to fusion and
  inference, and no change pushes nothing.
\<close>

locale delta_update =
  fixes upd :: "vlan_context \<Rightarrow> vlan_context \<times> http_req list"
  assumes pushed: "upd c = (c', reqs) \<Longrightarrow> c' = c \<and> reqs = [] \<or> c' \<noteq> c \<and> reqs = push_context_delta c'"
    and keeps_speed: "upd c = (c', reqs) \<Longrightarrow> vc_speed_kmh c' = vc_speed_kmh c"
    and keeps_approach: "upd c = (c', reqs) \<Longrightarrow> vc_station_approach c' = vc_station_approach c"
begin

lemma pushes_iff_changed:
  assumes "upd c = (c', reqs)"
  shows "reqs = (if c' = c then [] else push_context_delta c')"
  using pushed [OF assms] by auto

lemma change_ctx: "va_ctx (change_context E upd A) = fst (upd (va_ctx A))"
  by (simp add: change_context_def split: prod.split)

lemma change_keeps:
  "vc_speed_kmh (va_ctx (change_context E upd A)) = vc_speed_kmh (va_ctx A)"
  "vc_station_approach (va_ctx (change_context E upd A)) = vc_station_approach (va_ctx A)"
  unfolding change_ctx
  by (metis keeps_speed prod.collapse) (metis keeps_approach prod.collapse)

lemma change_rest:
  "va_prev_alarms (change_context E upd A) = va_prev_alarms A"
  "va_tracker (change_context E upd A) = va_tracker A"
  "va_watchdog (change_context E upd A) = va_watchdog A"
  "va_connected (change_context E upd A) = va_connected A"
  "va_snmp_ready (change_context E upd A) = va_snmp_ready A"
  by (simp_all add: change_context_def split: prod.split)

end

lemma dict_eq_dget: "dict_eq a b \<longleftrightarrow> dget a = dget b"
proof
  assume "dict_eq a b"
  then have d: "dom (dget a) = dom (dget b)" and e: "\<And>k. k \<in> dom (dget a) \<Longrightarrow> dget a k = dget b k"
    by (auto simp: dict_eq_def dkeys_dom list_all_iff)
  show "dget a = dget b"
  proof
    fix k
    show "dget a k = dget b k" using d e [of k] by (cases "k \<in> dom (dget a)") (auto simp: domIff)
  qed
qed (simp add: dict_eq_def dkeys_dom list_all_iff)

text \<open>When an assignment to a field leaves the state as it was.\<close>

lemma unchanged_iff:
  "(c\<lparr>vc_journey_id := j, vc_trip_number := t, vc_vehicle_id := v, vc_pis := p\<rparr> = c) =
     (vc_journey_id c = j \<and> vc_trip_number c = t \<and> vc_vehicle_id c = v \<and> vc_pis c = p)"
  "(c\<lparr>vc_alarms := al\<rparr> = c) = (vc_alarms c = al)" "(c\<lparr>vc_pis := p\<rparr> = c) = (vc_pis c = p)"
  "(c\<lparr>vc_occupancy := oc\<rparr> = c) = (vc_occupancy c = oc)" "(c\<lparr>vc_reservations := rs\<rparr> = c) = (vc_reservations c = rs)"
  by (cases c; auto)+

lemma dset_same: "dset d k v = d \<Longrightarrow> dget d k = Some v"
  by (metis dget_dset)

interpretation journey: delta_update "update_journey j t v" for j t v
  by unfold_locales (auto simp: update_journey_def Let_def unchanged_iff split: if_splits)

interpretation alarm: delta_update "update_alarm a" for a
  by unfold_locales (auto simp: update_alarm_def Let_def unchanged_iff split: if_splits dest: dset_same [OF sym])

interpretation pis: delta_update "update_pis p" for p
  by unfold_locales (auto simp: update_pis_def Let_def unchanged_iff split: if_splits)

interpretation occupancy: delta_update "update_occupancy r" for r
  by unfold_locales (auto simp: update_occupancy_def Let_def unchanged_iff dict_eq_dget split: if_splits)

interpretation reservations: delta_update "update_reservations d" for d
  by unfold_locales (auto simp: update_reservations_def Let_def unchanged_iff dict_eq_dget split: if_splits)

section \<open>What is posted\<close>

definition door_body :: "string \<Rightarrow> string \<Rightarrow> jdict" where
  "door_body car door = [(''event'', JStr ''door_release''), (''car_id'', JStr car), (''door_id'', JStr door)]"

definition station_body :: "bool \<Rightarrow> string \<Rightarrow> jdict" where
  "station_body active journey = [(''station_approach'', JBool active), (''journey_id'', JStr journey)]"

definition alarm_event :: "environment \<Rightarrow> envelope \<Rightarrow> bool" where
  "alarm_event E e \<longleftrightarrow> envelope_ok (pyd E) e \<and> ev_source e = Src_vlan_pollers \<and> ev_type e \<in> {ALARM_ACTIVE, ALARM_CLEARED}"

definition full_push :: "jdict \<Rightarrow> bool" where
  "full_push b \<longleftrightarrow> (\<exists>c. vc_speed_kmh c = 0 \<and> b = state_to_dict c)"

definition vlan_request :: "environment \<Rightarrow> http_req \<Rightarrow> bool" where
  "vlan_request E r =
     (case r of
        PostEvent e \<Rightarrow> alarm_event E e
      | PostFusion p b \<Rightarrow> p = ''/context'' \<and> (full_push b \<or> (\<exists>active journey. b = station_body active journey))
      | PostInference b \<Rightarrow> full_push b
      | PostIngest b \<Rightarrow> (\<exists>car door. b = door_body car door)
      | PostEventBody b \<Rightarrow> False)"

lemma push_requests: "vc_speed_kmh c = 0 \<Longrightarrow> list_all (vlan_request E) (push_context_delta c)"
  by (auto simp: push_context_delta_def vlan_request_def full_push_def)

lemma post_isolated_adds: "list_all P reqs \<Longrightarrow> adds P w (post_isolated E reqs w)"
proof (induction reqs arbitrary: w)
  case (Cons r reqs)
  then have "adds P w (snd (retry_post E default_attempts r w))" by (simp add: retry_post_adds)
  then show ?case
    unfolding post_isolated_def foldl_Cons
    by (rule adds_trans) (use Cons in \<open>simp add: post_isolated_def\<close>)
qed (simp add: post_isolated_def)

lemma post_or_raise_adds: "list_all P reqs \<Longrightarrow> adds P w (snd (post_or_raise E reqs w))"
  by (auto simp: post_or_raise_def retry_post_adds split: list.split prod.split) (metis retry_post_adds snd_conv)

context delta_update
begin

lemma change_adds:
  assumes "vc_speed_kmh (va_ctx A) = 0"
  shows "adds (vlan_request E) (va_world A) (va_world (change_context E upd A))"
proof -
  obtain c' reqs where u: "upd (va_ctx A) = (c', reqs)" by fastforce
  then have "vc_speed_kmh c' = 0" using keeps_speed assms by simp
  then have "list_all (vlan_request E) reqs"
    using pushes_iff_changed [OF u] push_requests by simp
  with u show ?thesis by (simp add: change_context_def post_isolated_adds)
qed

end

lemma alarm_envelope_ok:
  assumes "env_ok E" "alarm_envelope E vehicle (uuids E n) now journey a = Inr e"
  shows "alarm_event E e" "ev_type e = alarm_event_type a" "ev_payload e = alarm_kwargs vehicle a"
    "ev_journey_id e = journey" "ev_id e = uuids E n"
proof -
  have "envelope_ok (pyd E) e"
    using assms unfolding alarm_envelope_def
    by (intro validate_envelope_ok [of "pyd E" "uuids E n"]) (auto simp: env_ok_def)
  moreover have "source_of ''vlan-pollers'' = Some Src_vlan_pollers"
    by (simp add: source_of_def)
  ultimately show "alarm_event E e" "ev_type e = alarm_event_type a" "ev_payload e = alarm_kwargs vehicle a"
    "ev_journey_id e = journey" "ev_id e = uuids E n"
    using assms(2)
    by (auto simp: alarm_envelope_def validate_envelope_def res_iff default_str_def alarm_event_def alarm_event_type_def
        split: if_splits)
qed

lemma emit_alarm_adds:
  assumes "env_ok E"
  shows "adds (vlan_request E) w (snd (emit_alarm_event E vehicle now journey a w))"
proof (cases "alarm_envelope E vehicle (uuids E (w_uuids w)) (now (w_uuids w)) journey a")
  case (Inl x)
  then show ?thesis by (simp add: emit_alarm_event_def Let_def adds_same)
next
  case (Inr e)
  have "vlan_request E (PostEvent e)"
    using alarm_envelope_ok(1) [OF assms Inr] by (simp add: vlan_request_def)
  then have "adds (vlan_request E) (w\<lparr>w_uuids := Suc (w_uuids w)\<rparr>)
      (snd (retry_post E default_attempts (PostEvent e) (w\<lparr>w_uuids := Suc (w_uuids w)\<rparr>)))"
    by (rule retry_post_adds)
  with Inr show ?thesis by (auto simp: emit_alarm_event_def Let_def adds_def split: prod.split)
qed

section \<open>The invariant of the service\<close>

text \<open>
  Nothing sets the speed, so it stays at its initial 0; everything posted is a context push, a
  door release or an alarm event.
\<close>

definition vlan_inv :: "environment \<Rightarrow> vlan_app \<Rightarrow> bool" where
  "vlan_inv E A \<longleftrightarrow> vc_speed_kmh (va_ctx A) = 0 \<and> list_all (vlan_request E) (w_sent (va_world A))"

definition vlan_start :: "vlan_app \<Rightarrow> bool" where
  "vlan_start A = (\<exists>w. w_sent w = [] \<and> A = init_vlan w)"

definition vlan_next :: "environment \<Rightarrow> vlan_settings \<Rightarrow> (varbind list \<Rightarrow> bool) \<Rightarrow> clock \<Rightarrow> vlan_app \<Rightarrow> vlan_app \<Rightarrow> bool" where
  "vlan_next E S W now A A' = (env_ok E \<and> vlan_step E S W now A A')"

lemma vlan_inv_adds:
  assumes "vlan_inv E A" "adds (vlan_request E) (va_world A) (va_world A')" "vc_speed_kmh (va_ctx A') = 0"
  shows "vlan_inv E A'"
  using assms by (auto simp: vlan_inv_def adds_def)

lemma vlan_inv_world:
  "vlan_inv E A \<Longrightarrow> va_ctx A' = va_ctx A \<Longrightarrow> adds (vlan_request E) (va_world A) (va_world A') \<Longrightarrow> vlan_inv E A'"
  by (rule vlan_inv_adds) (simp_all add: vlan_inv_def)

context delta_update
begin

lemma change_inv: "vlan_inv E A \<Longrightarrow> vlan_inv E (change_context E upd A)"
  by (rule vlan_inv_adds) (auto simp: change_keeps vlan_inv_def intro: change_adds)

end

lemma process_row_inv:
  assumes "env_ok E" "vlan_inv E A"
  shows "vlan_inv E (process_row E vehicle now journey row A)"
proof -
  let ?e = "alarm_entry_of row"
  obtain r w where em: "emit_alarm_event E vehicle now journey ?e (va_world A) = (r, w)" by fastforce
  then have "adds (vlan_request E) (va_world A) w" using emit_alarm_adds [OF assms(1)] by (metis snd_conv)
  then show ?thesis
    unfolding process_row_def Let_def em prod.case
    by (intro alarm.change_inv) (auto intro: vlan_inv_world [OF assms(2)] split: sum.split)
qed

lemma clear_ghost_inv:
  assumes "env_ok E" "vlan_inv E A"
  shows "vlan_inv E (clear_ghost E vehicle now journey current p A)"
proof -
  obtain i b where p: "p = (i, b)" by fastforce
  obtain r w where em: "emit_alarm_event E vehicle now journey (ghost_entry i) (va_world A) = (r, w)" by fastforce
  then have "adds (vlan_request E) (va_world A) w" using emit_alarm_adds [OF assms(1)] by (metis snd_conv)
  then show ?thesis
    unfolding clear_ghost_def p prod.case em
    using assms(2) by (auto intro: vlan_inv_world [OF assms(2)] split: sum.split)
qed

lemma fold_keeps: "(\<And>x s. x \<in> set xs \<Longrightarrow> P s \<Longrightarrow> P (f x s)) \<Longrightarrow> P s \<Longrightarrow> P (fold f xs s)"
  by (induction xs arbitrary: s) auto

lemma process_inv:
  assumes "env_ok E" "vlan_inv E A"
  shows "vlan_inv E (process E S now varbinds A)"
proof -
  have alarms: "vlan_inv E (process_alarms E v now varbinds j B)" if "vlan_inv E B" for v j B
    unfolding process_alarms_def Let_def
    by (intro fold_keeps [where P = "vlan_inv E"] that process_row_inv clear_ghost_inv assms(1))
  have "vlan_inv E (A\<lparr>va_tracker := tr\<rparr>)" for tr
    by (rule vlan_inv_world [OF assms(2)]) simp_all
  then show ?thesis
    using assms(2) by (auto simp: process_def Let_def intro: alarms journey.change_inv split: prod.split)
qed

lemma snmp_poll_inv: "env_ok E \<Longrightarrow> vlan_inv E A \<Longrightarrow> vlan_inv E (snmp_poll E S now walk A)"
  by (cases walk) (auto simp: snmp_poll_def intro!: process_inv elim: vlan_inv_world)

lemma approach_change_inv:
  assumes "vlan_inv E A" "approach_change E active A = (r, A')"
  shows "vlan_inv E A'"
proof -
  obtain c' reqs where u: "set_station_approach active (va_ctx A) = (c', reqs)" by fastforce
  then have c: "vc_speed_kmh c' = 0" "list_all (vlan_request E) reqs"
    using assms(1) by (auto simp: set_station_approach_def vlan_inv_def vlan_request_def station_body_def Let_def
        split: if_splits)
  then have "adds (vlan_request E) (va_world A) (snd (post_or_raise E reqs (va_world A)))"
    by (simp add: post_or_raise_adds)
  with c(1) u assms(2) show ?thesis
    by (intro vlan_inv_adds [OF assms(1)]) (auto simp: approach_change_def split: prod.splits)
qed

lemma watch_arrival_inv:
  assumes "vlan_inv E A" "watch_arrival E S t A = (r, A')"
  shows "vlan_inv E A'"
proof -
  have "A' = A \<or> (\<exists>b. approach_change E b A = (r, A'))"
    using assms(2) by (auto simp: watch_arrival_def Let_def split: if_splits sum.splits exn.splits)
  with assms(1) approach_change_inv [OF assms(1)] show ?thesis by blast
qed

lemma watchdog_inv:
  assumes "vlan_inv E A"
  shows "vlan_inv E (watchdog E S t A)"
proof -
  obtain r A' where w: "watch_arrival E S t A = (r, A')" by fastforce
  note inv = watch_arrival_inv [OF assms w]
  obtain r' A'' where a: "approach_change E False A' = (r', A'')" by fastforce
  note inv' = approach_change_inv [OF inv a]
  have dead: "vlan_inv E (B\<lparr>va_watchdog := b\<rparr>)" if "vlan_inv E B" for B b
    by (rule vlan_inv_world [OF that]) simp_all
  show ?thesis
    unfolding watchdog_def w prod.case a
    using assms inv inv' dead by (simp split: sum.split)
qed

lemma door_inv: "vlan_inv E A \<Longrightarrow> vlan_inv E (snd (signal_door_release E car door A))"
proof (rule vlan_inv_adds)
  let ?reqs = "[PostIngest (door_body car door)]"
  show "adds (vlan_request E) (va_world A) (va_world (snd (signal_door_release E car door A)))"
    using post_or_raise_adds [of "vlan_request E" ?reqs "va_world A" E]
    by (auto simp: signal_door_release_def set_door_release_def door_body_def vlan_request_def split: prod.splits)
qed (auto simp: signal_door_release_def set_door_release_def vlan_inv_def split: prod.split)

lemma vlan_step_inv:
  assumes "vlan_step E S W now A A'" "env_ok E" "vlan_inv E A"
  shows "vlan_inv E A'"
  using assms(1)
proof (cases rule: vlan_step.cases)
  case snmp_fails
  then show ?thesis using assms by (simp add: snmp_poll_inv)
next
  case snmp_polls
  then show ?thesis using assms by (simp add: snmp_poll_inv)
next
  case apc_polls
  then show ?thesis using assms(3) by (simp add: apc_poll_def occupancy.change_inv split: sum.split)
next
  case pis_polls
  then show ?thesis using assms(3) by (simp add: pis_poll_def pis.change_inv split: sum.split)
next
  case reservation_polls
  then show ?thesis using assms(3) by (simp add: reservation_poll_def reservations.change_inv split: sum.split)
next
  case watchdog_wakes
  then show ?thesis using assms(3) by (simp add: watchdog_inv)
next
  case door_released
  then show ?thesis using assms(3) by (simp add: door_inv)
qed

interpretation pollers: invariant_system vlan_start "vlan_next E S W now" "vlan_inv E" for E S W now
proof unfold_locales
  show "vlan_inv E s" if "vlan_start s" for s
    using that by (auto simp: vlan_start_def vlan_inv_def init_vlan_def init_vlan_context_def)
  show "vlan_inv E t" if "vlan_inv E s" "vlan_next E S W now s t" for s t
    using that vlan_step_inv by (auto simp: vlan_next_def)
qed

end
