(* ===== verification/Vlan_Alarms.thy ===== *)
theory Vlan_Alarms
  imports Vlan_Service
begin

text \<open>
  The alarm events of vlan-pollers against the state the poller keeps of the alarms, on a
  network that loses requests but no replies.
\<close>

section \<open>The history of an alarm\<close>

definition no_lost_reply :: "environment \<Rightarrow> bool" where
  "no_lost_reply E \<longleftrightarrow> (\<forall>t. net E t \<noteq> Lost_reply)"

definition alarm_state :: "string \<Rightarrow> http_req \<Rightarrow> bool option" where
  "alarm_state i r =
     (case r of
        PostEvent e \<Rightarrow>
          if dget (ev_payload e) ''alarm_id'' = Some (JStr i)
          then (if ev_type e = ALARM_ACTIVE then Some True else if ev_type e = ALARM_CLEARED then Some False else None)
          else None
      | _ \<Rightarrow> None)"

definition alarm_history :: "string \<Rightarrow> http_req list \<Rightarrow> bool list" where
  "alarm_history i rs = List.map_filter (alarm_state i) rs"

fun never_twice :: "bool list \<Rightarrow> bool" where
  "never_twice (a # b # bs) = (\<not> (a \<and> b) \<and> never_twice (b # bs))"
| "never_twice bs = True"

definition reported_active :: "bool list \<Rightarrow> bool" where
  "reported_active bs = (bs \<noteq> [] \<and> last bs)"

lemma never_twice_snoc: "never_twice (bs @ [b]) \<longleftrightarrow> never_twice bs \<and> \<not> (reported_active bs \<and> b)"
  by (induction bs rule: never_twice.induct) (auto simp: reported_active_def)

lemma alarm_history_append [simp]: "alarm_history i (rs @ qs) = alarm_history i rs @ alarm_history i qs"
  by (simp add: alarm_history_def List.map_filter_def)

lemma alarm_history_Nil [simp]: "alarm_history i [] = []"
  by (simp add: alarm_history_def List.map_filter_def)

lemma alarm_history_none: "(\<And>r. r \<in> set rs \<Longrightarrow> alarm_state i r = None) \<Longrightarrow> alarm_history i rs = []"
  by (induction rs) (auto simp: alarm_history_def List.map_filter_def)

lemma reported_snoc [simp]: "reported_active (bs @ [b]) = b"
  by (simp add: reported_active_def)

section \<open>One emission\<close>

lemma retry_post_exact:
  assumes "no_lost_reply E" "retry_post E k r w = (ok, w')"
  shows "w_sent w' = w_sent w @ (if ok then [r] else [])"
  using assms(2)
proof (induction k arbitrary: w)
  case (Suc k)
  show ?case
  proof (cases "net E (w_tick w)")
    case Undelivered
    with Suc.prems have "retry_post E k r (w\<lparr>w_tick := Suc (w_tick w)\<rparr>) = (ok, w')" by (simp add: http_post_def)
    from Suc.IH [OF this] show ?thesis by simp
  qed (use Suc.prems assms(1) in \<open>auto simp: http_post_def no_lost_reply_def\<close>)
qed simp

lemma alarm_state_event:
  assumes "ev_type e = alarm_event_type a" "ev_payload e = alarm_kwargs vehicle a"
  shows "alarm_state i (PostEvent e) = (if al_alarm_id a = i then Some (al_active a) else None)"
  using assms by (auto simp: alarm_state_def alarm_event_type_def alarm_kwargs_def)

lemma emit_exact:
  assumes "env_ok E" "no_lost_reply E" "emit_alarm_event E vehicle now journey a w = (r, w')"
  shows "alarm_history i (w_sent w') =
    alarm_history i (w_sent w) @ (if r = Inr () \<and> al_alarm_id a = i then [al_active a] else [])"
proof (cases "alarm_envelope E vehicle (uuids E (w_uuids w)) (now (w_uuids w)) journey a")
  case (Inl x)
  with assms(3) show ?thesis by (auto simp: emit_alarm_event_def Let_def)
next
  case (Inr e)
  obtain ok w2 where p: "retry_post E default_attempts (PostEvent e) (w\<lparr>w_uuids := Suc (w_uuids w)\<rparr>) = (ok, w2)"
    by fastforce
  have "r = (if ok then Inr () else Inl HTTPError)" "w' = w2"
    using assms(3) Inr p by (auto simp: emit_alarm_event_def Let_def)
  moreover have "alarm_history i [PostEvent e] = (if al_alarm_id a = i then [al_active a] else [])"
    using alarm_state_event [OF alarm_envelope_ok(2,3) [OF assms(1) Inr]]
    by (simp add: alarm_history_def List.map_filter_def)
  ultimately show ?thesis using retry_post_exact [OF assms(2) p] by simp
qed

lemma post_isolated_events:
  assumes "list_all (\<lambda>r. alarm_state i r = None) reqs"
  shows "alarm_history i (w_sent (post_isolated E reqs w)) = alarm_history i (w_sent w)"
proof -
  obtain rs where "w_sent (post_isolated E reqs w) = w_sent w @ rs" "list_all (\<lambda>r. alarm_state i r = None) rs"
    using post_isolated_adds [OF assms] by (auto simp: adds_def)
  then show ?thesis by (simp add: alarm_history_none list_all_iff)
qed

context delta_update
begin

lemma change_history:
  "alarm_history i (w_sent (va_world (change_context E upd A))) = alarm_history i (w_sent (va_world A))"
proof -
  obtain c' reqs where u: "upd (va_ctx A) = (c', reqs)" by fastforce
  have "list_all (\<lambda>r. alarm_state i r = None) reqs"
    using pushes_iff_changed [OF u] by (simp add: push_context_delta_def alarm_state_def)
  with u show ?thesis by (simp add: change_context_def post_isolated_events)
qed

end

section \<open>The invariant\<close>

text \<open>
  The poller's memory of an alarm is active exactly when the last event of it that was posted
  says so, and no two events in a row say so.
\<close>

definition alarms_agree :: "vlan_app \<Rightarrow> bool" where
  "alarms_agree A \<longleftrightarrow> dwf (va_prev_alarms A) \<and> dget (va_prev_alarms A) [] = None \<and>
     (\<forall>i. let h = alarm_history i (w_sent (va_world A))
          in never_twice h \<and> (reported_active h \<longleftrightarrow> dget (va_prev_alarms A) i = Some True))"

lemma alarms_agree_cong:
  "alarms_agree A \<Longrightarrow> va_prev_alarms A' = va_prev_alarms A \<Longrightarrow>
   (\<And>i. alarm_history i (w_sent (va_world A')) = alarm_history i (w_sent (va_world A))) \<Longrightarrow> alarms_agree A'"
  by (simp add: alarms_agree_def)

context delta_update
begin

lemma change_agree: "alarms_agree (change_context E upd A) = alarms_agree A"
  by (simp add: alarms_agree_def change_history change_rest)

end

text \<open>An alarm without a name is rejected by its payload class.\<close>

lemma emitted_named:
  assumes "env_ok E" "emit_alarm_event E vehicle now journey a w = (Inr u, w')"
  shows "al_alarm_id a \<noteq> []"
proof
  assume n: "al_alarm_id a = []"
  have pd: "pyd_ok (pyd E)" using assms(1) by (simp add: env_ok_def)
  then have "\<not> validate_payload_shape (pyd E) (alarm_event_type a) (alarm_kwargs vehicle a)"
    by (simp add: n validate_payload_shape_def alarm_event_type_def alarm_kwargs_def pyd_ok_def validate_payload_def
        validate_fields_def alarm_active_fields_def alarm_cleared_fields_def field_names_def field_name_def dkeys_def
        payload_invariant_def keep_if_def)
  moreover obtain e where e: "alarm_envelope E vehicle (uuids E (w_uuids w)) (now (w_uuids w)) journey a = Inr e"
    using assms(2) by (auto simp: emit_alarm_event_def Let_def split: sum.splits)
  note ok = alarm_envelope_ok(1-3) [OF assms(1) e]
  ultimately show False using ok by (simp add: alarm_event_def envelope_ok_def)
qed

text \<open>A successful emission and the new memory.\<close>

lemma emitted_agree:
  assumes "env_ok E" "no_lost_reply E" "alarms_agree A"
    and "emit_alarm_event E vehicle now journey a (va_world A) = (Inr u, w)"
    and "dget (va_prev_alarms A) (al_alarm_id a) \<noteq> Some (al_active a)"
    and "dwf p" "al_alarm_id a \<noteq> [] \<Longrightarrow> dget p [] = None"
    and "\<And>i. (dget p i = Some True) = (if i = al_alarm_id a then al_active a else dget (va_prev_alarms A) i = Some True)"
  shows "alarms_agree (A\<lparr>va_prev_alarms := p, va_world := w\<rparr>)"
proof -
  have "alarm_history i (w_sent w) =
      alarm_history i (w_sent (va_world A)) @ (if al_alarm_id a = i then [al_active a] else [])" for i
    using emit_exact [OF assms(1,2,4), of i] by simp
  then show ?thesis
    using assms(3,5-8) emitted_named [OF assms(1,4)] by (auto simp: alarms_agree_def Let_def never_twice_snoc)
qed

lemma failed_agree:
  assumes "env_ok E" "no_lost_reply E" "alarms_agree A"
    and "emit_alarm_event E vehicle now journey a (va_world A) = (Inl x, w)"
  shows "alarms_agree (A\<lparr>va_world := w\<rparr>)"
  by (rule alarms_agree_cong [OF assms(3)]) (simp_all add: emit_exact [OF assms(1,2,4)])

lemma process_row_agree:
  assumes "env_ok E" "no_lost_reply E" "alarms_agree A"
  shows "alarms_agree (process_row E vehicle now journey row A)"
proof -
  let ?e = "alarm_entry_of row" and ?p = "va_prev_alarms A"
  obtain r w where em: "emit_alarm_event E vehicle now journey ?e (va_world A) = (r, w)" by fastforce
  have wf: "dwf (dset ?p k b)" for k b using assms(3) by (simp add: alarms_agree_def)
  have same: "alarms_agree (A\<lparr>va_prev_alarms := dset ?p (al_alarm_id ?e) (al_active ?e)\<rparr>)"
    if "dget ?p (al_alarm_id ?e) = Some (al_active ?e)"
    using assms(3) that wf by (auto simp: alarms_agree_def Let_def)
  have sent: "alarms_agree (A\<lparr>va_prev_alarms := dset ?p (al_alarm_id ?e) (al_active ?e), va_world := w\<rparr>)"
    if "dget ?p (al_alarm_id ?e) \<noteq> Some (al_active ?e)" "r = Inr u" for u
    by (rule emitted_agree [OF assms em [unfolded that(2)] that(1) wf])
       (use assms(3) in \<open>simp_all add: alarms_agree_def\<close>)
  have failed: "alarms_agree (A\<lparr>va_world := w\<rparr>)" if "r = Inl x" for x
    using failed_agree [OF assms] em that by simp
  show ?thesis
    using same sent failed
    unfolding process_row_def Let_def em prod.case alarm.change_agree
    by (cases r) auto
qed

lemma clear_ghost_agree:
  assumes "env_ok E" "no_lost_reply E" "alarms_agree A" "snd q \<longrightarrow> dget (va_prev_alarms A) (fst q) = Some True"
  shows "alarms_agree (clear_ghost E vehicle now journey current q A)"
proof -
  obtain i b where q: "q = (i, b)" by fastforce
  obtain r w where em: "emit_alarm_event E vehicle now journey (ghost_entry i) (va_world A) = (r, w)" by fastforce
  have "alarms_agree (A\<lparr>va_prev_alarms := ddel (va_prev_alarms A) i, va_world := w\<rparr>)" if b "r = Inr u" for u
    using assms(3,4) that q
    by (intro emitted_agree [OF assms(1-3) em [unfolded that(2)]]) (auto simp: ghost_entry_def alarms_agree_def)
  moreover have "alarms_agree (A\<lparr>va_world := w\<rparr>)" if "r = Inl x" for x
    using failed_agree [OF assms(1-3)] em that by simp
  ultimately show ?thesis
    unfolding clear_ghost_def q prod.case em using assms(3) by (cases r) auto
qed

text \<open>A ghost step touches the memory of its own alarm only.\<close>

lemma clear_ghost_memory:
  "va_prev_alarms (clear_ghost E vehicle now journey current q A) \<in> {va_prev_alarms A, ddel (va_prev_alarms A) (fst q)}"
  by (auto simp: clear_ghost_def split: prod.split sum.split)

lemma clear_ghosts_agree:
  assumes "env_ok E" "no_lost_reply E"
  shows "alarms_agree A \<Longrightarrow> distinct (map fst qs) \<Longrightarrow>
     (\<And>q. q \<in> set qs \<Longrightarrow> snd q \<Longrightarrow> dget (va_prev_alarms A) (fst q) = Some True) \<Longrightarrow>
     alarms_agree (fold (clear_ghost E vehicle now journey current) qs A)"
proof (induction qs arbitrary: A)
  case (Cons q qs)
  let ?A = "clear_ghost E vehicle now journey current q A"
  have "alarms_agree ?A"
    using Cons.prems by (intro clear_ghost_agree [OF assms]) auto
  moreover have "dget (va_prev_alarms ?A) (fst p) = Some True" if "p \<in> set qs" "snd p" for p
  proof -
    have "fst p \<in> fst ` set qs" "fst q \<notin> fst ` set qs" using Cons.prems(2) that(1) by simp_all
    then have "fst p \<noteq> fst q" by metis
    moreover have "dget (va_prev_alarms A) (fst p) = Some True" using Cons.prems(3) that by simp
    ultimately show ?thesis
      using clear_ghost_memory [of E vehicle now journey current q A] by auto
  qed
  moreover have "distinct (map fst qs)" using Cons.prems(2) by simp
  ultimately have "alarms_agree (fold (clear_ghost E vehicle now journey current) qs ?A)"
    by (intro Cons.IH)
  then show ?case by simp
qed simp

lemma process_alarms_agree:
  assumes "env_ok E" "no_lost_reply E" "alarms_agree A"
  shows "alarms_agree (process_alarms E vehicle now varbinds journey A)"
proof -
  let ?B = "fold (process_row E vehicle now journey) (decode_alarm_table varbinds) A"
  have b: "alarms_agree ?B"
    by (rule fold_keeps [where P = alarms_agree]) (use assms in \<open>auto intro: process_row_agree\<close>)
  then have "distinct (map fst (va_prev_alarms ?B))" "dwf (va_prev_alarms ?B)"
    by (simp_all add: alarms_agree_def dwf_def dkeys_def)
  moreover have "dget (va_prev_alarms ?B) (fst q) = Some True" if "q \<in> set (va_prev_alarms ?B)" "snd q" for q
    using calculation(1) that by (cases q) auto
  ultimately show ?thesis
    unfolding process_alarms_def Let_def using b by (intro clear_ghosts_agree assms(1,2))
qed

lemma post_or_raise_events:
  assumes "list_all (\<lambda>r. alarm_state i r = None) reqs"
  shows "alarm_history i (w_sent (snd (post_or_raise E reqs w))) = alarm_history i (w_sent w)"
proof -
  obtain rs where "w_sent (snd (post_or_raise E reqs w)) = w_sent w @ rs" "list_all (\<lambda>r. alarm_state i r = None) rs"
    using post_or_raise_adds [OF assms] by (auto simp: adds_def)
  then show ?thesis by (simp add: alarm_history_none list_all_iff)
qed

lemma approach_agree:
  assumes "alarms_agree A" "approach_change E active A = (r, A')"
  shows "alarms_agree A'"
proof -
  obtain c' reqs where u: "set_station_approach active (va_ctx A) = (c', reqs)" by fastforce
  then have "list_all (\<lambda>r. alarm_state i r = None) reqs" for i
    by (auto simp: set_station_approach_def Let_def alarm_state_def split: if_splits)
  note events = post_or_raise_events [OF this]
  have "va_prev_alarms A' = va_prev_alarms A" "va_world A' = snd (post_or_raise E reqs (va_world A))"
    using u assms(2) by (auto simp: approach_change_def split: prod.splits)
  then show ?thesis using events by (intro alarms_agree_cong [OF assms(1)]) simp_all
qed

lemma watchdog_agree:
  assumes "alarms_agree A"
  shows "alarms_agree (watchdog E S t A)"
proof -
  obtain r A' where w: "watch_arrival E S t A = (r, A')" by fastforce
  then have "A' = A \<or> (\<exists>b. approach_change E b A = (r, A'))"
    by (auto simp: watch_arrival_def Let_def split: if_splits sum.splits exn.splits)
  then have inv: "alarms_agree A'" using assms approach_agree [OF assms] by blast
  obtain r' A'' where a: "approach_change E False A' = (r', A'')" by fastforce
  have "alarms_agree (B\<lparr>va_watchdog := b\<rparr>) = alarms_agree B" for B b by (simp add: alarms_agree_def)
  then show ?thesis
    unfolding watchdog_def w prod.case a
    using assms inv approach_agree [OF inv a] by (simp split: sum.split)
qed

lemma door_agree: "alarms_agree A \<Longrightarrow> alarms_agree (snd (signal_door_release E car door A))"
  using post_or_raise_events [of _ "snd (set_door_release car door (va_ctx A))" E "va_world A"]
  by (elim alarms_agree_cong)
     (auto simp: signal_door_release_def set_door_release_def alarm_state_def split: prod.splits)

lemma process_agree:
  assumes "env_ok E" "no_lost_reply E" "alarms_agree A"
  shows "alarms_agree (process E S now varbinds A)"
proof -
  have "alarms_agree (A\<lparr>va_tracker := tr\<rparr>)" for tr
    by (rule alarms_agree_cong [OF assms(3)]) simp_all
  then show ?thesis
    using assms by (auto simp: process_def Let_def journey.change_agree intro!: process_alarms_agree split: prod.split)
qed

lemma vlan_step_agree:
  assumes "vlan_step E S W now A A'" "env_ok E" "no_lost_reply E" "alarms_agree A"
  shows "alarms_agree A'"
  using assms(1)
proof (cases rule: vlan_step.cases)
  case (snmp_fails e)
  have "alarms_agree (A\<lparr>va_connected := b, va_snmp_ready := c\<rparr>)" for b c
    by (rule alarms_agree_cong [OF assms(4)]) simp_all
  with snmp_fails assms show ?thesis by (simp add: snmp_poll_def)
next
  case (snmp_polls walk)
  have "alarms_agree (A\<lparr>va_connected := b, va_snmp_ready := c\<rparr>)" for b c
    by (rule alarms_agree_cong [OF assms(4)]) simp_all
  with snmp_polls assms show ?thesis
    by (auto simp: snmp_poll_def intro!: process_agree split: sum.split)
next
  case apc_polls
  then show ?thesis using assms(4) by (simp add: apc_poll_def occupancy.change_agree split: sum.split)
next
  case pis_polls
  then show ?thesis using assms(4) by (simp add: pis_poll_def pis.change_agree split: sum.split)
next
  case reservation_polls
  then show ?thesis using assms(4) by (simp add: reservation_poll_def reservations.change_agree split: sum.split)
next
  case watchdog_wakes
  then show ?thesis using assms(4) by (simp add: watchdog_agree)
next
  case door_released
  then show ?thesis using assms(4) by (simp add: door_agree)
qed

definition vlan_quiet :: "environment \<Rightarrow> vlan_settings \<Rightarrow> (varbind list \<Rightarrow> bool) \<Rightarrow> clock \<Rightarrow> vlan_app \<Rightarrow> vlan_app \<Rightarrow> bool" where
  "vlan_quiet E S W now A A' = (env_ok E \<and> no_lost_reply E \<and> vlan_step E S W now A A')"

interpretation alarms: invariant_system vlan_start "vlan_quiet E S W now" alarms_agree for E S W now
proof unfold_locales
  show "alarms_agree s" if "vlan_start s" for s
    using that by (auto simp: vlan_start_def alarms_agree_def init_vlan_def reported_active_def)
  show "alarms_agree t" if "alarms_agree s" "vlan_quiet E S W now s t" for s t
    using that vlan_step_agree by (auto simp: vlan_quiet_def)
qed

section \<open>A poll on a working network\<close>

definition always_acked :: "environment \<Rightarrow> bool" where
  "always_acked E \<longleftrightarrow> (\<forall>t. net E t = Acked)"

lemma acked_no_loss: "always_acked E \<Longrightarrow> no_lost_reply E"
  by (simp add: always_acked_def no_lost_reply_def)

lemma alarm_kwargs_valid:
  assumes "pyd_ok pd" "al_alarm_id a \<noteq> []" "vehicle \<noteq> []" "al_alarm_type a = ''other''" "al_hardware_code a \<noteq> []"
  shows "validate_payload_shape pd (alarm_event_type a) (alarm_kwargs vehicle a)"
  using assms
  by (simp add: validate_payload_shape_def alarm_event_type_def alarm_kwargs_def pyd_ok_def validate_payload_def
      validate_fields_def alarm_active_fields_def alarm_cleared_fields_def field_names_def field_name_def dkeys_def
      payload_invariant_def keep_if_def str_or_nonempty Suc_le_eq)

lemma alarm_envelope_builds:
  assumes "env_ok E" "al_alarm_id a \<noteq> []" "vehicle \<noteq> []" "al_alarm_type a = ''other''" "al_hardware_code a \<noteq> []"
    and "validate_journey_id journey"
  shows "\<exists>e. alarm_envelope E vehicle (uuids E n) now journey a = Inr e"
proof -
  have pd: "pyd_ok (pyd E)" and u: "validate_event_id (uuids E n)" using assms(1) by (auto simp: env_ok_def)
  have "event_type_of (event_type_value (alarm_event_type a)) = Some (alarm_event_type a)"
    by (rule event_type_of_value)
  moreover have "coerce_legacy_event_type (event_type_value (alarm_event_type a)) = event_type_value (alarm_event_type a)"
    by (simp add: coerce_legacy_event_type_def alarm_event_type_def)
  ultimately show ?thesis
    using alarm_kwargs_valid [OF pd assms(2-5)] u assms(6)
    by (simp add: alarm_envelope_def validate_envelope_def default_str_def utc_now_valid source_of_def
        validate_schema_version_def supported_schema_versions_def)
qed

lemma emit_succeeds:
  assumes "env_ok E" "always_acked E" "al_alarm_id a \<noteq> []" "vehicle \<noteq> []" "validate_journey_id journey"
    and "al_alarm_type a = ''other''" "al_hardware_code a \<noteq> []"
  shows "fst (emit_alarm_event E vehicle now journey a w) = Inr ()"
proof -
  obtain e where "alarm_envelope E vehicle (uuids E (w_uuids w)) (now (w_uuids w)) journey a = Inr e"
    using alarm_envelope_builds [OF assms(1,3,4,6,7,5)] by blast
  then show ?thesis
    using assms(2) by (simp add: emit_alarm_event_def Let_def default_attempts_def numeral_eq_Suc http_post_def always_acked_def)
qed

lemma process_row_memory:
  assumes "env_ok E" "always_acked E" "ar_alarm_id row \<noteq> []" "vehicle \<noteq> []" "validate_journey_id journey"
  shows "va_prev_alarms (process_row E vehicle now journey row A) = dset (va_prev_alarms A) (ar_alarm_id row) (ar_active row)"
proof -
  let ?e = "alarm_entry_of row"
  obtain r w where em: "emit_alarm_event E vehicle now journey ?e (va_world A) = (r, w)" by fastforce
  moreover have "fst (emit_alarm_event E vehicle now journey ?e (va_world A)) = Inr ()"
    by (rule emit_succeeds [OF assms(1,2)]) (use assms in \<open>simp_all add: alarm_entry_of_def\<close>)
  ultimately have "r = Inr ()" by simp
  then show ?thesis
    unfolding process_row_def Let_def em prod.case
    by (simp add: alarm.change_rest) (simp add: alarm_entry_of_def)
qed

lemma process_rows_memory:
  assumes "env_ok E" "always_acked E" "vehicle \<noteq> []" "validate_journey_id journey"
    and "distinct (map ar_alarm_id rows)" "\<And>r. r \<in> set rows \<Longrightarrow> ar_alarm_id r \<noteq> []"
  shows "dget (va_prev_alarms (fold (process_row E vehicle now journey) rows A)) i =
    (case List.find (\<lambda>r. ar_alarm_id r = i) rows of None \<Rightarrow> dget (va_prev_alarms A) i | Some r \<Rightarrow> Some (ar_active r))"
  using assms(5,6)
proof (induction rows arbitrary: A)
  case (Cons r rows)
  have "List.find (\<lambda>q. ar_alarm_id q = ar_alarm_id r) rows = None"
    using Cons.prems(1) by (auto simp: find_None_iff image_iff)
  with Cons process_row_memory [OF assms(1,2) _ assms(3,4), of r now A] show ?case by (auto split: option.split)
qed simp

lemma clear_ghosts_memory:
  assumes "env_ok E" "always_acked E" "vehicle \<noteq> []" "validate_journey_id journey"
    and "\<And>q. q \<in> set qs \<Longrightarrow> snd q \<Longrightarrow> fst q \<noteq> []"
  shows "dget (va_prev_alarms (fold (clear_ghost E vehicle now journey current) qs A)) i =
    (if i \<notin> set current \<and> (i, True) \<in> set qs then None else dget (va_prev_alarms A) i)"
  using assms(5)
proof (induction qs arbitrary: A)
  case (Cons q qs)
  obtain k b where q: "q = (k, b)" by fastforce
  obtain r w where em: "emit_alarm_event E vehicle now journey (ghost_entry k) (va_world A) = (r, w)" by fastforce
  have "r = Inr ()" if b
    using emit_succeeds [OF assms(1,2) _ assms(3,4), of "ghost_entry k" now "va_world A"] Cons.prems [of q] q em that
    by (simp add: ghost_entry_def)
  then have "va_prev_alarms (clear_ghost E vehicle now journey current q A) =
      (if k \<notin> set current \<and> b then ddel (va_prev_alarms A) k else va_prev_alarms A)"
    unfolding clear_ghost_def q prod.case em by auto
  with Cons q show ?case by auto
qed simp

lemma process_alarms_memory:
  assumes "env_ok E" "always_acked E" "vehicle \<noteq> []" "validate_journey_id journey" "alarms_agree A"
    and "distinct (map ar_alarm_id (decode_alarm_table varbinds))"
    and "\<And>r. r \<in> set (decode_alarm_table varbinds) \<Longrightarrow> ar_alarm_id r \<noteq> []"
  shows "dget (va_prev_alarms (process_alarms E vehicle now varbinds journey A)) i = Some True \<longleftrightarrow>
    (\<exists>r \<in> set (decode_alarm_table varbinds). ar_alarm_id r = i \<and> ar_active r)"
proof -
  let ?rows = "decode_alarm_table varbinds"
  let ?B = "fold (process_row E vehicle now journey) ?rows A"
  have b: "dget (va_prev_alarms ?B) k =
      (case List.find (\<lambda>r. ar_alarm_id r = k) ?rows of None \<Rightarrow> dget (va_prev_alarms A) k | Some r \<Rightarrow> Some (ar_active r))" for k
    by (rule process_rows_memory [OF assms(1-4,6,7)])
  have wf: "dwf (va_prev_alarms ?B)"
    using fold_keeps [of ?rows alarms_agree "process_row E vehicle now journey" A] assms(5)
      process_row_agree [OF assms(1) acked_no_loss [OF assms(2)]]
    by (auto simp: alarms_agree_def)
  have mem: "(k, True) \<in> set (va_prev_alarms ?B) \<longleftrightarrow> dget (va_prev_alarms ?B) k = Some True" for k
    using wf by (simp add: dwf_def dkeys_def)
  have named: "fst q \<noteq> []" if "q \<in> set (va_prev_alarms ?B)" "snd q" for q
  proof
    assume "fst q = []"
    with that(2) have "q = ([], True)" by (simp add: prod_eq_iff)
    with that(1) have "dget (va_prev_alarms ?B) [] = Some True" using mem [of "[]"] by simp
    moreover have "List.find (\<lambda>r. ar_alarm_id r = []) ?rows = None"
      unfolding find_None_iff using assms(7) by blast
    ultimately show False using b [of "[]"] assms(5) by (simp add: alarms_agree_def)
  qed
  have "dget (va_prev_alarms (process_alarms E vehicle now varbinds journey A)) i =
      (if i \<notin> ar_alarm_id ` set ?rows \<and> (i, True) \<in> set (va_prev_alarms ?B) then None else dget (va_prev_alarms ?B) i)"
    unfolding process_alarms_def Let_def using clear_ghosts_memory [OF assms(1-4) named] by simp
  note after = this
  show ?thesis
  proof (cases "List.find (\<lambda>r. ar_alarm_id r = i) ?rows")
    case None
    then have "i \<notin> ar_alarm_id ` set ?rows" by (auto simp: find_None_iff)
    then show ?thesis using after mem [of i] by auto
  next
    case (Some r)
    then have r: "r \<in> set ?rows" "ar_alarm_id r = i" by (auto simp: find_Some_iff)
    then have only: "q = r" if "q \<in> set ?rows" "ar_alarm_id q = i" for q
      using assms(6) that by (simp add: distinct_map inj_on_def)
    have "i \<in> ar_alarm_id ` set ?rows" using r by blast
    then have "dget (va_prev_alarms (process_alarms E vehicle now varbinds journey A)) i = Some (ar_active r)"
      unfolding after using b [of i] by (simp add: Some)
    then show ?thesis using r only by (metis option.inject)
  qed
qed

end
