(* ===== verification/Fusion_Push.thy ===== *)
theory Fusion_Push
  imports Fusion_State "HOL-Library.Monad_Syntax"
begin

text \<open>
  How fusion reads the JSON body of a context push: \<open>ContextPushModel\<close> and \<open>PisPush\<close> of
  \<open>fusion/src/fusion/models.py\<close>, in strict mode. \<open>None\<close> is a rejected body; an absent field
  and a null one are the same.
\<close>

section \<open>Values\<close>

fun read_str :: "json \<Rightarrow> string option" where
  "read_str (JStr s) = Some s"
| "read_str j = None"

fun read_bool :: "json \<Rightarrow> bool option" where
  "read_bool (JBool b) = Some b"
| "read_bool j = None"

fun read_int :: "json \<Rightarrow> int option" where
  "read_int (JInt i) = Some i"
| "read_int j = None"

fun read_float :: "json \<Rightarrow> rat option" where
  "read_float (JNum q) = Some q"
| "read_float (JInt i) = Some (of_int i)"
| "read_float j = None"

fun read_any :: "json \<Rightarrow> json option" where
  "read_any j = Some j"

fun read_entries :: "(json \<Rightarrow> 'a option) \<Rightarrow> jdict \<Rightarrow> (string, 'a) dict option" where
  "read_entries f [] = Some []"
| "read_entries f ((k, j) # d) =
     do { x \<leftarrow> f j; xs \<leftarrow> read_entries f d; Some ((k, x) # xs) }"

fun read_dict :: "(json \<Rightarrow> 'a option) \<Rightarrow> json \<Rightarrow> (string, 'a) dict option" where
  "read_dict f (JObj d) = read_entries f d"
| "read_dict f j = None"

fun is_object :: "json \<Rightarrow> bool" where
  "is_object (JObj d) = True"
| "is_object j = False"

fun read_objects :: "json \<Rightarrow> json list option" where
  "read_objects (JList l) = (if list_all is_object l then Some l else None)"
| "read_objects j = None"

text \<open>An optional field.\<close>

definition read_opt :: "(json \<Rightarrow> 'a option) \<Rightarrow> jdict \<Rightarrow> string \<Rightarrow> 'a option option" where
  "read_opt f d k =
     (case dget d k of None \<Rightarrow> Some None | Some JNull \<Rightarrow> Some None | Some j \<Rightarrow> map_option Some (f j))"

text \<open>\<open>PisPush\<close>: other keys are ignored.\<close>

fun read_pis :: "json \<Rightarrow> string option option" where
  "read_pis (JObj d) = read_opt read_str d ''scheduled_departure''"
| "read_pis j = None"

section \<open>The body\<close>

definition parse_context_push :: "jdict \<Rightarrow> context_push option" where
  "parse_context_push d =
     (if \<not> context_push_accepts d then None
      else do {
        journey \<leftarrow> read_opt read_str d ''journey_id'';
        vehicle \<leftarrow> read_opt read_str d ''vehicle_id'';
        speed \<leftarrow> read_opt read_float d ''speed_kmh'';
        station \<leftarrow> read_opt read_bool d ''station_approach'';
        maintenance \<leftarrow> read_opt read_bool d ''maintenance_mode'';
        depot \<leftarrow> read_opt read_bool d ''depot_mode'';
        gps \<leftarrow> read_opt read_bool d ''gps_valid'';
        release \<leftarrow> read_opt (read_dict read_bool) d ''door_release'';
        doors \<leftarrow> read_opt (read_dict read_str) d ''door_state'';
        reservations \<leftarrow> read_opt (read_dict read_int) d ''reservations'';
        consist \<leftarrow> read_opt (read_dict read_str) d ''consist'';
        ramp \<leftarrow> read_opt read_bool d ''ramp_deployed'';
        ramp_door \<leftarrow> read_opt read_str d ''ramp_door_id'';
        ramp_station \<leftarrow> read_opt read_str d ''ramp_station_id'';
        firmware \<leftarrow> read_opt read_str d ''door_firmware_version'';
        pis \<leftarrow> read_opt read_pis d ''pis'';
        trip \<leftarrow> read_opt read_str d ''trip_number'';
        alarms \<leftarrow> read_opt read_objects d ''alarms'';
        occupancy \<leftarrow> read_opt (read_dict read_any) d ''occupancy'';
        Some \<lparr>pu_journey_id = journey, pu_vehicle_id = vehicle, pu_speed_kmh = speed,
          pu_station_approach = station, pu_maintenance_mode = maintenance, pu_depot_mode = depot,
          pu_gps_valid = gps, pu_door_release = release, pu_door_state = doors,
          pu_reservations = reservations, pu_consist = consist, pu_ramp_deployed = ramp,
          pu_ramp_door_id = ramp_door, pu_ramp_station_id = ramp_station,
          pu_door_firmware_version = firmware, pu_pis = pis\<rparr>
      })"

lemma read_entries_map:
  assumes "\<And>k x. (k, x) \<in> set d \<Longrightarrow> f (g x) = Some (h x)"
  shows "read_entries f (map (\<lambda>(k, x). (k, g x)) d) = Some (map (\<lambda>(k, x). (k, h x)) d)"
  using assms
proof (induction d)
  case (Cons p d)
  obtain a b where p: "p = (a, b)" by fastforce
  then have "f (g b) = Some (h b)" using Cons.prems [of a b] by simp
  moreover have "read_entries f (map (\<lambda>(k, x). (k, g x)) d) = Some (map (\<lambda>(k, x). (k, h x)) d)"
    by (rule Cons.IH) (rule Cons.prems, erule list.set_intros(2))
  ultimately show ?case by (simp add: p)
qed simp

lemma rejected_key: "\<not> context_push_accepts d \<Longrightarrow> parse_context_push d = None"
  by (simp add: parse_context_push_def)

end
