(* ===== verification/Vlan_Contracts.thy ===== *)
theory Vlan_Contracts
  imports Vlan_Alarms Fusion_Push Fusion_App_Facts Infer_Control
begin

text \<open>
  What vlan-pollers sends set against what fusion and inference make of it.
\<close>

section \<open>Reading a push\<close>

definition full_of :: "vlan_context \<Rightarrow> context_push" where
  "full_of c = empty_push\<lparr>pu_journey_id := Some (vc_journey_id c), pu_vehicle_id := Some (vc_vehicle_id c),
     pu_speed_kmh := Some (vc_speed_kmh c), pu_station_approach := Some (vc_station_approach c),
     pu_reservations := Some (vc_reservations c), pu_pis := Some (Some (ps_scheduled_departure (vc_pis c)))\<rparr>"

definition station_of :: "bool \<Rightarrow> string \<Rightarrow> context_push" where
  "station_of active journey = empty_push\<lparr>pu_journey_id := Some journey, pu_station_approach := Some active\<rparr>"

lemma full_read: "parse_context_push (state_to_dict c) = Some (full_of c)"
proof -
  have "read_entries read_int (map (\<lambda>(k, n). (k, JInt n)) (vc_reservations c)) = Some (map (\<lambda>(k, n). (k, n)) (vc_reservations c))"
    by (rule read_entries_map) simp
  then have r: "read_entries read_int (map (\<lambda>(k, n). (k, JInt n)) (vc_reservations c)) = Some (vc_reservations c)"
    by simp
  have o': "read_entries read_any (map (\<lambda>(k, r). (k, reading_json r)) (vc_occupancy c)) =
      Some (map (\<lambda>(k, r). (k, reading_json r)) (vc_occupancy c))"
    by (rule read_entries_map) simp
  have a: "list_all is_object (map (alarm_json \<circ> snd) (vc_alarms c))"
    by (simp add: list_all_iff alarm_json_def)
  show ?thesis
    by (simp add: parse_context_push_def context_push_accepts_def context_push_keys_def state_to_dict_def dkeys_def
        read_opt_def pis_json_def r o' a full_of_def empty_push_def)
qed

lemma station_read: "parse_context_push (station_body active journey) = Some (station_of active journey)"
  by (simp add: parse_context_push_def context_push_accepts_def context_push_keys_def station_body_def dkeys_def
      read_opt_def station_of_def empty_push_def)

lemma inference_read:
  "parse_infer_push (state_to_dict c) =
     Some \<lparr>ip_throttled = False, ip_journey = Some (vc_journey_id c), ip_ramp = False, ip_door = None, ip_station = None\<rparr>"
  by (simp add: parse_infer_push_def strict_bool_def strict_opt_str_def state_to_dict_def)

section \<open>Fusion's view\<close>

text \<open>The snapshot of fusion after the requests that reached it.\<close>

definition fusion_receives :: "context_state \<Rightarrow> http_req \<Rightarrow> context_state" where
  "fusion_receives f r =
     (case r of
        PostFusion p b \<Rightarrow>
          if p = ''/context'' then (case parse_context_push b of Some m \<Rightarrow> update_from_push f m | None \<Rightarrow> f) else f
      | _ \<Rightarrow> f)"

definition fusion_view :: "http_req list \<Rightarrow> context_state" where
  "fusion_view rs = foldl fusion_receives init_context rs"

lemma fusion_view_simps [simp]:
  "fusion_view [] = init_context" "fusion_view (rs @ [r]) = fusion_receives (fusion_view rs) r"
  by (simp_all add: fusion_view_def)

lemma receives_simps [simp]:
  "fusion_receives f (PostFusion ''/context'' (state_to_dict c)) = update_from_push f (full_of c)"
  "fusion_receives f (PostFusion ''/context'' (station_body a j)) = update_from_push f (station_of a j)"
  "fusion_receives f (PostInference b) = f" "fusion_receives f (PostIngest b) = f" "fusion_receives f (PostEvent e) = f"
  by (simp_all add: fusion_receives_def full_read station_read)

text \<open>The speed fusion knows of is the 0 every full push carries.\<close>

lemma fusion_speed:
  assumes "list_all (vlan_request E) rs"
  shows "c_speed_kmh (fusion_view rs) \<in> {None, Some 0} \<and>
    ((\<exists>b. PostFusion ''/context'' b \<in> set rs \<and> full_push b) \<longrightarrow> c_speed_kmh (fusion_view rs) = Some 0)"
  using assms
proof (induction rs rule: rev_induct)
  case (snoc r rs)
  then have r: "vlan_request E r" and IH: "c_speed_kmh (fusion_view rs) \<in> {None, Some 0}"
    "(\<exists>b. PostFusion ''/context'' b \<in> set rs \<and> full_push b) \<longrightarrow> c_speed_kmh (fusion_view rs) = Some 0" by simp_all
  have full: "c_speed_kmh (fusion_receives f (PostFusion ''/context'' b)) = Some 0" if "full_push b" for b f
    using that by (auto simp: full_push_def update_from_push_def full_of_def empty_push_def Let_def)
  show ?case
  proof (cases r)
    case (PostFusion p b)
    with r have p: "p = ''/context''" and "full_push b \<or> (\<exists>a j. b = station_body a j)"
      by (auto simp: vlan_request_def)
    then consider "full_push b" | a j where "\<not> full_push b" "b = station_body a j" by blast
    then show ?thesis
    proof cases
      case 1
      with p PostFusion full show ?thesis by simp
    next
      case 2
      then have "c_speed_kmh (fusion_view (rs @ [r])) = c_speed_kmh (fusion_view rs)"
        using p PostFusion by (simp add: update_from_push_def station_of_def empty_push_def Let_def)
      with IH 2 PostFusion show ?thesis by auto
    qed
  qed (use IH r in \<open>auto simp: vlan_request_def\<close>)
qed (simp add: init_context_def)

lemma acked_post: "always_acked E \<Longrightarrow> retry_post E default_attempts r w = (True, w\<lparr>w_tick := Suc (w_tick w), w_sent := w_sent w @ [r]\<rparr>)"
  using retry_post_acked [of E w] by (simp add: default_attempts_def numeral_eq_Suc always_acked_def)

lemma acked_posts: "always_acked E \<Longrightarrow> w_sent (post_isolated E reqs w) = w_sent w @ reqs"
  by (induction reqs arbitrary: w) (simp_all add: post_isolated_def acked_post)

section \<open>The tasks interleaved\<close>

text \<open>
  The five tasks share the context and run between each other's awaits. An update of the context
  and the payload of its push are one piece of code without an await; the post is attempted, an
  attempt is on its way for as long as it takes, arrives or is lost, and the task goes on when the
  post is answered or given up. Whether an attempt was answered is left open, so a lost reply, a
  retry and a late arrival are all runs of this relation. A task has one post to fusion at a time;
  the one to inference that follows a full push only keeps the task busy longer. As history, every
  push is numbered, so that two pushes of one content are two, and keeps the context it was made of.
\<close>

datatype poll_task = Snmp_task | Apc_task | Pis_task | Reservation_task | Watchdog_task

inductive task_update :: "poll_task \<Rightarrow> vlan_context \<Rightarrow> vlan_context \<times> http_req list \<Rightarrow> bool" where
  "task_update Snmp_task c (update_journey j t v c)"
| "task_update Snmp_task c (update_alarm a c)"
| "task_update Apc_task c (update_occupancy rs c)"
| "task_update Pis_task c (update_pis p c)"
| "task_update Reservation_task c (update_reservations d c)"
| "task_update Watchdog_task c (set_station_approach b c)"

record context_post =
  cp_no :: nat
  cp_ctx :: vlan_context
  cp_req :: http_req

record polling =
  po_ctx :: vlan_context
  po_flight :: "poll_task \<Rightarrow> context_post option" \<comment> \<open>what each task is posting\<close>
  po_wire :: "context_post list" \<comment> \<open>attempts on their way\<close>
  po_fusion :: context_state
  po_computed :: "context_post list"
  po_arrived :: "context_post list"

definition to_fusion :: "http_req \<Rightarrow> bool" where
  "to_fusion r = (case r of PostFusion p b \<Rightarrow> True | _ \<Rightarrow> False)"

definition issue :: "poll_task \<Rightarrow> vlan_context \<Rightarrow> http_req list \<Rightarrow> polling \<Rightarrow> polling" where
  "issue t c' reqs s =
     (let new = map (\<lambda>r. \<lparr>cp_no = length (po_computed s), cp_ctx = c', cp_req = r\<rparr>) (filter to_fusion reqs)
      in s\<lparr>po_ctx := c', po_flight := (po_flight s)(t := (case new of [] \<Rightarrow> None | r # rs \<Rightarrow> Some r)),
           po_computed := po_computed s @ new\<rparr>)"

inductive polling_step :: "polling \<Rightarrow> polling \<Rightarrow> bool" where
  Updates: "po_flight s t = None \<Longrightarrow> task_update t (po_ctx s) (c', reqs) \<Longrightarrow> polling_step s (issue t c' reqs s)"
| Attempts: "po_flight s t = Some r \<Longrightarrow> polling_step s (s\<lparr>po_wire := po_wire s @ [r]\<rparr>)"
| Arrives: "r \<in> set (po_wire s) \<Longrightarrow> polling_step s
    (s\<lparr>po_wire := remove1 r (po_wire s), po_fusion := fusion_receives (po_fusion s) (cp_req r),
       po_arrived := po_arrived s @ [r]\<rparr>)"
| Lost: "r \<in> set (po_wire s) \<Longrightarrow> polling_step s (s\<lparr>po_wire := remove1 r (po_wire s)\<rparr>)"
| Ends: "po_flight s t = Some r \<Longrightarrow> polling_step s (s\<lparr>po_flight := (po_flight s)(t := None)\<rparr>)"

definition polling_start :: "polling \<Rightarrow> bool" where
  "polling_start s \<longleftrightarrow> s = \<lparr>po_ctx = init_vlan_context, po_flight = (\<lambda>t. None), po_wire = [],
     po_fusion = init_context, po_computed = [], po_arrived = []\<rparr>"

text \<open>A full push, or the push of a station approach.\<close>

definition full_post :: "context_post \<Rightarrow> bool" where
  "full_post r \<longleftrightarrow> cp_req r = PostFusion ''/context'' (state_to_dict (cp_ctx r))"

definition station_post :: "context_post \<Rightarrow> bool" where
  "station_post r \<longleftrightarrow>
     cp_req r = PostFusion ''/context'' (station_body (vc_station_approach (cp_ctx r)) (vc_journey_id (cp_ctx r)))"

text \<open>The last full push and everything after it; everything, where there is none.\<close>

fun from_full :: "context_post list \<Rightarrow> context_post list" where
  "from_full [] = []"
| "from_full (r # rs) = (if list_ex full_post rs then from_full rs else r # rs)"

text \<open>Since some moment only these pushes have arrived, the last full one among them, and the newest
  of them was the last to arrive. Whatever was lost, overtaken or arrived before does not matter.\<close>

definition caught_up :: "polling \<Rightarrow> bool" where
  "caught_up s \<longleftrightarrow> po_computed s = [] \<or>
     (\<exists>n. let new = drop n (po_arrived s) in
        new \<noteq> [] \<and> set new \<subseteq> set (from_full (po_computed s)) \<and> hd (from_full (po_computed s)) \<in> set new \<and>
        last new = last (po_computed s))"

text \<open>Both sides agree. A departure the pollers do not have (any more) is not passed on: fusion takes
  an empty one for no news.\<close>

definition mirrors :: "vlan_context \<Rightarrow> context_state \<Rightarrow> bool" where
  "mirrors v f \<longleftrightarrow>
     c_station_approach f = vc_station_approach v \<and> c_reservations f = vc_reservations v \<and>
     (c_journey_id f = Some (vc_journey_id v) \<or> c_journey_id f = None \<and> vc_journey_id v = []) \<and>
     (c_vehicle_id f = Some (vc_vehicle_id v) \<or> c_vehicle_id f = None \<and> vc_vehicle_id v = []) \<and>
     (c_speed_kmh f = Some (vc_speed_kmh v) \<or> c_speed_kmh f = None \<and> vc_speed_kmh v = 0) \<and>
     (ps_scheduled_departure (vc_pis v) \<noteq> [] \<longrightarrow>
        c_journey_id f = Some (vc_journey_id v) \<and> c_scheduled_departure f = Some (ps_scheduled_departure (vc_pis v)))"

text \<open>What only a full push carries is of one context, never a mixture of two.\<close>

definition snapshot_of :: "vlan_context \<Rightarrow> context_state \<Rightarrow> bool" where
  "snapshot_of c f \<longleftrightarrow> c_reservations f = vc_reservations c \<and>
     (c_vehicle_id f = Some (vc_vehicle_id c) \<and> c_speed_kmh f = Some (vc_speed_kmh c) \<or>
      c = init_vlan_context \<and> c_vehicle_id f = None \<and> c_speed_kmh f = None)"

text \<open>Facts: what an update posts, and how the pushes that matter grow.\<close>

lemma update_posts:
  assumes "task_update t c (c', reqs)"
  obtains (nothing) "reqs = []" "c' = c" | (full) "reqs = push_context_delta c'"
    | (station) b where "c' = c\<lparr>vc_station_approach := b\<rparr>" "reqs = [PostFusion ''/context'' (station_body b (vc_journey_id c))]"
  using assms
  by (cases rule: task_update.cases)
    (auto simp: update_journey_def update_alarm_def update_occupancy_def update_pis_def update_reservations_def
      set_station_approach_def station_body_def Let_def split: if_splits)

lemma station_not_full: "station_post r \<Longrightarrow> \<not> full_post r"
  by (simp add: station_post_def full_post_def station_body_def state_to_dict_def)

lemma from_full_snoc: "from_full (ps @ [r]) = (if full_post r then [r] else from_full ps @ [r])"
  by (induction ps) (auto simp: list_ex_iff)

lemma from_full_last: "ps \<noteq> [] \<Longrightarrow> from_full ps \<noteq> [] \<and> last (from_full ps) = last ps"
  by (induction ps rule: rev_induct) (simp_all add: from_full_snoc)

lemma from_full_suffix: "\<exists>pre. ps = pre @ from_full ps"
proof (induction ps)
  case (Cons p ps)
  then obtain pre where "ps = pre @ from_full ps" by blast
  then have "p # ps = (p # pre) @ from_full ps" by simp
  moreover have "p # ps = [] @ (p # ps)" by simp
  ultimately show ?case unfolding from_full.simps by metis
qed simp

lemma from_full_tail: "r \<in> set (tl (from_full ps)) \<Longrightarrow> \<not> full_post r"
  by (induction ps) (auto simp: list_ex_iff split: if_splits)

lemma from_full_none: "from_full ps = r # rs \<Longrightarrow> \<not> full_post r \<Longrightarrow> \<forall>q \<in> set ps. \<not> full_post q"
proof (induction ps arbitrary: r rs)
  case (Cons p ps)
  show ?case
  proof (cases "list_ex full_post ps")
    case True
    with Cons show ?thesis by (auto simp: list_ex_iff)
  next
    case False
    with Cons.prems show ?thesis by (auto simp: list_ex_iff)
  qed
qed simp

definition base_of :: "context_post list \<Rightarrow> vlan_context" where
  "base_of ps = (case from_full ps of [] \<Rightarrow> init_vlan_context | r # rs \<Rightarrow> if full_post r then cp_ctx r else init_vlan_context)"

lemma base_of_snoc: "base_of (ps @ [r]) = (if full_post r then cp_ctx r else base_of ps)"
  by (cases "from_full ps") (simp_all add: base_of_def from_full_snoc)

definition held :: "vlan_context \<Rightarrow> vlan_context \<Rightarrow> bool" where
  "held b c \<longleftrightarrow> vc_journey_id c = vc_journey_id b \<and> vc_vehicle_id c = vc_vehicle_id b \<and>
     vc_speed_kmh c = vc_speed_kmh b \<and> vc_reservations c = vc_reservations b \<and> vc_pis c = vc_pis b"

text \<open>The invariant: the context is the one of the last full push, but for the station approach,
  which is that of the last push.\<close>

definition polling_inv :: "polling \<Rightarrow> bool" where
  "polling_inv s \<longleftrightarrow>
     (\<forall>r \<in> set (po_computed s). full_post r \<or> station_post r) \<and>
     (\<forall>t r. po_flight s t = Some r \<longrightarrow> r \<in> set (po_computed s)) \<and>
     set (po_wire s) \<subseteq> set (po_computed s) \<and> set (po_arrived s) \<subseteq> set (po_computed s) \<and>
     po_fusion s = fusion_view (map cp_req (po_arrived s)) \<and>
     held (base_of (po_computed s)) (po_ctx s) \<and>
     (\<forall>r \<in> set (from_full (po_computed s)). held (base_of (po_computed s)) (cp_ctx r)) \<and>
     vc_station_approach (po_ctx s) = (po_computed s \<noteq> [] \<and> vc_station_approach (cp_ctx (last (po_computed s))))"

lemma held_refl: "held c c" and held_approach: "held b (c\<lparr>vc_station_approach := a\<rparr>) = held b c"
  by (simp_all add: held_def)

lemma updates_inv:
  assumes "polling_inv s" "po_flight s t = None" "task_update t (po_ctx s) (c', reqs)"
  shows "polling_inv (issue t c' reqs s)"
  using assms(3)
proof (cases rule: update_posts)
  case nothing
  with assms(1,2) show ?thesis by (auto simp: issue_def polling_inv_def)
next
  case full
  let ?r = "\<lparr>cp_no = length (po_computed s), cp_ctx = c', cp_req = PostFusion ''/context'' (state_to_dict c')\<rparr>"
  have r: "full_post ?r" by (simp add: full_post_def)
  have "issue t c' reqs s = s\<lparr>po_ctx := c', po_flight := (po_flight s)(t := Some ?r), po_computed := po_computed s @ [?r]\<rparr>"
    by (simp add: issue_def full push_context_delta_def to_fusion_def)
  with r assms(1) show ?thesis
    by (auto simp: polling_inv_def from_full_snoc base_of_snoc held_refl)
next
  case (station b)
  let ?r = "\<lparr>cp_no = length (po_computed s), cp_ctx = c', cp_req = PostFusion ''/context'' (station_body b (vc_journey_id (po_ctx s)))\<rparr>"
  have r: "station_post ?r" by (simp add: station_post_def station)
  have "issue t c' reqs s = s\<lparr>po_ctx := c', po_flight := (po_flight s)(t := Some ?r), po_computed := po_computed s @ [?r]\<rparr>"
    by (simp add: issue_def station to_fusion_def)
  with r station_not_full [OF r] assms(1) station(1) show ?thesis
    by (auto simp: polling_inv_def from_full_snoc base_of_snoc held_approach)
qed

lemma polling_step_inv:
  assumes "polling_inv s" "polling_step s s'"
  shows "polling_inv s'"
  using assms(2)
proof (cases rule: polling_step.cases)
  case (Updates t c' reqs)
  with updates_inv assms(1) show ?thesis by blast
next
  case (Arrives r)
  with assms(1) set_remove1_subset [of r "po_wire s"] show ?thesis by (auto simp: polling_inv_def)
next
  case (Lost r)
  with assms(1) set_remove1_subset [of r "po_wire s"] show ?thesis by (auto simp: polling_inv_def)
qed (use assms(1) in \<open>auto simp: polling_inv_def\<close>)

interpretation polled: invariant_system polling_start polling_step polling_inv
proof unfold_locales
  show "polling_inv s" if "polling_start s" for s
    using that by (simp add: polling_start_def polling_inv_def base_of_def held_refl fusion_view_def)
      (simp add: init_vlan_context_def)
qed (rule polling_step_inv)

text \<open>What the arrivals make of fusion.\<close>

abbreviation view_of :: "context_post list \<Rightarrow> context_state" where
  "view_of ps \<equiv> fusion_view (map cp_req ps)"

lemma post_received:
  "full_post r \<Longrightarrow> fusion_receives f (cp_req r) = update_from_push f (full_of (cp_ctx r))"
  "station_post r \<Longrightarrow> fusion_receives f (cp_req r) =
     update_from_push f (station_of (vc_station_approach (cp_ctx r)) (vc_journey_id (cp_ctx r)))"
  by (simp_all add: full_post_def station_post_def)

lemmas push_defs = update_from_push_def full_of_def station_of_def empty_push_def next_departure_def Let_def

lemma approach_of_last:
  assumes "ps \<noteq> []" "\<forall>r \<in> set ps. full_post r \<or> station_post r"
  shows "c_station_approach (view_of ps) = vc_station_approach (cp_ctx (last ps))"
proof -
  obtain qs r where ps: "ps = qs @ [r]" using assms(1) by (meson rev_exhaust)
  then have "full_post r \<or> station_post r" using assms(2) by simp
  then show ?thesis by (auto simp: ps post_received push_defs)
qed

lemma view_snapshot:
  assumes "\<forall>r \<in> set ps. full_post r \<or> station_post r"
  shows "\<exists>c \<in> insert init_vlan_context (cp_ctx ` set ps). snapshot_of c (view_of ps)"
  using assms
proof (induction ps rule: rev_induct)
  case (snoc r ps)
  then obtain c where c: "c \<in> insert init_vlan_context (cp_ctx ` set ps)" "snapshot_of c (view_of ps)" by auto
  from snoc.prems have "full_post r \<or> station_post r" by simp
  then show ?case
  proof
    assume "full_post r"
    then have "snapshot_of (cp_ctx r) (view_of (ps @ [r]))" by (simp add: post_received snapshot_of_def push_defs)
    then show ?thesis by auto
  next
    assume "station_post r"
    then have "snapshot_of c (view_of (ps @ [r]))" using c(2) by (simp add: post_received snapshot_of_def push_defs)
    with c(1) show ?thesis by auto
  qed
qed (simp add: snapshot_of_def init_context_def init_vlan_context_def)

text \<open>A departure fusion shows was pushed for the journey it shows.\<close>

lemma view_departure:
  assumes "\<forall>r \<in> set ps. full_post r \<or> station_post r" "c_scheduled_departure (view_of ps) = Some d"
  shows "\<exists>r \<in> set ps. ps_scheduled_departure (vc_pis (cp_ctx r)) = d \<and> c_journey_id (view_of ps) = Some (vc_journey_id (cp_ctx r))"
  using assms
proof (induction ps rule: rev_induct)
  case (snoc r ps)
  from snoc.prems(1) have "full_post r \<or> station_post r" by simp
  then show ?case
    using snoc.IH snoc.prems
    by (auto simp: post_received push_defs truthy_def keep_some_def split: if_splits option.splits)
qed (simp add: init_context_def)

text \<open>Full pushes and later station pushes of the same journey agree on everything but the approach.\<close>

definition agreed :: "vlan_context \<Rightarrow> context_state \<Rightarrow> bool" where
  "agreed v f \<longleftrightarrow> c_reservations f = vc_reservations v \<and> c_journey_id f = Some (vc_journey_id v) \<and>
     c_vehicle_id f = Some (vc_vehicle_id v) \<and> c_speed_kmh f = Some (vc_speed_kmh v) \<and>
     (ps_scheduled_departure (vc_pis v) \<noteq> [] \<longrightarrow> c_scheduled_departure f = Some (ps_scheduled_departure (vc_pis v)))"

lemma held_agreed: "held b c \<Longrightarrow> agreed c f = agreed b f"
  by (simp add: held_def agreed_def)

lemma agreed_full: "agreed v (update_from_push f (full_of v))"
  by (auto simp: agreed_def push_defs truthy_def)

lemma agreed_post:
  assumes "full_post r \<or> station_post r" "held b (cp_ctx r)" "full_post r \<or> agreed b f"
  shows "agreed b (fusion_receives f (cp_req r))"
proof (cases "full_post r")
  case True
  then show ?thesis using agreed_full [of "cp_ctx r" f] held_agreed [OF assms(2)] by (simp add: post_received)
next
  case False
  with assms(1,3) have "station_post r" "agreed (cp_ctx r) f" by (simp_all add: held_agreed [OF assms(2)])
  then have "agreed (cp_ctx r) (fusion_receives f (cp_req r))" by (simp add: post_received agreed_def push_defs truthy_def)
  then show ?thesis by (simp add: held_agreed [OF assms(2)])
qed

lemma agreed_posts:
  assumes "\<forall>r \<in> set ps. (full_post r \<or> station_post r) \<and> held b (cp_ctx r)"
  shows "agreed b f \<or> list_ex full_post ps \<Longrightarrow> agreed b (foldl fusion_receives f (map cp_req ps))"
  using assms
proof (induction ps arbitrary: f)
  case (Cons r ps)
  then show ?case using agreed_post [of r b f] by auto
qed simp

lemma view_stations:
  assumes "\<forall>r \<in> set ps. station_post r \<and> held init_vlan_context (cp_ctx r)"
  shows "c_reservations (view_of ps) = [] \<and> c_vehicle_id (view_of ps) = None \<and> c_speed_kmh (view_of ps) = None \<and>
    c_journey_id (view_of ps) \<in> {None, Some []}"
  using assms
proof (induction ps rule: rev_induct)
  case (snoc r ps)
  then have "station_post r" "vc_journey_id (cp_ctx r) = []" by (simp_all add: held_def init_vlan_context_def)
  with snoc show ?case by (simp add: post_received push_defs)
qed (simp add: init_context_def)

lemma view_split: "view_of ps = foldl fusion_receives (view_of (take n ps)) (map cp_req (drop n ps))"
proof -
  have "map cp_req ps = map cp_req (take n ps) @ map cp_req (drop n ps)" by (simp flip: map_append)
  then show ?thesis unfolding fusion_view_def by (simp only: foldl_append)
qed

lemma caught_up_mirrors:
  assumes "polling_inv s" "caught_up s"
  shows "mirrors (po_ctx s) (po_fusion s)"
proof (cases "from_full (po_computed s)")
  case Nil
  then have "po_computed s = []" using from_full_last by blast
  with assms(1) show ?thesis
    by (auto simp: polling_inv_def mirrors_def base_of_def held_def fusion_view_def init_context_def init_vlan_context_def
        empty_pis_def)
next
  case (Cons r0 rs)
  let ?b = "base_of (po_computed s)" and ?f = "po_fusion s"
  have ne: "po_computed s \<noteq> []" using Cons by auto
  then obtain n where new: "drop n (po_arrived s) \<noteq> []" "set (drop n (po_arrived s)) \<subseteq> set (from_full (po_computed s))"
    "r0 \<in> set (drop n (po_arrived s))" "last (drop n (po_arrived s)) = last (po_computed s)"
    using assms(2) Cons by (auto simp: caught_up_def Let_def)
  have posts: "\<forall>r \<in> set (po_computed s). full_post r \<or> station_post r"
    and base: "held ?b (po_ctx s)" "\<forall>r \<in> set (from_full (po_computed s)). held ?b (cp_ctx r)"
    and view: "?f = view_of (po_arrived s)" and sub: "set (po_arrived s) \<subseteq> set (po_computed s)"
    and app: "vc_station_approach (po_ctx s) = vc_station_approach (cp_ctx (last (po_computed s)))"
    using assms(1) ne by (simp_all add: polling_inv_def)
  have "last (po_arrived s) = last (po_computed s)" "po_arrived s \<noteq> []"
    using new(1,4) by (auto simp: last_drop)
  then have approach: "c_station_approach ?f = vc_station_approach (po_ctx s)"
    using approach_of_last [of "po_arrived s"] posts sub by (auto simp: view app)
  show ?thesis
  proof (cases "full_post r0")
    case True
    have "\<forall>r \<in> set (drop n (po_arrived s)). (full_post r \<or> station_post r) \<and> held ?b (cp_ctx r)"
      using new(2) base(2) posts sub by (blast dest: in_set_dropD)
    moreover have "list_ex full_post (drop n (po_arrived s))" using True new(3) by (auto simp: list_ex_iff)
    ultimately have "agreed ?b (foldl fusion_receives (view_of (take n (po_arrived s))) (map cp_req (drop n (po_arrived s))))"
      by (intro agreed_posts) simp_all
    then have "agreed ?b ?f" by (simp only: view view_split [symmetric])
    then have "agreed (po_ctx s) ?f" using held_agreed [OF base(1)] by simp
    with approach show ?thesis by (simp add: agreed_def mirrors_def)
  next
    case False
    have b: "?b = init_vlan_context" using False Cons by (simp add: base_of_def)
    have none: "\<forall>r \<in> set (po_computed s). \<not> full_post r" by (rule from_full_none [OF Cons False])
    then have "from_full (po_computed s) = po_computed s" by (cases "po_computed s") (auto simp: list_ex_iff)
    then have "\<forall>r \<in> set (po_arrived s). station_post r \<and> held init_vlan_context (cp_ctx r)"
      using none posts sub base(2) by (auto simp: b)
    from view_stations [OF this] approach base(1) show ?thesis
      by (auto simp: view mirrors_def b held_def init_vlan_context_def empty_pis_def)
  qed
qed

section \<open>A train without a trip number\<close>

text \<open>
  What the service does when no walk shows the trip number: it never names a journey, in its
  own events or to fusion.
\<close>

definition anonymous_request :: "http_req \<Rightarrow> bool" where
  "anonymous_request r =
     (case r of
        PostEvent e \<Rightarrow> False
      | PostFusion p b \<Rightarrow> p = ''/context'' \<and>
          ((\<exists>c. vc_journey_id c = [] \<and> b = state_to_dict c) \<or> (\<exists>a. b = station_body a []))
      | _ \<Rightarrow> True)"

definition anonymous :: "vlan_app \<Rightarrow> bool" where
  "anonymous A \<longleftrightarrow> vc_journey_id (va_ctx A) = [] \<and> list_all anonymous_request (w_sent (va_world A))"

lemma anonymous_view:
  "list_all anonymous_request rs \<Longrightarrow> c_journey_id (fusion_view rs) \<in> {None, Some []}"
proof (induction rs rule: rev_induct)
  case (snoc r rs)
  then have IH: "c_journey_id (fusion_view rs) \<in> {None, Some []}" and r: "anonymous_request r" by simp_all
  show ?case
    using IH r
    by (cases r) (auto simp: anonymous_request_def update_from_push_def full_of_def station_of_def empty_push_def Let_def
        fusion_receives_def full_read station_read split: option.splits if_splits)
qed (simp add: init_context_def)

lemma no_journey_no_envelope:
  assumes "c_journey_id c \<in> {None, Some []}"
  shows "build_envelope E S c uuid now et p sev ts \<noteq> Inr (Some e)"
proof -
  have "\<not> validate_journey_id []" by (simp add: validate_journey_id_def)
  then have "validate_envelope pd uuid now r \<noteq> Inr e'" if "raw_journey_id r = []" for pd r e'
    using that by (auto simp: validate_envelope_def res_iff)
  with assms show ?thesis by (auto simp: build_envelope_def map_sum_def split: sum.splits)
qed

lemma anonymous_change:
  assumes "anonymous A" "f (va_ctx A) = (c', reqs)" "vc_journey_id c' = []" "reqs \<in> {[], push_context_delta c'}"
  shows "anonymous (change_context E f A)"
proof -
  have "list_all anonymous_request reqs"
    using assms(3,4) by (auto simp: push_context_delta_def anonymous_request_def)
  then have "adds anonymous_request (va_world A) (post_isolated E reqs (va_world A))"
    by (rule post_isolated_adds)
  with assms show ?thesis by (auto simp: anonymous_def change_context_def adds_def)
qed

lemma anonymous_updates:
  assumes "anonymous A"
  shows "anonymous (change_context E (update_pis p) A)" "anonymous (change_context E (update_occupancy o') A)"
    "anonymous (change_context E (update_reservations d) A)"
proof -
  have j: "vc_journey_id (va_ctx A) = []" using assms by (simp add: anonymous_def)
  obtain c1 r1 where u1: "update_pis p (va_ctx A) = (c1, r1)" by fastforce
  obtain c2 r2 where u2: "update_occupancy o' (va_ctx A) = (c2, r2)" by fastforce
  obtain c3 r3 where u3: "update_reservations d (va_ctx A) = (c3, r3)" by fastforce
  show "anonymous (change_context E (update_pis p) A)"
    by (rule anonymous_change [where f = "update_pis p", OF assms u1]) (use u1 j in \<open>auto simp: update_pis_def Let_def split: if_splits\<close>)
  show "anonymous (change_context E (update_occupancy o') A)"
    by (rule anonymous_change [where f = "update_occupancy o'", OF assms u2]) (use u2 j in \<open>auto simp: update_occupancy_def Let_def split: if_splits\<close>)
  show "anonymous (change_context E (update_reservations d) A)"
    by (rule anonymous_change [where f = "update_reservations d", OF assms u3]) (use u3 j in \<open>auto simp: update_reservations_def Let_def split: if_splits\<close>)
qed

lemma anonymous_approach:
  assumes "anonymous A" "approach_change E active A = (r, A')"
  shows "anonymous A'"
proof -
  obtain c' reqs where u: "set_station_approach active (va_ctx A) = (c', reqs)" by fastforce
  then have c: "vc_journey_id c' = []" "list_all anonymous_request reqs"
    using assms(1) by (auto simp: set_station_approach_def anonymous_def anonymous_request_def station_body_def Let_def
        split: if_splits)
  then have "adds anonymous_request (va_world A) (snd (post_or_raise E reqs (va_world A)))"
    by (simp add: post_or_raise_adds)
  with c(1) u assms show ?thesis by (auto simp: approach_change_def anonymous_def adds_def split: prod.splits)
qed

lemma anonymous_watchdog:
  assumes "anonymous A"
  shows "anonymous (watchdog E S t A)"
proof -
  obtain r A' where w: "watch_arrival E S t A = (r, A')" by fastforce
  then have "A' = A \<or> (\<exists>b. approach_change E b A = (r, A'))"
    by (auto simp: watch_arrival_def Let_def split: if_splits sum.splits exn.splits)
  then have inv: "anonymous A'" using assms anonymous_approach [OF assms] by blast
  obtain r' A'' where a: "approach_change E False A' = (r', A'')" by fastforce
  have "anonymous (B\<lparr>va_watchdog := b\<rparr>) = anonymous B" for B b by (simp add: anonymous_def)
  then show ?thesis
    unfolding watchdog_def w prod.case a
    using assms inv anonymous_approach [OF inv a] by (simp split: sum.split)
qed

lemma anonymous_door: "anonymous A \<Longrightarrow> anonymous (snd (signal_door_release E car door A))"
  using post_or_raise_adds [of anonymous_request "[PostIngest (door_body car door)]" "va_world A" E]
  by (auto simp: signal_door_release_def set_door_release_def anonymous_def anonymous_request_def door_body_def adds_def
      split: prod.splits)

lemma vlan_step_anonymous:
  assumes "vlan_step E S (walked_from alarm_entry_oid) now A A'" "anonymous A"
  shows "anonymous A'"
  using assms(1)
proof (cases rule: vlan_step.cases)
  case (snmp_fails e)
  with assms(2) show ?thesis by (auto simp: snmp_poll_def anonymous_def)
next
  case (snmp_polls walk)
  with walk_has_no_trip have "decode_trip_number walk = None" by blast
  with snmp_polls assms(2) show ?thesis by (auto simp: snmp_poll_def process_def anonymous_def)
next
  case apc_polls
  then show ?thesis using assms(2) by (simp add: apc_poll_def anonymous_updates split: sum.split)
next
  case pis_polls
  then show ?thesis using assms(2) by (simp add: pis_poll_def anonymous_updates split: sum.split)
next
  case reservation_polls
  then show ?thesis using assms(2) by (simp add: reservation_poll_def anonymous_updates split: sum.split)
next
  case watchdog_wakes
  then show ?thesis using assms(2) by (simp add: anonymous_watchdog)
next
  case door_released
  then show ?thesis using assms(2) by (simp add: anonymous_door)
qed

interpretation tripless: invariant_system vlan_start "vlan_next E S (walked_from alarm_entry_oid) now" anonymous for E S now
proof unfold_locales
  show "anonymous s" if "vlan_start s" for s
    using that by (auto simp: vlan_start_def anonymous_def init_vlan_def init_vlan_context_def)
  show "anonymous t" if "anonymous s" "vlan_next E S (walked_from alarm_entry_oid) now s t" for s t
    using that vlan_step_anonymous by (auto simp: vlan_next_def)
qed

end
