(* ===== verification/Vlan_Watch.thy ===== *)
theory Vlan_Watch
  imports Vlan_Pollers
begin

text \<open>The station watchdog on the two texts of an instant: in UTC, and without an offset.\<close>

lemma field_take: "i + w \<le> n \<Longrightarrow> field i w (take n s) = field i w s"
  by (simp add: field_def drop_take min_def)

lemma field_drop: "field i w (drop k s) = field (k + i) w s"
  by (simp add: field_def add.commute)

definition time_pat :: "(char \<Rightarrow> bool) list" where
  "time_pat = [is_digit, is_digit, lit CHR '':'', is_digit, is_digit, lit CHR '':'', is_digit, is_digit]"

lemma head_pattern: "iso_head_pat = date_pat @ [lit CHR ''T''] @ time_pat"
  by (simp add: iso_head_pat_def date_pat_def time_pat_def numeral_eq_Suc)

lemma length_pats: "length date_pat = 10" "length time_pat = 8"
  by (simp_all add: date_pat_def time_pat_def)

lemma head_shape: "fits date_pat (take 10 (iso_head v))" "fits time_pat (drop 11 (iso_head v))"
proof -
  have l: "length date_pat = length (take 10 (iso_head v))" "length [lit CHR ''T''] = length (take 1 (drop 10 (iso_head v)))"
    by (simp_all add: length_pats)
  have "fits (date_pat @ [lit CHR ''T''] @ time_pat) (take 10 (iso_head v) @ take 1 (drop 10 (iso_head v)) @ drop 11 (iso_head v))"
    using fits_iso_head [of v] unfolding head_pattern
    by (metis append_take_drop_id drop_drop one_plus_numeral semiring_norm(3))
  then show "fits date_pat (take 10 (iso_head v))" "fits time_pat (drop 11 (iso_head v))"
    unfolding fits_append [OF l(1)] fits_append [OF l(2)] by blast+
qed

lemma iso_date_time_head:
  assumes "dt_ok v"
  shows "iso_date_time (iso_head v) = Some (v\<lparr>us := 0\<rparr>)"
proof -
  let ?s = "iso_head v"
  have f: "field 0 4 (take 10 ?s) = yr v" "field 5 2 (take 10 ?s) = mo v" "field 8 2 (take 10 ?s) = dy v"
    "field 0 2 (drop 11 ?s) = hh v" "field 3 2 (drop 11 ?s) = mi v" "field 6 2 (drop 11 ?s) = sc v"
    using fields_iso_head [OF assms] by (simp_all add: field_take field_drop)
  have t: "fits [is_digit, is_digit, lit CHR '':'', is_digit, is_digit, lit CHR '':'', is_digit, is_digit] (take 8 (drop 11 ?s))"
    using head_shape(2) [of v] unfolding time_pat_def by simp
  have ok: "dt_ok \<lparr>yr = yr v, mo = mo v, dy = dy v, hh = hh v, mi = mi v, sc = sc v, us = 0\<rparr>"
    using assms by (simp add: dt_ok_def)
  have "v\<lparr>us := 0\<rparr> = \<lparr>yr = yr v, mo = mo v, dy = dy v, hh = hh v, mi = mi v, sc = sc v, us = 0\<rparr>"
    by (cases v) simp
  moreover have "drop 8 (drop 11 ?s) = []" by simp
  ultimately show ?thesis
    using t head_shape(1) [of v] ok unfolding iso_date_time_def Let_def f by (simp add: f)
qed

lemma head_no_offset: "\<not> fits offset_pat (drop (length (iso_head v) - 6) (iso_head v))"
proof
  assume o': "fits offset_pat (drop (length (iso_head v) - 6) (iso_head v))"
  have "drop (length (iso_head v) - 6) (iso_head v) = drop 2 (drop 11 (iso_head v))" by simp
  then have "fits offset_pat (drop 2 (drop 11 (iso_head v)))" using o' by simp
  moreover obtain a b c where "drop 11 (iso_head v) = a # b # CHR '':'' # c"
    using head_shape(2) [of v] by (auto simp: time_pat_def lit_def)
  ultimately show False by (simp add: offset_pat_def)
qed

lemma parse_naive:
  assumes "dt_ok v"
  shows "fromisoformat (iso_head v) = Inr (Naive (v\<lparr>us := 0\<rparr>))"
  using head_no_offset [of v] iso_date_time_head [OF assms] by (simp add: fromisoformat_def Let_def)

lemma parse_utc:
  assumes "dt_ok v"
  shows "fromisoformat (iso_head v @ ''+00:00'') = Inr (Aware (dt_micros (v\<lparr>us := 0\<rparr>)))"
proof -
  have "fits offset_pat ''+00:00''" "offset_minutes ''+00:00'' = 0" "field (Suc 0) 2 ''+00:00'' < 24" "field 4 2 ''+00:00'' < 60"
    by code_simp+
  then show ?thesis
    using iso_date_time_head [OF assms] by (simp add: fromisoformat_def Let_def)
qed

lemma zone_suffix: "py_replace ''Z'' ''+00:00'' (iso_head v @ ''Z'') = iso_head v @ ''+00:00''"
  using py_replace_suffix [of "CHR ''Z''" "iso_head v" "[]"] iso_head_no_Z by simp

lemma zone_none: "py_replace ''Z'' ''+00:00'' (iso_head v) = iso_head v"
  using py_replace_skip [of "CHR ''Z''" "iso_head v" "[]" "''+00:00''" "[]"] iso_head_no_Z by simp

lemma approaching_utc:
  assumes "dt_ok v"
  shows "approaching window now (iso_head v @ ''Z'') =
    Inr (0 \<le> total_seconds (dt_micros (v\<lparr>us := 0\<rparr>) - dt_micros now) \<and>
         total_seconds (dt_micros (v\<lparr>us := 0\<rparr>) - dt_micros now) \<le> of_int window)"
  by (simp add: approaching_def zone_suffix parse_utc [OF assms] Let_def)

lemma approaching_naive:
  assumes "dt_ok v"
  shows "approaching window now (iso_head v) = Inl TypeError"
  by (simp add: approaching_def zone_none parse_naive [OF assms])

end
