(* ===== verification/Rtsp_Ingest.thy ===== *)
theory Rtsp_Ingest
  imports Shared_Interfaces
begin

text \<open>
  \<open>rtsp-ingest/src/rtsp_ingest\<close>: the cameras (\<open>models.py\<close>), the frame-rate scheduler
  (\<open>scheduler.py\<close>), the gate of the third tier (\<open>gate.py\<close>), the stream events
  (\<open>pipeline.py\<close>) and the endpoints (\<open>health.py\<close>, \<open>main.py\<close>). A reading of the
  monotonic clock is an argument.
\<close>

section \<open>Cameras\<close>

datatype priority = P1 | P2 | P3

fun priority_value :: "priority \<Rightarrow> string" where
  "priority_value P1 = ''P1''"
| "priority_value P2 = ''P2''"
| "priority_value P3 = ''P3''"

definition priority_of :: "string \<Rightarrow> priority option" where
  "priority_of s = List.find (\<lambda>p. priority_value p = s) [P1, P2, P3]"

record ingest_camera =
  ri_camera_id :: string
  ri_coach_id :: string
  ri_rtsp_url :: string
  ri_zone :: string
  ri_priority :: priority

text \<open>
  \<open>load_cameras\<close>: the list under \<open>cameras\<close>, or the document itself. A value that is no
  string, and an entry that is no object, are outside what the code expects: a type error.
\<close>

definition camera_keys :: "string list" where
  "camera_keys = [''camera_id'', ''coach_id'', ''rtsp_url'', ''zone'', ''priority'']"

definition camera_str :: "jdict \<Rightarrow> string \<Rightarrow> string res" where
  "camera_str d k = (case dget d k of Some (JStr s) \<Rightarrow> Inr s | _ \<Rightarrow> Inl TypeError)"

definition read_camera :: "json \<Rightarrow> ingest_camera res" where
  "read_camera j =
     (case j of
        JObj d \<Rightarrow>
          if \<not> list_all (dhas d) camera_keys then Inl ValueError
          else bind_res (camera_str d ''camera_id'') (\<lambda>i.
               bind_res (camera_str d ''coach_id'') (\<lambda>c.
               bind_res (camera_str d ''rtsp_url'') (\<lambda>u.
               bind_res (camera_str d ''zone'') (\<lambda>z.
               bind_res (camera_str d ''priority'') (\<lambda>p.
               bind_res (of_opt ValueError (priority_of p)) (\<lambda>pr.
                 Inr \<lparr>ri_camera_id = i, ri_coach_id = c, ri_rtsp_url = u, ri_zone = z, ri_priority = pr\<rparr>))))))
      | _ \<Rightarrow> Inl TypeError)"

fun read_cameras :: "json list \<Rightarrow> ingest_camera list res" where
  "read_cameras [] = Inr []"
| "read_cameras (j # js) = bind_res (read_camera j) (\<lambda>c. bind_res (read_cameras js) (\<lambda>cs. Inr (c # cs)))"

definition cameras_raw :: "json \<Rightarrow> json" where
  "cameras_raw raw =
     (case raw of JObj d \<Rightarrow> (case dget d ''cameras'' of None \<Rightarrow> raw | Some j \<Rightarrow> j) | _ \<Rightarrow> raw)"

definition load_ingest_cameras :: "json \<Rightarrow> ingest_camera list res" where
  "load_ingest_cameras raw =
     (case cameras_raw raw of
        JList js \<Rightarrow>
          bind_res (read_cameras js) (\<lambda>cs.
            if distinct (map ri_camera_id cs) then Inr cs else Inl ValueError)
      | JObj [] \<Rightarrow> Inr []
      | JObj (e # es) \<Rightarrow> Inl ValueError
      | _ \<Rightarrow> Inl TypeError)"

section \<open>The scheduler\<close>

record ingest_settings =
  rg_vehicle_id :: string
  rg_budget_threshold :: rat
  rg_tops_total :: rat
  rg_p1_fps :: rat
  rg_p2_fps :: rat
  rg_p2_throttled_fps :: rat
  rg_p3_fps :: rat
  rg_speed_threshold :: rat
  rg_override_s :: rat

definition default_ingest_settings :: ingest_settings where
  "default_ingest_settings = \<lparr>rg_vehicle_id = ''OBB-TEST'', rg_budget_threshold = 9 / 10, rg_tops_total = 26, rg_p1_fps = 10,
     rg_p2_fps = 5, rg_p2_throttled_fps = 2, rg_p3_fps = 8, rg_speed_threshold = 20, rg_override_s = 120\<rparr>"

record camera_state =
  rs_active :: bool
  rs_current_fps :: rat
  rs_override_until :: "rat option"

definition new_camera_state :: camera_state where
  "new_camera_state = \<lparr>rs_active = True, rs_current_fps = 0, rs_override_until = None\<rparr>"

record scheduler =
  sc_cameras :: "(string, ingest_camera) dict"
  sc_states :: "(string, camera_state) dict"
  sc_throttled :: bool
  sc_p3_active :: bool

definition init_scheduler :: "ingest_camera list \<Rightarrow> scheduler" where
  "init_scheduler cs = \<lparr>sc_cameras = dmerge [] (map (\<lambda>c. (ri_camera_id c, c)) cs),
     sc_states = dmerge [] (map (\<lambda>c. (ri_camera_id c, new_camera_state)) cs), sc_throttled = False, sc_p3_active = False\<rparr>"

definition tier_fps :: "ingest_settings \<Rightarrow> scheduler \<Rightarrow> priority \<Rightarrow> rat" where
  "tier_fps S sd p =
     (case p of
        P1 \<Rightarrow> rg_p1_fps S
      | P2 \<Rightarrow> if sc_throttled sd then rg_p2_throttled_fps S else rg_p2_fps S
      | P3 \<Rightarrow> if sc_p3_active sd then rg_p3_fps S else 0)"

text \<open>An override that has expired is cleared on the way.\<close>

definition apply_fps :: "ingest_settings \<Rightarrow> rat \<Rightarrow> string \<Rightarrow> scheduler \<Rightarrow> rat \<times> scheduler" where
  "apply_fps S now i sd =
     (case (dget (sc_cameras sd) i, dget (sc_states sd) i) of
        (Some cfg, Some st) \<Rightarrow>
          (case rs_override_until st of
             None \<Rightarrow> (tier_fps S sd (ri_priority cfg), sd)
           | Some until \<Rightarrow>
               if now < until then (rg_p1_fps S, sd)
               else (tier_fps S sd (ri_priority cfg),
                     sd\<lparr>sc_states := dset (sc_states sd) i (st\<lparr>rs_override_until := None\<rparr>)\<rparr>))
      | _ \<Rightarrow> (0, sd))"

definition report_tops :: "ingest_settings \<Rightarrow> rat \<Rightarrow> scheduler \<Rightarrow> scheduler" where
  "report_tops S tops sd =
     (if rg_tops_total S = 0 then sd
      else (let pct = tops / rg_tops_total S
            in if rg_budget_threshold S < pct \<and> \<not> sc_throttled sd then sd\<lparr>sc_throttled := True\<rparr>
               else if pct \<le> rg_budget_threshold S \<and> sc_throttled sd then sd\<lparr>sc_throttled := False\<rparr>
               else sd))"

definition gate_p3 :: "bool \<Rightarrow> scheduler \<Rightarrow> scheduler" where
  "gate_p3 active sd = sd\<lparr>sc_p3_active := active\<rparr>"

definition override_camera :: "rat \<Rightarrow> string \<Rightarrow> scheduler \<Rightarrow> scheduler" where
  "override_camera deadline i sd =
     (case dget (sc_states sd) i of
        None \<Rightarrow> sd
      | Some st \<Rightarrow> sd\<lparr>sc_states := dset (sc_states sd) i (st\<lparr>rs_override_until := Some deadline\<rparr>)\<rparr>)"

definition override_to_p1 :: "rat \<Rightarrow> string list \<Rightarrow> rat \<Rightarrow> scheduler \<Rightarrow> scheduler" where
  "override_to_p1 now ids duration sd = fold (override_camera (now + duration)) ids sd"

definition active_p1_count :: "scheduler \<Rightarrow> nat" where
  "active_p1_count sd =
     length (filter (\<lambda>(i, c). ri_priority c = P1 \<and> (case dget (sc_states sd) i of None \<Rightarrow> False | Some st \<Rightarrow> rs_active st))
       (sc_cameras sd))"

section \<open>The gate\<close>

record ingest =
  in_cameras :: "(string, ingest_camera) dict"
  in_scheduler :: scheduler
  in_door_map :: "(string, string list) dict"
  in_p3_was_active :: bool
  in_journey_id :: string

definition build_ingest :: "ingest_camera list \<Rightarrow> (string, string list) dict \<Rightarrow> ingest" where
  "build_ingest cs doors = \<lparr>in_cameras = dmerge [] (map (\<lambda>c. (ri_camera_id c, c)) cs), in_scheduler = init_scheduler cs,
     in_door_map = doors, in_p3_was_active = False, in_journey_id = ''unknown''\<rparr>"

fun number_of :: "json \<Rightarrow> rat option" where
  "number_of (JNum q) = Some q"
| "number_of (JInt i) = Some (of_int i)"
| "number_of (JBool b) = Some (if b then 1 else 0)"
| "number_of j = None"

definition should_activate :: "ingest_settings \<Rightarrow> jdict \<Rightarrow> bool" where
  "should_activate S payload =
     ((case Option.bind (dget payload ''speed_kmh'') number_of of None \<Rightarrow> False | Some v \<Rightarrow> v < rg_speed_threshold S) \<and>
      (case dget payload ''next_station'' of None \<Rightarrow> False | Some j \<Rightarrow> jtruthy j))"

definition gate_context_update :: "ingest_settings \<Rightarrow> jdict \<Rightarrow> ingest \<Rightarrow> ingest" where
  "gate_context_update S payload g =
     (let b = should_activate S payload
      in if b \<noteq> in_p3_was_active g
         then g\<lparr>in_p3_was_active := b, in_scheduler := gate_p3 b (in_scheduler g)\<rparr> else g)"

definition gate_door_release :: "ingest_settings \<Rightarrow> rat \<Rightarrow> string \<Rightarrow> string \<Rightarrow> ingest \<Rightarrow> ingest" where
  "gate_door_release S now car door g =
     (let ids = dget_or (in_door_map g) door []
      in if ids = [] then g
         else g\<lparr>in_scheduler := override_to_p1 now ids (rg_override_s S) (in_scheduler g)\<rparr>)"

section \<open>The endpoints\<close>

text \<open>\<open>tx\<close> is \<open>str\<close> on a value that is no string.\<close>

definition str_value :: "(json \<Rightarrow> string) \<Rightarrow> json \<Rightarrow> string" where
  "str_value tx j = (case j of JStr s \<Rightarrow> s | _ \<Rightarrow> tx j)"

definition str_at :: "(json \<Rightarrow> string) \<Rightarrow> jdict \<Rightarrow> string \<Rightarrow> string" where
  "str_at tx d k = (case dget d k of None \<Rightarrow> [] | Some j \<Rightarrow> str_value tx j)"

definition ingest_context_push :: "ingest_settings \<Rightarrow> (json \<Rightarrow> string) \<Rightarrow> rat \<Rightarrow> jdict \<Rightarrow> ingest \<Rightarrow> ingest" where
  "ingest_context_push S tx now payload g =
     (let g' = (if dget payload ''event'' = Some (JStr ''door_release'')
                then gate_door_release S now (str_at tx payload ''car_id'') (str_at tx payload ''door_id'') g
                else gate_context_update S payload g)
      in case dget payload ''journey_id'' of
           None \<Rightarrow> g'
         | Some j \<Rightarrow> if jtruthy j then g'\<lparr>in_journey_id := str_value tx j\<rparr> else g')"

definition ingest_health_ready :: "ingest \<Rightarrow> nat \<times> nat" where
  "ingest_health_ready g = (let n = active_p1_count (in_scheduler g) in if n < 1 then (503, 0) else (200, n))"

section \<open>Stream events\<close>

definition stream_body :: "ingest_settings \<Rightarrow> string \<Rightarrow> datetime \<Rightarrow> event_type \<Rightarrow> string \<Rightarrow> jdict \<Rightarrow> ingest \<Rightarrow> jdict" where
  "stream_body S uuid now et severity payload g =
     [(''event_id'', JStr uuid), (''event_type'', JStr (event_type_value et)),
      (''timestamp'', JStr (py_replace ''+00:00'' ''Z'' (isoformat_auto now))), (''source'', JStr ''rtsp-ingest''),
      (''journey_id'', JStr (in_journey_id g)), (''vehicle_id'', JStr (rg_vehicle_id S)), (''severity'', JStr severity),
      (''payload'', JObj payload)]"

text \<open>The whole method is retried: every attempt draws an id and reads the clock.\<close>

definition post_stream_attempt ::
  "environment \<Rightarrow> ingest_settings \<Rightarrow> clock \<Rightarrow> event_type \<Rightarrow> string \<Rightarrow> jdict \<Rightarrow> ingest \<Rightarrow> world \<Rightarrow> unit res \<times> world" where
  "post_stream_attempt E S now et severity payload g w =
     (case http_post E (PostEventBody (stream_body S (uuids E (w_uuids w)) (now (w_uuids w)) et severity payload g))
             (w\<lparr>w_uuids := Suc (w_uuids w)\<rparr>) of
        (ok, w') \<Rightarrow> (if ok then Inr () else Inl HTTPError, w'))"

definition post_stream_event ::
  "environment \<Rightarrow> ingest_settings \<Rightarrow> clock \<Rightarrow> event_type \<Rightarrow> string \<Rightarrow> jdict \<Rightarrow> ingest \<Rightarrow> world \<Rightarrow> unit res \<times> world" where
  "post_stream_event E S now et severity payload g w =
     retry_call default_attempts (post_stream_attempt E S now et severity payload g) w"

definition coach_of :: "ingest \<Rightarrow> string \<Rightarrow> string" where
  "coach_of g i = (case dget (in_cameras g) i of None \<Rightarrow> [] | Some c \<Rightarrow> ri_coach_id c)"

definition on_stream_degraded ::
  "environment \<Rightarrow> ingest_settings \<Rightarrow> clock \<Rightarrow> string \<Rightarrow> string \<Rightarrow> ingest \<Rightarrow> world \<Rightarrow> unit res \<times> world" where
  "on_stream_degraded E S now i reason g w =
     post_stream_event E S now CAMERA_DEGRADED ''warning''
       [(''camera_id'', JStr i), (''coach_id'', JStr (coach_of g i)), (''reason'', JStr reason)] g w"

definition on_stream_recovered :: "environment \<Rightarrow> ingest_settings \<Rightarrow> clock \<Rightarrow> string \<Rightarrow> ingest \<Rightarrow> world \<Rightarrow> unit res \<times> world" where
  "on_stream_recovered E S now i g w =
     post_stream_event E S now CAMERA_RECOVERED ''info''
       [(''camera_id'', JStr i), (''coach_id'', JStr (coach_of g i))] g w"

end
