(* ===== verification/Rtsp_Facts.thy ===== *)
theory Rtsp_Facts
  imports Rtsp_Ingest Vlan_Service Store_Routes
begin

text \<open>
  The scheduler of rtsp-ingest over time, what vlan-pollers' requests make of its gate, and its
  stream events at the event-store.
\<close>

section \<open>Frame rates\<close>

lemma override_camera_simps [simp]:
  "sc_cameras (override_camera d i sd) = sc_cameras sd" "sc_throttled (override_camera d i sd) = sc_throttled sd"
  "sc_p3_active (override_camera d i sd) = sc_p3_active sd"
  "dget (sc_states (override_camera d i sd)) j =
     (if j = i then map_option (\<lambda>st. st\<lparr>rs_override_until := Some d\<rparr>) (dget (sc_states sd) j) else dget (sc_states sd) j)"
  by (auto simp: override_camera_def split: option.split)

lemma override_to_p1_simps [simp]:
  "sc_cameras (override_to_p1 t ids d sd) = sc_cameras sd" "sc_throttled (override_to_p1 t ids d sd) = sc_throttled sd"
  "sc_p3_active (override_to_p1 t ids d sd) = sc_p3_active sd"
  "dget (sc_states (override_to_p1 t ids d sd)) j =
     (if j \<in> set ids then map_option (\<lambda>st. st\<lparr>rs_override_until := Some (t + d)\<rparr>) (dget (sc_states sd) j)
      else dget (sc_states sd) j)"
  unfolding override_to_p1_def
  by (induction ids arbitrary: sd) (auto simp: option.map_comp o_def)

lemma tier_fps_cong:
  "sc_throttled a = sc_throttled b \<Longrightarrow> sc_p3_active a = sc_p3_active b \<Longrightarrow> tier_fps S a p = tier_fps S b p"
  by (simp add: tier_fps_def split: priority.split)

lemma fps_overridden:
  assumes "dget (sc_cameras sd) i = Some cfg" "dget (sc_states sd) i = Some st"
  shows "fst (apply_fps S now i (override_to_p1 t ids d sd)) =
    (if i \<in> set ids then (if now < t + d then rg_p1_fps S else tier_fps S sd (ri_priority cfg))
     else fst (apply_fps S now i sd))"
  using assms by (auto simp: apply_fps_def intro!: tier_fps_cong split: option.split)

text \<open>Asking for a frame rate clears an expired override, which no later answer shows.\<close>

lemma fps_asking:
  assumes "now \<le> later"
  shows "fst (apply_fps S later j (snd (apply_fps S now i sd))) = fst (apply_fps S later j sd)"
proof (cases "\<exists>cfg st until. dget (sc_cameras sd) i = Some cfg \<and> dget (sc_states sd) i = Some st \<and>
    rs_override_until st = Some until \<and> until \<le> now")
  case True
  then obtain cfg st until where c: "dget (sc_cameras sd) i = Some cfg" "dget (sc_states sd) i = Some st"
    "rs_override_until st = Some until" "until \<le> now" by blast
  then have "snd (apply_fps S now i sd) = sd\<lparr>sc_states := dset (sc_states sd) i (st\<lparr>rs_override_until := None\<rparr>)\<rparr>"
    by (simp add: apply_fps_def)
  with c assms show ?thesis
    by (auto simp: apply_fps_def intro!: tier_fps_cong split: option.split)
next
  case False
  then have "snd (apply_fps S now i sd) = sd"
    by (auto simp: apply_fps_def not_less split: option.split)
  then show ?thesis by simp
qed

lemma report_throttles:
  "rg_tops_total S \<noteq> 0 \<Longrightarrow> sc_throttled (report_tops S x sd) \<longleftrightarrow> rg_budget_threshold S < x / rg_tops_total S"
  by (auto simp: report_tops_def Let_def)

lemma report_rest [simp]:
  "sc_cameras (report_tops S x sd) = sc_cameras sd" "sc_states (report_tops S x sd) = sc_states sd"
  "sc_p3_active (report_tops S x sd) = sc_p3_active sd"
  by (auto simp: report_tops_def Let_def)

section \<open>The gate under the pollers\<close>

text \<open>What rtsp-ingest makes of the requests that reach it, at the instants they do.\<close>

fun ingest_view :: "ingest_settings \<Rightarrow> (json \<Rightarrow> string) \<Rightarrow> (nat \<Rightarrow> rat) \<Rightarrow> http_req list \<Rightarrow> ingest \<Rightarrow> ingest" where
  "ingest_view S tx t [] g = g"
| "ingest_view S tx t (r # rs) g =
     ingest_view S tx (\<lambda>n. t (Suc n)) rs
       (case r of PostIngest b \<Rightarrow> ingest_context_push S tx (t 0) b g | _ \<Rightarrow> g)"

definition gate_closed :: "ingest \<Rightarrow> bool" where
  "gate_closed g \<longleftrightarrow> \<not> sc_p3_active (in_scheduler g) \<and> \<not> in_p3_was_active g \<and> in_journey_id g = ''unknown''"

lemma door_keeps_closed: "gate_closed g \<Longrightarrow> gate_closed (ingest_context_push S tx t (door_body car door) g)"
  by (auto simp: gate_closed_def ingest_context_push_def door_body_def gate_door_release_def Let_def)

lemma view_closed:
  "list_all (vlan_request E) rs \<Longrightarrow> gate_closed g \<Longrightarrow> gate_closed (ingest_view S tx t rs g)"
proof (induction rs arbitrary: t g)
  case (Cons r rs)
  have "gate_closed (case r of PostIngest b \<Rightarrow> ingest_context_push S tx (t 0) b g | _ \<Rightarrow> g)"
    using Cons.prems by (auto simp: vlan_request_def intro: door_keeps_closed split: http_req.splits)
  with Cons show ?case by simp
qed simp

text \<open>The flag of the scheduler is the last decision of the gate.\<close>

lemma gate_decides:
  assumes "sc_p3_active (in_scheduler g) = in_p3_was_active g"
  shows "sc_p3_active (in_scheduler (gate_context_update S b g)) = should_activate S b \<and>
    in_p3_was_active (gate_context_update S b g) = should_activate S b"
  using assms by (auto simp: gate_context_update_def gate_p3_def Let_def)

section \<open>Stream events\<close>

lemma stream_rejected:
  assumes "pyd_ok pd"
  shows "parse_envelope pd uuid t (stream_body S u now et severity p g) \<noteq> Inr e"
proof
  assume "parse_envelope pd uuid t (stream_body S u now et severity p g) = Inr e"
  then obtain r where r: "raw_of_json pd (stream_body S u now et severity p g) = Inr r" "validate_envelope pd uuid t r = Inr e"
    by (auto simp: parse_envelope_def res_iff)
  have "json_str pd (stream_body S u now et severity p g) ''source'' = Inr ''rtsp-ingest''"
    using assms by (simp add: json_str_def stream_body_def pyd_ok_def)
  with r(1) have "raw_source r = ''rtsp-ingest''"
    by (auto simp: raw_of_json_def res_iff)
  with r(2) show False by (auto simp: validate_envelope_def res_iff source_of_def)
qed

definition stream_request :: "ingest_settings \<Rightarrow> http_req \<Rightarrow> bool" where
  "stream_request S r = (\<exists>u t et severity p g. r = PostEventBody (stream_body S u t et severity p g))"

lemma post_stream_adds: "adds (stream_request S) w (snd (post_stream_event E S now et severity p g w))"
  unfolding post_stream_event_def
proof (rule retry_call_invariant [where P = "adds (stream_request S) w"])
  fix w' assume w': "adds (stream_request S) w w'"
  let ?w = "w'\<lparr>w_uuids := Suc (w_uuids w')\<rparr>"
  let ?r = "PostEventBody (stream_body S (uuids E (w_uuids w')) (now (w_uuids w')) et severity p g)"
  have "stream_request S ?r" unfolding stream_request_def by blast
  then have "adds (stream_request S) ?w (snd (http_post E ?r ?w))" by (rule http_post_adds)
  moreover have "adds (stream_request S) w ?w" using w' by (simp add: adds_def)
  ultimately have "adds (stream_request S) w (snd (http_post E ?r ?w))" by (rule adds_trans [rotated])
  then show "adds (stream_request S) w (snd (post_stream_attempt E S now et severity p g w'))"
    by (auto simp: post_stream_attempt_def split: prod.split)
qed simp

lemma stream_refused:
  assumes "pyd_ok pd" "stream_request S (PostEventBody b)"
  shows "\<exists>msg. ingest_event pd uuid t b db = (Refused 422 msg, db, None)"
proof -
  obtain u t' et severity p g where "b = stream_body S u t' et severity p g"
    using assms(2) by (auto simp: stream_request_def)
  then show ?thesis
    using stream_rejected [OF assms(1)]
    by (cases "parse_envelope pd uuid t b") (auto simp: ingest_event_def validation_reply_def)
qed

end
