(* ===== verification/Polling_Properties.thy ===== *)
theory Polling_Properties
  imports Vlan_Contracts Vlan_Watch Rtsp_Facts
begin

text \<open>
  The properties of vlan-pollers and rtsp-ingest, each with a concrete instance.
\<close>

section \<open>Sample runs\<close>

definition sample_table :: "(string \<times> alarm_row) list" where
  "sample_table =
     [(''1'', \<lparr>ar_alarm_id = ''A1'', ar_description = ''door'', ar_severity = Sev_critical, ar_active = True\<rparr>),
      (''2'', \<lparr>ar_alarm_id = ''A2'', ar_description = [], ar_severity = Sev_info, ar_active = False\<rparr>)]"

definition sample_walk :: "varbind list" where
  "sample_walk = table_walk sample_table @ [(im0_trip_scalar_oid, ''RJ42'')]"

definition sample_vlan :: vlan_app where
  "sample_vlan = init_vlan sample_world"

lemma sample_start: "vlan_start sample_vlan"
  unfolding vlan_start_def sample_vlan_def by (rule exI [of _ sample_world]) (simp add: sample_world_def)

lemma sample_acked: "always_acked (sample_env [])"
  by (simp add: always_acked_def sample_env_def)

lemma sample_reach:
  assumes "\<And>A A'. vlan_step (sample_env []) default_vlan_settings W sample_clock A A' \<Longrightarrow> R A A'" "W walk"
  shows "reach vlan_start R (snmp_poll (sample_env []) default_vlan_settings sample_clock (Inr walk) sample_vlan)"
proof -
  have "reach vlan_start R sample_vlan" by (rule reach_init [where init = vlan_start, OF sample_start])
  moreover have "R sample_vlan (snmp_poll (sample_env []) default_vlan_settings sample_clock (Inr walk) sample_vlan)"
    by (rule assms(1)) (rule vlan_step.snmp_polls [of W, OF assms(2)])
  ultimately show ?thesis by (rule reach_step [where init = vlan_start])
qed

section \<open>Alarms\<close>

text \<open>Decoding the walk of an alarm table gives the table: for every list of rows under
  distinct indices, \<open>decode_alarm_table\<close> of the column-by-column answer of an agent returns the
  rows as they were, with their severities and states.\<close>

theorem alarm_table_roundtrip:
  assumes "distinct (map fst table)"
  shows "decode_alarm_table (table_walk table) = map snd table"
  by (rule decode_walk [OF assms])

theorem alarm_table_roundtrip_witness: "decode_alarm_table (table_walk sample_table) = map snd sample_table"
  by (rule alarm_table_roundtrip) (simp add: sample_table_def)

text \<open>An alarm is reported active at most once before it is reported cleared: in every run of
  the pollers on a network that loses no replies, the events of an alarm that were posted never
  say active twice in a row, and the last of them says active exactly when the poller remembers
  the alarm as active.\<close>

theorem alarm_reported_once:
  assumes "reach vlan_start (vlan_quiet E S W now) A"
  shows "never_twice (alarm_history i (w_sent (va_world A))) \<and>
    (reported_active (alarm_history i (w_sent (va_world A))) \<longleftrightarrow> dget (va_prev_alarms A) i = Some True)"
proof -
  have "alarms_agree A" by (rule alarms.reach_inv [OF assms])
  then show ?thesis by (simp add: alarms_agree_def Let_def)
qed

theorem alarm_reported_once_witness:
  "never_twice (alarm_history ''A1'' (w_sent (va_world
     (snmp_poll (sample_env []) default_vlan_settings sample_clock (Inr sample_walk) sample_vlan))))"
  using alarm_reported_once [of "sample_env []" default_vlan_settings "\<lambda>_. True" sample_clock, OF sample_reach [where W = "\<lambda>_. True"]]
    acked_no_loss [OF sample_acked]
  by (simp add: vlan_quiet_def sample_env_ok)

text \<open>C27: After a poll the posted events say of every alarm what the table said: on a working
  network, when the walk shows a trip number, the rows carry distinct names and the journey id is
  valid, an alarm's last event is ALARM_ACTIVE if and only if the table has a row of it that is
  active. An alarm whose row has vanished, or does not decode, is reported cleared.\<close>

theorem alarms_follow_table:
  assumes "reach vlan_start (vlan_quiet E S W now) A" "env_ok E" "always_acked E"
    and "decode_trip_number varbinds = Some trip" "trip \<noteq> []" "vs_vehicle_id S \<noteq> []"
    and "validate_journey_id (fst (get_journey_id (now (w_uuids (va_world A))) (vs_vehicle_id S) trip (va_tracker A)))"
    and "distinct (map ar_alarm_id (decode_alarm_table varbinds))"
    and "\<forall>r \<in> set (decode_alarm_table varbinds). ar_alarm_id r \<noteq> []"
  shows "reported_active (alarm_history i (w_sent (va_world (process E S now varbinds A)))) \<longleftrightarrow>
    (\<exists>r \<in> set (decode_alarm_table varbinds). ar_alarm_id r = i \<and> ar_active r)"
proof -
  have agree: "alarms_agree A" by (rule alarms.reach_inv [OF assms(1)])
  obtain j tr where t: "get_journey_id (now (w_uuids (va_world A))) (vs_vehicle_id S) trip (va_tracker A) = (j, tr)"
    by fastforce
  let ?B = "change_context E (update_journey j trip (vs_vehicle_id S)) (A\<lparr>va_tracker := tr\<rparr>)"
  have b: "alarms_agree ?B"
    unfolding journey.change_agree by (rule alarms_agree_cong [OF agree]) simp_all
  have p: "process E S now varbinds A = process_alarms E (vs_vehicle_id S) now varbinds j ?B"
    using assms(4,5) t by (simp add: process_def Let_def)
  have "dget (va_prev_alarms (process_alarms E (vs_vehicle_id S) now varbinds j ?B)) i = Some True \<longleftrightarrow>
      (\<exists>r \<in> set (decode_alarm_table varbinds). ar_alarm_id r = i \<and> ar_active r)"
    using assms t by (intro process_alarms_memory b) auto
  moreover have "alarms_agree (process_alarms E (vs_vehicle_id S) now varbinds j ?B)"
    by (rule process_alarms_agree [OF assms(2) acked_no_loss [OF assms(3)] b])
  ultimately show ?thesis unfolding p by (simp add: alarms_agree_def Let_def)
qed

lemma sample_rows: "decode_alarm_table sample_walk = map snd sample_table"
proof -
  have "\<not> py_startswith im0_trip_scalar_oid im0_alarm_entry_prefix" by code_simp
  then have "alarm_rows sample_walk = alarm_rows (table_walk sample_table)"
    by (simp add: alarm_rows_def sample_walk_def add_cell_def alarm_cell_def)
  then have "decode_alarm_table sample_walk = decode_alarm_table (table_walk sample_table)"
    by (simp add: decode_alarm_table_def)
  then show ?thesis using decode_walk [of sample_table] by (simp add: sample_table_def)
qed

lemma sample_trip: "decode_trip_number sample_walk = Some ''RJ42''"
  by code_simp

lemma sample_journey:
  "validate_journey_id (fst (get_journey_id (sample_clock 0) ''OBB-TEST'' ''RJ42'' []))"
  by code_simp

theorem alarms_follow_table_witness:
  "reported_active (alarm_history ''A1'' (w_sent (va_world
     (process (sample_env []) default_vlan_settings sample_clock sample_walk sample_vlan))))"
proof -
  have "reach vlan_start (vlan_quiet (sample_env []) default_vlan_settings (\<lambda>_. True) sample_clock) sample_vlan"
    by (rule reach_init [where init = vlan_start, OF sample_start])
  from alarms_follow_table [OF this sample_env_ok sample_acked sample_trip, of "''A1''"] sample_journey
  show ?thesis
    by (simp add: sample_rows sample_table_def default_vlan_settings_def sample_vlan_def init_vlan_def sample_world_def)
qed

section \<open>What the other containers are told\<close>

text \<open>C23: Fusion's context follows the pollers', whatever the five tasks, their posts, retries, lost
  requests and late arrivals do between each other's awaits. Once the last full push and the newest
  push have arrived, the newest last and no push older than that full one after it, fusion has the pollers'
  station approach, reservations, journey, vehicle, speed and, if they have one, scheduled departure
  (where nothing was ever pushed both sides have their initial values; a departure that became empty
  is not passed on). At any other moment too, its reservations, vehicle and speed are those of one
  context the pollers had, never a mixture, and a departure it shows was pushed for the journey it
  shows.\<close>

theorem fusion_mirrors_pollers:
  assumes "reach polling_start polling_step s"
  shows "(caught_up s \<longrightarrow> mirrors (po_ctx s) (po_fusion s)) \<and>
    (\<exists>c \<in> insert init_vlan_context (cp_ctx ` set (po_computed s)). snapshot_of c (po_fusion s)) \<and>
    (\<forall>d. c_scheduled_departure (po_fusion s) = Some d \<longrightarrow>
       (\<exists>r \<in> set (po_computed s). ps_scheduled_departure (vc_pis (cp_ctx r)) = d \<and>
          c_journey_id (po_fusion s) = Some (vc_journey_id (cp_ctx r))))"
proof -
  have inv: "polling_inv s" by (rule polled.reach_inv [OF assms])
  then have posts: "\<forall>r \<in> set (po_arrived s). full_post r \<or> station_post r" and sub: "set (po_arrived s) \<subseteq> set (po_computed s)"
    and view: "po_fusion s = view_of (po_arrived s)" by (auto simp: polling_inv_def)
  from view_snapshot [OF posts] sub have "\<exists>c \<in> insert init_vlan_context (cp_ctx ` set (po_computed s)). snapshot_of c (po_fusion s)"
    unfolding view by blast
  moreover from view_departure [OF posts] sub
  have "\<forall>d. c_scheduled_departure (po_fusion s) = Some d \<longrightarrow>
       (\<exists>r \<in> set (po_computed s). ps_scheduled_departure (vc_pis (cp_ctx r)) = d \<and>
          c_journey_id (po_fusion s) = Some (vc_journey_id (cp_ctx r)))"
    unfolding view by blast
  ultimately show ?thesis using caught_up_mirrors [OF inv] by blast
qed

text \<open>Two tasks: the timetable task learns a departure, the reservation task four seats; each posts.\<close>

definition timed_context :: vlan_context where
  "timed_context = init_vlan_context\<lparr>vc_pis := empty_pis\<lparr>ps_scheduled_departure := ''10:00''\<rparr>\<rparr>"

definition seated_context :: vlan_context where
  "seated_context = timed_context\<lparr>vc_reservations := [(''car-1'', 4)]\<rparr>"

definition full_post_of :: "nat \<Rightarrow> vlan_context \<Rightarrow> context_post" where
  "full_post_of n c = \<lparr>cp_no = n, cp_ctx = c, cp_req = PostFusion ''/context'' (state_to_dict c)\<rparr>"

definition two_pushes :: "context_post list \<Rightarrow> context_post list \<Rightarrow> polling" where
  "two_pushes ws arrived = \<lparr>po_ctx = seated_context,
     po_flight = (\<lambda>t. None)(Pis_task := Some (full_post_of 0 timed_context), Reservation_task := Some (full_post_of 1 seated_context)),
     po_wire = ws, po_fusion = view_of arrived,
     po_computed = [full_post_of 0 timed_context, full_post_of 1 seated_context], po_arrived = arrived\<rparr>"

lemma both_tasks_post: "reach polling_start polling_step (two_pushes [full_post_of 0 timed_context, full_post_of 1 seated_context] [])"
proof -
  let ?R = "reach polling_start polling_step"
  let ?s = "\<lparr>po_ctx = init_vlan_context, po_flight = (\<lambda>t. None), po_wire = [],
     po_fusion = init_context, po_computed = [], po_arrived = []\<rparr>"
  have timed: "update_pis (vc_pis timed_context) init_vlan_context = (timed_context, push_context_delta timed_context)"
    by (simp add: update_pis_def timed_context_def init_vlan_context_def empty_pis_def Let_def)
  have seated: "update_reservations (vc_reservations seated_context) timed_context = (seated_context, push_context_delta seated_context)"
    by (simp add: update_reservations_def seated_context_def timed_context_def init_vlan_context_def dict_eq_def dkeys_def Let_def)
  have 0: "?R ?s" by (rule reach_init) (simp add: polling_start_def)
  have p: "task_update Pis_task (po_ctx ?s) (timed_context, push_context_delta timed_context)"
    using task_update.intros(4) [of init_vlan_context "vc_pis timed_context"] timed by simp
  let ?s1 = "issue Pis_task timed_context (push_context_delta timed_context) ?s"
  have 1: "?R ?s1" by (rule reach_step [OF 0]) (rule polling_step.Updates [OF _ p], simp)
  have r: "task_update Reservation_task (po_ctx ?s1) (seated_context, push_context_delta seated_context)"
    using task_update.intros(5) [of timed_context "vc_reservations seated_context"] seated
    by (simp add: issue_def Let_def)
  let ?s2 = "issue Reservation_task seated_context (push_context_delta seated_context) ?s1"
  have "?R ?s2" by (rule reach_step [OF 1]) (rule polling_step.Updates [OF _ r], simp add: issue_def Let_def push_context_delta_def to_fusion_def)
  moreover have "?s2 = two_pushes [] []"
    by (simp add: issue_def Let_def push_context_delta_def to_fusion_def two_pushes_def full_post_of_def)
  ultimately have 2: "?R (two_pushes [] [])" by simp
  have 3: "?R (two_pushes [full_post_of 0 timed_context] [])"
    using reach_step [OF 2 polling_step.Attempts [of _ Pis_task]] by (simp add: two_pushes_def)
  show ?thesis
    using reach_step [OF 3 polling_step.Attempts [of _ Reservation_task]] by (simp add: two_pushes_def)
qed

lemma push_arrives:
  assumes "reach polling_start polling_step (two_pushes ws arrived)" "r \<in> set ws"
  shows "reach polling_start polling_step (two_pushes (remove1 r ws) (arrived @ [r]))"
proof -
  have "r \<in> set (po_wire (two_pushes ws arrived))" using assms(2) by (simp add: two_pushes_def)
  from reach_step [OF assms(1) polling_step.Arrives [OF this]] show ?thesis by (simp add: two_pushes_def)
qed

theorem fusion_mirrors_pollers_witness:
  "\<exists>s. reach polling_start polling_step s \<and> c_scheduled_departure (po_fusion s) = Some ''10:00'' \<and>
     c_reservations (po_fusion s) = [(''car-1'', 4)]"
proof -
  let ?a = "full_post_of 0 timed_context" and ?b = "full_post_of 1 seated_context"
  let ?s = "two_pushes [] [?a, ?b]"
  have s: "reach polling_start polling_step ?s"
    using push_arrives [OF push_arrives [OF both_tasks_post, of ?a], of ?b] by simp
  have "from_full (po_computed ?s) = [?b]" by (simp add: two_pushes_def full_post_of_def full_post_def)
  then have "caught_up ?s" by (auto simp: caught_up_def Let_def two_pushes_def intro!: exI [of _ 1])
  with fusion_mirrors_pollers [OF s] have "mirrors (po_ctx ?s) (po_fusion ?s)" by blast
  with s show ?thesis
    by (intro exI [of _ ?s]) (simp add: mirrors_def two_pushes_def seated_context_def timed_context_def)
qed

text \<open>An overtaken push sticks: with the same two pushes, each delivered exactly once and nothing on
  its way any more, fusion may have no reservations while the pollers have them, when the later push
  has arrived first. No later poll repairs it as long as the answers stay the same.\<close>

theorem overtaken_push_sticks:
  "\<exists>s. reach polling_start polling_step s \<and> po_wire s = [] \<and> (\<forall>t. po_flight s t = None) \<and>
     distinct (po_arrived s) \<and> set (po_arrived s) = set (po_computed s) \<and>
     c_reservations (po_fusion s) = [] \<and> vc_reservations (po_ctx s) = [(''car-1'', 4)] \<and>
     update_reservations (vc_reservations (po_ctx s)) (po_ctx s) = (po_ctx s, [])"
proof -
  let ?a = "full_post_of 0 timed_context" and ?b = "full_post_of 1 seated_context"
  let ?s = "two_pushes [] [?b, ?a]" and ?R = "reach polling_start polling_step"
  have ne: "?b \<noteq> ?a" by (simp add: full_post_of_def)
  have 0: "?R ?s"
    using push_arrives [OF push_arrives [OF both_tasks_post, of ?b], of ?a] ne by simp
  let ?s1 = "?s\<lparr>po_flight := (po_flight ?s)(Pis_task := None)\<rparr>"
  have 1: "?R ?s1" by (rule reach_step [OF 0]) (rule polling_step.Ends [of _ _ ?a], simp add: two_pushes_def)
  let ?s2 = "?s1\<lparr>po_flight := (po_flight ?s1)(Reservation_task := None)\<rparr>"
  have 2: "?R ?s2" by (rule reach_step [OF 1]) (rule polling_step.Ends [of _ _ ?b], simp add: two_pushes_def)
  have "full_post ?a" by (simp add: full_post_def full_post_of_def)
  then have "c_reservations (view_of [?b, ?a]) = []"
    using fusion_view_simps(2) [of "[cp_req ?b]" "cp_req ?a"]
    by (simp add: post_received push_defs) (simp add: full_post_of_def timed_context_def init_vlan_context_def)
  with 2 ne show ?thesis
    by (intro exI [of _ ?s2]) (auto simp: two_pushes_def seated_context_def update_reservations_def dict_eq_def list_all_iff)
qed

text \<open>A departure that the timetable no longer has stays in fusion for the rest of the journey: the
  push with the empty text is taken for no news.\<close>

theorem emptied_departure_stays:
  assumes "ps_scheduled_departure (vc_pis c) \<noteq> []"
  shows "c_scheduled_departure (update_from_push (update_from_push f (full_of c)) (full_of (c\<lparr>vc_pis := empty_pis\<rparr>))) =
    Some (ps_scheduled_departure (vc_pis c))"
  using assms by (simp add: push_defs truthy_def empty_pis_def)

theorem emptied_departure_stays_witness:
  "c_scheduled_departure (update_from_push (update_from_push init_context (full_of timed_context))
     (full_of (timed_context\<lparr>vc_pis := empty_pis\<rparr>))) = Some ''10:00''"
  using emptied_departure_stays [of timed_context init_context] by (simp add: timed_context_def)

text \<open>Fusion takes the train for standing: no task of the pollers ever sets the speed, so every
  full push carries 0, and once one has reached fusion a door fault is only a warning, never
  critical, whatever the network does to the requests.\<close>

theorem standstill_assumed:
  assumes "reach vlan_start (vlan_next E S W now) A"
    and "PostFusion ''/context'' (state_to_dict c) \<in> set (w_sent (va_world A))" "vc_speed_kmh c = 0"
  shows "c_speed_kmh (fusion_view (w_sent (va_world A))) = Some 0 \<and>
    severity_for ''door_fault'' (c_speed_kmh (fusion_view (w_sent (va_world A)))) = Sev_warning"
proof -
  have "list_all (vlan_request E) (w_sent (va_world A))"
    using pollers.reach_inv [OF assms(1)] by (simp add: vlan_inv_def)
  from fusion_speed [OF this] assms(2,3) have "c_speed_kmh (fusion_view (w_sent (va_world A))) = Some 0"
    unfolding full_push_def by blast
  then show ?thesis by (simp add: severity_for_def)
qed

definition moved_vlan :: vlan_app where
  "moved_vlan = reservation_poll (sample_env []) default_vlan_settings (\<lambda>_. Inr (JObj [(''car-1'', JInt 4)])) sample_vlan"

lemma moved_reach:
  assumes "\<And>A A'. vlan_step (sample_env []) default_vlan_settings W sample_clock A A' \<Longrightarrow> R A A'"
  shows "reach vlan_start R moved_vlan"
proof -
  have "reach vlan_start R sample_vlan" by (rule reach_init [where init = vlan_start, OF sample_start])
  moreover have "R sample_vlan moved_vlan"
    unfolding moved_vlan_def by (rule assms) (rule vlan_step.reservation_polls)
  ultimately show ?thesis by (rule reach_step [where init = vlan_start])
qed

lemma moved_sent:
  "w_sent (va_world moved_vlan) = push_context_delta (init_vlan_context\<lparr>vc_reservations := [(''car-1'', 4)]\<rparr>)"
proof -
  have "reservations_of (vs_car_ids default_vlan_settings) (JObj [(''car-1'', JInt 4)]) = Inr [(''car-1'', 4)]"
    by code_simp
  then show ?thesis
    by (simp add: moved_vlan_def reservation_poll_def default_attempts_def numeral_eq_Suc change_context_def
        sample_vlan_def init_vlan_def update_reservations_def init_vlan_context_def dict_eq_def dkeys_def Let_def
        acked_posts [OF sample_acked] sample_world_def)
qed

theorem standstill_assumed_witness:
  "severity_for ''door_fault'' (c_speed_kmh (fusion_view (w_sent (va_world moved_vlan)))) = Sev_warning"
proof -
  let ?c = "init_vlan_context\<lparr>vc_reservations := [(''car-1'', 4)]\<rparr>"
  have "reach vlan_start (vlan_next (sample_env []) default_vlan_settings (\<lambda>_. True) sample_clock) moved_vlan"
    by (rule moved_reach) (simp add: vlan_next_def sample_env_ok)
  moreover have "PostFusion ''/context'' (state_to_dict ?c) \<in> set (w_sent (va_world moved_vlan))" "vc_speed_kmh ?c = 0"
    by (simp add: moved_sent push_context_delta_def) (simp add: init_vlan_context_def)
  ultimately show ?thesis using standstill_assumed by blast
qed

text \<open>The poller never learns the trip number: the walk it makes starts at the alarm table,
  an agent answers a walk with identifiers that follow its start, and the trip number's identifier
  precedes it. So in every run whose walks are answered that way no alarm event is ever posted,
  no journey is ever named, and with what fusion has been told it can build no envelope.\<close>

theorem walk_misses_trip:
  assumes "reach vlan_start (vlan_next E S (walked_from alarm_entry_oid) now) A"
  shows "vc_journey_id (va_ctx A) = [] \<and> sent_events (w_sent (va_world A)) = [] \<and>
    build_envelope E F (fusion_view (w_sent (va_world A))) uuid t et p sev ts \<noteq> Inr (Some e)"
proof -
  have a: "anonymous A" by (rule tripless.reach_inv [OF assms])
  then have rs: "list_all anonymous_request (w_sent (va_world A))" by (simp add: anonymous_def)
  have "sent_events rs = []" if "list_all anonymous_request rs" for rs
    using that by (induction rs rule: sent_events.induct) (auto simp: anonymous_request_def)
  then show ?thesis
    using a rs no_journey_no_envelope [OF anonymous_view [OF rs]] by (simp add: anonymous_def)
qed

lemma table_walked: "walked_from alarm_entry_oid [(oid_text (alarm_entry_oid @ [1, 7]), ''A1''), (oid_text (alarm_entry_oid @ [4, 7]), ''1'')]"
proof -
  have "alarm_entry_oid < alarm_entry_oid @ [c, 7]" for c :: nat
    by (simp add: alarm_entry_oid_def)
  then show ?thesis unfolding walked_from_def by auto
qed

theorem walk_misses_trip_witness:
  "sent_events (w_sent (va_world (snmp_poll (sample_env []) default_vlan_settings sample_clock
     (Inr [(oid_text (alarm_entry_oid @ [1, 7]), ''A1''), (oid_text (alarm_entry_oid @ [4, 7]), ''1'')]) sample_vlan))) = []"
proof -
  let ?A = "snmp_poll (sample_env []) default_vlan_settings sample_clock
     (Inr [(oid_text (alarm_entry_oid @ [1, 7]), ''A1''), (oid_text (alarm_entry_oid @ [4, 7]), ''1'')]) sample_vlan"
  have "reach vlan_start (vlan_next (sample_env []) default_vlan_settings (walked_from alarm_entry_oid) sample_clock) ?A"
    by (rule sample_reach [of "walked_from alarm_entry_oid", OF _ table_walked]) (simp add: vlan_next_def sample_env_ok)
  from walk_misses_trip [OF this] show ?thesis by blast
qed

text \<open>Every full push lifts the throttle of the inference container: whatever the pollers know,
  inference accepts the body, takes the journey from it and leaves its second tier unthrottled,
  because the body has no throttle field and the field defaults to False.\<close>

theorem push_lifts_throttle:
  "\<exists>p. parse_infer_push (state_to_dict c) = Some p \<and> \<not> ic_throttled (snd (infer_context_push up p ic)) \<and>
    ic_journey (snd (infer_context_push up p ic)) = vc_journey_id c"
  by (simp add: inference_read infer_context_push_def on_context_update_def dump_infer_push_def Let_def dget_or_def)

text \<open>
  A push that is lost is not made up for: the update that caused it has changed the state, so
  the next poll with the same answer finds no difference and posts nothing.
\<close>

lemma lost_push_not_resent:
  "change_context E (update_pis p) (change_context E (update_pis p) A) = change_context E (update_pis p) A"
  by (auto simp: change_context_def update_pis_def Let_def post_isolated_def split: prod.split)

section \<open>Journeys and stations\<close>

text \<open>A journey keeps its id: once the tracker has seen a vehicle's trip, every later call names
  it the same, whatever trips were asked for in between and whatever the date is by then. So the
  id does not change at midnight, and the same trip number on another day is taken for the old
  journey.\<close>

theorem journey_id_frozen:
  "fst (get_journey_id later v trip
     (fold (\<lambda>(t, v', trip') tr. snd (get_journey_id t v' trip' tr)) calls (snd (get_journey_id t v trip tr)))) =
   fst (get_journey_id t v trip tr)"
proof -
  let ?step = "\<lambda>(t, v', trip') tr. snd (get_journey_id t v' trip' tr)"
  have keep: "dget (fold ?step calls tr') (v, trip) = Some d" if "dget tr' (v, trip) = Some d" for tr' d
    using that
  proof (induction calls arbitrary: tr')
    case (Cons call calls)
    have "dget (?step call tr') (v, trip) = Some d"
      using Cons.prems by (cases call) (auto simp: get_journey_id_def Let_def dhas_iff)
    from Cons.IH [OF this] show ?case by simp
  qed simp
  have "dget (snd (get_journey_id t v trip tr)) (v, trip) \<noteq> None"
    by (simp add: get_journey_id_def Let_def dhas_iff)
  then obtain d where d: "dget (snd (get_journey_id t v trip tr)) (v, trip) = Some d" by blast
  then have "fst (get_journey_id t v trip tr) = journey_name v trip d"
    by (simp add: get_journey_id_def Let_def dget_or_def)
  with keep [OF d] show ?thesis
    by (simp add: get_journey_id_def Let_def dhas_iff dget_or_def)
qed

text \<open>An arrival without a time zone ends the station watchdog: on a UTC arrival the watchdog
  finds the train approaching exactly when the arrival is between now and the end of the window,
  but the same instant written without its zone makes the round fail with a TypeError; nothing is
  posted, the task is over, and no later round changes anything.\<close>

theorem naive_arrival_stops_watchdog:
  assumes "dt_ok v" "va_watchdog A" "ps_next_station_arrival_utc (vc_pis (va_ctx A)) = iso_head v"
  shows "watchdog E S now A = A\<lparr>va_watchdog := False\<rparr> \<and> watchdog E S later (watchdog E S now A) = watchdog E S now A \<and>
    approaching (vs_approach_window_s S) now (iso_head v @ ''Z'') =
      Inr (0 \<le> total_seconds (dt_micros (v\<lparr>us := 0\<rparr>) - dt_micros now) \<and>
           total_seconds (dt_micros (v\<lparr>us := 0\<rparr>) - dt_micros now) \<le> of_int (vs_approach_window_s S))"
proof -
  have "iso_head v \<noteq> []" using length_iso_head [of v] by (metis list.size(3) zero_neq_numeral)
  then have "watch_arrival E S now A = (Inl TypeError, A)"
    using assms(3) by (simp add: watch_arrival_def approaching_naive [OF assms(1)])
  then show ?thesis using assms(2) by (simp add: watchdog_def approaching_utc [OF assms(1)])
qed

theorem naive_arrival_stops_watchdog_witness:
  "\<not> va_watchdog (watchdog (sample_env []) default_vlan_settings sample_time
     (sample_vlan\<lparr>va_ctx := init_vlan_context\<lparr>vc_pis := empty_pis\<lparr>ps_next_station_arrival_utc := iso_head sample_time\<rparr>\<rparr>\<rparr>))"
  using naive_arrival_stops_watchdog [OF sample_time_ok, of
      "sample_vlan\<lparr>va_ctx := init_vlan_context\<lparr>vc_pis := empty_pis\<lparr>ps_next_station_arrival_utc := iso_head sample_time\<rparr>\<rparr>\<rparr>"
      "sample_env []" default_vlan_settings sample_time]
  by (simp add: sample_vlan_def init_vlan_def)

section \<open>Frame rates\<close>

text \<open>A door release raises its cameras to the first tier for its duration and no longer: at
  any later instant a known camera named by the release runs at the first tier's rate before the
  deadline and at its own tier's rate from the deadline on, every other camera as if there had
  been no release, and asking in between changes no later answer.\<close>

theorem override_window:
  assumes "dget (sc_cameras sd) i = Some cfg" "dget (sc_states sd) i = Some st" "t \<le> now" "now \<le> later"
  shows "fst (apply_fps S later i (snd (apply_fps S now j (override_to_p1 t ids d sd)))) =
    (if i \<in> set ids then (if later < t + d then rg_p1_fps S else tier_fps S sd (ri_priority cfg))
     else fst (apply_fps S later i sd))"
  using fps_asking [OF assms(4)] fps_overridden [OF assms(1,2)] by simp

definition sample_ingest_camera :: ingest_camera where
  "sample_ingest_camera = \<lparr>ri_camera_id = ''C1'', ri_coach_id = ''car-1'', ri_rtsp_url = ''rtsp://h/C1'', ri_zone = ''interior'',
     ri_priority = P2\<rparr>"

theorem override_window_witness:
  "fst (apply_fps default_ingest_settings 120 ''C1'' (snd (apply_fps default_ingest_settings 60 ''C1''
     (override_to_p1 0 [''C1''] 120 (init_scheduler [sample_ingest_camera]))))) = 5"
  using override_window [of "init_scheduler [sample_ingest_camera]" "''C1''" sample_ingest_camera new_camera_state 0 60 120
      default_ingest_settings "''C1''" "[''C1'']" 120]
  by (simp add: init_scheduler_def sample_ingest_camera_def dmerge_def tier_fps_def default_ingest_settings_def)

text \<open>The third tier never runs and no journey is ever known in rtsp-ingest: all that the
  pollers ever send it are door releases, so whatever they have sent, at whatever instants it
  arrives, the gate of the third tier is closed, a camera of that tier gets a rate of 0 unless a
  door release overrides it, and the journey of its events is still ''unknown''.\<close>

theorem third_tier_never_runs:
  assumes "reach vlan_start (vlan_next E S W now) A"
    and "g = ingest_view I tx t (w_sent (va_world A)) (build_ingest cameras doors)"
  shows "tier_fps I (in_scheduler g) P3 = 0 \<and> in_journey_id g = ''unknown''"
proof -
  have "list_all (vlan_request E) (w_sent (va_world A))"
    using pollers.reach_inv [OF assms(1)] by (simp add: vlan_inv_def)
  moreover have "gate_closed (build_ingest cameras doors)"
    by (simp add: gate_closed_def build_ingest_def init_scheduler_def)
  ultimately have "gate_closed g" unfolding assms(2) by (rule view_closed)
  then show ?thesis by (simp add: gate_closed_def tier_fps_def)
qed

theorem third_tier_never_runs_witness:
  "tier_fps default_ingest_settings (in_scheduler (ingest_view default_ingest_settings (\<lambda>_. []) (\<lambda>n. of_nat n)
     (w_sent (va_world moved_vlan)) (build_ingest [sample_ingest_camera] []))) P3 = 0"
proof -
  have "reach vlan_start (vlan_next (sample_env []) default_vlan_settings (\<lambda>_. True) sample_clock) moved_vlan"
    by (rule moved_reach) (simp add: vlan_next_def sample_env_ok)
  from third_tier_never_runs [OF this refl] show ?thesis by blast
qed

text \<open>No camera event of rtsp-ingest is ever stored: whatever its state, every body that
  on_stream_degraded and on_stream_recovered post, retries included, is refused by the event-store
  with 422 and leaves the tables as they were, because their source is not one the envelope knows.\<close>

theorem camera_events_refused:
  assumes "pyd_ok pd"
    and "w' \<in> {snd (on_stream_degraded E S now i reason g w), snd (on_stream_recovered E S now i g w)}"
    and "w_sent w' = w_sent w @ rs" "PostEventBody b \<in> set rs"
  shows "\<exists>msg. ingest_event pd uuid t b db = (Refused 422 msg, db, None)"
proof -
  have "adds (stream_request S) w w'"
    using assms(2) post_stream_adds by (auto simp: on_stream_degraded_def on_stream_recovered_def)
  with assms(3,4) have "stream_request S (PostEventBody b)"
    by (auto simp: adds_def list_all_iff)
  with stream_refused [OF assms(1)] show ?thesis by blast
qed

definition sample_stream_body :: jdict where
  "sample_stream_body = stream_body default_ingest_settings (sample_uuid 0) (sample_clock 0) CAMERA_RECOVERED ''info''
     [(''camera_id'', JStr ''C1''), (''coach_id'', JStr ''car-1'')] (build_ingest [sample_ingest_camera] [])"

theorem camera_events_refused_witness:
  "\<exists>msg. ingest_event strict_pydantic (sample_uuid 1) sample_time sample_stream_body init_db = (Refused 422 msg, init_db, None)"
proof (rule camera_events_refused [OF strict_pydantic_ok])
  let ?g = "build_ingest [sample_ingest_camera] []"
  show "snd (on_stream_recovered (sample_env []) default_ingest_settings sample_clock ''C1'' ?g sample_world) \<in>
    {snd (on_stream_degraded (sample_env []) default_ingest_settings sample_clock ''C1'' ''lost'' ?g sample_world),
     snd (on_stream_recovered (sample_env []) default_ingest_settings sample_clock ''C1'' ?g sample_world)}" by simp
  show "w_sent (snd (on_stream_recovered (sample_env []) default_ingest_settings sample_clock ''C1'' ?g sample_world)) =
    w_sent sample_world @ [PostEventBody sample_stream_body]"
    by (simp add: on_stream_recovered_def post_stream_event_def post_stream_attempt_def default_attempts_def numeral_eq_Suc
        sample_env_def http_post_def sample_world_def sample_stream_body_def coach_of_def build_ingest_def dmerge_def
        sample_ingest_camera_def)
qed simp

end
