(* ===== verification/Cloud_Database.thy ===== *)
theory Cloud_Database
  imports Shared_Interfaces "HOL-Library.Char_ord" "HOL-Library.List_Lexorder"
begin

text \<open>
  The landside database of \<open>cloud-backend\<close>: the tables its migrations create, the answers
  of its HTTP handlers, and the statements several of them share. A handler runs in one
  transaction: it answers with the tables it commits, and an error leaves the tables as they
  were. \<open>NOW()\<close> is the instant the transaction began, an argument. How the database driver
  reads a bound value is a parameter (\<open>driver\<close>).
\<close>

section \<open>Answers\<close>

datatype failure =
    Http nat string \<comment> \<open>\<open>HTTPException\<close>: the status and the error code or detail\<close>
  | Raised exn \<comment> \<open>an exception no handler catches\<close>

type_synonym 'a outcome = "failure + 'a"

text \<open>\<open>unhandled_exception_handler\<close> turns every other exception into a 500.\<close>

definition unhandled_exception_handler :: "exn \<Rightarrow> nat \<times> string" where
  "unhandled_exception_handler e = (500, ''INTERNAL_ERROR'')"

fun failure_status :: "failure \<Rightarrow> nat \<times> string" where
  "failure_status (Http n c) = (n, c)"
| "failure_status (Raised e) = unhandled_exception_handler e"

section \<open>Binding values\<close>

record driver =
  bind_uuid :: "string \<Rightarrow> string option"
  bind_text :: "json \<Rightarrow> string option"
  bind_float :: "json \<Rightarrow> rat option"
  bind_int :: "json \<Rightarrow> int option"
  cast_float :: "json \<Rightarrow> rat option"
  json_text :: "json \<Rightarrow> string"

text \<open>
  A \<open>uuid\<close> column compares and prints a well-formed id in lower case. Text, double
  precision and 32-bit integer parameters accept values of their own type. The cast
  \<open>(payload->>'k')::float\<close> reads a JSON number as itself; the text of a nested value is its
  JSON text.
\<close>

definition driver_ok :: "driver \<Rightarrow> bool" where
  "driver_ok D \<longleftrightarrow>
     (\<forall>s. validate_event_id s \<longrightarrow> bind_uuid D s = Some (map lower_char s)) \<and>
     (\<forall>s. bind_text D (JStr s) = Some s) \<and>
     (\<forall>q. bind_float D (JNum q) = Some q) \<and>
     (\<forall>i. bind_int D (JInt i) = (if - (2 ^ 31) \<le> i \<and> i < 2 ^ 31 then Some i else None)) \<and>
     (\<forall>q. cast_float D (JNum q) = Some q) \<and>
     (\<forall>i. cast_float D (JInt i) = Some (of_int i))"

definition strict_driver :: driver where
  "strict_driver =
     \<lparr>bind_uuid = (\<lambda>s. if validate_event_id s then Some (map lower_char s) else None),
      bind_text = (\<lambda>j. case j of JStr s \<Rightarrow> Some s | _ \<Rightarrow> None),
      bind_float = (\<lambda>j. case j of JNum q \<Rightarrow> Some q | _ \<Rightarrow> None),
      bind_int = (\<lambda>j. case j of JInt i \<Rightarrow> if - (2 ^ 31) \<le> i \<and> i < 2 ^ 31 then Some i else None | _ \<Rightarrow> None),
      cast_float = (\<lambda>j. case j of JNum q \<Rightarrow> Some q | JInt i \<Rightarrow> Some (of_int i) | _ \<Rightarrow> None),
      json_text = (\<lambda>j. ''{}'')\<rparr>"

lemma strict_driver_ok: "driver_ok strict_driver"
  by (simp add: driver_ok_def strict_driver_def)

text \<open>A value that may be absent or null binds as SQL NULL.\<close>

definition bind_opt :: "(json \<Rightarrow> 'a option) \<Rightarrow> json option \<Rightarrow> 'a option outcome" where
  "bind_opt f j =
     (case j of None \<Rightarrow> Inr None | Some JNull \<Rightarrow> Inr None
      | Some v \<Rightarrow> map_sum id Some (of_opt (Raised DBAPIError) (f v)))"

definition bind_id :: "driver \<Rightarrow> string \<Rightarrow> string outcome" where
  "bind_id D s = of_opt (Raised DBAPIError) (bind_uuid D s)"

text \<open>\<open>payload->>'k'\<close>: \<open>None\<close> is SQL NULL.\<close>

definition arrow_text :: "driver \<Rightarrow> jdict \<Rightarrow> string \<Rightarrow> string option" where
  "arrow_text D p k =
     (case dget p k of
        None \<Rightarrow> None
      | Some JNull \<Rightarrow> None
      | Some (JStr s) \<Rightarrow> Some s
      | Some (JBool b) \<Rightarrow> Some (if b then ''true'' else ''false'')
      | Some j \<Rightarrow> Some (json_text D j))"

text \<open>\<open>(payload->>'k')::float\<close>: NULL stays NULL, an unreadable text is an error.\<close>

definition arrow_float :: "driver \<Rightarrow> jdict \<Rightarrow> string \<Rightarrow> rat option outcome" where
  "arrow_float D p k = bind_opt (cast_float D) (dget p k)"

text \<open>A result row by row, the first error ending the statement, and \<open>AVG\<close> over the values
  that are not NULL.\<close>

fun rows_of :: "('a \<Rightarrow> 'b outcome) \<Rightarrow> 'a list \<Rightarrow> 'b list outcome" where
  "rows_of f [] = Inr []"
| "rows_of f (x # xs) = bind_res (f x) (\<lambda>y. bind_res (rows_of f xs) (\<lambda>ys. Inr (y # ys)))"

definition average :: "rat list \<Rightarrow> rat option" where
  "average qs = (if qs = [] then None else Some (sum_list qs / of_nat (length qs)))"

definition sql_avg :: "rat option list \<Rightarrow> rat option" where
  "sql_avg qs = average (List.map_filter id qs)"

section \<open>Tables\<close>

record cloud_journey =
  cj_vehicle_id :: string
  cj_trip_number :: string
  cj_route_name :: "string option"
  cj_start_time :: datetime
  cj_end_time :: "datetime option"

record cloud_event =
  ce_id :: string
  ce_journey_id :: string
  ce_vehicle_id :: string
  ce_type :: string
  ce_severity :: string
  ce_source :: string
  ce_schema_version :: int
  ce_timestamp :: datetime
  ce_source_timestamp :: datetime
  ce_payload :: jdict

datatype esc_status = Unacknowledged | Acknowledged | Resolved

record escalation =
  es_alert_id :: string
  es_alert_event_id :: string
  es_alert_code :: string
  es_journey_id :: string
  es_vehicle_id :: string
  es_status :: esc_status
  es_t_fired :: datetime
  es_t_ack :: "datetime option"
  es_t_resolve :: "datetime option"
  es_ack_operator :: "string option"
  es_resolve_operator :: "string option"
  es_outcome :: "string option"
  es_action_tags :: "string list option"
  es_confidence_score :: "rat option"
  es_confidence_basis :: "string option"
  es_model_versions :: json
  es_seconds_to_departure :: "int option"

datatype transition = T_raised | T_acknowledged | T_resolved | T_dismissed

record audit_row =
  au_escalation_id :: string
  au_transition :: transition
  au_operator_id :: "string option"
  au_alert_code :: string
  au_t_event :: datetime
  au_t_fired :: datetime
  au_action_tags :: "string list option"
  au_dwell_focus_ms :: "int option"
  au_confidence_score :: "rat option"
  au_confidence_basis :: "string option"
  au_model_versions :: json

record heartbeat_row =
  hb_last_seen :: datetime
  hb_model_versions :: json
  hb_device_ok :: bool

record class_row =
  cs_disabled :: bool
  cs_disabled_by :: "string option"
  cs_disabled_at :: "datetime option"
  cs_enabled_by :: "string option"
  cs_enabled_at :: "datetime option"

datatype role = Admin | Operator

record user_row =
  us_username :: string
  us_password_hash :: "nat list"
  us_role :: role
  us_is_active :: bool

datatype user_action = U_create | U_role_change | U_deactivate | U_reactivate | U_password_reset

record user_audit =
  ua_actor :: string
  ua_target :: string
  ua_action :: user_action
  ua_detail :: "string option"

record preference_row =
  pf_threshold_sec :: int
  pf_staleness_sec :: int

datatype review_status = In_review | Dismissed | Unreviewed

record review_row =
  rq_route :: string
  rq_train_id :: string
  rq_departure_date :: string
  rq_priority :: string
  rq_note :: "string option"
  rq_queued_by :: string
  rq_queued_at :: datetime
  rq_status :: review_status

record cloud_db =
  cd_journeys :: "(string, cloud_journey) dict"
  cd_events :: "cloud_event list"
  cd_escalations :: "(string, escalation) dict"
  cd_audit :: "audit_row list"
  cd_heartbeats :: "(string, heartbeat_row) dict"
  cd_classes :: "(string, class_row) dict"
  cd_thresholds :: "(string, py_float option) dict"
  cd_users :: "(string, user_row) dict"
  cd_user_audit :: "user_audit list"
  cd_preferences :: "(string, preference_row) dict"
  cd_reviews :: "(string, review_row) dict"

text \<open>The rows migration 0012 seeds.\<close>

definition threshold_seed :: "(string, py_float option) dict" where
  "threshold_seed =
     [(''per_class:unattended_bag'', Some (Finite (3/4))), (''per_class:door_obstruction'', Some (Finite (17/20))),
      (''per_class:accessibility_detected'', Some (Finite (7/10))), (''per_class:slip_fall'', Some (Finite (3/4))),
      (''per_class:luggage_rack_saturation'', Some (Finite (7/10))), (''degraded_banner_floor'', Some (Finite (3/5)))]"

definition init_cloud_db :: cloud_db where
  "init_cloud_db =
     \<lparr>cd_journeys = [], cd_events = [], cd_escalations = [], cd_audit = [], cd_heartbeats = [],
      cd_classes = [], cd_thresholds = threshold_seed, cd_users = [], cd_user_audit = [],
      cd_preferences = [], cd_reviews = []\<rparr>"

section \<open>Instants\<close>

text \<open>\<open>timestamptz\<close> compares instants.\<close>

definition before :: "datetime \<Rightarrow> datetime \<Rightarrow> bool" where
  "before a b \<longleftrightarrow> dt_micros a < dt_micros b"

definition not_after :: "datetime \<Rightarrow> datetime \<Rightarrow> bool" where
  "not_after a b \<longleftrightarrow> dt_micros a \<le> dt_micros b"

definition days :: "int \<Rightarrow> int" where
  "days n = n * 86400 * 1000000"

definition hours :: "int \<Rightarrow> int" where
  "hours n = n * 3600 * 1000000"

text \<open>A half-open window of microseconds \<open>[lo, hi)\<close>.\<close>

definition in_window :: "int \<Rightarrow> int \<Rightarrow> datetime \<Rightarrow> bool" where
  "in_window lo hi t \<longleftrightarrow> lo \<le> dt_micros t \<and> dt_micros t < hi"

section \<open>Shared statements\<close>

text \<open>\<open>INSERT INTO journeys \<dots> ON CONFLICT (journey_id) DO NOTHING\<close>.\<close>

definition ensure_journey :: "string \<Rightarrow> cloud_journey \<Rightarrow> cloud_db \<Rightarrow> cloud_db" where
  "ensure_journey k j db = db\<lparr>cd_journeys := dsetdefault (cd_journeys db) k j\<rparr>"

text \<open>The key of \<open>uq_events_journey_type_source_ts\<close>.\<close>

definition cloud_key :: "cloud_event \<Rightarrow> string \<times> string \<times> string \<times> int" where
  "cloud_key e = (ce_journey_id e, ce_type e, ce_source e, dt_micros (ce_source_timestamp e))"

text \<open>
  \<open>INSERT INTO events \<dots> ON CONFLICT ON CONSTRAINT uq_events_journey_type_source_ts DO NOTHING\<close>:
  the row count. Only that constraint is arbitrated; a row whose primary key is taken raises.
\<close>

definition insert_cloud_event :: "cloud_event \<Rightarrow> cloud_db \<Rightarrow> (nat \<times> cloud_db) outcome" where
  "insert_cloud_event e db =
     (if cloud_key e \<in> cloud_key ` set (cd_events db) then Inr (0, db)
      else if ce_id e \<in> ce_id ` set (cd_events db) then Inl (Raised IntegrityError)
      else Inr (1, db\<lparr>cd_events := cd_events db @ [e]\<rparr>))"

definition find_cloud_event :: "cloud_db \<Rightarrow> string \<Rightarrow> cloud_event option" where
  "find_cloud_event db k = List.find (\<lambda>e. ce_id e = k) (cd_events db)"

section \<open>Facts\<close>

lemma bind_opt_Inr [res_iff]:
  "bind_opt f j = Inr x \<longleftrightarrow>
     (case j of None \<Rightarrow> x = None | Some v \<Rightarrow> if v = JNull then x = None else x \<noteq> None \<and> f v = x)"
  by (cases x) (auto simp: bind_opt_def of_opt_def split: option.splits json.splits)

lemma bind_id_Inr [res_iff]: "bind_id D s = Inr k \<longleftrightarrow> bind_uuid D s = Some k"
  by (simp add: bind_id_def res_iff)

lemma bind_id_valid: "driver_ok D \<Longrightarrow> validate_event_id s \<Longrightarrow> bind_id D s = Inr (map lower_char s)"
  by (simp add: bind_id_def driver_ok_def)

lemma rows_of_Inr [res_iff]: "rows_of f xs = Inr ys \<longleftrightarrow> list_all2 (\<lambda>x y. f x = Inr y) xs ys"
  by (induction xs arbitrary: ys) (auto simp: res_iff list_all2_Cons1)

lemma insert_cloud_event_Inr [res_iff]:
  "insert_cloud_event e db = Inr (n, db') \<longleftrightarrow>
     (if cloud_key e \<in> cloud_key ` set (cd_events db) then n = 0 \<and> db' = db
      else ce_id e \<notin> ce_id ` set (cd_events db) \<and> n = 1 \<and> db' = db\<lparr>cd_events := cd_events db @ [e]\<rparr>)"
  by (auto simp: insert_cloud_event_def)

lemma ensure_journey_events [simp]:
  "cd_events (ensure_journey k j db) = cd_events db"
  "cd_escalations (ensure_journey k j db) = cd_escalations db"
  "cd_audit (ensure_journey k j db) = cd_audit db"
  "cd_classes (ensure_journey k j db) = cd_classes db"
  "cd_users (ensure_journey k j db) = cd_users db"
  by (simp_all add: ensure_journey_def)

text \<open>Both constraints of the event table.\<close>

definition events_keyed :: "cloud_db \<Rightarrow> bool" where
  "events_keyed db \<longleftrightarrow> distinct (map cloud_key (cd_events db)) \<and> distinct (map ce_id (cd_events db))"

lemma events_keyed_insert:
  "events_keyed db \<Longrightarrow> insert_cloud_event e db = Inr (n, db') \<Longrightarrow> events_keyed db'"
  by (auto simp: events_keyed_def res_iff split: if_splits)

lemma find_cloud_event_Some:
  "find_cloud_event db k = Some e \<Longrightarrow> e \<in> set (cd_events db) \<and> ce_id e = k"
  by (auto simp: find_cloud_event_def find_Some_iff)

end
