(* ===== verification/Cloud_Cache.thy ===== *)
theory Cloud_Cache
  imports Cloud_Database
begin

text \<open>
  The two read-through caches of \<open>cloud-backend\<close>: \<open>AlertClassFilter\<close>
  (\<open>services/fanout_filter.py\<close>) over the kill-switch table and \<open>ThresholdStore\<close>
  (\<open>config/confidence_thresholds.py\<close>) over the thresholds. A load awaits its query, so a
  load is three operations with other requests between them: the freshness check, the query
  and the assignment. \<open>cache_step\<close> interleaves them with the writers, which commit and then
  invalidate; the asyncio lock admits one load at a time. \<open>time.monotonic()\<close> is an argument,
  in seconds.
\<close>

record 'v cache =
  ca_loaded_at :: "rat option"
  ca_value :: 'v
  ca_generation :: nat

definition cache_fresh :: "rat \<Rightarrow> rat \<Rightarrow> 'v cache \<Rightarrow> bool" where
  "cache_fresh ttl now c = (case ca_loaded_at c of None \<Rightarrow> False | Some t \<Rightarrow> now - t < ttl)"

section \<open>The kill-switch filter\<close>

type_synonym alert_filter = "(string, datetime option) dict cache"

definition new_alert_filter :: alert_filter where
  "new_alert_filter = \<lparr>ca_loaded_at = None, ca_value = [], ca_generation = 0\<rparr>"

definition filter_ttl :: rat where
  "filter_ttl = 60"

definition filter_invalidate :: "alert_filter \<Rightarrow> alert_filter" where
  "filter_invalidate c = c\<lparr>ca_loaded_at := None, ca_generation := ca_generation c + 1\<rparr>"

text \<open>The query: the disabled classes and when each was disabled.\<close>

definition disabled_classes :: "(string, class_row) dict \<Rightarrow> (string, datetime option) dict" where
  "disabled_classes rows = map (\<lambda>(k, r). (k, cs_disabled_at r)) (filter (\<lambda>(k, r). cs_disabled r) rows)"

text \<open>The assignment: the rows are applied; they count as loaded only if no invalidation came
  between.\<close>

definition filter_finish ::
  "nat \<Rightarrow> rat \<Rightarrow> (string, datetime option) dict \<Rightarrow> alert_filter \<Rightarrow> alert_filter" where
  "filter_finish gen_at_start now disabled c =
     (if ca_generation c \<noteq> gen_at_start then c\<lparr>ca_value := disabled, ca_loaded_at := None\<rparr>
      else c\<lparr>ca_value := disabled, ca_loaded_at := Some now\<rparr>)"

text \<open>The decision, once \<open>_load\<close> has returned: no \<open>await\<close> comes between, so it reads the map the
  load has left.\<close>

definition decide :: "(json \<Rightarrow> string) \<Rightarrow> (string, datetime option) dict \<Rightarrow> jdict \<Rightarrow> datetime \<Rightarrow> bool" where
  "decide tx disabled payload t_raised =
     (let alert_code = (case dget payload ''alert_code'' of None \<Rightarrow> [] | Some j \<Rightarrow> py_str tx j)
      in (case dget disabled alert_code of
            Some (Some disabled_at) \<Rightarrow> before disabled_at t_raised
          | _ \<Rightarrow> False))"

text \<open>The end of a call whose own load has just answered: the rows are applied, overtaken or not, and
  the call decides from them.\<close>

definition is_filtered_loaded ::
  "(json \<Rightarrow> string) \<Rightarrow> nat \<Rightarrow> rat \<Rightarrow> (string, datetime option) dict \<Rightarrow> jdict \<Rightarrow> datetime \<Rightarrow> alert_filter \<Rightarrow>
   bool \<times> alert_filter" where
  "is_filtered_loaded tx gen_at_start now disabled payload t_raised c =
     (let c' = filter_finish gen_at_start now disabled c in (decide tx (ca_value c') payload t_raised, c'))"

text \<open>A call that no other request interrupts: a hit decides at once, a miss loads first.
  \<open>decision_step\<close> below is the same call with others between its halves.\<close>

definition is_filtered ::
  "(json \<Rightarrow> string) \<Rightarrow> rat \<Rightarrow> (string, class_row) dict \<Rightarrow> string \<Rightarrow> jdict \<Rightarrow> datetime \<Rightarrow> alert_filter \<Rightarrow>
   bool \<times> alert_filter" where
  "is_filtered tx now rows event_type payload t_raised c =
     (if event_type \<noteq> ''ALERT_RAISED'' then (False, c)
      else if cache_fresh filter_ttl now c then (decide tx (ca_value c) payload t_raised, c)
      else is_filtered_loaded tx (ca_generation c) now (disabled_classes rows) payload t_raised c)"

section \<open>The thresholds\<close>

record thresholds =
  th_per_class :: "(string, rat) dict"
  th_floor :: rat

definition default_thresholds :: thresholds where
  "default_thresholds =
     \<lparr>th_per_class = [(''unattended_bag'', 3/4), (''door_obstruction'', 17/20),
        (''accessibility_detected'', 7/10), (''slip_fall'', 3/4), (''luggage_rack_saturation'', 7/10)],
      th_floor = 3/5\<rparr>"

definition floor_key :: string where
  "floor_key = ''degraded_banner_floor''"

definition per_class_prefix :: string where
  "per_class_prefix = ''per_class:''"

text \<open>\<open>_valid\<close>: only a finite number in range; the banner floor must exceed zero.\<close>

definition valid_threshold :: "bool \<Rightarrow> py_float option \<Rightarrow> bool" where
  "valid_threshold is_floor v =
     (case v of Some (Finite q) \<Rightarrow> 0 \<le> q \<and> q \<le> 1 \<and> \<not> (is_floor \<and> q \<le> 0) | _ \<Rightarrow> False)"

definition float_of :: "py_float option \<Rightarrow> rat" where
  "float_of v = (case v of Some (Finite q) \<Rightarrow> q | _ \<Rightarrow> 0)"

definition apply_threshold_row :: "thresholds \<Rightarrow> string \<times> py_float option \<Rightarrow> thresholds" where
  "apply_threshold_row cfg row =
     (case row of (key, v) \<Rightarrow>
        if key = floor_key then (if valid_threshold True v then cfg\<lparr>th_floor := float_of v\<rparr> else cfg)
        else if py_startswith key per_class_prefix then
          (if \<not> valid_threshold False v then cfg
           else (let cls = drop (length per_class_prefix) key
                 in if dhas (th_per_class default_thresholds) cls
                    then cfg\<lparr>th_per_class := dset (th_per_class cfg) cls (float_of v)\<rparr> else cfg))
        else cfg)"

definition read_thresholds :: "(string, py_float option) dict \<Rightarrow> thresholds" where
  "read_thresholds rows = foldl apply_threshold_row default_thresholds rows"

type_synonym threshold_store = "thresholds cache"

definition new_threshold_store :: threshold_store where
  "new_threshold_store = \<lparr>ca_loaded_at = None, ca_value = default_thresholds, ca_generation = 0\<rparr>"

definition threshold_invalidate :: "threshold_store \<Rightarrow> threshold_store" where
  "threshold_invalidate c = c\<lparr>ca_loaded_at := None, ca_generation := ca_generation c + 1\<rparr>"

definition threshold_finish :: "nat \<Rightarrow> rat \<Rightarrow> thresholds \<Rightarrow> threshold_store \<Rightarrow> threshold_store" where
  "threshold_finish gen_at_start now cfg c =
     (if ca_generation c \<noteq> gen_at_start then c\<lparr>ca_value := cfg, ca_loaded_at := None\<rparr>
      else c\<lparr>ca_value := cfg, ca_loaded_at := Some now\<rparr>)"

definition threshold_load ::
  "rat \<Rightarrow> (string, py_float option) dict \<Rightarrow> threshold_store \<Rightarrow> thresholds \<times> threshold_store" where
  "threshold_load now rows c =
     (if cache_fresh 60 now c then (ca_value c, c)
      else (let cfg = read_thresholds rows in (cfg, threshold_finish (ca_generation c) now cfg c)))"

section \<open>Loads and writers interleaved\<close>

record ('t, 'v) cache_world =
  cw_table :: 't
  cw_pending :: nat \<comment> \<open>writers that have committed and not yet invalidated\<close>
  cw_cache :: "'v cache"
  cw_load :: "(nat \<times> rat \<times> 'v option) option" \<comment> \<open>the load that holds the lock\<close>
  cw_now :: rat
  cw_seen :: "'t list" \<comment> \<open>the tables since that load began, for the statements only\<close>

inductive cache_step ::
  "rat \<Rightarrow> ('t \<Rightarrow> 'v) \<Rightarrow> (nat \<Rightarrow> rat \<Rightarrow> 'v \<Rightarrow> 'v cache \<Rightarrow> 'v cache) \<Rightarrow> ('v cache \<Rightarrow> 'v cache) \<Rightarrow>
   ('t, 'v) cache_world \<Rightarrow> ('t, 'v) cache_world \<Rightarrow> bool"
  for ttl :: rat and query :: "'t \<Rightarrow> 'v" and finish :: "nat \<Rightarrow> rat \<Rightarrow> 'v \<Rightarrow> 'v cache \<Rightarrow> 'v cache"
    and invalidate :: "'v cache \<Rightarrow> 'v cache" where
  Tick: "cw_now w \<le> t \<Longrightarrow> cache_step ttl query finish invalidate w (w\<lparr>cw_now := t\<rparr>)"
| Begin: "cw_load w = None \<Longrightarrow> \<not> cache_fresh ttl (cw_now w) (cw_cache w) \<Longrightarrow>
    cache_step ttl query finish invalidate w
      (w\<lparr>cw_load := Some (ca_generation (cw_cache w), cw_now w, None), cw_seen := [cw_table w]\<rparr>)"
| Query: "cw_load w = Some (g, n, None) \<Longrightarrow>
    cache_step ttl query finish invalidate w (w\<lparr>cw_load := Some (g, n, Some (query (cw_table w)))\<rparr>)"
| Finish: "cw_load w = Some (g, n, Some v) \<Longrightarrow>
    cache_step ttl query finish invalidate w
      (w\<lparr>cw_load := None, cw_cache := finish g n v (cw_cache w)\<rparr>)"
| Commit: "cache_step ttl query finish invalidate w
      (w\<lparr>cw_table := t, cw_pending := cw_pending w + 1, cw_seen := t # cw_seen w\<rparr>)"
| Invalidate: "cw_pending w = Suc k \<Longrightarrow>
    cache_step ttl query finish invalidate w
      (w\<lparr>cw_pending := k, cw_cache := invalidate (cw_cache w)\<rparr>)"

definition cache_start :: "('t, 'v) cache_world \<Rightarrow> bool" where
  "cache_start w \<longleftrightarrow> ca_loaded_at (cw_cache w) = None \<and> cw_load w = None \<and> cw_pending w = 0"

text \<open>What a load has read is a table of its own lifetime. While no writer is between its commit and
  its invalidation, a loaded value is the table's, and so is what the running load has read, unless an
  invalidation has overtaken it.\<close>

definition coherent :: "('t \<Rightarrow> 'v) \<Rightarrow> ('t, 'v) cache_world \<Rightarrow> bool" where
  "coherent query w \<longleftrightarrow>
     (\<forall>g n v. cw_load w = Some (g, n, v) \<longrightarrow>
        g \<le> ca_generation (cw_cache w) \<and> cw_table w \<in> set (cw_seen w) \<and>
        (\<forall>x. v = Some x \<longrightarrow> x \<in> query ` set (cw_seen w))) \<and>
     (cw_pending w = 0 \<longrightarrow>
        (ca_loaded_at (cw_cache w) \<noteq> None \<longrightarrow> ca_value (cw_cache w) = query (cw_table w)) \<and>
        (\<forall>g n v. cw_load w = Some (g, n, Some v) \<longrightarrow> g = ca_generation (cw_cache w) \<longrightarrow>
           v = query (cw_table w)))"

text \<open>What a cache class must promise for that: an invalidation clears and counts, and a load
  that was overtaken does not count as loaded.\<close>

locale guarded_cache =
  fixes ttl :: rat and query :: "'t \<Rightarrow> 'v" and finish :: "nat \<Rightarrow> rat \<Rightarrow> 'v \<Rightarrow> 'v cache \<Rightarrow> 'v cache"
    and invalidate :: "'v cache \<Rightarrow> 'v cache"
  assumes cleared: "ca_loaded_at (invalidate c) = None"
    and counted: "ca_generation (invalidate c) = Suc (ca_generation c)"
    and finish_generation: "ca_generation (finish g n v c) = ca_generation c"
    and finish_value: "ca_value (finish g n v c) = v"
    and overtaken: "ca_generation c \<noteq> g \<Longrightarrow> ca_loaded_at (finish g n v c) = None"
begin

lemma start_coherent: "cache_start w \<Longrightarrow> coherent query w"
  by (simp add: cache_start_def coherent_def)

lemma step_coherent:
  assumes "coherent query w" "cache_step ttl query finish invalidate w w'"
  shows "coherent query w'"
  using assms(2,1)
proof (cases rule: cache_step.cases)
  case (Finish g n v)
  then show ?thesis
    using assms(1) overtaken [of "cw_cache w" g n v]
    by (auto simp: coherent_def finish_generation finish_value)
qed (auto simp: coherent_def cleared counted)

end

sublocale guarded_cache \<subseteq> invariant_system cache_start "cache_step ttl query finish invalidate" "coherent query"
  by unfold_locales (blast intro: start_coherent step_coherent)+

context guarded_cache
begin

text \<open>What a reader may find: a value that counts as loaded, or what its own load has read.\<close>

lemma hit_settled:
  assumes "reach cache_start (cache_step ttl query finish invalidate) w" "cw_pending w = 0"
    "cache_fresh ttl t (cw_cache w)"
  shows "ca_value (cw_cache w) = query (cw_table w)"
  using reach_inv [OF assms(1)] assms(2,3)
  by (auto simp: coherent_def cache_fresh_def split: option.splits)

lemma load_settled:
  assumes "reach cache_start (cache_step ttl query finish invalidate) w" "cw_pending w = 0"
    "cw_load w = Some (g, n, Some v)" "g = ca_generation (cw_cache w)"
  shows "v = query (cw_table w)"
  using reach_inv [OF assms(1)] assms(2,3,4) by (simp add: coherent_def)

lemma load_seen:
  assumes "reach cache_start (cache_step ttl query finish invalidate) w"
    "cw_load w = Some (g, n, Some v)"
  shows "v \<in> query ` set (cw_seen w)"
  using reach_inv [OF assms(1)] assms(2) by (simp add: coherent_def)

end

interpretation fanout: guarded_cache filter_ttl disabled_classes filter_finish filter_invalidate
  by unfold_locales (simp_all add: filter_finish_def filter_invalidate_def)

interpretation threshold: guarded_cache 60 read_thresholds threshold_finish threshold_invalidate
  by unfold_locales (simp_all add: threshold_finish_def threshold_invalidate_def)

section \<open>The decision\<close>

text \<open>What the kill-switch promises, stated on the table: an alert of a disabled class raised
  after the class was disabled is withheld.\<close>

definition killed :: "(json \<Rightarrow> string) \<Rightarrow> (string, class_row) dict \<Rightarrow> string \<Rightarrow> jdict \<Rightarrow> datetime \<Rightarrow> bool" where
  "killed tx rows et p t \<longleftrightarrow>
     et = ''ALERT_RAISED'' \<and>
     (case dget rows (case dget p ''alert_code'' of None \<Rightarrow> [] | Some j \<Rightarrow> py_str tx j) of
        None \<Rightarrow> False
      | Some r \<Rightarrow> cs_disabled r \<and> (case cs_disabled_at r of None \<Rightarrow> False | Some d \<Rightarrow> before d t))"

lemma dget_disabled_classes:
  assumes "dwf rows"
  shows "dget (disabled_classes rows) k =
    (case dget rows k of None \<Rightarrow> None | Some r \<Rightarrow> if cs_disabled r then Some (cs_disabled_at r) else None)"
  using assms
proof (induction rows)
  case (Cons p rows)
  obtain k' r where p: "p = (k', r)" by fastforce
  with Cons.prems have "dwf rows" "dget rows k' = None"
    by (auto simp: dwf_def dkeys_def map_of_eq_None_iff)
  with Cons.IH p show ?case
    by (cases "k' = k") (simp_all add: disabled_classes_def)
qed (simp add: disabled_classes_def)

lemma decide_killed:
  assumes "dwf rows"
  shows "decide tx (disabled_classes rows) p t = killed tx rows ''ALERT_RAISED'' p t"
  using assms by (auto simp: decide_def killed_def dget_disabled_classes Let_def split: option.splits)

lemma is_filtered_killed:
  assumes "dwf rows" "cache_fresh filter_ttl now c \<Longrightarrow> ca_value c = disabled_classes rows"
  shows "fst (is_filtered tx now rows et p t c) = killed tx rows et p t"
  using assms decide_killed [OF assms(1)]
  by (auto simp: is_filtered_def is_filtered_loaded_def filter_finish_def Let_def) (auto simp: killed_def)

text \<open>The calls among the loads and the writers: a call that finds the map fresh (before it takes the
  lock or after) decides from it; a call that ran the load decides when its load ends, whatever has
  been committed or invalidated in the meantime.\<close>

type_synonym filter_world = "((string, class_row) dict, (string, datetime option) dict) cache_world"

inductive decision_step ::
  "(json \<Rightarrow> string) \<Rightarrow> filter_world \<Rightarrow> string \<Rightarrow> jdict \<Rightarrow> datetime \<Rightarrow> bool \<Rightarrow> filter_world \<Rightarrow> bool"
  for tx :: "json \<Rightarrow> string" where
  Passes: "et \<noteq> ''ALERT_RAISED'' \<Longrightarrow> decision_step tx w et p t False w"
| Hit: "cache_fresh filter_ttl (cw_now w) (cw_cache w) \<Longrightarrow>
    decision_step tx w ''ALERT_RAISED'' p t (decide tx (ca_value (cw_cache w)) p t) w"
| Loaded: "cw_load w = Some (g, n, Some v) \<Longrightarrow>
    is_filtered_loaded tx g n v p t (cw_cache w) = (d, c) \<Longrightarrow>
    decision_step tx w ''ALERT_RAISED'' p t d (w\<lparr>cw_load := None, cw_cache := c\<rparr>)"

text \<open>An invalidation has come since the running load began.\<close>

definition load_overtaken :: "('t, 'v) cache_world \<Rightarrow> bool" where
  "load_overtaken w \<longleftrightarrow>
     (case cw_load w of None \<Rightarrow> False | Some (g, n, v) \<Rightarrow> g \<noteq> ca_generation (cw_cache w))"

inductive_cases decision_stepE: "decision_step tx w et p t d w'"

text \<open>Such a step is one of the interleaved steps, and an uninterrupted call is a run of them.\<close>

lemma decision_is_step:
  assumes "decision_step tx w et p t d w'"
  shows "w' = w \<or> cache_step filter_ttl disabled_classes filter_finish filter_invalidate w w'"
  using assms
proof (cases rule: decision_step.cases)
  case (Loaded g n v c)
  then have "c = filter_finish g n v (cw_cache w)" by (simp add: is_filtered_loaded_def Let_def)
  with Loaded show ?thesis by (metis cache_step.Finish)
qed simp_all

lemma is_filtered_steps:
  assumes "cw_load w = None" "is_filtered tx (cw_now w) (cw_table w) et p t (cw_cache w) = (d, c)"
  obtains w1 w2 where "cw_cache w2 = c" "decision_step tx w1 et p t d w2"
    "(cache_step filter_ttl disabled_classes filter_finish filter_invalidate)\<^sup>*\<^sup>* w w1"
proof -
  let ?s = "cache_step filter_ttl disabled_classes filter_finish filter_invalidate"
  let ?b = "w\<lparr>cw_load := Some (ca_generation (cw_cache w), cw_now w, None), cw_seen := [cw_table w]\<rparr>"
  let ?q = "?b\<lparr>cw_load := Some (ca_generation (cw_cache w), cw_now w, Some (disabled_classes (cw_table w)))\<rparr>"
  consider "et \<noteq> ''ALERT_RAISED''" | "et = ''ALERT_RAISED''" "cache_fresh filter_ttl (cw_now w) (cw_cache w)"
    | "et = ''ALERT_RAISED''" "\<not> cache_fresh filter_ttl (cw_now w) (cw_cache w)" by blast
  then show ?thesis
  proof cases
    case 1
    with assms(2) show ?thesis by (intro that [of w w]) (auto simp: is_filtered_def intro: Passes)
  next
    case 2
    with assms(2) show ?thesis by (intro that [of w w]) (auto simp: is_filtered_def intro: Hit)
  next
    case 3
    have "?s w ?b" using assms(1) 3 by (rule_tac cache_step.Begin)
    moreover have "?s ?b ?q" using cache_step.Query [of ?b "ca_generation (cw_cache w)" "cw_now w"] by simp
    ultimately have run: "?s\<^sup>*\<^sup>* w ?q" 
      by (rule converse_rtranclp_into_rtranclp [OF _ r_into_rtranclp])
    have "is_filtered_loaded tx (ca_generation (cw_cache ?q)) (cw_now w) (disabled_classes (cw_table w)) p t
        (cw_cache ?q) = (d, c)"
      using assms(2) 3 by (simp add: is_filtered_def)
    then have step: "decision_step tx ?q ''ALERT_RAISED'' p t d (?q\<lparr>cw_load := None, cw_cache := c\<rparr>)"
      by (rule Loaded [rotated]) simp
    show ?thesis
      by (rule that [of "?q\<lparr>cw_load := None, cw_cache := c\<rparr>" ?q]) (use 3(1) step run in simp_all)
  qed
qed

section \<open>Fail-safe thresholds\<close>

definition thresholds_ok :: "thresholds \<Rightarrow> bool" where
  "thresholds_ok cfg \<longleftrightarrow>
     0 < th_floor cfg \<and> th_floor cfg \<le> 1 \<and>
     dkeys (th_per_class cfg) = dkeys (th_per_class default_thresholds) \<and>
     (\<forall>(k, q) \<in> set (th_per_class cfg). 0 \<le> q \<and> q \<le> 1)"

lemma apply_threshold_row_ok:
  assumes "thresholds_ok cfg"
  shows "thresholds_ok (apply_threshold_row cfg r)"
proof -
  obtain key v where r: "r = (key, v)" by fastforce
  have per: "thresholds_ok (cfg\<lparr>th_per_class := dset (th_per_class cfg) cls (float_of v)\<rparr>)"
    if "valid_threshold False v" "dhas (th_per_class default_thresholds) cls" for cls
    using assms that dkeys_dset_same [of "th_per_class cfg" cls]
      set_dset [of "th_per_class cfg" cls "float_of v"]
    by (auto simp: thresholds_ok_def valid_threshold_def float_of_def dhas_def
        split: option.splits py_float.splits)
  have "thresholds_ok (cfg\<lparr>th_floor := float_of v\<rparr>)" if "valid_threshold True v"
    using assms that
    by (auto simp: thresholds_ok_def valid_threshold_def float_of_def split: option.splits py_float.splits)
  with per assms show ?thesis by (simp add: apply_threshold_row_def r Let_def)
qed

lemma read_thresholds_ok: "thresholds_ok (read_thresholds rows)"
proof -
  have "thresholds_ok (foldl apply_threshold_row cfg rows)" if "thresholds_ok cfg" for cfg
    using that by (induction rows arbitrary: cfg) (auto intro: apply_threshold_row_ok)
  moreover have "thresholds_ok default_thresholds"
    by (simp add: thresholds_ok_def default_thresholds_def)
  ultimately show ?thesis by (simp add: read_thresholds_def)
qed

text \<open>What a reading says of each value: the stored number when it is usable, else the default.\<close>

definition usable :: "bool \<Rightarrow> py_float option option \<Rightarrow> rat \<Rightarrow> rat" where
  "usable is_floor v dflt = (case v of None \<Rightarrow> dflt | Some x \<Rightarrow> if valid_threshold is_floor x then float_of x else dflt)"

lemma dwf_Cons: "dwf ((k, v) # d) \<longleftrightarrow> dget d k = None \<and> dwf d"
  by (auto simp: dwf_def dkeys_def map_of_eq_None_iff)

lemma fold_floor:
  "dwf rows \<Longrightarrow> th_floor (foldl apply_threshold_row cfg rows) = usable True (dget rows floor_key) (th_floor cfg)"
proof (induction rows arbitrary: cfg)
  case (Cons r rows)
  obtain k v where r: "r = (k, v)" by fastforce
  have "th_floor (apply_threshold_row cfg r) = (if k = floor_key \<and> valid_threshold True v then float_of v else th_floor cfg)"
    by (simp add: apply_threshold_row_def r Let_def)
  with Cons r show ?case by (auto simp: dwf_Cons usable_def split: option.splits)
qed (simp add: usable_def)

lemma read_floor: "dwf rows \<Longrightarrow> th_floor (read_thresholds rows) = usable True (dget rows floor_key) (3/5)"
  by (simp add: read_thresholds_def fold_floor default_thresholds_def)

lemma prefix_not_floor: "per_class_prefix @ c \<noteq> floor_key"
  by (simp add: per_class_prefix_def floor_key_def)

lemma fold_class:
  assumes "dhas (th_per_class default_thresholds) c"
  shows "dwf rows \<Longrightarrow> dget (th_per_class cfg) c = Some q \<Longrightarrow>
    dget (th_per_class (foldl apply_threshold_row cfg rows)) c =
      Some (usable False (dget rows (per_class_prefix @ c)) q)"
proof (induction rows arbitrary: cfg q)
  case (Cons r rows)
  obtain k v where r: "r = (k, v)" by fastforce
  let ?q = "if k = per_class_prefix @ c \<and> valid_threshold False v then float_of v else q"
  have k: "py_startswith k per_class_prefix \<Longrightarrow> (drop (length per_class_prefix) k = c) = (k = per_class_prefix @ c)"
    by (metis append_eq_conv_conj append_take_drop_id py_startswith_def)
  have "dget (th_per_class (apply_threshold_row cfg r)) c = Some ?q"
    using Cons.prems(2) assms k prefix_not_floor [of c]
    by (auto simp: apply_threshold_row_def r Let_def)
  from Cons.IH [OF _ this] Cons.prems(1) r show ?case
    by (auto simp: dwf_Cons usable_def)
qed (simp add: usable_def)

lemma read_class:
  assumes "dwf rows" "dget (th_per_class default_thresholds) c = Some q"
  shows "dget (th_per_class (read_thresholds rows)) c = Some (usable False (dget rows (per_class_prefix @ c)) q)"
  unfolding read_thresholds_def using assms by (intro fold_class) (simp_all add: dhas_iff)

end
