(* ===== verification/Cloud_Alerts.thy ===== *)
theory Cloud_Alerts
  imports Cloud_Cache "HOL-Library.Product_Lexorder"
begin

text \<open>
  The alert stream of \<open>cloud-backend\<close>, \<open>routes/alerts_sse.py\<close>: the in-process fan-out to
  the connected clients, the frames, and the replay for a client that comes back. A queue is
  the list of events it holds, oldest first; the set of queues is a dictionary from a
  client number to its queue.
\<close>

section \<open>The service\<close>

text \<open>The 30-second cache of the degraded flag in \<open>routes/health.py\<close>.\<close>

record degraded_cache =
  dg_computed_at :: "rat option"
  dg_value :: bool

definition new_degraded_cache :: degraded_cache where
  "new_degraded_cache = \<lparr>dg_computed_at = None, dg_value = False\<rparr>"

type_synonym hub = "(nat, jdict list) dict"

record cloud =
  cl_db :: cloud_db
  cl_hub :: hub
  cl_filter :: alert_filter
  cl_thresholds :: threshold_store
  cl_degraded :: degraded_cache

definition cloud_start :: cloud where
  "cloud_start =
     \<lparr>cl_db = init_cloud_db, cl_hub = [], cl_filter = new_alert_filter,
      cl_thresholds = new_threshold_store, cl_degraded = new_degraded_cache\<rparr>"

section \<open>Fan-out\<close>

definition alert_event_types :: "string list" where
  "alert_event_types =
     [''ALARM_ACTIVE'', ''ALERT_RAISED'', ''ALERT_RESOLVED'', ''LUGGAGE_RACK_SATURATION'', ''UNATTENDED_BAG'']"

definition queue_size :: nat where
  "queue_size = 256"

text \<open>\<open>put_nowait\<close>; a full queue drops the event.\<close>

definition put_nowait :: "jdict \<Rightarrow> jdict list \<Rightarrow> jdict list" where
  "put_nowait ev q = (if length q < queue_size then q @ [ev] else q)"

definition publish_alert :: "jdict \<Rightarrow> hub \<Rightarrow> hub" where
  "publish_alert ev h = map (\<lambda>(k, q). (k, put_nowait ev q)) h"

section \<open>Frames\<close>

definition newline :: string where
  "newline = [CHR 0x0A]"

definition present :: "jdict \<Rightarrow> string \<Rightarrow> json option" where
  "present ev k = (case dget ev k of None \<Rightarrow> None | Some JNull \<Rightarrow> None | Some j \<Rightarrow> Some j)"

definition build_frame :: "(json \<Rightarrow> string) \<Rightarrow> (json \<Rightarrow> string) \<Rightarrow> jdict \<Rightarrow> string option" where
  "build_frame tx dumps ev =
     (case (present ev ''event_type'', present ev ''event_id'') of
        (Some et, Some i) \<Rightarrow>
          Some (''event: '' @ py_str tx et @ newline @ ''id: '' @ py_str tx i @ newline @
            ''data: '' @ dumps (JObj ev) @ newline @ newline)
      | _ \<Rightarrow> None)"

section \<open>Replay\<close>

text \<open>\<open>str(datetime)\<close>: the ISO text with a space for the \<open>T\<close>.\<close>

definition datetime_str :: "datetime \<Rightarrow> string" where
  "datetime_str t = take 10 (isoformat_auto t) @ '' '' @ drop 11 (isoformat_auto t)"

definition replay_limit :: nat where
  "replay_limit = 200"

definition replay_query :: "cloud_db \<Rightarrow> string \<Rightarrow> cloud_event list" where
  "replay_query db after =
     (case find_cloud_event db after of
        None \<Rightarrow> []
      | Some c \<Rightarrow>
          take replay_limit
            (sort_key (\<lambda>e. (dt_micros (ce_source_timestamp e), ce_id e))
              (filter (\<lambda>e. ce_type e \<in> set alert_event_types \<and>
                  before (ce_source_timestamp c) (ce_source_timestamp e)) (cd_events db))))"

definition replay_event :: "cloud_event \<Rightarrow> jdict" where
  "replay_event e =
     [(''event_id'', JStr (ce_id e)), (''event_type'', JStr (ce_type e)),
      (''severity'', JStr (ce_severity e)), (''journey_id'', JStr (ce_journey_id e)),
      (''vehicle_id'', JStr (ce_vehicle_id e)), (''timestamp'', JStr (datetime_str (ce_timestamp e))),
      (''payload'', JObj (ce_payload e))]"

fun replay_rows ::
  "(json \<Rightarrow> string) \<Rightarrow> rat \<Rightarrow> (string, class_row) dict \<Rightarrow> cloud_event list \<Rightarrow> alert_filter \<Rightarrow>
   jdict list \<times> alert_filter" where
  "replay_rows tx now rows [] c = ([], c)"
| "replay_rows tx now rows (e # es) c =
     (case is_filtered tx now rows (ce_type e) (ce_payload e) (ce_timestamp e) c of
        (drop_it, c') \<Rightarrow>
          (case replay_rows tx now rows es c' of
             (out, c'') \<Rightarrow> (if drop_it then out else replay_event e # out, c'')))"

definition replay_since ::
  "driver \<Rightarrow> (json \<Rightarrow> string) \<Rightarrow> rat \<Rightarrow> string option \<Rightarrow> cloud_db \<Rightarrow> alert_filter \<Rightarrow>
   (jdict list \<times> alert_filter) outcome" where
  "replay_since D tx now last_event_id db c =
     (if \<not> truthy last_event_id then Inr ([], c)
      else bind_res (bind_id D (keep_or last_event_id [])) (\<lambda>after.
        Inr (replay_rows tx now (cd_classes db) (replay_query db after) c)))"

section \<open>A client's stream\<close>

text \<open>
  \<open>_sse_generator\<close>: the queue is registered first, then the replay is sent, then the queue is
  drained one event at a time; a timeout of the queue sends a comment; the queue is removed
  at the end. An event without a type or an id yields no frame.
\<close>

definition sse_connect :: "nat \<Rightarrow> hub \<Rightarrow> hub" where
  "sse_connect k h = dset h k []"

definition sse_replay ::
  "driver \<Rightarrow> (json \<Rightarrow> string) \<Rightarrow> (json \<Rightarrow> string) \<Rightarrow> rat \<Rightarrow> string option \<Rightarrow> cloud \<Rightarrow> (string list \<times> cloud) outcome" where
  "sse_replay D tx dumps now last_event_id S =
     bind_res (replay_since D tx now last_event_id (cl_db S) (cl_filter S)) (\<lambda>(evs, c).
       Inr (List.map_filter (build_frame tx dumps) evs, S\<lparr>cl_filter := c\<rparr>))"

definition keep_alive :: string where
  "keep_alive = '': keep-alive'' @ newline @ newline"

definition sse_next :: "(json \<Rightarrow> string) \<Rightarrow> (json \<Rightarrow> string) \<Rightarrow> nat \<Rightarrow> hub \<Rightarrow> string option \<times> hub" where
  "sse_next tx dumps k h =
     (case dget_or h k [] of
        [] \<Rightarrow> (Some keep_alive, h)
      | ev # q \<Rightarrow> (build_frame tx dumps ev, dset h k q))"

definition sse_disconnect :: "nat \<Rightarrow> hub \<Rightarrow> hub" where
  "sse_disconnect k h = ddel h k"

section \<open>Facts\<close>

lemma dget_map_values: "dget (map (\<lambda>(k, v). (k, f v)) d) k = map_option f (dget d k)"
  by (induction d) auto

lemma dkeys_map_values: "dkeys (map (\<lambda>(k, v). (k, f v)) d) = dkeys d"
  by (induction d) (auto simp: dkeys_def)

lemma dget_publish: "dget (publish_alert ev h) k = map_option (put_nowait ev) (dget h k)"
  unfolding publish_alert_def by (rule dget_map_values)

lemma put_nowait_bound: "length q \<le> queue_size \<Longrightarrow> length (put_nowait ev q) \<le> queue_size"
  by (simp add: put_nowait_def)

definition hub_bounded :: "hub \<Rightarrow> bool" where
  "hub_bounded h \<longleftrightarrow> (\<forall>k q. dget h k = Some q \<longrightarrow> length q \<le> queue_size)"

lemma hub_bounded_publish: "hub_bounded h \<Longrightarrow> hub_bounded (publish_alert ev h)"
  by (auto simp: hub_bounded_def dget_publish put_nowait_bound)

lemma hub_bounded_connect: "hub_bounded h \<Longrightarrow> hub_bounded (sse_connect k h)"
  by (auto simp: hub_bounded_def sse_connect_def)

lemma hub_bounded_disconnect: "hub_bounded h \<Longrightarrow> hub_bounded (sse_disconnect k h)"
  by (auto simp: hub_bounded_def sse_disconnect_def)

lemma hub_bounded_next: "hub_bounded h \<Longrightarrow> hub_bounded (snd (sse_next tx dumps k h))"
  by (fastforce simp: hub_bounded_def sse_next_def dget_or_def split: list.splits option.splits if_splits)

text \<open>Publishing a list of events, each to every queue.\<close>

abbreviation publish_all :: "jdict list \<Rightarrow> hub \<Rightarrow> hub" where
  "publish_all evs h \<equiv> foldl (\<lambda>h ev. publish_alert ev h) h evs"

lemma dget_publish_all:
  "dget (publish_all evs h) k = map_option (\<lambda>q. foldl (\<lambda>q ev. put_nowait ev q) q evs) (dget h k)"
  by (induction evs arbitrary: h) (simp_all add: dget_publish option.map_comp comp_def option.map_ident)

lemma put_all: "foldl (\<lambda>q ev. put_nowait ev q) q evs = q @ take (queue_size - length q) evs"
  by (induction evs arbitrary: q) (auto simp: put_nowait_def take_Cons')

text \<open>A client that is connected receives the published events in order, as many as fit.\<close>

lemma published_fifo:
  "dget h k = Some q \<Longrightarrow> dget (publish_all evs h) k = Some (q @ take (queue_size - length q) evs)"
  by (simp add: dget_publish_all put_all)

lemma replay_query_sound:
  assumes "e \<in> set (replay_query db after)"
  shows "e \<in> set (cd_events db) \<and> ce_type e \<in> set alert_event_types \<and>
    (\<exists>c. find_cloud_event db after = Some c \<and> before (ce_source_timestamp c) (ce_source_timestamp e))"
  using assms by (cases "find_cloud_event db after") (auto simp: replay_query_def dest!: in_set_takeD)

text \<open>Up to the limit nothing later than the cursor is left out.\<close>

lemma replay_query_complete:
  assumes "find_cloud_event db after = Some c" "length (cd_events db) \<le> replay_limit"
    "e \<in> set (cd_events db)" "ce_type e \<in> set alert_event_types"
    "before (ce_source_timestamp c) (ce_source_timestamp e)"
  shows "e \<in> set (replay_query db after)"
proof -
  have "length (filter p (cd_events db)) \<le> replay_limit" for p
    using length_filter_le [of p "cd_events db"] assms(2) by linarith
  with assms show ?thesis by (simp add: replay_query_def)
qed

end
