(* ===== verification/Cloud_Ingest.thy ===== *)
theory Cloud_Ingest
  imports Cloud_Alerts
begin

text \<open>
  The landside ingest of \<open>cloud-backend\<close>, \<open>routes/ingest.py\<close>, with the rows it writes beside
  the event: the heartbeat of \<open>services/heartbeat_ingest.py\<close>, the escalation and its
  \<open>raised\<close> audit row (\<open>record_raised\<close> of \<open>services/escalation_audit.py\<close>). A batch is one
  transaction, committed at the end; the alert fan-out and the filter cache are in memory and
  keep what an aborted batch did to them. Generated audit ids are not modelled.
\<close>

section \<open>Settings and the shared key\<close>

record cloud_settings =
  cf_api_key :: string
  cf_jwt_secret :: string
  cf_jwt_issuer :: string
  cf_jwt_algorithm :: string
  cf_jwt_ttl_minutes :: int
  cf_bcrypt_rounds :: int
  cf_app_env :: string

text \<open>The validator of \<open>bcrypt_rounds\<close>: below 10 only in the test environment.\<close>

definition enforce_bcrypt_floor :: "cloud_settings \<Rightarrow> cloud_settings outcome" where
  "enforce_bcrypt_floor S =
     (if cf_bcrypt_rounds S < 10 \<and> cf_app_env S \<noteq> ''test'' then Inl (Raised ValidationError) else Inr S)"

definition cloud_require_api_key :: "cloud_settings \<Rightarrow> string option \<Rightarrow> string outcome" where
  "cloud_require_api_key S api_key =
     (if \<not> truthy api_key \<or> keep_or api_key [] \<noteq> cf_api_key S then Inl (Http 401 ''UNAUTHORIZED'')
      else Inr (keep_or api_key []))"

section \<open>The rows beside an event\<close>

definition text_or :: "(json \<Rightarrow> string) \<Rightarrow> jdict \<Rightarrow> string \<Rightarrow> string" where
  "text_or tx p k = (case dget p k of None \<Rightarrow> [] | Some j \<Rightarrow> py_str tx j)"

definition upsert_heartbeat :: "(json \<Rightarrow> string) \<Rightarrow> datetime \<Rightarrow> jdict \<Rightarrow> cloud_db \<Rightarrow> cloud_db" where
  "upsert_heartbeat tx now p db =
     db\<lparr>cd_heartbeats := dset (cd_heartbeats db) (text_or tx p ''train_id'')
          \<lparr>hb_last_seen = now, hb_model_versions = dget_or p ''model_versions'' (JObj []),
           hb_device_ok = jtruthy (dget_or p ''hailo_device_ok'' (JBool False))\<rparr>\<rparr>"

definition record_raised :: "string \<Rightarrow> escalation \<Rightarrow> cloud_db \<Rightarrow> cloud_db" where
  "record_raised k s db =
     db\<lparr>cd_audit := cd_audit db @
          [\<lparr>au_escalation_id = k, au_transition = T_raised, au_operator_id = None,
            au_alert_code = es_alert_code s, au_t_event = es_t_fired s, au_t_fired = es_t_fired s,
            au_action_tags = None, au_dwell_focus_ms = None,
            au_confidence_score = es_confidence_score s, au_confidence_basis = es_confidence_basis s,
            au_model_versions = es_model_versions s\<rparr>]\<rparr>"

text \<open>The escalation's columns, bound from the payload.\<close>

definition new_escalation :: "driver \<Rightarrow> string \<Rightarrow> envelope \<Rightarrow> datetime \<Rightarrow> escalation outcome" where
  "new_escalation D k ev ts =
     (let p = ev_payload ev in
      bind_res (of_opt (Raised DBAPIError) (bind_text D (dget_or p ''alert_id'' JNull))) (\<lambda>alert_id.
      bind_res (of_opt (Raised DBAPIError) (bind_text D (dget_or p ''alert_code'' JNull))) (\<lambda>alert_code.
      bind_res (bind_opt (bind_float D) (dget p ''confidence_score'')) (\<lambda>score.
      bind_res (bind_opt (bind_text D) (dget p ''confidence_basis'')) (\<lambda>basis.
      bind_res (bind_opt (bind_int D) (dget p ''seconds_to_departure'')) (\<lambda>seconds.
        Inr \<lparr>es_alert_id = alert_id, es_alert_event_id = k, es_alert_code = alert_code,
             es_journey_id = ev_journey_id ev, es_vehicle_id = ev_vehicle_id ev,
             es_status = Unacknowledged, es_t_fired = ts, es_t_ack = None, es_t_resolve = None,
             es_ack_operator = None, es_resolve_operator = None, es_outcome = None,
             es_action_tags = None, es_confidence_score = score, es_confidence_basis = basis,
             es_model_versions = dget_or p ''model_versions'' (JObj []),
             es_seconds_to_departure = seconds\<rparr>))))))"

text \<open>The escalation row, and one audit row when the row is new.\<close>

definition raise_escalation :: "driver \<Rightarrow> string \<Rightarrow> envelope \<Rightarrow> datetime \<Rightarrow> cloud_db \<Rightarrow> cloud_db outcome" where
  "raise_escalation D k ev ts db =
     (if \<not> (jtruthy (dget_or (ev_payload ev) ''alert_id'' JNull) \<and>
            jtruthy (dget_or (ev_payload ev) ''alert_code'' JNull)) then Inr db
      else bind_res (new_escalation D k ev ts) (\<lambda>s.
        Inr (if dhas (cd_escalations db) k then db
             else record_raised k s (db\<lparr>cd_escalations := dset (cd_escalations db) k s\<rparr>))))"

section \<open>One event\<close>

definition trip_of :: "string \<Rightarrow> string" where
  "trip_of j = (if CHR ''_'' \<in> set j then split_on CHR ''_'' j ! 1 else j)"

definition parse_instant :: "string \<Rightarrow> datetime outcome" where
  "parse_instant s =
     (case fromisoformat_utc (py_replace ''Z'' ''+00:00'' s) of Inl e \<Rightarrow> Inl (Raised e) | Inr t \<Rightarrow> Inr t)"

definition event_row :: "string \<Rightarrow> envelope \<Rightarrow> datetime \<Rightarrow> cloud_event" where
  "event_row k ev ts =
     \<lparr>ce_id = k, ce_journey_id = ev_journey_id ev, ce_vehicle_id = ev_vehicle_id ev,
      ce_type = event_type_value (ev_type ev), ce_severity = severity_value (ev_severity ev),
      ce_source = source_value (ev_source ev), ce_schema_version = ev_schema_version ev,
      ce_timestamp = ts, ce_source_timestamp = ts, ce_payload = ev_payload ev\<rparr>"

definition store_event :: "driver \<Rightarrow> envelope \<Rightarrow> datetime \<Rightarrow> cloud_db \<Rightarrow> (string \<times> nat \<times> cloud_db) outcome" where
  "store_event D ev ts db =
     bind_res (bind_id D (ev_id ev)) (\<lambda>k.
     bind_res (insert_cloud_event (event_row k ev ts)
       (ensure_journey (ev_journey_id ev)
          \<lparr>cj_vehicle_id = ev_vehicle_id ev, cj_trip_number = trip_of (ev_journey_id ev),
           cj_route_name = None, cj_start_time = ts, cj_end_time = None\<rparr> db)) (\<lambda>(n, db').
       Inr (k, n, db')))"

definition alert_frame :: "envelope \<Rightarrow> jdict" where
  "alert_frame ev =
     [(''event_id'', JStr (ev_id ev)), (''event_type'', JStr (event_type_value (ev_type ev))),
      (''severity'', JStr (severity_value (ev_severity ev))), (''journey_id'', JStr (ev_journey_id ev)),
      (''vehicle_id'', JStr (ev_vehicle_id ev)), (''timestamp'', JStr (ev_timestamp ev)),
      (''payload'', JObj (ev_payload ev))]"

record ingest_acc =
  ia_db :: cloud_db
  ia_hub :: hub
  ia_filter :: alert_filter
  ia_accepted :: nat
  ia_duplicates :: "string list"

record ingest_env =
  ig_driver :: driver
  ig_text :: "json \<Rightarrow> string"
  ig_now :: datetime \<comment> \<open>\<open>NOW()\<close> of the transaction\<close>
  ig_mono :: "nat \<Rightarrow> rat" \<comment> \<open>\<open>time.monotonic()\<close> when that many events have been accepted\<close>

definition side_rows :: "ingest_env \<Rightarrow> string \<Rightarrow> envelope \<Rightarrow> datetime \<Rightarrow> cloud_db \<Rightarrow> cloud_db outcome" where
  "side_rows E k ev ts db =
     (let db1 = (if ev_type ev = INFERENCE_HEARTBEAT
                 then upsert_heartbeat (ig_text E) (ig_now E) (ev_payload ev) db else db)
      in if ev_type ev = ALERT_RAISED then raise_escalation (ig_driver E) k ev ts db1 else Inr db1)"

definition fan_out :: "ingest_env \<Rightarrow> envelope \<Rightarrow> datetime \<Rightarrow> ingest_acc \<Rightarrow> ingest_acc" where
  "fan_out E ev ts a =
     (if event_type_value (ev_type ev) \<notin> set alert_event_types then a
      else (case is_filtered (ig_text E) (ig_mono E (ia_accepted a)) (cd_classes (ia_db a))
                   (event_type_value (ev_type ev)) (ev_payload ev) ts (ia_filter a) of
              (drop_it, c) \<Rightarrow>
                a\<lparr>ia_filter := c,
                  ia_hub := (if drop_it then ia_hub a else publish_alert (alert_frame ev) (ia_hub a))\<rparr>))"

definition ingest_one :: "ingest_env \<Rightarrow> envelope \<Rightarrow> ingest_acc \<Rightarrow> ingest_acc outcome" where
  "ingest_one E ev a =
     (if ev_schema_version ev \<notin> set supported_schema_versions then Inr a
      else bind_res (parse_instant (ev_timestamp ev)) (\<lambda>ts.
        bind_res (store_event (ig_driver E) ev ts (ia_db a)) (\<lambda>(k, n, db).
          if n = 0 then Inr (a\<lparr>ia_db := db, ia_duplicates := ia_duplicates a @ [ev_id ev]\<rparr>)
          else bind_res (side_rows E k ev ts db) (\<lambda>db'.
            Inr (fan_out E ev ts (a\<lparr>ia_db := db', ia_accepted := ia_accepted a + 1\<rparr>))))))"

section \<open>A batch\<close>

text \<open>The loop: the failure that ends it, if any, and what it had done by then.\<close>

fun ingest_loop :: "ingest_env \<Rightarrow> envelope list \<Rightarrow> ingest_acc \<Rightarrow> failure option \<times> ingest_acc" where
  "ingest_loop E [] a = (None, a)"
| "ingest_loop E (ev # evs) a =
     (case ingest_one E ev a of Inl f \<Rightarrow> (Some f, a) | Inr a' \<Rightarrow> ingest_loop E evs a')"

definition ingest_events :: "ingest_env \<Rightarrow> envelope list \<Rightarrow> cloud \<Rightarrow> (nat \<times> string list) outcome \<times> cloud" where
  "ingest_events E evs S =
     (case ingest_loop E evs
             \<lparr>ia_db = cl_db S, ia_hub = cl_hub S, ia_filter = cl_filter S, ia_accepted = 0, ia_duplicates = []\<rparr> of
        (None, a) \<Rightarrow>
          (Inr (ia_accepted a, ia_duplicates a),
           S\<lparr>cl_db := ia_db a, cl_hub := ia_hub a, cl_filter := ia_filter a\<rparr>)
      | (Some f, a) \<Rightarrow> (Inl f, S\<lparr>cl_hub := ia_hub a, cl_filter := ia_filter a\<rparr>))"

text \<open>The request body: 1 to 500 envelopes, every one valid.\<close>

fun parse_batch ::
  "pydantic \<Rightarrow> (nat \<Rightarrow> string) \<Rightarrow> clock \<Rightarrow> nat \<Rightarrow> jdict list \<Rightarrow> envelope list res" where
  "parse_batch pd uu ck n [] = Inr []"
| "parse_batch pd uu ck n (d # ds) =
     bind_res (parse_envelope pd (uu n) (ck n) d) (\<lambda>e.
     bind_res (parse_batch pd uu ck (Suc n) ds) (\<lambda>es. Inr (e # es)))"

definition post_events ::
  "cloud_settings \<Rightarrow> pydantic \<Rightarrow> (nat \<Rightarrow> string) \<Rightarrow> clock \<Rightarrow> ingest_env \<Rightarrow> string option \<Rightarrow> jdict list \<Rightarrow>
   cloud \<Rightarrow> (nat \<times> string list) outcome \<times> cloud" where
  "post_events F pd uu ck E api_key body S =
     (case cloud_require_api_key F api_key of
        Inl f \<Rightarrow> (Inl f, S)
      | Inr k \<Rightarrow>
          if \<not> (1 \<le> length body \<and> length body \<le> 500) then (Inl (Http 422 ''VALIDATION_ERROR''), S)
          else (case parse_batch pd uu ck 0 body of
                  Inl e \<Rightarrow> (Inl (Http 422 ''VALIDATION_ERROR''), S)
                | Inr evs \<Rightarrow> ingest_events E evs S))"

end
