(* ===== verification/Cloud_Escalations.thy ===== *)
theory Cloud_Escalations
  imports Cloud_Ingest
begin

text \<open>
  The escalation lifecycle of \<open>cloud-backend\<close>: \<open>api/escalations.py\<close>,
  \<open>routes/escalations.py\<close> and the transition rows of \<open>services/escalation_audit.py\<close>. A
  handler reads the status, and later updates the row where it still has that status; between
  the two other requests commit. The second half of each handler is therefore a definition
  that takes the status read before.
\<close>

section \<open>Requests\<close>

definition action_tag_keys :: "(string, string) dict" where
  "action_tag_keys =
     [(''Resolved remotely'', ''resolved_remotely''), (''Field team dispatched'', ''field_team_dispatched''),
      (''False alarm'', ''false_alarm''), (''No action needed'', ''no_action_needed'')]"

record resolve_request =
  rr_outcome :: string
  rr_action_tags :: "string list"
  rr_operator_id :: string

definition resolve_request_ok :: "resolve_request \<Rightarrow> bool" where
  "resolve_request_ok r \<longleftrightarrow>
     1 \<le> length (rr_outcome r) \<and> length (rr_outcome r) \<le> 200 \<and> rr_action_tags r \<noteq> [] \<and> rr_operator_id r \<noteq> []"

record dismiss_request =
  dm_operator_id :: string
  dm_t_viewed :: datetime
  dm_t_dismissed :: datetime
  dm_dwell_focus_ms :: int

definition dismiss_request_ok :: "dismiss_request \<Rightarrow> bool" where
  "dismiss_request_ok r \<longleftrightarrow> dm_operator_id r \<noteq> [] \<and> 0 \<le> dm_dwell_focus_ms r"

section \<open>Statements\<close>

definition get_status :: "driver \<Rightarrow> string \<Rightarrow> cloud_db \<Rightarrow> esc_status option outcome" where
  "get_status D i db = bind_res (bind_id D i) (\<lambda>k. Inr (map_option es_status (dget (cd_escalations db) k)))"

text \<open>The transition's instant and tags come from the row the update has just written.\<close>

fun transition_time :: "transition \<Rightarrow> escalation \<Rightarrow> datetime option" where
  "transition_time T_acknowledged s = es_t_ack s"
| "transition_time T_resolved s = es_t_resolve s"
| "transition_time t s = None"

definition record_transition :: "string \<Rightarrow> transition \<Rightarrow> string \<Rightarrow> cloud_db \<Rightarrow> cloud_db" where
  "record_transition k t op db =
     (case dget (cd_escalations db) k of
        None \<Rightarrow> db
      | Some s \<Rightarrow>
          (case transition_time t s of
             None \<Rightarrow> db
           | Some t_event \<Rightarrow>
               db\<lparr>cd_audit := cd_audit db @
                    [\<lparr>au_escalation_id = k, au_transition = t, au_operator_id = Some op,
                      au_alert_code = es_alert_code s, au_t_event = t_event, au_t_fired = es_t_fired s,
                      au_action_tags = (if t = T_resolved then es_action_tags s else None),
                      au_dwell_focus_ms = None, au_confidence_score = es_confidence_score s,
                      au_confidence_basis = es_confidence_basis s,
                      au_model_versions = es_model_versions s\<rparr>]\<rparr>))"

definition record_silently_dismissed :: "string \<Rightarrow> dismiss_request \<Rightarrow> cloud_db \<Rightarrow> cloud_db" where
  "record_silently_dismissed k r db =
     (case dget (cd_escalations db) k of
        None \<Rightarrow> db
      | Some s \<Rightarrow>
          if es_status s \<noteq> Unacknowledged then db
          else db\<lparr>cd_audit := cd_audit db @
                    [\<lparr>au_escalation_id = k, au_transition = T_dismissed,
                      au_operator_id = Some (dm_operator_id r), au_alert_code = es_alert_code s,
                      au_t_event = dm_t_dismissed r, au_t_fired = es_t_fired s, au_action_tags = None,
                      au_dwell_focus_ms = Some (dm_dwell_focus_ms r),
                      au_confidence_score = es_confidence_score s,
                      au_confidence_basis = es_confidence_basis s,
                      au_model_versions = es_model_versions s\<rparr>]\<rparr>)"

text \<open>\<open>UPDATE \<dots> WHERE escalation_id = :id AND status = 'unacknowledged'\<close> and its audit row.\<close>

definition acknowledge_commit :: "datetime \<Rightarrow> string \<Rightarrow> string \<Rightarrow> cloud_db \<Rightarrow> nat \<times> cloud_db" where
  "acknowledge_commit now k op db =
     (case dget (cd_escalations db) k of
        None \<Rightarrow> (0, db)
      | Some s \<Rightarrow>
          if es_status s \<noteq> Unacknowledged then (0, db)
          else (1, record_transition k T_acknowledged op
                     (db\<lparr>cd_escalations := dset (cd_escalations db) k
                           (s\<lparr>es_status := Acknowledged, es_t_ack := Some now, es_ack_operator := Some op\<rparr>)\<rparr>)))"

definition resolve_commit ::
  "datetime \<Rightarrow> string \<Rightarrow> resolve_request \<Rightarrow> string list \<Rightarrow> cloud_db \<Rightarrow> nat \<times> cloud_db" where
  "resolve_commit now k r keys db =
     (case dget (cd_escalations db) k of
        None \<Rightarrow> (0, db)
      | Some s \<Rightarrow>
          if es_status s \<noteq> Acknowledged then (0, db)
          else (1, record_transition k T_resolved (rr_operator_id r)
                     (db\<lparr>cd_escalations := dset (cd_escalations db) k
                           (s\<lparr>es_status := Resolved, es_t_resolve := Some now,
                              es_resolve_operator := Some (rr_operator_id r),
                              es_outcome := Some (rr_outcome r), es_action_tags := Some keys\<rparr>)\<rparr>)))"

section \<open>Handlers\<close>

definition lifecycle_frame :: "string \<Rightarrow> string \<Rightarrow> jdict" where
  "lifecycle_frame i status =
     [(''event_id'', JStr i), (''event_type'', JStr ''ESCALATION_UPDATED''), (''id'', JStr i),
      (''escalation_id'', JStr i), (''status'', JStr status)]"

definition publish_lifecycle :: "string \<Rightarrow> string \<Rightarrow> cloud \<Rightarrow> cloud" where
  "publish_lifecycle i status S = S\<lparr>cl_hub := publish_alert (lifecycle_frame i status) (cl_hub S)\<rparr>"

text \<open>Commit, then fan out when a row was updated.\<close>

definition commit_transition :: "string \<Rightarrow> string \<Rightarrow> nat \<times> cloud_db \<Rightarrow> cloud \<Rightarrow> cloud" where
  "commit_transition i status r S =
     (case r of (n, db) \<Rightarrow>
        let S' = S\<lparr>cl_db := db\<rparr> in if n = 1 then publish_lifecycle i status S' else S')"

definition acknowledge_after ::
  "driver \<Rightarrow> datetime \<Rightarrow> string \<Rightarrow> string \<Rightarrow> esc_status option \<Rightarrow> cloud \<Rightarrow> string outcome \<times> cloud" where
  "acknowledge_after D now i op status S =
     (case status of
        None \<Rightarrow> (Inl (Http 404 ''escalation not found''), S)
      | Some Unacknowledged \<Rightarrow>
          (case bind_id D i of
             Inl f \<Rightarrow> (Inl f, S)
           | Inr k \<Rightarrow>
               (Inr ''acknowledged'', commit_transition i ''acknowledged'' (acknowledge_commit now k op (cl_db S)) S))
      | Some _ \<Rightarrow> (Inr ''acknowledged'', S))"

definition acknowledge_escalation ::
  "driver \<Rightarrow> datetime \<Rightarrow> string \<Rightarrow> string \<Rightarrow> cloud \<Rightarrow> string outcome \<times> cloud" where
  "acknowledge_escalation D now i op S =
     (if op = [] then (Inl (Http 422 ''VALIDATION_ERROR''), S)
      else (case get_status D i (cl_db S) of
              Inl f \<Rightarrow> (Inl f, S)
            | Inr status \<Rightarrow> acknowledge_after D now i op status S))"

definition tag_keys :: "string list \<Rightarrow> string list option" where
  "tag_keys tags = those (map (dget action_tag_keys) tags)"

definition resolve_after ::
  "driver \<Rightarrow> datetime \<Rightarrow> string \<Rightarrow> resolve_request \<Rightarrow> esc_status option \<Rightarrow> cloud \<Rightarrow> string outcome \<times> cloud" where
  "resolve_after D now i r status S =
     (case status of
        None \<Rightarrow> (Inl (Http 404 ''escalation not found''), S)
      | Some Unacknowledged \<Rightarrow> (Inl (Http 409 ''escalation must be acknowledged before resolve''), S)
      | Some st \<Rightarrow>
          (case tag_keys (rr_action_tags r) of
             None \<Rightarrow> (Inl (Http 422 ''invalid action_tag''), S)
           | Some keys \<Rightarrow>
               if st = Acknowledged then
                 (case bind_id D i of
                    Inl f \<Rightarrow> (Inl f, S)
                  | Inr k \<Rightarrow>
                      (Inr ''resolved'', commit_transition i ''resolved'' (resolve_commit now k r keys (cl_db S)) S))
               else (Inr ''resolved'', S)))"

definition resolve_escalation ::
  "driver \<Rightarrow> datetime \<Rightarrow> string \<Rightarrow> resolve_request \<Rightarrow> cloud \<Rightarrow> string outcome \<times> cloud" where
  "resolve_escalation D now i r S =
     (if \<not> resolve_request_ok r then (Inl (Http 422 ''VALIDATION_ERROR''), S)
      else (case get_status D i (cl_db S) of
              Inl f \<Rightarrow> (Inl f, S)
            | Inr status \<Rightarrow> resolve_after D now i r status S))"

text \<open>\<open>dwell_focus_ms\<close> is a 64-bit column.\<close>

definition dismiss_after ::
  "driver \<Rightarrow> string \<Rightarrow> dismiss_request \<Rightarrow> esc_status option \<Rightarrow> cloud \<Rightarrow> unit outcome \<times> cloud" where
  "dismiss_after D i r status S =
     (case status of
        None \<Rightarrow> (Inl (Http 404 ''escalation not found''), S)
      | Some Unacknowledged \<Rightarrow>
          (case bind_id D i of
             Inl f \<Rightarrow> (Inl f, S)
           | Inr k \<Rightarrow>
               if 2 ^ 63 \<le> dm_dwell_focus_ms r then (Inl (Raised DBAPIError), S)
               else (Inr (), S\<lparr>cl_db := record_silently_dismissed k r (cl_db S)\<rparr>))
      | Some _ \<Rightarrow> (Inr (), S))"

definition silently_dismiss_escalation ::
  "driver \<Rightarrow> string \<Rightarrow> dismiss_request \<Rightarrow> cloud \<Rightarrow> unit outcome \<times> cloud" where
  "silently_dismiss_escalation D i r S =
     (if \<not> dismiss_request_ok r then (Inl (Http 422 ''VALIDATION_ERROR''), S)
      else (case get_status D i (cl_db S) of
              Inl f \<Rightarrow> (Inl f, S)
            | Inr status \<Rightarrow> dismiss_after D i r status S))"

section \<open>The lifecycle\<close>

definition audit_word :: "string \<Rightarrow> audit_row list \<Rightarrow> transition list" where
  "audit_word k rows = map au_transition (filter (\<lambda>a. au_escalation_id a = k) rows)"

fun status_word :: "esc_status \<Rightarrow> transition list" where
  "status_word Unacknowledged = []"
| "status_word Acknowledged = [T_acknowledged]"
| "status_word Resolved = [T_acknowledged, T_resolved]"

text \<open>The audit rows of an escalation spell its history: raised once, then any number of silent
  dismissals, then the transitions its status stands for. Each row belongs to an escalation and
  carries its alert code, and a resolution names an action.\<close>

definition history_ok :: "escalation \<Rightarrow> transition list \<Rightarrow> bool" where
  "history_ok s w \<longleftrightarrow>
     (\<exists>n. w = T_raised # replicate n T_dismissed @ status_word (es_status s)) \<and>
     (es_t_ack s = None \<longleftrightarrow> es_status s = Unacknowledged) \<and>
     (es_t_resolve s = None \<longleftrightarrow> es_status s \<noteq> Resolved) \<and>
     (es_action_tags s = None \<longleftrightarrow> es_status s \<noteq> Resolved)"

definition history_at :: "escalation option \<Rightarrow> transition list \<Rightarrow> bool" where
  "history_at s w = (case s of None \<Rightarrow> w = [] | Some s \<Rightarrow> history_ok s w)"

lemma history_at_simps [simp]: "history_at None w = (w = [])" "history_at (Some s) w = history_ok s w"
  by (simp_all add: history_at_def)

definition lifecycle_ok :: "cloud_db \<Rightarrow> bool" where
  "lifecycle_ok db \<longleftrightarrow>
     (\<forall>k. history_at (dget (cd_escalations db) k) (audit_word k (cd_audit db))) \<and>
     (\<forall>a \<in> set (cd_audit db).
        map_option es_alert_code (dget (cd_escalations db) (au_escalation_id a)) = Some (au_alert_code a) \<and>
        (au_transition a = T_resolved \<longrightarrow> keep_or (au_action_tags a) [] \<noteq> []))"

lemma lifecycleD: "lifecycle_ok db \<Longrightarrow> history_at (dget (cd_escalations db) k) (audit_word k (cd_audit db))"
  by (simp add: lifecycle_ok_def)

lemma lifecycle_init: "lifecycle_ok init_cloud_db"
  by (simp add: lifecycle_ok_def init_cloud_db_def audit_word_def)

lemma lifecycle_cong:
  "cd_escalations db' = cd_escalations db \<Longrightarrow> cd_audit db' = cd_audit db \<Longrightarrow> lifecycle_ok db' = lifecycle_ok db"
  by (simp add: lifecycle_ok_def audit_word_def)

lemma audit_word_append [simp]:
  "audit_word k (rows @ [a]) =
     (if au_escalation_id a = k then audit_word k rows @ [au_transition a] else audit_word k rows)"
  by (simp add: audit_word_def)

text \<open>One row rewritten and one audit row appended.\<close>

lemma lifecycle_move:
  assumes "lifecycle_ok db" "au_escalation_id a = k"
    "history_ok s' (audit_word k (cd_audit db) @ [au_transition a])" "es_alert_code s' = au_alert_code a"
    "\<And>s. dget (cd_escalations db) k = Some s \<Longrightarrow> es_alert_code s = es_alert_code s'"
    "au_transition a = T_resolved \<longrightarrow> keep_or (au_action_tags a) [] \<noteq> []"
  shows "lifecycle_ok (db\<lparr>cd_escalations := dset (cd_escalations db) k s', cd_audit := cd_audit db @ [a]\<rparr>)"
  using assms by (fastforce simp: lifecycle_ok_def)

lemma lifecycle_raise:
  assumes "lifecycle_ok db" "\<not> dhas (cd_escalations db) k"
    "es_status s = Unacknowledged" "es_t_ack s = None" "es_t_resolve s = None" "es_action_tags s = None"
  shows "lifecycle_ok (record_raised k s (db\<lparr>cd_escalations := dset (cd_escalations db) k s\<rparr>))"
proof -
  have "audit_word k (cd_audit db) = []"
    using lifecycleD [OF assms(1), of k] assms(2) by (simp add: dhas_iff)
  moreover have "history_ok s ([] @ [T_raised])"
    using assms(3-6) by (simp add: history_ok_def exI [of _ 0])
  ultimately show ?thesis
    unfolding record_raised_def using lifecycle_move [OF assms(1), of _ k s] assms(2) by (simp add: dhas_iff)
qed

lemma lifecycle_acknowledge: "lifecycle_ok db \<Longrightarrow> lifecycle_ok (snd (acknowledge_commit now k op db))"
proof (cases "dget (cd_escalations db) k")
  case (Some s)
  assume ok: "lifecycle_ok db"
  with Some have h: "history_ok s (audit_word k (cd_audit db))"
    using lifecycleD [of db k] by simp
  show ?thesis
  proof (cases "es_status s = Unacknowledged")
    case True
    with h have "history_ok (s\<lparr>es_status := Acknowledged, es_t_ack := Some now, es_ack_operator := Some op\<rparr>)
        (audit_word k (cd_audit db) @ [T_acknowledged])"
      by (auto simp: history_ok_def)
    with Some True ok show ?thesis
      by (auto simp: acknowledge_commit_def record_transition_def intro!: lifecycle_move)
  qed (simp add: acknowledge_commit_def Some ok)
qed (simp add: acknowledge_commit_def)

lemma lifecycle_resolve:
  "lifecycle_ok db \<Longrightarrow> keys \<noteq> [] \<Longrightarrow> lifecycle_ok (snd (resolve_commit now k r keys db))"
proof (cases "dget (cd_escalations db) k")
  case (Some s)
  assume ok: "lifecycle_ok db" and keys: "keys \<noteq> []"
  with Some have h: "history_ok s (audit_word k (cd_audit db))"
    using lifecycleD [of db k] by simp
  show ?thesis
  proof (cases "es_status s = Acknowledged")
    case True
    with h have "history_ok (s\<lparr>es_status := Resolved, es_t_resolve := Some now,
          es_resolve_operator := Some (rr_operator_id r), es_outcome := Some (rr_outcome r),
          es_action_tags := Some keys\<rparr>) (audit_word k (cd_audit db) @ [T_resolved])"
      by (auto simp: history_ok_def)
    with Some True ok keys show ?thesis
      by (auto simp: resolve_commit_def record_transition_def intro!: lifecycle_move)
  qed (simp add: resolve_commit_def Some ok)
qed (simp add: resolve_commit_def)

lemma lifecycle_dismiss: "lifecycle_ok db \<Longrightarrow> lifecycle_ok (record_silently_dismissed k r db)"
proof (cases "dget (cd_escalations db) k")
  case (Some s)
  assume ok: "lifecycle_ok db"
  with Some have h: "history_ok s (audit_word k (cd_audit db))"
    using lifecycleD [of db k] by simp
  show ?thesis
  proof (cases "es_status s = Unacknowledged")
    case True
    with h obtain n where "audit_word k (cd_audit db) = T_raised # replicate n T_dismissed"
      by (auto simp: history_ok_def)
    with h True have "history_ok s (audit_word k (cd_audit db) @ [T_dismissed])"
      by (auto simp: history_ok_def replicate_append_same intro!: exI [of _ "Suc n"])
    with ok Some True show ?thesis
      by (simp add: record_silently_dismissed_def lifecycle_ok_def)
  qed (simp add: record_silently_dismissed_def Some ok)
qed (simp add: record_silently_dismissed_def)

lemma commit_transition_db [simp]: "cl_db (commit_transition i st r S) = snd r"
  by (simp add: commit_transition_def publish_lifecycle_def Let_def split: prod.split)

lemma tag_keys_length: "tag_keys tags = Some keys \<Longrightarrow> length keys = length tags"
proof -
  have "those xs = Some ys \<Longrightarrow> length ys = length xs" for xs :: "string option list" and ys
    by (induction xs arbitrary: ys) (auto split: option.splits)
  then show "tag_keys tags = Some keys \<Longrightarrow> length keys = length tags" by (fastforce simp: tag_keys_def)
qed

lemma lifecycle_handlers:
  assumes "lifecycle_ok (cl_db S)" "resolve_request_ok r"
  shows "lifecycle_ok (cl_db (snd (acknowledge_after D now i op st S)))"
    "lifecycle_ok (cl_db (snd (resolve_after D now i r st S)))"
    "lifecycle_ok (cl_db (snd (dismiss_after D i m st S)))"
  using assms tag_keys_length [of "rr_action_tags r"]
  by (auto simp: acknowledge_after_def resolve_after_def dismiss_after_def lifecycle_acknowledge
      lifecycle_dismiss resolve_request_ok_def split: option.splits esc_status.splits sum.splits
      intro!: lifecycle_resolve)

end
