(* ===== verification/Cloud_Ingest_Facts.thy ===== *)
theory Cloud_Ingest_Facts
  imports Cloud_Escalations
begin

text \<open>
  What a batch does, against a description that does not mention the handler: the events
  whose key is new are stored and, when their type is an alert type and the kill-switch table
  does not withhold them, shown to every connected client; the others are reported as
  duplicates. The invariants of the tables are preserved.
\<close>

section \<open>The description\<close>

definition stored_key :: "envelope \<Rightarrow> datetime \<Rightarrow> string \<times> string \<times> string \<times> int" where
  "stored_key ev ts = cloud_key (event_row [] ev ts)"

definition stored_row :: "envelope \<times> datetime \<Rightarrow> cloud_event" where
  "stored_row = (\<lambda>(ev, ts). event_row (map lower_char (ev_id ev)) ev ts)"

fun split_fresh ::
  "(string \<times> string \<times> string \<times> int) set \<Rightarrow> (envelope \<times> datetime) list \<Rightarrow>
   (envelope \<times> datetime) list \<times> envelope list" where
  "split_fresh seen [] = ([], [])"
| "split_fresh seen ((ev, ts) # xs) =
     (if stored_key ev ts \<in> seen then map_prod id (Cons ev) (split_fresh seen xs)
      else map_prod (Cons (ev, ts)) id (split_fresh (insert (stored_key ev ts) seen) xs))"

text \<open>The alert events that are not withheld.\<close>

definition shown :: "(json \<Rightarrow> string) \<Rightarrow> (string, class_row) dict \<Rightarrow> envelope \<times> datetime \<Rightarrow> bool" where
  "shown tx rows = (\<lambda>(ev, ts).
     event_type_value (ev_type ev) \<in> set alert_event_types \<and>
     \<not> killed tx rows (event_type_value (ev_type ev)) (ev_payload ev) ts)"

definition filter_current :: "(string, class_row) dict \<Rightarrow> alert_filter \<Rightarrow> bool" where
  "filter_current rows c \<longleftrightarrow> dwf rows \<and> (ca_loaded_at c \<noteq> None \<longrightarrow> ca_value c = disabled_classes rows)"

section \<open>Steps\<close>

lemma stored_key_row [simp]: "cloud_key (event_row k ev ts) = stored_key ev ts"
  by (simp add: stored_key_def event_row_def cloud_key_def)

lemma ce_id_row [simp]: "ce_id (event_row k ev ts) = k"
  by (simp add: event_row_def)

lemma is_filtered_current:
  assumes "filter_current rows c"
  shows "fst (is_filtered tx now rows et p t c) = killed tx rows et p t"
    "filter_current rows (snd (is_filtered tx now rows et p t c))"
proof -
  show "fst (is_filtered tx now rows et p t c) = killed tx rows et p t"
    by (rule is_filtered_killed)
      (use assms in \<open>auto simp: filter_current_def cache_fresh_def split: option.splits\<close>)
  show "filter_current rows (snd (is_filtered tx now rows et p t c))"
    using assms by (auto simp: filter_current_def is_filtered_def is_filtered_loaded_def filter_finish_def Let_def)
qed

lemma fan_out_simps [simp]:
  "ia_db (fan_out E ev ts a) = ia_db a" "ia_accepted (fan_out E ev ts a) = ia_accepted a"
  "ia_duplicates (fan_out E ev ts a) = ia_duplicates a"
  by (simp_all add: fan_out_def split: prod.split)

lemma fan_out_current:
  assumes "filter_current (cd_classes (ia_db a)) (ia_filter a)"
  shows "ia_hub (fan_out E ev ts a) =
      (if shown (ig_text E) (cd_classes (ia_db a)) (ev, ts) then publish_alert (alert_frame ev) (ia_hub a)
       else ia_hub a)"
    "filter_current (cd_classes (ia_db a)) (ia_filter (fan_out E ev ts a))"
  using assms is_filtered_current [OF assms, of "ig_text E" "ig_mono E (ia_accepted a)"
      "event_type_value (ev_type ev)" "ev_payload ev" ts]
  by (auto simp: fan_out_def shown_def split: prod.split)

lemma raise_escalation_frame:
  assumes "raise_escalation D k ev ts db = Inr db'"
  shows "cd_events db' = cd_events db" "cd_classes db' = cd_classes db"
  using assms by (auto simp: raise_escalation_def res_iff record_raised_def split: if_splits)

lemma side_rows_frame:
  assumes "side_rows E k ev ts db = Inr db'"
  shows "cd_events db' = cd_events db" "cd_classes db' = cd_classes db"
  using assms
  by (auto simp: side_rows_def upsert_heartbeat_def dest: raise_escalation_frame split: if_splits)

lemma store_event_Inr:
  assumes "driver_ok D" "validate_event_id (ev_id ev)" "store_event D ev ts db = Inr (k, n, db')"
  shows "k = map lower_char (ev_id ev)" "cd_classes db' = cd_classes db"
    "if stored_key ev ts \<in> cloud_key ` set (cd_events db) then n = 0 \<and> cd_events db' = cd_events db
     else n = 1 \<and> cd_events db' = cd_events db @ [stored_row (ev, ts)]"
  using assms
  by (auto simp: store_event_def bind_id_valid res_iff stored_row_def split: if_splits)

lemma ingest_one_step:
  assumes "ingest_one E ev a = Inr a'" "driver_ok (ig_driver E)" "validate_event_id (ev_id ev)"
    "validate_schema_version (ev_schema_version ev)"
    "filter_current (cd_classes (ia_db a)) (ia_filter a)"
  obtains ts where "parse_instant (ev_timestamp ev) = Inr ts"
    "cd_classes (ia_db a') = cd_classes (ia_db a)"
    "filter_current (cd_classes (ia_db a')) (ia_filter a')"
    "if stored_key ev ts \<in> cloud_key ` set (cd_events (ia_db a))
     then ia_accepted a' = ia_accepted a \<and> ia_duplicates a' = ia_duplicates a @ [ev_id ev] \<and>
       cd_events (ia_db a') = cd_events (ia_db a) \<and> ia_hub a' = ia_hub a
     else ia_accepted a' = Suc (ia_accepted a) \<and> ia_duplicates a' = ia_duplicates a \<and>
       cd_events (ia_db a') = cd_events (ia_db a) @ [stored_row (ev, ts)] \<and>
       ia_hub a' = (if shown (ig_text E) (cd_classes (ia_db a)) (ev, ts)
                    then publish_alert (alert_frame ev) (ia_hub a) else ia_hub a)"
proof -
  have v: "ev_schema_version ev \<in> set supported_schema_versions"
    using assms(4) by (simp add: validate_schema_version_def)
  from assms(1) v obtain ts k n db where ts: "parse_instant (ev_timestamp ev) = Inr ts"
    and st: "store_event (ig_driver E) ev ts (ia_db a) = Inr (k, n, db)"
    and rest: "(if n = 0 then Inr (a\<lparr>ia_db := db, ia_duplicates := ia_duplicates a @ [ev_id ev]\<rparr>)
        else bind_res (side_rows E k ev ts db) (\<lambda>db'.
          Inr (fan_out E ev ts (a\<lparr>ia_db := db', ia_accepted := ia_accepted a + 1\<rparr>)))) = Inr a'"
    by (auto simp: ingest_one_def res_iff)
  note stored = store_event_Inr [OF assms(2,3) st]
  show ?thesis
  proof (cases "n = 0")
    case True
    with rest have "a' = a\<lparr>ia_db := db, ia_duplicates := ia_duplicates a @ [ev_id ev]\<rparr>" by simp
    with True stored assms(5) show ?thesis by (intro that [OF ts]) (auto split: if_splits)
  next
    case False
    with rest obtain db' where side: "side_rows E k ev ts db = Inr db'"
      and a': "a' = fan_out E ev ts (a\<lparr>ia_db := db', ia_accepted := ia_accepted a + 1\<rparr>)"
      by (auto simp: res_iff)
    let ?b = "a\<lparr>ia_db := db', ia_accepted := ia_accepted a + 1\<rparr>"
    have cls: "cd_classes db' = cd_classes (ia_db a)"
      using side_rows_frame(2) [OF side] stored(2) by simp
    then have cur: "filter_current (cd_classes (ia_db ?b)) (ia_filter ?b)"
      using assms(5) by simp
    show ?thesis
      using False stored(3) side_rows_frame(1) [OF side] fan_out_current [OF cur, of E ev ts] cls
      by (intro that [OF ts]) (auto simp: a' split: if_splits)
  qed
qed

lemma raise_escalation_dhas:
  assumes "raise_escalation D k ev ts db = Inr db'"
    "jtruthy (dget_or (ev_payload ev) ''alert_id'' JNull)" "jtruthy (dget_or (ev_payload ev) ''alert_code'' JNull)"
  shows "dhas (cd_escalations db') k"
proof -
  from assms obtain s where "db' = (if dhas (cd_escalations db) k then db
      else record_raised k s (db\<lparr>cd_escalations := dset (cd_escalations db) k s\<rparr>))"
    by (simp add: raise_escalation_def res_iff) blast
  then show ?thesis by (cases "dhas (cd_escalations db) k") (simp_all add: record_raised_def dhas_iff)
qed

section \<open>The batch\<close>

text \<open>The description, and the state after the loop that must match it.\<close>

definition matches_batch ::
  "ingest_env \<Rightarrow> ingest_acc \<Rightarrow> (envelope \<times> datetime) list \<times> envelope list \<Rightarrow> ingest_acc \<Rightarrow> bool" where
  "matches_batch E a r a' \<longleftrightarrow>
     (case r of (new, old) \<Rightarrow>
        ia_accepted a' = ia_accepted a + length new \<and>
        ia_duplicates a' = ia_duplicates a @ map ev_id old \<and>
        cd_events (ia_db a') = cd_events (ia_db a) @ map stored_row new \<and>
        ia_hub a' = publish_all (map (alert_frame \<circ> fst)
          (filter (shown (ig_text E) (cd_classes (ia_db a))) new)) (ia_hub a))"

lemma ingest_loop_spec:
  assumes "ingest_loop E evs a = (None, a')" "driver_ok (ig_driver E)"
    "\<forall>ev \<in> set evs. validate_event_id (ev_id ev) \<and> validate_schema_version (ev_schema_version ev)"
    "filter_current (cd_classes (ia_db a)) (ia_filter a)"
  shows "\<exists>tss. rows_of (\<lambda>ev. parse_instant (ev_timestamp ev)) evs = Inr tss \<and>
    matches_batch E a (split_fresh (cloud_key ` set (cd_events (ia_db a))) (zip evs tss)) a' \<and>
    cd_classes (ia_db a') = cd_classes (ia_db a) \<and>
    filter_current (cd_classes (ia_db a')) (ia_filter a')"
  using assms
proof (induction evs arbitrary: a)
  case Nil
  then show ?case by (simp add: matches_batch_def)
next
  case (Cons ev evs)
  from Cons.prems(1) obtain b where b: "ingest_one E ev a = Inr b"
    and rest: "ingest_loop E evs b = (None, a')"
    by (auto split: sum.splits)
  obtain ts where ts: "parse_instant (ev_timestamp ev) = Inr ts"
    and cls: "cd_classes (ia_db b) = cd_classes (ia_db a)"
    and cur: "filter_current (cd_classes (ia_db b)) (ia_filter b)"
    and step: "if stored_key ev ts \<in> cloud_key ` set (cd_events (ia_db a))
     then ia_accepted b = ia_accepted a \<and> ia_duplicates b = ia_duplicates a @ [ev_id ev] \<and>
       cd_events (ia_db b) = cd_events (ia_db a) \<and> ia_hub b = ia_hub a
     else ia_accepted b = Suc (ia_accepted a) \<and> ia_duplicates b = ia_duplicates a \<and>
       cd_events (ia_db b) = cd_events (ia_db a) @ [stored_row (ev, ts)] \<and>
       ia_hub b = (if shown (ig_text E) (cd_classes (ia_db a)) (ev, ts)
                    then publish_alert (alert_frame ev) (ia_hub a) else ia_hub a)"
    using ingest_one_step [OF b Cons.prems(2) _ _ Cons.prems(4)] Cons.prems(3) by auto
  obtain tss where tss: "rows_of (\<lambda>ev. parse_instant (ev_timestamp ev)) evs = Inr tss"
    and m: "matches_batch E b (split_fresh (cloud_key ` set (cd_events (ia_db b))) (zip evs tss)) a'"
    and cls': "cd_classes (ia_db a') = cd_classes (ia_db b)"
    and cur': "filter_current (cd_classes (ia_db a')) (ia_filter a')"
    using Cons.IH [OF rest Cons.prems(2) _ cur] Cons.prems(3) by auto
  have "rows_of (\<lambda>ev. parse_instant (ev_timestamp ev)) (ev # evs) = Inr (ts # tss)"
    using ts tss by simp
  moreover have "matches_batch E a
      (split_fresh (cloud_key ` set (cd_events (ia_db a))) (zip (ev # evs) (ts # tss))) a'"
    using step m cls
    by (cases "split_fresh (cloud_key ` set (cd_events (ia_db b))) (zip evs tss)")
      (auto simp: matches_batch_def stored_row_def split: if_splits)
  ultimately show ?case using cls cls' cur' by (intro exI [of _ "ts # tss"]) simp
qed

section \<open>Invariants\<close>

definition cloud_inv :: "cloud_db \<Rightarrow> bool" where
  "cloud_inv db \<longleftrightarrow> events_keyed db \<and> lifecycle_ok db"

lemma new_escalation_start:
  assumes "new_escalation D k ev ts = Inr s"
  shows "es_status s = Unacknowledged" "es_t_ack s = None" "es_t_resolve s = None"
    "es_action_tags s = None"
  using assms by (auto simp: new_escalation_def Let_def res_iff simp del: bind_opt_Inr)

lemma raise_escalation_lifecycle:
  assumes "raise_escalation D k ev ts db = Inr db'" "lifecycle_ok db"
  shows "lifecycle_ok db'"
proof (cases "db' = db")
  case False
  with assms(1) obtain s where "new_escalation D k ev ts = Inr s" "\<not> dhas (cd_escalations db) k"
    "db' = record_raised k s (db\<lparr>cd_escalations := dset (cd_escalations db) k s\<rparr>)"
    by (auto simp: raise_escalation_def res_iff split: if_splits)
  with assms(2) show ?thesis by (simp add: lifecycle_raise new_escalation_start)
qed (simp add: assms(2))

lemma side_rows_lifecycle:
  assumes "side_rows E k ev ts db = Inr db'" "lifecycle_ok db"
  shows "lifecycle_ok db'"
proof -
  have "lifecycle_ok (upsert_heartbeat tx now p db)" for tx now p
    using assms(2) by (simp add: upsert_heartbeat_def lifecycle_ok_def)
  with assms show ?thesis
    by (auto simp: side_rows_def intro: raise_escalation_lifecycle split: if_splits)
qed

lemma store_event_inv:
  assumes "store_event D ev ts db = Inr (k, n, db')" "cloud_inv db"
  shows "cloud_inv db'"
proof -
  let ?j = "\<lparr>cj_vehicle_id = ev_vehicle_id ev, cj_trip_number = trip_of (ev_journey_id ev),
      cj_route_name = None, cj_start_time = ts, cj_end_time = None\<rparr>"
  from assms(1) have ins: "insert_cloud_event (event_row k ev ts)
      (ensure_journey (ev_journey_id ev) ?j db) = Inr (n, db')"
    by (auto simp: store_event_def res_iff simp del: insert_cloud_event_Inr)
  have "events_keyed (ensure_journey (ev_journey_id ev) ?j db)"
    using assms(2) by (simp add: cloud_inv_def events_keyed_def)
  then have "events_keyed db'" by (rule events_keyed_insert [OF _ ins])
  moreover have "lifecycle_ok db'"
    using ins assms(2) by (auto simp: cloud_inv_def lifecycle_ok_def res_iff split: if_splits)
  ultimately show ?thesis by (simp add: cloud_inv_def)
qed

lemma ingest_one_inv:
  assumes "ingest_one E ev a = Inr a'" "cloud_inv (ia_db a)"
  shows "cloud_inv (ia_db a')"
proof (cases "ev_schema_version ev \<in> set supported_schema_versions")
  case True
  with assms(1) obtain ts k n db where st: "store_event (ig_driver E) ev ts (ia_db a) = Inr (k, n, db)"
    and rest: "(if n = 0 then Inr (a\<lparr>ia_db := db, ia_duplicates := ia_duplicates a @ [ev_id ev]\<rparr>)
        else bind_res (side_rows E k ev ts db) (\<lambda>db'.
          Inr (fan_out E ev ts (a\<lparr>ia_db := db', ia_accepted := ia_accepted a + 1\<rparr>)))) = Inr a'"
    by (auto simp: ingest_one_def res_iff)
  have inv: "cloud_inv db" by (rule store_event_inv [OF st assms(2)])
  have "cloud_inv db'" if "side_rows E k ev ts db = Inr db'" for db'
    using side_rows_lifecycle [OF that] side_rows_frame(1) [OF that] inv
    by (simp add: cloud_inv_def events_keyed_def)
  with rest inv show ?thesis by (auto simp: res_iff split: if_splits)
qed (use assms in \<open>simp add: ingest_one_def\<close>)

lemma ingest_loop_inv: "ingest_loop E evs a = (r, a') \<Longrightarrow> cloud_inv (ia_db a) \<Longrightarrow> cloud_inv (ia_db a')"
  by (induction evs arbitrary: a) (auto split: sum.splits dest: ingest_one_inv)

lemma ingest_events_inv: "cloud_inv (cl_db S) \<Longrightarrow> cloud_inv (cl_db (snd (ingest_events E evs S)))"
  by (auto simp: ingest_events_def split: prod.splits option.splits dest: ingest_loop_inv)

section \<open>A batch again\<close>

lemma split_fresh_keys:
  "(ev, ts) \<in> set xs \<Longrightarrow>
     stored_key ev ts \<in> seen \<union> (\<lambda>(ev, ts). stored_key ev ts) ` set (fst (split_fresh seen xs))"
proof (induction xs arbitrary: seen)
  case (Cons x xs)
  obtain ev' ts' where x: "x = (ev', ts')" by fastforce
  show ?case
  proof (cases "(ev, ts) = x")
    case False
    with Cons.prems have "(ev, ts) \<in> set xs" by simp
    from Cons.IH [OF this, of seen] Cons.IH [OF this, of "insert (stored_key ev' ts') seen"] show ?thesis
      by (auto simp: x)
  qed (auto simp: x)
qed simp

lemma stored_row_key: "cloud_key (stored_row x) = (case x of (ev, ts) \<Rightarrow> stored_key ev ts)"
  by (simp add: stored_row_def split: prod.split)

text \<open>Events whose keys are all stored are duplicates and leave the event table as it is.\<close>

lemma ingest_known:
  assumes "driver_ok (ig_driver E)"
    "\<forall>ev \<in> set evs. validate_event_id (ev_id ev) \<and> validate_schema_version (ev_schema_version ev)"
    "rows_of (\<lambda>ev. parse_instant (ev_timestamp ev)) evs = Inr tss"
    "\<forall>(ev, ts) \<in> set (zip evs tss). stored_key ev ts \<in> cloud_key ` set (cd_events (ia_db a))"
  shows "\<exists>a'. ingest_loop E evs a = (None, a') \<and> ia_accepted a' = ia_accepted a \<and>
    ia_duplicates a' = ia_duplicates a @ map ev_id evs \<and> ia_hub a' = ia_hub a \<and>
    cd_events (ia_db a') = cd_events (ia_db a) \<and> cd_escalations (ia_db a') = cd_escalations (ia_db a) \<and>
    cd_audit (ia_db a') = cd_audit (ia_db a)"
  using assms
proof (induction evs arbitrary: a tss)
  case (Cons ev evs)
  then obtain ts tss' where tss: "tss = ts # tss'" and ts: "parse_instant (ev_timestamp ev) = Inr ts"
    and rest: "rows_of (\<lambda>ev. parse_instant (ev_timestamp ev)) evs = Inr tss'"
    by (auto simp: list_all2_Cons1 res_iff)
  let ?j = "\<lparr>cj_vehicle_id = ev_vehicle_id ev, cj_trip_number = trip_of (ev_journey_id ev),
      cj_route_name = None, cj_start_time = ts, cj_end_time = None\<rparr>"
  let ?b = "a\<lparr>ia_db := ensure_journey (ev_journey_id ev) ?j (ia_db a),
      ia_duplicates := ia_duplicates a @ [ev_id ev]\<rparr>"
  have "ev_schema_version ev \<in> set supported_schema_versions"
    using Cons.prems(2) by (simp add: validate_schema_version_def)
  then have one: "ingest_one E ev a = Inr ?b"
    using Cons.prems ts tss
    by (simp add: ingest_one_def store_event_def bind_id_valid insert_cloud_event_def)
  obtain a' where "ingest_loop E evs ?b = (None, a')" "ia_accepted a' = ia_accepted ?b"
    "ia_duplicates a' = ia_duplicates ?b @ map ev_id evs" "ia_hub a' = ia_hub ?b"
    "cd_events (ia_db a') = cd_events (ia_db ?b)" "cd_escalations (ia_db a') = cd_escalations (ia_db ?b)"
    "cd_audit (ia_db a') = cd_audit (ia_db ?b)"
    using Cons.IH [OF Cons.prems(1) _ rest, of ?b] Cons.prems(2,4) tss by auto
  with one show ?case by simp
qed simp

end
