(* ===== verification/Cloud_Access.thy ===== *)
theory Cloud_Access
  imports Cloud_Ingest
begin

text \<open>
  Access to \<open>cloud-backend\<close>: tokens and the liveness gate (\<open>api/auth.py\<close>), login
  (\<open>routes/auth.py\<close>), user management (\<open>api/users.py\<close>, \<open>routes/users.py\<close>) and operator
  preferences (\<open>routes/preferences.py\<close>). PyJWT and bcrypt are parameters. A password is its
  list of code points; its UTF-8 bytes are computed, since the length rules count both.
  Generated audit ids and the two timestamps of a user row are not modelled.
\<close>

section \<open>Passwords\<close>

fun utf8_char :: "nat \<Rightarrow> nat list" where
  "utf8_char c =
     (if c < 128 then [c]
      else if c < 2048 then [192 + c div 64, 128 + c mod 64]
      else if c < 65536 then [224 + c div 4096, 128 + c div 64 mod 64, 128 + c mod 64]
      else [240 + c div 262144, 128 + c div 4096 mod 64, 128 + c div 64 mod 64, 128 + c mod 64])"

definition utf8 :: "nat list \<Rightarrow> nat list" where
  "utf8 p = concat (map utf8_char p)"

record bcrypt =
  hashpw :: "nat list \<Rightarrow> nat list \<Rightarrow> nat list" \<comment> \<open>salt, with the cost, and password bytes\<close>
  checkpw :: "nat list \<Rightarrow> nat list \<Rightarrow> bool"

text \<open>The library's promise, idealised: a hash verifies the bytes it was made from and no others.\<close>

definition bcrypt_ok :: "bcrypt \<Rightarrow> bool" where
  "bcrypt_ok B \<longleftrightarrow>
     (\<forall>salt p q. length p \<le> 72 \<longrightarrow> length q \<le> 72 \<longrightarrow> checkpw B q (hashpw B salt p) = (q = p))"

definition hash_password :: "bcrypt \<Rightarrow> nat list \<Rightarrow> nat list \<Rightarrow> nat list" where
  "hash_password B salt password = hashpw B salt (take 72 (utf8 password))"

definition verify_password :: "bcrypt \<Rightarrow> nat list \<Rightarrow> nat list \<Rightarrow> bool" where
  "verify_password B password password_hash = checkpw B (take 72 (utf8 password)) password_hash"

definition max_password_bytes :: nat where
  "max_password_bytes = 72"

definition password_ok :: "nat list \<Rightarrow> bool" where
  "password_ok p \<longleftrightarrow> 12 \<le> length p \<and> length (utf8 p) \<le> max_password_bytes"

section \<open>Tokens\<close>

record jwt =
  jwt_encode :: "jdict \<Rightarrow> string \<Rightarrow> string \<Rightarrow> string" \<comment> \<open>claims, key, algorithm\<close>
  jwt_decode :: "string \<Rightarrow> string \<Rightarrow> string list \<Rightarrow> string \<Rightarrow> string list \<Rightarrow> datetime \<Rightarrow> jdict option"
    \<comment> \<open>token, key, algorithms, issuer, required claims, now\<close>

definition unix_epoch :: datetime where
  "unix_epoch = \<lparr>yr = 1970, mo = 1, dy = 1, hh = 0, mi = 0, sc = 0, us = 0\<rparr>"

definition since_epoch :: "datetime \<Rightarrow> int" where
  "since_epoch t = dt_micros t - dt_micros unix_epoch"

text \<open>A token made of these claims decodes to them under its own key and algorithm, when the issuer
  is the one asked for, every required claim is present, it was not issued in the future and it
  has not expired.\<close>

definition jwt_ok :: "jwt \<Rightarrow> jdict \<Rightarrow> bool" where
  "jwt_ok J c \<longleftrightarrow>
     (\<forall>key alg. jwt_encode J c key alg \<noteq> []) \<and>
     (\<forall>key alg iss req now i x.
        dget c ''iss'' = Some (JStr iss) \<longrightarrow> (\<forall>k \<in> set req. dhas c k) \<longrightarrow>
        dget c ''iat'' = Some (JInt i) \<longrightarrow> i * 1000000 \<le> since_epoch now \<longrightarrow>
        dget c ''exp'' = Some (JInt x) \<longrightarrow> since_epoch now < x * 1000000 \<longrightarrow>
        jwt_decode J (jwt_encode J c key alg) key [alg] iss req now = Some c)"

fun role_text :: "role \<Rightarrow> string" where
  "role_text Admin = ''admin''"
| "role_text Operator = ''operator''"

record current_user =
  cu_user_id :: string
  cu_username :: string
  cu_role :: string

definition token_claims :: "cloud_settings \<Rightarrow> datetime \<Rightarrow> string \<Rightarrow> string \<Rightarrow> string \<Rightarrow> jdict" where
  "token_claims F now user_id username rol =
     [(''sub'', JStr user_id), (''username'', JStr username), (''role'', JStr rol),
      (''iss'', JStr (cf_jwt_issuer F)), (''iat'', JInt (since_epoch now div 1000000)),
      (''exp'', JInt ((since_epoch now + cf_jwt_ttl_minutes F * 60000000) div 1000000))]"

definition create_access_token ::
  "jwt \<Rightarrow> cloud_settings \<Rightarrow> datetime \<Rightarrow> string \<Rightarrow> string \<Rightarrow> string \<Rightarrow> string outcome" where
  "create_access_token J F now user_id username rol =
     (if cf_jwt_secret F = [] then Inl (Raised ValueError)
      else Inr (jwt_encode J (token_claims F now user_id username rol) (cf_jwt_secret F) (cf_jwt_algorithm F)))"

definition unauthorized :: failure where
  "unauthorized = Http 401 ''UNAUTHORIZED''"

definition required_claims :: "string list" where
  "required_claims = [''exp'', ''sub'', ''role'']"

definition verify_token ::
  "jwt \<Rightarrow> (json \<Rightarrow> string) \<Rightarrow> cloud_settings \<Rightarrow> datetime \<Rightarrow> string option \<Rightarrow> current_user outcome" where
  "verify_token J tx F now raw =
     (if cf_jwt_secret F = [] \<or> \<not> truthy raw then Inl unauthorized
      else (case jwt_decode J (keep_or raw []) (cf_jwt_secret F) [cf_jwt_algorithm F] (cf_jwt_issuer F)
                   required_claims now of
              None \<Rightarrow> Inl unauthorized
            | Some p \<Rightarrow>
                bind_res (of_opt (Raised KeyError) (dget p ''sub'')) (\<lambda>sub.
                bind_res (of_opt (Raised KeyError) (dget p ''role'')) (\<lambda>rol.
                  Inr \<lparr>cu_user_id = py_str tx sub,
                       cu_username = (case dget p ''username'' of None \<Rightarrow> []
                         | Some u \<Rightarrow> if jtruthy u then py_str tx u else []),
                       cu_role = py_str tx rol\<rparr>))))"

text \<open>The liveness gate: an unbindable, unknown or inactive subject is refused alike.\<close>

definition assert_user_active :: "driver \<Rightarrow> cloud_db \<Rightarrow> current_user \<Rightarrow> current_user outcome" where
  "assert_user_active D db u =
     (case bind_uuid D (cu_user_id u) of
        None \<Rightarrow> Inl unauthorized
      | Some k \<Rightarrow>
          (case dget (cd_users db) k of
             None \<Rightarrow> Inl unauthorized
           | Some r \<Rightarrow> if us_is_active r then Inr u else Inl unauthorized))"

text \<open>Both extractors, of the header and of the query string, are this.\<close>

definition get_current_user ::
  "jwt \<Rightarrow> (json \<Rightarrow> string) \<Rightarrow> driver \<Rightarrow> cloud_settings \<Rightarrow> datetime \<Rightarrow> string option \<Rightarrow> cloud_db \<Rightarrow>
   current_user outcome" where
  "get_current_user J tx D F now raw db = bind_res (verify_token J tx F now raw) (assert_user_active D db)"

definition require_role :: "string list \<Rightarrow> current_user \<Rightarrow> current_user outcome" where
  "require_role roles u = (if cu_role u \<in> set roles then Inr u else Inl (Http 403 ''FORBIDDEN''))"

section \<open>Login\<close>

definition find_username :: "cloud_db \<Rightarrow> string \<Rightarrow> (string \<times> user_row) option" where
  "find_username db n = List.find (\<lambda>(k, r). us_username r = n) (cd_users db)"

definition placeholder :: "nat list" where
  "placeholder = map of_char ''non-existent-user-placeholder''"

definition login ::
  "bcrypt \<Rightarrow> nat list \<Rightarrow> jwt \<Rightarrow> cloud_settings \<Rightarrow> datetime \<Rightarrow> string \<Rightarrow> nat list \<Rightarrow> cloud_db \<Rightarrow> string outcome" where
  "login B dummy_salt J F now username password db =
     (if username = [] \<or> password = [] then Inl (Http 422 ''VALIDATION_ERROR'')
      else (let row = find_username db username;
                candidate_hash = (case row of None \<Rightarrow> hash_password B dummy_salt placeholder
                                  | Some (k, r) \<Rightarrow> us_password_hash r);
                is_ok = verify_password B password candidate_hash
            in case row of
                 None \<Rightarrow> Inl unauthorized
               | Some (k, r) \<Rightarrow>
                   if \<not> is_ok \<or> \<not> us_is_active r then Inl unauthorized
                   else create_access_token J F now k (us_username r) (role_text (us_role r))))"

text \<open>The seeding helper \<open>create_user\<close>, which writes no audit row.\<close>

definition username_free :: "cloud_db \<Rightarrow> string \<Rightarrow> bool" where
  "username_free db n \<longleftrightarrow> find_username db n = None"

definition insert_user :: "string \<Rightarrow> user_row \<Rightarrow> cloud_db \<Rightarrow> cloud_db outcome" where
  "insert_user k r db =
     (if dhas (cd_users db) k \<or> \<not> username_free db (us_username r) then Inl (Raised IntegrityError)
      else Inr (db\<lparr>cd_users := dset (cd_users db) k r\<rparr>))"

definition create_user ::
  "bcrypt \<Rightarrow> nat list \<Rightarrow> string \<Rightarrow> string \<Rightarrow> nat list \<Rightarrow> role \<Rightarrow> cloud_db \<Rightarrow> (string \<times> cloud_db) outcome" where
  "create_user B salt user_id username password rol db =
     bind_res (insert_user user_id \<lparr>us_username = username, us_password_hash = hash_password B salt password,
        us_role = rol, us_is_active = True\<rparr> db) (\<lambda>db'. Inr (user_id, db'))"

section \<open>User management\<close>

record user_out =
  uo_user_id :: string
  uo_username :: string
  uo_role :: role
  uo_is_active :: bool

definition user_out :: "string \<Rightarrow> user_row \<Rightarrow> user_out" where
  "user_out k r = \<lparr>uo_user_id = k, uo_username = us_username r, uo_role = us_role r, uo_is_active = us_is_active r\<rparr>"

definition load_user :: "driver \<Rightarrow> string \<Rightarrow> cloud_db \<Rightarrow> user_out outcome" where
  "load_user D user_id db =
     bind_res (bind_id D user_id) (\<lambda>k.
     bind_res (of_opt (Http 404 ''NOT_FOUND'') (dget (cd_users db) k)) (\<lambda>r. Inr (user_out k r)))"

definition list_users :: "cloud_db \<Rightarrow> user_out list" where
  "list_users db = map (\<lambda>(k, r). user_out k r) (cd_users db)"

definition audit_user :: "string \<Rightarrow> string \<Rightarrow> user_action \<Rightarrow> string option \<Rightarrow> cloud_db \<Rightarrow> cloud_db" where
  "audit_user actor target action detail db =
     db\<lparr>cd_user_audit := cd_user_audit db @
          [\<lparr>ua_actor = actor, ua_target = target, ua_action = action, ua_detail = detail\<rparr>]\<rparr>"

text \<open>\<open>_would_orphan_admins\<close> compares the ids the database prints with the id of the URL.\<close>

definition active_admins :: "cloud_db \<Rightarrow> string list" where
  "active_admins db = map fst (filter (\<lambda>(k, r). us_role r = Admin \<and> us_is_active r) (cd_users db))"

definition would_orphan_admins :: "cloud_db \<Rightarrow> string \<Rightarrow> bool" where
  "would_orphan_admins db target_user_id \<longleftrightarrow> set (active_admins db) = {target_user_id}"

text \<open>Creation; \<open>taken\<close> is what the pre-check saw, and the unique index has the last word.\<close>

definition create_user_after ::
  "driver \<Rightarrow> bcrypt \<Rightarrow> nat list \<Rightarrow> current_user \<Rightarrow> string \<Rightarrow> string \<Rightarrow> nat list \<Rightarrow> role \<Rightarrow> bool \<Rightarrow> cloud_db \<Rightarrow>
   user_out outcome \<times> cloud_db" where
  "create_user_after D B salt cu user_id username password rol taken db =
     (if taken then (Inl (Http 409 ''CONFLICT''), db)
      else (case bind_res (insert_user user_id \<lparr>us_username = username,
                   us_password_hash = hash_password B salt password, us_role = rol, us_is_active = True\<rparr> db) (\<lambda>db1.
                 bind_res (bind_id D (cu_user_id cu)) (\<lambda>actor.
                   Inr (audit_user actor user_id U_create (Some (''role='' @ role_text rol)) db1))) of
              Inl (Raised IntegrityError) \<Rightarrow> (Inl (Http 409 ''CONFLICT''), db)
            | Inl f \<Rightarrow> (Inl f, db)
            | Inr db' \<Rightarrow> (load_user D user_id db', db')))"

definition create_user_endpoint ::
  "driver \<Rightarrow> bcrypt \<Rightarrow> nat list \<Rightarrow> current_user \<Rightarrow> string \<Rightarrow> string \<Rightarrow> nat list \<Rightarrow> role \<Rightarrow> cloud_db \<Rightarrow>
   user_out outcome \<times> cloud_db" where
  "create_user_endpoint D B salt cu user_id username password rol db =
     (if \<not> (1 \<le> length username \<and> length username \<le> 255 \<and> password_ok password)
      then (Inl (Http 422 ''VALIDATION_ERROR''), db)
      else create_user_after D B salt cu user_id username password rol (\<not> username_free db username) db)"

record user_patch =
  up_role :: "role option"
  up_is_active :: "bool option"

definition user_patch_ok :: "user_patch \<Rightarrow> bool" where
  "user_patch_ok p \<longleftrightarrow> up_role p \<noteq> None \<or> up_is_active p \<noteq> None"

definition new_role :: "user_patch \<Rightarrow> user_out \<Rightarrow> role option" where
  "new_role p t = (case up_role p of Some r \<Rightarrow> if r \<noteq> uo_role t then Some r else None | None \<Rightarrow> None)"

definition new_active :: "user_patch \<Rightarrow> user_out \<Rightarrow> bool option" where
  "new_active p t = (case up_is_active p of Some a \<Rightarrow> if a \<noteq> uo_is_active t then Some a else None | None \<Rightarrow> None)"

definition set_user :: "string \<Rightarrow> role option \<Rightarrow> bool option \<Rightarrow> cloud_db \<Rightarrow> cloud_db" where
  "set_user k rol act db =
     (case dget (cd_users db) k of
        None \<Rightarrow> db
      | Some r \<Rightarrow>
          db\<lparr>cd_users := dset (cd_users db) k
               (r\<lparr>us_role := keep_or rol (us_role r), us_is_active := keep_or act (us_is_active r)\<rparr>)\<rparr>)"

text \<open>The handler after its first read: \<open>t\<close> is the user as it was then.\<close>

definition patch_user_after ::
  "driver \<Rightarrow> current_user \<Rightarrow> string \<Rightarrow> user_patch \<Rightarrow> user_out \<Rightarrow> cloud_db \<Rightarrow> user_out outcome \<times> cloud_db" where
  "patch_user_after D cu user_id p t db =
     (let deactivating = (up_is_active p = Some False);
          demoting = (up_role p \<noteq> None \<and> up_role p \<noteq> Some Admin \<and> uo_role t = Admin)
      in if (deactivating \<and> uo_role t = Admin \<or> demoting) \<and> would_orphan_admins db user_id
         then (Inl (Http 409 ''CONFLICT''), db)
         else if new_role p t = None \<and> new_active p t = None then (Inr t, db)
         else (case bind_res (bind_id D user_id) (\<lambda>k. bind_res (bind_id D (cu_user_id cu)) (\<lambda>actor. Inr (k, actor))) of
                 Inl f \<Rightarrow> (Inl f, db)
               | Inr (k, actor) \<Rightarrow>
                   (let db1 = set_user k (new_role p t) (new_active p t) db;
                        db2 = (case new_role p t of None \<Rightarrow> db1
                          | Some r \<Rightarrow> audit_user actor k U_role_change
                              (Some (role_text (uo_role t) @ '' -> '' @ role_text r)) db1);
                        db3 = (case new_active p t of None \<Rightarrow> db2
                          | Some a \<Rightarrow> audit_user actor k (if a then U_reactivate else U_deactivate) None db2)
                    in (load_user D user_id db3, db3))))"

definition patch_user ::
  "driver \<Rightarrow> current_user \<Rightarrow> string \<Rightarrow> user_patch \<Rightarrow> cloud_db \<Rightarrow> user_out outcome \<times> cloud_db" where
  "patch_user D cu user_id p db =
     (if \<not> user_patch_ok p then (Inl (Http 422 ''VALIDATION_ERROR''), db)
      else (case load_user D user_id db of
              Inl f \<Rightarrow> (Inl f, db)
            | Inr t \<Rightarrow> patch_user_after D cu user_id p t db))"

definition reset_password ::
  "driver \<Rightarrow> bcrypt \<Rightarrow> nat list \<Rightarrow> current_user \<Rightarrow> string \<Rightarrow> nat list \<Rightarrow> cloud_db \<Rightarrow> unit outcome \<times> cloud_db" where
  "reset_password D B salt cu user_id password db =
     (if \<not> password_ok password then (Inl (Http 422 ''VALIDATION_ERROR''), db)
      else (case bind_res (load_user D user_id db) (\<lambda>t.
                 bind_res (bind_id D user_id) (\<lambda>k.
                 bind_res (bind_id D (cu_user_id cu)) (\<lambda>actor. Inr (k, actor)))) of
              Inl f \<Rightarrow> (Inl f, db)
            | Inr (k, actor) \<Rightarrow>
                (Inr (), audit_user actor k U_password_reset None
                   (case dget (cd_users db) k of
                      None \<Rightarrow> db
                    | Some r \<Rightarrow> db\<lparr>cd_users := dset (cd_users db) k
                        (r\<lparr>us_password_hash := hash_password B salt password\<rparr>)\<rparr>))))"

section \<open>Preferences\<close>

definition valid_threshold_sec :: "int list" where
  "valid_threshold_sec = [30, 60, 90, 120]"

definition valid_staleness_sec :: "int list" where
  "valid_staleness_sec = [60, 120, 180, 300]"

definition default_preferences :: preference_row where
  "default_preferences = \<lparr>pf_threshold_sec = 60, pf_staleness_sec = 120\<rparr>"

definition get_preferences :: "driver \<Rightarrow> current_user \<Rightarrow> cloud_db \<Rightarrow> (string \<times> preference_row) outcome" where
  "get_preferences D cu db =
     bind_res (bind_id D (cu_user_id cu)) (\<lambda>k.
     bind_res (of_opt (Http 404 ''NOT_FOUND'') (dget (cd_preferences db) k)) (\<lambda>r. Inr (k, r)))"

text \<open>The upsert: a new row takes the defaults for what is not given, an old one keeps its own.\<close>

definition patch_preferences ::
  "driver \<Rightarrow> current_user \<Rightarrow> int option \<Rightarrow> int option \<Rightarrow> cloud_db \<Rightarrow>
   (string \<times> preference_row) outcome \<times> cloud_db" where
  "patch_preferences D cu t s db =
     (if (case t of None \<Rightarrow> False | Some x \<Rightarrow> x \<notin> set valid_threshold_sec) \<or>
         (case s of None \<Rightarrow> False | Some x \<Rightarrow> x \<notin> set valid_staleness_sec)
      then (Inl (Http 422 ''INVALID_PREFERENCE''), db)
      else (case bind_id D (cu_user_id cu) of
              Inl f \<Rightarrow> (Inl f, db)
            | Inr k \<Rightarrow>
                if \<not> dhas (cd_users db) k then (Inl (Raised IntegrityError), db)
                else (let old = dget_or (cd_preferences db) k default_preferences;
                          r = \<lparr>pf_threshold_sec = keep_or t (pf_threshold_sec old),
                               pf_staleness_sec = keep_or s (pf_staleness_sec old)\<rparr>
                      in (Inr (k, r), db\<lparr>cd_preferences := dset (cd_preferences db) k r\<rparr>))))"

end
