(* ===== verification/Cloud_Access_Facts.thy ===== *)
theory Cloud_Access_Facts
  imports Cloud_Access
begin

text \<open>
  Facts of the access layer: what a password check decides, what a principal that passed the
  gate is, the invariant of the administrators and the audit trail as a description of the
  user table.
\<close>

section \<open>Passwords and tokens\<close>

lemma verify_hash:
  assumes "bcrypt_ok B" "length (utf8 p) \<le> 72"
  shows "verify_password B q (hash_password B salt p) \<longleftrightarrow> take 72 (utf8 q) = utf8 p"
  using assms by (simp add: bcrypt_ok_def verify_password_def hash_password_def)

lemma jwt_okD:
  assumes "jwt_ok J c" "dget c ''iss'' = Some (JStr iss)" "\<forall>k \<in> set req. dhas c k"
    "dget c ''iat'' = Some (JInt i)" "i * 1000000 \<le> since_epoch t"
    "dget c ''exp'' = Some (JInt x)" "since_epoch t < x * 1000000"
  shows "jwt_decode J (jwt_encode J c key alg) key [alg] iss req t = Some c"
  using assms by (simp add: jwt_ok_def)

lemma token_verifies:
  assumes "jwt_ok J (token_claims F now i n r)" "cf_jwt_secret F \<noteq> []" "not_after now t"
    "since_epoch t < (since_epoch now + cf_jwt_ttl_minutes F * 60000000) div 1000000 * 1000000"
    "create_access_token J F now i n r = Inr tok"
  shows "verify_token J tx F t (Some tok) = Inr \<lparr>cu_user_id = i, cu_username = n, cu_role = r\<rparr>"
proof -
  let ?c = "token_claims F now i n r"
  have tok: "tok = jwt_encode J ?c (cf_jwt_secret F) (cf_jwt_algorithm F)"
    using assms(2,5) by (simp add: create_access_token_def)
  have le: "since_epoch now div 1000000 * 1000000 \<le> since_epoch t"
    using assms(3) by (simp add: not_after_def since_epoch_def)
  have "jwt_decode J tok (cf_jwt_secret F) [cf_jwt_algorithm F] (cf_jwt_issuer F) required_claims t = Some ?c"
    unfolding tok using le assms(4)
    by (intro jwt_okD [OF assms(1), where i = "since_epoch now div 1000000"
          and x = "(since_epoch now + cf_jwt_ttl_minutes F * 60000000) div 1000000"])
      (simp_all add: token_claims_def required_claims_def dhas_def dkeys_def)
  moreover have "tok \<noteq> []" using assms(1) by (simp add: jwt_ok_def tok)
  ultimately show ?thesis
    using assms(2) by (simp add: verify_token_def token_claims_def)
qed

lemma assert_user_active_Inr [res_iff]:
  "assert_user_active D db u = Inr u' \<longleftrightarrow>
     u' = u \<and> (\<exists>k r. bind_uuid D (cu_user_id u) = Some k \<and> dget (cd_users db) k = Some r \<and> us_is_active r)"
  by (auto simp: assert_user_active_def split: option.splits)

section \<open>Users\<close>

definition users_keyed :: "cloud_db \<Rightarrow> bool" where
  "users_keyed db \<longleftrightarrow>
     dwf (cd_users db) \<and>
     (\<forall>k l r s. dget (cd_users db) k = Some r \<longrightarrow> dget (cd_users db) l = Some s \<longrightarrow>
        us_username r = us_username s \<longrightarrow> k = l)"

lemma find_username_Some: "find_username db n = Some (k, r) \<Longrightarrow> (k, r) \<in> set (cd_users db) \<and> us_username r = n"
  unfolding find_username_def find_Some_iff by (metis (mono_tags, lifting) nth_mem split_conv)

lemma username_free_iff: "username_free db n \<longleftrightarrow> (\<forall>(k, r) \<in> set (cd_users db). us_username r \<noteq> n)"
  by (auto simp: username_free_def find_username_def find_None_iff)

lemma find_username_iff:
  assumes "users_keyed db"
  shows "find_username db n = Some (k, r) \<longleftrightarrow> dget (cd_users db) k = Some r \<and> us_username r = n"
proof
  assume "find_username db n = Some (k, r)"
  then show "dget (cd_users db) k = Some r \<and> us_username r = n"
    using find_username_Some assms by (auto simp: users_keyed_def dwf_def dkeys_def)
next
  assume *: "dget (cd_users db) k = Some r \<and> us_username r = n"
  then have "\<not> username_free db n" by (auto simp: username_free_iff dest: map_of_SomeD)
  then obtain l s where l: "find_username db n = Some (l, s)" by (auto simp: username_free_def)
  then have "dget (cd_users db) l = Some s" "us_username s = n"
    using find_username_Some assms by (auto simp: users_keyed_def dwf_def dkeys_def)
  with * assms have "k = l" by (auto simp: users_keyed_def)
  with l * \<open>dget (cd_users db) l = Some s\<close> show "find_username db n = Some (k, r)" by simp
qed

lemma insert_user_Inr [res_iff]:
  "insert_user k r db = Inr db' \<longleftrightarrow>
     \<not> dhas (cd_users db) k \<and> username_free db (us_username r) \<and> db' = db\<lparr>cd_users := dset (cd_users db) k r\<rparr>"
  by (auto simp: insert_user_def)

lemma users_keyed_insert: "insert_user k r db = Inr db' \<Longrightarrow> users_keyed db \<Longrightarrow> users_keyed db'"
  by (auto simp: users_keyed_def res_iff username_free_iff split: if_splits dest!: map_of_SomeD)

lemma users_keyed_set: "users_keyed db \<Longrightarrow> users_keyed (set_user k rol act db)"
  by (auto simp: users_keyed_def set_user_def split: option.splits if_splits)

lemma audit_user_simps [simp]:
  "cd_users (audit_user a t u d db) = cd_users db"
  "cd_user_audit (audit_user a t u d db) =
     cd_user_audit db @ [\<lparr>ua_actor = a, ua_target = t, ua_action = u, ua_detail = d\<rparr>]"
  by (simp_all add: audit_user_def)

lemma users_keyed_audit [simp]: "users_keyed (audit_user a t u d db) = users_keyed db"
  by (simp add: users_keyed_def)

lemma create_user_after_db:
  assumes "create_user_after D B salt cu i n p rol taken db = (out, db')"
  shows "db' = db \<or> (\<exists>actor. \<not> dhas (cd_users db) i \<and> username_free db n \<and>
    db' = audit_user actor i U_create (Some (''role='' @ role_text rol))
      (db\<lparr>cd_users := dset (cd_users db) i
        \<lparr>us_username = n, us_password_hash = hash_password B salt p, us_role = rol, us_is_active = True\<rparr>\<rparr>))"
  using assms
  by (auto simp: create_user_after_def res_iff split: if_splits sum.splits failure.splits exn.splits)

text \<open>What a patch does to the tables: nothing, or it sets the changed columns and appends one
  audit row for each.\<close>

definition patched :: "string \<Rightarrow> string \<Rightarrow> role \<Rightarrow> role option \<Rightarrow> bool option \<Rightarrow> cloud_db \<Rightarrow> cloud_db" where
  "patched actor k old rol act db =
     (let db1 = set_user k rol act db;
          db2 = (case rol of None \<Rightarrow> db1
            | Some r \<Rightarrow> audit_user actor k U_role_change (Some (role_text old @ '' -> '' @ role_text r)) db1)
      in (case act of None \<Rightarrow> db2
            | Some a \<Rightarrow> audit_user actor k (if a then U_reactivate else U_deactivate) None db2))"

lemma patch_user_after_db:
  assumes "patch_user_after D cu i p t db = (out, db')"
  shows "db' = db \<or> (\<exists>actor k. bind_uuid D i = Some k \<and> db' = patched actor k (uo_role t) (new_role p t) (new_active p t) db \<and>
    \<not> ((up_is_active p = Some False \<and> uo_role t = Admin \<or>
         up_role p \<noteq> None \<and> up_role p \<noteq> Some Admin \<and> uo_role t = Admin) \<and> would_orphan_admins db i))"
  using assms
  by (auto simp: patch_user_after_def patched_def Let_def res_iff split: if_splits sum.splits)

lemma patched_users [simp]: "cd_users (patched actor k old rol act db) = cd_users (set_user k rol act db)"
  by (simp add: patched_def Let_def split: option.split)

lemma patch_user_after_keyed:
  assumes "patch_user_after D cu i p t db = (out, db')" "users_keyed db"
  shows "users_keyed db'"
proof -
  have "users_keyed (patched a k old rol act db)" for a k old rol act
    using users_keyed_set [OF assms(2), of k rol act] by (simp add: users_keyed_def)
  then show ?thesis using patch_user_after_db [OF assms(1)] assms(2) by auto
qed

section \<open>The last administrator\<close>

definition admin_exists :: "cloud_db \<Rightarrow> bool" where
  "admin_exists db \<longleftrightarrow> (\<exists>k r. dget (cd_users db) k = Some r \<and> us_role r = Admin \<and> us_is_active r)"

lemma active_admins_iff:
  assumes "dwf (cd_users db)"
  shows "k \<in> set (active_admins db) \<longleftrightarrow> (\<exists>r. dget (cd_users db) k = Some r \<and> us_role r = Admin \<and> us_is_active r)"
  using assms by (auto simp: active_admins_def dwf_def dkeys_def image_iff)

lemma load_user_Inr:
  "load_user D i db = Inr t \<longleftrightarrow>
     (\<exists>k r. bind_uuid D i = Some k \<and> dget (cd_users db) k = Some r \<and> t = user_out k r)"
  by (auto simp: load_user_def res_iff)

text \<open>With the id of the URL in the form the database prints, a patch keeps an administrator.\<close>

lemma patch_user_keeps_admin:
  assumes "patch_user D cu i p db = (out, db')" "users_keyed db" "admin_exists db" "bind_uuid D i = Some i"
  shows "admin_exists db'"
proof (cases "db' = db")
  case False
  with assms(1) obtain t where t: "load_user D i db = Inr t" and "patch_user_after D cu i p t db = (out, db')"
    by (auto simp: patch_user_def split: if_splits sum.splits)
  with False assms(4) obtain actor where db': "db' = patched actor i (uo_role t) (new_role p t) (new_active p t) db"
    and g: "\<not> ((up_is_active p = Some False \<and> uo_role t = Admin \<or>
         up_role p \<noteq> None \<and> up_role p \<noteq> Some Admin \<and> uo_role t = Admin) \<and> would_orphan_admins db i)"
    using patch_user_after_db by fastforce
  obtain r where r: "dget (cd_users db) i = Some r" and tr: "t = user_out i r"
    using t assms(4) by (auto simp: load_user_Inr)
  have wf: "dwf (cd_users db)" using assms(2) by (simp add: users_keyed_def)
  show ?thesis
  proof (cases "\<exists>k s. k \<noteq> i \<and> dget (cd_users db) k = Some s \<and> us_role s = Admin \<and> us_is_active s")
    case True
    then obtain k s where "k \<noteq> i" "dget (cd_users db) k = Some s" "us_role s = Admin" "us_is_active s" by blast
    with r show ?thesis
      unfolding admin_exists_def db' by (intro exI [of _ k] exI [of _ s]) (simp add: set_user_def)
  next
    case False
    moreover from assms(3) obtain k s where "dget (cd_users db) k = Some s" "us_role s = Admin" "us_is_active s"
      by (auto simp: admin_exists_def)
    ultimately have adm: "us_role r = Admin" "us_is_active r"
      using r by (cases "k = i"; auto)+
    with False r have only: "\<And>k s. dget (cd_users db) k = Some s \<Longrightarrow> us_role s = Admin \<Longrightarrow> us_is_active s \<Longrightarrow> k = i"
      by blast
    have "k \<in> set (active_admins db) \<longleftrightarrow> k = i" for k
      unfolding active_admins_iff [OF wf] using only adm r by blast
    then have "set (active_admins db) = {i}" by blast
    with g tr adm have "up_is_active p \<noteq> Some False" "up_role p = None \<or> up_role p = Some Admin"
      by (auto simp: would_orphan_admins_def user_out_def)
    with adm tr r show ?thesis
      unfolding admin_exists_def db'
      by (intro exI [of _ i]) (auto simp: set_user_def new_role_def new_active_def user_out_def split: option.splits)
  qed
qed (simp add: assms(3))

section \<open>The audit trail\<close>

text \<open>The audit rows read back: which users exist, with which role, and whether active.\<close>

type_synonym account_view = "string \<Rightarrow> (role \<times> bool) option"

definition accounts :: "cloud_db \<Rightarrow> account_view" where
  "accounts db k = map_option (\<lambda>r. (us_role r, us_is_active r)) (dget (cd_users db) k)"

definition detail_role :: "string option \<Rightarrow> role" where
  "detail_role d = (if py_endswith (keep_or d []) ''admin'' then Admin else Operator)"

definition apply_user_audit :: "account_view \<Rightarrow> user_audit \<Rightarrow> account_view" where
  "apply_user_audit v a =
     (case ua_action a of
        U_create \<Rightarrow> v(ua_target a := Some (detail_role (ua_detail a), True))
      | U_role_change \<Rightarrow> v(ua_target a := map_option (\<lambda>(r, b). (detail_role (ua_detail a), b)) (v (ua_target a)))
      | U_deactivate \<Rightarrow> v(ua_target a := map_option (\<lambda>(r, b). (r, False)) (v (ua_target a)))
      | U_reactivate \<Rightarrow> v(ua_target a := map_option (\<lambda>(r, b). (r, True)) (v (ua_target a)))
      | U_password_reset \<Rightarrow> v)"

definition replay_audit :: "account_view \<Rightarrow> user_audit list \<Rightarrow> account_view" where
  "replay_audit v rows = foldl apply_user_audit v rows"

lemma replay_audit_snoc [simp]: "replay_audit v (rows @ [a]) = apply_user_audit (replay_audit v rows) a"
  by (simp add: replay_audit_def)

lemma detail_role_text [simp]: "detail_role (Some (x @ '' -> '' @ role_text r)) = r"
  "detail_role (Some (''role='' @ role_text r)) = r"
  by (cases r; simp add: detail_role_def py_endswith_def)+

lemmas detail_role_simps [simp] = detail_role_text [simplified]

lemma accounts_create:
  assumes "replay_audit v (cd_user_audit db) = accounts db"
  shows "replay_audit v (cd_user_audit (audit_user actor i U_create (Some (''role='' @ role_text (us_role r)))
      (db\<lparr>cd_users := dset (cd_users db) i (r\<lparr>us_is_active := True\<rparr>)\<rparr>))) =
    accounts (audit_user actor i U_create (Some (''role='' @ role_text (us_role r)))
      (db\<lparr>cd_users := dset (cd_users db) i (r\<lparr>us_is_active := True\<rparr>)\<rparr>))"
  using assms detail_role_text(2) [of "us_role r"]
  by (auto simp: apply_user_audit_def accounts_def fun_eq_iff)

lemma accounts_patched:
  assumes "replay_audit v (cd_user_audit db) = accounts db"
  shows "replay_audit v (cd_user_audit (patched actor k old rol act db)) = accounts (patched actor k old rol act db)"
  using assms
  by (cases rol; cases act)
    (auto simp: patched_def Let_def set_user_def replay_audit_def apply_user_audit_def accounts_def fun_eq_iff
      split: option.splits)

section \<open>The user endpoints as a system\<close>

text \<open>Requests one after another, each naming the user by the id the API prints.\<close>

inductive user_step :: "driver \<Rightarrow> bcrypt \<Rightarrow> cloud_db \<Rightarrow> cloud_db \<Rightarrow> bool" for D :: driver and B :: bcrypt where
  Create_user: "create_user_endpoint D B salt cu i n p rol db = (out, db') \<Longrightarrow> user_step D B db db'"
| Patch_user: "patch_user D cu i p db = (out, db') \<Longrightarrow> bind_uuid D i = Some i \<Longrightarrow> user_step D B db db'"
| Reset_password: "reset_password D B salt cu i p db = (out', db') \<Longrightarrow> user_step D B db db'"

text \<open>Interleaved requests: the second half of a creation or a patch, whatever its first half
  had read and however it spells the id.\<close>

inductive user_write :: "driver \<Rightarrow> bcrypt \<Rightarrow> cloud_db \<Rightarrow> cloud_db \<Rightarrow> bool" for D :: driver and B :: bcrypt where
  Write_create: "create_user_after D B salt cu i n p rol taken db = (out, db') \<Longrightarrow> user_write D B db db'"
| Write_patch: "patch_user_after D cu i p t db = (out, db') \<Longrightarrow> user_write D B db db'"
| Write_password: "reset_password D B salt cu i p db = (out', db') \<Longrightarrow> user_write D B db db'"

definition admin_inv :: "cloud_db \<Rightarrow> bool" where
  "admin_inv db \<longleftrightarrow> users_keyed db \<and> admin_exists db"

lemma create_user_after_keyed:
  assumes "create_user_after D B salt cu i n p rol taken db = (out, db')" "users_keyed db"
  shows "users_keyed db'"
  using create_user_after_db [OF assms(1)]
proof (elim disjE exE conjE)
  fix actor
  let ?r = "\<lparr>us_username = n, us_password_hash = hash_password B salt p, us_role = rol, us_is_active = True\<rparr>"
  let ?db = "db\<lparr>cd_users := dset (cd_users db) i ?r\<rparr>"
  assume "\<not> dhas (cd_users db) i" "username_free db n"
    and db': "db' = audit_user actor i U_create (Some (''role='' @ role_text rol)) ?db"
  then have "insert_user i ?r db = Inr ?db" by (simp add: insert_user_def)
  then have "users_keyed ?db" using assms(2) by (rule users_keyed_insert)
  then show ?thesis unfolding db' by simp
qed (use assms(2) in simp)

lemma create_user_after_admin:
  assumes "create_user_after D B salt cu i n p rol taken db = (out, db')" "admin_exists db"
  shows "admin_exists db'"
proof -
  obtain k r where kr: "dget (cd_users db) k = Some r" "us_role r = Admin" "us_is_active r"
    using assms(2) by (auto simp: admin_exists_def)
  have "dget (cd_users db') k = Some r"
    using create_user_after_db [OF assms(1)] kr(1) by (auto simp: dhas_iff)
  with kr show ?thesis by (auto simp: admin_exists_def)
qed

lemma reset_password_db:
  assumes "reset_password D B salt cu i p db = (out, db')"
  shows "db' = db \<or> (\<exists>actor k r. dget (cd_users db) k = Some r \<and>
    db' = audit_user actor k U_password_reset None
      (db\<lparr>cd_users := dset (cd_users db) k (r\<lparr>us_password_hash := hash_password B salt p\<rparr>)\<rparr>))"
proof (cases "db' = db")
  case False
  with assms obtain t k a where t: "load_user D i db = Inr t" "bind_uuid D i = Some k"
    and a: "bind_uuid D (cu_user_id cu) = Some a"
    by (auto simp: reset_password_def res_iff split: if_splits sum.splits)
  then obtain r where k: "dget (cd_users db) k = Some r" by (auto simp: load_user_Inr)
  with t a False assms have "db' = audit_user a k U_password_reset None
      (db\<lparr>cd_users := dset (cd_users db) k (r\<lparr>us_password_hash := hash_password B salt p\<rparr>)\<rparr>)"
    by (simp add: reset_password_def bind_id_def split: if_splits)
  with k show ?thesis by blast
qed simp

lemma reset_password_inv:
  assumes "reset_password D B salt cu i p db = (out, db')" "admin_inv db"
  shows "admin_inv db'"
  using reset_password_db [OF assms(1)]
proof (elim disjE exE conjE)
  fix actor k r
  assume r: "dget (cd_users db) k = Some r" and db': "db' = audit_user actor k U_password_reset None
      (db\<lparr>cd_users := dset (cd_users db) k (r\<lparr>us_password_hash := hash_password B salt p\<rparr>)\<rparr>)"
  have "users_keyed db'"
    using assms(2) r unfolding db' by (auto simp: admin_inv_def users_keyed_def split: if_splits)
  moreover obtain l s where l: "dget (cd_users db) l = Some s" "us_role s = Admin" "us_is_active s"
    using assms(2) by (auto simp: admin_inv_def admin_exists_def)
  then have "admin_exists db'"
    using r unfolding db' admin_exists_def by (intro exI [of _ l]) auto
  ultimately show ?thesis by (simp add: admin_inv_def)
qed (use assms(2) in simp)

lemma user_step_inv:
  assumes "admin_inv db" "user_step D B db db'"
  shows "admin_inv db'"
  using assms(2,1)
proof (cases rule: user_step.cases)
  case (Create_user salt cu i n p rol out)
  then show ?thesis
    using assms(1) create_user_after_keyed create_user_after_admin
    by (auto simp: create_user_endpoint_def admin_inv_def split: if_splits)
next
  case (Patch_user cu i p out)
  then have "admin_exists db'"
    using assms(1) by (intro patch_user_keeps_admin [OF Patch_user(1)]) (auto simp: admin_inv_def)
  moreover have "users_keyed db'"
    using Patch_user(1) assms(1)
    by (auto simp: patch_user_def admin_inv_def split: if_splits sum.splits dest: patch_user_after_keyed)
  ultimately show ?thesis by (simp add: admin_inv_def)
qed (use assms(1) in \<open>blast intro: reset_password_inv\<close>)

interpretation admins: invariant_system admin_inv "user_step D B" admin_inv for D B
  by unfold_locales (auto intro: user_step_inv)

definition audited :: "account_view \<Rightarrow> cloud_db \<Rightarrow> bool" where
  "audited v db \<longleftrightarrow> replay_audit v (cd_user_audit db) = accounts db"

definition unaudited_start :: "account_view \<Rightarrow> cloud_db \<Rightarrow> bool" where
  "unaudited_start v db \<longleftrightarrow> cd_user_audit db = [] \<and> accounts db = v"

lemma user_write_audited:
  assumes "audited v db" "user_write D B db db'"
  shows "audited v db'"
  using assms(2,1)
proof (cases rule: user_write.cases)
  case (Write_create salt cu i n p rol taken out)
  from create_user_after_db [OF this] show ?thesis
    using assms(1) accounts_create [of v db _ i "\<lparr>us_username = n, us_password_hash = hash_password B salt p,
        us_role = rol, us_is_active = True\<rparr>"]
    by (auto simp: audited_def)
next
  case (Write_patch cu i p t out)
  from patch_user_after_db [OF this] show ?thesis
    using assms(1) accounts_patched by (auto simp: audited_def)
next
  case (Write_password salt cu i p out)
  from reset_password_db [OF this] show ?thesis
    using assms(1) by (auto simp: audited_def apply_user_audit_def accounts_def fun_eq_iff)
qed

interpretation trail: invariant_system "unaudited_start v" "user_write D B" "audited v" for v D B
  by unfold_locales (simp add: audited_def unaudited_start_def replay_audit_def, rule user_write_audited)

end
