(* ===== verification/Cloud_Config.thy ===== *)
theory Cloud_Config
  imports Cloud_Ingest
begin

text \<open>
  The operator-facing settings and health of \<open>cloud-backend\<close>: \<open>routes/config.py\<close>,
  \<open>routes/health.py\<close>, the kill-switch endpoints of \<open>routes/admin_alert_classes.py\<close>,
  \<open>routes/ai_pipeline.py\<close> and \<open>routes/maintenance.py\<close>. The roles a route asks for are checked
  by \<open>require_role\<close> before it runs.
\<close>

section \<open>Thresholds\<close>

record threshold_patch =
  tp_per_class :: "(string, py_float) dict option"
  tp_floor :: "py_float option"

definition unprocessable :: failure where
  "unprocessable = Http 422 ''UNPROCESSABLE''"

definition check_unit_interval :: "py_float \<Rightarrow> rat outcome" where
  "check_unit_interval v =
     (case v of Finite q \<Rightarrow> if 0 \<le> q \<and> q \<le> 1 then Inr q else Inl unprocessable | _ \<Rightarrow> Inl unprocessable)"

definition check_floor :: "py_float \<Rightarrow> rat outcome" where
  "check_floor v =
     (case v of Finite q \<Rightarrow> if 0 < q \<and> q \<le> 1 then Inr q else Inl unprocessable | _ \<Rightarrow> Inl unprocessable)"

fun class_updates :: "(string, py_float) dict \<Rightarrow> (string, rat) dict \<Rightarrow> (string, rat) dict outcome" where
  "class_updates [] u = Inr u"
| "class_updates ((code, v) # rest) u =
     (if \<not> dhas (th_per_class default_thresholds) code then Inl unprocessable
      else bind_res (check_unit_interval v) (\<lambda>q. class_updates rest (dset u (per_class_prefix @ code) q)))"

definition threshold_updates :: "threshold_patch \<Rightarrow> (string, rat) dict outcome" where
  "threshold_updates p =
     bind_res (case tp_floor p of None \<Rightarrow> Inr [] | Some v \<Rightarrow> bind_res (check_floor v) (\<lambda>q. Inr [(floor_key, q)])) (\<lambda>u.
     bind_res (class_updates (keep_or (tp_per_class p) []) u) (\<lambda>u'.
       if u' = [] then Inl unprocessable else Inr u'))"

definition store_thresholds :: "(string, rat) dict \<Rightarrow> cloud_db \<Rightarrow> cloud_db" where
  "store_thresholds u db =
     db\<lparr>cd_thresholds := foldl (\<lambda>d (k, q). dset d k (Some (Finite q))) (cd_thresholds db) u\<rparr>"

definition degraded_reset :: "degraded_cache \<Rightarrow> degraded_cache" where
  "degraded_reset c = c\<lparr>dg_computed_at := None, dg_value := False\<rparr>"

definition confidence_thresholds :: "rat \<Rightarrow> cloud \<Rightarrow> thresholds \<times> cloud" where
  "confidence_thresholds now S =
     (case threshold_load now (cd_thresholds (cl_db S)) (cl_thresholds S) of
        (cfg, c) \<Rightarrow> (cfg, S\<lparr>cl_thresholds := c\<rparr>))"

definition patch_confidence_thresholds ::
  "rat \<Rightarrow> threshold_patch \<Rightarrow> cloud \<Rightarrow> thresholds outcome \<times> cloud" where
  "patch_confidence_thresholds now p S =
     (case threshold_updates p of
        Inl f \<Rightarrow> (Inl f, S)
      | Inr u \<Rightarrow>
          (case confidence_thresholds now
                 (S\<lparr>cl_db := store_thresholds u (cl_db S),
                    cl_thresholds := threshold_invalidate (cl_thresholds S),
                    cl_degraded := degraded_reset (cl_degraded S)\<rparr>) of
             (cfg, S') \<Rightarrow> (Inr cfg, S')))"

section \<open>The degraded flag\<close>

definition degraded_ttl :: rat where
  "degraded_ttl = 30"

definition degraded_fresh :: "rat \<Rightarrow> degraded_cache \<Rightarrow> bool" where
  "degraded_fresh now c = (case dg_computed_at c of None \<Rightarrow> False | Some t \<Rightarrow> now - t < degraded_ttl)"

text \<open>The mean confidence of the last hour's model-based alerts.\<close>

definition mean_confidence :: "driver \<Rightarrow> datetime \<Rightarrow> cloud_db \<Rightarrow> rat option outcome" where
  "mean_confidence D now db =
     bind_res (rows_of (\<lambda>e. arrow_float D (ce_payload e) ''confidence_score'')
        (filter (\<lambda>e. ce_type e = ''ALERT_RAISED'' \<and> dt_micros now - hours 1 < dt_micros (ce_timestamp e) \<and>
            arrow_text D (ce_payload e) ''confidence_basis'' = Some ''model'') (cd_events db)))
       (\<lambda>qs. Inr (sql_avg qs))"

definition below_floor :: "rat option \<Rightarrow> thresholds \<Rightarrow> bool" where
  "below_floor mean cfg = (case mean of None \<Rightarrow> False | Some q \<Rightarrow> q < th_floor cfg)"

text \<open>The assignment at the end of a computation that began at \<open>now\<close>.\<close>

definition degraded_finish :: "rat \<Rightarrow> bool \<Rightarrow> degraded_cache \<Rightarrow> degraded_cache" where
  "degraded_finish now v c = c\<lparr>dg_value := v, dg_computed_at := Some now\<rparr>"

definition degraded_get :: "driver \<Rightarrow> rat \<Rightarrow> datetime \<Rightarrow> cloud \<Rightarrow> bool outcome \<times> cloud" where
  "degraded_get D tick now S =
     (if degraded_fresh tick (cl_degraded S) then (Inr (dg_value (cl_degraded S)), S)
      else (case mean_confidence D now (cl_db S) of
              Inl f \<Rightarrow> (Inl f, S)
            | Inr mean \<Rightarrow>
                (case confidence_thresholds tick S of
                   (cfg, S') \<Rightarrow>
                     (Inr (below_floor mean cfg),
                      S'\<lparr>cl_degraded := degraded_finish tick (below_floor mean cfg) (cl_degraded S')\<rparr>))))"

definition cloud_health_ready :: "bool \<Rightarrow> nat" where
  "cloud_health_ready db_connected = (if db_connected then 200 else 503)"

section \<open>The kill-switch\<close>

record admin_call =
  ac_pydantic :: pydantic
  ac_driver :: driver
  ac_uuid :: string
  ac_clock :: datetime \<comment> \<open>the process clock\<close>
  ac_now :: datetime \<comment> \<open>\<open>NOW()\<close> of the transaction\<close>
  ac_source_ip :: string

definition class_event :: "admin_call \<Rightarrow> string \<Rightarrow> string \<Rightarrow> string \<Rightarrow> envelope res" where
  "class_event A event_type alert_code actor =
     (let p = [(''alert_code'', JStr alert_code), (''actor_name'', JStr actor), (''source_ip'', JStr (ac_source_ip A))]
      in bind_res (validate_payload (ac_pydantic A) ALERT_CLASS_DISABLED p) (\<lambda>v.
         validate_envelope (ac_pydantic A) (ac_uuid A) (ac_clock A)
           \<lparr>raw_id = None, raw_journey_id = ''LANDSIDE_admin_'' @ ymd (ac_clock A),
            raw_vehicle_id = ''LANDSIDE'', raw_timestamp = None, raw_type = event_type,
            raw_severity = ''info'', raw_source = ''cloud-backend'', raw_schema_version = 1,
            raw_payload = v\<rparr>))"

definition persist_audit_event ::
  "admin_call \<Rightarrow> string \<Rightarrow> string \<Rightarrow> string \<Rightarrow> cloud_db \<Rightarrow> cloud_db outcome" where
  "persist_audit_event A event_type alert_code actor db =
     bind_res (map_sum Raised id (class_event A event_type alert_code actor)) (\<lambda>env.
     bind_res (parse_instant (ev_timestamp env)) (\<lambda>ts.
     bind_res (bind_id (ac_driver A) (ev_id env)) (\<lambda>k.
     bind_res (insert_cloud_event (event_row k env ts)
       (ensure_journey (ev_journey_id env)
          \<lparr>cj_vehicle_id = ev_vehicle_id env, cj_trip_number = ''admin'', cj_route_name = None,
           cj_start_time = ts, cj_end_time = None\<rparr> db)) (\<lambda>(n, db'). Inr db'))))"

definition disabled_row :: "string \<Rightarrow> datetime \<Rightarrow> class_row option \<Rightarrow> class_row" where
  "disabled_row actor now r =
     \<lparr>cs_disabled = True, cs_disabled_by = Some actor, cs_disabled_at = Some now,
      cs_enabled_by = Option.bind r cs_enabled_by, cs_enabled_at = Option.bind r cs_enabled_at\<rparr>"

definition enabled_row :: "string \<Rightarrow> datetime \<Rightarrow> class_row option \<Rightarrow> class_row" where
  "enabled_row actor now r =
     \<lparr>cs_disabled = False, cs_disabled_by = Option.bind r cs_disabled_by,
      cs_disabled_at = Option.bind r cs_disabled_at, cs_enabled_by = Some actor, cs_enabled_at = Some now\<rparr>"

text \<open>One transaction, committed and then followed by the invalidation.\<close>

definition change_class ::
  "admin_call \<Rightarrow> string \<Rightarrow> string \<Rightarrow> string \<Rightarrow> (class_row option \<Rightarrow> class_row) \<Rightarrow> string \<Rightarrow> cloud \<Rightarrow>
   string outcome \<times> cloud" where
  "change_class A event_type alert_code actor f state S =
     (case persist_audit_event A event_type alert_code actor
             ((cl_db S)\<lparr>cd_classes := dset (cd_classes (cl_db S)) alert_code
                          (f (dget (cd_classes (cl_db S)) alert_code))\<rparr>) of
        Inl e \<Rightarrow> (Inl e, S)
      | Inr db \<Rightarrow> (Inr state, S\<lparr>cl_db := db, cl_filter := filter_invalidate (cl_filter S)\<rparr>))"

definition disable_alert_class :: "admin_call \<Rightarrow> string \<Rightarrow> string \<Rightarrow> cloud \<Rightarrow> string outcome \<times> cloud" where
  "disable_alert_class A actor alert_code =
     change_class A ''ALERT_CLASS_DISABLED'' alert_code actor (disabled_row actor (ac_now A)) ''disabled''"

definition enable_alert_class :: "admin_call \<Rightarrow> string \<Rightarrow> string \<Rightarrow> cloud \<Rightarrow> string outcome \<times> cloud" where
  "enable_alert_class A actor alert_code =
     change_class A ''ALERT_CLASS_REENABLED'' alert_code actor (enabled_row actor (ac_now A)) ''enabled''"

definition list_alert_classes :: "cloud_db \<Rightarrow> (string \<times> class_row) list" where
  "list_alert_classes db = sort_key fst (cd_classes db)"

section \<open>The AI pipeline\<close>

datatype pipeline_state = Green | Amber | Red

fun pipeline_rank :: "pipeline_state \<Rightarrow> nat" where
  "pipeline_rank Green = 0"
| "pipeline_rank Amber = 1"
| "pipeline_rank Red = 2"

definition train_state :: "datetime \<Rightarrow> bool \<Rightarrow> datetime \<Rightarrow> pipeline_state" where
  "train_state last_seen hailo_device_ok now =
     (if 180 * 1000000 \<le> dt_micros now - dt_micros last_seen then Red
      else if hailo_device_ok then Green else Amber)"

record train_health =
  tn_train_id :: string
  tn_state :: pipeline_state
  tn_last_seen :: "datetime option"
  tn_model_versions :: json
  tn_device_ok :: bool

definition heartbeat_trains :: "datetime \<Rightarrow> cloud_db \<Rightarrow> train_health list" where
  "heartbeat_trains now db =
     map (\<lambda>(k, h). \<lparr>tn_train_id = k, tn_state = train_state (hb_last_seen h) (hb_device_ok h) now,
            tn_last_seen = Some (hb_last_seen h), tn_model_versions = hb_model_versions h,
            tn_device_ok = hb_device_ok h\<rparr>)
       (sort_key fst (cd_heartbeats db))"

definition silent_trains :: "datetime \<Rightarrow> cloud_db \<Rightarrow> train_health list" where
  "silent_trains now db =
     map (\<lambda>v. \<lparr>tn_train_id = v, tn_state = Red, tn_last_seen = None, tn_model_versions = JObj [],
            tn_device_ok = False\<rparr>)
       (filter (\<lambda>v. \<not> dhas (cd_heartbeats db) v \<and> v \<noteq> ''LANDSIDE'')
         (remdups (map ce_vehicle_id
           (filter (\<lambda>e. dt_micros now - hours 24 < dt_micros (ce_timestamp e)) (cd_events db)))))"

fun worst_state :: "pipeline_state \<Rightarrow> train_health list \<Rightarrow> pipeline_state" where
  "worst_state s [] = s"
| "worst_state s (t # ts) =
     worst_state (if pipeline_rank s < pipeline_rank (tn_state t) then tn_state t else s) ts"

definition ai_pipeline_health :: "datetime \<Rightarrow> cloud_db \<Rightarrow> pipeline_state \<times> train_health list" where
  "ai_pipeline_health now db =
     (let trains = heartbeat_trains now db @ silent_trains now db in (worst_state Green trains, trains))"

section \<open>Maintenance tickets\<close>

definition upper_char :: "char \<Rightarrow> char" where
  "upper_char c = (let n = of_char c :: nat in if 97 \<le> n \<and> n \<le> 122 then char_of (n - 32) else c)"

definition raise_ticket :: "string \<Rightarrow> datetime \<Rightarrow> string \<times> string" where
  "raise_ticket uuid_hex now = (''REF#'' @ map upper_char (take 5 uuid_hex), isoformat_auto now)"

section \<open>Facts\<close>

lemma threshold_updates_ok:
  assumes "threshold_updates p = Inr u" "(k, q) \<in> set u"
  shows "k = floor_key \<and> 0 < q \<and> q \<le> 1 \<or>
    (\<exists>cls. dhas (th_per_class default_thresholds) cls \<and> k = per_class_prefix @ cls \<and> 0 \<le> q \<and> q \<le> 1)"
proof -
  define good where "good = (\<lambda>(k, q). k = floor_key \<and> 0 < q \<and> q \<le> (1::rat) \<or>
    (\<exists>cls. dhas (th_per_class default_thresholds) cls \<and> k = per_class_prefix @ cls \<and> 0 \<le> q \<and> q \<le> 1))"
  have cls: "\<forall>x \<in> set u'. good x" if "class_updates d u0 = Inr u'" "\<forall>x \<in> set u0. good x" for d u0 u'
    using that
  proof (induction d arbitrary: u0)
    case (Cons p d)
    obtain code v where p: "p = (code, v)" by fastforce
    with Cons.prems obtain w where w: "dhas (th_per_class default_thresholds) code" "0 \<le> w" "w \<le> 1"
      and rest: "class_updates d (dset u0 (per_class_prefix @ code) w) = Inr u'"
      by (auto simp: res_iff check_unit_interval_def split: if_splits py_float.splits)
    have "\<forall>x \<in> set (dset u0 (per_class_prefix @ code) w). good x"
      using Cons.prems(2) w set_dset [of u0 "per_class_prefix @ code" w] by (auto simp: good_def)
    with rest show ?case by (rule Cons.IH)
  qed simp
  from assms(1) obtain u0 where u0: "class_updates (keep_or (tp_per_class p) []) u0 = Inr u"
    and "u0 = [] \<or> (\<exists>w. u0 = [(floor_key, w)] \<and> 0 < w \<and> w \<le> 1)"
    by (auto simp: threshold_updates_def res_iff check_floor_def split: option.splits py_float.splits if_splits)
  then have "\<forall>x \<in> set u0. good x" by (auto simp: good_def)
  from cls [OF u0 this] assms(2) show ?thesis by (auto simp: good_def)
qed

lemma worst_state_rank:
  "pipeline_rank (worst_state s ts) = Max (insert (pipeline_rank s) (pipeline_rank ` tn_state ` set ts))"
proof (induction ts arbitrary: s)
  case (Cons t ts)
  have *: "Max (insert (max a b) X) = Max (insert a (insert b X))" if "finite X" for a b :: nat and X
    using that by (cases "X = {}") (simp_all add: max.assoc)
  have "pipeline_rank (if pipeline_rank s < pipeline_rank (tn_state t) then tn_state t else s)
      = max (pipeline_rank s) (pipeline_rank (tn_state t))" by simp
  with Cons show ?case by (simp only: worst_state.simps * list.set image_insert finite_imageI finite_set)
qed simp

text \<open>A stored update is read back.\<close>

lemma dwf_class_updates: "class_updates d u = Inr u' \<Longrightarrow> dwf u \<Longrightarrow> dwf u'"
proof (induction d arbitrary: u)
  case (Cons p d)
  obtain code v where p: "p = (code, v)" by fastforce
  with Cons.prems(1) obtain q where "class_updates d (dset u (per_class_prefix @ code) q) = Inr u'"
    by (auto simp: res_iff split: if_splits)
  then show ?case by (rule Cons.IH) (simp add: Cons.prems(2))
qed simp

lemma dwf_threshold_updates:
  assumes "threshold_updates p = Inr u"
  shows "dwf u"
proof -
  from assms obtain u0 where "class_updates (keep_or (tp_per_class p) []) u0 = Inr u" "dwf u0"
    by (auto simp: threshold_updates_def res_iff dwf_Cons split: option.splits if_splits)
  then show ?thesis by (rule dwf_class_updates)
qed

lemma fold_stored:
  "dwf u \<Longrightarrow> dget (foldl (\<lambda>d (k, q). dset d k (Some (Finite q))) d u) k =
     (case dget u k of None \<Rightarrow> dget d k | Some q \<Rightarrow> Some (Some (Finite q)))"
proof (induction u arbitrary: d)
  case (Cons x u)
  obtain l q where x: "x = (l, q)" by fastforce
  with Cons show ?case by (cases "l = k") (auto simp: dwf_Cons split: option.split)
qed simp

lemma dget_store_thresholds:
  "dwf u \<Longrightarrow> dget (cd_thresholds (store_thresholds u db)) k =
     (case dget u k of None \<Rightarrow> dget (cd_thresholds db) k | Some q \<Rightarrow> Some (Some (Finite q)))"
  by (simp add: store_thresholds_def fold_stored)

lemma dwf_store_thresholds: "dwf (cd_thresholds db) \<Longrightarrow> dwf (cd_thresholds (store_thresholds u db))"
proof -
  have "dwf d \<Longrightarrow> dwf (foldl (\<lambda>d (k, q). dset d k (Some (Finite q))) d u)" for d :: "(string, py_float option) dict"
    by (induction u arbitrary: d) auto
  then show "dwf (cd_thresholds db) \<Longrightarrow> dwf (cd_thresholds (store_thresholds u db))"
    by (simp add: store_thresholds_def)
qed

lemma stored_floor:
  assumes "dwf (cd_thresholds db)" "threshold_updates p = Inr u"
  shows "th_floor (read_thresholds (cd_thresholds (store_thresholds u db))) =
    keep_or (dget u floor_key) (th_floor (read_thresholds (cd_thresholds db)))"
proof -
  have "0 < q \<and> q \<le> 1" if "dget u floor_key = Some q" for q
    using threshold_updates_ok [OF assms(2) map_of_SomeD [OF that]] prefix_not_floor [symmetric] by blast
  then have "valid_threshold True (Some (Finite q))" if "dget u floor_key = Some q" for q
    using that by (fastforce simp: valid_threshold_def)
  with dwf_threshold_updates [OF assms(2)] assms(1) show ?thesis
    by (cases "dget u floor_key")
      (simp_all add: read_floor dwf_store_thresholds dget_store_thresholds usable_def float_of_def)
qed

lemma stored_class:
  assumes "dwf (cd_thresholds db)" "threshold_updates p = Inr u"
    "dget (th_per_class default_thresholds) c = Some dflt"
  shows "dget (th_per_class (read_thresholds (cd_thresholds (store_thresholds u db)))) c =
    Some (keep_or (dget u (per_class_prefix @ c)) (usable False (dget (cd_thresholds db) (per_class_prefix @ c)) dflt))"
proof -
  have "0 \<le> q \<and> q \<le> 1" if "dget u (per_class_prefix @ c) = Some q" for q
    using threshold_updates_ok [OF assms(2) map_of_SomeD [OF that]] prefix_not_floor [of c] by auto
  then have "valid_threshold False (Some (Finite q))" if "dget u (per_class_prefix @ c) = Some q" for q
    using that by (fastforce simp: valid_threshold_def)
  with dwf_threshold_updates [OF assms(2)] assms(1) show ?thesis
    by (cases "dget u (per_class_prefix @ c)")
      (simp_all add: read_class [OF _ assms(3)] dwf_store_thresholds dget_store_thresholds usable_def
        float_of_def)
qed

text \<open>The updates are what the body asks for.\<close>

lemma class_updates_get:
  assumes "class_updates d u = Inr u'" "dwf d"
  shows "dget u' (per_class_prefix @ c) =
      (case dget d c of None \<Rightarrow> dget u (per_class_prefix @ c) | Some v \<Rightarrow> Some (float_of (Some v)))"
    "dget u' floor_key = dget u floor_key"
proof -
  have "dget u' (per_class_prefix @ c) =
      (case dget d c of None \<Rightarrow> dget u (per_class_prefix @ c) | Some v \<Rightarrow> Some (float_of (Some v))) \<and>
    dget u' floor_key = dget u floor_key"
    using assms
  proof (induction d arbitrary: u)
    case (Cons p d)
    obtain code v where p: "p = (code, v)" by fastforce
    with Cons.prems(1) obtain q where q: "check_unit_interval v = Inr q"
      and rest: "class_updates d (dset u (per_class_prefix @ code) q) = Inr u'"
      by (auto simp: res_iff split: if_splits)
    have d: "dwf d" "dget d code = None" using Cons.prems(2) by (simp_all add: p dwf_Cons)
    have "q = float_of (Some v)"
      using q by (auto simp: check_unit_interval_def float_of_def split: py_float.splits if_splits)
    with Cons.IH [OF rest d(1)] d(2) prefix_not_floor [of code] show ?case
      by (auto simp: p split: option.splits)
  qed simp
  then show "dget u' (per_class_prefix @ c) =
      (case dget d c of None \<Rightarrow> dget u (per_class_prefix @ c) | Some v \<Rightarrow> Some (float_of (Some v)))"
    "dget u' floor_key = dget u floor_key" by simp_all
qed

lemma threshold_updates_get:
  assumes "threshold_updates p = Inr u" "dwf (keep_or (tp_per_class p) [])"
  shows "dget u floor_key = map_option (\<lambda>v. float_of (Some v)) (tp_floor p)"
    "dget u (per_class_prefix @ c) = map_option (\<lambda>v. float_of (Some v)) (dget (keep_or (tp_per_class p) []) c)"
proof -
  from assms(1) obtain u0 where c: "class_updates (keep_or (tp_per_class p) []) u0 = Inr u"
    and u0: "u0 = (case tp_floor p of None \<Rightarrow> [] | Some v \<Rightarrow> [(floor_key, float_of (Some v))])"
    by (auto simp: threshold_updates_def res_iff check_floor_def float_of_def
        split: option.splits py_float.splits if_splits)
  from class_updates_get [OF c assms(2)] prefix_not_floor [of c] prefix_not_floor [of c, symmetric]
  show "dget u floor_key = map_option (\<lambda>v. float_of (Some v)) (tp_floor p)"
    "dget u (per_class_prefix @ c) = map_option (\<lambda>v. float_of (Some v)) (dget (keep_or (tp_per_class p) []) c)"
    by (auto simp: u0 split: option.splits)
qed

text \<open>After a successful edit the answer, the table and the next reading of the flag agree.\<close>

lemma patch_answer:
  assumes "patch_confidence_thresholds tick p S = (Inr cfg, S')"
  obtains u where "threshold_updates p = Inr u" "cl_db S' = store_thresholds u (cl_db S)"
    "cfg = read_thresholds (cd_thresholds (cl_db S'))" "dg_computed_at (cl_degraded S') = None"
    "cl_thresholds S' = threshold_finish (Suc (ca_generation (cl_thresholds S))) tick cfg (threshold_invalidate (cl_thresholds S))"
  using assms
  by (auto simp: patch_confidence_thresholds_def confidence_thresholds_def threshold_load_def Let_def
      threshold_invalidate_def degraded_reset_def cache_fresh_def split: sum.splits)

end
