(* ===== verification/Cloud_Reviews.thy ===== *)
theory Cloud_Reviews
  imports Cloud_Alerts
begin

text \<open>
  The capacity review queue of \<open>cloud-backend\<close> (\<open>routes/capacity_review.py\<close>,
  \<open>api/capacity_review.py\<close>): review, dismiss and reopen an exception, and the export as CSV.
  The review and dismissal statements use one parameter both as a text value of the queue and
  compared with the id column of the events: with a \<open>uuid\<close> column, which the migrations create,
  the server refuses to deduce its type, with a text column (the integration tests) it runs.
  Which of the two holds is a parameter.
\<close>

section \<open>Requests\<close>

definition priority_texts :: "string list" where
  "priority_texts = [''Low'', ''Medium'', ''High'', ''low'', ''medium'', ''high'']"

definition max_note :: nat where
  "max_note = 200"

text \<open>\<open>ReviewRequest\<close>: the note and the priority it stores.\<close>

definition review_request :: "string option \<Rightarrow> string \<Rightarrow> (string option \<times> string) outcome" where
  "review_request note priority =
     (if max_note < length (keep_or note []) \<or> priority \<notin> set priority_texts then Inl (Http 422 ''VALIDATION_ERROR'')
      else Inr (note, map lower_char priority))"

section \<open>Statements\<close>

definition queue_row ::
  "driver \<Rightarrow> cloud_event \<Rightarrow> string \<Rightarrow> string option \<Rightarrow> string \<Rightarrow> datetime \<Rightarrow> review_status \<Rightarrow> review_row" where
  "queue_row D e priority note by_user t status =
     \<lparr>rq_route = keep_or (arrow_text D (ce_payload e) ''route'') [], rq_train_id = ce_vehicle_id e,
      rq_departure_date = keep_or (arrow_text D (ce_payload e) ''departure'') (take 10 (isoformat_auto (ce_timestamp e))),
      rq_priority = priority, rq_note = note, rq_queued_by = by_user, rq_queued_at = t, rq_status = status\<rparr>"

text \<open>\<open>INSERT \<dots> SELECT \<dots> FROM events WHERE event_id = :eid ON CONFLICT (exception_id) DO UPDATE\<close>:
  the row count. The row that is excluded from the insertion is passed to the update.\<close>

definition upsert_review ::
  "bool \<Rightarrow> string \<Rightarrow> (cloud_event \<Rightarrow> review_row) \<Rightarrow> (review_row \<Rightarrow> review_row \<Rightarrow> review_row) \<Rightarrow> cloud_db \<Rightarrow>
   (nat \<times> cloud_db) outcome" where
  "upsert_review text_ids i new upd db =
     (if \<not> text_ids then Inl (Raised DBAPIError)
      else (case find_cloud_event db i of
              None \<Rightarrow> Inr (0, db)
            | Some e \<Rightarrow>
                (let row = (case dget (cd_reviews db) i of None \<Rightarrow> new e | Some old \<Rightarrow> upd (new e) old)
                 in Inr (1, db\<lparr>cd_reviews := dset (cd_reviews db) i row\<rparr>))))"

text \<open>The commit, or 404 when no row was written.\<close>

definition found_or_404 :: "string \<Rightarrow> (nat \<times> cloud_db) outcome \<Rightarrow> 'a \<Rightarrow> cloud_db \<Rightarrow> 'a outcome \<times> cloud_db" where
  "found_or_404 detail r answer db =
     (case r of
        Inl f \<Rightarrow> (Inl f, db)
      | Inr (n, db') \<Rightarrow> if n = 0 then (Inl (Http 404 detail), db) else (Inr answer, db'))"

definition review_exception ::
  "bool \<Rightarrow> driver \<Rightarrow> datetime \<Rightarrow> string \<Rightarrow> string \<Rightarrow> string option \<Rightarrow> string \<Rightarrow> cloud_db \<Rightarrow>
   (string \<times> string) outcome \<times> cloud_db" where
  "review_exception text_ids D now by_user i note priority db =
     (case review_request note priority of
        Inl f \<Rightarrow> (Inl f, db)
      | Inr (n, p) \<Rightarrow>
          found_or_404 ''exception not found''
            (upsert_review text_ids i (\<lambda>e. queue_row D e p n by_user now In_review)
               (\<lambda>x old. old\<lparr>rq_priority := rq_priority x, rq_note := rq_note x, rq_queued_by := rq_queued_by x,
                            rq_queued_at := rq_queued_at x, rq_status := In_review\<rparr>) db)
            (''in_review'', isoformat_auto now) db)"

definition dismiss_exception ::
  "bool \<Rightarrow> driver \<Rightarrow> datetime \<Rightarrow> string \<Rightarrow> string \<Rightarrow> cloud_db \<Rightarrow> string outcome \<times> cloud_db" where
  "dismiss_exception text_ids D now by_user i db =
     found_or_404 ''exception not found''
       (upsert_review text_ids i (\<lambda>e. queue_row D e ''low'' None by_user now Dismissed)
          (\<lambda>x old. old\<lparr>rq_status := Dismissed\<rparr>) db)
       ''dismissed'' db"

definition reopen_exception :: "string \<Rightarrow> cloud_db \<Rightarrow> string outcome \<times> cloud_db" where
  "reopen_exception i db =
     (case dget (cd_reviews db) i of
        None \<Rightarrow> (Inl (Http 404 ''exception not found in review queue''), db)
      | Some old \<Rightarrow>
          (Inr ''unreviewed'', db\<lparr>cd_reviews := dset (cd_reviews db) i (old\<lparr>rq_status := Unreviewed\<rparr>)\<rparr>))"

section \<open>Export\<close>

definition formula_chars :: "char list" where
  "formula_chars = [CHR ''='', CHR ''+'', CHR ''-'', CHR ''@'', CHR 0x09, CHR 0x0D]"

definition csv_safe :: "string option \<Rightarrow> string" where
  "csv_safe value =
     (case value of
        None \<Rightarrow> []
      | Some s \<Rightarrow> if s \<noteq> [] \<and> hd s \<in> set formula_chars then CHR 0x27 # s else s)"

text \<open>\<open>csv.writer\<close> with its defaults: a field that holds a comma, a quote or a line break is quoted,
  its quotes are doubled, and a row ends with CR LF.\<close>

definition quote_char :: char where
  "quote_char = CHR 0x22"

definition csv_field :: "string \<Rightarrow> string" where
  "csv_field s =
     (if \<exists>c \<in> set s. c \<in> {CHR '','', quote_char, CHR 0x0D, CHR 0x0A}
      then quote_char # concat (map (\<lambda>c. if c = quote_char then [quote_char, quote_char] else [c]) s) @ [quote_char]
      else s)"

definition csv_row :: "string list \<Rightarrow> string" where
  "csv_row cols = join_with '','' (map csv_field cols) @ [CHR 0x0D, CHR 0x0A]"

definition export_header :: "string list" where
  "export_header =
     [''exception_id'', ''route'', ''train_id'', ''departure_date'', ''priority'', ''note'', ''queued_by'', ''queued_at'', ''status'']"

fun review_status_text :: "review_status \<Rightarrow> string" where
  "review_status_text In_review = ''in_review''"
| "review_status_text Dismissed = ''dismissed''"
| "review_status_text Unreviewed = ''unreviewed''"

text \<open>\<open>queued_at::text\<close> is the server's text of the instant, a parameter.\<close>

definition export_fields :: "(datetime \<Rightarrow> string) \<Rightarrow> string \<times> review_row \<Rightarrow> string list" where
  "export_fields time_text q =
     map (csv_safe \<circ> Some)
       [fst q, rq_route (snd q), rq_train_id (snd q), rq_departure_date (snd q), rq_priority (snd q),
        keep_or (rq_note (snd q)) [], rq_queued_by (snd q), time_text (rq_queued_at (snd q)),
        review_status_text (rq_status (snd q))]"

definition exported_rows :: "cloud_db \<Rightarrow> (string \<times> review_row) list" where
  "exported_rows db =
     sort_key (\<lambda>(i, q). - dt_micros (rq_queued_at q)) (filter (\<lambda>(i, q). rq_status q \<noteq> Dismissed) (cd_reviews db))"

definition export_capacity_review_csv :: "(datetime \<Rightarrow> string) \<Rightarrow> datetime \<Rightarrow> cloud_db \<Rightarrow> string \<times> string" where
  "export_capacity_review_csv time_text now db =
     (''capacity-review-'' @ take 10 (isoformat_auto now) @ ''.csv'',
      concat (map csv_row (export_header # map (export_fields time_text) (exported_rows db))))"

section \<open>Reading the export\<close>

text \<open>A reader of such files: the fields of the rows, for a field that begins with a quote up to
  the closing one, with doubled quotes undone. It returns the field and what follows it.\<close>

fun read_quoted :: "string \<Rightarrow> (string \<times> string) option" where
  "read_quoted [] = None"
| "read_quoted (c # cs) =
     (if c \<noteq> CHR 0x22 then map_option (\<lambda>(f, r). (c # f, r)) (read_quoted cs)
      else (case cs of
              d # ds \<Rightarrow> if d = CHR 0x22 then map_option (\<lambda>(f, r). (d # f, r)) (read_quoted ds) else Some ([], cs)
            | [] \<Rightarrow> Some ([], [])))"

definition read_plain :: "string \<Rightarrow> string \<times> string" where
  "read_plain s = (let p = (\<lambda>c. c \<notin> {CHR '','', CHR 0x0D}) in (takeWhile p s, dropWhile p s))"

definition read_field :: "string \<Rightarrow> (string \<times> string) option" where
  "read_field s =
     (case s of [] \<Rightarrow> Some ([], []) | c # cs \<Rightarrow> if c = quote_char then read_quoted cs else Some (read_plain s))"

fun read_row :: "nat \<Rightarrow> string \<Rightarrow> (string list \<times> string) option" where
  "read_row 0 s = None"
| "read_row (Suc n) s =
     (case read_field s of
        None \<Rightarrow> None
      | Some (f, []) \<Rightarrow> None
      | Some (f, c # r) \<Rightarrow>
          if c = CHR '','' then map_option (\<lambda>(fs, t). (f # fs, t)) (read_row n r)
          else if take 2 (c # r) = [CHR 0x0D, CHR 0x0A] then Some ([f], drop 1 r) else None)"

fun read_rows :: "nat \<Rightarrow> nat \<Rightarrow> string \<Rightarrow> (string list list \<times> string) option" where
  "read_rows n 0 s = Some ([], s)"
| "read_rows n (Suc m) s =
     (case read_row n s of
        None \<Rightarrow> None
      | Some (row, t) \<Rightarrow> map_option (\<lambda>(rows, u). (row # rows, u)) (read_rows n m t))"

section \<open>Facts\<close>

lemma read_quoted_escaped:
  assumes "rest \<noteq> []" "hd rest \<noteq> quote_char"
  shows "read_quoted (concat (map (\<lambda>c. if c = quote_char then [quote_char, quote_char] else [c]) s) @ quote_char # rest) =
    Some (s, rest)"
proof (induction s)
  case Nil
  with assms show ?case by (cases rest) (simp_all add: quote_char_def)
next
  case (Cons c s)
  then show ?case by (cases "c = quote_char") (simp_all add: quote_char_def)
qed

lemma read_field_written:
  assumes "d \<in> {CHR '','', CHR 0x0D}"
  shows "read_field (csv_field s @ d # rest) = Some (s, d # rest)"
proof (cases "\<exists>c \<in> set s. c \<in> {CHR '','', quote_char, CHR 0x0D, CHR 0x0A}")
  case True
  have "d \<noteq> quote_char" using assms by (auto simp: quote_char_def)
  then show ?thesis
    using read_quoted_escaped [of "d # rest" s] unfolding csv_field_def if_P [OF True] by (simp add: read_field_def)
next
  case False
  then have free: "c \<notin> {CHR '','', CHR 0x0D}" if "c \<in> set s" for c using that by blast
  have plain: "read_plain (s @ d # rest) = (s, d # rest)"
    unfolding read_plain_def Let_def using free assms by (subst takeWhile_append2, blast, subst dropWhile_append2, blast) simp
  show ?thesis
  proof (cases s)
    case Nil
    with assms plain show ?thesis by (auto simp: csv_field_def read_field_def quote_char_def)
  next
    case (Cons c cs)
    with False have "c \<noteq> quote_char" by auto
    with plain show ?thesis unfolding csv_field_def if_not_P [OF False] by (simp add: read_field_def Cons)
  qed
qed

lemma read_row_written:
  "cols \<noteq> [] \<Longrightarrow> length cols \<le> n \<Longrightarrow> read_row n (csv_row cols @ rest) = Some (cols, rest)"
proof (induction cols arbitrary: n)
  case (Cons f fs)
  then obtain m where n: "n = Suc m" by (cases n) auto
  show ?case
  proof (cases "fs = []")
    case True
    have "csv_row (f # fs) @ rest = csv_field f @ CHR 0x0D # CHR 0x0A # rest" by (simp add: csv_row_def True)
    then show ?thesis by (simp add: n True read_field_written)
  next
    case False
    then have "csv_row (f # fs) @ rest = csv_field f @ CHR '','' # csv_row fs @ rest"
      by (cases fs) (simp_all add: csv_row_def)
    with Cons False show ?thesis by (simp add: n read_field_written)
  qed
qed simp

lemma read_rows_written:
  "\<forall>cols \<in> set rows. cols \<noteq> [] \<and> length cols \<le> n \<Longrightarrow>
     read_rows n (length rows) (concat (map csv_row rows) @ rest) = Some (rows, rest)"
  by (induction rows) (simp_all add: read_row_written)

lemma csv_safe_safe: "csv_safe v = [] \<or> hd (csv_safe v) \<notin> set formula_chars"
  by (auto simp: csv_safe_def formula_chars_def split: option.splits)

text \<open>The queue only holds priorities of the CHECK constraint.\<close>

definition queue_priorities :: "string list" where
  "queue_priorities = [''low'', ''medium'', ''high'']"

definition reviews_ok :: "cloud_db \<Rightarrow> bool" where
  "reviews_ok db \<longleftrightarrow> (\<forall>k q. dget (cd_reviews db) k = Some q \<longrightarrow> rq_priority q \<in> set queue_priorities)"

lemma review_request_priority:
  "review_request note priority = Inr (n, p) \<Longrightarrow> p \<in> set queue_priorities"
  by (auto simp: review_request_def priority_texts_def queue_priorities_def lower_char_def char_of_eq_iff split: if_splits)

lemma found_or_404_ok:
  assumes "reviews_ok db" "\<And>n db'. r = Inr (n, db') \<Longrightarrow> reviews_ok db'"
  shows "reviews_ok (snd (found_or_404 detail r answer db))"
  using assms by (simp add: found_or_404_def split: sum.split prod.split)

lemma upsert_review_ok:
  assumes "upsert_review b i new upd db = Inr (n, db')" "reviews_ok db"
    "\<And>e. rq_priority (new e) \<in> set queue_priorities"
    "\<And>x old. rq_priority (upd x old) \<in> {rq_priority x, rq_priority old}"
  shows "reviews_ok db'"
proof (cases "find_cloud_event db i")
  case (Some e)
  have row: "rq_priority (case dget (cd_reviews db) i of None \<Rightarrow> new e | Some old \<Rightarrow> upd (new e) old) \<in> set queue_priorities"
  proof (cases "dget (cd_reviews db) i")
    case (Some old)
    with assms(2) have "rq_priority old \<in> set queue_priorities" by (simp add: reviews_ok_def)
    with assms(3) [of e] assms(4) [of "new e" old] Some show ?thesis by auto
  qed (simp add: assms(3))
  from assms(1) Some have "db' = db\<lparr>cd_reviews := dset (cd_reviews db) i
      (case dget (cd_reviews db) i of None \<Rightarrow> new e | Some old \<Rightarrow> upd (new e) old)\<rparr>"
    by (simp add: upsert_review_def Let_def split: if_splits)
  with assms(2) row show ?thesis by (simp add: reviews_ok_def)
qed (use assms(1,2) in \<open>simp add: upsert_review_def split: if_splits\<close>)

lemma low_priority: "''low'' \<in> set queue_priorities"
  by (simp add: queue_priorities_def)

lemma review_steps_ok:
  assumes "reviews_ok db"
  shows "reviews_ok (snd (review_exception b D now u i note priority db))"
    "reviews_ok (snd (dismiss_exception b D now u i db))"
    "reviews_ok (snd (reopen_exception i db))"
proof -
  show "reviews_ok (snd (review_exception b D now u i note priority db))"
  proof (cases "review_request note priority")
    case (Inr r)
    obtain n p where r: "r = (n, p)" by (cases r)
    have "p \<in> set queue_priorities" by (rule review_request_priority [OF Inr [unfolded r]])
    then show ?thesis
      unfolding review_exception_def Inr r
      by (simp only: sum.case prod.case) (rule found_or_404_ok [OF assms], erule upsert_review_ok [OF _ assms], simp_all add: queue_row_def low_priority)
  qed (simp add: review_exception_def assms)
  show "reviews_ok (snd (dismiss_exception b D now u i db))"
    unfolding dismiss_exception_def
    by (rule found_or_404_ok [OF assms], erule upsert_review_ok [OF _ assms]) (simp_all add: queue_row_def low_priority)
  show "reviews_ok (snd (reopen_exception i db))"
    using assms by (auto simp: reopen_exception_def reviews_ok_def split: option.splits)
qed

text \<open>Nothing but the queue changes.\<close>

definition only_reviews :: "cloud_db \<Rightarrow> cloud_db \<Rightarrow> bool" where
  "only_reviews db db' \<longleftrightarrow> db' = db\<lparr>cd_reviews := cd_reviews db'\<rparr>"

lemma only_reviews_refl: "only_reviews db db"
  by (simp add: only_reviews_def)

lemma found_or_404_frame:
  assumes "\<And>n db'. r = Inr (n, db') \<Longrightarrow> only_reviews db db'"
  shows "only_reviews db (snd (found_or_404 detail r answer db))"
  using assms only_reviews_refl [of db] by (cases r) (auto simp: found_or_404_def)

lemma upsert_review_frame: "upsert_review b i new upd db = Inr (n, db') \<Longrightarrow> only_reviews db db'"
  by (auto simp: upsert_review_def Let_def only_reviews_def split: if_splits option.splits)

lemma review_frames:
  "only_reviews db (snd (review_exception b D now u i note priority db))"
  "only_reviews db (snd (dismiss_exception b D now u i db))"
  "only_reviews db (snd (reopen_exception i db))"
proof -
  show "only_reviews db (snd (review_exception b D now u i note priority db))"
  proof (cases "review_request note priority")
    case (Inr r)
    obtain n p where r: "r = (n, p)" by (cases r)
    show ?thesis
      unfolding review_exception_def Inr r sum.case prod.case
      by (rule found_or_404_frame) (erule upsert_review_frame)
  qed (simp add: review_exception_def only_reviews_refl)
  show "only_reviews db (snd (dismiss_exception b D now u i db))"
    unfolding dismiss_exception_def by (rule found_or_404_frame) (erule upsert_review_frame)
  show "only_reviews db (snd (reopen_exception i db))"
    by (simp add: reopen_exception_def only_reviews_def split: option.split)
qed

end
