(* ===== verification/Cloud_System.thy ===== *)
theory Cloud_System
  imports Cloud_Ingest_Facts Cloud_Access_Facts Cloud_Config Cloud_Reviews
begin

text \<open>
  \<open>cloud-backend\<close> as one transition system: every request that changes a table or the alert
  stream is a step. A request of the escalation and user endpoints appears as its second half,
  for any value its first half may have read, so that requests may interleave at will. The
  invariant collects what the tables keep, whatever requests arrive.
\<close>

inductive cloud_step :: "cloud \<Rightarrow> cloud \<Rightarrow> bool" where
  Ingest: "ingest_events E evs S = (r, S') \<Longrightarrow> cloud_step S S'"
| Acknowledge: "acknowledge_after D now i op st S = (r, S') \<Longrightarrow> cloud_step S S'"
| Resolve: "resolve_request_ok q \<Longrightarrow> resolve_after D now i q st S = (r, S') \<Longrightarrow> cloud_step S S'"
| Dismiss: "dismiss_after D i m st S = (u, S') \<Longrightarrow> cloud_step S S'"
| Disable: "disable_alert_class A actor code S = (r, S') \<Longrightarrow> cloud_step S S'"
| Enable: "enable_alert_class A actor code S = (r, S') \<Longrightarrow> cloud_step S S'"
| Patch_thresholds: "patch_confidence_thresholds tick p S = (t, S') \<Longrightarrow> cloud_step S S'"
| Read_thresholds: "confidence_thresholds tick S = (cfg, S') \<Longrightarrow> cloud_step S S'"
| Read_health: "degraded_get D tick now S = (b, S') \<Longrightarrow> cloud_step S S'"
| Users: "user_write D B (cl_db S) db \<Longrightarrow> cloud_step S (S\<lparr>cl_db := db\<rparr>)"
| Preferences: "patch_preferences D cu t s (cl_db S) = (pr, db) \<Longrightarrow> cloud_step S (S\<lparr>cl_db := db\<rparr>)"
| Review: "review_exception ti D now u i nt p (cl_db S) = (out, db) \<Longrightarrow> cloud_step S (S\<lparr>cl_db := db\<rparr>)"
| Dismiss_review: "dismiss_exception ti D now u i (cl_db S) = (d, db) \<Longrightarrow> cloud_step S (S\<lparr>cl_db := db\<rparr>)"
| Reopen: "reopen_exception i (cl_db S) = (d, db) \<Longrightarrow> cloud_step S (S\<lparr>cl_db := db\<rparr>)"
| Connect: "cloud_step S (S\<lparr>cl_hub := sse_connect k (cl_hub S)\<rparr>)"
| Replay: "sse_replay D tx dumps tick lid S = Inr (frames, S') \<Longrightarrow> cloud_step S S'"
| Deliver: "sse_next tx dumps k (cl_hub S) = (f, h) \<Longrightarrow> cloud_step S (S\<lparr>cl_hub := h\<rparr>)"
| Disconnect: "cloud_step S (S\<lparr>cl_hub := sse_disconnect k (cl_hub S)\<rparr>)"

definition cloud_init :: "cloud \<Rightarrow> bool" where
  "cloud_init S \<longleftrightarrow> (\<exists>us. S = cloud_start\<lparr>cl_db := init_cloud_db\<lparr>cd_users := us\<rparr>\<rparr>)"

text \<open>The types the event table may hold: those an envelope can carry.\<close>

definition types_known :: "cloud_db \<Rightarrow> bool" where
  "types_known db \<longleftrightarrow> ce_type ` set (cd_events db) \<subseteq> range event_type_value"

text \<open>The values the CHECK constraints allow, and what the code adds to them.\<close>

definition tables_typed :: "cloud_db \<Rightarrow> bool" where
  "tables_typed db \<longleftrightarrow>
     dwf (cd_classes db) \<and> dwf (cd_thresholds db) \<and>
     (\<forall>k r. dget (cd_preferences db) k = Some r \<longrightarrow>
        pf_threshold_sec r \<in> set valid_threshold_sec \<and> pf_staleness_sec r \<in> set valid_staleness_sec) \<and>
     (\<forall>k v. dget (cd_thresholds db) k = Some v \<longrightarrow> valid_threshold (k = floor_key) v) \<and>
     reviews_ok db"

definition cloud_ok :: "cloud \<Rightarrow> bool" where
  "cloud_ok S \<longleftrightarrow> cloud_inv (cl_db S) \<and> types_known (cl_db S) \<and> tables_typed (cl_db S) \<and> hub_bounded (cl_hub S)"

section \<open>Frames: what the handlers leave alone\<close>

lemma commit_transition_simps [simp]:
  "cl_filter (commit_transition i st r S) = cl_filter S"
  by (simp add: commit_transition_def publish_lifecycle_def Let_def split: prod.split)

lemma commit_transition_hub: "hub_bounded (cl_hub S) \<Longrightarrow> hub_bounded (cl_hub (commit_transition i st r S))"
  by (simp add: commit_transition_def publish_lifecycle_def Let_def hub_bounded_publish split: prod.split)

lemma record_transition_simps [simp]:
  "cd_events (record_transition k t op db) = cd_events db"
  "cd_classes (record_transition k t op db) = cd_classes db"
  "cd_preferences (record_transition k t op db) = cd_preferences db"
  "cd_thresholds (record_transition k t op db) = cd_thresholds db"
  "cd_reviews (record_transition k t op db) = cd_reviews db"
  by (simp_all add: record_transition_def split: option.split)

lemma lifecycle_tables:
  "cd_events (snd (acknowledge_commit now k op db)) = cd_events db"
  "cd_events (snd (resolve_commit now k q keys db)) = cd_events db"
  "cd_events (record_silently_dismissed k m db) = cd_events db"
  "cd_classes (snd (acknowledge_commit now k op db)) = cd_classes db"
  "cd_classes (snd (resolve_commit now k q keys db)) = cd_classes db"
  "cd_classes (record_silently_dismissed k m db) = cd_classes db"
  "cd_preferences (snd (acknowledge_commit now k op db)) = cd_preferences db"
  "cd_preferences (snd (resolve_commit now k q keys db)) = cd_preferences db"
  "cd_preferences (record_silently_dismissed k m db) = cd_preferences db"
  "cd_thresholds (snd (acknowledge_commit now k op db)) = cd_thresholds db"
  "cd_thresholds (snd (resolve_commit now k q keys db)) = cd_thresholds db"
  "cd_thresholds (record_silently_dismissed k m db) = cd_thresholds db"
  "cd_reviews (snd (acknowledge_commit now k op db)) = cd_reviews db"
  "cd_reviews (snd (resolve_commit now k q keys db)) = cd_reviews db"
  "cd_reviews (record_silently_dismissed k m db) = cd_reviews db"
  by (simp_all add: acknowledge_commit_def resolve_commit_def record_silently_dismissed_def split: option.split)

lemma cloud_ok_cong:
  assumes "cloud_ok S"
    "cd_events (cl_db S') = cd_events (cl_db S)" "cd_classes (cl_db S') = cd_classes (cl_db S)"
    "cd_preferences (cl_db S') = cd_preferences (cl_db S)" "cd_thresholds (cl_db S') = cd_thresholds (cl_db S)"
    "cd_reviews (cl_db S') = cd_reviews (cl_db S)"
    "lifecycle_ok (cl_db S')" "hub_bounded (cl_hub S')"
  shows "cloud_ok S'"
  using assms by (simp add: cloud_ok_def cloud_inv_def events_keyed_def types_known_def tables_typed_def reviews_ok_def)

lemma lifecycle_unchanged:
  "cloud_ok S \<Longrightarrow> cd_escalations (cl_db S') = cd_escalations (cl_db S) \<Longrightarrow> cd_audit (cl_db S') = cd_audit (cl_db S) \<Longrightarrow>
    lifecycle_ok (cl_db S')"
  by (simp add: cloud_ok_def cloud_inv_def lifecycle_ok_def)

section \<open>Steps\<close>

lemma acknowledge_ok: "cloud_ok S \<Longrightarrow> cloud_ok (snd (acknowledge_after D now i op st S))"
  by (auto simp: acknowledge_after_def lifecycle_tables lifecycle_acknowledge commit_transition_hub
      cloud_ok_def cloud_inv_def events_keyed_def types_known_def tables_typed_def reviews_ok_def
      split: option.splits esc_status.splits sum.splits)

lemma resolve_ok: "cloud_ok S \<Longrightarrow> resolve_request_ok q \<Longrightarrow> cloud_ok (snd (resolve_after D now i q st S))"
  using lifecycle_handlers(2) [of S q D now i st]
  by (auto simp: resolve_after_def lifecycle_tables commit_transition_hub
      cloud_ok_def cloud_inv_def events_keyed_def types_known_def tables_typed_def reviews_ok_def
      split: option.splits esc_status.splits sum.splits)

lemma dismiss_ok: "cloud_ok S \<Longrightarrow> cloud_ok (snd (dismiss_after D i m st S))"
  by (auto simp: dismiss_after_def lifecycle_tables lifecycle_dismiss
      cloud_ok_def cloud_inv_def events_keyed_def types_known_def tables_typed_def reviews_ok_def
      split: option.splits esc_status.splits sum.splits)

lemma raise_escalation_tables:
  assumes "raise_escalation D k ev ts db = Inr db'"
  shows "cd_preferences db' = cd_preferences db" "cd_thresholds db' = cd_thresholds db"
    "cd_reviews db' = cd_reviews db"
  using assms by (auto simp: raise_escalation_def res_iff record_raised_def split: if_splits)

lemma store_event_tables:
  assumes "store_event D ev ts db = Inr (k, n, db')"
  shows "cd_classes db' = cd_classes db" "cd_preferences db' = cd_preferences db"
    "cd_thresholds db' = cd_thresholds db" "cd_reviews db' = cd_reviews db"
    "types_known db \<Longrightarrow> types_known db'"
  using assms
  by (auto simp: store_event_def res_iff ensure_journey_def types_known_def event_row_def split: if_splits)

lemma ingest_one_tables:
  assumes "ingest_one E ev a = Inr a'"
  shows "cd_classes (ia_db a') = cd_classes (ia_db a)" "cd_preferences (ia_db a') = cd_preferences (ia_db a)"
    "cd_thresholds (ia_db a') = cd_thresholds (ia_db a)" "cd_reviews (ia_db a') = cd_reviews (ia_db a)"
    "types_known (ia_db a) \<Longrightarrow> types_known (ia_db a')"
    "hub_bounded (ia_hub a) \<Longrightarrow> hub_bounded (ia_hub a')"
proof -
  have side: "cd_classes db' = cd_classes db \<and> cd_preferences db' = cd_preferences db \<and>
      cd_thresholds db' = cd_thresholds db \<and> cd_reviews db' = cd_reviews db \<and> cd_events db' = cd_events db"
    if "side_rows E k ev ts db = Inr db'" for k ts db db'
    using that side_rows_frame [OF that] raise_escalation_tables
    by (auto simp: side_rows_def upsert_heartbeat_def split: if_splits)
  have fan: "hub_bounded (ia_hub b) \<Longrightarrow> hub_bounded (ia_hub (fan_out E ev ts b))" for ts b
    by (simp add: fan_out_def hub_bounded_publish split: prod.split)
  have "(cd_classes (ia_db a') = cd_classes (ia_db a) \<and> cd_preferences (ia_db a') = cd_preferences (ia_db a) \<and>
    cd_thresholds (ia_db a') = cd_thresholds (ia_db a) \<and> cd_reviews (ia_db a') = cd_reviews (ia_db a)) \<and>
    (types_known (ia_db a) \<longrightarrow> types_known (ia_db a')) \<and> (hub_bounded (ia_hub a) \<longrightarrow> hub_bounded (ia_hub a'))"
  proof (cases "ev_schema_version ev \<in> set supported_schema_versions")
    case True
    with assms obtain ts k n db where st: "store_event (ig_driver E) ev ts (ia_db a) = Inr (k, n, db)"
      and rest: "(if n = 0 then Inr (a\<lparr>ia_db := db, ia_duplicates := ia_duplicates a @ [ev_id ev]\<rparr>)
          else bind_res (side_rows E k ev ts db) (\<lambda>db'.
            Inr (fan_out E ev ts (a\<lparr>ia_db := db', ia_accepted := ia_accepted a + 1\<rparr>)))) = Inr a'"
      by (auto simp: ingest_one_def res_iff)
    note stored = store_event_tables [OF st]
    show ?thesis
    proof (cases "n = 0")
      case False
      with rest obtain db' where sd: "side_rows E k ev ts db = Inr db'"
        and a': "a' = fan_out E ev ts (a\<lparr>ia_db := db', ia_accepted := ia_accepted a + 1\<rparr>)"
        by (auto simp: res_iff)
      show ?thesis using stored side [OF sd] fan by (simp add: a' types_known_def)
    qed (use rest stored in auto)
  qed (use assms in \<open>simp add: ingest_one_def\<close>)
  then show "cd_classes (ia_db a') = cd_classes (ia_db a)" "cd_preferences (ia_db a') = cd_preferences (ia_db a)"
    "cd_thresholds (ia_db a') = cd_thresholds (ia_db a)" "cd_reviews (ia_db a') = cd_reviews (ia_db a)"
    "types_known (ia_db a) \<Longrightarrow> types_known (ia_db a')"
    "hub_bounded (ia_hub a) \<Longrightarrow> hub_bounded (ia_hub a')"
    by simp_all
qed

lemma ingest_loop_tables:
  assumes "ingest_loop E evs a = (r, a')"
  shows "cd_classes (ia_db a') = cd_classes (ia_db a)" "cd_preferences (ia_db a') = cd_preferences (ia_db a)"
    "cd_thresholds (ia_db a') = cd_thresholds (ia_db a)" "cd_reviews (ia_db a') = cd_reviews (ia_db a)"
    "types_known (ia_db a) \<Longrightarrow> types_known (ia_db a')"
    "hub_bounded (ia_hub a) \<Longrightarrow> hub_bounded (ia_hub a')"
  using assms
  by (induction evs arbitrary: a)
    (auto split: sum.splits simp: ingest_one_tables(1-4) dest: ingest_one_tables(5,6))

lemma ingest_ok:
  assumes "cloud_ok S"
  shows "cloud_ok (snd (ingest_events E evs S))"
  using assms
  by (auto simp: ingest_events_def cloud_ok_def tables_typed_def reviews_ok_def ingest_loop_tables
      split: prod.splits option.splits dest: ingest_loop_inv)

lemma persist_audit_event_tables:
  assumes "persist_audit_event A et code actor db = Inr db'"
  shows "cd_classes db' = cd_classes db" "cd_preferences db' = cd_preferences db"
    "cd_thresholds db' = cd_thresholds db" "cd_reviews db' = cd_reviews db" "cloud_inv db \<Longrightarrow> cloud_inv db'"
    "types_known db \<Longrightarrow> types_known db'"
proof -
  obtain env ts k n where ins: "insert_cloud_event (event_row k env ts)
       (ensure_journey (ev_journey_id env)
          \<lparr>cj_vehicle_id = ev_vehicle_id env, cj_trip_number = ''admin'', cj_route_name = None,
           cj_start_time = ts, cj_end_time = None\<rparr> db) = Inr (n, db')"
    using assms by (auto simp: persist_audit_event_def bind_res_Inr_iff)
  show "cd_classes db' = cd_classes db" "cd_preferences db' = cd_preferences db"
    "cd_thresholds db' = cd_thresholds db" "cd_reviews db' = cd_reviews db" "types_known db \<Longrightarrow> types_known db'"
    using ins by (auto simp: res_iff ensure_journey_def types_known_def event_row_def split: if_splits)
  assume inv: "cloud_inv db"
  then have "events_keyed (ensure_journey (ev_journey_id env)
          \<lparr>cj_vehicle_id = ev_vehicle_id env, cj_trip_number = ''admin'', cj_route_name = None,
           cj_start_time = ts, cj_end_time = None\<rparr> db)"
    by (simp add: cloud_inv_def events_keyed_def)
  then have "events_keyed db'" by (rule events_keyed_insert [OF _ ins])
  moreover have "lifecycle_ok db'"
    using ins inv by (auto simp: cloud_inv_def lifecycle_ok_def res_iff split: if_splits)
  ultimately show "cloud_inv db'" by (simp add: cloud_inv_def)
qed

lemma change_class_ok:
  assumes "cloud_ok S"
  shows "cloud_ok (snd (change_class A et code actor f st S))"
proof (cases "persist_audit_event A et code actor
     ((cl_db S)\<lparr>cd_classes := dset (cd_classes (cl_db S)) code (f (dget (cd_classes (cl_db S)) code))\<rparr>)")
  case (Inr db)
  from assms persist_audit_event_tables [OF Inr] show ?thesis
    by (simp add: change_class_def Inr cloud_ok_def cloud_inv_def events_keyed_def lifecycle_ok_def
        types_known_def tables_typed_def reviews_ok_def)
qed (simp add: change_class_def assms)

lemma confidence_thresholds_db [simp]:
  "cl_db (snd (confidence_thresholds tick S)) = cl_db S"
  "cl_hub (snd (confidence_thresholds tick S)) = cl_hub S"
  by (simp_all add: confidence_thresholds_def split: prod.split)

lemma confidence_thresholds_pair:
  "confidence_thresholds tick S = (cfg, S') \<Longrightarrow> cl_db S' = cl_db S \<and> cl_hub S' = cl_hub S"
  by (auto simp: confidence_thresholds_def split: prod.splits)

lemma store_thresholds_typed:
  assumes "threshold_updates p = Inr u" "tables_typed db"
  shows "tables_typed (store_thresholds u db)"
proof -
  have wf: "dwf u" by (rule dwf_threshold_updates [OF assms(1)])
  have "valid_threshold (k = floor_key) (Some (Finite q))" if "dget u k = Some q" for k q
    using threshold_updates_ok [OF assms(1) map_of_SomeD [OF that]] prefix_not_floor
    by (auto simp: valid_threshold_def)
  then show ?thesis
    using assms(2) dget_store_thresholds [OF wf, of db] dwf_store_thresholds [of db u]
    by (auto simp: tables_typed_def store_thresholds_def reviews_ok_def split: option.splits)
qed

lemma patch_thresholds_ok:
  assumes "cloud_ok S"
  shows "cloud_ok (snd (patch_confidence_thresholds tick p S))"
proof (cases "threshold_updates p")
  case (Inr u)
  have "snd (patch_confidence_thresholds tick p S) = snd (confidence_thresholds tick
      (S\<lparr>cl_db := store_thresholds u (cl_db S), cl_thresholds := threshold_invalidate (cl_thresholds S),
         cl_degraded := degraded_reset (cl_degraded S)\<rparr>))"
    by (simp add: patch_confidence_thresholds_def Inr split: prod.split)
  then show ?thesis
    using assms store_thresholds_typed [OF Inr, of "cl_db S"]
    by (simp add: cloud_ok_def)
      (simp add: store_thresholds_def cloud_inv_def events_keyed_def lifecycle_ok_def types_known_def)
qed (simp add: patch_confidence_thresholds_def assms)

lemma degraded_get_ok: "cloud_ok S \<Longrightarrow> cloud_ok (snd (degraded_get D tick now S))"
proof -
  assume ok: "cloud_ok S"
  have "cl_db (snd (degraded_get D tick now S)) = cl_db S" "cl_hub (snd (degraded_get D tick now S)) = cl_hub S"
    by (auto simp: degraded_get_def split: sum.split prod.split dest: confidence_thresholds_pair)
  with ok show ?thesis by (simp add: cloud_ok_def)
qed

lemma user_write_tables:
  assumes "user_write D B db db'"
  shows "db' = db \<or> (\<exists>us au. db' = db\<lparr>cd_users := us, cd_user_audit := au\<rparr>)"
  using assms
proof (cases rule: user_write.cases)
  case (Write_create salt cu i n p rol taken out)
  from create_user_after_db [OF this] show ?thesis unfolding audit_user_def by auto
next
  case (Write_patch cu i p t out)
  have "\<exists>us au. patched a k old rol act db = db\<lparr>cd_users := us, cd_user_audit := au\<rparr>" for a k old rol act
    by (rule exI [of _ "cd_users (patched a k old rol act db)"],
        rule exI [of _ "cd_user_audit (patched a k old rol act db)"])
      (simp add: patched_def Let_def audit_user_def set_user_def split: option.split)
  with patch_user_after_db [OF Write_patch] show ?thesis by metis
next
  case (Write_password salt cu i p out)
  from reset_password_db [OF this] show ?thesis unfolding audit_user_def by auto
qed

lemma patch_preferences_typed:
  assumes "patch_preferences D cu t s db = (r, db')" "tables_typed db"
  shows "tables_typed db' \<and> (\<exists>p. db' = db\<lparr>cd_preferences := p\<rparr>)"
proof (cases "db' = db")
  case False
  with assms(1) obtain k where k: "db' = db\<lparr>cd_preferences := dset (cd_preferences db) k
      \<lparr>pf_threshold_sec = keep_or t (pf_threshold_sec (dget_or (cd_preferences db) k default_preferences)),
       pf_staleness_sec = keep_or s (pf_staleness_sec (dget_or (cd_preferences db) k default_preferences))\<rparr>\<rparr>"
    and t: "case t of None \<Rightarrow> True | Some x \<Rightarrow> x \<in> set valid_threshold_sec"
    and s: "case s of None \<Rightarrow> True | Some x \<Rightarrow> x \<in> set valid_staleness_sec"
    by (auto simp: patch_preferences_def Let_def split: if_splits sum.splits option.splits)
  have "pf_threshold_sec (dget_or (cd_preferences db) k default_preferences) \<in> set valid_threshold_sec"
    "pf_staleness_sec (dget_or (cd_preferences db) k default_preferences) \<in> set valid_staleness_sec"
    using assms(2)
    by (auto simp: tables_typed_def dget_or_def default_preferences_def valid_threshold_sec_def
        valid_staleness_sec_def split: option.splits)
  with assms(2) t s show ?thesis
    unfolding k by (auto simp: tables_typed_def reviews_ok_def split: option.splits)
qed (use assms(2) in \<open>auto intro: exI [of _ "cd_preferences db"]\<close>)

lemma review_cloud_ok:
  assumes "cloud_ok S" "only_reviews (cl_db S) db" "reviews_ok (cl_db S) \<Longrightarrow> reviews_ok db"
  shows "cloud_ok (S\<lparr>cl_db := db\<rparr>)"
proof -
  obtain q where "db = (cl_db S)\<lparr>cd_reviews := q\<rparr>" using assms(2) unfolding only_reviews_def by metis
  with assms(1,3) show ?thesis
    by (simp add: cloud_ok_def cloud_inv_def events_keyed_def lifecycle_ok_def types_known_def tables_typed_def)
qed

lemma cloud_step_ok:
  assumes "cloud_ok S" "cloud_step S S'"
  shows "cloud_ok S'"
  using assms(2,1)
proof (cases rule: cloud_step.cases)
  case (Users D B db)
  from user_write_tables [OF Users(2)] show ?thesis
    using assms(1) Users(1)
    by (auto simp: cloud_ok_def cloud_inv_def events_keyed_def lifecycle_ok_def types_known_def tables_typed_def reviews_ok_def)
next
  case (Preferences D cu t s pr db)
  then have "tables_typed db \<and> (\<exists>p. db = (cl_db S)\<lparr>cd_preferences := p\<rparr>)"
    using patch_preferences_typed assms(1) by (auto simp: cloud_ok_def)
  with Preferences assms(1) show ?thesis
    by (auto simp: cloud_ok_def cloud_inv_def events_keyed_def lifecycle_ok_def types_known_def)
next
  case (Review ti D now u i nt p out db)
  then show ?thesis
    using review_cloud_ok [OF assms(1)] review_frames(1) review_steps_ok(1) by (metis snd_conv)
next
  case (Dismiss_review ti D now u i d db)
  then show ?thesis
    using review_cloud_ok [OF assms(1)] review_frames(2) review_steps_ok(2) by (metis snd_conv)
next
  case (Reopen i d db)
  then show ?thesis
    using review_cloud_ok [OF assms(1)] review_frames(3) review_steps_ok(3) by (metis snd_conv)
next
  case (Replay D tx dumps tick lid frames)
  then show ?thesis
    using assms(1) by (auto simp: sse_replay_def res_iff cloud_ok_def split: prod.splits)
next
  case (Deliver tx dumps k f h)
  then show ?thesis
    using assms(1) hub_bounded_next [of "cl_hub S" tx dumps k] by (simp add: cloud_ok_def)
qed (use assms(1) ingest_ok acknowledge_ok resolve_ok dismiss_ok change_class_ok patch_thresholds_ok degraded_get_ok
    confidence_thresholds_db hub_bounded_connect hub_bounded_disconnect in
    \<open>fastforce simp: cloud_ok_def disable_alert_class_def enable_alert_class_def dest: arg_cong [where f = snd]\<close>)+

lemma threshold_seed_typed: "dget threshold_seed k = Some v \<Longrightarrow> valid_threshold (k = floor_key) v"
  by (auto simp: threshold_seed_def valid_threshold_def floor_key_def split: if_splits)

lemma cloud_init_ok: "cloud_init S \<Longrightarrow> cloud_ok S"
  using threshold_seed_typed
  by (auto simp: cloud_init_def cloud_start_def cloud_ok_def init_cloud_db_def cloud_inv_def events_keyed_def
      lifecycle_ok_def audit_word_def types_known_def tables_typed_def reviews_ok_def hub_bounded_def dwf_def dkeys_def
      threshold_seed_def)

interpretation landside: invariant_system cloud_init cloud_step cloud_ok
  by unfold_locales (auto intro: cloud_init_ok cloud_step_ok)

end
