(* ===== verification/Cloud_Properties.thy ===== *)
theory Cloud_Properties
  imports Cloud_System
begin

text \<open>
  The properties of \<open>cloud-backend\<close>, each with a concrete instance: what a batch does, what a
  repeated and an aborted batch do, the escalation lifecycle, the kill-switch, the thresholds
  and their caches, login and the administrators.
\<close>

section \<open>Sample data\<close>

definition sample_alert :: "nat \<Rightarrow> datetime \<Rightarrow> envelope" where
  "sample_alert n t =
     \<lparr>ev_id = sample_uuid n, ev_journey_id = ''T1_RJ42_20260517'', ev_vehicle_id = ''T1'',
      ev_timestamp = iso_head t @ ''Z'', ev_type = ALERT_RAISED, ev_severity = Sev_warning,
      ev_source = Src_fusion, ev_schema_version = 1,
      ev_payload = [(''alert_id'', JStr ''a1''), (''alert_code'', JStr ''door_obstruction'')]\<rparr>"

definition sample_ingest_env :: ingest_env where
  "sample_ingest_env =
     \<lparr>ig_driver = strict_driver, ig_text = (\<lambda>j. []), ig_now = sample_time, ig_mono = (\<lambda>n. 0)\<rparr>"

definition sample_client :: cloud where
  "sample_client = cloud_start\<lparr>cl_hub := [(0, [])]\<rparr>"

definition sample_batch :: "envelope list" where
  "sample_batch = [sample_alert 0 sample_time, sample_alert 1 sample_time]"

lemma parse_instant_Z:
  assumes "dt_ok t" "us t = 0"
  shows "parse_instant (iso_head t @ ''Z'') = Inr t"
  by (simp add: parse_instant_def py_replace_suffix [OF iso_head_no_Z] fromisoformat_s [OF assms])

lemma sample_alert_simps [simp]:
  "ev_id (sample_alert n t) = sample_uuid n" "ev_timestamp (sample_alert n t) = iso_head t @ ''Z''"
  "ev_type (sample_alert n t) = ALERT_RAISED" "ev_schema_version (sample_alert n t) = 1"
  "ev_payload (sample_alert n t) = [(''alert_id'', JStr ''a1''), (''alert_code'', JStr ''door_obstruction'')]"
  by (simp_all add: sample_alert_def)

lemma sample_version_ok: "validate_schema_version 1" "1 \<in> set supported_schema_versions"
  by (simp_all add: validate_schema_version_def supported_schema_versions_def)

lemma sample_batch_ok:
  "\<forall>ev \<in> set sample_batch. validate_event_id (ev_id ev) \<and> validate_schema_version (ev_schema_version ev)"
  by (simp add: sample_batch_def sample_uuid_ok sample_version_ok)

lemma sample_driver_ok: "driver_ok (ig_driver sample_ingest_env)"
  by (simp add: sample_ingest_env_def strict_driver_ok)

lemma sample_instant: "parse_instant (iso_head sample_time @ ''Z'') = Inr sample_time"
  by (rule parse_instant_Z [OF sample_time_ok]) (simp add: sample_time_def)

lemma sample_client_filter: "filter_current (cd_classes (cl_db sample_client)) (cl_filter sample_client)"
  by (simp add: filter_current_def sample_client_def cloud_start_def init_cloud_db_def new_alert_filter_def
      dwf_def dkeys_def)

text \<open>The second alert has the key of the first, so the batch stores one and reports the other.\<close>

lemma sample_escalation: "raise_escalation strict_driver k (sample_alert n t) ts db \<noteq> Inl f"
  by (simp add: raise_escalation_def new_escalation_def Let_def dget_or_def strict_driver_def bind_opt_def of_opt_def)

lemma sample_ingest_one:
  assumes "t = sample_time"
  shows "\<exists>a'. ingest_one sample_ingest_env (sample_alert n t) a = Inr a' \<or>
     ingest_one sample_ingest_env (sample_alert n t) a = Inl (Raised IntegrityError) \<and>
     stored_key (sample_alert n t) t \<notin> cloud_key ` set (cd_events (ia_db a)) \<and>
     map lower_char (sample_uuid n) \<in> ce_id ` set (cd_events (ia_db a))"
proof (cases "ingest_one sample_ingest_env (sample_alert n t) a")
  case (Inl f)
  then show ?thesis
    using assms sample_escalation
    by (auto simp: ingest_one_def sample_instant sample_version_ok store_event_def insert_cloud_event_def
        bind_id_valid [OF strict_driver_ok sample_uuid_ok] side_rows_def sample_ingest_env_def
        bind_res_def split: if_splits sum.splits)
qed simp

lemma sample_posted:
  obtains n dups S where "ingest_events sample_ingest_env sample_batch sample_client = (Inr (n, dups), S)"
proof -
  let ?a = "\<lparr>ia_db = cl_db sample_client, ia_hub = cl_hub sample_client,
      ia_filter = cl_filter sample_client, ia_accepted = 0, ia_duplicates = []\<rparr>"
  have empty: "cd_events (ia_db ?a) = []" by (simp add: sample_client_def cloud_start_def init_cloud_db_def)
  obtain a where a: "ingest_one sample_ingest_env (sample_alert 0 sample_time) ?a = Inr a"
    using sample_ingest_one [OF refl, of 0 ?a] empty by auto
  have "validate_schema_version (ev_schema_version (sample_alert 0 sample_time))"
    "validate_event_id (ev_id (sample_alert 0 sample_time))"
    by (simp_all add: sample_version_ok sample_uuid_ok)
  then have "cd_events (ia_db a) = [stored_row (sample_alert 0 sample_time, sample_time)]"
    using ingest_one_step [OF a sample_driver_ok] sample_client_filter sample_instant empty by fastforce
  then obtain b where "ingest_one sample_ingest_env (sample_alert 1 sample_time) a = Inr b"
    using sample_ingest_one [OF refl, of 1 a]
    by (auto simp: stored_row_def stored_key_def sample_alert_def cloud_key_def event_row_def)
  with a that show ?thesis by (fastforce simp: ingest_events_def sample_batch_def)
qed

section \<open>Batches\<close>

text \<open>C4: A batch of valid events that is answered 202 stores exactly the events whose key
  (journey, type, source, instant) is new, in order, reports the others as duplicates, and puts
  the new alerts that no disabled class withholds into the queue of every connected client, in
  order, up to the queue's capacity. The kill-switch map is as current as every reachable state keeps
  it, and no administrator's write interrupts the batch.\<close>

theorem ingest_batch:
  assumes "ingest_events E evs S = (Inr (n, dups), S')" "driver_ok (ig_driver E)"
    "\<forall>ev \<in> set evs. validate_event_id (ev_id ev) \<and> validate_schema_version (ev_schema_version ev)"
    "filter_current (cd_classes (cl_db S)) (cl_filter S)"
  shows "\<exists>tss new old. rows_of (\<lambda>ev. parse_instant (ev_timestamp ev)) evs = Inr tss \<and>
    split_fresh (cloud_key ` set (cd_events (cl_db S))) (zip evs tss) = (new, old) \<and>
    n = length new \<and> dups = map ev_id old \<and>
    cd_events (cl_db S') = cd_events (cl_db S) @ map stored_row new \<and>
    (\<forall>k. dget (cl_hub S') k = map_option (\<lambda>q. q @ take (queue_size - length q)
       (map (alert_frame \<circ> fst) (filter (shown (ig_text E) (cd_classes (cl_db S))) new))) (dget (cl_hub S) k))"
proof -
  let ?a = "\<lparr>ia_db = cl_db S, ia_hub = cl_hub S, ia_filter = cl_filter S, ia_accepted = 0, ia_duplicates = []\<rparr>"
  from assms(1) obtain a' where loop: "ingest_loop E evs ?a = (None, a')" and
    a': "n = ia_accepted a'" "dups = ia_duplicates a'" "S' = S\<lparr>cl_db := ia_db a', cl_hub := ia_hub a', cl_filter := ia_filter a'\<rparr>"
    by (auto simp: ingest_events_def split: prod.splits option.splits)
  obtain tss where tss: "rows_of (\<lambda>ev. parse_instant (ev_timestamp ev)) evs = Inr tss"
    and m: "matches_batch E ?a (split_fresh (cloud_key ` set (cd_events (ia_db ?a))) (zip evs tss)) a'"
    using ingest_loop_spec [OF loop assms(2,3)] assms(4) by auto
  obtain new old where r: "split_fresh (cloud_key ` set (cd_events (cl_db S))) (zip evs tss) = (new, old)"
    by fastforce
  with m have "n = length new" "dups = map ev_id old"
    "cd_events (cl_db S') = cd_events (cl_db S) @ map stored_row new"
    "cl_hub S' = publish_all (map (alert_frame \<circ> fst) (filter (shown (ig_text E) (cd_classes (cl_db S))) new)) (cl_hub S)"
    by (simp_all add: a' matches_batch_def)
  with tss r show ?thesis by (intro exI [of _ tss] exI [of _ new] exI [of _ old]) (simp add: dget_publish_all put_all)
qed

theorem ingest_batch_witness:
  "\<exists>dups S. ingest_events sample_ingest_env sample_batch sample_client = (Inr (1, dups), S) \<and>
     dget (cl_hub S) 0 = Some [alert_frame (sample_alert 0 sample_time)]"
proof -
  obtain n dups S where S: "ingest_events sample_ingest_env sample_batch sample_client = (Inr (n, dups), S)"
    by (rule sample_posted)
  have "shown tx [] (sample_alert 0 sample_time, sample_time)" for tx
    by (simp add: shown_def alert_event_types_def killed_def)
  with ingest_batch [OF S sample_driver_ok sample_batch_ok sample_client_filter] S show ?thesis
    by (auto simp: sample_batch_def sample_instant sample_client_def cloud_start_def init_cloud_db_def
        stored_key_def sample_alert_def cloud_key_def event_row_def queue_size_def)
qed

text \<open>C13: Delivery is idempotent: a batch that was stored, delivered a second time, is answered 202
  with nothing accepted and every event a duplicate; events, escalations, audit rows and the
  alert queues stay as they are.\<close>

theorem batch_again:
  assumes "ingest_events E evs S = (Inr r, S')" "driver_ok (ig_driver E)" "driver_ok (ig_driver E')"
    "\<forall>ev \<in> set evs. validate_event_id (ev_id ev) \<and> validate_schema_version (ev_schema_version ev)"
    "filter_current (cd_classes (cl_db S)) (cl_filter S)"
  shows "\<exists>S''. ingest_events E' evs S' = (Inr (0, map ev_id evs), S'') \<and>
    cd_events (cl_db S'') = cd_events (cl_db S') \<and> cd_escalations (cl_db S'') = cd_escalations (cl_db S') \<and>
    cd_audit (cl_db S'') = cd_audit (cl_db S') \<and> cl_hub S'' = cl_hub S'"
proof -
  obtain n dups where r: "r = (n, dups)" by fastforce
  obtain tss new old where tss: "rows_of (\<lambda>ev. parse_instant (ev_timestamp ev)) evs = Inr tss"
    and new: "split_fresh (cloud_key ` set (cd_events (cl_db S))) (zip evs tss) = (new, old)"
    and ev: "cd_events (cl_db S') = cd_events (cl_db S) @ map stored_row new"
    using ingest_batch [OF assms(1) [unfolded r] assms(2,4,5)] by blast
  have known: "\<forall>(ev, ts) \<in> set (zip evs tss). stored_key ev ts \<in> cloud_key ` set (cd_events (cl_db S'))"
  proof clarify
    fix e t
    assume "(e, t) \<in> set (zip evs tss)"
    from split_fresh_keys [OF this, of "cloud_key ` set (cd_events (cl_db S))"]
    show "stored_key e t \<in> cloud_key ` set (cd_events (cl_db S'))"
      by (auto simp: new ev image_Un image_image stored_row_key case_prod_unfold)
  qed
  let ?a = "\<lparr>ia_db = cl_db S', ia_hub = cl_hub S', ia_filter = cl_filter S', ia_accepted = 0, ia_duplicates = []\<rparr>"
  obtain a' where "ingest_loop E' evs ?a = (None, a')" "ia_accepted a' = 0" "ia_duplicates a' = map ev_id evs"
    "ia_hub a' = cl_hub S'" "cd_events (ia_db a') = cd_events (cl_db S')"
    "cd_escalations (ia_db a') = cd_escalations (cl_db S')" "cd_audit (ia_db a') = cd_audit (cl_db S')"
    using ingest_known [OF assms(3,4) tss, of ?a] known by auto
  then show ?thesis by (simp add: ingest_events_def)
qed

theorem batch_again_witness:
  "\<exists>S S'. ingest_events sample_ingest_env sample_batch S = (Inr (0, [sample_uuid 0, sample_uuid 1]), S') \<and>
     cd_events (cl_db S') = cd_events (cl_db S)"
proof -
  obtain n dups S where "ingest_events sample_ingest_env sample_batch sample_client = (Inr (n, dups), S)"
    by (rule sample_posted)
  from batch_again [OF this sample_driver_ok sample_driver_ok sample_batch_ok sample_client_filter]
  show ?thesis by (auto simp: sample_batch_def)
qed

lemma ingest_loop_append:
  "ingest_loop E evs a = (None, a') \<Longrightarrow> ingest_loop E (evs @ evs') a = ingest_loop E evs' a'"
  by (induction evs arbitrary: a) (auto split: sum.splits)

text \<open>C14: Alerts are shown before they are stored: when a batch ends with an event whose
  timestamp matches the pattern but is no calendar date, the batch is answered 500 and no table
  changes, yet every connected client has been given the alerts of the events before it, and
  acknowledging an escalation that the batch would have raised is answered 404.\<close>

theorem aborted_batch_shown:
  assumes "ingest_events E evs S = (Inr r, S')" "ev_schema_version bad \<in> set supported_schema_versions"
    "parse_instant (ev_timestamp bad) = Inl f"
    "bind_uuid D i = Some k" "\<not> dhas (cd_escalations (cl_db S)) k" "op \<noteq> []"
  shows "\<exists>S''. ingest_events E (evs @ [bad]) S = (Inl f, S'') \<and> cl_db S'' = cl_db S \<and> cl_hub S'' = cl_hub S' \<and>
    acknowledge_escalation D now i op S'' = (Inl (Http 404 ''escalation not found''), S'')"
proof -
  let ?a = "\<lparr>ia_db = cl_db S, ia_hub = cl_hub S, ia_filter = cl_filter S, ia_accepted = 0, ia_duplicates = []\<rparr>"
  from assms(1) obtain a where loop: "ingest_loop E evs ?a = (None, a)" and hub: "cl_hub S' = ia_hub a"
    by (auto simp: ingest_events_def split: prod.splits option.splits)
  have "ingest_loop E (evs @ [bad]) ?a = (Some f, a)"
    using assms(2,3) by (simp add: ingest_loop_append [OF loop] ingest_one_def)
  then have "ingest_events E (evs @ [bad]) S = (Inl f, S\<lparr>cl_hub := ia_hub a, cl_filter := ia_filter a\<rparr>)"
    by (simp add: ingest_events_def)
  with hub assms(4-6) show ?thesis
    by (simp add: acknowledge_escalation_def get_status_def bind_id_def dhas_iff acknowledge_after_def)
qed

definition sample_no_date :: envelope where
  "sample_no_date = (sample_alert 1 sample_time)\<lparr>ev_timestamp := ''2026-02-30T10:00:00Z''\<rparr>"

lemma sample_no_date_parses:
  "validate_timestamp (ev_timestamp sample_no_date)"
  "parse_instant (ev_timestamp sample_no_date) = Inl (Raised ValueError)"
proof -
  show "validate_timestamp (ev_timestamp sample_no_date)"
    by (simp add: sample_no_date_def validate_timestamp_def timestamp_re_def iso_head_pat_def fits_def lit_def
        is_digit_def numeral_eq_Suc)
  have "py_replace ''Z'' ''+00:00'' ''2026-02-30T10:00:00Z'' = ''2026-02-30T10:00:00+00:00''"
    using py_replace_suffix [of "CHR ''Z''" "''2026-02-30T10:00:00''" "[]"] by simp
  moreover have "fromisoformat_utc ''2026-02-30T10:00:00+00:00'' = Inl ValueError"
    by (simp add: fromisoformat_utc_def field_def nat_of_digits_def digit_val_def dt_ok_def date_ok_def
        days_in_month_def leap_year_def Let_def)
  ultimately show "parse_instant (ev_timestamp sample_no_date) = Inl (Raised ValueError)"
    by (simp add: sample_no_date_def parse_instant_def)
qed

theorem aborted_batch_shown_witness:
  "\<exists>S. ingest_events sample_ingest_env (sample_batch @ [sample_no_date]) sample_client = (Inl (Raised ValueError), S) \<and>
     cl_db S = cl_db sample_client \<and>
     acknowledge_escalation strict_driver sample_time (sample_uuid 0) ''op'' S = (Inl (Http 404 ''escalation not found''), S)"
proof -
  obtain n dups S where S: "ingest_events sample_ingest_env sample_batch sample_client = (Inr (n, dups), S)"
    by (rule sample_posted)
  have "ev_schema_version sample_no_date \<in> set supported_schema_versions"
    by (simp add: sample_no_date_def sample_version_ok)
  from aborted_batch_shown [OF S this sample_no_date_parses(2), of strict_driver "sample_uuid 0" "sample_uuid 0" "''op''"]
  show ?thesis
    using bind_id_valid [OF strict_driver_ok sample_uuid_ok [of 0]] by (auto simp: res_iff sample_uuid_def lower_char_def sample_client_def cloud_start_def init_cloud_db_def dhas_def dkeys_def)
qed

section \<open>Escalations\<close>

text \<open>C5: Whatever requests arrive and however they interleave, the audit rows of an escalation
  spell its history: raised exactly once, first; silent dismissals only while it is
  unacknowledged; acknowledged at most once and before resolved, which is at most once. The
  status and the instants of the row agree with them.\<close>

theorem escalation_lifecycle:
  assumes "reach cloud_init cloud_step S" "dget (cd_escalations (cl_db S)) k = Some s"
  shows "(\<exists>n. audit_word k (cd_audit (cl_db S)) = T_raised # replicate n T_dismissed @ status_word (es_status s)) \<and>
    (es_t_ack s = None \<longleftrightarrow> es_status s = Unacknowledged) \<and>
    (es_t_resolve s = None \<longleftrightarrow> es_status s \<noteq> Resolved)"
proof -
  have "lifecycle_ok (cl_db S)"
    using landside.reach_inv [OF assms(1)] by (simp add: cloud_ok_def cloud_inv_def)
  then have "history_ok s (audit_word k (cd_audit (cl_db S)))"
    using lifecycleD [of "cl_db S" k] assms(2) by simp
  then show ?thesis by (simp add: history_ok_def)
qed

lemma raise_escalation_audit:
  assumes "raise_escalation D k ev ts db = Inr db'" "r \<in> set (cd_audit db')"
  shows "r \<in> set (cd_audit db) \<or> au_transition r = T_raised \<and> au_t_event r = ts"
  using assms by (auto simp: raise_escalation_def new_escalation_def record_raised_def res_iff Let_def split: if_splits)

lemma store_event_audit: "store_event D ev ts db = Inr (k, n, db') \<Longrightarrow> cd_audit db' = cd_audit db"
  by (auto simp: store_event_def res_iff split: if_splits)

lemma ingest_one_audit:
  assumes "ingest_one E ev a = Inr a'" "parse_instant (ev_timestamp ev) = Inr ts" "r \<in> set (cd_audit (ia_db a'))"
  shows "r \<in> set (cd_audit (ia_db a)) \<or> au_transition r = T_raised \<and> au_t_event r = ts"
proof -
  have side: "r \<in> set (cd_audit db) \<or> au_transition r = T_raised \<and> au_t_event r = ts"
    if "side_rows E k ev ts db = Inr db'" "r \<in> set (cd_audit db')" for k db db'
    using that raise_escalation_audit [of _ _ ev ts _ db' r]
    by (fastforce simp: side_rows_def upsert_heartbeat_def split: if_splits)
  show ?thesis
  proof (cases "ev_schema_version ev \<in> set supported_schema_versions")
    case True
    then obtain k n db where st: "store_event (ig_driver E) ev ts (ia_db a) = Inr (k, n, db)"
      and rest: "(if n = 0 then Inr (a\<lparr>ia_db := db, ia_duplicates := ia_duplicates a @ [ev_id ev]\<rparr>)
          else bind_res (side_rows E k ev ts db) (\<lambda>db'.
            Inr (fan_out E ev ts (a\<lparr>ia_db := db', ia_accepted := ia_accepted a + 1\<rparr>)))) = Inr a'"
      using assms(1,2) by (auto simp: ingest_one_def res_iff)
    have db: "cd_audit db = cd_audit (ia_db a)" by (rule store_event_audit [OF st])
    show ?thesis
    proof (cases "n = 0")
      case False
      then obtain db' where sd: "side_rows E k ev ts db = Inr db'"
        and a': "a' = fan_out E ev ts (a\<lparr>ia_db := db', ia_accepted := ia_accepted a + 1\<rparr>)"
        using rest by (auto simp: res_iff)
      have "ia_db a' = db'" by (simp add: a' fan_out_def split: prod.split)
      with side [OF sd] assms(3) db show ?thesis by simp
    qed (use rest assms(3) db in auto)
  qed (use assms in \<open>simp add: ingest_one_def\<close>)
qed

lemma sample_raised:
  obtains S s where "reach cloud_init cloud_step S" "dget (cd_escalations (cl_db S)) (sample_uuid 0) = Some s"
    "\<forall>r \<in> set (cd_audit (cl_db S)). au_transition r = T_raised \<and> au_t_event r = sample_time"
proof -
  let ?a = "\<lparr>ia_db = cl_db sample_client, ia_hub = cl_hub sample_client,
      ia_filter = cl_filter sample_client, ia_accepted = 0, ia_duplicates = []\<rparr>"
  have empty: "cd_events (ia_db ?a) = []" by (simp add: sample_client_def cloud_start_def init_cloud_db_def)
  obtain a where a: "ingest_one sample_ingest_env (sample_alert 0 sample_time) ?a = Inr a"
    using sample_ingest_one [OF refl, of 0 ?a] empty by auto
  then obtain db where db: "raise_escalation strict_driver (sample_uuid 0) (sample_alert 0 sample_time) sample_time db
      = Inr (ia_db a)"
    using empty bind_id_valid [OF strict_driver_ok sample_uuid_ok [of 0]]
    by (auto simp: ingest_one_def sample_instant sample_version_ok sample_ingest_env_def store_event_def
        insert_cloud_event_def side_rows_def res_iff sample_uuid_def lower_char_def)
  have "dhas (cd_escalations (ia_db a)) (sample_uuid 0)"
    by (rule raise_escalation_dhas [OF db]) (simp_all add: dget_or_def)
  then obtain s where s: "dget (cd_escalations (ia_db a)) (sample_uuid 0) = Some s" by (auto simp: dhas_iff)
  have init: "cloud_init cloud_start"
    unfolding cloud_init_def by (rule exI [of _ "[]"]) (simp add: cloud_start_def init_cloud_db_def)
  have "sample_client = cloud_start\<lparr>cl_hub := sse_connect 0 (cl_hub cloud_start)\<rparr>"
    by (simp add: sample_client_def sse_connect_def cloud_start_def)
  then have "cloud_step cloud_start sample_client" by (metis Connect)
  then have client: "reach cloud_init cloud_step sample_client"
    by (rule reach_step [OF reach_init [where init = cloud_init, OF init]])
  obtain S where S: "ingest_events sample_ingest_env [sample_alert 0 sample_time] sample_client = (Inr (ia_accepted a, ia_duplicates a), S)"
    and db: "cl_db S = ia_db a"
    using a by (simp add: ingest_events_def)
  have "reach cloud_init cloud_step S" by (rule reach_step [OF client]) (rule Ingest [OF S])
  moreover have "\<forall>r \<in> set (cd_audit (ia_db a)). au_transition r = T_raised \<and> au_t_event r = sample_time"
    using ingest_one_audit [OF a] sample_instant by (auto simp: sample_client_def cloud_start_def init_cloud_db_def)
  ultimately show ?thesis using s db that by metis
qed

theorem escalation_lifecycle_witness:
  "\<exists>S n s. reach cloud_init cloud_step S \<and> dget (cd_escalations (cl_db S)) (sample_uuid 0) = Some s \<and>
     audit_word (sample_uuid 0) (cd_audit (cl_db S)) = T_raised # replicate n T_dismissed @ status_word (es_status s)"
  by (rule sample_raised) (metis escalation_lifecycle)

section \<open>The kill-switch\<close>

text \<open>C6: Calls of the filter, loads and administrators' writes may interleave at will. Whenever no
  write is between its commit and its invalidation, a call that finds the map fresh, or whose own load
  no invalidation has overtaken, decides as the table says: an alert is withheld exactly when its class
  is disabled and it was raised after the class was disabled. A call whose own load was overtaken
  decides as the table was at some moment since that load began, and leaves the map stale, so that the
  next call reads the table again.\<close>

theorem kill_switch_settled:
  assumes "reach cache_start (cache_step filter_ttl disabled_classes filter_finish filter_invalidate) w"
    "decision_step tx w et p t d w'" "\<forall>T \<in> set (cw_table w # cw_seen w). dwf T"
  shows "(cw_pending w = 0 \<and> (w' = w \<or> \<not> load_overtaken w) \<longrightarrow> d = killed tx (cw_table w) et p t) \<and>
    (w' \<noteq> w \<and> load_overtaken w \<longrightarrow>
       (\<exists>T \<in> set (cw_seen w). d = killed tx T et p t) \<and> (\<forall>now. \<not> cache_fresh filter_ttl now (cw_cache w')))"
  using assms(2)
proof (cases rule: decision_step.cases)
  case Passes
  then show ?thesis by (simp add: killed_def)
next
  case Hit
  then show ?thesis using fanout.hit_settled [OF assms(1)] decide_killed assms(3) by simp
next
  case (Loaded g n v c)
  then have d: "d = decide tx v p t" and c: "c = filter_finish g n v (cw_cache w)"
    by (auto simp: is_filtered_loaded_def Let_def fanout.finish_value)
  from fanout.load_seen [OF assms(1) Loaded(3)] assms(3)
  have "\<exists>T \<in> set (cw_seen w). d = killed tx T et p t" unfolding d Loaded(1) using decide_killed by auto
  moreover have "cw_load w' = None" "cw_load w \<noteq> None" unfolding Loaded(2) Loaded(3) by simp_all
  then have "w' \<noteq> w" by metis
  ultimately show ?thesis
    using Loaded d c fanout.load_settled [OF assms(1) _ Loaded(3)] decide_killed assms(3)
    by (simp add: load_overtaken_def cache_fresh_def filter_finish_def)
qed

definition sample_classes :: "(string, class_row) dict" where
  "sample_classes = [(''slip_fall'', \<lparr>cs_disabled = True, cs_disabled_by = Some ''ops'',
     cs_disabled_at = Some sample_time, cs_enabled_by = None, cs_enabled_at = None\<rparr>)]"

text \<open>A load of the table \<open>T\<close> up to its answer.\<close>

definition loading :: "(string, class_row) dict \<Rightarrow> filter_world" where
  "loading T = \<lparr>cw_table = T, cw_pending = 0, cw_cache = new_alert_filter,
     cw_load = Some (0, 0, Some (disabled_classes T)), cw_now = 0, cw_seen = [T]\<rparr>"

lemma loading_reached:
  "reach cache_start (cache_step filter_ttl disabled_classes filter_finish filter_invalidate) (loading T)"
proof -
  let ?w = "(loading T)\<lparr>cw_load := None, cw_seen := []\<rparr>" and ?s = "cache_step filter_ttl disabled_classes filter_finish filter_invalidate"
  have "reach cache_start ?s ?w"
    by (rule reach_init) (simp add: cache_start_def loading_def new_alert_filter_def)
  then have "reach cache_start ?s (?w\<lparr>cw_load := Some (ca_generation (cw_cache ?w), cw_now ?w, None), cw_seen := [cw_table ?w]\<rparr>)"
    by (rule reach_step) (rule Begin, simp_all add: loading_def new_alert_filter_def cache_fresh_def)
  then have begun: "reach cache_start ?s ((loading T)\<lparr>cw_load := Some (0, 0, None)\<rparr>)"
    by (simp add: loading_def new_alert_filter_def)
  have "?s ((loading T)\<lparr>cw_load := Some (0, 0, None)\<rparr>) (loading T)"
    using Query [of "(loading T)\<lparr>cw_load := Some (0, 0, None)\<rparr>" 0 0] by (simp add: loading_def)
  with begun show ?thesis by (rule reach_step)
qed

abbreviation slip_payload :: jdict where
  "slip_payload \<equiv> [(''alert_code'', JStr ''slip_fall'')]"

lemma slip_killed: "killed (\<lambda>j. []) sample_classes ''ALERT_RAISED'' slip_payload (sample_time\<lparr>sc := 1\<rparr>)"
  by (simp add: sample_classes_def killed_def before_def dt_micros_def dt_ordinal_def sample_time_def)

theorem kill_switch_settled_witness:
  "\<exists>w'. decision_step (\<lambda>j. []) (loading sample_classes) ''ALERT_RAISED'' slip_payload (sample_time\<lparr>sc := 1\<rparr>) True w'"
proof -
  let ?w = "loading sample_classes"
  obtain d c where dc: "is_filtered_loaded (\<lambda>j. []) 0 0 (disabled_classes sample_classes) slip_payload
      (sample_time\<lparr>sc := 1\<rparr>) (cw_cache ?w) = (d, c)" by fastforce
  have step: "decision_step (\<lambda>j. []) ?w ''ALERT_RAISED'' slip_payload (sample_time\<lparr>sc := 1\<rparr>) d
      (?w\<lparr>cw_load := None, cw_cache := c\<rparr>)"
    by (rule Loaded [OF _ dc]) (simp add: loading_def)
  from kill_switch_settled [OF loading_reached step] have d
    using slip_killed by (simp add: loading_def sample_classes_def dwf_def dkeys_def load_overtaken_def new_alert_filter_def)
  with step show ?thesis by auto
qed

text \<open>A call may decide on the map its own overtaken load has read: the administrator's write has been
  committed, the cache invalidated and the request answered, and an alert of the disabled class raised
  after it still passes.\<close>

theorem overtaken_call_passes:
  "\<exists>w w'. reach cache_start (cache_step filter_ttl disabled_classes filter_finish filter_invalidate) w \<and>
     cw_pending w = 0 \<and> killed (\<lambda>j. []) (cw_table w) ''ALERT_RAISED'' slip_payload (sample_time\<lparr>sc := 1\<rparr>) \<and>
     decision_step (\<lambda>j. []) w ''ALERT_RAISED'' slip_payload (sample_time\<lparr>sc := 1\<rparr>) False w'"
proof -
  let ?s = "cache_step filter_ttl disabled_classes filter_finish filter_invalidate"
  let ?w = "(loading [])\<lparr>cw_table := sample_classes, cw_pending := 1, cw_seen := [sample_classes, []]\<rparr>"
  let ?v = "?w\<lparr>cw_pending := 0, cw_cache := filter_invalidate new_alert_filter\<rparr>"
  have "?s (loading []) ?w"
    using Commit [of filter_ttl disabled_classes filter_finish filter_invalidate "loading []" sample_classes]
    by (simp add: loading_def)
  with loading_reached have w: "reach cache_start ?s ?w" by (rule reach_step)
  have "?s ?w ?v"
    using Invalidate [of ?w 0 filter_ttl disabled_classes filter_finish filter_invalidate] by (simp add: loading_def)
  with w have v: "reach cache_start ?s ?v" by (rule reach_step)
  obtain c where c: "is_filtered_loaded (\<lambda>j. []) 0 0 [] slip_payload (sample_time\<lparr>sc := 1\<rparr>) (cw_cache ?v) = (False, c)"
    by (simp add: is_filtered_loaded_def decide_def filter_finish_def Let_def)
  have "decision_step (\<lambda>j. []) ?v ''ALERT_RAISED'' slip_payload (sample_time\<lparr>sc := 1\<rparr>) False
      (?v\<lparr>cw_load := None, cw_cache := c\<rparr>)"
    by (rule Loaded [OF _ c]) (simp add: loading_def disabled_classes_def)
  moreover have "cw_pending ?v = 0 \<and> cw_table ?v = sample_classes" by simp
  ultimately show ?thesis using v slip_killed by metis
qed

section \<open>The tables\<close>

text \<open>C22: Every reachable database is well-typed: no two event rows share a key or an id, every
  stored event type is one the envelope admits, operator preferences and thresholds lie in their
  ranges, and no alert queue is longer than its capacity.\<close>

theorem cloud_tables_typed:
  assumes "reach cloud_init cloud_step S"
  shows "events_keyed (cl_db S) \<and> types_known (cl_db S) \<and> tables_typed (cl_db S) \<and> hub_bounded (cl_hub S)"
  using landside.reach_inv [OF assms] by (simp add: cloud_ok_def cloud_inv_def)

theorem cloud_tables_typed_witness:
  "\<exists>S::cloud. dhas (cd_escalations (cl_db S)) (sample_uuid 0) \<and> tables_typed (cl_db S)"
proof -
  obtain S s where "reach cloud_init cloud_step S" "dget (cd_escalations (cl_db S)) (sample_uuid 0) = Some s"
    using sample_raised by metis
  with cloud_tables_typed [of S] show ?thesis by (intro exI [of _ S]) (simp add: dhas_iff)
qed

end
