(* ===== verification/Cloud_Access_Properties.thy ===== *)
theory Cloud_Access_Properties
  imports Cloud_System
begin

text \<open>
  The properties of the operators' side of \<open>cloud-backend\<close>: thresholds and the degraded flag,
  login, the administrators and the audit trail of the accounts.
\<close>

section \<open>Thresholds\<close>

text \<open>C21: A successful threshold edit takes effect at once and is fail-safe: the answer, and every
  later reading from the cache or from the table, carries the banner floor and the class
  thresholds the body gives, the old floor where the body gives none, and only numbers in range.\<close>

theorem thresholds_apply:
  assumes "reach cloud_init cloud_step S" "patch_confidence_thresholds tick p S = (Inr cfg, S')"
    "dwf (keep_or (tp_per_class p) [])"
  shows "fst (confidence_thresholds tick' S') = cfg \<and> thresholds_ok cfg \<and>
    th_floor cfg = (case tp_floor p of None \<Rightarrow> th_floor (read_thresholds (cd_thresholds (cl_db S)))
                    | Some v \<Rightarrow> float_of (Some v)) \<and>
    (\<forall>c v. dget (keep_or (tp_per_class p) []) c = Some v \<longrightarrow> dget (th_per_class cfg) c = Some (float_of (Some v)))"
proof -
  obtain u where u: "threshold_updates p = Inr u" and db: "cl_db S' = store_thresholds u (cl_db S)"
    and cfg: "cfg = read_thresholds (cd_thresholds (cl_db S'))"
    and c: "cl_thresholds S' = threshold_finish (Suc (ca_generation (cl_thresholds S))) tick cfg (threshold_invalidate (cl_thresholds S))"
    by (rule patch_answer [OF assms(2)])
  have wf: "dwf (cd_thresholds (cl_db S))"
    using landside.reach_inv [OF assms(1)] by (simp add: cloud_ok_def tables_typed_def)
  have "fst (confidence_thresholds tick' S') = cfg"
    by (simp add: confidence_thresholds_def threshold_load_def Let_def c cfg threshold_finish_def
        threshold_invalidate_def split: prod.split)
  moreover have "thresholds_ok cfg" unfolding cfg by (rule read_thresholds_ok)
  moreover have "th_floor cfg = (case tp_floor p of None \<Rightarrow> th_floor (read_thresholds (cd_thresholds (cl_db S)))
      | Some v \<Rightarrow> float_of (Some v))"
    unfolding cfg db using stored_floor [OF wf u] threshold_updates_get(1) [OF u assms(3)]
    by (simp split: option.split)
  moreover have "dget (th_per_class cfg) k = Some (float_of (Some v))"
    if v: "dget (keep_or (tp_per_class p) []) k = Some v" for k v
  proof -
    have get: "dget u (per_class_prefix @ k) = Some (float_of (Some v))"
      using threshold_updates_get(2) [OF u assms(3), of k] v by simp
    from threshold_updates_ok [OF u map_of_SomeD [OF this]] prefix_not_floor [of k]
    obtain q where "dget (th_per_class default_thresholds) k = Some q" by (auto simp: dhas_iff)
    from stored_class [OF wf u this] get show ?thesis by (simp add: cfg db)
  qed
  ultimately show ?thesis by blast
qed

definition sample_patch :: threshold_patch where
  "sample_patch = \<lparr>tp_per_class = Some [(''slip_fall'', Finite (4/5))], tp_floor = Some (Finite (9/10))\<rparr>"

lemma cloud_start_reach: "reach cloud_init cloud_step cloud_start"
  by (rule reach_init [where init = cloud_init], unfold cloud_init_def, rule exI [of _ "[]"])
    (simp add: cloud_start_def init_cloud_db_def)

lemma sample_updates: "\<exists>u. threshold_updates sample_patch = Inr u"
  by (simp add: threshold_updates_def sample_patch_def check_floor_def check_unit_interval_def
      default_thresholds_def dhas_def dkeys_def floor_key_def per_class_prefix_def)

lemma sample_patched:
  obtains cfg S' where "patch_confidence_thresholds 0 sample_patch S = (Inr cfg, S')"
  using sample_updates that by (fastforce simp: patch_confidence_thresholds_def split: prod.splits)

theorem thresholds_apply_witness:
  "\<exists>cfg S. patch_confidence_thresholds 0 sample_patch cloud_start = (Inr cfg, S) \<and>
     fst (confidence_thresholds 1000 S) = cfg \<and> th_floor cfg = 9/10 \<and>
     dget (th_per_class cfg) ''slip_fall'' = Some (4/5)"
proof -
  obtain cfg S where S: "patch_confidence_thresholds 0 sample_patch cloud_start = (Inr cfg, S)"
    by (rule sample_patched)
  from thresholds_apply [OF cloud_start_reach S, of 1000] show ?thesis
    using S by (auto simp: sample_patch_def dwf_def dkeys_def float_of_def)
qed

text \<open>The reset of the degraded flag can be lost: a health request that read the table before a
  threshold edit and finishes after it stores its flag over the reset, and for 30 seconds every
  health request answers that flag, whatever the thresholds now say.\<close>

theorem degraded_reset_lost:
  assumes "mean_confidence D now (cl_db S) = Inr mean"
    "patch_confidence_thresholds tick p S = (Inr cfg, S')" "tick' - tick < degraded_ttl"
  defines "stale \<equiv> below_floor mean (read_thresholds (cd_thresholds (cl_db S)))"
  shows "degraded_get D tick' now' (S'\<lparr>cl_degraded := degraded_finish tick stale (cl_degraded S')\<rparr>) =
      (Inr stale, S'\<lparr>cl_degraded := degraded_finish tick stale (cl_degraded S')\<rparr>) \<and>
    fst (degraded_get D tick' now' S') = map_sum id (\<lambda>m. below_floor m cfg) (mean_confidence D now' (cl_db S'))"
proof -
  obtain u where cfg: "cfg = read_thresholds (cd_thresholds (cl_db S'))"
    and d: "dg_computed_at (cl_degraded S') = None"
    and c: "cl_thresholds S' = threshold_finish (Suc (ca_generation (cl_thresholds S))) tick cfg (threshold_invalidate (cl_thresholds S))"
    by (rule patch_answer [OF assms(2)])
  have "fst (confidence_thresholds tick' S') = cfg"
    by (simp add: confidence_thresholds_def threshold_load_def Let_def c cfg threshold_finish_def
        threshold_invalidate_def split: prod.split)
  with assms(3) d show ?thesis
    by (auto simp: degraded_get_def degraded_fresh_def degraded_finish_def split: sum.split prod.split)
qed

definition scored_event :: cloud_event where
  "scored_event =
     \<lparr>ce_id = sample_uuid 0, ce_journey_id = ''T1_RJ42_20260517'', ce_vehicle_id = ''T1'', ce_type = ''ALERT_RAISED'',
      ce_severity = ''warning'', ce_source = ''fusion'', ce_schema_version = 1, ce_timestamp = sample_time,
      ce_source_timestamp = sample_time,
      ce_payload = [(''confidence_basis'', JStr ''model''), (''confidence_score'', JNum (7/10))]\<rparr>"

definition scored_cloud :: cloud where
  "scored_cloud = cloud_start\<lparr>cl_db := init_cloud_db\<lparr>cd_events := [scored_event]\<rparr>\<rparr>"

theorem degraded_reset_lost_witness:
  "\<exists>S d. fst (degraded_get strict_driver 20 sample_time S) = Inr True \<and>
     fst (degraded_get strict_driver 20 sample_time (S\<lparr>cl_degraded := d\<rparr>)) = Inr False"
proof -
  have m: "mean_confidence strict_driver sample_time (cl_db scored_cloud) = Inr (Some (7/10))"
    by (simp add: mean_confidence_def scored_cloud_def scored_event_def hours_def arrow_text_def arrow_float_def
        bind_opt_def of_opt_def strict_driver_def sql_avg_def average_def map_filter_simps)
  obtain cfg S where S: "patch_confidence_thresholds 0 sample_patch scored_cloud = (Inr cfg, S)"
    by (rule sample_patched)
  obtain u where u: "threshold_updates sample_patch = Inr u" and db: "cl_db S = store_thresholds u (cl_db scored_cloud)"
    and cfg: "cfg = read_thresholds (cd_thresholds (cl_db S))"
    by (rule patch_answer [OF S])
  have wf: "dwf (cd_thresholds (cl_db scored_cloud))"
    by (simp add: scored_cloud_def init_cloud_db_def threshold_seed_def dwf_def dkeys_def)
  have old: "th_floor (read_thresholds (cd_thresholds (cl_db scored_cloud))) = 3/5"
    using read_floor [OF wf]
    by (simp add: usable_def scored_cloud_def init_cloud_db_def threshold_seed_def floor_key_def valid_threshold_def float_of_def)
  have new: "th_floor cfg = 9/10"
    using stored_floor [OF wf u] threshold_updates_get(1) [OF u]
    by (simp add: cfg db sample_patch_def dwf_def dkeys_def float_of_def)
  have "mean_confidence strict_driver sample_time (cl_db S) = Inr (Some (7/10))"
    using m by (simp add: db mean_confidence_def store_thresholds_def)
  with degraded_reset_lost [OF m S, of 20 sample_time] old new show ?thesis
    by (intro exI [of _ S] exI [of _ "degraded_finish 0 False (cl_degraded S)"])
      (simp add: below_floor_def degraded_ttl_def)
qed

section \<open>Login\<close>

text \<open>C18: Login and the token gate identify the account: with the password of an active account, or
  any longer text that agrees with it in its first 72 bytes, login answers a token that until its
  expiry is read back as that account's id, name and role; any other password is refused.\<close>

theorem login_identifies:
  assumes "bcrypt_ok B" "jwt_ok J (token_claims F now k (us_username r) (role_text (us_role r)))"
    "cf_jwt_secret F \<noteq> []" "users_keyed db" "dget (cd_users db) k = Some r" "us_is_active r"
    "us_username r \<noteq> []" "us_password_hash r = hash_password B salt p" "password_ok p" "q \<noteq> []"
    "bind_uuid D k = Some k"
  shows "if take 72 (utf8 q) = utf8 p
    then \<exists>tok. login B dummy J F now (us_username r) q db = Inr tok \<and>
      (\<forall>t. not_after now t \<longrightarrow>
         since_epoch t < (since_epoch now + cf_jwt_ttl_minutes F * 60000000) div 1000000 * 1000000 \<longrightarrow>
         get_current_user J tx D F t (Some tok) db =
           Inr \<lparr>cu_user_id = k, cu_username = us_username r, cu_role = role_text (us_role r)\<rparr>)
    else login B dummy J F now (us_username r) q db = Inl unauthorized"
proof -
  have found: "find_username db (us_username r) = Some (k, r)"
    using assms(4,5) by (simp add: find_username_iff)
  have check: "verify_password B q (us_password_hash r) \<longleftrightarrow> take 72 (utf8 q) = utf8 p"
    unfolding assms(8) using assms(9) by (intro verify_hash [OF assms(1)]) (simp add: password_ok_def max_password_bytes_def)
  obtain tok where tok: "create_access_token J F now k (us_username r) (role_text (us_role r)) = Inr tok"
    using assms(3) by (simp add: create_access_token_def)
  have gate: "get_current_user J tx D F t (Some tok) db =
      Inr \<lparr>cu_user_id = k, cu_username = us_username r, cu_role = role_text (us_role r)\<rparr>"
    if "not_after now t"
      "since_epoch t < (since_epoch now + cf_jwt_ttl_minutes F * 60000000) div 1000000 * 1000000" for t
    using token_verifies [OF assms(2,3) that tok] assms(5,6,11)
    by (simp add: get_current_user_def assert_user_active_def)
  show ?thesis
    using found check tok gate assms(6,7,10) by (auto simp: login_def Let_def)
qed

definition sample_bcrypt :: bcrypt where
  "sample_bcrypt = \<lparr>hashpw = (\<lambda>salt p. p), checkpw = (\<lambda>q h. q = h)\<rparr>"

definition sample_settings :: cloud_settings where
  "sample_settings = \<lparr>cf_api_key = ''key'', cf_jwt_secret = ''secret'', cf_jwt_issuer = ''cloud-backend'',
     cf_jwt_algorithm = ''HS256'', cf_jwt_ttl_minutes = 480, cf_bcrypt_rounds = 12, cf_app_env = ''production''\<rparr>"

definition sample_password :: "nat list" where
  "sample_password = replicate 72 97"

definition sample_admin :: user_row where
  "sample_admin = \<lparr>us_username = ''ops'', us_password_hash = hash_password sample_bcrypt [] sample_password,
     us_role = Admin, us_is_active = True\<rparr>"

definition sample_users :: cloud_db where
  "sample_users = init_cloud_db\<lparr>cd_users := [(sample_uuid 0, sample_admin)]\<rparr>"

text \<open>A token service for one set of claims.\<close>

definition sample_jwt :: "jdict \<Rightarrow> jwt" where
  "sample_jwt c = \<lparr>jwt_encode = (\<lambda>claims key alg. ''t'' @ key),
     jwt_decode = (\<lambda>tok key algs iss req now. if tok = ''t'' @ key then Some c else None)\<rparr>"

definition sample_claims :: jdict where
  "sample_claims = token_claims sample_settings sample_time (sample_uuid 0) ''ops'' ''admin''"

lemma utf8_ascii: "\<forall>c \<in> set p. c < 128 \<Longrightarrow> utf8 p = p"
  by (induction p) (simp_all add: utf8_def)

lemma sample_admin_simps [simp]:
  "us_username sample_admin = ''ops''" "us_role sample_admin = Admin" "us_is_active sample_admin"
  "us_password_hash sample_admin = hash_password sample_bcrypt [] sample_password"
  by (simp_all add: sample_admin_def)

lemma sample_users_keyed: "users_keyed sample_users"
  by (simp add: users_keyed_def sample_users_def dwf_def dkeys_def)

lemma sample_bind: "bind_uuid strict_driver (sample_uuid 0) = Some (sample_uuid 0)"
  using sample_uuid_ok [of 0] by (simp add: strict_driver_def sample_uuid_def lower_char_def)

theorem login_identifies_witness:
  "\<exists>tok. login sample_bcrypt [] (sample_jwt sample_claims) sample_settings sample_time ''ops''
       (sample_password @ [98]) sample_users = Inr tok \<and>
     get_current_user (sample_jwt sample_claims) (\<lambda>j. []) strict_driver sample_settings sample_time (Some tok) sample_users =
       Inr \<lparr>cu_user_id = sample_uuid 0, cu_username = ''ops'', cu_role = ''admin''\<rparr>"
proof -
  have p: "utf8 sample_password = sample_password" "utf8 (sample_password @ [98]) = sample_password @ [98]"
    by (rule utf8_ascii, simp add: sample_password_def)+
  have "bcrypt_ok sample_bcrypt" by (simp add: bcrypt_ok_def sample_bcrypt_def)
  moreover have "jwt_ok (sample_jwt sample_claims) sample_claims"
    by (simp add: jwt_ok_def sample_jwt_def)
  moreover have "password_ok sample_password"
    unfolding password_ok_def p by (simp add: sample_password_def max_password_bytes_def)
  moreover have "since_epoch sample_time < (since_epoch sample_time + 480 * 60000000) div 1000000 * 1000000"
    by simp
  ultimately show ?thesis
    using login_identifies [of sample_bcrypt "sample_jwt sample_claims" sample_settings sample_time "sample_uuid 0"
        sample_admin sample_users "[]" sample_password "sample_password @ [98]" strict_driver "[]" "\<lambda>j. []"]
      sample_users_keyed sample_bind p
    by (auto simp: sample_claims_def sample_users_def sample_settings_def not_after_def sample_password_def)
qed

section \<open>Accounts\<close>

text \<open>C20: Requests that run one after another and name users by the id the API prints never leave
  the service without an active administrator, and keep names and ids unique.\<close>

theorem last_admin_kept:
  assumes "(user_step D B)\<^sup>*\<^sup>* db db'" "users_keyed db" "admin_exists db"
  shows "admin_exists db' \<and> users_keyed db'"
  using admins.steps_inv [OF assms(1)] assms(2,3) by (simp add: admin_inv_def)

lemma sample_admin_exists: "admin_exists sample_users"
  unfolding admin_exists_def by (rule exI [of _ "sample_uuid 0"], rule exI [of _ sample_admin]) (simp add: sample_users_def)

theorem last_admin_kept_witness:
  "\<exists>out db. patch_user strict_driver \<lparr>cu_user_id = sample_uuid 0, cu_username = ''ops'', cu_role = ''admin''\<rparr> (sample_uuid 0) \<lparr>up_role = None, up_is_active = Some False\<rparr> sample_users = (out, db) \<and>
     admin_exists db"
proof -
  obtain out db where p: "patch_user strict_driver \<lparr>cu_user_id = sample_uuid 0, cu_username = ''ops'', cu_role = ''admin''\<rparr> (sample_uuid 0) \<lparr>up_role = None, up_is_active = Some False\<rparr>
      sample_users = (out, db)" by fastforce
  then have "user_step strict_driver sample_bcrypt sample_users db"
    using sample_bind by (rule user_step.Patch_user)
  then have "(user_step strict_driver sample_bcrypt)\<^sup>*\<^sup>* sample_users db" by (rule r_into_rtranclp)
  from last_admin_kept [OF this sample_users_keyed sample_admin_exists] p show ?thesis by blast
qed

text \<open>The guard compares the id of the URL as a text: naming the only administrator by the same
  id in another spelling, such as upper case, deactivates it, and no administrator is left.\<close>

theorem respelled_id_locks_out:
  assumes "set (active_admins db) = {k}" "dwf (cd_users db)" "bind_uuid D i = Some k" "i \<noteq> k"
    "bind_uuid D (cu_user_id cu) = Some actor"
  shows "\<exists>out db'. patch_user D cu i \<lparr>up_role = None, up_is_active = Some False\<rparr> db = (Inr out, db') \<and>
    \<not> admin_exists db'"
proof -
  obtain r where r: "dget (cd_users db) k = Some r" "us_role r = Admin" "us_is_active r"
    using assms(1) active_admins_iff [OF assms(2), of k] by auto
  have only: "dget (cd_users db) l = Some s \<Longrightarrow> us_role s = Admin \<Longrightarrow> us_is_active s \<Longrightarrow> l = k" for l s
    using assms(1) active_admins_iff [OF assms(2), of l] by auto
  let ?p = "\<lparr>up_role = None, up_is_active = Some False\<rparr>"
  let ?db = "audit_user actor k U_deactivate None (set_user k None (Some False) db)"
  have t: "load_user D i db = Inr (user_out k r)" using r assms(3) by (auto simp: load_user_Inr)
  have "\<not> would_orphan_admins db i" using assms(1,4) by (auto simp: would_orphan_admins_def)
  then have patched: "patch_user D cu i ?p db = (load_user D i ?db, ?db)"
    using r t assms(3,5)
    by (simp add: patch_user_def user_patch_ok_def patch_user_after_def Let_def new_role_def new_active_def
        user_out_def bind_id_def)
  obtain out where "load_user D i ?db = Inr out"
    using r assms(3) by (simp add: load_user_Inr set_user_def)
  moreover have "\<not> admin_exists ?db"
  proof
    assume "admin_exists ?db"
    then obtain l s where l: "dget (cd_users ?db) l = Some s" "us_role s = Admin" "us_is_active s"
      by (auto simp: admin_exists_def)
    with r have "l \<noteq> k" "dget (cd_users db) l = Some s"
      by (auto simp: set_user_def split: if_splits)
    with only l show False by blast
  qed
  ultimately show ?thesis using patched by (intro exI conjI) simp_all
qed

text \<open>An id with a letter, and its upper-case spelling.\<close>

definition lettered_uuid :: string where
  "lettered_uuid = ''a0000000-0000-4000-8000-000000000000''"

theorem respelled_id_locks_out_witness:
  "\<exists>out db. patch_user strict_driver \<lparr>cu_user_id = lettered_uuid, cu_username = ''ops'', cu_role = ''admin''\<rparr>
       (map upper_char lettered_uuid) \<lparr>up_role = None, up_is_active = Some False\<rparr>
       (init_cloud_db\<lparr>cd_users := [(lettered_uuid, sample_admin)]\<rparr>) = (Inr out, db) \<and> \<not> admin_exists db"
proof (rule respelled_id_locks_out)
  have u: "map upper_char lettered_uuid = ''A0000000-0000-4000-8000-000000000000''"
    by (simp add: lettered_uuid_def upper_char_def char_of_eq_iff)
  have v: "validate_event_id lettered_uuid" "validate_event_id (map upper_char lettered_uuid)"
    unfolding u by (simp_all add: validate_event_id_def fits_def uuid_pat_def is_hex_def lit_def is_digit_def
      lettered_uuid_def numeral_eq_Suc)
  have l: "map lower_char (map upper_char lettered_uuid) = lettered_uuid" "map lower_char lettered_uuid = lettered_uuid"
    by (simp_all add: lettered_uuid_def upper_char_def lower_char_def char_of_eq_iff)
  show "bind_uuid strict_driver (map upper_char lettered_uuid) = Some lettered_uuid"
    "bind_uuid strict_driver (cu_user_id \<lparr>cu_user_id = lettered_uuid, cu_username = ''ops'', cu_role = ''admin''\<rparr>) = Some lettered_uuid"
    using v l by (simp_all add: strict_driver_def)
  show "map upper_char lettered_uuid \<noteq> lettered_uuid"
    by (simp add: lettered_uuid_def upper_char_def char_of_eq_iff)
qed (simp_all add: active_admins_def dwf_def dkeys_def)

text \<open>C19: The audit trail tells the accounts: started before the first of its rows, the user table
  is, for existence, role and activity, what reading the rows in order gives, however the writing
  halves of the user requests interleave.\<close>

theorem audit_tells_accounts:
  assumes "reach (unaudited_start v) (user_write D B) db"
  shows "accounts db = replay_audit v (cd_user_audit db)"
  using trail.reach_inv [OF assms] by (simp add: audited_def)

theorem audit_tells_accounts_witness:
  "\<exists>out db. create_user_after strict_driver sample_bcrypt [] \<lparr>cu_user_id = sample_uuid 0, cu_username = ''ops'', cu_role = ''admin''\<rparr>
       (sample_uuid 1) ''new'' sample_password Operator False sample_users = (out, db) \<and>
     accounts db = replay_audit (accounts sample_users) (cd_user_audit db)"
proof -
  obtain out db where c: "create_user_after strict_driver sample_bcrypt []
      \<lparr>cu_user_id = sample_uuid 0, cu_username = ''ops'', cu_role = ''admin''\<rparr>
      (sample_uuid 1) ''new'' sample_password Operator False sample_users = (out, db)" by fastforce
  have start: "unaudited_start (accounts sample_users) sample_users"
    by (simp add: unaudited_start_def sample_users_def init_cloud_db_def)
  have "reach (unaudited_start (accounts sample_users)) (user_write strict_driver sample_bcrypt) db"
    by (rule reach_step [OF reach_init [where init = "unaudited_start (accounts sample_users)", OF start]])
      (rule Write_create [OF c])
  from audit_tells_accounts [OF this] c show ?thesis by blast
qed

end
