(* ===== verification/Py_Calendar.thy ===== *)
theory Py_Calendar
  imports Py_Time
begin

text \<open>
  The ISO calendar of Python's \<open>datetime\<close>: the date of an ordinal, \<open>isocalendar\<close> and
  \<open>fromisocalendar\<close>, over proleptic Gregorian ordinals (day 1 is a Monday).
\<close>

section \<open>The date of an ordinal\<close>

lemma days_before_year_mono: "1 \<le> y \<Longrightarrow> y \<le> z \<Longrightarrow> days_before_year y + 365 * int (z - y) \<le> days_before_year z"
proof (induction z)
  case (Suc z)
  then show ?case
    by (cases "y = Suc z") (auto simp: days_before_year_Suc Suc_diff_le)
qed simp

function year_from :: "int \<Rightarrow> nat \<Rightarrow> nat" where
  "year_from n y = (if n \<le> days_before_year (y + 1) \<or> y = 0 then y else year_from n (y + 1))"
  by pat_completeness auto
termination
proof (relation "measure (\<lambda>(n, y). nat (n - days_before_year y))")
  fix n and y :: nat
  assume "\<not> (n \<le> days_before_year (y + 1) \<or> y = 0)"
  then show "((n, y + 1), (n, y)) \<in> measure (\<lambda>(n, y). nat (n - days_before_year y))"
    using days_before_year_mono [of y "y + 1"] by simp
qed simp

declare year_from.simps [simp del]

definition ordinal_year :: "int \<Rightarrow> nat" where
  "ordinal_year n = year_from n (max 1 (nat (n div 366)))"

definition ordinal_date :: "int \<Rightarrow> nat \<times> nat \<times> nat" where
  "ordinal_date n =
     (let y = ordinal_year n; r = n - days_before_year y;
          m = last (filter (\<lambda>m. days_before_month y m < r) [1..<13])
      in (y, m, nat (r - days_before_month y m)))"

definition ordinal_text :: "int \<Rightarrow> string" where
  "ordinal_text n = (case ordinal_date n of (y, m, d) \<Rightarrow> zpad 4 y @ ''-'' @ zpad 2 m @ ''-'' @ zpad 2 d)"

lemma year_from_spec:
  "1 \<le> y \<Longrightarrow> days_before_year y < n \<Longrightarrow>
     days_before_year (year_from n y) < n \<and> n \<le> days_before_year (year_from n y + 1) \<and> 1 \<le> year_from n y"
proof (induction n y rule: year_from.induct)
  case (1 n y)
  show ?case
  proof (cases "n \<le> days_before_year (y + 1)")
    case True
    with 1 show ?thesis by (simp add: year_from.simps [of n y])
  next
    case False
    with 1 show ?thesis by (simp add: year_from.simps [of n y])
  qed
qed

lemma days_before_year_le: "days_before_year y \<le> 366 * int (y - 1)"
proof -
  define n where "n = y - 1"
  have "n div 400 \<le> n div 100" "n div 4 \<le> n" by (simp_all add: div_le_mono2)
  then show ?thesis unfolding days_before_year_def Let_def n_def [symmetric] by linarith
qed

lemma ordinal_year_spec:
  assumes "1 \<le> n"
  shows "days_before_year (ordinal_year n) < n" "n \<le> days_before_year (ordinal_year n + 1)" "1 \<le> ordinal_year n"
proof -
  let ?y = "max 1 (nat (n div 366))"
  have "days_before_year ?y < n"
  proof (cases "n < 366")
    case True
    then have "?y = 1" using assms by simp
    then show ?thesis using assms by (simp add: days_before_year_def)
  next
    case False
    then have "int (?y - 1) = n div 366 - 1" by auto
    then show ?thesis using days_before_year_le [of ?y] False by auto
  qed
  then show "days_before_year (ordinal_year n) < n" "n \<le> days_before_year (ordinal_year n + 1)" "1 \<le> ordinal_year n"
    using year_from_spec [of ?y n] by (simp_all add: ordinal_year_def)
qed

lemma ordinal_year_unique:
  assumes "1 \<le> y" "days_before_year y < n" "n \<le> days_before_year (y + 1)"
  shows "ordinal_year n = y"
proof -
  have "1 \<le> n" using assms(2) days_before_year_mono [of 1 y] assms(1) by (simp add: days_before_year_def)
  note spec = ordinal_year_spec [OF this]
  show ?thesis
  proof (rule ccontr)
    assume "ordinal_year n \<noteq> y"
    then consider "ordinal_year n + 1 \<le> y" | "y + 1 \<le> ordinal_year n" by linarith
    then show False
      using spec assms days_before_year_mono [of "ordinal_year n + 1" y] days_before_year_mono [of "y + 1" "ordinal_year n"]
      by cases auto
  qed
qed

section \<open>ISO weeks\<close>

text \<open>\<open>_isoweek1monday\<close>: the Monday of the week with the year's first Thursday.\<close>

definition week1_monday :: "nat \<Rightarrow> int" where
  "week1_monday y =
     (let first = days_before_year y + 1; wd = (first + 6) mod 7
      in if wd > 3 then first - wd + 7 else first - wd)"

text \<open>\<open>isocalendar\<close>: year, week and weekday from 1.\<close>

definition isocalendar :: "int \<Rightarrow> nat \<times> int \<times> int" where
  "isocalendar n =
     (let y = ordinal_year n; k = (n - week1_monday y) div 7; d = (n - week1_monday y) mod 7
      in if k < 0 then (y - 1, (n - week1_monday (y - 1)) div 7 + 1, (n - week1_monday (y - 1)) mod 7 + 1)
         else if 52 \<le> k \<and> week1_monday (y + 1) \<le> n then (y + 1, 1, d + 1)
         else (y, k + 1, d + 1))"

text \<open>\<open>fromisocalendar\<close>, as an ordinal.\<close>

definition long_year :: "nat \<Rightarrow> bool" where
  "long_year y \<longleftrightarrow>
     (days_before_year y + 1) mod 7 = 4 \<or> (days_before_year y + 1) mod 7 = 3 \<and> leap_year y"

definition fromisocalendar :: "nat \<Rightarrow> int \<Rightarrow> int \<Rightarrow> int res" where
  "fromisocalendar y w d =
     (if \<not> (1 \<le> y \<and> y \<le> 9999) then Inl ValueError
      else if \<not> (0 < w \<and> w < 53) \<and> \<not> (w = 53 \<and> long_year y) then Inl ValueError
      else if \<not> (0 < d \<and> d < 8) then Inl ValueError
      else Inr (week1_monday y + (w - 1) * 7 + (d - 1)))"

lemma week1_form:
  assumes "days_before_year y + 1 = 7 * q + k" "k \<in> {0, 1, 2, 3, 4, 5, 6}"
  shows "week1_monday y = 7 * q + (if k = 5 \<or> k = 6 then 8 else 1)"
  using assms(2) unfolding week1_monday_def assms(1) Let_def
  by (elim insertE emptyE) (simp_all add: add.assoc)

lemma week_split:
  obtains q k :: int where "n = 7 * q + k" "k \<in> {0, 1, 2, 3, 4, 5, 6}"
proof -
  have "n mod 7 \<in> {0..<7}" by simp
  also have "{0..<7} = {0, 1, 2, 3, 4, 5, 6::int}" by (auto simp: atLeastLessThan_def)
  finally show ?thesis using that [of "n div 7" "n mod 7"] by simp
qed

lemma week1_monday_mod: "week1_monday y mod 7 = 1"
proof -
  obtain q k where "days_before_year y + 1 = 7 * q + k" "k \<in> {0, 1, 2, 3, 4, 5, 6::int}" by (rule week_split)
  from week1_form [OF this] show ?thesis by simp
qed

lemma week1_monday_bounds:
  "days_before_year y - 2 \<le> week1_monday y" "week1_monday y \<le> days_before_year y + 4"
proof -
  obtain q k where k: "days_before_year y + 1 = 7 * q + k" "k \<in> {0, 1, 2, 3, 4, 5, 6::int}" by (rule week_split)
  from week1_form [OF this] k show "days_before_year y - 2 \<le> week1_monday y" "week1_monday y \<le> days_before_year y + 4"
    by auto
qed

lemma week1_monday_Suc:
  assumes "1 \<le> y"
  shows "week1_monday (Suc y) = week1_monday y + (if long_year y then 371 else 364)"
proof -
  obtain q k where k: "days_before_year y + 1 = 7 * q + k" "k \<in> {0, 1, 2, 3, 4, 5, 6::int}" by (rule week_split)
  let ?e = "if leap_year y then 2 else 1 :: int"
  let ?q = "if 7 \<le> k + ?e then q + 53 else q + 52" and ?k = "if 7 \<le> k + ?e then k + ?e - 7 else k + ?e"
  have "days_before_year (Suc y) + 1 = 7 * ?q + ?k"
    using assms k(1) by (simp add: days_before_year_Suc)
  moreover have "?k \<in> {0, 1, 2, 3, 4, 5, 6}" using k(2) by auto
  ultimately have "week1_monday (Suc y) = 7 * ?q + (if ?k = 5 \<or> ?k = 6 then 8 else 1)" by (rule week1_form)
  moreover have "(7 * q + k) mod 7 = k" using k(2) by auto
  ultimately show ?thesis
    using week1_form [OF k] k(2) unfolding long_year_def k(1) by auto
qed

lemma fromisocalendar_monday:
  assumes "1 \<le> y" "y \<le> 9999" "0 < w \<and> (w < 53 \<or> w = 53 \<and> long_year y)"
  shows "fromisocalendar y w 1 = Inr (week1_monday y + (w - 1) * 7)"
  using assms by (auto simp: fromisocalendar_def)

text \<open>The Monday of a day's ISO week is the Monday on or before it.\<close>

lemma isocalendar_monday:
  assumes "isocalendar n = (y, w, d)" "days_before_year 2 < n" "n \<le> days_before_year 9999"
  shows "fromisocalendar y w 1 = Inr (n - (n + 6) mod 7)" "d = (n + 6) mod 7 + 1"
proof -
  define Y where "Y = ordinal_year n"
  have "1 \<le> n" using assms(2) by (simp add: days_before_year_def)
  note spec = ordinal_year_spec [OF this, folded Y_def]
  have Y: "2 \<le> Y" "Y < 9999"
    using spec assms(2,3) days_before_year_mono [of "Y + 1" 2] days_before_year_mono [of 9999 Y] by fastforce+
  have monday: "n - (n - week1_monday z) mod 7 = n - (n + 6) mod 7" "(n - week1_monday z) mod 7 = (n + 6) mod 7" for z
  proof -
    obtain p where "week1_monday z = 7 * p + 1"
      using week1_monday_mod [of z] by (metis mult_div_mod_eq)
    then have "n - week1_monday z = n + 6 + (- p - 1) * 7" by simp
    then have "(n - week1_monday z) mod 7 = (n + 6) mod 7" by (simp only: mod_mult_self1)
    then show "n - (n - week1_monday z) mod 7 = n - (n + 6) mod 7" "(n - week1_monday z) mod 7 = (n + 6) mod 7"
      by simp_all
  qed
  have split: "week1_monday z + (n - week1_monday z) div 7 * 7 = n - (n + 6) mod 7" for z
    using monday(2) [of z] by (simp add: minus_mod_eq_div_mult [symmetric])
  have step: "week1_monday (z + 1) = week1_monday z + (if long_year z then 371 else 364)" if "1 \<le> z" for z
    using week1_monday_Suc [OF that] by simp
  have "fromisocalendar y w 1 = Inr (n - (n + 6) mod 7) \<and> d = (n + 6) mod 7 + 1"
  proof (cases "(n - week1_monday Y) div 7 < 0")
    case True
    then have lt: "n < week1_monday Y" by simp
    have w: "y = Y - 1" "w = (n - week1_monday (Y - 1)) div 7 + 1" "d = (n - week1_monday (Y - 1)) mod 7 + 1"
      using assms(1) True by (auto simp: isocalendar_def Let_def Y_def)
    have "week1_monday Y = week1_monday (Y - 1) + (if long_year (Y - 1) then 371 else 364)"
      using step [of "Y - 1"] Y by simp
    moreover have "week1_monday (Y - 1) \<le> n"
    proof -
      have "1 \<le> Y - 1" using Y by linarith
      from days_before_year_mono [OF this, of Y] have "days_before_year (Y - 1) + 365 \<le> days_before_year Y"
        using Y by simp
      then show ?thesis using spec(1) week1_monday_bounds(2) [of "Y - 1"] by linarith
    qed
    ultimately have "0 < w \<and> (w < 53 \<or> w = 53 \<and> long_year (Y - 1))"
      using lt unfolding w(2) by (cases "long_year (Y - 1)") (simp_all, linarith+)
    with Y w(1) have "fromisocalendar y w 1 = Inr (week1_monday (Y - 1) + (w - 1) * 7)"
      using fromisocalendar_monday [of "Y - 1" w] by simp
    then show ?thesis using w split [of "Y - 1"] monday(2) by simp
  next
    case False
    then have ge: "week1_monday Y \<le> n" by simp
    show ?thesis
    proof (cases "52 \<le> (n - week1_monday Y) div 7 \<and> week1_monday (Y + 1) \<le> n")
      case True
      then have w: "y = Y + 1" "w = 1" "d = (n - week1_monday Y) mod 7 + 1"
        using assms(1) False by (simp_all add: isocalendar_def Let_def Y_def)
      have "n - week1_monday (Y + 1) < 7"
        using spec(2) week1_monday_bounds(1) [of "Y + 1"] by simp
      then have "(n - week1_monday (Y + 1)) div 7 = 0" using True by simp
      then have "week1_monday (Y + 1) = n - (n + 6) mod 7" using split [of "Y + 1"] by simp
      then show ?thesis using Y w monday(2) by (simp add: fromisocalendar_def)
    next
      case 52: False
      have w: "y = Y" "w = (n - week1_monday Y) div 7 + 1" "d = (n - week1_monday Y) mod 7 + 1"
        using assms(1) False 52 by (auto simp: isocalendar_def Let_def Y_def)
      have "(n - week1_monday Y) div 7 < 52 \<or> (n - week1_monday Y) div 7 = 52 \<and> long_year Y"
        using 52 step [of Y] Y by (cases "long_year Y") (simp_all, linarith+)
      then have "0 < w \<and> (w < 53 \<or> w = 53 \<and> long_year Y)"
        using ge unfolding w(2) by auto
      then have "fromisocalendar y w 1 = Inr (week1_monday Y + (w - 1) * 7)"
        using Y fromisocalendar_monday [of Y w] w(1) by simp
      then show ?thesis using w split [of Y] monday(2) by simp
    qed
  qed
  then show "fromisocalendar y w 1 = Inr (n - (n + 6) mod 7)" "d = (n + 6) mod 7 + 1" by simp_all
qed

text \<open>The ordinal of a valid date lies in its year.\<close>

lemma days_before_month_le:
  assumes "1 \<le> m" "m \<le> 12"
  shows "days_before_month y m + int (days_in_month y m) \<le> (if leap_year y then 366 else 365)"
proof -
  have "m = 1 \<or> m = 2 \<or> m = 3 \<or> m = 4 \<or> m = 5 \<or> m = 6 \<or> m = 7 \<or> m = 8 \<or> m = 9 \<or> m = 10 \<or> m = 11 \<or> m = 12"
    using assms by presburger
  then show ?thesis
    by (elim disjE) (simp_all add: days_before_month_def days_in_month_def upt_rec)
qed

lemma dt_ordinal_year:
  assumes "dt_ok t"
  shows "days_before_year (yr t) < dt_ordinal t" "dt_ordinal t \<le> days_before_year (yr t + 1)"
proof -
  have "1 \<le> dy t" "dy t \<le> days_in_month (yr t) (mo t)" "1 \<le> yr t" "1 \<le> mo t" "mo t \<le> 12"
    using assms by (simp_all add: dt_ok_def date_ok_def)
  moreover have "0 \<le> days_before_month (yr t) (mo t)" by (simp add: days_before_month_def)
  ultimately show "days_before_year (yr t) < dt_ordinal t" "dt_ordinal t \<le> days_before_year (yr t + 1)"
    using days_before_month_le [of "mo t" "yr t"] by (simp_all add: dt_ordinal_def days_before_year_Suc)
qed

text \<open>An instant lies within its day.\<close>

lemma dt_micros_day:
  assumes "dt_ok t"
  shows "dt_ordinal t * 86400000000 \<le> dt_micros t" "dt_micros t < (dt_ordinal t + 1) * 86400000000"
  using assms by (simp_all add: dt_micros_def dt_ok_def)

end
