(* ===== verification/Cloud_Reports.thy ===== *)
theory Cloud_Reports
  imports Cloud_Escalations Py_Calendar
begin

text \<open>
  The reports of \<open>cloud-backend\<close> over the audit rows: the lifecycle funnels
  (\<open>routes/escalations_audit.py\<close>), the resolution rates (\<open>routes/ai_quality.py\<close>,
  \<open>services/ai_quality_rates.py\<close>), the delay minutes (\<open>services/delay_minutes_avoided.py\<close>,
  \<open>routes/kpi.py\<close>) and the weekly report (\<open>services/alert_effectiveness_report.py\<close>). A query
  that groups rows without an ORDER BY is taken to answer them by code; text orders by its
  bytes. The report's text is its UTF-8 bytes.
\<close>

section \<open>Windows\<close>

definition invalid_range :: failure where
  "invalid_range = Http 422 ''INVALID_RANGE''"

text \<open>\<open>_parse_iso\<close>, as microseconds; a text without an offset is read as UTC.\<close>

definition parse_bound :: "string option \<Rightarrow> int option outcome" where
  "parse_bound b =
     (case b of
        None \<Rightarrow> Inr None
      | Some s \<Rightarrow>
          (case fromisoformat (py_replace ''Z'' ''+00:00'' s) of
             Inl e \<Rightarrow> Inl invalid_range
           | Inr (Aware n) \<Rightarrow> Inr (Some n)
           | Inr (Naive t) \<Rightarrow> Inr (Some (dt_micros t))))"

definition parse_window :: "string option \<Rightarrow> string option \<Rightarrow> (int option \<times> int option) outcome" where
  "parse_window from' to' =
     bind_res (parse_bound from') (\<lambda>f. bind_res (parse_bound to') (\<lambda>t.
       (case (f, t) of
          (Some a, Some b) \<Rightarrow> if b < a then Inl invalid_range else Inr (f, t)
        | _ \<Rightarrow> Inr (f, t))))"

definition windowed :: "int \<Rightarrow> int \<Rightarrow> audit_row list \<Rightarrow> audit_row list" where
  "windowed lo hi rows = filter (\<lambda>a. in_window lo hi (au_t_event a)) rows"

text \<open>The default window, computed by the database clock.\<close>

definition audit_window :: "int option \<Rightarrow> int option \<Rightarrow> datetime \<Rightarrow> audit_row list \<Rightarrow> audit_row list" where
  "audit_window f t now rows = windowed (keep_or f (dt_micros now - days 7)) (keep_or t (dt_micros now)) rows"

section \<open>Aggregates\<close>

definition audit_codes :: "audit_row list \<Rightarrow> string list" where
  "audit_codes rows = sort (remdups (map au_alert_code rows))"

definition with_code :: "string \<Rightarrow> audit_row list \<Rightarrow> audit_row list" where
  "with_code c rows = filter (\<lambda>a. au_alert_code a = c) rows"

definition count_transition :: "transition \<Rightarrow> audit_row list \<Rightarrow> nat" where
  "count_transition t rows = length (filter (\<lambda>a. au_transition a = t) rows)"

definition ack_latency :: "audit_row \<Rightarrow> rat" where
  "ack_latency a = max (total_seconds (dt_micros (au_t_event a) - dt_micros (au_t_fired a))) 0"

text \<open>\<open>PERCENTILE_CONT\<close>: interpolation between the two neighbours of the row number.\<close>

definition percentile_cont :: "rat \<Rightarrow> rat list \<Rightarrow> rat option" where
  "percentile_cont p qs =
     (if qs = [] then None
      else (let s = sort qs; r = p * of_nat (length s - 1); lo = nat \<lfloor>r\<rfloor>; hi = nat \<lceil>r\<rceil>
            in Some (s ! lo + (r - of_nat lo) * (s ! hi - s ! lo))))"

definition ack_percentile :: "rat \<Rightarrow> audit_row list \<Rightarrow> rat option" where
  "ack_percentile p rows =
     percentile_cont p (map ack_latency (filter (\<lambda>a. au_transition a = T_acknowledged) rows))"

definition resolved_tags :: "audit_row list \<Rightarrow> string list" where
  "resolved_tags rows =
     concat (map (\<lambda>a. keep_or (au_action_tags a) []) (filter (\<lambda>a. au_transition a = T_resolved) rows))"

definition tag_distribution :: "audit_row list \<Rightarrow> (string, nat) dict" where
  "tag_distribution rows =
     (let tags = resolved_tags rows in map (\<lambda>t. (t, count_list tags t)) (sort (remdups tags)))"

definition false_alarm_key :: string where
  "false_alarm_key = ''false_alarm''"

definition count_false_alarm :: "audit_row list \<Rightarrow> nat" where
  "count_false_alarm rows =
     length (filter (\<lambda>a. au_transition a = T_resolved \<and> false_alarm_key \<in> set (keep_or (au_action_tags a) [])) rows)"

definition count_no_action :: "audit_row list \<Rightarrow> nat" where
  "count_no_action rows =
     length (filter (\<lambda>a. au_transition a = T_resolved \<and> keep_or (au_action_tags a) [] = []) rows)"

definition ratio :: "nat \<Rightarrow> nat \<Rightarrow> rat option" where
  "ratio n d = (if 0 < d then Some (of_nat n / of_nat d) else None)"

section \<open>Funnels\<close>

record alert_funnel =
  fn_alert_code :: string
  fn_raised :: nat
  fn_acknowledged :: nat
  fn_resolved :: nat
  fn_silently_dismissed :: nat
  fn_median_t_ack :: "rat option"
  fn_p95_t_ack :: "rat option"
  fn_action_tags :: "(string, nat) dict"

definition funnel_of :: "audit_row list \<Rightarrow> string \<Rightarrow> alert_funnel" where
  "funnel_of rows c =
     (let rs = with_code c rows
      in \<lparr>fn_alert_code = c, fn_raised = count_transition T_raised rs,
          fn_acknowledged = count_transition T_acknowledged rs, fn_resolved = count_transition T_resolved rs,
          fn_silently_dismissed = count_transition T_dismissed rs,
          fn_median_t_ack = ack_percentile (1/2) rs, fn_p95_t_ack = ack_percentile (19/20) rs,
          fn_action_tags = tag_distribution rs\<rparr>)"

definition get_escalation_funnels ::
  "string option \<Rightarrow> string option \<Rightarrow> string option \<Rightarrow> datetime \<Rightarrow> cloud_db \<Rightarrow> alert_funnel list outcome" where
  "get_escalation_funnels from' to' alert_code now db =
     bind_res (parse_window from' to') (\<lambda>(f, t).
       (let rows = audit_window f t now (cd_audit db);
            rows' = (case alert_code of None \<Rightarrow> rows | Some c \<Rightarrow> with_code c rows)
        in Inr (map (funnel_of rows') (audit_codes rows'))))"

section \<open>Resolution rates\<close>

record quality_rates =
  qr_alert_code :: string
  qr_resolved_total :: nat
  qr_no_action_count :: nat
  qr_no_action_rate :: "rat option"
  qr_false_alarm_count :: nat
  qr_explicit_fp_rate :: "rat option"

definition rates_of :: "audit_row list \<Rightarrow> string \<Rightarrow> quality_rates" where
  "rates_of rows c =
     (let rs = with_code c rows; total = length rs
      in \<lparr>qr_alert_code = c, qr_resolved_total = total, qr_no_action_count = count_no_action rs,
          qr_no_action_rate = ratio (count_no_action rs) total,
          qr_false_alarm_count = count_false_alarm rs,
          qr_explicit_fp_rate = ratio (count_false_alarm rs) total\<rparr>)"

definition resolution_rates :: "int option \<Rightarrow> int option \<Rightarrow> datetime \<Rightarrow> cloud_db \<Rightarrow> quality_rates list" where
  "resolution_rates f t now db =
     (let rows = audit_window f t now (filter (\<lambda>a. au_transition a = T_resolved) (cd_audit db))
      in map (rates_of rows) (audit_codes rows))"

definition get_resolution_rates ::
  "string option \<Rightarrow> string option \<Rightarrow> datetime \<Rightarrow> cloud_db \<Rightarrow> quality_rates list outcome" where
  "get_resolution_rates from' to' now db =
     bind_res (parse_window from' to') (\<lambda>(f, t). Inr (resolution_rates f t now db))"

section \<open>Delay minutes\<close>

definition in_time :: "datetime \<Rightarrow> int \<Rightarrow> escalation \<Rightarrow> bool" where
  "in_time now window_hours s \<longleftrightarrow>
     es_status s = Resolved \<and>
     (case (es_seconds_to_departure s, es_t_resolve s) of
        (Some d, Some t) \<Rightarrow>
          dt_micros now - hours window_hours \<le> dt_micros t \<and>
          dt_micros t < dt_micros (es_t_fired s) + d * 1000000
      | _ \<Rightarrow> False)"

definition delay_minutes_avoided :: "datetime \<Rightarrow> int \<Rightarrow> cloud_db \<Rightarrow> rat" where
  "delay_minutes_avoided now window_hours db =
     of_int (sum_list (map (\<lambda>s. keep_or (es_seconds_to_departure s) 0)
       (filter (in_time now window_hours) (map snd (cd_escalations db))))) / 60"

definition get_delay_minutes_avoided :: "datetime \<Rightarrow> cloud_db \<Rightarrow> rat \<times> int" where
  "get_delay_minutes_avoided now db = (delay_minutes_avoided now 24 db, 24)"

section \<open>The weekly report\<close>

record weekly_funnel =
  wf_alert_code :: string
  wf_raised :: nat
  wf_acknowledged :: nat
  wf_resolved :: nat
  wf_dismissed :: nat
  wf_false_alarm :: nat
  wf_ack_rate :: "rat option"
  wf_explicit_fp_rate :: "rat option"
  wf_median_ack :: "rat option"
  wf_p95_ack :: "rat option"

definition retune_top_n :: nat where
  "retune_top_n = 5"

definition nfr3_fp_threshold :: rat where
  "nfr3_fp_threshold = 1/20"

definition nfr3_breaches :: "weekly_funnel list \<Rightarrow> weekly_funnel list" where
  "nfr3_breaches fs =
     filter (\<lambda>f. case wf_explicit_fp_rate f of None \<Rightarrow> False | Some q \<Rightarrow> nfr3_fp_threshold \<le> q) fs"

text \<open>Days, as ordinals; the last day \<open>datetime\<close> can represent ends the calendar.\<close>

definition max_ordinal :: int where
  "max_ordinal = 3652059"

definition iso_week_bounds :: "nat \<Rightarrow> int \<Rightarrow> (int \<times> int) res" where
  "iso_week_bounds iso_year iso_week =
     bind_res (fromisocalendar iso_year iso_week 1) (\<lambda>n.
       if n + 7 \<le> max_ordinal then Inr (n, n + 7) else Inl OverflowError)"

definition day_micros :: "int \<Rightarrow> int" where
  "day_micros n = n * 86400000000"

definition weekly_funnel_of :: "audit_row list \<Rightarrow> string \<Rightarrow> weekly_funnel" where
  "weekly_funnel_of rows c =
     (let rs = with_code c rows; raised = count_transition T_raised rs;
          ack = count_transition T_acknowledged rs; resolved = count_transition T_resolved rs;
          false_alarm = count_false_alarm rs
      in \<lparr>wf_alert_code = c, wf_raised = raised, wf_acknowledged = ack, wf_resolved = resolved,
          wf_dismissed = count_transition T_dismissed rs, wf_false_alarm = false_alarm,
          wf_ack_rate = ratio ack raised, wf_explicit_fp_rate = ratio false_alarm resolved,
          wf_median_ack = ack_percentile (1/2) rs, wf_p95_ack = ack_percentile (19/20) rs\<rparr>)"

definition funnel_rows :: "int \<Rightarrow> int \<Rightarrow> cloud_db \<Rightarrow> weekly_funnel list" where
  "funnel_rows lo hi db =
     (let rows = windowed lo hi (cd_audit db) in map (weekly_funnel_of rows) (audit_codes rows))"

definition in_window_opt :: "int \<Rightarrow> int \<Rightarrow> datetime option \<Rightarrow> bool" where
  "in_window_opt lo hi t = (case t of None \<Rightarrow> False | Some x \<Rightarrow> in_window lo hi x)"

definition class_state_events :: "int \<Rightarrow> int \<Rightarrow> cloud_db \<Rightarrow> (string \<times> class_row) list" where
  "class_state_events lo hi db =
     filter (\<lambda>(c, r). in_window_opt lo hi (cs_disabled_at r) \<or> in_window_opt lo hi (cs_enabled_at r))
       (sort_key fst (cd_classes db))"

text \<open>The UTF-8 bytes of the characters outside ASCII: em dash, arrow, middle dot, at least.\<close>

definition em_dash :: string where
  "em_dash = [CHR 0xE2, CHR 0x80, CHR 0x94]"

definition arrow :: string where
  "arrow = [CHR 0xE2, CHR 0x86, CHR 0x92]"

definition middle_dot :: string where
  "middle_dot = [CHR 0xC2, CHR 0xB7]"

definition at_least :: string where
  "at_least = [CHR 0xE2, CHR 0x89, CHR 0xA5]"

definition fmt_pct :: "rat option \<Rightarrow> string" where
  "fmt_pct rate = (case rate of None \<Rightarrow> em_dash | Some q \<Rightarrow> show_int (round_half_even (q * 100)) @ ''%'')"

definition fmt_secs :: "rat option \<Rightarrow> string" where
  "fmt_secs s = (case s of None \<Rightarrow> em_dash | Some q \<Rightarrow> show_int (round_half_even q) @ ''s'')"

text \<open>\<open>sorted(\<dots>)[:5]\<close> by ack rate and then by falling volume.\<close>

definition candidates :: "weekly_funnel list \<Rightarrow> weekly_funnel list" where
  "candidates fs =
     take retune_top_n (sort_key (\<lambda>f. (keep_or (wf_ack_rate f) 1, - int (wf_raised f)))
       (filter (\<lambda>f. wf_ack_rate f \<noteq> None) fs))"

definition table_row :: "string list \<Rightarrow> string" where
  "table_row cells = ''| '' @ join_with '' | '' cells @ '' |''"

definition section_lines :: "string \<Rightarrow> string list \<Rightarrow> string list \<Rightarrow> string \<Rightarrow> string list" where
  "section_lines title header rows none =
     [title, []] @ (if rows = [] then [none] else header @ rows) @ [[]]"

definition dismissal_detail :: "nat \<Rightarrow> nat \<Rightarrow> string" where
  "dismissal_detail dismissed raised =
     (if 0 < raised then ''('' @ show_nat dismissed @ ''/'' @ show_nat raised @ '')''
      else if 0 < dismissed then ''('' @ show_nat dismissed @ '' dismissed, none raised this window)''
      else ''(no escalations this window)'')"

definition render_summary :: "nat \<Rightarrow> int \<Rightarrow> int \<Rightarrow> int \<Rightarrow> weekly_funnel list \<Rightarrow> string list" where
  "render_summary iso_year iso_week from_day to_day fs =
     (let raised = sum_list (map wf_raised fs); dismissed = sum_list (map wf_dismissed fs)
      in [''# Alert Effectiveness '' @ em_dash @ '' '' @ show_nat iso_year @ ''-W'' @ zpad 2 (nat iso_week), [],
          ''Window: '' @ ordinal_text from_day @ '' '' @ arrow @ '' '' @ ordinal_text to_day @ '' (UTC, ISO week)'', [],
          ''Total escalations raised: **'' @ show_nat raised @ ''** '' @ middle_dot @ '' silent-dismissal rate: **'' @
            fmt_pct (ratio dismissed raised) @ ''** '' @ dismissal_detail dismissed raised, []])"

definition by_and_when :: "string option \<Rightarrow> datetime option \<Rightarrow> string" where
  "by_and_when who t =
     (case t of None \<Rightarrow> em_dash | Some x \<Rightarrow> keep_or who ''None'' @ '' / '' @ isoformat_auto x)"

definition render ::
  "nat \<Rightarrow> int \<Rightarrow> int \<Rightarrow> int \<Rightarrow> weekly_funnel list \<Rightarrow> (string \<times> class_row) list \<Rightarrow> string" where
  "render iso_year iso_week from_day to_day fs events =
     join_with newline
       (render_summary iso_year iso_week from_day to_day fs @
        section_lines ''## Retune candidates (high volume, low ack rate)''
          [''| Alert code | Raised | Ack rate | Median ack |'', ''|---|---:|---:|---:|'']
          (map (\<lambda>f. table_row [wf_alert_code f, show_nat (wf_raised f), fmt_pct (wf_ack_rate f), fmt_secs (wf_median_ack f)])
            (candidates fs))
          ''_No escalations raised in this window._'' @
        section_lines (''## NFR3 breaches (explicit false-positive rate '' @ at_least @ '' 5%)'')
          [''| Alert code | Explicit FP rate | False alarms | Resolved |'', ''|---|---:|---:|---:|'']
          (map (\<lambda>f. table_row [wf_alert_code f, fmt_pct (wf_explicit_fp_rate f), show_nat (wf_false_alarm f), show_nat (wf_resolved f)])
            (sort_key (\<lambda>f. - keep_or (wf_explicit_fp_rate f) 0) (nfr3_breaches fs)))
          ''_No alert class breached NFR3 this window._'' @
        section_lines ''## Median ack latency by alert class''
          [''| Alert code | Raised | Ack | Resolved | Dismissed | Median ack | P95 ack |'', ''|---|---:|---:|---:|---:|---:|---:|'']
          (map (\<lambda>f. table_row [wf_alert_code f, show_nat (wf_raised f), show_nat (wf_acknowledged f), show_nat (wf_resolved f),
              show_nat (wf_dismissed f), fmt_secs (wf_median_ack f), fmt_secs (wf_p95_ack f)])
            (sort_key (\<lambda>f. - int (wf_raised f)) fs))
          ''_No data._'' @
        section_lines ''## Alert-class enable/disable events in window''
          [''| Alert code | Current state | Disabled (by / at) | Enabled (by / at) |'', ''|---|---|---|---|'']
          (map (\<lambda>(c, r). table_row [c, if cs_disabled r then ''disabled'' else ''enabled'',
              by_and_when (cs_disabled_by r) (cs_disabled_at r), by_and_when (cs_enabled_by r) (cs_enabled_at r)]) events)
          ''_No kill-switch activity in this window._'')"

text \<open>The file is overwritten; the directory of reports is a dictionary from name to text.\<close>

definition report_name :: "nat \<Rightarrow> int \<Rightarrow> string" where
  "report_name iso_year iso_week = ''alert-effectiveness-'' @ show_nat iso_year @ ''-'' @ zpad 2 (nat iso_week) @ ''.md''"

definition generate_report ::
  "nat \<Rightarrow> int \<Rightarrow> cloud_db \<Rightarrow> (string, string) dict \<Rightarrow> (string \<times> (string, string) dict) res" where
  "generate_report iso_year iso_week db dir =
     bind_res (iso_week_bounds iso_year iso_week) (\<lambda>(lo, hi).
       (let fs = funnel_rows (day_micros lo) (day_micros hi) db;
            events = class_state_events (day_micros lo) (day_micros hi) db;
            name = report_name iso_year iso_week
        in Inr (name, dset dir name (render iso_year iso_week lo hi fs events))))"

text \<open>\<open>_main\<close> without arguments: the week before the current one.\<close>

definition completed_week :: "datetime \<Rightarrow> (nat \<times> int) res" where
  "completed_week now =
     (case isocalendar (dt_ordinal now) of (y, w, d) \<Rightarrow>
        bind_res (fromisocalendar y w 1) (\<lambda>monday.
          (case isocalendar (monday - 1) of (y', w', d') \<Rightarrow> Inr (y', w'))))"

end
