(* ===== verification/Cloud_Report_Facts.thy ===== *)
theory Cloud_Report_Facts
  imports Cloud_Reports
begin

text \<open>
  Facts of the reports: counts as sums over the escalations, percentiles between the extremes,
  windows that add up, and the weeks of the calendar.
\<close>

section \<open>Counting\<close>

lemma length_filter_split:
  assumes "finite K" "f ` set xs \<subseteq> K"
  shows "length (filter P xs) = (\<Sum>k\<in>K. length (filter (\<lambda>x. P x \<and> f x = k) xs))"
  using assms(2)
proof (induction xs)
  case (Cons x xs)
  have "(\<Sum>k\<in>K. length (filter (\<lambda>x. P x \<and> f x = k) (x # xs)))
      = (\<Sum>k\<in>K. length (filter (\<lambda>x. P x \<and> f x = k) xs) + (if k = f x \<and> P x then 1 else 0))"
    by (rule sum.cong) auto
  also have "\<dots> = length (filter P xs) + (\<Sum>k\<in>K. if k = f x \<and> P x then 1 else 0)"
    using Cons by (simp add: sum.distrib)
  also have "(\<Sum>k\<in>K. if k = f x \<and> P x then 1 else 0 :: nat) = (if P x then 1 else 0)"
    using assms(1) Cons.prems by (cases "P x") simp_all
  finally show ?case by simp
qed simp

lemma count_word: "count_list (audit_word k rows) t = length (filter (\<lambda>a. au_transition a = t \<and> au_escalation_id a = k) rows)"
  by (induction rows) (auto simp: audit_word_def)

definition transitions_of :: "string \<Rightarrow> transition \<Rightarrow> cloud_db \<Rightarrow> string \<Rightarrow> nat" where
  "transitions_of c t db k =
     (if map_option es_alert_code (dget (cd_escalations db) k) = Some c
      then count_list (audit_word k (cd_audit db)) t else 0)"

lemma count_transition_sum:
  assumes "lifecycle_ok db"
  shows "count_transition t (with_code c (cd_audit db)) =
    (\<Sum>k\<in>au_escalation_id ` set (cd_audit db). transitions_of c t db k)"
proof -
  let ?rows = "cd_audit db"
  have "count_transition t (with_code c ?rows) = length (filter (\<lambda>a. au_transition a = t \<and> au_alert_code a = c) ?rows)"
    by (simp add: count_transition_def with_code_def conj_commute)
  also have "\<dots> = (\<Sum>k\<in>au_escalation_id ` set ?rows.
      length (filter (\<lambda>a. (au_transition a = t \<and> au_alert_code a = c) \<and> au_escalation_id a = k) ?rows))"
    by (rule length_filter_split) simp_all
  also have "\<dots> = (\<Sum>k\<in>au_escalation_id ` set ?rows. transitions_of c t db k)"
  proof (rule sum.cong [OF refl])
    fix k
    have code: "a \<in> set ?rows \<Longrightarrow> au_escalation_id a = k \<Longrightarrow>
        map_option es_alert_code (dget (cd_escalations db) k) = Some (au_alert_code a)" for a
      using assms by (auto simp: lifecycle_ok_def)
    have "filter (\<lambda>a. (au_transition a = t \<and> au_alert_code a = c) \<and> au_escalation_id a = k) ?rows =
        (if map_option es_alert_code (dget (cd_escalations db) k) = Some c
         then filter (\<lambda>a. au_transition a = t \<and> au_escalation_id a = k) ?rows else [])"
    proof (cases "map_option es_alert_code (dget (cd_escalations db) k) = Some c")
      case True
      then have "a \<in> set ?rows \<Longrightarrow> au_escalation_id a = k \<Longrightarrow> au_alert_code a = c" for a
        using code by fastforce
      then show ?thesis unfolding if_P [OF True] by (intro filter_cong) auto
    next
      case False
      then have "a \<in> set ?rows \<Longrightarrow> au_escalation_id a = k \<Longrightarrow> au_alert_code a \<noteq> c" for a
        using code by fastforce
      then show ?thesis unfolding if_not_P [OF False] by (auto simp: filter_empty_conv)
    qed
    then show "length (filter (\<lambda>a. (au_transition a = t \<and> au_alert_code a = c) \<and> au_escalation_id a = k) ?rows)
        = transitions_of c t db k"
      unfolding transitions_of_def count_word by (simp only: if_distrib [of length] list.size)
  qed
  finally show ?thesis .
qed

lemma transitions_narrow:
  assumes "lifecycle_ok db"
  shows "transitions_of c T_resolved db k \<le> transitions_of c T_acknowledged db k"
    "transitions_of c T_acknowledged db k \<le> transitions_of c T_raised db k"
proof -
  have count: "count_list (replicate n T_dismissed) t = (if t = T_dismissed then n else 0)" for n t
    by (induction n) auto
  have "history_ok s w \<Longrightarrow> count_list w T_resolved \<le> count_list w T_acknowledged \<and>
      count_list w T_acknowledged \<le> count_list w T_raised" for s w
    by (cases "es_status s") (auto simp: history_ok_def count)
  then show "transitions_of c T_resolved db k \<le> transitions_of c T_acknowledged db k"
    "transitions_of c T_acknowledged db k \<le> transitions_of c T_raised db k"
    using lifecycleD [OF assms, of k]
    by (auto simp: transitions_of_def)
qed

text \<open>Over the whole history a funnel narrows.\<close>

lemma funnel_counts:
  assumes "lifecycle_ok db"
  shows "count_transition T_resolved (with_code c (cd_audit db)) \<le> count_transition T_acknowledged (with_code c (cd_audit db))"
    "count_transition T_acknowledged (with_code c (cd_audit db)) \<le> count_transition T_raised (with_code c (cd_audit db))"
  unfolding count_transition_sum [OF assms] using transitions_narrow [OF assms] by (auto intro: sum_mono)

lemma with_code_twice: "with_code c (with_code d rows) = (if c = d then with_code d rows else [])"
  by (auto simp: with_code_def filter_empty_conv intro: filter_cong)

lemma set_audit_codes [simp]: "set (audit_codes rows) = au_alert_code ` set rows"
  by (simp add: audit_codes_def)

lemma distinct_audit_codes: "distinct (audit_codes rows)" "sorted (audit_codes rows)"
  by (simp_all add: audit_codes_def)

section \<open>Windows\<close>

lemma windowed_split:
  "lo \<le> mid \<Longrightarrow> mid \<le> hi \<Longrightarrow>
     length (filter P (windowed lo hi rows)) = length (filter P (windowed lo mid rows)) + length (filter P (windowed mid hi rows))"
  by (induction rows) (auto simp: windowed_def in_window_def)

section \<open>Percentiles\<close>

lemma percentile_between:
  assumes "percentile_cont p qs = Some v" "0 \<le> p" "p \<le> 1" "\<forall>q \<in> set qs. a \<le> q \<and> q \<le> b"
  shows "a \<le> v \<and> v \<le> b"
proof -
  let ?s = "sort qs"
  define r where "r = p * of_nat (length ?s - 1)"
  define x where "x = ?s ! nat \<lfloor>r\<rfloor>"
  define y where "y = ?s ! nat \<lceil>r\<rceil>"
  have ne: "qs \<noteq> []" and v: "v = x + (r - of_nat (nat \<lfloor>r\<rfloor>)) * (y - x)"
    using assms(1) by (auto simp: percentile_cont_def Let_def r_def x_def y_def split: if_splits)
  have r: "0 \<le> r" "r \<le> of_nat (length ?s - 1)"
    using assms(2,3) mult_right_mono [of p 1 "of_nat (length ?s - 1)"] by (simp_all add: r_def)
  then have "\<lceil>r\<rceil> \<le> int (length ?s - 1)" by (simp add: ceiling_le_iff)
  moreover have "\<lfloor>r\<rfloor> \<le> \<lceil>r\<rceil>" by linarith
  moreover have "int (length ?s - 1) < int (length ?s)" using ne by (cases qs) simp_all
  ultimately have "\<lfloor>r\<rfloor> < int (length ?s)" "\<lceil>r\<rceil> < int (length ?s)" by linarith+
  moreover have "0 \<le> \<lfloor>r\<rfloor>" "0 \<le> \<lceil>r\<rceil>" using r(1) by linarith+
  ultimately have "nat \<lfloor>r\<rfloor> < length ?s" "nat \<lceil>r\<rceil> < length ?s" by linarith+
  then have "x \<in> set qs" "y \<in> set qs" unfolding x_def y_def by (metis nth_mem set_sort)+
  then have xy: "a \<le> x" "x \<le> b" "a \<le> y" "y \<le> b" using assms(4) by auto
  define d where "d = r - of_nat (nat \<lfloor>r\<rfloor>)"
  have "of_nat (nat \<lfloor>r\<rfloor>) = (of_int \<lfloor>r\<rfloor> :: rat)" using r(1) by simp
  then have d: "0 \<le> d" "d \<le> 1" unfolding d_def by linarith+
  have "v = (1 - d) * x + d * y" unfolding v d_def [symmetric] by (simp add: algebra_simps)
  moreover have "a = (1 - d) * a + d * a" "b = (1 - d) * b + d * b" by (simp_all add: algebra_simps)
  moreover have "(1 - d) * a \<le> (1 - d) * x" "d * a \<le> d * y" "(1 - d) * x \<le> (1 - d) * b" "d * y \<le> d * b"
    using d xy by (simp_all add: mult_left_mono)
  ultimately show ?thesis by linarith
qed

lemma ack_percentile_nonneg:
  assumes "ack_percentile p rows = Some v" "0 \<le> p" "p \<le> 1"
  shows "0 \<le> v"
proof -
  let ?qs = "map ack_latency (filter (\<lambda>a. au_transition a = T_acknowledged) rows)"
  have "\<forall>q \<in> set ?qs. 0 \<le> q \<and> q \<le> Max (set ?qs)" by (auto simp: ack_latency_def)
  from percentile_between [OF assms(1) [unfolded ack_percentile_def] assms(2,3) this] show ?thesis by blast
qed

section \<open>Rates\<close>

lemma rates_bounded:
  "count_no_action rs + count_false_alarm rs \<le> length rs"
  by (induction rs) (auto simp: count_no_action_def count_false_alarm_def)

lemma ratio_bounds: "ratio n d = Some q \<Longrightarrow> n \<le> d \<Longrightarrow> 0 \<le> q \<and> q \<le> 1"
  by (auto simp: ratio_def divide_le_eq_1 split: if_splits)

lemma no_action_none:
  assumes "lifecycle_ok db" "set rows \<subseteq> set (cd_audit db)"
  shows "count_no_action rows = 0"
  using assms by (auto simp: count_no_action_def lifecycle_ok_def filter_empty_conv)

section \<open>Weeks\<close>

lemma week_bounds_monday:
  assumes "iso_week_bounds y w = Inr (lo, hi)"
  shows "lo mod 7 = 1" "hi = lo + 7"
proof -
  from assms have "lo = week1_monday y + (w - 1) * 7" and hi: "hi = lo + 7"
    by (auto simp: iso_week_bounds_def bind_res_Inr_iff fromisocalendar_def split: if_splits)
  then show "lo mod 7 = 1" using week1_monday_mod [of y] by (simp only: mod_mult_self1)
  show "hi = lo + 7" by (rule hi)
qed

lemma monday_unique:
  assumes "lo mod 7 = 1" "lo' mod 7 = (1 :: int)" "lo \<le> n" "n < lo + 7" "lo' \<le> n" "n < lo' + 7"
  shows "lo = lo'"
  using assms by presburger

text \<open>The bounds of a day's own week.\<close>

lemma own_week:
  assumes "isocalendar n = (y, w, d)" "days_before_year 2 < n" "n \<le> days_before_year 9999"
  shows "iso_week_bounds y w = Inr (n - (n + 6) mod 7, n - (n + 6) mod 7 + 7)"
proof -
  have "n - (n + 6) mod 7 + 7 \<le> max_ordinal"
    using assms(3) pos_mod_sign [of 7 "n + 6"] unfolding max_ordinal_def by (simp add: days_before_year_def)
  then show ?thesis using isocalendar_monday(1) [OF assms] by (simp add: iso_week_bounds_def)
qed

lemma window_of_day:
  assumes "dt_ok t"
  shows "in_window (day_micros lo) (day_micros hi) t \<longleftrightarrow> lo \<le> dt_ordinal t \<and> dt_ordinal t < hi"
  using dt_micros_day [OF assms] unfolding in_window_def day_micros_def by auto

end
