(* ===== verification/Cloud_Report_Properties.thy ===== *)
theory Cloud_Report_Properties
  imports Cloud_Properties Cloud_Report_Facts
begin

text \<open>
  The properties of the reports of \<open>cloud-backend\<close>, each with a concrete instance: what the
  funnels count, what the resolution rates can be, and which week the weekly report covers.
\<close>

section \<open>Funnels\<close>

text \<open>The escalations of a class whose status is one of the given ones.\<close>

definition class_escalations :: "cloud_db \<Rightarrow> string \<Rightarrow> (esc_status \<Rightarrow> bool) \<Rightarrow> string set" where
  "class_escalations db c P =
     {k. \<exists>s. dget (cd_escalations db) k = Some s \<and> es_alert_code s = c \<and> P (es_status s)}"

definition reached :: "transition \<Rightarrow> esc_status \<Rightarrow> bool" where
  "reached t st \<longleftrightarrow>
     (case t of T_raised \<Rightarrow> True | T_acknowledged \<Rightarrow> st \<noteq> Unacknowledged | T_resolved \<Rightarrow> st = Resolved
      | T_dismissed \<Rightarrow> False)"

lemma reached_funs:
  "reached T_raised = (\<lambda>st. True)" "reached T_acknowledged = (\<lambda>st. st \<noteq> Unacknowledged)"
  "reached T_resolved = (\<lambda>st. st = Resolved)"
  by (simp_all add: reached_def fun_eq_iff)

lemma count_history:
  assumes "history_ok s w" "t \<noteq> T_dismissed"
  shows "count_list w t = (if reached t (es_status s) then 1 else 0)"
proof -
  have "count_list (replicate n T_dismissed) t = 0" for n
    using assms(2) by (induction n) auto
  then show ?thesis
    using assms by (cases "es_status s"; cases t) (auto simp: history_ok_def reached_def)
qed

lemma count_transition_table:
  assumes "lifecycle_ok db" "t \<noteq> T_dismissed"
  shows "count_transition t (with_code c (cd_audit db)) = card (class_escalations db c (reached t))"
proof -
  let ?ids = "au_escalation_id ` set (cd_audit db)"
  have one: "transitions_of c t db k = (if k \<in> class_escalations db c (reached t) then 1 else 0)" for k
  proof (cases "dget (cd_escalations db) k")
    case (Some s)
    with lifecycleD [OF assms(1), of k] have "history_ok s (audit_word k (cd_audit db))" by simp
    from count_history [OF this assms(2)] Some show ?thesis
      by (simp add: transitions_of_def class_escalations_def)
  qed (simp add: transitions_of_def class_escalations_def)
  have "class_escalations db c (reached t) \<subseteq> ?ids"
  proof
    fix k
    assume "k \<in> class_escalations db c (reached t)"
    then obtain s where "dget (cd_escalations db) k = Some s" by (auto simp: class_escalations_def)
    with lifecycleD [OF assms(1), of k] have "T_raised \<in> set (audit_word k (cd_audit db))"
      by (auto simp: history_ok_def)
    then show "k \<in> ?ids" by (auto simp: audit_word_def)
  qed
  then have "?ids \<inter> class_escalations db c (reached t) = class_escalations db c (reached t)" by blast
  then show ?thesis
    unfolding count_transition_sum [OF assms(1)] one by (simp add: sum.If_cases)
qed

text \<open>C7: When the requested window covers the whole history, the funnels counted from the audit
  rows agree with the escalation table, whatever requests have arrived: of each class that ever
  alarmed there is one funnel, its raised, acknowledged and resolved counts are the numbers of
  escalations of the class that are in the table, have left unacknowledged, and are resolved,
  and its latencies are not negative.\<close>

theorem funnels_agree_with_table:
  assumes "reach cloud_init cloud_step S" "parse_window from' to' = Inr (f, t)"
    "audit_window f t now (cd_audit (cl_db S)) = cd_audit (cl_db S)"
  shows "\<exists>fs. get_escalation_funnels from' to' None now (cl_db S) = Inr fs \<and>
    sorted (map fn_alert_code fs) \<and> distinct (map fn_alert_code fs) \<and>
    set (map fn_alert_code fs) = es_alert_code ` {s. \<exists>k. dget (cd_escalations (cl_db S)) k = Some s} \<and>
    (\<forall>fn \<in> set fs.
       fn_raised fn = card (class_escalations (cl_db S) (fn_alert_code fn) (\<lambda>st. True)) \<and>
       fn_acknowledged fn = card (class_escalations (cl_db S) (fn_alert_code fn) (\<lambda>st. st \<noteq> Unacknowledged)) \<and>
       fn_resolved fn = card (class_escalations (cl_db S) (fn_alert_code fn) (\<lambda>st. st = Resolved)) \<and>
       (\<forall>q. fn_median_t_ack fn = Some q \<or> fn_p95_t_ack fn = Some q \<longrightarrow> 0 \<le> q))"
proof -
  let ?db = "cl_db S" and ?rows = "cd_audit (cl_db S)"
  have ok: "lifecycle_ok ?db"
    using landside.reach_inv [OF assms(1)] by (simp add: cloud_ok_def cloud_inv_def)
  have codes: "map fn_alert_code (map (funnel_of ?rows) (audit_codes ?rows)) = audit_codes ?rows"
    by (simp add: funnel_of_def Let_def comp_def)
  have fs: "get_escalation_funnels from' to' None now ?db = Inr (map (funnel_of ?rows) (audit_codes ?rows))"
    by (simp add: get_escalation_funnels_def assms(2,3) Let_def)
  have all: "au_alert_code ` set ?rows = es_alert_code ` {s. \<exists>k. dget (cd_escalations ?db) k = Some s}"
  proof (intro equalityI subsetI)
    fix c
    assume "c \<in> au_alert_code ` set ?rows"
    then show "c \<in> es_alert_code ` {s. \<exists>k. dget (cd_escalations ?db) k = Some s}"
    proof
      fix a
      assume a: "c = au_alert_code a" "a \<in> set ?rows"
      then have "map_option es_alert_code (dget (cd_escalations ?db) (au_escalation_id a)) = Some c"
        using ok by (simp add: lifecycle_ok_def)
      then show ?thesis by auto
    qed
  next
    fix c
    assume "c \<in> es_alert_code ` {s. \<exists>k. dget (cd_escalations ?db) k = Some s}"
    then obtain k s where s: "dget (cd_escalations ?db) k = Some s" "c = es_alert_code s" by auto
    with lifecycleD [OF ok, of k] have "T_raised \<in> set (audit_word k ?rows)" by (auto simp: history_ok_def)
    then obtain a where "a \<in> set ?rows" "au_escalation_id a = k" by (auto simp: audit_word_def)
    with s ok show "c \<in> au_alert_code ` set ?rows" by (force simp: lifecycle_ok_def)
  qed
  note table = count_transition_table [OF ok, symmetric]
  have each: "fn_raised (funnel_of ?rows c) = card (class_escalations ?db c (\<lambda>st. True)) \<and>
    fn_acknowledged (funnel_of ?rows c) = card (class_escalations ?db c (\<lambda>st. st \<noteq> Unacknowledged)) \<and>
    fn_resolved (funnel_of ?rows c) = card (class_escalations ?db c (\<lambda>st. st = Resolved)) \<and>
    (\<forall>q. fn_median_t_ack (funnel_of ?rows c) = Some q \<or> fn_p95_t_ack (funnel_of ?rows c) = Some q \<longrightarrow> 0 \<le> q)" for c
    using table [of T_raised c, unfolded reached_funs] table [of T_acknowledged c, unfolded reached_funs]
      table [of T_resolved c, unfolded reached_funs]
      ack_percentile_nonneg [of "1/2" "with_code c ?rows"] ack_percentile_nonneg [of "19/20" "with_code c ?rows"]
    by (auto simp: funnel_of_def Let_def)
  show ?thesis
    using each distinct_audit_codes [of ?rows] all
    by (intro exI [of _ "map (funnel_of ?rows) (audit_codes ?rows)"] conjI fs)
      (simp_all only: codes set_audit_codes, auto simp: funnel_of_def Let_def)
qed

definition report_time :: datetime where
  "report_time = sample_time\<lparr>sc := 1\<rparr>"

lemma report_time_window:
  assumes "\<forall>r \<in> set rows. au_transition r = T_raised \<and> au_t_event r = sample_time"
  shows "audit_window None None report_time rows = rows"
  using assms
  by (auto simp: audit_window_def windowed_def in_window_def days_def report_time_def dt_micros_def sample_time_def
      dt_ordinal_def filter_id_conv)

theorem funnels_agree_with_table_witness:
  "\<exists>S s fs. reach cloud_init cloud_step S \<and> dget (cd_escalations (cl_db S)) (sample_uuid 0) = Some s \<and>
     get_escalation_funnels None None None report_time (cl_db S) = Inr fs \<and> es_alert_code s \<in> fn_alert_code ` set fs"
proof -
  obtain S s where S: "reach cloud_init cloud_step S" "dget (cd_escalations (cl_db S)) (sample_uuid 0) = Some s"
    "\<forall>r \<in> set (cd_audit (cl_db S)). au_transition r = T_raised \<and> au_t_event r = sample_time"
    by (rule sample_raised)
  have "parse_window None None = Inr (None, None)" by (simp add: parse_window_def parse_bound_def)
  from funnels_agree_with_table [OF S(1) this report_time_window [OF S(3)]] S(1,2) show ?thesis by fastforce
qed

section \<open>Resolution rates\<close>

text \<open>C10: The no-action rate cannot move: a resolution is only accepted with at least one action,
  and \<open>No action needed\<close> is itself an action, so in every reachable database, for every window,
  each class that has a rate has no resolution without actions, its no-action rate is 0, and its
  false-positive rate lies between 0 and 1.\<close>

theorem no_action_rate_zero:
  assumes "reach cloud_init cloud_step S" "get_resolution_rates from' to' now (cl_db S) = Inr rates" "r \<in> set rates"
  shows "0 < qr_resolved_total r \<and> qr_no_action_count r = 0 \<and> qr_no_action_rate r = Some 0 \<and>
    (\<exists>q. qr_explicit_fp_rate r = Some q \<and> 0 \<le> q \<and> q \<le> 1)"
proof -
  have ok: "lifecycle_ok (cl_db S)"
    using landside.reach_inv [OF assms(1)] by (simp add: cloud_ok_def cloud_inv_def)
  obtain f t where "rates = resolution_rates f t now (cl_db S)"
    using assms(2) by (auto simp: get_resolution_rates_def res_iff)
  define rows where "rows = audit_window f t now (filter (\<lambda>a. au_transition a = T_resolved) (cd_audit (cl_db S)))"
  obtain c where c: "c \<in> au_alert_code ` set rows" and r: "r = rates_of rows c"
    using assms(3) by (auto simp: \<open>rates = _\<close> resolution_rates_def Let_def rows_def)
  have "set (with_code c rows) \<subseteq> set (cd_audit (cl_db S))"
    by (auto simp: rows_def with_code_def audit_window_def windowed_def)
  with ok have none: "count_no_action (with_code c rows) = 0" by (rule no_action_none)
  have pos: "0 < length (with_code c rows)" using c by (auto simp: with_code_def filter_empty_conv)
  then obtain q where "ratio (count_false_alarm (with_code c rows)) (length (with_code c rows)) = Some q"
    by (simp add: ratio_def)
  moreover from this have "0 \<le> q \<and> q \<le> 1"
    using ratio_bounds rates_bounded [of "with_code c rows"] none by fastforce
  ultimately show ?thesis using none pos by (simp add: r rates_of_def Let_def ratio_def)
qed

definition sample_resolution :: resolve_request where
  "sample_resolution = \<lparr>rr_outcome = ''done'', rr_action_tags = [''False alarm''], rr_operator_id = ''ops''\<rparr>"

text \<open>The sample escalation, acknowledged and resolved.\<close>

lemma sample_resolved:
  obtains S a where "reach cloud_init cloud_step S" "a \<in> set (cd_audit (cl_db S))"
    "au_transition a = T_resolved" "au_t_event a = sample_time"
proof -
  let ?k = "sample_uuid 0"
  obtain S s where S: "reach cloud_init cloud_step S" "dget (cd_escalations (cl_db S)) ?k = Some s"
    "\<forall>r \<in> set (cd_audit (cl_db S)). au_transition r = T_raised \<and> au_t_event r = sample_time"
    by (rule sample_raised)
  have k: "bind_id strict_driver ?k = Inr ?k"
    using bind_id_valid [OF strict_driver_ok sample_uuid_ok [of 0]] by (simp add: sample_uuid_def lower_char_def)
  have "lifecycle_ok (cl_db S)" using landside.reach_inv [OF S(1)] by (simp add: cloud_ok_def cloud_inv_def)
  then have "history_ok s (audit_word ?k (cd_audit (cl_db S)))" using lifecycleD [of "cl_db S" ?k] S(2) by simp
  moreover have "T_acknowledged \<notin> set (audit_word ?k (cd_audit (cl_db S)))" using S(3) by (auto simp: audit_word_def)
  ultimately have new: "es_status s = Unacknowledged" by (cases "es_status s") (auto simp: history_ok_def)
  define S1 where "S1 = snd (acknowledge_after strict_driver sample_time ?k ''ops'' (Some Unacknowledged) S)"
  have s1: "dget (cd_escalations (cl_db S1)) ?k =
      Some (s\<lparr>es_status := Acknowledged, es_t_ack := Some sample_time, es_ack_operator := Some ''ops''\<rparr>)"
    by (simp add: S1_def acknowledge_after_def k acknowledge_commit_def S(2) new record_transition_def)
  define S2 where "S2 = snd (resolve_after strict_driver sample_time ?k sample_resolution (Some Acknowledged) S1)"
  have tags: "tag_keys (rr_action_tags sample_resolution) = Some [''false_alarm'']"
    by (simp add: tag_keys_def sample_resolution_def action_tag_keys_def)
  have a: "\<exists>a \<in> set (cd_audit (cl_db S2)). au_transition a = T_resolved \<and> au_t_event a = sample_time"
    by (simp add: S2_def resolve_after_def tags k resolve_commit_def s1 record_transition_def)
  have "cloud_step S S1" unfolding S1_def by (rule Acknowledge [OF surjective_pairing])
  moreover have "cloud_step S1 S2"
    unfolding S2_def by (rule Resolve [OF _ surjective_pairing]) (simp add: resolve_request_ok_def sample_resolution_def)
  ultimately have "reach cloud_init cloud_step S2" using S(1) by (metis reach_step)
  with a that show ?thesis by blast
qed

theorem no_action_rate_zero_witness:
  "\<exists>S rates r. reach cloud_init cloud_step S \<and> get_resolution_rates None None report_time (cl_db S) = Inr rates \<and>
     r \<in> set rates \<and> 0 < qr_resolved_total r \<and> qr_no_action_rate r = Some 0"
proof -
  obtain S a where S: "reach cloud_init cloud_step S" and a: "a \<in> set (cd_audit (cl_db S))"
    "au_transition a = T_resolved" "au_t_event a = sample_time"
    by (rule sample_resolved)
  let ?rates = "resolution_rates None None report_time (cl_db S)"
  have rates: "get_resolution_rates None None report_time (cl_db S) = Inr ?rates"
    by (simp add: get_resolution_rates_def parse_window_def parse_bound_def)
  have "audit_window None None report_time [a\<lparr>au_transition := T_raised\<rparr>] = [a\<lparr>au_transition := T_raised\<rparr>]"
    by (rule report_time_window) (simp add: a(3))
  then have "in_window (dt_micros report_time - days 7) (dt_micros report_time) sample_time"
    using a(3) by (simp add: audit_window_def windowed_def split: if_splits)
  then have "au_alert_code a \<in> au_alert_code `
      set (audit_window None None report_time (filter (\<lambda>a. au_transition a = T_resolved) (cd_audit (cl_db S))))"
    using a by (auto simp: audit_window_def windowed_def)
  then obtain r where "r \<in> set ?rates" by (auto simp: resolution_rates_def Let_def)
  with no_action_rate_zero [OF S rates] S rates show ?thesis by blast
qed

section \<open>Weeks\<close>

text \<open>Two weeks with the same Monday are the same week.\<close>

lemma week1_monday_less:
  assumes "1 \<le> y" "y < z"
  shows "week1_monday y + (if long_year y then 371 else 364) \<le> week1_monday z"
  using assms(2)
proof (induction z)
  case (Suc z)
  show ?case
  proof (cases "y = z")
    case True
    then show ?thesis using week1_monday_Suc [OF assms(1)] by simp
  next
    case False
    with Suc have "week1_monday y + (if long_year y then 371 else 364) \<le> week1_monday z" "1 \<le> z" using assms(1) by simp_all
    then show ?thesis using week1_monday_Suc [of z] by (auto split: if_splits)
  qed
qed simp

lemma fromisocalendar_week:
  assumes "fromisocalendar y w 1 = Inr n"
  shows "1 \<le> y \<and> week1_monday y \<le> n \<and> n < week1_monday y + (if long_year y then 371 else 364) \<and>
    n = week1_monday y + (w - 1) * 7"
  using assms by (auto simp: fromisocalendar_def split: if_splits)

lemma fromisocalendar_inj:
  assumes "fromisocalendar y w 1 = Inr n" "fromisocalendar z v 1 = Inr n"
  shows "y = z \<and> w = v"
proof -
  note a = fromisocalendar_week [OF assms(1)] and b = fromisocalendar_week [OF assms(2)]
  have "y = z"
  proof (rule ccontr)
    assume "y \<noteq> z"
    then consider "y < z" | "z < y" by linarith
    then show False
      using a b week1_monday_less [of y z] week1_monday_less [of z y] by cases linarith+
  qed
  with a b show ?thesis by simp
qed

lemma iso_week_bounds_Inr:
  "iso_week_bounds y w = Inr (lo, hi) \<longleftrightarrow> fromisocalendar y w 1 = Inr lo \<and> hi = lo + 7 \<and> hi \<le> max_ordinal"
  by (auto simp: iso_week_bounds_def bind_res_Inr_iff)

lemma monday_before: "(n - (n + 6) mod 7) mod 7 = (1 :: int)"
  by presburger

lemma ordinal_in_calendar:
  assumes "dt_ok t" "3 \<le> yr t" "yr t \<le> 9998"
  shows "days_before_year 2 + 365 < dt_ordinal t" "dt_ordinal t \<le> days_before_year 9999"
  using dt_ordinal_year [OF assms(1)] days_before_year_mono [of 3 "yr t"] days_before_year_mono [of "yr t + 1" 9999]
    days_before_year_mono [of 2 3] assms(2,3) by simp_all

text \<open>No row is counted in two weekly reports and none is missed: for every instant of the years
  3 to 9998 the window of a report contains the instant exactly when the report is that of the
  instant's own ISO week, also around new year.\<close>

theorem row_in_one_week:
  assumes "dt_ok t" "3 \<le> yr t" "yr t \<le> 9998" "isocalendar (dt_ordinal t) = (y, w, d)"
  shows "\<exists>lo hi. iso_week_bounds y w = Inr (lo, hi) \<and>
    (\<forall>y' w' lo' hi'. iso_week_bounds y' w' = Inr (lo', hi') \<longrightarrow>
      (in_window (day_micros lo') (day_micros hi') t \<longleftrightarrow> y' = y \<and> w' = w))"
proof -
  let ?n = "dt_ordinal t" and ?lo = "dt_ordinal t - (dt_ordinal t + 6) mod 7"
  have n: "days_before_year 2 < ?n" "?n \<le> days_before_year 9999" using ordinal_in_calendar [OF assms(1-3)] by simp_all
  have own: "iso_week_bounds y w = Inr (?lo, ?lo + 7)" by (rule own_week [OF assms(4) n])
  have day: "?lo \<le> ?n \<and> ?n < ?lo + 7" using pos_mod_bound [of 7 "?n + 6"] pos_mod_sign [of 7 "?n + 6"] by linarith
  have "in_window (day_micros lo') (day_micros hi') t \<longleftrightarrow> y' = y \<and> w' = w"
    if b: "iso_week_bounds y' w' = Inr (lo', hi')" for y' w' lo' hi'
  proof
    assume "in_window (day_micros lo') (day_micros hi') t"
    then have "lo' \<le> ?n" "?n < lo' + 7" using window_of_day [OF assms(1)] week_bounds_monday(2) [OF b] by auto
    with day have "lo' = ?lo"
      using monday_unique week_bounds_monday(1) [OF b] week_bounds_monday(1) [OF own] by blast
    with b own show "y' = y \<and> w' = w" using fromisocalendar_inj by (auto simp: iso_week_bounds_Inr)
  next
    assume "y' = y \<and> w' = w"
    with b own day show "in_window (day_micros lo') (day_micros hi') t" using window_of_day [OF assms(1)] by simp
  qed
  with own show ?thesis by blast
qed

theorem row_in_one_week_witness:
  "\<exists>y w d lo hi. isocalendar (dt_ordinal sample_time) = (y, w, d) \<and> iso_week_bounds y w = Inr (lo, hi) \<and>
     in_window (day_micros lo) (day_micros hi) sample_time"
proof -
  obtain y w d where ymd: "isocalendar (dt_ordinal sample_time) = (y, w, d)" by (rule prod_cases3)
  have "3 \<le> yr sample_time" "yr sample_time \<le> 9998" by (simp_all add: sample_time_def)
  from row_in_one_week [OF sample_time_ok this ymd] ymd show ?thesis by blast
qed

lemma dset_twice: "dset (dset d k v) k w = dset d k w"
  by (induction d) auto

text \<open>C9: The scheduled report always comes out and covers the last complete week: on any day of the
  years 4 to 9998 the chosen week exists, it begins on a Monday, it ended at the start of the
  current week, the report file is written, and a second run over the same tables leaves the
  directory as it is.\<close>

theorem completed_week_reported:
  assumes "dt_ok now" "4 \<le> yr now" "yr now \<le> 9998"
  shows "\<exists>y w lo body. completed_week now = Inr (y, w) \<and> iso_week_bounds y w = Inr (lo, lo + 7) \<and> lo mod 7 = 1 \<and>
    day_micros (lo + 7) \<le> dt_micros now \<and> dt_micros now < day_micros (lo + 14) \<and>
    generate_report y w db dir = Inr (report_name y w, dset dir (report_name y w) body) \<and>
    generate_report y w db (dset dir (report_name y w) body) = Inr (report_name y w, dset dir (report_name y w) body)"
proof -
  let ?n = "dt_ordinal now"
  define m where "m = ?n - (?n + 6) mod 7"
  have n: "days_before_year 2 < ?n" "?n \<le> days_before_year 9999"
    using ordinal_in_calendar [of now] assms by simp_all
  have m: "m \<le> ?n" "?n < m + 7" unfolding m_def using pos_mod_bound [of 7 "?n + 6"] pos_mod_sign [of 7 "?n + 6"] by linarith+
  have mod: "m mod 7 = 1" unfolding m_def by (rule monday_before)
  obtain y w d where ymd: "isocalendar ?n = (y, w, d)" by (rule prod_cases3)
  have monday: "fromisocalendar y w 1 = Inr m" unfolding m_def by (rule isocalendar_monday(1) [OF ymd n])
  obtain y' w' d' where prev: "isocalendar (m - 1) = (y', w', d')" by (rule prod_cases3)
  have "days_before_year 2 < m - 1" "m - 1 \<le> days_before_year 9999"
    using m n ordinal_in_calendar(1) [of now] assms by linarith+
  from own_week [OF prev this] have "iso_week_bounds y' w' = Inr (m - 1 - (m - 1 + 6) mod 7, m - 1 - (m - 1 + 6) mod 7 + 7)" .
  moreover have "(m - 1 + 6) mod 7 = 6" using mod by presburger
  ultimately have bounds: "iso_week_bounds y' w' = Inr (m - 7, m - 7 + 7)" by simp
  have "day_micros m \<le> dt_micros now" "dt_micros now < day_micros (m + 7)"
    using window_of_day [OF assms(1), of m "m + 7"] m unfolding in_window_def by simp_all
  moreover have "completed_week now = Inr (y', w')" by (simp add: completed_week_def ymd monday prev)
  moreover have "(m - 7) mod 7 = 1" using mod by presburger
  moreover define body where "body = render y' w' (m - 7) m (funnel_rows (day_micros (m - 7)) (day_micros m) db)
      (class_state_events (day_micros (m - 7)) (day_micros m) db)"
  ultimately show ?thesis
    using bounds
    apply -
    apply (rule exI [of _ y'], rule exI [of _ w'], rule exI [of _ "m - 7"], rule exI [of _ body])
    apply (simp add: generate_report_def Let_def dset_twice add.commute)
    done
qed

theorem completed_week_reported_witness:
  "\<exists>y w. completed_week sample_time = Inr (y, w) \<and>
     (\<exists>body. generate_report y w init_cloud_db [] = Inr (report_name y w, [(report_name y w, body)]))"
proof -
  have "4 \<le> yr sample_time" "yr sample_time \<le> 9998" by (simp_all add: sample_time_def)
  from completed_week_reported [OF sample_time_ok this, of init_cloud_db "[]"] show ?thesis by fastforce
qed

end
