(* ===== verification/Cloud_Fleet.thy ===== *)
theory Cloud_Fleet
  imports Cloud_Alerts
begin

text \<open>
  The fleet overview of \<open>cloud-backend\<close> (\<open>routes/fleet.py\<close>): the occupancy each car last
  reported, the worst severity of a car's alerts, and one entry per journey without an end.
  \<open>DISTINCT ON\<close> keeps the first of the sorted rows of a key, and its select list is evaluated for
  every row. Rows of equal instant keep the table's order.
\<close>

section \<open>Rows\<close>

record car_summary =
  ca_car_id :: string
  ca_occupancy :: "rat option"
  ca_worst :: string

record train_summary =
  tr_journey_id :: string
  tr_vehicle_id :: string
  tr_trip_number :: string
  tr_worst :: string
  tr_cars :: "car_summary list"

definition fleet_rank :: "string \<Rightarrow> nat" where
  "fleet_rank s =
     keep_or (dget [(''critical'', 3), (''warning'', 2), (''info'', 1)] s) 0"

definition fleet_alert_types :: "string list" where
  "fleet_alert_types =
     [''ALARM_ACTIVE'', ''ALERT_RAISED'', ''VESTIBULE_CONGESTION'', ''DOOR_OBSTRUCTION'', ''UNATTENDED_BAG'']"

definition events_of :: "string \<Rightarrow> cloud_db \<Rightarrow> cloud_event list" where
  "events_of et db = filter (\<lambda>e. ce_type e = et) (cd_events db)"

definition car_of :: "driver \<Rightarrow> cloud_event \<Rightarrow> string option" where
  "car_of D e = arrow_text D (ce_payload e) ''car_id''"

text \<open>The rows of the first query: journey, car and occupancy.\<close>

definition occupancy_row :: "driver \<Rightarrow> cloud_event \<Rightarrow> ((string \<times> string option) \<times> rat option) outcome" where
  "occupancy_row D e =
     bind_res (arrow_float D (ce_payload e) ''occupancy_pct'') (\<lambda>q. Inr ((ce_journey_id e, car_of D e), q))"

definition newest_first :: "cloud_event list \<Rightarrow> cloud_event list" where
  "newest_first es = sort_key (\<lambda>e. - dt_micros (ce_source_timestamp e)) es"

definition distinct_on :: "('k \<times> 'v) list \<Rightarrow> ('k \<times> 'v) list" where
  "distinct_on rows = List.map_filter (\<lambda>k. map_option (Pair k) (map_of rows k)) (remdups (map fst rows))"

definition occupancy_rows :: "driver \<Rightarrow> cloud_db \<Rightarrow> ((string \<times> string option) \<times> rat option) list outcome" where
  "occupancy_rows D db =
     map_sum id distinct_on (rows_of (occupancy_row D) (newest_first (events_of ''OCCUPANCY_UPDATE'' db)))"

definition occ_by_journey ::
  "((string \<times> string option) \<times> rat option) list \<Rightarrow> (string, (string option, rat option) dict) dict" where
  "occ_by_journey rows =
     foldl (\<lambda>d ((j, c), q). dset d j (dset (dget_or d j []) c q)) [] rows"

text \<open>The rows of the second query and the worst severity over them.\<close>

definition alert_rows :: "driver \<Rightarrow> cloud_db \<Rightarrow> (string \<times> string \<times> string) list" where
  "alert_rows D db =
     map (\<lambda>e. (ce_journey_id e, str_or (car_of D e) ''unknown'', ce_severity e))
       (filter (\<lambda>e. ce_type e \<in> set fleet_alert_types) (cd_events db))"

definition worse_of :: "(string, string) dict \<Rightarrow> string \<times> string \<Rightarrow> (string, string) dict" where
  "worse_of d r =
     (case r of (c, s) \<Rightarrow>
        if fleet_rank (dget_or d c ''info'') < fleet_rank s then dset d c s else d)"

definition sev_by_journey ::
  "(string \<times> string \<times> string) list \<Rightarrow> (string, (string, string) dict) dict" where
  "sev_by_journey rows = foldl (\<lambda>d (j, c, s). dset d j (worse_of (dget_or d j []) (c, s))) [] rows"

definition active_journeys :: "cloud_db \<Rightarrow> (string \<times> cloud_journey) list" where
  "active_journeys db =
     sort_key (\<lambda>(k, j). - dt_micros (cj_start_time j)) (filter (\<lambda>(k, j). cj_end_time j = None) (cd_journeys db))"

section \<open>Summaries\<close>

text \<open>\<open>max(\<dots>, key=rank, default="info")\<close>: the first of the highest rank.\<close>

fun worst_of :: "string list \<Rightarrow> string" where
  "worst_of [] = ''info''"
| "worst_of [s] = s"
| "worst_of (s # t # ss) = worst_of ((if fleet_rank s < fleet_rank t then t else s) # ss)"

text \<open>A car without an id cannot be sorted among the others, and alone is no valid summary.\<close>

definition car_keys :: "(string option, rat option) dict \<Rightarrow> (string, string) dict \<Rightarrow> string list outcome" where
  "car_keys occ sev =
     (let keys = sort (remdups (List.map_filter id (dkeys occ) @ dkeys sev))
      in if None \<notin> set (dkeys occ) then Inr keys
         else if keys = [] then Inl (Raised ValidationError) else Inl (Raised TypeError))"

definition car_summary_of ::
  "(string option, rat option) dict \<Rightarrow> (string, string) dict \<Rightarrow> string \<Rightarrow> car_summary" where
  "car_summary_of occ sev c =
     \<lparr>ca_car_id = c, ca_occupancy = keep_or (dget occ (Some c)) None, ca_worst = dget_or sev c ''info''\<rparr>"

definition train_summary_of ::
  "(string, (string option, rat option) dict) dict \<Rightarrow> (string, (string, string) dict) dict \<Rightarrow>
   string \<times> cloud_journey \<Rightarrow> train_summary outcome" where
  "train_summary_of occs sevs j =
     (let occ = dget_or occs (fst j) []; sev = dget_or sevs (fst j) [] in
      bind_res (car_keys occ sev) (\<lambda>keys.
        (let cars = map (car_summary_of occ sev) keys
         in Inr \<lparr>tr_journey_id = fst j, tr_vehicle_id = cj_vehicle_id (snd j), tr_trip_number = cj_trip_number (snd j),
                 tr_worst = worst_of (map ca_worst cars), tr_cars = cars\<rparr>)))"

definition fleet_overview :: "driver \<Rightarrow> cloud_db \<Rightarrow> (train_summary list \<times> nat) outcome" where
  "fleet_overview D db =
     bind_res (occupancy_rows D db) (\<lambda>occ.
     bind_res (rows_of (train_summary_of (occ_by_journey occ) (sev_by_journey (alert_rows D db)))
       (active_journeys db)) (\<lambda>trains. Inr (trains, length trains)))"

section \<open>Facts\<close>

lemma dget_occ_by_journey:
  assumes "distinct (map fst rows)"
  shows "dget (dget_or (occ_by_journey rows) j []) c = map_of rows (j, c)"
  using assms
proof (induction rows rule: rev_induct)
  case (snoc r rows)
  obtain k q where r: "r = (k, q)" by (cases r)
  obtain i d where k: "k = (i, d)" by (cases k)
  from snoc show ?case
    by (auto simp: occ_by_journey_def r k map_add_def split: option.splits)
      (metis fst_conv image_eqI map_of_SomeD)+
qed (simp add: occ_by_journey_def dget_or_def)

lemma dget_sev_by_journey:
  "dget_or (sev_by_journey rows) j [] =
     foldl worse_of [] (map snd (filter (\<lambda>r. fst r = j) rows))"
proof (induction rows rule: rev_induct)
  case (snoc r rows)
  obtain i c s where "r = (i, c, s)" by (cases r)
  with snoc show ?case by (auto simp: sev_by_journey_def)
qed (simp add: sev_by_journey_def dget_or_def)

lemma fleet_rank_simps [simp]:
  "fleet_rank ''critical'' = 3" "fleet_rank ''warning'' = 2" "fleet_rank ''info'' = 1"
  by (simp_all add: fleet_rank_def)

text \<open>The worst severity of a car: the highest rank among its rows, and \<open>info\<close> at least.\<close>

lemma worse_of_rank:
  "fleet_rank (dget_or (foldl worse_of d rows) c ''info'') =
     Max (insert (fleet_rank (dget_or d c ''info'')) (fleet_rank ` snd ` {r \<in> set rows. fst r = c}))"
proof (induction rows arbitrary: d)
  case (Cons r rows)
  obtain x s where r: "r = (x, s)" by (cases r)
  let ?R = "fleet_rank ` snd ` {r \<in> set rows. fst r = c}"
  have fin: "finite ?R" by simp
  have step: "fleet_rank (dget_or (worse_of d r) c ''info'') =
      (if x = c then max (fleet_rank (dget_or d c ''info'')) (fleet_rank s) else fleet_rank (dget_or d c ''info''))"
    by (auto simp: worse_of_def r max_def)
  have "{q \<in> set (r # rows). fst q = c} = (if x = c then insert (x, s) {q \<in> set rows. fst q = c} else {q \<in> set rows. fst q = c})"
    by (auto simp: r)
  then have img: "fleet_rank ` snd ` {q \<in> set (r # rows). fst q = c} = (if x = c then insert (fleet_rank s) ?R else ?R)"
    by simp
  have "Max (insert (max a b) ?R) = Max (insert a (insert b ?R))" for a b
  proof (cases "?R = {}")
    case False
    with fin show ?thesis by (simp only: Max_insert insert_not_empty finite_insert max.assoc not_False_eq_True)
  qed (simp only: Max_insert finite.intros finite_insert insert_not_empty Max_singleton not_False_eq_True)
  then show ?case unfolding img foldl_Cons Cons.IH step by simp
qed simp

lemma worst_of_rank: "ss \<noteq> [] \<Longrightarrow> worst_of ss \<in> set ss \<and> fleet_rank (worst_of ss) = Max (fleet_rank ` set ss)"
proof (induction ss rule: worst_of.induct)
  case (3 s t ss)
  have "Max (fleet_rank ` set ((if fleet_rank s < fleet_rank t then t else s) # ss)) =
      Max (fleet_rank ` set (s # t # ss))"
    by (cases "ss = []") (auto simp: max_def)
  with 3 show ?case by (auto split: if_splits)
qed auto

lemma car_keys_Inr:
  "car_keys occ sev = Inr keys \<longleftrightarrow> None \<notin> set (dkeys occ) \<and> keys = sort (remdups (List.map_filter id (dkeys occ) @ dkeys sev))"
  by (auto simp: car_keys_def Let_def)

lemma set_car_keys:
  "car_keys occ sev = Inr keys \<Longrightarrow> c \<in> set keys \<longleftrightarrow> Some c \<in> set (dkeys occ) \<or> c \<in> set (dkeys sev)"
  by (auto simp: car_keys_Inr List.map_filter_def image_iff)

lemma distinct_on_fst: "map fst (distinct_on rows) = remdups (map fst rows)"
proof -
  have "set ks \<subseteq> fst ` set rows \<Longrightarrow>
      map fst (List.map_filter (\<lambda>k. map_option (Pair k) (map_of rows k)) ks) = ks" for ks
  proof (induction ks)
    case (Cons k ks)
    then obtain v where "map_of rows k = Some v" using weak_map_of_SomeI by fastforce
    with Cons show ?case by (simp add: List.map_filter_simps)
  qed (simp add: List.map_filter_simps)
  then show ?thesis by (simp add: distinct_on_def)
qed

lemma map_of_distinct_on: "map_of (distinct_on rows) k = map_of rows k"
proof (cases "map_of rows k")
  case None
  then have "k \<notin> set (map fst (distinct_on rows))" unfolding distinct_on_fst by (auto simp: map_of_eq_None_iff)
  then have "map_of (distinct_on rows) k = None" unfolding map_of_eq_None_iff by simp
  with None show ?thesis by simp
next
  case (Some v)
  have "k \<in> fst ` set rows" using map_of_SomeD [OF Some] by force
  with Some have "(k, v) \<in> set (distinct_on rows)"
    by (simp add: distinct_on_def List.map_filter_def) (rule image_eqI [of _ _ k], auto intro: map_of_SomeD)
  moreover have "distinct (map fst (distinct_on rows))" by (simp add: distinct_on_fst)
  ultimately show ?thesis using Some by simp
qed

end
