(* ===== verification/Cloud_Analytics.thy ===== *)
theory Cloud_Analytics
  imports Cloud_Fleet
begin

text \<open>
  The analytics of \<open>cloud-backend\<close> (\<open>routes/analytics.py\<close>, \<open>api/analytics.py\<close>): five
  read-only endpoints over the event table. Two things depend on the database and its driver:
  whether a JSONB column arrives decoded, and whether the timestamp column is text (the
  integration tests) or \<open>timestamptz\<close> (the migrations), which has no regular expression
  operator. Floats are exact, and a text counts its characters.
\<close>

section \<open>The database as the queries see it\<close>

record view_env =
  vw_driver :: driver
  vw_str :: "json \<Rightarrow> string"
  vw_decoded :: bool
  vw_time_text :: "(datetime \<Rightarrow> string) option"

definition time_str :: "view_env \<Rightarrow> datetime \<Rightarrow> string" where
  "time_str E t = (case vw_time_text E of None \<Rightarrow> datetime_str t | Some f \<Rightarrow> f t)"

definition payload_dict :: "view_env \<Rightarrow> cloud_event \<Rightarrow> jdict" where
  "payload_dict E e = (if vw_decoded E then ce_payload e else [])"

definition parse_range :: "string \<Rightarrow> int outcome" where
  "parse_range r =
     of_opt (Http 422 ''INVALID_RANGE'') (dget [(''7d'', 7), (''14d'', 14), (''30d'', 30)] r)"

definition cutoff_dt :: "int \<Rightarrow> datetime \<Rightarrow> int" where
  "cutoff_dt d now = dt_micros now - days d"

definition events_since :: "string \<Rightarrow> int \<Rightarrow> cloud_db \<Rightarrow> cloud_event list" where
  "events_since et cutoff db = filter (\<lambda>e. cutoff \<le> dt_micros (ce_timestamp e)) (events_of et db)"

text \<open>\<open>NULLIF(payload->>'k', '')::float\<close> and the average of it.\<close>

definition nullif_float :: "driver \<Rightarrow> string \<Rightarrow> cloud_event \<Rightarrow> rat option outcome" where
  "nullif_float D k e =
     (if arrow_text D (ce_payload e) k = Some [] then Inr None else arrow_float D (ce_payload e) k)"

definition avg_of :: "driver \<Rightarrow> string \<Rightarrow> cloud_event list \<Rightarrow> rat option outcome" where
  "avg_of D k es = map_sum id sql_avg (rows_of (nullif_float D k) es)"

definition flagged :: "driver \<Rightarrow> string \<Rightarrow> cloud_event \<Rightarrow> bool" where
  "flagged D k e \<longleftrightarrow>
     (case arrow_text D (ce_payload e) k of None \<Rightarrow> False | Some s \<Rightarrow> s \<in> {''true'', ''1'', ''yes'', ''True''})"

text \<open>The pattern of a timestamp's date, and of a plain number.\<close>

definition date_t_pat :: "(char \<Rightarrow> bool) list" where
  "date_t_pat =
     [is_digit, is_digit, is_digit, is_digit, lit (CHR ''-''), is_digit, is_digit, lit (CHR ''-''), is_digit, is_digit,
      lit (CHR ''T'')]"

definition digits :: "string \<Rightarrow> bool" where
  "digits s \<longleftrightarrow> s \<noteq> [] \<and> list_all is_digit s"

definition plain_number :: "string \<Rightarrow> bool" where
  "plain_number s =
     (let t = (if py_startswith s ''-'' then tl s else s)
      in (case split_once CHR ''.'' t of None \<Rightarrow> digits t | Some (a, b) \<Rightarrow> digits a \<and> digits b))"

section \<open>Reading a payload\<close>

text \<open>Iteration over a JSON value.\<close>

fun py_iter :: "json \<Rightarrow> json list outcome" where
  "py_iter (JList js) = Inr js"
| "py_iter (JStr s) = Inr (map (\<lambda>c. JStr [c]) s)"
| "py_iter (JObj kvs) = Inr (map (JStr \<circ> fst) kvs)"
| "py_iter j = Inl (Raised TypeError)"

text \<open>\<open>p.get(k) or []\<close> in a loop that keeps the dicts.\<close>

definition items_of :: "jdict \<Rightarrow> string \<Rightarrow> json list outcome" where
  "items_of p k = (let v = dget_or p k JNull in if jtruthy v then py_iter v else Inr [])"

definition dicts :: "json list \<Rightarrow> jdict list" where
  "dicts js = List.map_filter (\<lambda>j. case j of JObj d \<Rightarrow> Some d | _ \<Rightarrow> None) js"

text \<open>\<open>float(v)\<close>; an integer beyond the largest double overflows.\<close>

definition max_double :: int where
  "max_double = 2 ^ 1024 - 2 ^ 970"

fun to_float :: "json \<Rightarrow> py_float res" where
  "to_float (JBool b) = Inr (Finite (if b then 1 else 0))"
| "to_float (JInt i) = (if max_double \<le> abs i then Inl OverflowError else Inr (Finite (of_int i)))"
| "to_float (JNum q) = Inr (Finite q)"
| "to_float (JStr s) = of_opt ValueError (parse_float s)"
| "to_float j = Inl TypeError"

definition str_or_get :: "view_env \<Rightarrow> jdict \<Rightarrow> string \<Rightarrow> string \<Rightarrow> string" where
  "str_or_get E p k d = (case dget p k of None \<Rightarrow> d | Some j \<Rightarrow> py_str (vw_str E) j)"

text \<open>A response field of type \<open>str\<close> takes nothing but a string.\<close>

definition str_field :: "jdict \<Rightarrow> string \<Rightarrow> string \<Rightarrow> string outcome" where
  "str_field p k d =
     (case dget_or p k (JStr d) of JStr s \<Rightarrow> Inr s | _ \<Rightarrow> Inl (Raised ValidationError))"

definition lift_res :: "'a res \<Rightarrow> 'a outcome" where
  "lift_res r = map_sum Raised id r"

section \<open>Exceptions\<close>

record coach_peak =
  cp_coach_id :: string
  cp_peak_pct :: py_float

record conrad_flag =
  cg_flag_id :: string
  cg_note :: "string option"

record exception_record =
  xr_exception_id :: string
  xr_route :: string
  xr_train_id :: string
  xr_departure :: string
  xr_date :: string
  xr_status :: string
  xr_severity :: string
  xr_coach_peaks :: "coach_peak list"
  xr_trend :: "py_float list"
  xr_conrad_flag :: "conrad_flag option"

definition coach_peak_of :: "view_env \<Rightarrow> jdict \<Rightarrow> coach_peak outcome" where
  "coach_peak_of E cp =
     (let v = dget_or cp ''peak_pct'' JNull in
      bind_res (lift_res (to_float (if jtruthy v then v else JInt 0))) (\<lambda>q.
        Inr \<lparr>cp_coach_id = str_or_get E cp ''coach_id'' [], cp_peak_pct = q\<rparr>))"

definition trend_value :: "json \<Rightarrow> py_float outcome" where
  "trend_value v =
     (case to_float v of
        Inr q \<Rightarrow> Inr q
      | Inl e \<Rightarrow> if e \<in> {TypeError, ValueError} then Inr (Finite 0) else Inl (Raised e))"

text \<open>Exactly seven daily values: the last ones, or zeros in front.\<close>

definition seven_values :: "py_float list \<Rightarrow> py_float list" where
  "seven_values vs =
     (if 7 < length vs then drop (length vs - 7) vs else replicate (7 - length vs) (Finite 0) @ vs)"

definition conrad_flag_of :: "view_env \<Rightarrow> jdict \<Rightarrow> conrad_flag option" where
  "conrad_flag_of E p =
     (case dget p ''conrad_flag'' of
        Some (JObj f) \<Rightarrow>
          if jtruthy (dget_or f ''flag_id'' JNull)
          then Some \<lparr>cg_flag_id = str_or_get E f ''flag_id'' [],
                     cg_note = (if jtruthy (dget_or f ''note'' JNull) then Some (str_or_get E f ''note'' []) else None)\<rparr>
          else None
      | _ \<Rightarrow> None)"

definition exception_of :: "view_env \<Rightarrow> cloud_event \<Rightarrow> exception_record outcome" where
  "exception_of E e =
     (let p = payload_dict E e in
      bind_res (bind_res (items_of p ''coach_peaks'') (\<lambda>js. rows_of (coach_peak_of E) (dicts js))) (\<lambda>peaks.
      bind_res (bind_res (items_of p ''trend'') (rows_of trend_value)) (\<lambda>trend.
      bind_res (str_field p ''route'' []) (\<lambda>route.
      bind_res (str_field p ''departure'' []) (\<lambda>departure.
      bind_res (str_field p ''status'' ''unreviewed'') (\<lambda>status.
        Inr \<lparr>xr_exception_id = ce_id e, xr_route = route, xr_train_id = ce_vehicle_id e, xr_departure = departure,
             xr_date = take 10 (time_str E (ce_timestamp e)), xr_status = status, xr_severity = ce_severity e,
             xr_coach_peaks = peaks, xr_trend = seven_values trend, xr_conrad_flag = conrad_flag_of E p\<rparr>))))))"

definition get_exceptions :: "view_env \<Rightarrow> string \<Rightarrow> datetime \<Rightarrow> cloud_db \<Rightarrow> exception_record list outcome" where
  "get_exceptions E r now db =
     bind_res (parse_range r) (\<lambda>d.
       rows_of (exception_of E)
         (sort_key (\<lambda>e. - dt_micros (ce_timestamp e)) (events_since ''CAPACITY_EXCEPTION'' (cutoff_dt d now) db)))"

section \<open>Occupancy heatmap\<close>

record heatmap =
  hm_routes :: "string list"
  hm_hours :: "string list"
  hm_cells :: "rat option list list"

definition heatmap_hours :: "string list" where
  "heatmap_hours = map (\<lambda>h. zpad 2 h @ '':00'') [5..<24]"

text \<open>\<open>round(x, 1)\<close>.\<close>

definition round1 :: "rat \<Rightarrow> rat" where
  "round1 q = of_int (round_half_even (q * 10)) / 10"

definition heatmap_events :: "view_env \<Rightarrow> int \<Rightarrow> cloud_db \<Rightarrow> cloud_event list outcome" where
  "heatmap_events E cutoff db =
     (case vw_time_text E of
        None \<Rightarrow> Inl (Raised DBAPIError)
      | Some f \<Rightarrow>
          Inr (filter (\<lambda>e. dhas (cd_journeys db) (ce_journey_id e) \<and>
              (case arrow_text (vw_driver E) (ce_payload e) ''occupancy_pct'' of
                 None \<Rightarrow> False | Some s \<Rightarrow> plain_number s) \<and>
              fits date_t_pat (take 11 (f (ce_timestamp e))))
            (events_since ''OCCUPANCY_UPDATE'' cutoff db)))"

definition route_hour :: "cloud_db \<Rightarrow> cloud_event \<Rightarrow> string option \<times> nat" where
  "route_hour db e =
     (case dget (cd_journeys db) (ce_journey_id e) of
        None \<Rightarrow> (None, hh (ce_timestamp e))
      | Some j \<Rightarrow> (cj_route_name j, hh (ce_timestamp e)))"

definition heatmap_rows ::
  "view_env \<Rightarrow> int \<Rightarrow> cloud_db \<Rightarrow> ((string option \<times> nat) \<times> rat option) list outcome" where
  "heatmap_rows E cutoff db =
     bind_res (heatmap_events E cutoff db) (\<lambda>es.
       rows_of (\<lambda>k. bind_res (avg_of (vw_driver E) ''occupancy_pct'' (filter (\<lambda>e. route_hour db e = k) es))
           (\<lambda>q. Inr (k, q)))
         (remdups (map (route_hour db) es)))"

definition heatmap_data :: "((string option \<times> nat) \<times> rat option) list \<Rightarrow> (string, (nat, rat) dict) dict outcome" where
  "heatmap_data rows =
     foldl (\<lambda>r ((route, h), q). bind_res r (\<lambda>d.
         (case q of
            None \<Rightarrow> Inl (Raised TypeError)
          | Some x \<Rightarrow>
              (let k = str_or route ''unknown'' in Inr (dset d k (dset (dget_or d k []) h x))))))
       (Inr []) rows"

definition heatmap_of :: "(string, (nat, rat) dict) dict \<Rightarrow> heatmap" where
  "heatmap_of d =
     (let routes = sort (dkeys d)
      in \<lparr>hm_routes = routes, hm_hours = heatmap_hours,
          hm_cells = map (\<lambda>r. map (\<lambda>h. map_option round1 (dget (dget_or d r []) h)) [5..<24]) routes\<rparr>)"

definition get_occupancy_heatmap :: "view_env \<Rightarrow> string \<Rightarrow> datetime \<Rightarrow> cloud_db \<Rightarrow> heatmap outcome" where
  "get_occupancy_heatmap E r now db =
     bind_res (parse_range r) (\<lambda>d.
     bind_res (heatmap_rows E (cutoff_dt d now) db) (\<lambda>rows.
     bind_res (heatmap_data rows) (\<lambda>data. Inr (heatmap_of data))))"

section \<open>Dwell time\<close>

record dwell_station =
  dw_station :: string
  dw_scheduled_sec :: rat
  dw_actual_sec :: rat
  dw_breach_count :: nat
  dw_occupancy_pct :: "rat option"

record dwell_row =
  dr_station :: string
  dr_scheduled :: "rat option"
  dr_actual :: "rat option"
  dr_breaches :: nat
  dr_occupancy :: "rat option"

definition station_of :: "driver \<Rightarrow> cloud_event \<Rightarrow> string option" where
  "station_of D e = arrow_text D (ce_payload e) ''station''"

definition dwell_row_of :: "driver \<Rightarrow> cloud_event list \<Rightarrow> string \<Rightarrow> dwell_row outcome" where
  "dwell_row_of D es s =
     (let rs = filter (\<lambda>e. station_of D e = Some s) es in
      bind_res (avg_of D ''scheduled_sec'' rs) (\<lambda>scheduled.
      bind_res (avg_of D ''actual_sec'' rs) (\<lambda>actual.
      bind_res (avg_of D ''occupancy_pct'' rs) (\<lambda>occupancy.
        Inr \<lparr>dr_station = s, dr_scheduled = scheduled, dr_actual = actual,
             dr_breaches = length (filter (flagged D ''breach'') rs), dr_occupancy = occupancy\<rparr>))))"

text \<open>\<open>ORDER BY AVG(\<dots>) DESC\<close> puts NULL first.\<close>

definition dwell_station_of :: "dwell_row \<Rightarrow> dwell_station" where
  "dwell_station_of r =
     \<lparr>dw_station = dr_station r, dw_scheduled_sec = keep_or (dr_scheduled r) 0,
      dw_actual_sec = keep_or (dr_actual r) 0, dw_breach_count = dr_breaches r,
      dw_occupancy_pct = dr_occupancy r\<rparr>"

definition get_dwell_time :: "view_env \<Rightarrow> string \<Rightarrow> datetime \<Rightarrow> cloud_db \<Rightarrow> dwell_station list outcome" where
  "get_dwell_time E r now db =
     bind_res (parse_range r) (\<lambda>d.
       (let es = events_since ''DWELL_EVENT'' (cutoff_dt d now) db;
            stations = sort (remdups (List.map_filter (station_of (vw_driver E)) es))
        in map_sum id (\<lambda>rows. map dwell_station_of
               (sort_key (\<lambda>w. case dr_actual w of None \<Rightarrow> (0 :: nat, 0) | Some q \<Rightarrow> (1, - q)) rows))
             (rows_of (dwell_row_of (vw_driver E) es) stations)))"

section \<open>Detection quality\<close>

record detection_kpi =
  kp_total_events :: nat
  kp_fp_rate :: "rat option"
  kp_avg_confidence :: "rat option"
  kp_fleet_uptime_pct :: "rat option"

record daily_bar =
  db_date :: string
  db_total_events :: nat
  db_fp_count :: nat

record detection_quality =
  dq_kpi :: detection_kpi
  dq_daily_bars :: "daily_bar list"
  dq_per_train_uptime :: "(string \<times> rat) list"

definition recent_journeys :: "int \<Rightarrow> cloud_db \<Rightarrow> (string \<times> cloud_journey) list" where
  "recent_journeys cutoff db = filter (\<lambda>(k, j). cutoff \<le> dt_micros (cj_start_time j)) (cd_journeys db)"

text \<open>\<open>COUNT(DISTINCT e.journey_id)\<close> over the left join.\<close>

definition active_count :: "cloud_event list \<Rightarrow> (string \<times> cloud_journey) list \<Rightarrow> nat" where
  "active_count es js = length (filter (\<lambda>(k, j). k \<in> ce_journey_id ` set es) js)"

definition uptime_pct :: "nat \<Rightarrow> nat \<Rightarrow> rat option" where
  "uptime_pct n m = (if 0 < m then Some (of_nat n / of_nat m * 100) else None)"

definition date_text :: "cloud_event \<Rightarrow> string" where
  "date_text e = take 10 (isoformat_auto (ce_timestamp e))"

definition daily_bar_of :: "driver \<Rightarrow> cloud_event list \<Rightarrow> string \<Rightarrow> daily_bar" where
  "daily_bar_of D es d =
     (let rs = filter (\<lambda>e. date_text e = d) es
      in \<lparr>db_date = d, db_total_events = length rs, db_fp_count = length (filter (flagged D ''fp_flag'') rs)\<rparr>)"

definition train_uptime :: "cloud_event list \<Rightarrow> (string \<times> cloud_journey) list \<Rightarrow> string \<Rightarrow> string \<times> rat" where
  "train_uptime es js v =
     (let mine = filter (\<lambda>(k, j). cj_vehicle_id j = v) js
      in (v, keep_or (uptime_pct (active_count es mine) (length mine)) 0))"

definition get_detection_quality :: "view_env \<Rightarrow> string \<Rightarrow> datetime \<Rightarrow> cloud_db \<Rightarrow> detection_quality outcome" where
  "get_detection_quality E r now db =
     bind_res (parse_range r) (\<lambda>d.
       (let D = vw_driver E; cutoff = cutoff_dt d now; es = events_since ''INFERENCE_RESULT'' cutoff db;
            js = recent_journeys cutoff db; n = length es; fp = length (filter (flagged D ''fp_flag'') es) in
        bind_res (avg_of D ''confidence'' es) (\<lambda>confidence.
          Inr \<lparr>dq_kpi = \<lparr>kp_total_events = n,
                  kp_fp_rate = (if 0 < n then Some (of_nat fp / of_nat n) else None),
                  kp_avg_confidence = confidence, kp_fleet_uptime_pct = uptime_pct (active_count es js) (length js)\<rparr>,
               dq_daily_bars = map (daily_bar_of D es) (sort (remdups (map date_text es))),
               dq_per_train_uptime = map (train_uptime es js) (sort (remdups (map (cj_vehicle_id \<circ> snd) js)))\<rparr>)))"

section \<open>System health\<close>

record app_detail =
  ad_container :: string
  ad_status :: string
  ad_last_healthy :: string

record device_detail =
  dd_device :: string
  dd_status :: string
  dd_temperature_c :: "py_float option"

record connectivity =
  cn_lte_status :: string
  cn_wifi_status :: string
  cn_last_sync :: string

record train_health_record =
  th_train_id :: string
  th_journey_id :: string
  th_cctv :: string
  th_app :: string
  th_device :: string
  th_connectivity_status :: string
  th_last_healthy :: string
  th_app_detail :: "app_detail list"
  th_device_detail :: "device_detail list"
  th_connectivity :: connectivity

text \<open>\<open>str(d.get(k) or fallback)\<close>.\<close>

definition str_or_else :: "view_env \<Rightarrow> jdict \<Rightarrow> string \<Rightarrow> string \<Rightarrow> string" where
  "str_or_else E p k d = (let v = dget_or p k JNull in if jtruthy v then py_str (vw_str E) v else d)"

definition app_detail_of :: "view_env \<Rightarrow> string \<Rightarrow> jdict \<Rightarrow> app_detail" where
  "app_detail_of E t item =
     \<lparr>ad_container = str_or_get E item ''container'' [], ad_status = str_or_get E item ''status'' ''unknown'',
      ad_last_healthy = str_or_else E item ''last_healthy'' t\<rparr>"

text \<open>\<open>s.replace(".", "", 1).lstrip("-").isdigit()\<close> decides whether the value is converted.\<close>

definition looks_numeric :: "string \<Rightarrow> bool" where
  "looks_numeric s =
     digits (dropWhile (\<lambda>c. c = CHR ''-'') (case split_once CHR ''.'' s of None \<Rightarrow> s | Some (a, b) \<Rightarrow> a @ b))"

definition temperature_of :: "view_env \<Rightarrow> jdict \<Rightarrow> py_float option outcome" where
  "temperature_of E item =
     (case dget item ''temperature_c'' of
        None \<Rightarrow> Inr None
      | Some JNull \<Rightarrow> Inr None
      | Some j \<Rightarrow>
          if looks_numeric (py_str (vw_str E) j) then map_sum id Some (lift_res (to_float j)) else Inr None)"

definition device_detail_of :: "view_env \<Rightarrow> jdict \<Rightarrow> device_detail outcome" where
  "device_detail_of E item =
     bind_res (temperature_of E item) (\<lambda>q.
       Inr \<lparr>dd_device = str_or_get E item ''device'' [], dd_status = str_or_get E item ''status'' ''unknown'',
            dd_temperature_c = q\<rparr>)"

definition connectivity_of :: "view_env \<Rightarrow> string \<Rightarrow> jdict \<Rightarrow> connectivity" where
  "connectivity_of E t p =
     (let c = (case dget p ''connectivity'' of Some (JObj c) \<Rightarrow> c | _ \<Rightarrow> [])
      in \<lparr>cn_lte_status = str_or_get E c ''lte_status'' ''unknown'', cn_wifi_status = str_or_get E c ''wifi_status'' ''unknown'',
          cn_last_sync = str_or_else E c ''last_sync'' t\<rparr>)"

definition last_healthy_of :: "jdict \<Rightarrow> string \<Rightarrow> string outcome" where
  "last_healthy_of p t =
     (let v = dget_or p ''last_healthy'' JNull
      in if jtruthy v then (case v of JStr s \<Rightarrow> Inr s | _ \<Rightarrow> Inl (Raised ValidationError)) else Inr t)"

definition train_health_of :: "view_env \<Rightarrow> cloud_event \<Rightarrow> train_health_record outcome" where
  "train_health_of E e =
     (let p = payload_dict E e; t = time_str E (ce_timestamp e) in
      bind_res (items_of p ''appDetail'') (\<lambda>apps.
      bind_res (bind_res (items_of p ''deviceDetail'') (\<lambda>js. rows_of (device_detail_of E) (dicts js))) (\<lambda>devices.
      bind_res (last_healthy_of p t) (\<lambda>healthy.
        Inr \<lparr>th_train_id = ce_vehicle_id e, th_journey_id = ce_journey_id e,
             th_cctv = str_or_get E p ''cctvStatus'' ''unknown'', th_app = str_or_get E p ''appStatus'' ''unknown'',
             th_device = str_or_get E p ''deviceStatus'' ''unknown'',
             th_connectivity_status = str_or_get E p ''connectivityStatus'' ''unknown'',
             th_last_healthy = healthy, th_app_detail = map (app_detail_of E t) (dicts apps),
             th_device_detail = devices, th_connectivity = connectivity_of E t p\<rparr>))))"

definition latest_per_vehicle :: "cloud_event list \<Rightarrow> cloud_event list" where
  "latest_per_vehicle es =
     map snd (distinct_on (map (\<lambda>e. (ce_vehicle_id e, e))
       (sort_key (\<lambda>e. (ce_vehicle_id e, - dt_micros (ce_timestamp e))) es)))"

definition get_system_health :: "view_env \<Rightarrow> cloud_db \<Rightarrow> train_health_record list outcome" where
  "get_system_health E db =
     (case vw_time_text E of
        None \<Rightarrow> Inl (Raised DBAPIError)
      | Some f \<Rightarrow>
          rows_of (train_health_of E)
            (latest_per_vehicle (filter (\<lambda>e. fits date_t_pat (take 11 (f (ce_timestamp e)))) (events_of ''SYSTEM_HEALTH'' db))))"

section \<open>Facts\<close>

text \<open>Seven values, whatever was reported.\<close>

lemma length_seven_values [simp]: "length (seven_values vs) = 7"
  by (simp add: seven_values_def)

lemma seven_values_suffix:
  "\<exists>n. seven_values vs = replicate n (Finite 0) @ drop (length vs - 7) vs"
  by (rule exI [of _ "7 - length vs"]) (auto simp: seven_values_def)

text \<open>The checks before \<open>float\<close> do not exclude every text it refuses.\<close>

lemma temperature_error:
  "temperature_of E [(''temperature_c'', JStr ''--5'')] = Inl (Raised ValueError)"
  by (simp add: temperature_of_def looks_numeric_def split_once_def digits_def is_digit_def lift_res_def of_opt_def
      parse_float_def strip_spaces_def is_space_def lower_char_def unsigned_float_def decimal_def digit_group_def)

end
