(* ===== verification/Cloud_View_Facts.thy ===== *)
theory Cloud_View_Facts
  imports Cloud_System Cloud_Analytics
begin

text \<open>
  Facts of the read-only views: what the fleet overview computes for a car and for a train, that
  no request removes an event or a journey, and that an error of a row is an error of the query.
\<close>

section \<open>Errors of a query\<close>

lemma rows_of_Inl: "rows_of f xs = Inl e \<Longrightarrow> \<exists>x \<in> set xs. f x = Inl e"
  by (induction xs) (auto simp: bind_res_def split: sum.splits)

lemma rows_of_fails: "x \<in> set xs \<Longrightarrow> f x = Inl e \<Longrightarrow> \<exists>e'. rows_of f xs = Inl e'"
  by (induction xs) (auto simp: bind_res_def split: sum.splits)

lemma bind_opt_Inl: "bind_opt f j = Inl e \<Longrightarrow> e = Raised DBAPIError"
  by (auto simp: bind_opt_def of_opt_def split: option.splits json.splits)

lemma occupancy_rows_Inl: "occupancy_rows D db = Inl e \<Longrightarrow> e = Raised DBAPIError"
  by (cases "rows_of (occupancy_row D) (newest_first (events_of ''OCCUPANCY_UPDATE'' db))")
    (auto simp: occupancy_rows_def occupancy_row_def arrow_float_def bind_res_def dest!: rows_of_Inl bind_opt_Inl
      split: sum.splits)

lemma train_summary_Inl: "train_summary_of occs sevs j = Inl e \<Longrightarrow> \<exists>x. e = Raised x"
  by (auto simp: train_summary_of_def Let_def bind_res_def car_keys_def split: sum.splits if_splits)

section \<open>Growth\<close>

text \<open>Events and journeys stay.\<close>

definition grows :: "cloud_db \<Rightarrow> cloud_db \<Rightarrow> bool" where
  "grows db db' \<longleftrightarrow>
     set (cd_events db) \<subseteq> set (cd_events db') \<and>
     (\<forall>k j. dget (cd_journeys db) k = Some j \<longrightarrow> dget (cd_journeys db') k = Some j)"

lemma grows_refl: "cd_events db' = cd_events db \<Longrightarrow> cd_journeys db' = cd_journeys db \<Longrightarrow> grows db db'"
  by (simp add: grows_def)

lemma grows_trans: "grows a b \<Longrightarrow> grows b c \<Longrightarrow> grows a c"
  by (auto simp: grows_def)

lemma insert_event_grows: "insert_cloud_event e (ensure_journey k j db) = Inr (n, db') \<Longrightarrow> grows db db'"
  by (auto simp: res_iff grows_def ensure_journey_def dsetdefault_def dhas_iff split: if_splits)

lemma only_reviews_grows: "only_reviews db db' \<Longrightarrow> grows db db'"
proof -
  assume "only_reviews db db'"
  then obtain q where "db' = db\<lparr>cd_reviews := q\<rparr>" unfolding only_reviews_def by metis
  then show ?thesis by (simp add: grows_refl)
qed

lemma store_event_grows: "store_event D ev ts db = Inr (k, n, db') \<Longrightarrow> grows db db'"
  by (auto simp: store_event_def bind_res_Inr_iff dest!: insert_event_grows)

lemma side_rows_grows: "side_rows E k ev ts db = Inr db' \<Longrightarrow> grows db db'"
  by (rule grows_refl)
    (auto simp: side_rows_def raise_escalation_def record_raised_def upsert_heartbeat_def bind_res_Inr_iff Let_def
      split: if_splits)

lemma ingest_one_grows:
  assumes "ingest_one E ev a = Inr a'"
  shows "grows (ia_db a) (ia_db a')"
proof (cases "ev_schema_version ev \<in> set supported_schema_versions")
  case True
  with assms obtain ts k n db where st: "store_event (ig_driver E) ev ts (ia_db a) = Inr (k, n, db)"
    and rest: "(if n = 0 then Inr (a\<lparr>ia_db := db, ia_duplicates := ia_duplicates a @ [ev_id ev]\<rparr>)
        else bind_res (side_rows E k ev ts db) (\<lambda>db'.
          Inr (fan_out E ev ts (a\<lparr>ia_db := db', ia_accepted := ia_accepted a + 1\<rparr>)))) = Inr a'"
    by (auto simp: ingest_one_def res_iff)
  note g = store_event_grows [OF st]
  show ?thesis
  proof (cases "n = 0")
    case False
    with rest obtain db' where sd: "side_rows E k ev ts db = Inr db'"
      and a': "a' = fan_out E ev ts (a\<lparr>ia_db := db', ia_accepted := ia_accepted a + 1\<rparr>)"
      by (auto simp: res_iff)
    have "ia_db a' = db'" by (simp add: a' fan_out_def split: prod.split)
    with grows_trans [OF g side_rows_grows [OF sd]] show ?thesis by simp
  qed (use rest g in auto)
qed (use assms in \<open>simp add: ingest_one_def grows_refl\<close>)

lemma ingest_loop_grows: "ingest_loop E evs a = (r, a') \<Longrightarrow> grows (ia_db a) (ia_db a')"
  by (induction evs arbitrary: a) (auto simp: grows_refl split: sum.splits dest: ingest_one_grows intro: grows_trans)

lemma ingest_grows: "ingest_events E evs S = (r, S') \<Longrightarrow> grows (cl_db S) (cl_db S')"
  by (auto simp: ingest_events_def grows_refl split: prod.splits option.splits dest: ingest_loop_grows)

lemma change_class_grows: "change_class A et code actor f st S = (r, S') \<Longrightarrow> grows (cl_db S) (cl_db S')"
proof (cases "persist_audit_event A et code actor
     ((cl_db S)\<lparr>cd_classes := dset (cd_classes (cl_db S)) code (f (dget (cd_classes (cl_db S)) code))\<rparr>)")
  case (Inr db)
  then have "grows ((cl_db S)\<lparr>cd_classes := dset (cd_classes (cl_db S)) code (f (dget (cd_classes (cl_db S)) code))\<rparr>) db"
    by (auto simp: persist_audit_event_def bind_res_Inr_iff intro: insert_event_grows)
  moreover assume "change_class A et code actor f st S = (r, S')"
  ultimately show ?thesis by (auto simp: change_class_def Inr grows_def)
qed (auto simp: change_class_def grows_refl)

lemma record_transition_journeys [simp]: "cd_journeys (record_transition k t op db) = cd_journeys db"
  by (simp add: record_transition_def split: option.split)

lemma lifecycle_journeys:
  "cd_journeys (snd (acknowledge_commit now k op db)) = cd_journeys db"
  "cd_journeys (snd (resolve_commit now k q keys db)) = cd_journeys db"
  "cd_journeys (record_silently_dismissed k m db) = cd_journeys db"
  by (simp_all add: acknowledge_commit_def resolve_commit_def record_silently_dismissed_def split: option.split)

lemma cloud_step_grows:
  assumes "cloud_step S S'"
  shows "grows (cl_db S) (cl_db S')"
  using assms
proof (cases rule: cloud_step.cases)
  case (Ingest E evs r)
  then show ?thesis by (rule ingest_grows)
next
  case (Acknowledge D now i op st r)
  then show ?thesis
    by (intro grows_refl) (auto simp: acknowledge_after_def lifecycle_tables lifecycle_journeys
      split: option.splits esc_status.splits sum.splits)
next
  case (Resolve q D now i st r)
  then show ?thesis
    by (intro grows_refl) (auto simp: resolve_after_def lifecycle_tables lifecycle_journeys
      split: option.splits esc_status.splits sum.splits if_splits)
next
  case (Dismiss D i m st u)
  then show ?thesis
    by (intro grows_refl) (auto simp: dismiss_after_def lifecycle_tables lifecycle_journeys
      split: option.splits esc_status.splits sum.splits if_splits)
next
  case (Disable A actor code r)
  then show ?thesis by (simp add: disable_alert_class_def) (erule change_class_grows)
next
  case (Enable A actor code r)
  then show ?thesis by (simp add: enable_alert_class_def) (erule change_class_grows)
next
  case (Patch_thresholds tick p t)
  then show ?thesis
    by (intro grows_refl)
      (auto simp: patch_confidence_thresholds_def store_thresholds_def split: sum.splits prod.splits
        dest!: confidence_thresholds_pair)
next
  case (Read_thresholds tick cfg)
  then show ?thesis by (auto simp: grows_refl dest: confidence_thresholds_pair)
next
  case (Read_health D tick now b)
  then show ?thesis
    by (auto simp: grows_refl degraded_get_def split: sum.splits prod.splits if_splits dest!: confidence_thresholds_pair)
next
  case (Users D B db)
  with user_write_tables [OF Users(2)] show ?thesis by (auto simp: grows_refl)
next
  case (Preferences D cu t s pr db)
  then show ?thesis
    by (intro grows_refl) (auto simp: patch_preferences_def Let_def split: if_splits sum.splits option.splits)
next
  case (Review ti D now u i nt p out db)
  then have "only_reviews (cl_db S) db" using review_frames(1) by (metis snd_conv)
  with Review(1) show ?thesis by (simp add: only_reviews_grows)
next
  case (Dismiss_review ti D now u i d db)
  then have "only_reviews (cl_db S) db" using review_frames(2) by (metis snd_conv)
  with Dismiss_review(1) show ?thesis by (simp add: only_reviews_grows)
next
  case (Reopen i d db)
  then have "only_reviews (cl_db S) db" using review_frames(3) by (metis snd_conv)
  with Reopen(1) show ?thesis by (simp add: only_reviews_grows)
qed (auto simp: grows_refl sse_replay_def res_iff split: prod.splits)

lemma cloud_steps_grow: "cloud_step\<^sup>*\<^sup>* S S' \<Longrightarrow> grows (cl_db S) (cl_db S')"
  by (induction rule: rtranclp_induct) (auto simp: grows_refl intro: grows_trans cloud_step_grows)

section \<open>Cars\<close>

text \<open>The alert events of a journey, and those of one of its cars.\<close>

definition journey_alerts :: "cloud_db \<Rightarrow> string \<Rightarrow> cloud_event set" where
  "journey_alerts db j = {e \<in> set (cd_events db). ce_type e \<in> set fleet_alert_types \<and> ce_journey_id e = j}"

definition car_alerts :: "driver \<Rightarrow> cloud_db \<Rightarrow> string \<Rightarrow> string \<Rightarrow> cloud_event set" where
  "car_alerts D db j c = {e \<in> journey_alerts db j. str_or (car_of D e) ''unknown'' = c}"

text \<open>The worst rank of some alerts; \<open>info\<close> at least.\<close>

definition worst_rank :: "cloud_event set \<Rightarrow> nat" where
  "worst_rank es = Max (insert 1 (fleet_rank ` ce_severity ` es))"

lemma finite_alerts [simp]: "finite (journey_alerts db j)" "finite (car_alerts D db j c)"
  by (simp_all add: journey_alerts_def car_alerts_def)

lemma worst_rank_le: "finite es \<Longrightarrow> worst_rank es \<le> n \<longleftrightarrow> 1 \<le> n \<and> (\<forall>e \<in> es. fleet_rank (ce_severity e) \<le> n)"
  by (simp add: worst_rank_def)

lemma worst_rank_pos: "finite es \<Longrightarrow> 1 \<le> worst_rank es"
  by (simp add: worst_rank_def)

lemma worst_rank_ge: "finite es \<Longrightarrow> e \<in> es \<Longrightarrow> fleet_rank (ce_severity e) \<le> worst_rank es"
  by (simp add: worst_rank_def)

lemma sev_rank:
  "fleet_rank (dget_or (dget_or (sev_by_journey (alert_rows D db)) j []) c ''info'') = worst_rank (car_alerts D db j c)"
proof -
  let ?rows = "map snd (filter (\<lambda>r. fst r = j) (alert_rows D db))"
  have "snd ` {r \<in> set ?rows. fst r = c} = ce_severity ` car_alerts D db j c"
    by (force simp: alert_rows_def car_alerts_def journey_alerts_def image_iff)
  then show ?thesis
    unfolding dget_sev_by_journey worse_of_rank worst_rank_def by (simp add: dget_or_def)
qed

lemma dget_or_not_in: "c \<notin> set (dkeys d) \<Longrightarrow> dget_or d c x = x"
proof -
  assume "c \<notin> set (dkeys d)"
  then have "dget d c = None" unfolding map_of_eq_None_iff by (simp add: dkeys_def)
  then show ?thesis by (simp add: dget_or_def)
qed

lemma worst_of_member: "keys \<noteq> [] \<Longrightarrow> \<exists>c \<in> set keys. worst_of (map f keys) = f c"
  using worst_of_rank [of "map f keys"] by auto

lemma sev_key:
  assumes "c \<notin> set (dkeys (dget_or (sev_by_journey (alert_rows D db)) j []))"
  shows "worst_rank (car_alerts D db j c) = 1"
proof -
  have "dget_or (dget_or (sev_by_journey (alert_rows D db)) j []) c ''info'' = ''info''"
    using dget_or_not_in [OF assms] .
  with sev_rank [of D db j c] show ?thesis by simp
qed

text \<open>A train: the worst of its cars is the worst of its alerts.\<close>

lemma train_rank:
  assumes "sev = dget_or (sev_by_journey (alert_rows D db)) j []" "set (dkeys sev) \<subseteq> set keys"
  shows "fleet_rank (worst_of (map (\<lambda>c. dget_or sev c ''info'') keys)) = worst_rank (journey_alerts db j)"
proof (rule antisym)
  have car: "fleet_rank (dget_or sev c ''info'') = worst_rank (car_alerts D db j c)" for c
    unfolding assms(1) by (rule sev_rank)
  let ?ws = "map (\<lambda>c. dget_or sev c ''info'') keys"
  have one: "1 \<le> fleet_rank (worst_of ?ws)"
  proof (cases "keys = []")
    case False
    then obtain c where "worst_of ?ws = dget_or sev c ''info''" using worst_of_member by blast
    then show ?thesis using worst_rank_pos [of "car_alerts D db j c"] by (simp add: car)
  qed simp
  have le: "fleet_rank (ce_severity e) \<le> fleet_rank (worst_of ?ws)"
    if "e \<in> journey_alerts db j" for e
  proof -
    let ?c = "str_or (car_of D e) ''unknown''"
    have e: "e \<in> car_alerts D db j ?c" using that by (simp add: car_alerts_def)
    have "fleet_rank (ce_severity e) \<le> worst_rank (car_alerts D db j ?c)"
      using worst_rank_ge [OF _ e] by simp
    also have "\<dots> \<le> fleet_rank (worst_of ?ws)"
    proof (cases "?c \<in> set keys")
      case True
      then have "fleet_rank (dget_or sev ?c ''info'') \<in> fleet_rank ` set ?ws" "?ws \<noteq> []" by auto
      with worst_of_rank [of ?ws] have "fleet_rank (dget_or sev ?c ''info'') \<le> fleet_rank (worst_of ?ws)"
        by (metis Max_ge List.finite_set finite_imageI)
      then show ?thesis by (simp only: car)
    next
      case False
      then have "worst_rank (car_alerts D db j ?c) = 1" using assms sev_key by blast
      with one show ?thesis by simp
    qed
    finally show "fleet_rank (ce_severity e) \<le> fleet_rank (worst_of ?ws)" .
  qed
  show "worst_rank (journey_alerts db j) \<le> fleet_rank (worst_of ?ws)"
    using le one worst_rank_le [of "journey_alerts db j"] by simp
  show "fleet_rank (worst_of ?ws) \<le> worst_rank (journey_alerts db j)"
  proof (cases "keys = []")
    case True
    then show ?thesis by (simp add: worst_rank_def)
  next
    case False
    then obtain c where "worst_of ?ws = dget_or sev c ''info''" using worst_of_member by blast
    moreover have "worst_rank (car_alerts D db j c) \<le> worst_rank (journey_alerts db j)"
      unfolding worst_rank_def by (rule Max_mono) (auto simp: car_alerts_def)
    ultimately show ?thesis by (simp add: car)
  qed
qed

text \<open>The occupancy a car shows: that of its newest report.\<close>

definition occupancy_reports :: "driver \<Rightarrow> cloud_db \<Rightarrow> string \<Rightarrow> string \<Rightarrow> cloud_event set" where
  "occupancy_reports D db j c =
     {e \<in> set (events_of ''OCCUPANCY_UPDATE'' db). ce_journey_id e = j \<and> car_of D e = Some c}"

definition newest_occupancy :: "driver \<Rightarrow> cloud_event set \<Rightarrow> rat option \<Rightarrow> bool" where
  "newest_occupancy D es q \<longleftrightarrow>
     (if es = {} then q = None
      else \<exists>e \<in> es. arrow_float D (ce_payload e) ''occupancy_pct'' = Inr q \<and>
             (\<forall>e' \<in> es. not_after (ce_source_timestamp e') (ce_source_timestamp e)))"

lemma map_of_rows:
  assumes "list_all2 (\<lambda>e r. occupancy_row D e = Inr r) es rows"
    "sorted_wrt (\<lambda>a b. not_after (ce_source_timestamp b) (ce_source_timestamp a)) es"
  shows "newest_occupancy D {e \<in> set es. ce_journey_id e = j \<and> car_of D e = Some c} (keep_or (map_of rows (j, Some c)) None)"
  using assms
proof (induction rule: list_all2_induct)
  case Nil
  then show ?case by (simp add: newest_occupancy_def)
next
  case (Cons e es r rows)
  obtain q where r: "r = ((ce_journey_id e, car_of D e), q)" and q: "arrow_float D (ce_payload e) ''occupancy_pct'' = Inr q"
    using Cons(1) by (auto simp: occupancy_row_def bind_res_Inr_iff)
  let ?P = "\<lambda>e. ce_journey_id e = j \<and> car_of D e = Some c"
  show ?case
  proof (cases "?P e")
    case True
    have "not_after (ce_source_timestamp e) (ce_source_timestamp e)" by (simp add: not_after_def)
    with True Cons(4) q show ?thesis by (auto simp: newest_occupancy_def r)
  next
    case False
    then have "{x \<in> set (e # es). ?P x} = {x \<in> set es. ?P x}" by auto
    moreover have "map_of (r # rows) (j, Some c) = map_of rows (j, Some c)" using False by (auto simp: r)
    ultimately show ?thesis using Cons(3,4) by simp
  qed
qed

lemma newest_first_sorted:
  "sorted_wrt (\<lambda>a b. not_after (ce_source_timestamp b) (ce_source_timestamp a)) (newest_first es)"
proof -
  have "sorted (map (\<lambda>e. - dt_micros (ce_source_timestamp e)) (newest_first es))"
    unfolding newest_first_def by (rule sorted_sort_key)
  then show ?thesis by (simp add: sorted_wrt_map sorted_map not_after_def)
qed

lemma occupancy_shown:
  assumes "occupancy_rows D db = Inr occ"
  shows "newest_occupancy D (occupancy_reports D db j c) (keep_or (map_of occ (j, Some c)) None)" "distinct (map fst occ)"
proof -
  let ?es = "newest_first (events_of ''OCCUPANCY_UPDATE'' db)"
  obtain rows where rows: "list_all2 (\<lambda>e r. occupancy_row D e = Inr r) ?es rows" and occ: "occ = distinct_on rows"
    using assms by (cases "rows_of (occupancy_row D) ?es") (auto simp: occupancy_rows_def res_iff)
  have "{e \<in> set ?es. ce_journey_id e = j \<and> car_of D e = Some c} = occupancy_reports D db j c"
    by (simp add: occupancy_reports_def newest_first_def)
  with map_of_rows [OF rows newest_first_sorted, of j c]
  show "newest_occupancy D (occupancy_reports D db j c) (keep_or (map_of occ (j, Some c)) None)"
    by (simp add: occ map_of_distinct_on)
  show "distinct (map fst occ)" by (simp add: occ distinct_on_fst)
qed

text \<open>Which cars are listed: those with an occupancy report, and those with an alert worse than
  \<open>info\<close>; an alert of severity \<open>info\<close> sets nothing.\<close>

lemma occupancy_listed:
  assumes "occupancy_rows D db = Inr occ"
  shows "Some c \<in> set (dkeys (dget_or (occ_by_journey occ) j [])) \<longleftrightarrow> occupancy_reports D db j c \<noteq> {}"
proof -
  let ?es = "newest_first (events_of ''OCCUPANCY_UPDATE'' db)"
  obtain rows where rows: "list_all2 (\<lambda>e r. occupancy_row D e = Inr r) ?es rows" and occ: "occ = distinct_on rows"
    using assms by (cases "rows_of (occupancy_row D) ?es") (auto simp: occupancy_rows_def res_iff)
  have "map fst rows = map (\<lambda>e. (ce_journey_id e, car_of D e)) ?es"
    using rows by (induction rule: list_all2_induct) (auto simp: occupancy_row_def bind_res_Inr_iff)
  then have keys: "set (map fst occ) = (\<lambda>e. (ce_journey_id e, car_of D e)) ` set (events_of ''OCCUPANCY_UPDATE'' db)"
    by (simp add: occ distinct_on_fst newest_first_def)
  have "Some c \<in> set (dkeys (dget_or (occ_by_journey occ) j [])) \<longleftrightarrow> map_of occ (j, Some c) \<noteq> None"
    by (simp add: map_of_eq_None_iff dkeys_def flip: dget_occ_by_journey [OF occupancy_shown(2) [OF assms]])
  also have "\<dots> \<longleftrightarrow> (j, Some c) \<in> set (map fst occ)" by (simp add: map_of_eq_None_iff)
  also have "\<dots> \<longleftrightarrow> occupancy_reports D db j c \<noteq> {}"
    unfolding keys by (auto simp: occupancy_reports_def)
  finally show ?thesis .
qed

lemma worse_of_above:
  assumes "\<forall>q \<in> set d. 1 < fleet_rank (snd q)"
  shows "\<forall>q \<in> set (worse_of d r). 1 < fleet_rank (snd q)"
proof -
  obtain x t where r: "r = (x, t)" by (cases r)
  have "1 \<le> fleet_rank (dget_or d x ''info'')"
    using assms by (cases "dget d x") (fastforce simp: dget_or_def dest: map_of_SomeD)+
  then show ?thesis using assms set_dset [of d x t] by (auto simp: r worse_of_def)
qed

lemma severities_above: "\<forall>q \<in> set (foldl worse_of [] rows). 1 < fleet_rank (snd q)"
  by (induction rows rule: rev_induct) (simp_all add: worse_of_above del: One_nat_def)

lemma alert_listed:
  "c \<in> set (dkeys (dget_or (sev_by_journey (alert_rows D db)) j [])) \<longleftrightarrow> 1 < worst_rank (car_alerts D db j c)"
proof -
  let ?d = "dget_or (sev_by_journey (alert_rows D db)) j []"
  have "1 < fleet_rank (dget_or ?d c ''info'')" if "c \<in> set (dkeys ?d)"
  proof -
    from that obtain s where "dget ?d c = Some s" by (auto simp: dkeys_def dest: weak_map_of_SomeI)
    moreover from this have "1 < fleet_rank s"
      using severities_above [of "map snd (filter (\<lambda>r. fst r = j) (alert_rows D db))"]
      unfolding dget_sev_by_journey by (fastforce dest: map_of_SomeD)
    ultimately show ?thesis by (simp add: dget_or_def)
  qed
  moreover have "fleet_rank (dget_or ?d c ''info'') = 1" if "c \<notin> set (dkeys ?d)"
    using dget_or_not_in [OF that] by simp
  ultimately show ?thesis using sev_rank [of D db j c] by force
qed

end
