(* ===== verification/Cloud_View_Properties.thy ===== *)
theory Cloud_View_Properties
  imports Cloud_Properties Cloud_View_Facts
begin

text \<open>
  The properties of the views of \<open>cloud-backend\<close>, each with a concrete instance: what the fleet
  overview shows and what takes it away, what the analytics can ever show, and what a reader of the
  exported review queue finds.
\<close>

section \<open>The fleet overview\<close>

lemma list_all2_map: "list_all2 P xs ys \<Longrightarrow> (\<And>x y. P x y \<Longrightarrow> g y = f x) \<Longrightarrow> map g ys = map f xs"
  by (induction rule: list_all2_induct) simp_all

lemma list_all2_left: "list_all2 P xs ys \<Longrightarrow> x \<in> set xs \<Longrightarrow> \<exists>y \<in> set ys. P x y"
  by (induction rule: list_all2_induct) auto

lemma list_all2_right: "list_all2 P xs ys \<Longrightarrow> y \<in> set ys \<Longrightarrow> \<exists>x \<in> set xs. P x y"
  by (induction rule: list_all2_induct) auto

lemma fleet_overview_Inr:
  assumes "fleet_overview D db = Inr (trains, n)"
  obtains occ where "occupancy_rows D db = Inr occ" "n = length trains"
    "list_all2 (\<lambda>j t. train_summary_of (occ_by_journey occ) (sev_by_journey (alert_rows D db)) j = Inr t)
       (active_journeys db) trains"
  using assms by (auto simp: fleet_overview_def res_iff)

text \<open>C8: The fleet overview, when it is answered, has one entry per journey without an end. Its cars
  are exactly those the journey has an occupancy report of or an alert worse than info of, each listed
  once, with the occupancy of its newest report and the worst severity among its alerts (info at
  least), and the train carries the worst severity of all its alerts.\<close>

theorem fleet_overview_shows:
  assumes "fleet_overview D db = Inr (trains, n)"
  shows "n = length trains \<and> map tr_journey_id trains = map fst (active_journeys db) \<and>
    (\<forall>t \<in> set trains. sorted (map ca_car_id (tr_cars t)) \<and> distinct (map ca_car_id (tr_cars t)) \<and>
       set (map ca_car_id (tr_cars t)) =
         {c. occupancy_reports D db (tr_journey_id t) c \<noteq> {} \<or> 1 < worst_rank (car_alerts D db (tr_journey_id t) c)} \<and>
       fleet_rank (tr_worst t) = worst_rank (journey_alerts db (tr_journey_id t)) \<and>
       (\<forall>c \<in> set (tr_cars t).
          fleet_rank (ca_worst c) = worst_rank (car_alerts D db (tr_journey_id t) (ca_car_id c)) \<and>
          newest_occupancy D (occupancy_reports D db (tr_journey_id t) (ca_car_id c)) (ca_occupancy c)))"
proof -
  obtain occ where occ: "occupancy_rows D db = Inr occ" and n: "n = length trains"
    and rows: "list_all2 (\<lambda>j t. train_summary_of (occ_by_journey occ) (sev_by_journey (alert_rows D db)) j = Inr t)
       (active_journeys db) trains"
    using assms by (rule fleet_overview_Inr)
  let ?sev = "sev_by_journey (alert_rows D db)"
  have one: "tr_journey_id t = fst j \<and> sorted (map ca_car_id (tr_cars t)) \<and> distinct (map ca_car_id (tr_cars t)) \<and>
      set (map ca_car_id (tr_cars t)) =
        {c. occupancy_reports D db (tr_journey_id t) c \<noteq> {} \<or> 1 < worst_rank (car_alerts D db (tr_journey_id t) c)} \<and>
      fleet_rank (tr_worst t) = worst_rank (journey_alerts db (tr_journey_id t)) \<and>
      (\<forall>c \<in> set (tr_cars t).
        fleet_rank (ca_worst c) = worst_rank (car_alerts D db (tr_journey_id t) (ca_car_id c)) \<and>
        newest_occupancy D (occupancy_reports D db (tr_journey_id t) (ca_car_id c)) (ca_occupancy c))"
    if t: "train_summary_of (occ_by_journey occ) ?sev j = Inr t" for j t
  proof -
    let ?o = "dget_or (occ_by_journey occ) (fst j) []" and ?s = "dget_or ?sev (fst j) []"
    obtain keys where keys: "car_keys ?o ?s = Inr keys" and id: "tr_journey_id t = fst j"
      and cars: "tr_cars t = map (car_summary_of ?o ?s) keys"
      and worst: "tr_worst t = worst_of (map ca_worst (tr_cars t))"
      using t by (auto simp: train_summary_of_def Let_def bind_res_Inr_iff)
    have names: "map ca_car_id (tr_cars t) = keys" "map ca_worst (tr_cars t) = map (\<lambda>c. dget_or ?s c ''info'') keys"
      by (simp_all add: cars car_summary_of_def comp_def)
    have "set (dkeys ?s) \<subseteq> set keys" using set_car_keys [OF keys] by blast
    then have "fleet_rank (tr_worst t) = worst_rank (journey_alerts db (fst j))"
      unfolding worst names by (rule train_rank [OF refl])
    moreover have "sorted keys" "distinct keys" using keys by (auto simp: car_keys_Inr)
    moreover have "set keys = {c. occupancy_reports D db (fst j) c \<noteq> {} \<or> 1 < worst_rank (car_alerts D db (fst j) c)}"
      using set_car_keys [OF keys] by (auto simp: occupancy_listed [OF occ] alert_listed)
    moreover have "fleet_rank (ca_worst c) = worst_rank (car_alerts D db (fst j) (ca_car_id c)) \<and>
        newest_occupancy D (occupancy_reports D db (fst j) (ca_car_id c)) (ca_occupancy c)"
      if c: "c \<in> set (tr_cars t)" for c
      using c occupancy_shown(1) [OF occ, of "fst j" "ca_car_id c"] dget_occ_by_journey [OF occupancy_shown(2) [OF occ]]
      by (auto simp: cars car_summary_of_def sev_rank)
    ultimately show ?thesis by (simp add: id names)
  qed
  have "map tr_journey_id trains = map fst (active_journeys db)"
    by (rule list_all2_map [OF rows]) (use one in blast)
  moreover have "\<exists>j. train_summary_of (occ_by_journey occ) ?sev j = Inr t" if "t \<in> set trains" for t
    using list_all2_right [OF rows that] by blast
  ultimately show ?thesis using one n by blast
qed

definition fleet_time :: datetime where
  "fleet_time = sample_time"

definition fleet_event :: "nat \<Rightarrow> string \<Rightarrow> string \<Rightarrow> jdict \<Rightarrow> cloud_event" where
  "fleet_event n et sev p =
     \<lparr>ce_id = sample_uuid n, ce_journey_id = ''T1_RJ42_20260517'', ce_vehicle_id = ''T1'', ce_type = et,
      ce_severity = sev, ce_source = ''fusion'', ce_schema_version = 1, ce_timestamp = sample_time,
      ce_source_timestamp = sample_time, ce_payload = p\<rparr>"

definition fleet_db :: cloud_db where
  "fleet_db = init_cloud_db
     \<lparr>cd_journeys := [(''T1_RJ42_20260517'', \<lparr>cj_vehicle_id = ''T1'', cj_trip_number = ''RJ42'', cj_route_name = None,
        cj_start_time = sample_time, cj_end_time = None\<rparr>)],
      cd_events := [fleet_event 0 ''OCCUPANCY_UPDATE'' ''info'' [(''car_id'', JStr ''C1''), (''occupancy_pct'', JNum (1/2))],
        fleet_event 1 ''ALARM_ACTIVE'' ''critical'' [(''car_id'', JStr ''C1'')]]\<rparr>"

lemma fleet_db_overview:
  "fleet_overview strict_driver fleet_db =
     Inr ([\<lparr>tr_journey_id = ''T1_RJ42_20260517'', tr_vehicle_id = ''T1'', tr_trip_number = ''RJ42'', tr_worst = ''critical'',
            tr_cars = [\<lparr>ca_car_id = ''C1'', ca_occupancy = Some (1/2), ca_worst = ''critical''\<rparr>]\<rparr>], 1)"
  by (simp add: fleet_overview_def fleet_db_def init_cloud_db_def occupancy_rows_def events_of_def fleet_event_def
      newest_first_def occupancy_row_def arrow_float_def car_of_def arrow_text_def bind_opt_def of_opt_def bind_res_def
      strict_driver_def distinct_on_def List.map_filter_def active_journeys_def alert_rows_def fleet_alert_types_def
      train_summary_of_def occ_by_journey_def sev_by_journey_def worse_of_def car_keys_def car_summary_of_def
      dkeys_def dget_or_def str_or_def truthy_def)

theorem fleet_overview_shows_witness:
  "\<exists>trains. fleet_overview strict_driver fleet_db = Inr (trains, 1) \<and>
     (\<forall>t \<in> set trains. fleet_rank (tr_worst t) = worst_rank (journey_alerts fleet_db (tr_journey_id t)))"
  using fleet_overview_shows [OF fleet_db_overview] fleet_db_overview by blast

text \<open>One report without a car takes the fleet overview away for good: a stored OCCUPANCY_UPDATE
  whose payload names no car (the envelope admits an empty payload), in a journey without an end,
  makes the endpoint answer 500, and so it stays whatever requests follow, since nothing removes an
  event or ends a journey.\<close>

theorem fleet_overview_lost:
  assumes "e \<in> set (cd_events (cl_db S))" "ce_type e = ''OCCUPANCY_UPDATE''" "car_of D e = None"
    "dget (cd_journeys (cl_db S)) (ce_journey_id e) = Some j" "cj_end_time j = None" "cloud_step\<^sup>*\<^sup>* S S'"
  shows "\<exists>x. fleet_overview D (cl_db S') = Inl (Raised x) \<and> fst (failure_status (Raised x)) = 500"
proof -
  let ?db = "cl_db S'"
  have g: "grows (cl_db S) ?db" by (rule cloud_steps_grow [OF assms(6)])
  then have e: "e \<in> set (events_of ''OCCUPANCY_UPDATE'' ?db)" using assms(1,2) by (auto simp: grows_def events_of_def)
  have "dget (cd_journeys ?db) (ce_journey_id e) = Some j" using g assms(4) by (simp add: grows_def)
  then have active: "(ce_journey_id e, j) \<in> set (active_journeys ?db)"
    using assms(5) by (auto simp: active_journeys_def dest: map_of_SomeD)
  have "\<exists>x. fleet_overview D ?db = Inl (Raised x)"
  proof (cases "occupancy_rows D ?db")
    case (Inl f)
    from occupancy_rows_Inl [OF this] Inl show ?thesis by (simp add: fleet_overview_def)
  next
    case (Inr occ)
    let ?sum = "train_summary_of (occ_by_journey occ) (sev_by_journey (alert_rows D ?db))"
    let ?es = "newest_first (events_of ''OCCUPANCY_UPDATE'' ?db)"
    obtain rows where rows: "list_all2 (\<lambda>e r. occupancy_row D e = Inr r) ?es rows" and occ: "occ = distinct_on rows"
      using Inr by (cases "rows_of (occupancy_row D) ?es") (auto simp: occupancy_rows_def res_iff)
    have "e \<in> set ?es" using e by (simp add: newest_first_def)
    from list_all2_left [OF rows this] obtain r where "r \<in> set rows" "occupancy_row D e = Inr r" by blast
    then have "(ce_journey_id e, None) \<in> fst ` set rows" using assms(3) by (force simp: occupancy_row_def bind_res_Inr_iff)
    then obtain q where "map_of occ (ce_journey_id e, None) = Some q"
      by (metis occ map_of_distinct_on weak_map_of_SomeI surjective_pairing imageE)
    then have "dget (dget_or (occ_by_journey occ) (ce_journey_id e) []) None = Some q"
      by (simp add: dget_occ_by_journey [OF occupancy_shown(2) [OF Inr]])
    then have "None \<in> set (dkeys (dget_or (occ_by_journey occ) (ce_journey_id e) []))"
      by (force simp: dkeys_def dest: map_of_SomeD)
    then have "\<exists>f. ?sum (ce_journey_id e, j) = Inl f"
      by (auto simp: train_summary_of_def Let_def car_keys_def bind_res_def)
    then obtain f where f: "rows_of ?sum (active_journeys ?db) = Inl f" using rows_of_fails [OF active] by blast
    then obtain x where "f = Raised x" using rows_of_Inl [OF f] train_summary_Inl by blast
    with Inr f show ?thesis by (simp add: fleet_overview_def bind_res_def)
  qed
  then show ?thesis by (auto simp: unhandled_exception_handler_def)
qed
definition bare_report :: envelope where
  "bare_report = (sample_alert 0 sample_time)\<lparr>ev_type := OCCUPANCY_UPDATE, ev_payload := []\<rparr>"

lemma bare_report_simps [simp]:
  "ev_id bare_report = sample_uuid 0" "ev_timestamp bare_report = iso_head sample_time @ ''Z''"
  "ev_type bare_report = OCCUPANCY_UPDATE" "ev_schema_version bare_report = 1" "ev_payload bare_report = []"
  by (simp_all add: bare_report_def)

lemma bare_report_stored:
  obtains S k j where "ingest_events sample_ingest_env [bare_report] cloud_start = (Inr (1, []), S)"
    "cd_events (cl_db S) = [event_row k bare_report sample_time]"
    "dget (cd_journeys (cl_db S)) (ev_journey_id bare_report) = Some j" "cj_end_time j = None"
proof -
  let ?a = "\<lparr>ia_db = cl_db cloud_start, ia_hub = cl_hub cloud_start, ia_filter = cl_filter cloud_start,
      ia_accepted = 0, ia_duplicates = []\<rparr>"
  obtain a' where a': "ingest_one sample_ingest_env bare_report ?a = Inr a'" "ia_accepted a' = 1" "ia_duplicates a' = []"
    "cd_events (ia_db a') = [event_row (map lower_char (sample_uuid 0)) bare_report sample_time]"
    "\<exists>j. dget (cd_journeys (ia_db a')) (ev_journey_id bare_report) = Some j \<and> cj_end_time j = None"
    using bind_id_valid [OF strict_driver_ok sample_uuid_ok [of 0]]
    by (simp add: ingest_one_def sample_version_ok sample_instant bind_res_def store_event_def sample_ingest_env_def
        insert_cloud_event_def cloud_start_def init_cloud_db_def ensure_journey_def dsetdefault_def dhas_def dkeys_def
        side_rows_def fan_out_def alert_event_types_def)
  then show ?thesis using that by (auto simp: ingest_events_def)
qed

theorem fleet_overview_lost_witness:
  "\<exists>(S::cloud) x. reach cloud_init cloud_step S \<and> validate_payload_shape strict_pydantic OCCUPANCY_UPDATE [] \<and>
     fleet_overview strict_driver (cl_db S) = Inl (Raised x)"
proof -
  obtain S k j where S: "ingest_events sample_ingest_env [bare_report] cloud_start = (Inr (1, []), S)"
    "cd_events (cl_db S) = [event_row k bare_report sample_time]"
    "dget (cd_journeys (cl_db S)) (ev_journey_id bare_report) = Some j" "cj_end_time j = None"
    by (rule bare_report_stored)
  have "cloud_init cloud_start"
    unfolding cloud_init_def by (rule exI [of _ "[]"]) (simp add: cloud_start_def init_cloud_db_def)
  then have "reach cloud_init cloud_step S"
    by (rule reach_step [OF reach_init [where init = cloud_init]]) (rule Ingest [OF S(1)])
  moreover have "\<exists>x. fleet_overview strict_driver (cl_db S) = Inl (Raised x)"
    using fleet_overview_lost [of "event_row k bare_report sample_time" S strict_driver j S] S(2-4)
    by (auto simp: event_row_def car_of_def arrow_text_def)
  ultimately show ?thesis by (auto simp: validate_payload_shape_def)
qed

section \<open>The analytics\<close>

lemma analytics_types:
  "''CAPACITY_EXCEPTION'' \<notin> range event_type_value" "''DWELL_EVENT'' \<notin> range event_type_value"
  "''INFERENCE_RESULT'' \<notin> range event_type_value" "''SYSTEM_HEALTH'' \<notin> range event_type_value"
  by (auto elim: event_type_value.elims [OF sym])

lemma no_events:
  assumes "types_known db" "et \<notin> range event_type_value"
  shows "events_of et db = []" "events_since et c db = []"
  using assms by (auto simp: types_known_def events_of_def events_since_def filter_empty_conv)

text \<open>C11: The analytics never show anything: the event types they read (capacity exceptions, dwell
  events, inference results, system health) are none the envelope admits, so whatever requests have
  been served, exceptions and dwell times are empty lists, the detection quality counts no event and
  an uptime of 0 for every train, and the system health is empty; with the migrated tables the
  health and the heatmap are answered 500.\<close>

theorem analytics_show_nothing:
  assumes "reach cloud_init cloud_step S" "parse_range r = Inr d"
  shows "get_exceptions E r now (cl_db S) = Inr [] \<and> get_dwell_time E r now (cl_db S) = Inr [] \<and>
    (\<exists>q. get_detection_quality E r now (cl_db S) = Inr q \<and> kp_total_events (dq_kpi q) = 0 \<and>
       kp_fp_rate (dq_kpi q) = None \<and> kp_avg_confidence (dq_kpi q) = None \<and>
       kp_fleet_uptime_pct (dq_kpi q) \<in> {None, Some 0} \<and> dq_daily_bars q = [] \<and>
       snd ` set (dq_per_train_uptime q) \<subseteq> {0}) \<and>
    (case vw_time_text E of
       None \<Rightarrow> get_system_health E (cl_db S) = Inl (Raised DBAPIError) \<and>
               get_occupancy_heatmap E r now (cl_db S) = Inl (Raised DBAPIError)
     | Some f \<Rightarrow> get_system_health E (cl_db S) = Inr [])"
proof -
  have "types_known (cl_db S)" using landside.reach_inv [OF assms(1)] by (simp add: cloud_ok_def)
  note none = no_events [OF this analytics_types(1)] no_events [OF this analytics_types(2)]
    no_events [OF this analytics_types(3)] no_events [OF this analytics_types(4)]
  have active: "active_count [] js = 0" for js by (simp add: active_count_def case_prod_unfold)
  have uptime: "keep_or (uptime_pct 0 n) 0 = 0" "uptime_pct 0 n \<in> {None, Some 0}" for n
    by (simp_all add: uptime_pct_def)
  have "get_exceptions E r now (cl_db S) = Inr []" "get_dwell_time E r now (cl_db S) = Inr []"
    by (simp_all add: get_exceptions_def get_dwell_time_def assms(2) none List.map_filter_def Let_def)
  moreover have "\<exists>q. get_detection_quality E r now (cl_db S) = Inr q \<and> kp_total_events (dq_kpi q) = 0 \<and>
       kp_fp_rate (dq_kpi q) = None \<and> kp_avg_confidence (dq_kpi q) = None \<and>
       kp_fleet_uptime_pct (dq_kpi q) \<in> {None, Some 0} \<and> dq_daily_bars q = [] \<and>
       snd ` set (dq_per_train_uptime q) \<subseteq> {0}"
    using uptime(2)
    by (auto simp: get_detection_quality_def assms(2) none Let_def avg_of_def sql_avg_def average_def
        List.map_filter_def active train_uptime_def uptime(1))
  ultimately show ?thesis
    by (simp add: get_system_health_def none latest_per_vehicle_def distinct_on_def List.map_filter_def
        get_occupancy_heatmap_def assms(2) heatmap_rows_def heatmap_events_def split: option.split)
qed

definition sample_view :: view_env where
  "sample_view = \<lparr>vw_driver = strict_driver, vw_str = (\<lambda>j. []), vw_decoded = True, vw_time_text = None\<rparr>"

theorem analytics_show_nothing_witness:
  "\<exists>S s. reach cloud_init cloud_step S \<and> dget (cd_escalations (cl_db S)) (sample_uuid 0) = Some s \<and>
     get_exceptions sample_view ''14d'' sample_time (cl_db S) = Inr []"
proof -
  obtain S s where S: "reach cloud_init cloud_step S" "dget (cd_escalations (cl_db S)) (sample_uuid 0) = Some s"
    using sample_raised by metis
  have "parse_range ''14d'' = Inr 14" by (simp add: parse_range_def of_opt_def)
  from analytics_show_nothing [OF S(1) this, of sample_view sample_time] S show ?thesis by blast
qed

section \<open>The export of the review queue\<close>

text \<open>C12: The exported queue reads back: a CSV reader finds the header and one row per review that is
  not dismissed, in order, with the fields as written whatever commas, quotes and line breaks the
  operators typed, and no field of a row begins with a character a spreadsheet takes for a formula.\<close>

theorem export_reads_back:
  "read_rows 9 (Suc (length (exported_rows db))) (snd (export_capacity_review_csv tt now db)) =
     Some (export_header # map (export_fields tt) (exported_rows db), []) \<and>
   (\<forall>q. \<forall>cell \<in> set (export_fields tt q). cell = [] \<or> hd cell \<notin> set formula_chars) \<and>
   set (exported_rows db) = {q \<in> set (cd_reviews db). rq_status (snd q) \<noteq> Dismissed}"
proof -
  have "\<forall>row \<in> set (export_header # map (export_fields tt) (exported_rows db)). row \<noteq> [] \<and> length row \<le> 9"
    by (auto simp: export_header_def export_fields_def)
  from read_rows_written [OF this, of "[]"]
  have "read_rows 9 (Suc (length (exported_rows db))) (snd (export_capacity_review_csv tt now db)) =
     Some (export_header # map (export_fields tt) (exported_rows db), [])"
    by (simp add: export_capacity_review_csv_def del: read_rows.simps)
  moreover have "cell = [] \<or> hd cell \<notin> set formula_chars" if "cell \<in> set (export_fields tt q)" for q cell
    using that csv_safe_safe unfolding export_fields_def by auto
  moreover have "set (exported_rows db) = {q \<in> set (cd_reviews db). rq_status (snd q) \<noteq> Dismissed}"
    by (auto simp: exported_rows_def)
  ultimately show ?thesis by blast
qed

definition review_db :: cloud_db where
  "review_db = init_cloud_db\<lparr>cd_reviews := [(sample_uuid 0, \<lparr>rq_route = ''RJ 42'', rq_train_id = ''T1'',
     rq_departure_date = ''2026-05-17'', rq_priority = ''high'', rq_note = Some ''=1+1, or more'', rq_queued_by = ''ops'',
     rq_queued_at = sample_time, rq_status = In_review\<rparr>)]\<rparr>"

lemma review_db_rows: "exported_rows review_db = cd_reviews review_db"
  by (simp add: exported_rows_def review_db_def)

theorem export_reads_back_witness:
  "read_rows 9 2 (snd (export_capacity_review_csv isoformat_auto sample_time review_db)) =
     Some ([export_header, map (csv_safe \<circ> Some) [sample_uuid 0, ''RJ 42'', ''T1'', ''2026-05-17'', ''high'', ''=1+1, or more'',
       ''ops'', isoformat_auto sample_time, ''in_review'']], [])"
proof -
  have "length (exported_rows review_db) = 1" unfolding review_db_rows by (simp add: review_db_def)
  then have "read_rows 9 2 (snd (export_capacity_review_csv isoformat_auto sample_time review_db)) =
      Some (export_header # map (export_fields isoformat_auto) (exported_rows review_db), [])"
    using conjunct1 [OF export_reads_back [of review_db isoformat_auto sample_time]] by (simp only: numeral_2_eq_2 One_nat_def)
  then show ?thesis unfolding review_db_rows by (simp add: review_db_def export_fields_def del: read_rows.simps)
qed

end
