(* ===== verification/Cloud_Routes.thy ===== *)
theory Cloud_Routes
  imports Cloud_Access_Facts
begin

text \<open>
  The application \<open>cloud-backend/src/cloud_backend/main.py\<close> assembles: its route table, in the
  order of the \<open>include_router\<close> calls, with the security dependencies of the routers and of the
  endpoints, and how a request passes them before its handler runs. A path is its list of
  segments; \<open>pick\<close> is how the framework chooses a route, \<open>None\<close> when no route serves the request
  (404 or 405). The pages the framework adds by itself (the schema and its viewers) and its
  redirect of a trailing slash are not in the table.
\<close>

section \<open>Routes\<close>

datatype segment = Lit string | Param

datatype dependency =
    Api_key \<comment> \<open>\<open>require_api_key\<close>\<close>
  | Current_user \<comment> \<open>\<open>get_current_user\<close>\<close>
  | Current_user_from_query \<comment> \<open>\<open>get_current_user_from_query\<close>\<close>
  | Roles "string list" \<comment> \<open>\<open>require_role(*roles)\<close>\<close>

record cloud_route =
  rt_method :: string
  rt_path :: "segment list"
  rt_depends :: "dependency list"
  rt_handler :: string

type_synonym endpoint = "string \<times> segment list \<times> dependency list \<times> string"

definition api_router :: "string list \<Rightarrow> dependency list \<Rightarrow> endpoint list \<Rightarrow> cloud_route list" where
  "api_router prefix deps es =
     map (\<lambda>(m, p, ds, h). \<lparr>rt_method = m, rt_path = map Lit prefix @ p, rt_depends = deps @ ds, rt_handler = h\<rparr>) es"

definition auth_router :: "cloud_route list" where
  "auth_router = api_router [''api'', ''v1'', ''auth''] []
     [(''POST'', [Lit ''login''], [], ''login''), (''GET'', [Lit ''me''], [Current_user], ''me'')]"

definition analytics_router :: "cloud_route list" where
  "analytics_router = api_router [''api'', ''v1'', ''analytics''] [Current_user]
     [(''GET'', [Lit ''exceptions''], [], ''get_exceptions''),
      (''GET'', [Lit ''occupancy-heatmap''], [], ''get_occupancy_heatmap''),
      (''GET'', [Lit ''dwell-time''], [], ''get_dwell_time''),
      (''GET'', [Lit ''detection-quality''], [], ''get_detection_quality''),
      (''GET'', [Lit ''system-health''], [], ''get_system_health'')]"

definition capacity_review_router :: "cloud_route list" where
  "capacity_review_router =
     api_router [''api'', ''v1'', ''analytics'', ''exceptions''] [Current_user]
       [(''POST'', [Param, Lit ''review''], [Current_user], ''review_exception''),
        (''POST'', [Param, Lit ''dismiss''], [Current_user], ''dismiss_exception''),
        (''POST'', [Param, Lit ''reopen''], [], ''reopen_exception'')] @
     api_router [''api'', ''v1'', ''capacity-review-queue''] [Current_user]
       [(''GET'', [Lit ''export''], [], ''export_capacity_review_csv'')]"

definition health_router :: "cloud_route list" where
  "health_router = api_router [] []
     [(''GET'', [Lit ''health'', Lit ''live''], [], ''health_live''), (''GET'', [Lit ''health'', Lit ''ready''], [], ''health_ready''),
      (''GET'', [Lit ''api'', Lit ''v1'', Lit ''health''], [Current_user], ''api_health'')]"

definition ingest_router :: "cloud_route list" where
  "ingest_router = api_router [''api'', ''v1'', ''events''] [Api_key] [(''POST'', [], [], ''ingest_events'')]"

definition fleet_router :: "cloud_route list" where
  "fleet_router = api_router [''api'', ''v1'', ''fleet''] [Current_user] [(''GET'', [Lit ''overview''], [], ''fleet_overview'')]"

definition alerts_router :: "cloud_route list" where
  "alerts_router = api_router [''api'', ''v1'', ''alerts''] [Current_user_from_query]
     [(''GET'', [Lit ''stream''], [], ''alerts_stream'')]"

definition admin_alert_classes_router :: "cloud_route list" where
  "admin_alert_classes_router = api_router [''api'', ''v1'', ''admin'', ''alert-classes''] [Roles [''admin'']]
     [(''POST'', [Param, Lit ''disable''], [Roles [''admin'']], ''disable_alert_class''),
      (''POST'', [Param, Lit ''enable''], [Roles [''admin'']], ''enable_alert_class''),
      (''GET'', [], [], ''list_alert_classes'')]"

definition config_router :: "cloud_route list" where
  "config_router = api_router [''api'', ''v1'', ''config''] [Current_user]
     [(''GET'', [Lit ''confidence-thresholds''], [], ''confidence_thresholds''),
      (''PATCH'', [Lit ''confidence-thresholds''], [Roles [''admin'']], ''patch_confidence_thresholds'')]"

definition ai_pipeline_router :: "cloud_route list" where
  "ai_pipeline_router = api_router [''api'', ''v1'', ''health''] [Current_user] [(''GET'', [Lit ''ai-pipeline''], [], ''ai_pipeline_health'')]"

definition ai_quality_router :: "cloud_route list" where
  "ai_quality_router = api_router [''api'', ''v1'', ''ai-quality''] [Current_user]
     [(''GET'', [Lit ''resolution-rates''], [], ''get_resolution_rates'')]"

definition maintenance_router :: "cloud_route list" where
  "maintenance_router = api_router [''api'', ''v1'', ''maintenance''] [Current_user] [(''POST'', [Lit ''tickets''], [], ''raise_ticket'')]"

definition preferences_router :: "cloud_route list" where
  "preferences_router = api_router [''api'', ''v1'', ''operators'', ''me''] [Current_user]
     [(''GET'', [Lit ''preferences''], [Current_user], ''get_preferences''),
      (''PATCH'', [Lit ''preferences''], [Current_user], ''patch_preferences'')]"

definition escalations_router :: "cloud_route list" where
  "escalations_router = api_router [''api'', ''v1'', ''escalations''] [Current_user]
     [(''POST'', [Param, Lit ''acknowledge''], [], ''acknowledge_escalation''),
      (''POST'', [Param, Lit ''resolve''], [], ''resolve_escalation''),
      (''POST'', [Param, Lit ''silently-dismissed''], [], ''silently_dismiss_escalation'')]"

definition escalations_audit_router :: "cloud_route list" where
  "escalations_audit_router = api_router [''api'', ''v1'', ''escalations-audit''] [Current_user]
     [(''GET'', [], [], ''get_escalation_funnels'')]"

definition kpi_router :: "cloud_route list" where
  "kpi_router = api_router [''api'', ''v1'', ''kpi''] [Current_user]
     [(''GET'', [Lit ''delay-minutes-avoided''], [], ''get_delay_minutes_avoided'')]"

definition users_router :: "cloud_route list" where
  "users_router = api_router [''api'', ''v1'', ''admin'', ''users''] [Roles [''admin'']]
     [(''GET'', [], [], ''list_users''), (''POST'', [], [Roles [''admin'']], ''create_user''),
      (''PATCH'', [Param], [Roles [''admin'']], ''patch_user''),
      (''POST'', [Param, Lit ''reset-password''], [Roles [''admin'']], ''reset_password'')]"

definition cloud_routes :: "cloud_route list" where
  "cloud_routes =
     auth_router @ analytics_router @ capacity_review_router @ health_router @ ingest_router @ fleet_router @
     alerts_router @ admin_alert_classes_router @ config_router @ ai_pipeline_router @ ai_quality_router @
     maintenance_router @ preferences_router @ escalations_router @ escalations_audit_router @ kpi_router @ users_router"

section \<open>Requests\<close>

record cloud_request =
  hr_method :: string
  hr_path :: "string list"
  hr_api_key :: "string option" \<comment> \<open>\<open>X-API-Key\<close>\<close>
  hr_bearer :: "string option" \<comment> \<open>the credentials of \<open>Authorization: Bearer\<close>\<close>
  hr_token :: "string option" \<comment> \<open>\<open>?token=\<close>\<close>

fun path_fits :: "segment list \<Rightarrow> string list \<Rightarrow> bool" where
  "path_fits [] [] = True"
| "path_fits (Lit s # ss) (x # xs) = (s = x \<and> path_fits ss xs)"
| "path_fits (Param # ss) (x # xs) = (x \<noteq> [] \<and> path_fits ss xs)"
| "path_fits _ _ = False"

definition serves :: "cloud_request \<Rightarrow> cloud_route \<Rightarrow> bool" where
  "serves q r \<longleftrightarrow> rt_method r = hr_method q \<and> path_fits (rt_path r) (hr_path q)"

text \<open>What the framework documents: it finds a route that serves the request if there is one.\<close>

definition picks :: "(cloud_route list \<Rightarrow> cloud_request \<Rightarrow> cloud_route option) \<Rightarrow> bool" where
  "picks pick \<longleftrightarrow>
     (\<forall>rs q. (case pick rs q of None \<Rightarrow> \<not> list_ex (serves q) rs | Some r \<Rightarrow> r \<in> set rs \<and> serves q r))"

text \<open>One dependency: the user it yields, if it is about one, or the failure that ends the request.\<close>

fun depend ::
  "jwt \<Rightarrow> (json \<Rightarrow> string) \<Rightarrow> driver \<Rightarrow> cloud_settings \<Rightarrow> datetime \<Rightarrow> cloud_request \<Rightarrow> cloud_db \<Rightarrow> dependency \<Rightarrow>
   current_user option outcome" where
  "depend J tx D F now q db Api_key = bind_res (cloud_require_api_key F (hr_api_key q)) (\<lambda>k. Inr None)"
| "depend J tx D F now q db Current_user = bind_res (get_current_user J tx D F now (hr_bearer q) db) (\<lambda>u. Inr (Some u))"
| "depend J tx D F now q db Current_user_from_query = bind_res (get_current_user J tx D F now (hr_token q) db) (\<lambda>u. Inr (Some u))"
| "depend J tx D F now q db (Roles rs) =
     bind_res (get_current_user J tx D F now (hr_bearer q) db) (\<lambda>u. bind_res (require_role rs u) (\<lambda>v. Inr (Some v)))"

fun depend_all ::
  "jwt \<Rightarrow> (json \<Rightarrow> string) \<Rightarrow> driver \<Rightarrow> cloud_settings \<Rightarrow> datetime \<Rightarrow> cloud_request \<Rightarrow> cloud_db \<Rightarrow> dependency list \<Rightarrow>
   current_user option outcome" where
  "depend_all J tx D F now q db [] = Inr None"
| "depend_all J tx D F now q db (d # ds) =
     bind_res (depend J tx D F now q db d) (\<lambda>u.
     bind_res (depend_all J tx D F now q db ds) (\<lambda>v. Inr (if v = None then u else v)))"

text \<open>The route whose handler runs, and the user it runs for.\<close>

definition admit ::
  "(cloud_route list \<Rightarrow> cloud_request \<Rightarrow> cloud_route option) \<Rightarrow> jwt \<Rightarrow> (json \<Rightarrow> string) \<Rightarrow> driver \<Rightarrow> cloud_settings \<Rightarrow>
   datetime \<Rightarrow> cloud_request \<Rightarrow> cloud_db \<Rightarrow> (cloud_route \<times> current_user option) outcome option" where
  "admit pick J tx D F now q db =
     (case pick cloud_routes q of
        None \<Rightarrow> None
      | Some r \<Rightarrow> Some (bind_res (depend_all J tx D F now q db (rt_depends r)) (\<lambda>u. Inr (r, u))))"

section \<open>Facts\<close>

lemmas router_defs = cloud_routes_def auth_router_def analytics_router_def capacity_review_router_def health_router_def
  ingest_router_def fleet_router_def alerts_router_def admin_alert_classes_router_def config_router_def
  ai_pipeline_router_def ai_quality_router_def maintenance_router_def preferences_router_def escalations_router_def
  escalations_audit_router_def kpi_router_def users_router_def api_router_def

definition open_route :: "cloud_route \<Rightarrow> bool" where
  "open_route r \<longleftrightarrow>
     (rt_method r, rt_path r) \<in> set [(''POST'', map Lit [''api'', ''v1'', ''auth'', ''login'']),
       (''GET'', map Lit [''health'', ''live'']), (''GET'', map Lit [''health'', ''ready''])]"

definition machine_route :: "cloud_route \<Rightarrow> bool" where
  "machine_route r \<longleftrightarrow> rt_method r = ''POST'' \<and> rt_path r = map Lit [''api'', ''v1'', ''events'']"

definition admin_route :: "cloud_route \<Rightarrow> bool" where
  "admin_route r \<longleftrightarrow> take 3 (rt_path r) = map Lit [''api'', ''v1'', ''admin''] \<or>
     rt_method r = ''PATCH'' \<and> rt_path r = map Lit [''api'', ''v1'', ''config'', ''confidence-thresholds'']"

text \<open>What protects a route: nothing, the machine key, a user, or an administrator.\<close>

definition protected_as :: "cloud_route \<Rightarrow> bool" where
  "protected_as r \<longleftrightarrow>
     (if open_route r then rt_depends r = []
      else if machine_route r then rt_depends r = [Api_key]
      else if admin_route r
      then rt_depends r \<in> {[Roles [''admin'']], [Roles [''admin''], Roles [''admin'']], [Current_user, Roles [''admin'']]}
      else rt_depends r \<in> {[Current_user], [Current_user, Current_user], [Current_user_from_query]})"

lemma routes_protected: "list_all protected_as cloud_routes"
  by (simp add: router_defs protected_as_def open_route_def machine_route_def admin_route_def)

lemma user_dependency_Inr:
  "get_current_user J tx D F now raw db = Inr u \<longleftrightarrow>
     verify_token J tx F now raw = Inr u \<and>
     (\<exists>k r. bind_uuid D (cu_user_id u) = Some k \<and> dget (cd_users db) k = Some r \<and> us_is_active r)"
  by (auto simp: get_current_user_def res_iff)

lemma admit_Inr:
  assumes "picks pick" "admit pick J tx D F now q db = Some (Inr (r, u))"
  shows "r \<in> set cloud_routes \<and> serves q r \<and> protected_as r \<and> depend_all J tx D F now q db (rt_depends r) = Inr u"
proof -
  from assms(2) have p: "pick cloud_routes q = Some r" and d: "depend_all J tx D F now q db (rt_depends r) = Inr u"
    by (auto simp: admit_def res_iff split: option.splits)
  have "case pick cloud_routes q of None \<Rightarrow> \<not> list_ex (serves q) cloud_routes | Some r \<Rightarrow> r \<in> set cloud_routes \<and> serves q r"
    using assms(1) unfolding picks_def by blast
  with p have r: "r \<in> set cloud_routes" "serves q r" by simp_all
  with routes_protected d show ?thesis by (simp add: list_all_iff)
qed

text \<open>No request fits two routes, so the choice of the framework is determined by what it documents.\<close>

fun overlap :: "segment list \<Rightarrow> segment list \<Rightarrow> bool" where
  "overlap [] [] = True"
| "overlap (Lit a # ss) (Lit b # ts) = (a = b \<and> overlap ss ts)"
| "overlap (Param # ss) (t # ts) = overlap ss ts"
| "overlap (s # ss) (Param # ts) = overlap ss ts"
| "overlap _ _ = False"

lemma fits_overlap: "path_fits p xs \<Longrightarrow> path_fits p' xs \<Longrightarrow> overlap p p'"
proof (induction p xs arbitrary: p' rule: path_fits.induct)
  case (2 s ss x xs)
  then obtain t ts where "p' = t # ts" by (cases p') auto
  with 2 show ?case by (cases t) auto
next
  case (3 ss x xs)
  then obtain t ts where "p' = t # ts" by (cases p') auto
  with 3 show ?case by (cases t) auto
next
  case 1
  then show ?case by (cases p') (auto elim: path_fits.elims)
qed simp_all

lemma routes_apart: "sorted_wrt (\<lambda>r s. \<not> (rt_method r = rt_method s \<and> overlap (rt_path r) (rt_path s))) cloud_routes"
  by code_simp

lemma one_route:
  assumes "r \<in> set cloud_routes" "s \<in> set cloud_routes" "serves q r" "serves q s"
  shows "r = s"
proof (rule ccontr)
  assume "r \<noteq> s"
  obtain i j where i: "i < length cloud_routes" "r = cloud_routes ! i" and j: "j < length cloud_routes" "s = cloud_routes ! j"
    using assms(1,2) by (auto simp: in_set_conv_nth)
  with \<open>r \<noteq> s\<close> have "i < j \<or> j < i" by (metis linorder_neqE_nat)
  then have "\<not> (rt_method r = rt_method s \<and> overlap (rt_path r) (rt_path s)) \<or>
      \<not> (rt_method s = rt_method r \<and> overlap (rt_path s) (rt_path r))"
    using routes_apart i j unfolding sorted_wrt_iff_nth_less by blast
  then show False using assms(3,4) fits_overlap by (auto simp: serves_def)
qed

lemma pick_determined:
  assumes "picks pick" "picks pick'"
  shows "pick cloud_routes q = pick' cloud_routes q"
proof -
  have p: "case pick cloud_routes q of None \<Rightarrow> \<not> list_ex (serves q) cloud_routes | Some r \<Rightarrow> r \<in> set cloud_routes \<and> serves q r"
    "case pick' cloud_routes q of None \<Rightarrow> \<not> list_ex (serves q) cloud_routes | Some r \<Rightarrow> r \<in> set cloud_routes \<and> serves q r"
    using assms unfolding picks_def by blast+
  then show ?thesis
    by (cases "pick cloud_routes q"; cases "pick' cloud_routes q") (auto simp: list_ex_iff dest: one_route)
qed

end
