(* ===== verification/Cloud_Route_Properties.thy ===== *)
theory Cloud_Route_Properties
  imports Cloud_Access_Properties Cloud_Routes
begin

text \<open>The properties of access to the assembled application of \<open>cloud-backend\<close>.\<close>

section \<open>Who gets through\<close>

text \<open>The account a request acts for: the one its token names.\<close>

definition acts_for ::
  "jwt \<Rightarrow> (json \<Rightarrow> string) \<Rightarrow> driver \<Rightarrow> cloud_settings \<Rightarrow> datetime \<Rightarrow> cloud_request \<Rightarrow> string \<Rightarrow> bool" where
  "acts_for J tx D F now q k \<longleftrightarrow>
     (\<exists>raw u. raw \<in> {hr_bearer q, hr_token q} \<and> verify_token J tx F now raw = Inr u \<and> bind_uuid D (cu_user_id u) = Some k)"

lemma admitted_user:
  assumes "picks pick" "admit pick J tx D F now q db = Some (Inr (r, u))" "\<not> open_route r" "\<not> machine_route r"
  obtains raw cu k row where "raw \<in> {hr_bearer q, hr_token q}" "u = Some cu" "verify_token J tx F now raw = Inr cu"
    "bind_uuid D (cu_user_id cu) = Some k" "dget (cd_users db) k = Some row" "us_is_active row"
    "admin_route r \<longrightarrow> cu_role cu = ''admin''"
proof -
  note a = admit_Inr [OF assms(1,2)]
  have "\<exists>raw cu. raw \<in> {hr_bearer q, hr_token q} \<and> u = Some cu \<and> get_current_user J tx D F now raw db = Inr cu \<and>
      (admin_route r \<longrightarrow> cu_role cu = ''admin'')"
    using a assms(3,4) by (auto simp: protected_as_def res_iff require_role_def split: if_splits) blast+
  then show ?thesis using that by (auto simp: user_dependency_Inr)
qed

text \<open>C15: No request reaches a handler unauthorised: apart from the login and the two probes (and
  the schema pages the framework adds by itself, which are no route of the source), the route of a request that is served belongs to the table, and either it is the ingest and the
  request carries the configured machine key, which is not empty, or the request carries a token
  that verifies for an account that exists and is active at that moment; the routes that manage
  users and alert classes and the edit of the thresholds ask in addition for the role
  \<open>admin\<close> in that token.\<close>

theorem every_request_authorised:
  assumes "picks pick" "admit pick J tx D F now q db = Some (Inr (r, u))" "\<not> open_route r"
  shows "r \<in> set cloud_routes \<and> serves q r \<and>
    (if machine_route r then hr_api_key q = Some (cf_api_key F) \<and> cf_api_key F \<noteq> []
     else (\<exists>k row cu. acts_for J tx D F now q k \<and> dget (cd_users db) k = Some row \<and> us_is_active row \<and>
             u = Some cu \<and> bind_uuid D (cu_user_id cu) = Some k \<and> (admin_route r \<longrightarrow> cu_role cu = ''admin'')))"
proof (cases "machine_route r")
  case True
  note a = admit_Inr [OF assms(1,2)]
  with True assms(3) have "cloud_require_api_key F (hr_api_key q) \<noteq> Inl (Http 401 ''UNAUTHORIZED'')"
    by (auto simp: protected_as_def res_iff)
  then have "hr_api_key q = Some (cf_api_key F) \<and> cf_api_key F \<noteq> []"
    by (cases "hr_api_key q") (auto simp: cloud_require_api_key_def truthy_def keep_or_def split: if_splits)
  with a True show ?thesis by simp
next
  case False
  from admitted_user [OF assms False] obtain raw cu k row where "raw \<in> {hr_bearer q, hr_token q}" "u = Some cu"
    "verify_token J tx F now raw = Inr cu" "bind_uuid D (cu_user_id cu) = Some k" "dget (cd_users db) k = Some row"
    "us_is_active row" "admin_route r \<longrightarrow> cu_role cu = ''admin''" .
  then have "\<exists>k row cu. acts_for J tx D F now q k \<and> dget (cd_users db) k = Some row \<and> us_is_active row \<and>
      u = Some cu \<and> bind_uuid D (cu_user_id cu) = Some k \<and> (admin_route r \<longrightarrow> cu_role cu = ''admin'')"
    unfolding acts_for_def by blast
  with False admit_Inr [OF assms(1,2)] show ?thesis by simp
qed

definition find_route :: "cloud_route list \<Rightarrow> cloud_request \<Rightarrow> cloud_route option" where
  "find_route rs q = List.find (serves q) rs"

lemma find_route_picks: "picks find_route"
  unfolding picks_def find_route_def by (auto simp: find_None_iff find_Some_iff list_ex_iff split: option.split)

text \<open>A request to the user with the id \<open>i\<close>, with a token.\<close>

definition patch_request :: "string \<Rightarrow> string \<Rightarrow> cloud_request" where
  "patch_request i tok = \<lparr>hr_method = ''PATCH'', hr_path = [''api'', ''v1'', ''admin'', ''users'', i], hr_api_key = None,
     hr_bearer = Some tok, hr_token = None\<rparr>"

lemma patch_route_only:
  assumes "r \<in> set cloud_routes" "serves (patch_request i tok) r"
  shows "rt_handler r = ''patch_user'' \<and> rt_depends r = [Roles [''admin''], Roles [''admin'']]"
  using assms by (auto simp: router_defs serves_def patch_request_def)

lemma patch_route_served: "i \<noteq> [] \<Longrightarrow> list_ex (serves (patch_request i tok)) cloud_routes"
  by (simp add: router_defs serves_def patch_request_def)

lemma patch_request_admitted:
  assumes "picks pick" "i \<noteq> []" "get_current_user J tx D F t (Some tok) db = Inr u" "cu_role u = ''admin''"
  shows "\<exists>r. admit pick J tx D F t (patch_request i tok) db = Some (Inr (r, Some u)) \<and> rt_handler r = ''patch_user''"
proof -
  have "case pick cloud_routes (patch_request i tok) of None \<Rightarrow> \<not> list_ex (serves (patch_request i tok)) cloud_routes
      | Some r \<Rightarrow> r \<in> set cloud_routes \<and> serves (patch_request i tok) r"
    using assms(1) unfolding picks_def by blast
  then obtain r where r: "pick cloud_routes (patch_request i tok) = Some r" "r \<in> set cloud_routes"
    "serves (patch_request i tok) r"
    using patch_route_served [OF assms(2), of tok] by (auto split: option.splits)
  from patch_route_only [OF r(2,3)] assms(3,4) r(1) have
    "admit pick J tx D F t (patch_request i tok) db = Some (Inr (r, Some u))"
    by (simp add: admit_def require_role_def patch_request_def)
  with patch_route_only [OF r(2,3)] show ?thesis by blast
qed

lemma sample_gate:
  "get_current_user (sample_jwt sample_claims) tx strict_driver sample_settings t (Some ''tsecret'') db =
     assert_user_active strict_driver db \<lparr>cu_user_id = sample_uuid 0, cu_username = ''ops'', cu_role = ''admin''\<rparr>"
  by (simp add: get_current_user_def verify_token_def sample_jwt_def sample_settings_def sample_claims_def token_claims_def)

theorem every_request_authorised_witness:
  "\<exists>r u. admit find_route (sample_jwt sample_claims) (\<lambda>j. []) strict_driver sample_settings sample_time
       (patch_request (sample_uuid 0) ''tsecret'') sample_users = Some (Inr (r, u)) \<and> r \<in> set cloud_routes"
proof -
  have g: "get_current_user (sample_jwt sample_claims) (\<lambda>j. []) strict_driver sample_settings sample_time (Some ''tsecret'') sample_users =
      Inr \<lparr>cu_user_id = sample_uuid 0, cu_username = ''ops'', cu_role = ''admin''\<rparr>"
    unfolding sample_gate using sample_bind by (simp add: assert_user_active_def sample_users_def)
  have "sample_uuid 0 \<noteq> []" by (simp add: sample_uuid_def)
  from patch_request_admitted [OF find_route_picks this g]
  obtain r where r: "admit find_route (sample_jwt sample_claims) (\<lambda>j. []) strict_driver sample_settings sample_time
      (patch_request (sample_uuid 0) ''tsecret'') sample_users =
      Some (Inr (r, Some \<lparr>cu_user_id = sample_uuid 0, cu_username = ''ops'', cu_role = ''admin''\<rparr>))" "rt_handler r = ''patch_user''"
    by auto
  from r(1) have "r \<in> set cloud_routes" using admit_Inr [OF find_route_picks] by blast
  then have "list_all (\<lambda>r. open_route r \<longrightarrow> rt_handler r \<noteq> ''patch_user'') cloud_routes \<Longrightarrow> \<not> open_route r"
    using r(2) by (auto simp: list_all_iff)
  moreover have "list_all (\<lambda>r. open_route r \<longrightarrow> rt_handler r \<noteq> ''patch_user'') cloud_routes"
    by (simp add: router_defs open_route_def)
  ultimately show ?thesis using every_request_authorised [OF find_route_picks r(1)] r(1) by blast
qed

section \<open>Accounts that change\<close>

text \<open>C16: A deactivation takes effect at once and everywhere: after an administrator's patch has
  deactivated an account, no request whose tokens name that account is let through to any handler
  except the login and the probes, and the ingest with the machine key, however long the tokens
  are still valid.\<close>

theorem deactivation_bites:
  assumes "picks pick" "patch_user D cu i \<lparr>up_role = None, up_is_active = Some False\<rparr> db = (Inr out, db')"
    and "bind_uuid D i = Some k" "\<forall>l. acts_for J tx D F now q l \<longrightarrow> l = k"
    and "admit pick J tx D F now q db' = Some (Inr (r, u))"
  shows "open_route r \<or> machine_route r"
proof (rule ccontr)
  assume n: "\<not> (open_route r \<or> machine_route r)"
  then have "\<not> open_route r" "\<not> machine_route r" by simp_all
  from admitted_user [OF assms(1,5) this] obtain raw cu' l row where a: "raw \<in> {hr_bearer q, hr_token q}"
    "verify_token J tx F now raw = Inr cu'" "bind_uuid D (cu_user_id cu') = Some l" "dget (cd_users db') l = Some row"
    "us_is_active row" .
  then have "acts_for J tx D F now q l" by (auto simp: acts_for_def)
  with assms(4) have "l = k" by blast
  moreover have "\<not> us_is_active row" if "dget (cd_users db') k = Some row" for row
    using assms(2,3) that
    by (auto simp: patch_user_def user_patch_ok_def load_user_Inr patch_user_after_def Let_def new_role_def new_active_def
        user_out_def set_user_def res_iff bind_id_def split: if_splits sum.splits option.splits)
  ultimately show False using a(4,5) by blast
qed

definition login_request :: "string \<Rightarrow> cloud_request" where
  "login_request tok = \<lparr>hr_method = ''POST'', hr_path = [''api'', ''v1'', ''auth'', ''login''], hr_api_key = None,
     hr_bearer = Some tok, hr_token = None\<rparr>"

lemma login_admitted: "\<exists>r. admit find_route J tx D F now (login_request tok) db = Some (Inr (r, None))"
  by (simp add: admit_def find_route_def serves_def login_request_def router_defs)

definition second_admin :: current_user where
  "second_admin = \<lparr>cu_user_id = sample_uuid 1, cu_username = ''two'', cu_role = ''admin''\<rparr>"

definition two_admins :: cloud_db where
  "two_admins = init_cloud_db\<lparr>cd_users := [(sample_uuid 0, sample_admin), (sample_uuid 1, sample_admin\<lparr>us_username := ''two''\<rparr>)]\<rparr>"

lemma second_bind: "bind_uuid strict_driver (sample_uuid 1) = Some (sample_uuid 1)" "sample_uuid 1 \<noteq> sample_uuid 0"
  using sample_uuid_ok [of 1] by (simp_all add: strict_driver_def sample_uuid_def lower_char_def)

lemma two_admins_patched:
  assumes "p = \<lparr>up_role = None, up_is_active = Some False\<rparr> \<or> p = \<lparr>up_role = Some Operator, up_is_active = None\<rparr>"
  shows "\<exists>out db'. patch_user strict_driver second_admin (sample_uuid 0) p two_admins = (Inr out, db')"
proof -
  have "\<not> would_orphan_admins two_admins (sample_uuid 0)"
    using second_bind(2) by (auto simp: would_orphan_admins_def active_admins_def two_admins_def)
  with assms show ?thesis
    using sample_bind second_bind
    by (auto simp: patch_user_def user_patch_ok_def load_user_def bind_id_def patch_user_after_def Let_def new_role_def
        new_active_def user_out_def set_user_def two_admins_def second_admin_def)
qed

theorem deactivation_bites_witness:
  "\<exists>out db' r. patch_user strict_driver second_admin (sample_uuid 0) \<lparr>up_role = None, up_is_active = Some False\<rparr> two_admins =
       (Inr out, db') \<and>
     admit find_route (sample_jwt sample_claims) (\<lambda>j. []) strict_driver sample_settings sample_time (login_request ''tsecret'') db' =
       Some (Inr (r, None)) \<and> (open_route r \<or> machine_route r)"
proof -
  obtain out db' where p: "patch_user strict_driver second_admin (sample_uuid 0) \<lparr>up_role = None, up_is_active = Some False\<rparr>
      two_admins = (Inr out, db')" using two_admins_patched by blast
  obtain r where r: "admit find_route (sample_jwt sample_claims) (\<lambda>j. []) strict_driver sample_settings sample_time
      (login_request ''tsecret'') db' = Some (Inr (r, None))" using login_admitted by blast
  have v: "verify_token (sample_jwt sample_claims) (\<lambda>j. []) sample_settings sample_time None = Inl unauthorized"
    "verify_token (sample_jwt sample_claims) (\<lambda>j. []) sample_settings sample_time (Some ''tsecret'') =
      Inr \<lparr>cu_user_id = sample_uuid 0, cu_username = ''ops'', cu_role = ''admin''\<rparr>"
    by (simp_all add: verify_token_def sample_jwt_def sample_settings_def sample_claims_def token_claims_def)
  have "\<forall>l. acts_for (sample_jwt sample_claims) (\<lambda>j. []) strict_driver sample_settings sample_time (login_request ''tsecret'') l
      \<longrightarrow> l = sample_uuid 0"
    using sample_bind v by (auto simp: acts_for_def login_request_def)
  from deactivation_bites [OF find_route_picks p sample_bind this r] p r show ?thesis by blast
qed

text \<open>C17: A demotion waits for the token: an administrator who is demoted keeps, until the token
  issued before the demotion expires, what the token says: the patch of the user endpoints still
  admits the account as an administrator although its row says operator, and with that very
  request it makes itself administrator again.\<close>

theorem demotion_waits:
  assumes "picks pick" "jwt_ok J (token_claims F now k n ''admin'')"
    and "create_access_token J F now k n ''admin'' = Inr tok"
    and "dget (cd_users db) k = Some row" "us_is_active row" "us_role row = Admin" "bind_uuid D k = Some k" "k \<noteq> []"
    and "patch_user D cu k \<lparr>up_role = Some Operator, up_is_active = None\<rparr> db = (Inr out, db')"
    and "not_after now t" "since_epoch t < (since_epoch now + cf_jwt_ttl_minutes F * 60000000) div 1000000 * 1000000"
  shows "\<exists>r out' db2 row'. dget (cd_users db') k = Some row' \<and> us_role row' = Operator \<and>
    admit pick J tx D F t (patch_request k tok) db' =
      Some (Inr (r, Some \<lparr>cu_user_id = k, cu_username = n, cu_role = ''admin''\<rparr>)) \<and> rt_handler r = ''patch_user'' \<and>
    patch_user D \<lparr>cu_user_id = k, cu_username = n, cu_role = ''admin''\<rparr> k \<lparr>up_role = Some Admin, up_is_active = None\<rparr> db' =
      (Inr out', db2) \<and> uo_role out' = Admin"
proof -
  let ?u = "\<lparr>cu_user_id = k, cu_username = n, cu_role = ''admin''\<rparr>"
  let ?row = "row\<lparr>us_role := Operator\<rparr>"
  have row: "dget (cd_users db') k = Some ?row"
    using assms(4,6,7,9)
    by (auto simp: patch_user_def user_patch_ok_def load_user_Inr patch_user_after_def Let_def new_role_def new_active_def
        user_out_def set_user_def res_iff bind_id_def split: if_splits sum.splits option.splits)
  have "cf_jwt_secret F \<noteq> []" using assms(3) by (auto simp: create_access_token_def)
  then have "verify_token J tx F t (Some tok) = Inr ?u" using assms(10,11,3) by (intro token_verifies [OF assms(2)])
  with row assms(5,7) have "get_current_user J tx D F t (Some tok) db' = Inr ?u" by (simp add: user_dependency_Inr)
  from patch_request_admitted [OF assms(1,8) this] obtain r where
    r: "admit pick J tx D F t (patch_request k tok) db' = Some (Inr (r, Some ?u))" "rt_handler r = ''patch_user''" by auto
  have "\<exists>out' db2. patch_user D ?u k \<lparr>up_role = Some Admin, up_is_active = None\<rparr> db' = (Inr out', db2) \<and> uo_role out' = Admin"
    using row assms(7)
    by (simp add: patch_user_def user_patch_ok_def load_user_def bind_id_def patch_user_after_def Let_def new_role_def
        new_active_def user_out_def set_user_def)
  then obtain out' db2 where "patch_user D ?u k \<lparr>up_role = Some Admin, up_is_active = None\<rparr> db' = (Inr out', db2)"
    "uo_role out' = Admin" by blast
  then show ?thesis using row r
    by (intro exI [of _ r] exI [of _ out'] exI [of _ db2] exI [of _ ?row]) simp
qed

theorem demotion_waits_witness:
  "\<exists>out db' r u. patch_user strict_driver second_admin (sample_uuid 0) \<lparr>up_role = Some Operator, up_is_active = None\<rparr> two_admins =
       (Inr out, db') \<and>
     admit find_route (sample_jwt sample_claims) (\<lambda>j. []) strict_driver sample_settings sample_time
       (patch_request (sample_uuid 0) ''tsecret'') db' = Some (Inr (r, u))"
proof -
  obtain out db' where p: "patch_user strict_driver second_admin (sample_uuid 0) \<lparr>up_role = Some Operator, up_is_active = None\<rparr>
      two_admins = (Inr out, db')" using two_admins_patched by blast
  have j: "jwt_ok (sample_jwt sample_claims) (token_claims sample_settings sample_time (sample_uuid 0) ''ops'' ''admin'')"
    by (simp add: jwt_ok_def sample_jwt_def sample_claims_def)
  have tok: "create_access_token (sample_jwt sample_claims) sample_settings sample_time (sample_uuid 0) ''ops'' ''admin'' =
      Inr ''tsecret''"
    by (simp add: create_access_token_def sample_settings_def sample_jwt_def)
  have row: "dget (cd_users two_admins) (sample_uuid 0) = Some sample_admin" by (simp add: two_admins_def)
  have ne: "sample_uuid 0 \<noteq> []" by (simp add: sample_uuid_def)
  have t: "not_after sample_time sample_time" by (simp add: not_after_def)
  have x: "since_epoch sample_time < (since_epoch sample_time + cf_jwt_ttl_minutes sample_settings * 60000000) div 1000000 * 1000000"
    by (simp add: sample_settings_def)
  from demotion_waits [OF find_route_picks j tok row sample_admin_simps(3,2) sample_bind ne p t x] p
  show ?thesis by blast
qed

end
