(* ===== verification/Spec2Isabelle.thy ===== *)
theory Spec2Isabelle
  imports Train_Contracts Shared_Properties Fusion_Properties Infer_Pipeline_Properties Store_Properties Sync_Properties Polling_Properties
    Cloud_Properties Cloud_Access_Properties Cloud_Report_Properties Cloud_View_Properties
    Cloud_Route_Properties
begin

text \<open>
  A verification development for the services of the smart-rail platform, on the train and
  landside, in Python under \<open>src/\<close>. The cameras of a train feed the \<^emph>\<open>inference\<close> container, which
  counts people per coach, watches the gangways and doors, and posts events to the
  \<^emph>\<open>event-store\<close> and candidates to the \<^emph>\<open>fusion\<close> container. The
  \<^emph>\<open>vlan-pollers\<close> read alarms, timetable and reservations off the train network and push them
  to fusion and inference; \<^emph>\<open>rtsp-ingest\<close> sets the frame rates of the cameras. Fusion joins the
  candidates with what the train network says about doors, speed, journey and depot, keeps a
  closed ledger of passengers per coach, and posts alerts and observations of its own. The
  event-store keeps every event once, serves the driver's display over a websocket and the
  \<^emph>\<open>cloud-sync\<close> container over HTTP, which queues the events and publishes them to the
  landside broker. \<^emph>\<open>cloud-backend\<close> stores them landside, shows the alerts to the operators and
  keeps the escalations, the users and the settings. What leaves the train passes the egress anonymiser of the
  \<^emph>\<open>shared\<close> package, which also defines the event envelope and the payload classes all
  services validate with.

  \<^bold>\<open>Theories and code.\<close>
  \<^item> \<open>Py_Base\<close>, \<open>Py_Text\<close>, \<open>Py_Time\<close>, \<open>Py_Calendar\<close>: the Python the code uses: exceptions as
    values (\<open>'a res = exn + 'a\<close>), dictionaries in insertion order, string operations, UTC
    instants and their ISO form, the ISO weeks; the locales \<open>keyed_store\<close> (a dictionary or a table) and
    \<open>invariant_system\<close> (a transition system with an invariant).
  \<^item> \<open>Event_Types\<close>, \<open>Event_Payloads\<close>, \<open>Event_Payload_Facts\<close>, \<open>Event_Envelope\<close>,
    \<open>Event_Anonymise\<close>: \<open>shared/src/oebb_shared/events\<close>. A payload class is a list of field
    specifications, \<open>validate_payload\<close> is \<open>model_validate\<close>, \<open>model_dump\<close> the serialiser.
  \<^item> \<open>Shared_Interfaces\<close>: the rest of \<open>shared\<close>, and the network: \<open>http_post\<close> gives a
    request one of three fates (stored and acknowledged, stored with the reply lost, not
    delivered), \<open>w_sent\<close> logs what reached the other side.
  \<^item> \<open>Fusion_State\<close> (\<open>context_state.py\<close>, \<open>models.py\<close>, \<open>config.py\<close>), \<open>Fusion_Enrich\<close>
    (\<open>enrichment.py\<close>), \<open>Fusion_Suppress\<close> (\<open>suppression.py\<close>), \<open>Fusion_Ledger\<close>
    (\<open>ledger.py\<close>) with \<open>Fusion_Ledger_Facts\<close> and \<open>Fusion_Ledger_Spec\<close>,
    \<open>Fusion_Comfort\<close> (\<open>comfort_index.py\<close>), \<open>Fusion_Handlers\<close> (\<open>door_obstruction.py\<close>,
    \<open>accessibility.py\<close>, \<open>occupancy.py\<close>), \<open>Fusion_App\<close> (\<open>health.py\<close>, \<open>main.py\<close>) with
    \<open>Fusion_App_Facts\<close>: \<open>fusion/src/fusion\<close>. \<open>fusion_handle\<close> is the container: a
    request and a state give a response and a state.
  \<^item> \<open>Infer_Base\<close>, \<open>Infer_Geometry\<close>, \<open>Infer_Counter\<close> (\<open>zone_counter.py\<close>) with
    \<open>Infer_Counter_Facts\<close>, \<open>Infer_Tripwire\<close> (\<open>tripwire.py\<close>), \<open>Infer_Callback\<close>
    (\<open>callback.py\<close>), \<open>Infer_Control\<close> (\<open>budget.py\<close>, \<open>health.py\<close>, \<open>heartbeat.py\<close>,
    \<open>safety.py\<close>, \<open>model_provenance.py\<close>, \<open>main.py\<close>), \<open>Infer_Pipeline\<close> (\<open>pipeline.py\<close>, \<open>main.py\<close>):
    \<open>inference/src/inference\<close>.
  \<^item> \<open>Store_Database\<close> (\<open>database.py\<close>, \<open>schema.sql\<close>, \<open>sync/cursor.py\<close>) with
    \<open>Store_Facts\<close>, \<open>Store_Routes\<close> (\<open>routes/\<close>, \<open>auth.py\<close>, \<open>config.py\<close>,
    \<open>egress_privacy.py\<close>, \<open>main.py\<close>), \<open>Store_Live\<close> (\<open>websocket/\<close>) with
    \<open>Store_Live_Facts\<close>: \<open>event-store/src/event_store\<close>. \<open>store_handle\<close> is the service over
    HTTP, \<open>server_step\<close> interleaves it with the connections.
  \<^item> \<open>Sync_Queue\<close> (\<open>db.py\<close>, \<open>schema.sql\<close>), \<open>Sync_Publish\<close> (\<open>mqtt_client.py\<close>),
    \<open>Sync_Loops\<close> (\<open>config.py\<close>, \<open>event_store_client.py\<close>, \<open>pull_loop.py\<close>,
    \<open>ack_loop.py\<close>, \<open>health.py\<close>), \<open>Sync_Pull\<close> (the pull loop against an event-store) and
    \<open>Sync_Train\<close> (\<open>main.py\<close>: all three loops, the event-store and the broker):
    \<open>cloud-sync/src/cloud_sync\<close>.
  \<^item> \<open>Vlan_Decoder\<close> (\<open>snmp_decoder.py\<close>), \<open>Vlan_Context\<close> (\<open>models.py\<close>,
    \<open>context_state.py\<close>, \<open>journey_tracker.py\<close>), \<open>Vlan_Pollers\<close> (the pollers,
    \<open>main.py\<close>) with \<open>Vlan_Facts\<close>, \<open>Vlan_Service\<close>, \<open>Vlan_Alarms\<close>,
    \<open>Vlan_Watch\<close>: \<open>vlan-pollers/src/vlan_pollers\<close>. \<open>vlan_step\<close> is a round of one
    of its tasks, run to its end. \<open>Fusion_Push\<close> reads its pushes as fusion does, \<open>Vlan_Contracts\<close> sets the
    two sides against each other; its \<open>polling_step\<close> interleaves the tasks at the awaits of their
    posts.
  \<^item> \<open>Rtsp_Ingest\<close> with \<open>Rtsp_Facts\<close>: \<open>rtsp-ingest/src/rtsp_ingest\<close>, the scheduler, the
    gate, the stream events.
  \<^item> \<open>Cloud_Database\<close> (\<open>migrations/\<close>, \<open>api/error_handlers.py\<close>), \<open>Cloud_Cache\<close>
    (\<open>services/fanout_filter.py\<close>, \<open>config/confidence_thresholds.py\<close>), \<open>Cloud_Alerts\<close>
    (\<open>routes/alerts_sse.py\<close>), \<open>Cloud_Ingest\<close> (\<open>routes/ingest.py\<close>,
    \<open>services/heartbeat_ingest.py\<close>) with \<open>Cloud_Ingest_Facts\<close>, \<open>Cloud_Escalations\<close>
    (\<open>routes/escalations.py\<close>, \<open>services/escalation_audit.py\<close>), \<open>Cloud_Access\<close>
    (\<open>api/auth.py\<close>, \<open>api/users.py\<close>, \<open>routes/auth.py\<close>, \<open>routes/users.py\<close>,
    \<open>routes/preferences.py\<close>) with \<open>Cloud_Access_Facts\<close>, \<open>Cloud_Config\<close>
    (\<open>routes/config.py\<close>, \<open>routes/health.py\<close>, \<open>routes/admin_alert_classes.py\<close>,
    \<open>routes/ai_pipeline.py\<close>, \<open>routes/maintenance.py\<close>), \<open>Cloud_Reports\<close>
    (\<open>routes/escalations_audit.py\<close>, \<open>routes/ai_quality.py\<close>, \<open>routes/kpi.py\<close>,
    \<open>services/ai_quality_rates.py\<close>, \<open>services/delay_minutes_avoided.py\<close>,
    \<open>services/alert_effectiveness_report.py\<close>) with \<open>Cloud_Report_Facts\<close>, \<open>Cloud_Fleet\<close>
    (\<open>routes/fleet.py\<close>) and \<open>Cloud_Analytics\<close> (\<open>routes/analytics.py\<close>) with
    \<open>Cloud_View_Facts\<close>, \<open>Cloud_Reviews\<close> (\<open>routes/capacity_review.py\<close>), \<open>Cloud_Routes\<close> (\<open>main.py\<close>) and \<open>Cloud_System\<close>:
    \<open>cloud-backend/src/cloud_backend\<close>. A handler takes the service's state and gives an answer
    and a state; \<open>cloud_step\<close> is any request that changes a table, a queue or a cache.
  \<^item> \<open>Train_Contracts\<close>: what one container sends set against what the other accepts,
    and where it sends it by default.
  \<^item> \<open>Shared_Properties\<close>, \<open>Fusion_Properties\<close>, \<open>Infer_Properties\<close>, \<open>Infer_Pipeline_Properties\<close>, \<open>Store_Properties\<close>,
    \<open>Sync_Properties\<close>, \<open>Polling_Properties\<close>, \<open>Cloud_Properties\<close>,
    \<open>Cloud_Access_Properties\<close>, \<open>Cloud_Report_Properties\<close>, \<open>Cloud_View_Properties\<close>,
    \<open>Cloud_Route_Properties\<close> and this theory: the properties, each with a concrete instance.

  \<^bold>\<open>What the lemmas show.\<close> The ledger engine refines an abstract ledger of three functions and
  keeps table and memory equal in every reachable state; fusion sends nothing but valid
  envelopes of its own, and nothing but JOURNEY_ENDED while suppressed; the anonymiser hides
  track and camera of the four track-bearing types, keeps the schema valid and fails closed, and
  releases the other types as they are;
  envelopes and payloads round trip; the counter's hysteresis, its one-chain-per-coach rule and
  the rate limits hold over any interleaving; a track is counted once per crossing, and a
  crossing reaches the ledger as it was seen; the frames of a camera reach its own callback, and
  the readiness answer tells which cameras deliver; the event-store is idempotent as long as
  truncation has not deleted the event, its pages are complete and its live feed shows each matching
  event once, with the same exception; an event that cloud-sync has taken into its queue
  is published or still queued, whatever fails; fusion's context follows that of the pollers once their
  newest pushes have arrived in order, and the alarm events follow the alarm table; landside a batch stores each event
  once and shows the alerts that are not withheld, the kill-switch decides as its table says over every interleaving of
  loads and writes, except for a call whose own load a write has overtaken, the audit rows spell the life of an escalation and the accounts, the funnels
  counted from them agree with the escalation table, each row is in the report of exactly one
  week, no request reaches a handler without the machine key or a token of a live account, the fleet overview lists exactly the cars that reported and shows the worst severity and the newest occupancy of each, and the
  exported review queue reads back. Other properties state where the code falls short
  of its own documentation, and are proved of the code as it is.

  \<^bold>\<open>Interfaces.\<close> \<open>keyed_store\<close> is interpreted on the dictionary operations,
  \<open>invariant_system\<close> on the ledger, the whole fusion container, the counter, the tripwire,
  the heartbeat and the multiplexed pipeline (\<open>camera_run\<close>), and (as \<open>stores\<close>, \<open>live\<close>, \<open>trains\<close>, \<open>pollers\<close>, \<open>alarms\<close>, \<open>polled\<close>,
  \<open>tripless\<close>, \<open>landside\<close>, \<open>admins\<close>, \<open>trail\<close>) on the event-store, its live server, the train with cloud-sync, the
  pollers, cloud-backend and its user endpoints, \<open>guarded_cache\<close> on the two caches of cloud-backend,
  \<open>delta_update\<close> on the five context updates of the pollers, \<open>rate_limiter\<close> on the three rate limits of the inference container; the
  reader of the payload library is the parameter \<open>pydantic\<close> with the documented laws
  \<open>pyd_ok\<close> (a value of the right type is accepted as it is), shown consistent by
  \<open>strict_pydantic\<close>; event ids are a parameter stream of version 4 UUIDs (\<open>env_ok\<close>).

  \<^bold>\<open>Bounds.\<close> A request is tried five times (\<open>default_attempts\<close>, \<open>http/retry.py\<close>): the
  recursion of \<open>retry_post\<close> and \<open>retry_call\<close> is on that number, so every emission ends. The
  tripwire remembers 2000 tracks (\<open>last_side_max\<close>). All other loops run over finite lists; the loops of cloud-sync that never end are
  the steps of \<open>train_step\<close>, or \<open>pull_turns\<close> for a given number of rounds.

  \<^bold>\<open>Abstractions.\<close> Floating point numbers are exact rationals. A clock is a function from the
  number of the attempt to its reading; the waiting between retries is not modelled. A fusion handler is one step, so
  two handlers do not interleave at an await, except where \<open>Fusion_Comfort\<close> shows such an
  interleaving to break its invariant; the updates of the zone counter and the heartbeat do
  interleave, at the awaits of the code, and so do the connections of the event-store, the
  loops of cloud-sync, the tasks of the pollers where they push to fusion (\<open>polling_step\<close>; the alarm
  events are stated of rounds run to their end), and the calls of the kill-switch filter
  (\<open>decision_step\<close>; a batch of events uses the call nothing interrupts). Fields that only the statements need record history: what a connection
  was shown (\<open>cn_known\<close>), which events were deleted (\<open>srv_gone\<close>) and of those which were taken again
  (\<open>srv_again\<close>), what was ever taken into the queue (\<open>tr_taken\<close>), which pushes were computed
  and in which order they arrived (\<open>po_computed\<close>, \<open>po_arrived\<close>), the tables since a load
  began (\<open>cw_seen\<close>). SQLite and PostgreSQL are tables of rows with the
  constraints of their schemas; a handler of cloud-backend is one transaction, and where it reads
  before it writes its second half is a step of its own. How the PostgreSQL driver reads a bound
  value, PyJWT and bcrypt are parameters (\<open>driver\<close>, \<open>jwt\<close>, \<open>bcrypt\<close>), so is the web
  framework's choice of a route (\<open>in_order\<close>, \<open>picks\<close> state what it documents), and so is what differs
  between the migrated tables and those of the integration tests (\<open>view_env\<close>). Text is ordered by
  its bytes. Log output is left out.

  \<^bold>\<open>Not modelled.\<close> GStreamer and the Hailo elements behind the pipeline string; the start-up
  code of the other containers beyond the state it builds; the upgrade of a landside database that
  already holds rows (the model starts from the tables all migrations end with); the connection pool of cloud-backend
  (\<open>database.py\<close>); the control centre, in another language.
\<close>

section \<open>Properties that span the containers\<close>

text \<open>C25: A crossing reaches the ledger as it was seen: on a working network, a confident
  crossing of a known track at a forward gangway camera sends the WAGON_EXIT event and the
  candidate, in that order, and fusion answers 202 and books exactly that exit (track, coaches,
  direction, confidence) in its ledger, whatever state it is in.\<close>

theorem crossing_reaches_ledger:
  assumes "env_ok E" "tripwire_named tw" "tw_zone tw \<noteq> ''gangway-aft''"
    and "net E (w_tick w) = Acked" "net E (Suc (w_tick w)) = Acked"
    and "confident (Some conf)" "conf \<le> 1"
    and "dget (tw_last_side tw) t = Some From_side"
    and "centroid_side (tc_polygon (tw_config tw)) ((x0 + x1) / 2) ((y0 + y1) / 2) = To_side"
    and "infer_envelope E S j (uuids E (w_uuids w)) (now (w_uuids w)) WAGON_EXIT (exit_kwargs tw t From_to conf False) Sev_info = Inr e"
    and "handle_detection E S j now tw t (x0, y0, x1, y1) (Some conf) w = (r, tw', w')"
    and "pyd_ok (pyd F)"
  shows "r = Inr () \<and>
    w_sent w' = w_sent w @ [PostEvent e, PostFusion ''/candidates/wagon_exit'' (exit_kwargs tw t From_to conf False)] \<and>
    dhas (tw_pending tw') t \<and>
    fusion_handle F FS fnow tick (Post_wagon_exit (exit_kwargs tw t From_to conf False)) A =
      (Accepted, A\<lparr>a_ledger := on_wagon_exit (a_ledger A) (tripwire_event tw t From_to conf False) (utc_now_iso (fnow (w_uuids (a_world A))))\<rparr>)"
proof -
  have c: "0 \<le> conf" using assms(6) by (simp add: confident_def confidence_threshold_def)
  have pe: "pyd_ok (pyd E)" using assms(1) by (simp add: env_ok_def)
  have o: "fst (observe_side (tw_last_side tw) t To_side (Some conf)) = Some From_to"
    using assms(6,8) by (auto simp: observe_crossing_iff)
  then obtain d where od: "observe_side (tw_last_side tw) t To_side (Some conf) = (Some From_to, d)"
    by (metis prod.collapse)
  let ?tw = "cancel_orphan (tw\<lparr>tw_last_side := d\<rparr>) t"
  have k: "wagon_kwargs ?tw t From_to conf = wagon_kwargs tw t From_to conf"
    by (simp add: cancel_orphan_def wagon_kwargs_def split: option.split)
  have em: "emit_wagon_exit E S j now ?tw t From_to conf False w =
      (Inr (), w\<lparr>w_uuids := Suc (w_uuids w), w_tick := Suc (Suc (w_tick w)),
         w_sent := w_sent w @ [PostEvent e, PostFusion ''/candidates/wagon_exit'' (exit_kwargs tw t From_to conf False)]\<rparr>)"
    using emit_event_acked [OF assms(4,5) exit_kwargs_valid [OF pe assms(2) c assms(7), of t From_to False]] assms(10)
    by (simp add: emit_wagon_exit_def k exit_kwargs_def [symmetric] wagon_dump)
  then have "on_crossing E S j now (tw\<lparr>tw_last_side := d\<rparr>) t From_to conf w = (r, tw', w')"
    using assms(9,11) od by (simp add: handle_detection_def)
  with em assms(3) exit_handled [OF assms(12,2) c assms(7), of FS fnow tick t From_to False A] show ?thesis
    by (auto simp: on_crossing_def arm_orphan_def Let_def)
qed

definition armed_tripwire :: tripwire where
  "armed_tripwire = sample_tripwire\<lparr>tw_last_side := [(7, From_side)]\<rparr>"

definition sample_exit_event :: envelope where
  "sample_exit_event = \<lparr>ev_id = sample_uuid 0, ev_journey_id = ''T1_RJ42_20260517'', ev_vehicle_id = ''OBB-TEST'',
     ev_timestamp = utc_now (sample_clock 0), ev_type = WAGON_EXIT, ev_severity = Sev_info,
     ev_source = Src_inference, ev_schema_version = 1, ev_payload = exit_kwargs armed_tripwire 7 From_to 1 False\<rparr>"

lemma armed_named: "tripwire_named armed_tripwire"
  by (simp add: tripwire_named_def armed_tripwire_def sample_tripwire_def)

lemma armed_exit_envelope:
  "infer_envelope (sample_env ds) default_infer_settings ''T1_RJ42_20260517'' (sample_uuid 0) (sample_clock 0) WAGON_EXIT
     (exit_kwargs armed_tripwire 7 From_to 1 False) Sev_info = Inr sample_exit_event"
proof -
  have "validate_payload_shape strict_pydantic WAGON_EXIT (exit_kwargs armed_tripwire 7 From_to 1 False)"
    using exit_kwargs_valid [OF strict_pydantic_ok armed_named, of 1 7 From_to False] by (auto simp: validate_payload_shape_def)
  moreover have "event_type_of ''WAGON_EXIT'' = Some WAGON_EXIT"
    using event_type_of_value [of WAGON_EXIT] by simp
  ultimately show ?thesis
    using sample_journey_ok
    by (simp add: infer_envelope_def validate_envelope_def default_str_def coerce_legacy_event_type_def sample_env_def
        severity_of_def source_of_def default_infer_settings_def validate_schema_version_def
        supported_schema_versions_def sample_exit_event_def)
qed

lemma strict_pydantic_ok_env: "pyd_ok (pyd (sample_env []))"
  using strict_pydantic_ok by (simp add: sample_env_def)

theorem crossing_reaches_ledger_witness:
  "w_sent (snd (snd (handle_detection (sample_env []) default_infer_settings ''T1_RJ42_20260517'' sample_clock armed_tripwire 7
      (330, 100, 350, 120) (Some 1) sample_world))) =
     [PostEvent sample_exit_event, PostFusion ''/candidates/wagon_exit'' (exit_kwargs armed_tripwire 7 From_to 1 False)]"
proof -
  obtain r tw' w' where h: "handle_detection (sample_env []) default_infer_settings ''T1_RJ42_20260517'' sample_clock armed_tripwire 7
      (330, 100, 350, 120) (Some 1) sample_world = (r, tw', w')" by (metis prod_cases3)
  let ?E = "sample_env []"
  have z: "tw_zone armed_tripwire \<noteq> ''gangway-aft''" "dget (tw_last_side armed_tripwire) 7 = Some From_side"
    "centroid_side (tc_polygon (tw_config armed_tripwire)) ((330 + 350) / 2) ((100 + 120) / 2) = To_side"
    by (simp_all add: armed_tripwire_def sample_tripwire_def centroid_side_def)
  have n: "net ?E (w_tick sample_world) = Acked" "net ?E (Suc (w_tick sample_world)) = Acked"
    "uuids ?E (w_uuids sample_world) = sample_uuid 0" "sample_clock (w_uuids sample_world) = sample_clock 0"
    by (simp_all add: sample_env_def sample_world_def)
  have c: "confident (Some 1)" "(1 :: rat) \<le> 1" by (simp_all add: confident_def confidence_threshold_def)
  from crossing_reaches_ledger [OF sample_env_ok armed_named z(1) n(1,2) c z(2,3)
      armed_exit_envelope [of "[]", folded n(3,4)] h strict_pydantic_ok_env]
  have "w_sent w' = w_sent sample_world @ [PostEvent sample_exit_event,
      PostFusion ''/candidates/wagon_exit'' (exit_kwargs armed_tripwire 7 From_to 1 False)]" by blast
  with h show ?thesis by (simp add: sample_world_def)
qed

text \<open>The orphan notice never arrives: what the tripwire posts to fusion when no entry follows
  an exit names a key the context endpoint does not declare, so fusion answers 422 and the notice
  is lost; the pending exit is forgotten all the same.\<close>

theorem orphan_notice_rejected:
  "(w_sent (snd (handle_orphaned_exit E tw t w)) = w_sent w \<or>
    w_sent (snd (handle_orphaned_exit E tw t w)) = w_sent w @ [PostFusion ''/context'' (orphan_body tw t)]) \<and>
   \<not> context_push_accepts (orphan_body tw t) \<and>
   \<not> dhas (tw_pending (fst (handle_orphaned_exit E tw t w))) t"
  using http_post_sent [of E "PostFusion ''/context'' (orphan_body tw t)" w, OF surjective_pairing]
  by (auto simp: handle_orphaned_exit_def context_push_accepts_def orphan_body_def context_push_keys_def dkeys_def)

text \<open>A fall alert takes the identifiers of a person off the train: every alert the fall
  endpoint sends names the raw camera id and the raw track id in its description, ALERT_RAISED is
  a pass-through type, and the egress filter releases the envelope unchanged.\<close>

theorem slip_fall_leaks:
  assumes "env_ok E" "candidate_alert_raised E S now p A = (r, A')"
    and "PostEvent e \<in> set (drop (length (w_sent (a_world A))) (w_sent (a_world A')))"
  shows "dget (ev_payload e) ''description'' = Some (JStr (''Suspected passenger fall detected by camera ('' @
      sf_camera_id p @ '', track '' @ show_int (sf_track_id p) @ '')'')) \<and>
    anonymise_envelope hm tx secret (envelope_json e) = Inr (Some (envelope_json e))"
proof -
  have "should_emit (a_ctx A)" using assms(2,3) by (auto simp: candidate_alert_raised_def split: if_splits)
  with assms(2) obtain r0 where em: "emit_alert E S (a_ctx A) now ''slip_fall'' (resolve_car_id (a_ctx A) (sf_car_id p))
      (slip_fall_description p) ''model'' None (Some (keep_or (sf_confidence p) 0))
      (Some (versions_or_unknown (keep_or (sf_model_versions p) []))) (a_world A) = (r0, a_world A')"
    by (auto simp: candidate_alert_raised_def split: prod.splits)
  from emit_alert_says [OF assms(1) em] assms(3)
  have "ev_type e = ALERT_RAISED" "dget (ev_payload e) ''description'' = Some (JStr (slip_fall_description p))" by auto
  then show ?thesis using alert_passes_through by (simp add: slip_fall_description_def)
qed

definition fallen :: slip_fall_candidate where
  "fallen = \<lparr>sf_car_id = ''A'', sf_track_id = 7, sf_camera_id = ''cam-1'', sf_confidence = Some 1,
     sf_model_versions = Some [(''detector_arch'', ''yolo'')]\<rparr>"

definition running_app :: fusion_app where
  "running_app = (init_app [])\<lparr>a_ctx := init_context\<lparr>c_journey_id := Some ''T1_RJ42_20260517''\<rparr>\<rparr>"

lemma fallen_valid:
  "validate_payload strict_pydantic ALERT_RAISED (alert_kwargs (sample_uuid 0) ''slip_fall'' ''A'' None
     (slip_fall_description fallen) ''normal'' (Some 1) ''model'' [(''detector_arch'', ''yolo'')] None) =
   Inr [(''alert_id'', JStr (sample_uuid 0)), (''alert_code'', JStr ''slip_fall''), (''car_id'', JStr ''A''),
     (''zone'', JNull), (''description'', JStr (slip_fall_description fallen)), (''auto_resolve_after_s'', JNull),
     (''priority'', JStr ''normal''), (''confidence_score'', JNum 1), (''confidence_basis'', JStr ''model''),
     (''model_versions'', JObj [(''detector_arch'', JStr ''yolo'')]), (''seconds_to_departure'', JNull)]"
proof -
  have "1 \<le> length (slip_fall_description fallen)" "1 \<le> length (sample_uuid 0)"
    by (simp_all add: slip_fall_description_def sample_uuid_def)
  then show ?thesis
    by (simp add: validate_payload_def validate_fields_def alert_raised_fields_def alert_kwargs_def field_names_def
        field_name_def dkeys_def strict_pydantic_def keep_if_def jopt_def jstrs_def
        payload_invariant_def validate_confidence_def jnum_of_def jsize_def)
qed

lemma fallen_sent:
  "\<exists>r A' e. candidate_alert_raised (sample_env []) default_settings sample_clock fallen running_app = (r, A') \<and>
     w_sent (a_world A') = [PostEvent e]"
proof -
  let ?E = "sample_env []" and ?c = "a_ctx running_app" and ?p = "slip_fall_description fallen"
  let ?kw = "alert_kwargs (sample_uuid 0) ''slip_fall'' ''A'' None ?p ''normal'' (Some 1) ''model''
     [(''detector_arch'', ''yolo'')] None"
  obtain v where v: "validate_payload strict_pydantic ALERT_RAISED ?kw = Inr v" using fallen_valid by blast
  then have "validate_payload_shape strict_pydantic ALERT_RAISED (model_dump ALERT_RAISED v)"
    using payload_dump_valid [OF strict_pydantic_ok v] by (simp add: validate_payload_shape_def)
  moreover have "event_type_of ''ALERT_RAISED'' = Some ALERT_RAISED"
    using event_type_of_value [of ALERT_RAISED] by simp
  ultimately obtain e where e: "build_envelope ?E default_settings ?c (sample_uuid 1) (sample_clock 1) ALERT_RAISED
      (model_dump ALERT_RAISED v) Sev_warning (Some (utc_now (sample_clock 0))) = Inr (Some e)"
    using sample_journey_ok sample_uuid_ok [of 1]
    by (simp add: build_envelope_def running_app_def init_context_def validate_envelope_def default_str_def
        coerce_legacy_event_type_def sample_env_def severity_of_def source_of_def default_settings_def str_or_def
        validate_schema_version_def supported_schema_versions_def utc_now_valid)
  have w: "a_world running_app = sample_world" by (simp add: running_app_def init_app_def sample_world_def)
  have "emit_alert ?E default_settings ?c sample_clock ''slip_fall'' ''A'' ?p ''model'' None (Some 1)
      (Some [(''detector_arch'', ''yolo'')]) sample_world =
      post_envelope ?E e (sample_world\<lparr>w_uuids := 2\<rparr>)"
    using v e by (simp add: emit_alert_def build_and_post_def draw_uuid_def sample_env_def sample_world_def running_app_def
        init_context_def seconds_to_departure_def severity_for_def numeral_eq_Suc)
  moreover have "\<exists>r w'. post_envelope ?E e (sample_world\<lparr>w_uuids := 2\<rparr>) = (r, w') \<and> w_sent w' = [PostEvent e]"
    by (simp add: post_envelope_def default_attempts_def numeral_eq_Suc http_post_def sample_env_def sample_world_def)
  moreover have "should_emit ?c" "resolve_car_id ?c ''A'' = ''A''"
    by (simp_all add: should_emit_def evaluate_def running_app_def init_context_def resolve_car_id_def str_or_def)
  ultimately show ?thesis
    using w by (auto simp: candidate_alert_raised_def fallen_def versions_or_unknown_def)
qed

theorem slip_fall_leaks_witness:
  "\<exists>e. PostEvent e \<in> set (w_sent (a_world (snd (candidate_alert_raised (sample_env []) default_settings sample_clock fallen running_app)))) \<and>
    dget (ev_payload e) ''description'' = Some (JStr (slip_fall_description fallen))"
proof -
  obtain r A' e where c: "candidate_alert_raised (sample_env []) default_settings sample_clock fallen running_app = (r, A')"
    "w_sent (a_world A') = [PostEvent e]" using fallen_sent by blast
  then have "PostEvent e \<in> set (drop (length (w_sent (a_world running_app))) (w_sent (a_world A')))"
    by (simp add: running_app_def init_app_def)
  from conjunct1 [OF slip_fall_leaks [OF sample_env_ok c(1) this]] c show ?thesis
    by (simp add: slip_fall_description_def)
qed

text \<open>What the event-store's table becomes when a list of envelopes is posted to it.\<close>

definition store_all :: "store \<Rightarrow> envelope list \<Rightarrow> store" where
  "store_all db es = foldl (\<lambda>db e. snd (insert_event db e)) db es"

lemma insert_snd:
  "snd (insert_event db e) =
     (if ev_schema_version e \<notin> set supported_schema_versions \<or> list_ex (clashes e) (db_events db) then db
      else db\<lparr>db_events := db_events db @ [e]\<rparr>)"
  by (simp add: insert_event_def)

lemma store_copies:
  "store_all db (replicate n e) = db \<or> store_all db (replicate n e) = db\<lparr>db_events := db_events db @ [e]\<rparr>"
proof -
  have same: "store_all d (replicate n e) = d" if "snd (insert_event d e) = d" for n d
    unfolding store_all_def by (induction n) (simp_all add: that)
  have "snd (insert_event (snd (insert_event db e)) e) = snd (insert_event db e)"
    by (simp add: insert_snd clashes_def)
  from same [OF this] show ?thesis
    by (cases n) (auto simp: store_all_def insert_snd)
qed

text \<open>A lost reply stores an event of the inference container twice: the retry builds the envelope
  again, with a fresh id and a fresh timestamp, so that neither of the event-store's two keys
  recognises the copy, and both are stored although the call reports one success.\<close>

theorem lost_reply_stored_twice:
  assumes "env_ok E" "net E (w_tick w) = Lost_reply" "net E (Suc (w_tick w)) = Acked"
    and "validate_payload (pyd E) et kwargs = Inr v"
    and "infer_envelope E S j (uuids E (w_uuids w)) (now (w_uuids w)) et (model_dump et v) sev = Inr e1"
    and "infer_envelope E S j (uuids E (Suc (w_uuids w))) (now (Suc (w_uuids w))) et (model_dump et v) sev = Inr e2"
    and "uuids E (w_uuids w) \<noteq> uuids E (Suc (w_uuids w))" "utc_now (now (w_uuids w)) \<noteq> utc_now (now (Suc (w_uuids w)))"
    and "emit_event E S j now et kwargs sev path w = (r, w')"
    and "\<not> list_ex (clashes e1) (db_events db)" "\<not> list_ex (clashes e2) (db_events db)"
  shows "r = Inr () \<and> (\<exists>es. sent_events (w_sent w') = sent_events (w_sent w) @ es \<and>
    db_events (store_all db es) = db_events db @ [e1, e2] \<and> ev_payload e1 = ev_payload e2)"
proof -
  note l = lost_reply_duplicates [OF assms(1-6,9)]
  have t: "ev_timestamp e1 = utc_now (now (w_uuids w))" "ev_timestamp e2 = utc_now (now (Suc (w_uuids w)))"
    using assms(5,6) by (auto simp: infer_envelope_def validate_envelope_def res_iff default_str_def)
  have ok: "ev_schema_version e1 \<in> set supported_schema_versions" "ev_schema_version e2 \<in> set supported_schema_versions"
    using infer_envelope_own [OF assms(1,5)] infer_envelope_own [OF assms(1,6)]
    by (simp_all add: envelope_ok_def validate_schema_version_def)
  have "\<not> clashes e2 e1" using l t assms(7,8) by (auto simp: clashes_def natural_key_def)
  then have "db_events (store_all db [e1, e2]) = db_events db @ [e1, e2]"
    using assms(10,11) ok by (simp add: store_all_def insert_snd)
  with l show ?thesis by blast
qed

theorem lost_reply_stored_twice_witness:
  "\<exists>w'. emit_event (sample_env [Lost_reply]) default_infer_settings ''T1_RJ42_20260517'' sample_clock RAMP_DEPLOYED sample_ramp Sev_info
      None sample_world = (Inr (), w') \<and>
    db_events (store_all init_db (sent_events (w_sent w'))) = [sample_ramp_event 0, sample_ramp_event 1]"
proof -
  let ?E = "sample_env [Lost_reply]"
  obtain r w' where e: "emit_event ?E default_infer_settings ''T1_RJ42_20260517'' sample_clock RAMP_DEPLOYED sample_ramp Sev_info
      None sample_world = (r, w')" by fastforce
  have n: "net ?E (w_tick sample_world) = Lost_reply" "net ?E (Suc (w_tick sample_world)) = Acked"
    by (simp_all add: sample_env_def sample_world_def)
  have v: "validate_payload (pyd ?E) RAMP_DEPLOYED sample_ramp = Inr sample_ramp"
    by (simp add: sample_env_def sample_ramp_valid)
  have u: "uuids ?E (w_uuids sample_world) = sample_uuid 0" "uuids ?E (Suc (w_uuids sample_world)) = sample_uuid 1"
    "sample_clock (w_uuids sample_world) = sample_clock 0" "sample_clock (Suc (w_uuids sample_world)) = sample_clock 1"
    by (simp_all add: sample_env_def sample_world_def)
  have d: "sample_uuid 0 \<noteq> sample_uuid 1" "utc_now (sample_clock 0) \<noteq> utc_now (sample_clock 1)"
  proof -
    show "sample_uuid 0 \<noteq> sample_uuid 1" by (simp add: sample_uuid_def)
    have "iso_head (sample_clock 0) = iso_head (sample_clock 1)" by (simp add: sample_clock_def iso_head_def)
    moreover have "zpad 6 0 \<noteq> zpad 6 1"
      using nat_of_digits_zpad [of 6 0] nat_of_digits_zpad [of 6 1] by auto
    ultimately show "utc_now (sample_clock 0) \<noteq> utc_now (sample_clock 1)"
      by (simp only: utc_now_eq sample_clock_def) simp
  qed
  have c: "\<not> list_ex (clashes e) (db_events init_db)" for e by (simp add: init_db_def)
  from lost_reply_stored_twice [OF sample_env_ok n v _ _ _ _ e c c, unfolded u, OF sample_ramp_envelope sample_ramp_envelope d] e
  show ?thesis by (auto simp: init_db_def sample_world_def)
qed

text \<open>An alert of fusion is stored once: however many of its at most five attempts reach the
  event-store, they carry one envelope, and posting them adds one row or, when the table already has
  its key, none; when the call succeeds for a known journey the table holds that key afterwards.\<close>

theorem alert_stored_once:
  assumes "env_ok E" "emit_alert E S c now code car desc basis zone score versions w = (r, w')"
  shows "\<exists>e es. sent_events (w_sent w') = sent_events (w_sent w) @ es \<and> set es \<subseteq> {e} \<and>
    (store_all db es = db \<or> store_all db es = db\<lparr>db_events := db_events db @ [e]\<rparr>) \<and>
    (r = Inr () \<and> c_journey_id c \<noteq> None \<longrightarrow> list_ex (clashes e) (db_events (store_all db es)))"
proof -
  have "sends_copies E c ALERT_RAISED (severity_for code (c_speed_kmh c)) (r, w') w"
    using emit_alert_sends [OF assms(1), of c code S now car desc basis zone score versions w] assms(2) by simp
  then obtain n e where ne: "w_sent w' = w_sent w @ replicate n (PostEvent e)"
    "0 < n \<longrightarrow> own_envelope E c ALERT_RAISED (severity_for code (c_speed_kmh c)) e"
    by (auto simp: sends_copies_def)
  have rep: "sent_events (replicate m (PostEvent e)) = replicate m e" for m
    by (induction m) simp_all
  have "list_ex (clashes e) (db_events (store_all db (replicate n e)))" if h: "r = Inr () \<and> c_journey_id c \<noteq> None"
  proof -
    have "w_sent w' \<noteq> w_sent w" using emit_alert_delivered [of E S c now code car desc basis zone score versions w w'] h assms(2) by simp
    then obtain m where m: "n = Suc m" using ne(1) by (cases n) auto
    with ne(2) have "ev_schema_version e \<in> set supported_schema_versions"
      by (auto simp: own_envelope_def envelope_ok_def validate_schema_version_def)
    then have "list_ex (clashes e) (db_events (snd (insert_event db e)))" by (simp add: insert_snd clashes_def)
    moreover have "store_all db (replicate n e) = store_all (snd (insert_event db e)) (replicate m e)"
      by (simp add: m store_all_def)
    ultimately show ?thesis using store_copies [of "snd (insert_event db e)" m e] by auto
  qed
  with ne(1) rep store_copies show ?thesis by (intro exI [of _ e] exI [of _ "replicate n e"]) auto
qed

theorem alert_stored_once_witness:
  "\<exists>e es. sent_events (w_sent (snd (emit_alert (sample_env [Lost_reply]) default_settings init_context sample_clock ''slip_fall'' ''A'' ''d''
      ''model'' None (Some 1) None sample_world))) = es \<and> set es \<subseteq> {e} \<and>
    (store_all init_db es = init_db \<or> store_all init_db es = init_db\<lparr>db_events := [e]\<rparr>)"
  using alert_stored_once [OF sample_env_ok surjective_pairing, of "[Lost_reply]" default_settings init_context sample_clock
      "''slip_fall''" "''A''" "''d''" "''model''" None "Some 1" None sample_world init_db]
  by (auto simp: sample_world_def init_db_def)

end
